(* ===== verification/Prelude.thy ===== *)
theory Prelude
  imports Main "HOL-Library.Multiset"
begin

text \<open>
  Shared vocabulary of the development. A function of the program that may throw is a HOL
  function into a sum \<open>'e + 'a\<close> (\<open>Inl\<close> the exception, \<open>Inr\<close> the value); a method that may
  throw \<^emph>\<open>and\<close> mutates its object is a function \<open>'s \<Rightarrow> ('e + 'a) \<times> 's\<close>, so that the state an
  exception leaves behind is part of the result and "a failed command changes nothing" is a
  theorem, never a consequence of the type. This theory holds the sequencing operators of
  both shapes, the collections the components' proofs share, and generic list lemmas.
\<close>

named_theorems parse_simps \<open>unfolding rules of the validators\<close>
named_theorems frame_simps \<open>what a helper leaves unchanged\<close>

section \<open>Functions that may throw\<close>

definition bindE :: "'e + 'a \<Rightarrow> ('a \<Rightarrow> 'e + 'b) \<Rightarrow> 'e + 'b" where
  "bindE m f = (case m of Inl e \<Rightarrow> Inl e | Inr a \<Rightarrow> f a)"

text \<open>\<open>requireE c e\<close> is the guard \<open>if (!c) throw e\<close>.\<close>

definition requireE :: "bool \<Rightarrow> 'e \<Rightarrow> 'e + unit" where
  "requireE c e = (if c then Inr () else Inl e)"

text \<open>\<open>mapE f xs\<close> is a loop that converts the items in order and stops at the first exception.\<close>

fun mapE :: "('a \<Rightarrow> 'e + 'b) \<Rightarrow> 'a list \<Rightarrow> 'e + 'b list" where
  "mapE f [] = Inr []"
| "mapE f (x # xs) = bindE (f x) (\<lambda>y. bindE (mapE f xs) (\<lambda>ys. Inr (y # ys)))"

text \<open>\<open>foldE f xs a\<close> is a loop over the items with an accumulator.\<close>

fun foldE :: "('x \<Rightarrow> 'a \<Rightarrow> 'e + 'a) \<Rightarrow> 'x list \<Rightarrow> 'a \<Rightarrow> 'e + 'a" where
  "foldE f [] a = Inr a"
| "foldE f (x # xs) a = bindE (f x a) (foldE f xs)"

text \<open>\<open>threadE f xs n\<close> converts the items in order while a counter is threaded through.\<close>

fun threadE :: "('x \<Rightarrow> 'n \<Rightarrow> 'e + ('y \<times> 'n)) \<Rightarrow> 'x list \<Rightarrow> 'n \<Rightarrow> 'e + ('y list \<times> 'n)" where
  "threadE f [] n = Inr ([], n)"
| "threadE f (x # xs) n =
     bindE (f x n) (\<lambda>(y, n'). bindE (threadE f xs n') (\<lambda>(ys, n''). Inr (y # ys, n'')))"

definition isOk :: "'e + 'a \<Rightarrow> bool" where
  "isOk r = (case r of Inl _ \<Rightarrow> False | Inr _ \<Rightarrow> True)"

lemma isOk_simps [simp]: "isOk (Inl e) = False" "isOk (Inr a) = True"
  by (simp_all add: isOk_def)

lemma isOk_iff: "isOk r \<longleftrightarrow> (\<exists>a. r = Inr a)"
  by (cases r) auto

lemma bindE_simps [simp]: "bindE (Inl e) f = Inl e" "bindE (Inr a) f = f a"
  by (simp_all add: bindE_def)

lemma bindE_Inr_iff: "bindE m f = Inr b \<longleftrightarrow> (\<exists>a. m = Inr a \<and> f a = Inr b)"
  by (cases m) auto

lemma bindE_Inl_iff: "bindE m f = Inl e \<longleftrightarrow> m = Inl e \<or> (\<exists>a. m = Inr a \<and> f a = Inl e)"
  by (cases m) auto

lemma if_Inl_Inr: "(if c then Inl e else m) = Inr x \<longleftrightarrow> \<not> c \<and> m = Inr x"
  by simp

lemma requireE_simps [simp]: "requireE True e = Inr ()" "requireE False e = Inl e"
  by (simp_all add: requireE_def)

lemma requireE_Inr_iff [simp]: "requireE c e = Inr u \<longleftrightarrow> c"
  by (simp add: requireE_def)

lemma requireE_Inl_iff [simp]: "requireE c e = Inl e' \<longleftrightarrow> \<not> c \<and> e = e'"
  by (auto simp: requireE_def)

lemma bindE_cong [fundef_cong]:
  "m = m' \<Longrightarrow> (\<And>a. m' = Inr a \<Longrightarrow> f a = f' a) \<Longrightarrow> bindE m f = bindE m' f'"
  by (cases m') auto

lemma mapE_cong [fundef_cong]:
  "xs = ys \<Longrightarrow> (\<And>x. x \<in> set ys \<Longrightarrow> f x = g x) \<Longrightarrow> mapE f xs = mapE g ys"
  by (induction ys arbitrary: xs) (auto intro!: bindE_cong)

lemma threadE_cong [fundef_cong]:
  "xs = ys \<Longrightarrow> n = m \<Longrightarrow> (\<And>x k. x \<in> set ys \<Longrightarrow> f x k = g x k) \<Longrightarrow> threadE f xs n = threadE g ys m"
proof (induction ys arbitrary: xs n m)
  case Nil
  then show ?case by simp
next
  case (Cons y ys)
  have rest: "threadE f ys k = threadE g ys k" for k
    by (rule Cons.IH) (use Cons.prems(3) in auto)
  show ?case using Cons.prems by (simp add: rest)
qed

text \<open>A converted list converts again, to itself, when every item does.\<close>

lemma threadE_again:
  assumes "threadE f xs n = Inr (ys, m)"
    and "\<And>x k y k'. x \<in> set xs \<Longrightarrow> f x k = Inr (y, k') \<Longrightarrow> g (h y) k = Inr (y, k')"
  shows "threadE g (map h ys) n = Inr (ys, m)"
  using assms
proof (induction xs arbitrary: ys n)
  case Nil
  then show ?case by simp
next
  case (Cons x xs)
  from Cons.prems(1) obtain y k ys' where
    x: "f x n = Inr (y, k)" and xs: "threadE f xs k = Inr (ys', m)" and ys: "ys = y # ys'"
    by (auto simp: bindE_Inr_iff)
  have "threadE g (map h ys') k = Inr (ys', m)"
    using xs Cons.prems(2) by (intro Cons.IH) auto
  moreover have "g (h y) n = Inr (y, k)" using x Cons.prems(2) by auto
  ultimately show ?case by (simp add: ys)
qed

lemma threadE_list_all2:
  "threadE f xs n = Inr (ys, m) \<Longrightarrow> list_all2 (\<lambda>x y. \<exists>k k'. f x k = Inr (y, k')) xs ys"
  by (induction xs arbitrary: n ys) (auto simp: bindE_Inr_iff list_all2_Cons1)

lemma threadE_length: "threadE f xs n = Inr (ys, m) \<Longrightarrow> length ys = length xs"
  by (induction xs arbitrary: n ys) (auto simp: bindE_Inr_iff)

lemma mapE_Inr_iff: "mapE f xs = Inr ys \<longleftrightarrow> list_all2 (\<lambda>x y. f x = Inr y) xs ys"
  by (induction xs arbitrary: ys) (auto simp: bindE_Inr_iff list_all2_Cons1)

lemma mapE_map_Inr: "(\<And>x. x \<in> set xs \<Longrightarrow> f (g x) = Inr (h x)) \<Longrightarrow> mapE f (map g xs) = Inr (map h xs)"
  by (induction xs) auto

lemma mapE_length: "mapE f xs = Inr ys \<Longrightarrow> length ys = length xs"
  by (auto simp: mapE_Inr_iff dest: list_all2_lengthD)

lemma mapE_set: "mapE f xs = Inr ys \<Longrightarrow> y \<in> set ys \<Longrightarrow> \<exists>x \<in> set xs. f x = Inr y"
  by (induction xs arbitrary: ys) (auto simp: bindE_Inr_iff)

lemma foldE_append: "foldE f (xs @ ys) a = bindE (foldE f xs a) (foldE f ys)"
proof (induction xs arbitrary: a)
  case Nil
  show ?case by simp
next
  case (Cons x xs)
  then show ?case by (cases "f x a") simp_all
qed

text \<open>The loop rule: what holds of the accumulator and is kept by a step that does not throw
  holds of the result.\<close>

lemma foldE_inv:
  assumes "foldE f xs a = Inr b" and "P a"
    and "\<And>x a b. x \<in> set xs \<Longrightarrow> P a \<Longrightarrow> f x a = Inr b \<Longrightarrow> P b"
  shows "P b"
  using assms
proof (induction xs arbitrary: a)
  case Nil
  then show ?case by simp
next
  case (Cons x xs)
  from Cons.prems(1) obtain c where "f x a = Inr c" and c: "foldE f xs c = Inr b"
    by (auto simp: bindE_Inr_iff)
  then have "P c" using Cons.prems(2,3) by (meson list.set_intros(1))
  then show ?case using Cons.IH [OF c] Cons.prems(3) by (meson list.set_intros(2))
qed

lemma mapE_permuted:
  assumes "mset xs = mset xs'" and "mapE f xs = Inr ys"
  shows "\<exists>ys'. mapE f xs' = Inr ys' \<and> mset ys' = mset ys"
proof -
  let ?g = "\<lambda>x. projr (f x)"
  have all: "f x = Inr (?g x)" if "x \<in> set xs" for x
    using assms(2) that by (induction xs arbitrary: ys) (auto simp: bindE_Inr_iff)
  then have "mapE f xs = Inr (map ?g xs)" "mapE f xs' = Inr (map ?g xs')"
    using mapE_map_Inr [of xs f id ?g] mapE_map_Inr [of xs' f id ?g] mset_eq_setD [OF assms(1)] by auto
  then show ?thesis using assms by (auto simp: mset_map)
qed

section \<open>Methods: exceptions over a mutable object\<close>

type_synonym ('s, 'e, 'a) action = "'s \<Rightarrow> ('e + 'a) \<times> 's"

definition returnS :: "'a \<Rightarrow> ('s, 'e, 'a) action" where
  "returnS a = (\<lambda>s. (Inr a, s))"

definition throwS :: "'e \<Rightarrow> ('s, 'e, 'a) action" where
  "throwS e = (\<lambda>s. (Inl e, s))"

definition liftS :: "'e + 'a \<Rightarrow> ('s, 'e, 'a) action" where
  "liftS r = (\<lambda>s. (r, s))"

text \<open>\<open>readS f\<close> reads the object; \<open>checkS f\<close> evaluates a guard that reads it and may throw.\<close>

definition readS :: "('s \<Rightarrow> 'a) \<Rightarrow> ('s, 'e, 'a) action" where
  "readS f = (\<lambda>s. (Inr (f s), s))"

definition checkS :: "('s \<Rightarrow> 'e + 'a) \<Rightarrow> ('s, 'e, 'a) action" where
  "checkS f = (\<lambda>s. (f s, s))"

definition modifyS :: "('s \<Rightarrow> 's) \<Rightarrow> ('s, 'e, unit) action" where
  "modifyS f = (\<lambda>s. (Inr (), f s))"

definition bindS :: "('s, 'e, 'a) action \<Rightarrow> ('a \<Rightarrow> ('s, 'e, 'b) action) \<Rightarrow> ('s, 'e, 'b) action" where
  "bindS m f = (\<lambda>s. case m s of (Inl e, t) \<Rightarrow> (Inl e, t) | (Inr a, t) \<Rightarrow> f a t)"

text \<open>\<open>finallyS m f\<close> is \<open>try { m } finally { f }\<close> for a \<open>f\<close> that only assigns.\<close>

definition finallyS :: "('s, 'e, 'a) action \<Rightarrow> ('s \<Rightarrow> 's) \<Rightarrow> ('s, 'e, 'a) action" where
  "finallyS m f = (\<lambda>s. case m s of (r, t) \<Rightarrow> (r, f t))"

text \<open>\<open>forS f xs a\<close> is a loop over the items whose body is a method and threads a local value.\<close>

fun forS :: "('x \<Rightarrow> 'a \<Rightarrow> ('s, 'e, 'a) action) \<Rightarrow> 'x list \<Rightarrow> 'a \<Rightarrow> ('s, 'e, 'a) action" where
  "forS f [] a = returnS a"
| "forS f (x # xs) a = bindS (f x a) (forS f xs)"

text \<open>Running a method: each primitive evaluates, so a method applied to a state unfolds to
  the cascade of its guards.\<close>

lemma run_simps [simp]:
  "returnS a s = (Inr a, s)" "throwS e s = (Inl e, s)" "liftS r s = (r, s)"
  "readS f s = (Inr (f s), s)" "checkS g s = (g s, s)" "modifyS h s = (Inr (), h s)"
  by (simp_all add: returnS_def throwS_def liftS_def readS_def checkS_def modifyS_def)

lemma bindS_run [simp]:
  "m s = (Inl e, t) \<Longrightarrow> bindS m f s = (Inl e, t)"
  "m s = (Inr a, t) \<Longrightarrow> bindS m f s = f a t"
  by (simp_all add: bindS_def)

lemma finallyS_run [simp]: "m s = (r, t) \<Longrightarrow> finallyS m f s = (r, f t)"
  by (simp add: finallyS_def)

lemma bindS_Inr_iff:
  "bindS m f s = (Inr b, u) \<longleftrightarrow> (\<exists>a t. m s = (Inr a, t) \<and> f a t = (Inr b, u))"
  by (auto simp: bindS_def split: prod.splits sum.splits)

lemma bindS_Inl_iff:
  "bindS m f s = (Inl e, u) \<longleftrightarrow>
     m s = (Inl e, u) \<or> (\<exists>a t. m s = (Inr a, t) \<and> f a t = (Inl e, u))"
  by (auto simp: bindS_def split: prod.splits sum.splits)

text \<open>A method is \<^emph>\<open>atomic at\<close> a state when an exception leaves that state unchanged, and a
  \<^emph>\<open>query\<close> when it never changes the state.\<close>

definition atomicAt :: "('s, 'e, 'a) action \<Rightarrow> 's \<Rightarrow> bool" where
  "atomicAt m s \<longleftrightarrow> (\<forall>e t. m s = (Inl e, t) \<longrightarrow> t = s)"

definition queryAt :: "('s, 'e, 'a) action \<Rightarrow> 's \<Rightarrow> bool" where
  "queryAt m s \<longleftrightarrow> snd (m s) = s"

lemma queryAt_prims [simp, intro]:
  "queryAt (returnS a) s" "queryAt (throwS e) s" "queryAt (liftS r) s"
  "queryAt (readS f) s" "queryAt (checkS g) s"
  by (simp_all add: queryAt_def)

lemma atomicAt_prims [simp, intro]:
  "atomicAt (returnS a) s" "atomicAt (throwS e) s" "atomicAt (liftS r) s"
  "atomicAt (readS f) s" "atomicAt (checkS g) s" "atomicAt (modifyS h) s"
  by (simp_all add: atomicAt_def)

lemma atomicAt_bind_query:
  "queryAt m s \<Longrightarrow> (\<And>a. m s = (Inr a, s) \<Longrightarrow> atomicAt (f a) s) \<Longrightarrow> atomicAt (bindS m f) s"
  by (cases "m s"; cases "fst (m s)") (auto simp: queryAt_def atomicAt_def)

lemma bindS_query_Inr:
  "queryAt m s \<Longrightarrow> bindS m f s = (Inr b, u) \<longleftrightarrow> (\<exists>a. m s = (Inr a, s) \<and> f a s = (Inr b, u))"
  by (cases "m s") (auto simp: queryAt_def bindS_Inr_iff)

section \<open>Lists\<close>

lemma list_all2_self_map: "list_all2 (\<lambda>x y. y = f x) xs (map f xs)"
  by (simp add: list_all2_conv_all_nth)

lemma sort_key_mset [simp]: "mset (sort_key f xs) = mset xs"
  by simp

lemma find_Some_iff_distinct:
  assumes "distinct (map f xs)"
  shows "List.find (\<lambda>x. f x = k) xs = Some y \<longleftrightarrow> y \<in> set xs \<and> f y = k"
  using assms by (induction xs) (auto split: if_splits)

lemma find_None_iff_key: "List.find (\<lambda>x. f x = k) xs = None \<longleftrightarrow> k \<notin> f ` set xs"
  by (auto simp: find_None_iff)

lemma distinct_map_inj_on_eq:
  "distinct (map f xs) \<Longrightarrow> x \<in> set xs \<Longrightarrow> y \<in> set xs \<Longrightarrow> f x = f y \<Longrightarrow> x = y"
  by (metis distinct_map inj_onD)

text \<open>Replacing the one item that carries a key.\<close>

definition replaceBy :: "('a \<Rightarrow> 'k) \<Rightarrow> 'a \<Rightarrow> 'a list \<Rightarrow> 'a list" where
  "replaceBy f y xs = map (\<lambda>x. if f x = f y then y else x) xs"

lemma replaceBy_keys [simp]: "map f (replaceBy f y xs) = map f xs"
  by (simp add: replaceBy_def)

lemma replaceBy_length [simp]: "length (replaceBy f y xs) = length xs"
  by (simp add: replaceBy_def)

lemma replaceBy_set:
  "x \<in> set (replaceBy f y xs) \<longleftrightarrow>
     (x = y \<and> f y \<in> f ` set xs) \<or> (x \<in> set xs \<and> f x \<noteq> f y)"
  unfolding replaceBy_def by (induction xs) auto

lemma find_replaceBy:
  "List.find (\<lambda>x. f x = k) (replaceBy f y xs) =
     (if k = f y then (if k \<in> f ` set xs then Some y else None)
      else List.find (\<lambda>x. f x = k) xs)"
  by (induction xs) (auto simp: replaceBy_def)

lemma pred_option_case [code]: "pred_option P x \<longleftrightarrow> (case x of None \<Rightarrow> True | Some y \<Rightarrow> P y)"
  by (cases x) simp_all

section \<open>Stable sorting by a comparison\<close>

text \<open>The stable sort of \<open>Array.prototype.sort\<close> for a comparison that is a total preorder: \<open>ahead x y\<close> when \<open>x\<close> may stand first.\<close>

fun insertBy :: "('a \<Rightarrow> 'a \<Rightarrow> bool) \<Rightarrow> 'a \<Rightarrow> 'a list \<Rightarrow> 'a list" where
  "insertBy ahead x [] = [x]"
| "insertBy ahead x (y # ys) = (if ahead x y then x # y # ys else y # insertBy ahead x ys)"

definition sortBy :: "('a \<Rightarrow> 'a \<Rightarrow> bool) \<Rightarrow> 'a list \<Rightarrow> 'a list" where
  "sortBy ahead xs = foldr (insertBy ahead) xs []"

lemma insertBy_set [simp]: "set (insertBy ahead x ys) = insert x (set ys)"
  by (induction ys) auto

lemma insertBy_mset: "mset (insertBy ahead x ys) = add_mset x (mset ys)"
  by (induction ys) auto

lemma sortBy_mset [simp]: "mset (sortBy ahead xs) = mset xs"
  unfolding sortBy_def by (induction xs) (simp_all add: insertBy_mset)

lemma sortBy_set [simp]: "set (sortBy ahead xs) = set xs"
  by (metis set_mset_mset sortBy_mset)

lemma insertBy_sorted:
  assumes trans: "\<And>a b c. ahead a b \<Longrightarrow> ahead b c \<Longrightarrow> ahead a c" and total: "\<And>a b. ahead a b \<or> ahead b a"
  shows "sorted_wrt ahead ys \<Longrightarrow> sorted_wrt ahead (insertBy ahead x ys)"
proof (induction ys)
  case (Cons y ys)
  then show ?case using total [of x y] trans by auto
qed simp

lemma sortBy_sorted:
  assumes "\<And>a b c. ahead a b \<Longrightarrow> ahead b c \<Longrightarrow> ahead a c" and "\<And>a b. ahead a b \<or> ahead b a"
  shows "sorted_wrt ahead (sortBy ahead xs)"
  unfolding sortBy_def by (induction xs) (simp_all add: insertBy_sorted [OF assms])

lemma sorted_wrt_unique:
  assumes "mset xs = mset ys" and "sorted_wrt ahead xs" and "sorted_wrt ahead ys"
    and "\<And>a b. a \<in> set xs \<Longrightarrow> b \<in> set xs \<Longrightarrow> ahead a b \<Longrightarrow> ahead b a \<Longrightarrow> a = b" and refl: "\<And>a. ahead a a"
  shows "xs = ys"
  using assms(1-4)
proof (induction xs arbitrary: ys)
  case (Cons x xs)
  then obtain y ys' where ys: "ys = y # ys'" by (cases ys) auto
  have members: "set (x # xs) = set ys" using Cons.prems(1) by (metis set_mset_mset)
  have "x \<in> set ys" "y \<in> set (x # xs)" using members ys by auto
  then have "ahead y x" "ahead x y" using Cons.prems(2,3) refl unfolding ys by auto
  then have "x = y" using Cons.prems(4) \<open>y \<in> set (x # xs)\<close> by auto
  moreover have "xs = ys'"
    using Cons.prems calculation by (intro Cons.IH) (auto simp: ys)
  ultimately show ?case by (simp add: ys)
qed simp

end
