(* ===== verification/Js_Value.thy ===== *)
theory Js_Value
  imports Prelude "HOL-Library.Char_ord"
begin

text \<open>
  The part of the language the program is written in that its validators observe: numbers,
  strings, and values of type \<open>unknown\<close> as reflection shows them (\<open>typeof\<close>, prototypes, own
  keys, property descriptors, holes). A string is a list of code units; \<open>char\<close> covers the code
  units below 256, which include every character the program's patterns test and every
  character of its own texts. Object graphs are trees: a value that contains itself is not
  representable (the program rejects it with the exception of its other JSON guards).
\<close>

section \<open>Numbers\<close>

text \<open>\<open>NFrac m e\<close> is the finite non-integer \<open>m * 2 ^ e\<close> (\<open>e < 0\<close>); \<open>NNegZero\<close> is \<open>-0\<close>.\<close>

datatype jsnum = NInt int | NNegZero | NFrac int int | NNaN | NInfinity bool

abbreviation MAX_SAFE_INTEGER :: int where
  "MAX_SAFE_INTEGER \<equiv> 9007199254740991"

fun isSafeInteger :: "jsnum \<Rightarrow> bool" where
  "isSafeInteger (NInt i) \<longleftrightarrow> \<bar>i\<bar> \<le> MAX_SAFE_INTEGER"
| "isSafeInteger NNegZero \<longleftrightarrow> True"
| "isSafeInteger _ \<longleftrightarrow> False"

fun isFiniteNum :: "jsnum \<Rightarrow> bool" where
  "isFiniteNum NNaN \<longleftrightarrow> False"
| "isFiniteNum (NInfinity _) \<longleftrightarrow> False"
| "isFiniteNum _ \<longleftrightarrow> True"

text \<open>The value of an integral number; \<open>-0\<close> reads as \<open>0\<close>, as \<open>Object.is(v, -0) ? 0 : v\<close> does.\<close>

fun intOf :: "jsnum \<Rightarrow> int" where
  "intOf (NInt i) = i"
| "intOf _ = 0"

fun dropNegZero :: "jsnum \<Rightarrow> jsnum" where
  "dropNegZero NNegZero = NInt 0"
| "dropNegZero n = n"

lemma dropNegZero_idem [simp]: "dropNegZero (dropNegZero n) = dropNegZero n"
  by (cases n) auto

lemma isFiniteNum_dropNegZero [simp]: "isFiniteNum (dropNegZero n) = isFiniteNum n"
  by (cases n) auto

section \<open>Strings\<close>

definition codeUnit :: "char \<Rightarrow> nat" where
  "codeUnit c = of_char c"

lemma codeUnit_inj [simp]: "codeUnit a = codeUnit b \<longleftrightarrow> a = b"
  by (simp add: codeUnit_def)

text \<open>\<open><\<close> on strings, and the order of \<open>Array.prototype.sort\<close>: lexicographic by code unit.\<close>

fun strLess :: "string \<Rightarrow> string \<Rightarrow> bool" where
  "strLess [] [] \<longleftrightarrow> False"
| "strLess [] (_ # _) \<longleftrightarrow> True"
| "strLess (_ # _) [] \<longleftrightarrow> False"
| "strLess (a # as) (b # bs) \<longleftrightarrow> codeUnit a < codeUnit b \<or> (a = b \<and> strLess as bs)"

lemma strLess_irrefl [simp]: "\<not> strLess s s"
  by (induction s) auto

lemma strLess_trans: "strLess a b \<Longrightarrow> strLess b c \<Longrightarrow> strLess a c"
  by (induction a b arbitrary: c rule: strLess.induct) (case_tac c; auto)+

lemma strLess_total: "strLess a b \<or> a = b \<or> strLess b a"
  by (induction a b rule: strLess.induct) (auto simp: neq_iff simp flip: codeUnit_inj)

lemma strLess_append:
  "length a = length c \<Longrightarrow> strLess (a @ b) (c @ d) \<longleftrightarrow> strLess a c \<or> (a = c \<and> strLess b d)"
  by (induction a c rule: list_induct2) auto

text \<open>Sorting object keys: insertion into a list that is sorted by key.\<close>

fun insertKey :: "string \<times> 'a \<Rightarrow> (string \<times> 'a) list \<Rightarrow> (string \<times> 'a) list" where
  "insertKey x [] = [x]"
| "insertKey x (y # ys) = (if strLess (fst y) (fst x) then y # insertKey x ys else x # y # ys)"

definition sortKeys :: "(string \<times> 'a) list \<Rightarrow> (string \<times> 'a) list" where
  "sortKeys xs = foldr insertKey xs []"

lemma mset_insertKey [simp]: "mset (insertKey x ys) = add_mset x (mset ys)"
  by (induction ys) auto

lemma mset_sortKeys [simp]: "mset (sortKeys xs) = mset xs"
  unfolding sortKeys_def by (induction xs) auto

lemma set_sortKeys [simp]: "set (sortKeys xs) = set xs"
  using mset_eq_setD mset_sortKeys by blast

lemma length_sortKeys [simp]: "length (sortKeys xs) = length xs"
  using mset_eq_length mset_sortKeys by blast

abbreviation sortedKeys :: "(string \<times> 'a) list \<Rightarrow> bool" where
  "sortedKeys xs \<equiv> sorted_wrt (\<lambda>a b. \<not> strLess (fst b) (fst a)) xs"

lemma sortedKeys_insertKey: "sortedKeys ys \<Longrightarrow> sortedKeys (insertKey x ys)"
proof (induction ys)
  case Nil
  show ?case by simp
next
  case (Cons y ys)
  have set_ins: "set (insertKey x ys) = insert x (set ys)"
    by (metis mset_insertKey set_mset_add_mset_insert set_mset_mset)
  show ?case
  proof (cases "strLess (fst y) (fst x)")
    case True
    then have "\<not> strLess (fst x) (fst y)"
      using strLess_irrefl strLess_trans by blast
    with True Cons show ?thesis by (auto simp: set_ins)
  next
    case False
    have "\<not> strLess (fst z) (fst x)" if "z \<in> set ys" for z
    proof
      assume z: "strLess (fst z) (fst x)"
      have "\<not> strLess (fst z) (fst y)" using Cons.prems that by auto
      then have "fst y = fst z \<or> strLess (fst y) (fst z)" using strLess_total by blast
      with z False show False using strLess_trans by auto
    qed
    with False Cons.prems show ?thesis by auto
  qed
qed

lemma sortedKeys_sortKeys: "sortedKeys (sortKeys xs)"
  unfolding sortKeys_def by (induction xs) (auto intro: sortedKeys_insertKey)

lemma insertKey_sorted: "sortedKeys (x # ys) \<Longrightarrow> insertKey x ys = x # ys"
  by (cases ys) auto

lemma sortKeys_sorted: "sortedKeys xs \<Longrightarrow> sortKeys xs = xs"
proof (induction xs)
  case Nil
  show ?case by (simp add: sortKeys_def)
next
  case (Cons x xs)
  then have "sortKeys (x # xs) = insertKey x xs" by (auto simp: sortKeys_def)
  also have "\<dots> = x # xs" using Cons.prems by (rule insertKey_sorted)
  finally show ?case .
qed

text \<open>\<open>String.prototype.trim\<close> on the white space below 256.\<close>

definition isSpace :: "char \<Rightarrow> bool" where
  "isSpace c \<longleftrightarrow> codeUnit c \<in> {9, 10, 11, 12, 13, 32, 160}"

definition trim :: "string \<Rightarrow> string" where
  "trim s = rev (dropWhile isSpace (rev (dropWhile isSpace s)))"

lemma dropWhile_rev_dropWhile:
  "dropWhile p xs = xs \<Longrightarrow> dropWhile p (rev (dropWhile p (rev xs))) = rev (dropWhile p (rev xs))"
proof -
  assume xs: "dropWhile p xs = xs"
  obtain ys where ys: "xs = rev (dropWhile p (rev xs)) @ ys"
    by (metis rev_append rev_rev_ident takeWhile_dropWhile_id)
  show ?thesis
  proof (cases "rev (dropWhile p (rev xs))")
    case Nil
    then show ?thesis by (simp only: dropWhile.simps)
  next
    case (Cons z zs)
    then have "hd xs = z" "xs \<noteq> []" using ys by (metis append_Cons list.sel(1), metis append_Cons list.discI ys)
    then have "\<not> p z" using xs by (metis hd_dropWhile)
    with Cons show ?thesis by simp
  qed
qed

lemma trim_idem [simp]: "trim (trim s) = trim s"
proof -
  let ?a = "dropWhile isSpace s"
  have "dropWhile isSpace ?a = ?a" by (rule dropWhile_idem)
  then have "dropWhile isSpace (trim s) = trim s"
    unfolding trim_def by (rule dropWhile_rev_dropWhile)
  moreover have "dropWhile isSpace (rev (trim s)) = rev (trim s)"
    by (simp add: trim_def)
  ultimately show ?thesis by (metis rev_rev_ident trim_def)
qed

lemma length_trim_le: "length (trim s) \<le> length s"
  unfolding trim_def by (metis length_dropWhile_le length_rev order.trans)

subsection \<open>Character classes and patterns\<close>

definition isDigit :: "char \<Rightarrow> bool" where
  "isDigit c \<longleftrightarrow> 48 \<le> codeUnit c \<and> codeUnit c \<le> 57"

definition isUpper :: "char \<Rightarrow> bool" where
  "isUpper c \<longleftrightarrow> 65 \<le> codeUnit c \<and> codeUnit c \<le> 90"

definition isLower :: "char \<Rightarrow> bool" where
  "isLower c \<longleftrightarrow> 97 \<le> codeUnit c \<and> codeUnit c \<le> 122"

text \<open>The shape \<open>/^[first][rest]{0,n}$/\<close> shared by the program's identifier patterns.\<close>

fun headTail :: "(char \<Rightarrow> bool) \<Rightarrow> (char \<Rightarrow> bool) \<Rightarrow> nat \<Rightarrow> string \<Rightarrow> bool" where
  "headTail first rest n [] \<longleftrightarrow> False"
| "headTail first rest n (c # cs) \<longleftrightarrow> first c \<and> list_all rest cs \<and> length cs \<le> n"

section \<open>Values of type \<open>unknown\<close>\<close>

datatype jskey = KStr string | KSym nat

text \<open>
  \<open>JObj plain fields\<close>: an object; \<open>plain\<close> says that its prototype is \<open>Object.prototype\<close> or
  \<open>null\<close>; a field carries its key, whether it is an enumerable data property, and its value.
  \<open>JArr plain items extra\<close>: an array; \<open>plain\<close> says that its prototype is \<open>Array.prototype\<close>; an
  item is a hole (\<open>None\<close>) or an element with the same flag; \<open>extra\<close> are its own keys other than
  the indices and \<open>length\<close>. \<open>JTrap isArray\<close>: a proxy whose reflection traps throw.
\<close>

datatype jsval =
    JUndef
  | JNull
  | JBool bool
  | JNum jsnum
  | JStr string
  | JSym nat
  | JFun nat
  | JObj bool "(jskey \<times> bool \<times> jsval) list"
  | JArr bool "(bool \<times> jsval) option list" "jskey list"
  | JTrap bool

fun isSymKey :: "jskey \<Rightarrow> bool" where
  "isSymKey (KSym _) \<longleftrightarrow> True"
| "isSymKey (KStr _) \<longleftrightarrow> False"

fun keyName :: "jskey \<Rightarrow> string" where
  "keyName (KStr s) = s"
| "keyName (KSym _) = []"

text \<open>Object and array literals of the program.\<close>

definition plainObj :: "(string \<times> jsval) list \<Rightarrow> jsval" where
  "plainObj fs = JObj True (map (\<lambda>(k, v). (KStr k, True, v)) fs)"

definition plainArr :: "jsval list \<Rightarrow> jsval" where
  "plainArr vs = JArr True (map (\<lambda>v. Some (True, v)) vs) []"

text \<open>A record copied by a validator, and \<open>record["k"]\<close> on it.\<close>

type_synonym jsrecord = "(string \<times> jsval) list"

definition fld :: "jsrecord \<Rightarrow> string \<Rightarrow> jsval" where
  "fld r k = (case map_of r k of None \<Rightarrow> JUndef | Some v \<Rightarrow> v)"

lemma fld_Cons [simp]: "fld ((k, v) # r) k' = (if k = k' then v else fld r k')"
  by (simp add: fld_def)

lemma fld_Nil [simp]: "fld [] k = JUndef"
  by (simp add: fld_def)

definition DANGEROUS_OBJECT_KEYS :: "string list" where
  "DANGEROUS_OBJECT_KEYS = [''__proto__'', ''constructor'', ''prototype'']"

text \<open>An integer or a nullable value as a JavaScript value.\<close>

abbreviation jsInt :: "int \<Rightarrow> jsval" where
  "jsInt i \<equiv> JNum (NInt i)"

fun jsNullable :: "('a \<Rightarrow> jsval) \<Rightarrow> 'a option \<Rightarrow> jsval" where
  "jsNullable f None = JNull"
| "jsNullable f (Some a) = f a"

section \<open>JSON values\<close>

datatype json =
    JsonNull
  | JsonBool bool
  | JsonNum jsnum
  | JsonStr string
  | JsonArr "json list"
  | JsonObj "(string \<times> json) list"

text \<open>A JSON value seen again as a value of type \<open>unknown\<close>.\<close>

fun jsonVal :: "json \<Rightarrow> jsval" where
  "jsonVal JsonNull = JNull"
| "jsonVal (JsonBool b) = JBool b"
| "jsonVal (JsonNum n) = JNum n"
| "jsonVal (JsonStr s) = JStr s"
| "jsonVal (JsonArr js) = plainArr (map jsonVal js)"
| "jsonVal (JsonObj fs) = plainObj (map (\<lambda>(k, j). (k, jsonVal j)) fs)"

end
