(* ===== verification/Js_Date.thy ===== *)
theory Js_Date
  imports Js_Value
begin

text \<open>
  The instants and timestamps of the program. A valid \<open>Date\<close> is its time value (milliseconds
  since 1970-01-01T00:00:00Z); the program stores instants as the strings \<open>toISOString\<close> gives
  and accepts a string only when it is its own canonical form. \<open>toISOString\<close> is the proleptic
  Gregorian calendar with the four-digit and the extended six-digit year; \<open>isoInstant\<close> is the
  check \<open>new Date(s).toISOString() === s\<close> together with the instant it denotes. Strings are
  compared by code unit, which agrees with time inside the years 0 to 9999 only
  (\<open>strLess_toISOString\<close>).
\<close>

definition isLeap :: "int \<Rightarrow> bool" where
  "isLeap y \<longleftrightarrow> 4 dvd y \<and> (100 dvd y \<longrightarrow> 400 dvd y)"

definition monthLengths :: "int \<Rightarrow> int list" where
  "monthLengths y = [31, if isLeap y then 29 else 28, 31, 30, 31, 30, 31, 31, 30, 31, 30, 31]"

text \<open>Days between 0001-01-01 and the first day of year \<open>y\<close>.\<close>

definition daysBeforeYear :: "int \<Rightarrow> int" where
  "daysBeforeYear y = 365 * (y - 1) + (y - 1) div 4 - (y - 1) div 100 + (y - 1) div 400"

text \<open>Year and day of the year of a day counted from 0001-01-01.\<close>

definition yearAndDay :: "int \<Rightarrow> int \<times> int" where
  "yearAndDay n =
     (let a = n div 146097; d1 = n mod 146097;
          b = min 3 (d1 div 36524); d2 = d1 - 36524 * b;
          c = d2 div 1461; d3 = d2 mod 1461;
          e = min 3 (d3 div 365)
      in (400 * a + 100 * b + 4 * c + e + 1, d3 - 365 * e))"

fun splitMonth :: "int \<Rightarrow> int \<Rightarrow> int list \<Rightarrow> int \<times> int" where
  "splitMonth m d [] = (m, d + 1)"
| "splitMonth m d (l # ls) = (if d < l then (m, d + 1) else splitMonth (m + 1) (d - l) ls)"

fun pad :: "nat \<Rightarrow> int \<Rightarrow> string" where
  "pad 0 n = []"
| "pad (Suc w) n = pad w (n div 10) @ [char_of (nat (48 + n mod 10))]"

definition undigits :: "string \<Rightarrow> int" where
  "undigits s = foldl (\<lambda>a c. 10 * a + (int (codeUnit c) - 48)) 0 s"

definition yearText :: "int \<Rightarrow> string" where
  "yearText y = (if 0 \<le> y \<and> y \<le> 9999 then pad 4 y
                 else if y < 0 then CHR ''-'' # pad 6 (- y) else CHR ''+'' # pad 6 y)"

definition toISOString :: "int \<Rightarrow> string" where
  "toISOString t =
     (let n = t div 86400000 + 719162; r = t mod 86400000;
          (y, doy) = yearAndDay n; (m, d) = splitMonth 1 doy (monthLengths y)
      in yearText y @ ''-'' @ pad 2 m @ ''-'' @ pad 2 d @ ''T'' @ pad 2 (r div 3600000) @ '':''
         @ pad 2 (r div 60000 mod 60) @ '':'' @ pad 2 (r div 1000 mod 60) @ ''.''
         @ pad 3 (r mod 1000) @ ''Z'')"

text \<open>The outcome of one call of an injected clock: a \<open>Date\<close> (its time value, \<open>NaN\<close> when it is
  outside the range of valid time values), something else, or an exception.\<close>

datatype clock_reading = ClockDate int | ClockOther | ClockThrows

text \<open>Time values of a valid \<open>Date\<close>.\<close>

definition validTime :: "int \<Rightarrow> bool" where
  "validTime t \<longleftrightarrow> \<bar>t\<bar> \<le> 8640000000000000"

definition instantOfFields :: "int \<Rightarrow> string \<Rightarrow> int" where
  "instantOfFields y r =
     (let m = undigits (take 2 (drop 1 r)); d = undigits (take 2 (drop 4 r));
          days = daysBeforeYear y + sum_list (take (nat (m - 1)) (monthLengths y)) + d - 1
      in (days - 719162) * 86400000 + undigits (take 2 (drop 7 r)) * 3600000
         + undigits (take 2 (drop 10 r)) * 60000 + undigits (take 2 (drop 13 r)) * 1000
         + undigits (take 3 (drop 16 r)))"

definition readInstant :: "string \<Rightarrow> int" where
  "readInstant s =
     (if length s = 24 then instantOfFields (undigits (take 4 s)) (drop 4 s)
      else instantOfFields
        ((if take 1 s = ''-'' then -1 else 1) * undigits (take 6 (drop 1 s))) (drop 7 s))"

definition isoInstant :: "string \<Rightarrow> int option" where
  "isoInstant s =
     (let t = readInstant s in if validTime t \<and> toISOString t = s then Some t else None)"

definition canonicalTimestamp :: "string \<Rightarrow> bool" where
  "canonicalTimestamp s \<longleftrightarrow> isoInstant s \<noteq> None"

text \<open>\<open>Date.parse\<close> on a string that passed the check.\<close>

definition dateParse :: "string \<Rightarrow> int" where
  "dateParse s = readInstant s"

section \<open>The calendar\<close>

text \<open>Division with remainder as an equation between variables, and the last part of a period
  that is cut into \<open>k + 1\<close> pieces of length \<open>p\<close> of which the last may be longer.\<close>

lemma div_parts:
  "0 < k \<Longrightarrow> \<exists>q r. (n::int) div k = q \<and> n = k * q + r \<and> 0 \<le> r \<and> r < k"
  by (metis mult_div_mod_eq pos_mod_bound pos_mod_sign)

lemma capped_parts:
  assumes "0 \<le> (d::int)" "d < 4 * p + x" "0 < p" "0 \<le> x" "x \<le> p"
  shows "0 \<le> min 3 (d div p)" and "min 3 (d div p) \<le> 3" and "0 \<le> d - p * min 3 (d div p)"
    and "d - p * min 3 (d div p) < p + x" and "p \<le> d - p * min 3 (d div p) \<Longrightarrow> min 3 (d div p) = 3"
proof -
  obtain q r where q: "d div p = q" and d: "d = p * q + r" and r: "0 \<le> r" "r < p"
    using div_parts [OF \<open>0 < p\<close>, of d] by blast
  show "0 \<le> min 3 (d div p)" using assms by (simp add: pos_imp_zdiv_nonneg_iff)
  show "min 3 (d div p) \<le> 3" by simp
  have "p * min 3 q \<le> p * q" using \<open>0 < p\<close> by (intro mult_left_mono) auto
  then show "0 \<le> d - p * min 3 (d div p)" unfolding q using d r by linarith
  show "d - p * min 3 (d div p) < p + x" using d q r assms by (cases "q \<le> 3") auto
  show "min 3 (d div p) = 3" if "p \<le> d - p * min 3 (d div p)"
    using that d q r by (cases "q \<le> 3") auto
qed

lemma yearAndDay_parts:
  obtains a b c e d where "yearAndDay n = (400 * a + 100 * b + 4 * c + e + 1, d)"
    and "n = 146097 * a + 36524 * b + 1461 * c + 365 * e + d"
    and "0 \<le> b" "b \<le> 3" "0 \<le> c" "c \<le> 24" "0 \<le> e" "e \<le> 3" "0 \<le> d" "d \<le> 365"
    and "d = 365 \<longrightarrow> e = 3 \<and> (c = 24 \<longrightarrow> b = 3)"
proof -
  define a where "a = n div 146097"
  define d1 where "d1 = n mod 146097"
  define b where "b = min 3 (d1 div 36524)"
  define d2 where "d2 = d1 - 36524 * b"
  define c where "c = d2 div 1461"
  define d3 where "d3 = d2 mod 1461"
  define e where "e = min 3 (d3 div 365)"
  define d where "d = d3 - 365 * e"
  have d1: "0 \<le> d1" "d1 < 4 * 36524 + 1" "n = 146097 * a + d1"
    by (simp_all add: d1_def a_def)
  note b = capped_parts [OF d1(1,2), folded b_def, folded d2_def, simplified]
  have c: "d2 = 1461 * c + d3" "0 \<le> d3" "d3 < 4 * 365 + 1"
    by (simp_all add: c_def d3_def)
  then have c24: "0 \<le> c" "c \<le> 24" using b by linarith+
  note e = capped_parts [OF c(2,3), folded e_def, folded d_def, simplified]
  have last: "c = 24 \<longrightarrow> b = 3" if "d = 365"
  proof
    assume "c = 24"
    moreover have "d3 = 1460" using that e(5) by (simp add: d_def)
    ultimately show "b = 3" using c(1) b(5) by simp
  qed
  have "yearAndDay n = (400 * a + 100 * b + 4 * c + e + 1, d)"
    by (simp only: yearAndDay_def Let_def a_def b_def c_def e_def d_def d1_def d2_def d3_def)
  moreover have "n = 146097 * a + 36524 * b + 1461 * c + 365 * e + d"
    using d1(3) c(1) by (simp add: d2_def d_def)
  ultimately show thesis
    using b c24 e last by (intro that [of a b c e d]) auto
qed

lemma yearAndDay_correct:
  assumes "yearAndDay n = (y, d)"
  shows "n = daysBeforeYear y + d" and "0 \<le> d" and "d < sum_list (monthLengths y)"
proof -
  obtain a b c e d' where yd: "yearAndDay n = (400 * a + 100 * b + 4 * c + e + 1, d')"
    and n: "n = 146097 * a + 36524 * b + 1461 * c + 365 * e + d'"
    and r: "0 \<le> b" "b \<le> 3" "0 \<le> c" "c \<le> 24" "0 \<le> e" "e \<le> 3" "0 \<le> d'" "d' \<le> 365"
    and l: "d' = 365 \<longrightarrow> e = 3 \<and> (c = 24 \<longrightarrow> b = 3)"
    by (rule yearAndDay_parts [of n])
  have y: "y - 1 = 400 * a + 100 * b + 4 * c + e" and d: "d = d'"
    using yd assms by auto
  have q4: "(y - 1) div 4 = 100 * a + 25 * b + c"
    by (rule int_div_pos_eq [where r = e]) (use y r in auto)
  have q100: "(y - 1) div 100 = 4 * a + b"
    by (rule int_div_pos_eq [where r = "4 * c + e"]) (use y r in auto)
  have q400: "(y - 1) div 400 = a"
    by (rule int_div_pos_eq [where r = "100 * b + 4 * c + e"]) (use y r in auto)
  show "n = daysBeforeYear y + d"
    unfolding daysBeforeYear_def q4 q100 q400 using n d y by simp
  show "0 \<le> d" using r d by simp
  have "isLeap y" if "d' = 365"
  proof -
    have y4: "y = 100 * (4 * a + b) + 4 * (c + 1)" using l that y by simp
    have "400 dvd y" if "100 dvd y"
    proof -
      have "100 dvd 4 * (c + 1)" using that y4 by (metis dvd_add_right_iff dvd_triv_left)
      then have "c = 24" using r by presburger
      with l \<open>d' = 365\<close> y4 have "y = 400 * (a + 1)" by simp
      then show ?thesis by simp
    qed
    moreover have "4 dvd y" using y4 by presburger
    ultimately show ?thesis by (simp add: isLeap_def)
  qed
  then show "d < sum_list (monthLengths y)"
    using r(8) d by (cases "d' = 365") (simp_all add: monthLengths_def)
qed

lemma splitMonth_correct:
  "splitMonth m d ls = (m', d') \<Longrightarrow> 0 \<le> d \<Longrightarrow> d < sum_list ls \<Longrightarrow> list_all (\<lambda>l. 0 < l \<and> l \<le> 31) ls \<Longrightarrow>
     m \<le> m' \<and> m' < m + int (length ls) \<and> 1 \<le> d' \<and> d' \<le> 31 \<and>
     d = sum_list (take (nat (m' - m)) ls) + d' - 1"
proof (induction m d ls rule: splitMonth.induct)
  case (1 m d)
  then show ?case by simp
next
  case (2 m d l ls)
  show ?case
  proof (cases "d < l")
    case True
    with 2 show ?thesis by auto
  next
    case False
    with 2 have "m + 1 \<le> m' \<and> m' < m + 1 + int (length ls) \<and> 1 \<le> d' \<and> d' \<le> 31 \<and>
      d - l = sum_list (take (nat (m' - (m + 1))) ls) + d' - 1"
      by simp
    moreover from this have "nat (m' - m) = Suc (nat (m' - (m + 1)))" by linarith
    ultimately show ?thesis by simp
  qed
qed

section \<open>Digits\<close>

lemma code_digit: "0 \<le> n \<Longrightarrow> n \<le> 9 \<Longrightarrow> codeUnit (char_of (nat (48 + n))) = nat (48 + n)"
  unfolding codeUnit_def by (simp add: nat_less_iff)

lemma length_pad [simp]: "length (pad w n) = w"
  by (induction w arbitrary: n) auto

lemma undigits_snoc: "undigits (s @ [c]) = 10 * undigits s + (int (codeUnit c) - 48)"
  by (simp add: undigits_def)

lemma undigits_pad: "undigits (pad w n) = n mod 10 ^ w"
proof (induction w arbitrary: n)
  case 0
  show ?case by (simp add: undigits_def)
next
  case (Suc w)
  have "int (codeUnit (char_of (nat (48 + n mod 10)))) - 48 = n mod 10"
    by (subst code_digit) auto
  moreover have "n mod 10 ^ Suc w = 10 * (n div 10 mod 10 ^ w) + n mod 10"
    using zmod_zmult2_eq [of "10 ^ w" n 10] by simp
  ultimately show ?case by (simp add: undigits_snoc Suc.IH)
qed

lemma undigits_pad_small: "0 \<le> n \<Longrightarrow> n < 10 ^ w \<Longrightarrow> undigits (pad w n) = n"
  by (simp add: undigits_pad)

lemma strLess_pad:
  "0 \<le> m \<Longrightarrow> m < 10 ^ w \<Longrightarrow> 0 \<le> n \<Longrightarrow> n < 10 ^ w \<Longrightarrow> strLess (pad w m) (pad w n) \<longleftrightarrow> m < n"
proof (induction w arbitrary: m n)
  case 0
  then show ?case by simp
next
  case (Suc w)
  have digit: "strLess [char_of (nat (48 + m mod 10))] [char_of (nat (48 + n mod 10))] \<longleftrightarrow> m mod 10 < n mod 10"
    using code_digit [of "m mod 10"] code_digit [of "n mod 10"] pos_mod_sign [of 10 n]
      pos_mod_bound [of 10 m] pos_mod_bound [of 10 n] pos_mod_sign [of 10 m]
    by (simp add: nat_less_eq_zless) linarith
  have bounds: "0 \<le> m div 10" "m div 10 < 10 ^ w" "0 \<le> n div 10" "n div 10 < 10 ^ w"
    using Suc.prems by auto
  have eq: "pad w (m div 10) = pad w (n div 10) \<longleftrightarrow> m div 10 = n div 10"
    using bounds undigits_pad_small by metis
  have IH: "strLess (pad w (m div 10)) (pad w (n div 10)) \<longleftrightarrow> m div 10 < n div 10"
    using bounds by (rule Suc.IH)
  have "strLess (pad (Suc w) m) (pad (Suc w) n) \<longleftrightarrow>
      m div 10 < n div 10 \<or> (m div 10 = n div 10 \<and> m mod 10 < n mod 10)"
    using digit by (simp only: pad.simps strLess_append length_pad IH eq)
  also have "\<dots> \<longleftrightarrow> m < n"
    using div_mult_mod_eq [of m 10] div_mult_mod_eq [of n 10]
      pos_mod_bound [of 10 m] pos_mod_bound [of 10 n] pos_mod_sign [of 10 m] pos_mod_sign [of 10 n]
    by linarith
  finally show ?case .
qed

section \<open>The canonical form\<close>

lemma daysBeforeYear_range:
  assumes "daysBeforeYear y + d = n" and "0 \<le> d" "d \<le> 366" and "\<bar>n\<bar> \<le> 101000000"
  shows "\<bar>y\<bar> < 10 ^ 6"
proof -
  obtain q4 r4 where "(y - 1) div 4 = q4" "y - 1 = 4 * q4 + r4" "0 \<le> r4" "r4 < 4"
    using div_parts [of 4 "y - 1"] by auto
  moreover obtain q100 r100 where
    "(y - 1) div 100 = q100" "y - 1 = 100 * q100 + r100" "0 \<le> r100" "r100 < 100"
    using div_parts [of 100 "y - 1"] by auto
  moreover obtain q400 r400 where
    "(y - 1) div 400 = q400" "y - 1 = 400 * q400 + r400" "0 \<le> r400" "r400 < 400"
    using div_parts [of 400 "y - 1"] by auto
  ultimately show ?thesis using assms unfolding daysBeforeYear_def by (simp add: abs_less_iff abs_le_iff)
qed

lemma length_yearText: "length (yearText y) = (if 0 \<le> y \<and> y \<le> 9999 then 4 else 7)"
  by (simp add: yearText_def)

text \<open>The fields of the text after the year.\<close>

lemma instantOfFields_text:
  assumes "length ms = 2" "length ds = 2" "length hs = 2" "length is = 2" "length ss = 2" "length fs = 3"
  shows "instantOfFields y (''-'' @ ms @ ''-'' @ ds @ ''T'' @ hs @ '':'' @ is @ '':'' @ ss @ ''.'' @ fs @ ''Z'') =
    (daysBeforeYear y + sum_list (take (nat (undigits ms - 1)) (monthLengths y)) + undigits ds - 1 - 719162)
      * 86400000 + undigits hs * 3600000 + undigits is * 60000 + undigits ss * 1000 + undigits fs"
  using assms by (simp add: instantOfFields_def Let_def)

lemma time_of_day_sum:
  "(r::int) = r div 3600000 * 3600000 + r div 60000 mod 60 * 60000 + r div 1000 mod 60 * 1000 + r mod 1000"
proof -
  have "r div 60000 = r div 1000 div 60" "r div 3600000 = r div 60000 div 60"
    by (simp_all add: div_mult2_eq flip: zdiv_zmult2_eq)
  moreover have "r = a * 1000 + f \<Longrightarrow> a = b * 60 + s \<Longrightarrow> b = c * 60 + i \<Longrightarrow>
      r = c * 3600000 + i * 60000 + s * 1000 + f" for a b c f s i :: int
    by simp
  ultimately show ?thesis by (metis div_mult_mod_eq)
qed

lemma time_of_day_digits:
  assumes "0 \<le> (r::int)" "r < 86400000"
  shows "undigits (pad 2 (r div 3600000)) = r div 3600000"
    and "undigits (pad 2 (r div 60000 mod 60)) = r div 60000 mod 60"
    and "undigits (pad 2 (r div 1000 mod 60)) = r div 1000 mod 60"
    and "undigits (pad 3 (r mod 1000)) = r mod 1000"
proof -
  obtain q i where q: "r div 3600000 = q" "r = 3600000 * q + i" "0 \<le> i" "i < 3600000"
    using div_parts [of 3600000 r] by (metis zero_less_numeral)
  then have "0 \<le> q" "q < 10 ^ 2" using assms by simp_all
  then show "undigits (pad 2 (r div 3600000)) = r div 3600000"
    unfolding q(1) by (rule undigits_pad_small)
  have "0 \<le> k mod 60" "k mod 60 < 10 ^ 2" for k :: int
    using pos_mod_bound [of 60 k] by simp_all
  then show "undigits (pad 2 (r div 60000 mod 60)) = r div 60000 mod 60"
    "undigits (pad 2 (r div 1000 mod 60)) = r div 1000 mod 60"
    by (blast intro: undigits_pad_small)+
  show "undigits (pad 3 (r mod 1000)) = r mod 1000"
    by (rule undigits_pad_small) (simp_all)
qed

lemma time_of_parts:
  "n = b + s + d - 1 \<Longrightarrow> n = q + 719162 \<Longrightarrow> r = h + i + e + f \<Longrightarrow> t = q * 86400000 + r \<Longrightarrow>
     (b + s + d - 1 - 719162) * 86400000 + h + i + e + f = (t::int)"
  by simp

lemma list_all_monthLengths: "list_all (\<lambda>l. 0 < l \<and> l \<le> 31) (monthLengths y)"
  by (simp add: monthLengths_def)

lemma length_monthLengths: "length (monthLengths y) = 12"
  by (simp add: monthLengths_def)

text \<open>What \<open>toISOString\<close> writes, and the ranges of its fields.\<close>

lemma toISOString_fields:
  assumes "validTime t"
  obtains y m d where
    "toISOString t = yearText y @ ''-'' @ pad 2 m @ ''-'' @ pad 2 d @ ''T'' @
        pad 2 (t mod 86400000 div 3600000) @ '':'' @ pad 2 (t mod 86400000 div 60000 mod 60) @ '':'' @
        pad 2 (t mod 86400000 div 1000 mod 60) @ ''.'' @ pad 3 (t mod 86400000 mod 1000) @ ''Z''"
    and "\<bar>y\<bar> < 10 ^ 6" and "1 \<le> m" "m \<le> 12" "1 \<le> d" "d \<le> 31"
    and "t div 86400000 + 719162 =
           daysBeforeYear y + sum_list (take (nat (m - 1)) (monthLengths y)) + d - 1"
proof -
  let ?n = "t div 86400000 + 719162"
  obtain y doy where yd: "yearAndDay ?n = (y, doy)" by fastforce
  obtain m d where md: "splitMonth 1 doy (monthLengths y) = (m, d)" by fastforce
  note y = yearAndDay_correct [OF yd]
  note s = splitMonth_correct [OF md y(2) y(3) list_all_monthLengths]
  have "doy \<le> 366" using y(3) by (simp add: monthLengths_def split: if_splits)
  moreover have "\<bar>?n\<bar> \<le> 101000000" using assms unfolding validTime_def by linarith
  ultimately have "\<bar>y\<bar> < 10 ^ 6"
    using y(1,2) daysBeforeYear_range [of y doy ?n] by simp
  moreover have "toISOString t = yearText y @ ''-'' @ pad 2 m @ ''-'' @ pad 2 d @ ''T'' @
        pad 2 (t mod 86400000 div 3600000) @ '':'' @ pad 2 (t mod 86400000 div 60000 mod 60) @ '':'' @
        pad 2 (t mod 86400000 div 1000 mod 60) @ ''.'' @ pad 3 (t mod 86400000 mod 1000) @ ''Z''"
    by (simp add: toISOString_def Let_def yd md)
  moreover have "t div 86400000 + 719162 =
           daysBeforeYear y + sum_list (take (nat (m - 1)) (monthLengths y)) + d - 1"
    using y(1) s by linarith
  moreover have "1 \<le> m" "m \<le> 12" "1 \<le> d" "d \<le> 31"
    using s by (simp_all add: length_monthLengths)
  ultimately show thesis using that by blast
qed

lemma readInstant_layout:
  assumes "length rest = 20" and "\<bar>y\<bar> < 10 ^ 6"
  shows "readInstant (yearText y @ rest) = instantOfFields y rest"
proof (cases "0 \<le> y \<and> y \<le> 9999")
  case True
  then show ?thesis using assms by (simp add: readInstant_def yearText_def undigits_pad_small)
next
  case False
  then show ?thesis using assms by (auto simp: readInstant_def yearText_def undigits_pad_small)
qed

lemma readInstant_toISOString:
  assumes "validTime t"
  shows "readInstant (toISOString t) = t"
proof -
  obtain y m d where iso: "toISOString t = yearText y @ ''-'' @ pad 2 m @ ''-'' @ pad 2 d @ ''T'' @
        pad 2 (t mod 86400000 div 3600000) @ '':'' @ pad 2 (t mod 86400000 div 60000 mod 60) @ '':'' @
        pad 2 (t mod 86400000 div 1000 mod 60) @ ''.'' @ pad 3 (t mod 86400000 mod 1000) @ ''Z''"
      (is "_ = _ @ ?rest")
    and y: "\<bar>y\<bar> < 10 ^ 6" and md: "1 \<le> m" "m \<le> 12" "1 \<le> d" "d \<le> 31"
    and n: "t div 86400000 + 719162 =
           daysBeforeYear y + sum_list (take (nat (m - 1)) (monthLengths y)) + d - 1"
    by (rule toISOString_fields [OF assms])
  let ?r = "t mod 86400000"
  have r: "0 \<le> ?r" "?r < 86400000" by simp_all
  have "undigits (pad 2 m) = m" "undigits (pad 2 d) = d"
    by (rule undigits_pad_small; use md in simp)+
  note small = this time_of_day_digits [OF r]
  note layout = instantOfFields_text [OF length_pad length_pad length_pad length_pad length_pad length_pad]
  have "instantOfFields y ?rest = (daysBeforeYear y + sum_list (take (nat (m - 1)) (monthLengths y))
      + d - 1 - 719162) * 86400000 + ?r div 3600000 * 3600000 + ?r div 60000 mod 60 * 60000
      + ?r div 1000 mod 60 * 1000 + ?r mod 1000"
    by (simp only: layout small)
  also have "\<dots> = t"
    using time_of_parts [of "t div 86400000 + 719162" "daysBeforeYear y"
        "sum_list (take (nat (m - 1)) (monthLengths y))" d "t div 86400000" ?r
        "?r div 3600000 * 3600000" "?r div 60000 mod 60 * 60000" "?r div 1000 mod 60 * 1000" "?r mod 1000" t,
        OF n refl time_of_day_sum div_mult_mod_eq [symmetric]] .
  finally have "instantOfFields y ?rest = t" .
  moreover have "readInstant (toISOString t) = instantOfFields y ?rest"
    unfolding iso by (rule readInstant_layout [OF _ y]) (simp only: length_append length_pad, simp)
  ultimately show ?thesis by simp
qed

lemma length_toISOString: "length (toISOString t) \<le> 27"
  by (simp add: toISOString_def yearText_def Let_def split: prod.splits)

theorem isoInstant_toISOString: "validTime t \<Longrightarrow> isoInstant (toISOString t) = Some t"
  by (simp add: isoInstant_def readInstant_toISOString)

lemma canonical_toISOString: "validTime t \<Longrightarrow> canonicalTimestamp (toISOString t)"
  by (simp add: canonicalTimestamp_def isoInstant_toISOString)

lemma dateParse_toISOString [simp]: "validTime t \<Longrightarrow> dateParse (toISOString t) = t"
  by (simp add: dateParse_def readInstant_toISOString)

lemma isoInstant_SomeD: "isoInstant s = Some t \<Longrightarrow> toISOString t = s \<and> validTime t \<and> dateParse s = t"
  by (auto simp: isoInstant_def dateParse_def Let_def split: if_splits)

lemma canonicalE:
  assumes "canonicalTimestamp s"
  obtains "s = toISOString (dateParse s)" and "validTime (dateParse s)"
  using assms by (auto simp: canonicalTimestamp_def dest: isoInstant_SomeD)

section \<open>String order and time order\<close>

text \<open>The instants of the years 0 to 9999, whose timestamps have 24 characters.\<close>

definition fourDigitYear :: "int \<Rightarrow> bool" where
  "fourDigitYear t \<longleftrightarrow> -62167219200000 \<le> t \<and> t \<le> 253402300799999"

definition fourDigitStamp :: "string \<Rightarrow> bool" where
  "fourDigitStamp s \<longleftrightarrow> canonicalTimestamp s \<and> fourDigitYear (dateParse s)"

lemma fourDigit_valid: "fourDigitYear t \<Longrightarrow> validTime t"
  by (simp add: fourDigitYear_def validTime_def abs_le_iff)

lemma fourDigitStamp_toISOString: "fourDigitYear t \<Longrightarrow> fourDigitStamp (toISOString t)"
  by (simp add: fourDigitStamp_def canonical_toISOString fourDigit_valid)

lemma daysBeforeYear_mono:
  assumes "y < y'"
  shows "daysBeforeYear y + sum_list (monthLengths y) \<le> daysBeforeYear y'"
proof -
  have step: "daysBeforeYear z + sum_list (monthLengths z) = daysBeforeYear (z + 1)" for z
  proof -
    obtain q4 r4 where q4: "(z - 1) div 4 = q4" "z - 1 = 4 * q4 + r4" "0 \<le> r4" "r4 < 4"
      using div_parts [of 4 "z - 1"] by (metis zero_less_numeral)
    obtain q1 r1 where q1: "(z - 1) div 100 = q1" "z - 1 = 100 * q1 + r1" "0 \<le> r1" "r1 < 100"
      using div_parts [of 100 "z - 1"] by (metis zero_less_numeral)
    obtain q5 r5 where q5: "(z - 1) div 400 = q5" "z - 1 = 400 * q5 + r5" "0 \<le> r5" "r5 < 400"
      using div_parts [of 400 "z - 1"] by (metis zero_less_numeral)
    have up: "z div k = (if r = k - 1 then q + 1 else q)" and dv: "k dvd z \<longleftrightarrow> r = k - 1"
      if "z - 1 = k * q + r" "0 \<le> r" "r < k" for k q r
    proof -
      have z: "z = k * q + (r + 1)" using that(1) by simp
      show "z div k = (if r = k - 1 then q + 1 else q)"
      proof (cases "r = k - 1")
        case True
        then have "z = k * (q + 1)" using z by (simp add: algebra_simps)
        then show ?thesis using True that by simp
      next
        case False
        then have "z div k = q" using that by (intro int_div_pos_eq [OF z]) auto
        then show ?thesis using False by simp
      qed
      have "k dvd z \<longleftrightarrow> k dvd r + 1"
        unfolding z by (metis dvd_add_right_iff dvd_triv_left)
      also have "\<dots> \<longleftrightarrow> r = k - 1"
        using that zdvd_imp_le [of k "r + 1"] by auto
      finally show "k dvd z \<longleftrightarrow> r = k - 1" .
    qed
    note u4 = up [OF q4(2,3,4)] dv [OF q4(2,3,4)]
    note u1 = up [OF q1(2,3,4)] dv [OF q1(2,3,4)]
    note u5 = up [OF q5(2,3,4)] dv [OF q5(2,3,4)]
    have "100 dvd z \<Longrightarrow> 4 dvd z" "400 dvd z \<Longrightarrow> 100 dvd z"
      by (auto elim: dvd_trans [rotated])
    then show ?thesis
      unfolding daysBeforeYear_def isLeap_def monthLengths_def
      by (simp add: q4(1) q1(1) q5(1) u4 u1 u5)
  qed
  have pos: "0 \<le> sum_list (monthLengths z)" for z
    by (simp add: monthLengths_def)
  have "daysBeforeYear (y + 1) \<le> daysBeforeYear (y + 1 + int k)" for k
  proof (induction k)
    case 0
    show ?case by simp
  next
    case (Suc k)
    then show ?case using step [of "y + 1 + int k"] pos [of "y + 1 + int k"] by (simp add: add.assoc)
  qed
  from this [of "nat (y' - y - 1)"] show ?thesis using assms step [of y] by simp
qed

lemma splitMonth_mono:
  "splitMonth m d ls = (m1, e1) \<Longrightarrow> splitMonth m d' ls = (m2, e2) \<Longrightarrow> 0 \<le> d \<Longrightarrow> d < d' \<Longrightarrow>
     m1 < m2 \<or> (m1 = m2 \<and> e1 < e2)"
proof (induction m d ls arbitrary: d' rule: splitMonth.induct)
  case (1 m d)
  then show ?case by simp
next
  case (2 m d l ls)
  have ge: "k \<le> fst (splitMonth k x xs)" for k x xs
    by (induction k x xs rule: splitMonth.induct) auto
  show ?case
  proof (cases "d' < l")
    case True
    with 2 show ?thesis by auto
  next
    case False
    then show ?thesis using 2 ge [of "m + 1" "d' - l" ls] by (auto split: if_splits)
  qed
qed

lemma strLess_pad_append:
  "0 \<le> a \<Longrightarrow> a < 10 ^ w \<Longrightarrow> 0 \<le> b \<Longrightarrow> b < 10 ^ w \<Longrightarrow>
     strLess (pad w a @ x) (pad w b @ y) \<longleftrightarrow> a < b \<or> (a = b \<and> strLess x y)"
  by (metis length_pad strLess_append strLess_pad undigits_pad_small)

lemma strLess_same_head [simp]: "strLess (c # x) (c # y) \<longleftrightarrow> strLess x y"
  by simp

lemma time_of_day_lex:
  fixes h i e f h' i' e' f' :: int
  assumes "h * 3600000 + i * 60000 + e * 1000 + f < h' * 3600000 + i' * 60000 + e' * 1000 + f'"
    and "0 \<le> i" "i < 60" "0 \<le> e" "e < 60" "0 \<le> f" "f < 1000"
    and "0 \<le> i'" "i' < 60" "0 \<le> e'" "e' < 60" "0 \<le> f'" "f' < 1000"
  shows "h < h' \<or> (h = h' \<and> (i < i' \<or> (i = i' \<and> (e < e' \<or> (e = e' \<and> f < f')))))"
  using assms by linarith

lemma fourDigit_year:
  assumes "fourDigitYear t" and "yearAndDay (t div 86400000 + 719162) = (y, doy)"
  shows "0 \<le> y" and "y < 10 ^ 4"
proof -
  note yd = yearAndDay_correct [OF assms(2)]
  obtain q r where q: "t div 86400000 = q" "t = 86400000 * q + r" "0 \<le> r" "r < 86400000"
    using div_parts [of 86400000 t] by (metis zero_less_numeral)
  have n: "-366 \<le> q + 719162" "q + 719162 < 3652059"
    using assms(1) q unfolding fourDigitYear_def by linarith+
  have ends: "daysBeforeYear 0 = -366" "daysBeforeYear 10000 = 3652059"
    by (simp_all add: daysBeforeYear_def)
  show "0 \<le> y"
  proof (rule ccontr)
    assume "\<not> 0 \<le> y"
    then show False using daysBeforeYear_mono [of y 0] yd n q(1) ends by simp
  qed
  show "y < 10 ^ 4"
  proof (rule ccontr)
    assume "\<not> y < 10 ^ 4"
    then have "daysBeforeYear 10000 \<le> daysBeforeYear y"
      using daysBeforeYear_mono [of 10000 y] by (cases "y = 10000") (auto simp: monthLengths_def split: if_splits)
    then show False using yd n q(1) ends by simp
  qed
qed

lemma yearAndDay_mono:
  assumes "yearAndDay n = (y, d)" and "yearAndDay n' = (y', d')" and "n < n'"
  shows "y < y' \<or> (y = y' \<and> d < d')"
proof (cases "y' < y")
  case True
  then show ?thesis
    using daysBeforeYear_mono [OF True] yearAndDay_correct [OF assms(1)] yearAndDay_correct [OF assms(2)]
      assms(3) by linarith
next
  case False
  then show ?thesis
    using yearAndDay_correct [OF assms(1)] yearAndDay_correct [OF assms(2)] assms(3)
    by (cases "y = y'") simp_all
qed

text \<open>The text of an instant, field by field.\<close>

definition timeText :: "int \<Rightarrow> string" where
  "timeText r = pad 2 (r div 3600000) @ '':'' @ pad 2 (r div 60000 mod 60) @ '':''
     @ pad 2 (r div 1000 mod 60) @ ''.'' @ pad 3 (r mod 1000) @ ''Z''"

lemma toISOString_timeText:
  "yearAndDay (t div 86400000 + 719162) = (y, doy) \<Longrightarrow> splitMonth 1 doy (monthLengths y) = (m, d) \<Longrightarrow>
   toISOString t = yearText y @ ''-'' @ pad 2 m @ ''-'' @ pad 2 d @ ''T'' @ timeText (t mod 86400000)"
  by (simp add: toISOString_def Let_def timeText_def)

lemma strLess_timeText:
  assumes "0 \<le> r" "r < r'" "r' < 86400000"
  shows "strLess (timeText r) (timeText r')"
proof -
  have h: "0 \<le> x div 3600000 \<and> x div 3600000 < 10 ^ 2" if "0 \<le> x" "x < 86400000" for x :: int
  proof -
    obtain q i where q: "x div 3600000 = q" "x = 3600000 * q + i" "0 \<le> i" "i < 3600000"
      using div_parts [of 3600000 x] by (metis zero_less_numeral)
    then show ?thesis using that by simp
  qed
  have m60: "0 \<le> x mod 60" "x mod 60 < 10 ^ 2" "x mod 60 < 60" and m1000: "0 \<le> x mod 1000" "x mod 1000 < 10 ^ 3" "x mod 1000 < 1000"
    for x :: int
    using pos_mod_bound [of 60 x] by simp_all
  have lex: "r div 3600000 < r' div 3600000 \<or> (r div 3600000 = r' div 3600000 \<and>
      (r div 60000 mod 60 < r' div 60000 mod 60 \<or> (r div 60000 mod 60 = r' div 60000 mod 60 \<and>
      (r div 1000 mod 60 < r' div 1000 mod 60 \<or> (r div 1000 mod 60 = r' div 1000 mod 60 \<and>
       r mod 1000 < r' mod 1000)))))"
    by (rule time_of_day_lex [OF _ m60(1) m60(3) m60(1) m60(3) m1000(1) m1000(3) m60(1) m60(3) m60(1) m60(3) m1000(1) m1000(3)])
      (use assms(2) time_of_day_sum [of r] time_of_day_sum [of r'] in argo)
  have hr: "0 \<le> r div 3600000" "r div 3600000 < 10 ^ 2" "0 \<le> r' div 3600000" "r' div 3600000 < 10 ^ 2"
    using h [of r] h [of r'] assms by simp_all
  show ?thesis
    unfolding timeText_def append_Cons append_Nil
    by (simp only: strLess_pad_append [OF hr] strLess_pad_append [OF m60(1,2) m60(1,2)]
        strLess_pad_append [OF m1000(1,2) m1000(1,2)] strLess_same_head)
      (use lex in argo)
qed

theorem strLess_toISOString:
  assumes "fourDigitYear t" and "fourDigitYear t'"
  shows "strLess (toISOString t) (toISOString t') \<longleftrightarrow> t < t'"
proof -
  have less: "strLess (toISOString u) (toISOString u')"
    if u: "fourDigitYear u" and u': "fourDigitYear u'" and "u < u'" for u u'
  proof -
    obtain y doy where yd: "yearAndDay (u div 86400000 + 719162) = (y, doy)" by fastforce
    obtain m d where md: "splitMonth 1 doy (monthLengths y) = (m, d)" by fastforce
    obtain y' doy' where yd': "yearAndDay (u' div 86400000 + 719162) = (y', doy')" by fastforce
    obtain m' d' where md': "splitMonth 1 doy' (monthLengths y') = (m', d')" by fastforce
    note c = yearAndDay_correct [OF yd] and c' = yearAndDay_correct [OF yd']
    note s = splitMonth_correct [OF md c(2,3) list_all_monthLengths]
    note s' = splitMonth_correct [OF md' c'(2,3) list_all_monthLengths]
    have mb: "0 \<le> m" "m < 10 ^ 2" "0 \<le> m'" "m' < 10 ^ 2" and db: "0 \<le> d" "d < 10 ^ 2" "0 \<le> d'" "d' < 10 ^ 2"
      using s s' by (simp_all add: length_monthLengths)
    have yb: "0 \<le> y" "y < 10 ^ 4" "0 \<le> y'" "y' < 10 ^ 4"
      using fourDigit_year [OF u yd] fourDigit_year [OF u' yd'] by simp_all
    then have yt: "yearText y = pad 4 y" "yearText y' = pad 4 y'" by (simp_all add: yearText_def)
    obtain q r where q: "u div 86400000 = q" "u mod 86400000 = r" "u = 86400000 * q + r" "0 \<le> r" "r < 86400000"
      by (metis mult_div_mod_eq pos_mod_bound pos_mod_sign zero_less_numeral)
    obtain q' r' where q': "u' div 86400000 = q'" "u' mod 86400000 = r'" "u' = 86400000 * q' + r'" "0 \<le> r'" "r' < 86400000"
      by (metis mult_div_mod_eq pos_mod_bound pos_mod_sign zero_less_numeral)
    have "q < q' \<or> (q = q' \<and> r < r')" using q q' \<open>u < u'\<close> by linarith
    then have "y < y' \<or> (y = y' \<and> (m < m' \<or> (m = m' \<and> (d < d' \<or> (d = d' \<and> r < r')))))"
    proof
      assume "q < q'"
      then have "y < y' \<or> (y = y' \<and> doy < doy')" using yearAndDay_mono [OF yd yd'] q(1) q'(1) by simp
      then show ?thesis using splitMonth_mono [OF md] md' c(2) by blast
    next
      assume "q = q' \<and> r < r'"
      then show ?thesis using yd yd' md md' q(1) q'(1) by simp
    qed
    then show ?thesis
      unfolding toISOString_timeText [OF yd md] toISOString_timeText [OF yd' md'] yt append_Cons append_Nil q(2) q'(2)
      using strLess_timeText [OF q(4) _ q'(5)]
      by (auto simp only: strLess_pad_append [OF yb] strLess_pad_append [OF mb] strLess_pad_append [OF db] strLess_same_head)
  qed
  show ?thesis
  proof
    assume lt: "strLess (toISOString t) (toISOString t')"
    show "t < t'"
    proof (rule ccontr)
      assume "\<not> t < t'"
      then have "t = t' \<or> strLess (toISOString t') (toISOString t)"
        using less [OF assms(2,1)] by fastforce
      with lt show False using strLess_irrefl strLess_trans by blast
    qed
  qed (rule less [OF assms])
qed

corollary strLess_stamps:
  assumes "fourDigitStamp a" and "fourDigitStamp b"
  shows "strLess a b \<longleftrightarrow> dateParse a < dateParse b"
  using assms strLess_toISOString unfolding fourDigitStamp_def by (metis canonicalE)

end
