(* ===== verification/Tg_Validation.thy ===== *)
theory Tg_Validation
  imports Js_Date
begin

text \<open>
  \<open>packages/task-graph/src/errors.ts\<close> and \<open>validation.ts\<close>: the error codes of the task graph and
  the validators through which every argument, option and snapshot passes. An exception is its
  code (messages and details are not modelled); \<open>ForeignError\<close> stands for an exception that is
  not a \<open>TaskGraphError\<close>. The lemmas say that a validated value passes its validator again
  unchanged, which the snapshot round trip rests on, and bound what a validator lets through.
\<close>

section \<open>Errors\<close>

datatype tg_code =
    INVALID_ARGUMENT | INVALID_SNAPSHOT | DUPLICATE_TASK | UNKNOWN_TASK | GRAPH_SEALED
  | GRAPH_NOT_SEALED | EMPTY_GRAPH | CYCLIC_DEPENDENCY | GRAPH_LIMIT_EXCEEDED
  | INVALID_TRANSITION | CONCURRENCY_CONFLICT | REENTRANT_MUTATION

datatype tg_error = TaskGraphError tg_code | ForeignError

section \<open>Structural copies\<close>

definition MAX_JSON_DEPTH :: nat where "MAX_JSON_DEPTH = 32"
definition MAX_JSON_NODES :: nat where "MAX_JSON_NODES = 10000"
definition MAX_JSON_STRING_LENGTH :: nat where "MAX_JSON_STRING_LENGTH = 100000"
definition MAX_DATA_OBJECT_FIELDS :: nat where "MAX_DATA_OBJECT_FIELDS = 10000"

fun copyPlainDataRecord :: "jsval \<Rightarrow> tg_code \<Rightarrow> tg_error + jsrecord" where
  "copyPlainDataRecord (JObj plain fields) code =
     (if \<not> plain then Inl (TaskGraphError code)
      else if length fields > MAX_DATA_OBJECT_FIELDS then Inl (TaskGraphError code)
      else if list_ex (\<lambda>(k, _). isSymKey k) fields then Inl (TaskGraphError code)
      else mapE (\<lambda>(k, dataProp, v). if dataProp then Inr (keyName k, v) else Inl (TaskGraphError code)) fields)"
| "copyPlainDataRecord _ code = Inl (TaskGraphError code)"

fun copyDenseDataArray :: "jsval \<Rightarrow> nat \<Rightarrow> tg_code \<Rightarrow> tg_error + jsval list" where
  "copyDenseDataArray (JArr plain items extra) maximumLength code =
     (if \<not> plain then Inl (TaskGraphError code)
      else if length items > maximumLength then Inl (TaskGraphError code)
      else if length (filter (\<lambda>i. i \<noteq> None) items) + length extra + 1 \<noteq> length items + 1
              \<or> list_ex isSymKey extra then Inl (TaskGraphError code)
      else mapE (\<lambda>i. case i of Some (True, v) \<Rightarrow> Inr v | _ \<Rightarrow> Inl (TaskGraphError code)) items)"
| "copyDenseDataArray _ maximumLength code = Inl (TaskGraphError code)"

definition assertExactKeys :: "jsrecord \<Rightarrow> string list \<Rightarrow> tg_code \<Rightarrow> tg_error + unit" where
  "assertExactKeys value allowedKeys code =
     requireE (list_all (\<lambda>(k, _). k \<in> set allowedKeys) value) (TaskGraphError code)"

section \<open>Scalars\<close>

definition isIdentifier :: "string \<Rightarrow> bool" where
  "isIdentifier = headTail (\<lambda>c. isUpper c \<or> isLower c \<or> isDigit c)
     (\<lambda>c. isUpper c \<or> isLower c \<or> isDigit c \<or> c \<in> set ''._:-'') 127"

definition isKind :: "string \<Rightarrow> bool" where
  "isKind = headTail isLower (\<lambda>c. isLower c \<or> isDigit c \<or> c \<in> set ''._-'') 63"

definition isFailureCode :: "string \<Rightarrow> bool" where
  "isFailureCode = headTail (\<lambda>c. isUpper c \<or> isDigit c)
     (\<lambda>c. isUpper c \<or> isDigit c \<or> c \<in> set ''._-'') 63"

fun assertIdentifier :: "jsval \<Rightarrow> tg_code \<Rightarrow> tg_error + string" where
  "assertIdentifier (JStr s) code = (if isIdentifier s then Inr s else Inl (TaskGraphError code))"
| "assertIdentifier _ code = Inl (TaskGraphError code)"

fun assertKind :: "jsval \<Rightarrow> tg_code \<Rightarrow> tg_error + string" where
  "assertKind (JStr s) code = (if isKind s then Inr s else Inl (TaskGraphError code))"
| "assertKind _ code = Inl (TaskGraphError code)"

fun normalizeRequiredText :: "jsval \<Rightarrow> nat \<Rightarrow> tg_code \<Rightarrow> tg_error + string" where
  "normalizeRequiredText (JStr s) maximumLength code =
     (let normalized = trim s in
      if length normalized = 0 \<or> length normalized > maximumLength then Inl (TaskGraphError code)
      else Inr normalized)"
| "normalizeRequiredText _ maximumLength code = Inl (TaskGraphError code)"

fun normalizeOptionalText :: "jsval \<Rightarrow> nat \<Rightarrow> tg_code \<Rightarrow> tg_error + string option" where
  "normalizeOptionalText JUndef maximumLength code = Inr None"
| "normalizeOptionalText JNull maximumLength code = Inr None"
| "normalizeOptionalText (JStr s) maximumLength code =
     (let normalized = trim s in
      if length normalized = 0 then Inr None
      else if length normalized > maximumLength then Inl (TaskGraphError code)
      else Inr (Some normalized))"
| "normalizeOptionalText _ maximumLength code = Inl (TaskGraphError code)"

fun assertInteger :: "jsval \<Rightarrow> int \<Rightarrow> int \<Rightarrow> tg_code \<Rightarrow> tg_error + int" where
  "assertInteger (JNum n) minimum maximum code =
     (if \<not> isSafeInteger n \<or> intOf n < minimum \<or> intOf n > maximum then Inl (TaskGraphError code)
      else Inr (intOf n))"
| "assertInteger _ minimum maximum code = Inl (TaskGraphError code)"

fun assertBoolean :: "jsval \<Rightarrow> tg_code \<Rightarrow> tg_error + bool" where
  "assertBoolean (JBool b) code = Inr b"
| "assertBoolean _ code = Inl (TaskGraphError code)"

fun assertCanonicalTimestamp :: "jsval \<Rightarrow> tg_code \<Rightarrow> tg_error + string" where
  "assertCanonicalTimestamp (JStr s) code =
     (if canonicalTimestamp s then Inr s else Inl (TaskGraphError code))"
| "assertCanonicalTimestamp _ code = Inl (TaskGraphError code)"

fun readClock :: "clock_reading \<Rightarrow> tg_error + string" where
  "readClock (ClockDate t) =
     (if validTime t then Inr (toISOString t) else Inl (TaskGraphError INVALID_ARGUMENT))"
| "readClock ClockOther = Inl (TaskGraphError INVALID_ARGUMENT)"
| "readClock ClockThrows = Inl ForeignError"

section \<open>JSON\<close>

function cloneJsonValue :: "tg_code \<Rightarrow> jsval \<Rightarrow> nat \<Rightarrow> nat \<Rightarrow> tg_error + (json \<times> nat)" where
  "cloneJsonValue code value depth nodes =
     (let nodes' = nodes + 1 in
      if nodes' > MAX_JSON_NODES then Inl (TaskGraphError code)
      else if depth > MAX_JSON_DEPTH then Inl (TaskGraphError code)
      else (case value of
          JNull \<Rightarrow> Inr (JsonNull, nodes')
        | JBool b \<Rightarrow> Inr (JsonBool b, nodes')
        | JNum n \<Rightarrow> if \<not> isFiniteNum n then Inl (TaskGraphError code) else Inr (JsonNum (dropNegZero n), nodes')
        | JStr s \<Rightarrow> if length s > MAX_JSON_STRING_LENGTH then Inl (TaskGraphError code) else Inr (JsonStr s, nodes')
        | JArr _ _ _ \<Rightarrow>
            bindE (copyDenseDataArray value (MAX_JSON_NODES - nodes') code) (\<lambda>source.
            bindE (threadE (\<lambda>item n. cloneJsonValue code item (depth + 1) n) source nodes') (\<lambda>(result, n).
            Inr (JsonArr result, n)))
        | JTrap True \<Rightarrow> bindE (copyDenseDataArray value (MAX_JSON_NODES - nodes') code) (\<lambda>_. Inl (TaskGraphError code))
        | JObj _ _ \<Rightarrow>
            bindE (copyPlainDataRecord value code) (\<lambda>source.
            bindE (threadE (\<lambda>(key, item) n.
                if key \<in> set DANGEROUS_OBJECT_KEYS then Inl (TaskGraphError code)
                else bindE (cloneJsonValue code item (depth + 1) n) (\<lambda>(j, n'). Inr ((key, j), n')))
              (sortKeys source) nodes') (\<lambda>(result, n).
            Inr (JsonObj result, n)))
        | JTrap False \<Rightarrow> bindE (copyPlainDataRecord value code) (\<lambda>_. Inl (TaskGraphError code))
        | _ \<Rightarrow> Inl (TaskGraphError code)))"
  by pat_completeness auto
termination
  by (relation "measure (\<lambda>(code, value, depth, nodes). Suc MAX_JSON_DEPTH - depth)") auto

declare cloneJsonValue.simps [simp del]

definition cloneAndFreezeJsonObject :: "jsval \<Rightarrow> tg_code \<Rightarrow> tg_error + json" where
  "cloneAndFreezeJsonObject value code =
     bindE (cloneJsonValue code value 0 0) (\<lambda>(cloned, _).
     case cloned of JsonObj _ \<Rightarrow> Inr cloned | _ \<Rightarrow> Inl (TaskGraphError code))"

section \<open>Failures\<close>

record task_failure =
  f_code :: string
  f_message :: string
  f_retryable :: bool

fun assertFailureCode :: "jsval \<Rightarrow> tg_code \<Rightarrow> tg_error + string" where
  "assertFailureCode (JStr s) code = (if isFailureCode s then Inr s else Inl (TaskGraphError code))"
| "assertFailureCode _ code = Inl (TaskGraphError code)"

definition parseFailure :: "jsval \<Rightarrow> tg_code \<Rightarrow> tg_error + task_failure" where
  "parseFailure value code =
     bindE (copyPlainDataRecord value code) (\<lambda>rec.
     bindE (assertExactKeys rec [''code'', ''message'', ''retryable''] code) (\<lambda>_.
     bindE (assertFailureCode (fld rec ''code'') code) (\<lambda>failureCode.
     bindE (normalizeRequiredText (fld rec ''message'') 4000 code) (\<lambda>message.
     bindE (assertBoolean (fld rec ''retryable'') code) (\<lambda>retryable.
     Inr \<lparr>f_code = failureCode, f_message = message, f_retryable = retryable\<rparr>)))))"

text \<open>A list of distinct identifiers (\<open>parseUniqueIdentifiers\<close> of \<open>task-graph.ts\<close>).\<close>

definition parseUniqueIdentifiers :: "jsval \<Rightarrow> tg_code \<Rightarrow> nat \<Rightarrow> tg_error + string list" where
  "parseUniqueIdentifiers value code maximumLength =
     bindE (copyDenseDataArray value maximumLength code) (\<lambda>items.
     bindE (mapE (\<lambda>v. assertIdentifier v code) items) (\<lambda>result.
     bindE (requireE (distinct result) (TaskGraphError code)) (\<lambda>_.
     Inr result)))"

section \<open>What the validators accept\<close>

lemma copyPlainDataRecord_plainObj [simp]:
  "copyPlainDataRecord (plainObj fs) c =
     (if length fs \<le> MAX_DATA_OBJECT_FIELDS then Inr fs else Inl (TaskGraphError c))"
proof -
  have "mapE (\<lambda>(k, dataProp, v). if dataProp then Inr (keyName k, v) else Inl (TaskGraphError c))
      (map (\<lambda>(k, v). (KStr k, True, v)) fs) = Inr (map id fs)"
    by (rule mapE_map_Inr) auto
  moreover have "\<not> list_ex (\<lambda>(k, _). isSymKey k) (map (\<lambda>(k, v). (KStr k, True, v)) fs)"
    by (auto simp: list_ex_iff)
  ultimately show ?thesis by (simp add: plainObj_def split_def)
qed

lemma copyDenseDataArray_plainArr [simp]:
  "copyDenseDataArray (plainArr vs) m c = (if length vs \<le> m then Inr vs else Inl (TaskGraphError c))"
proof -
  have "mapE (\<lambda>i. case i of Some (True, v) \<Rightarrow> Inr v | _ \<Rightarrow> Inl (TaskGraphError c))
      (map (\<lambda>v. Some (True, v)) vs) = Inr (map id vs)"
    by (rule mapE_map_Inr) auto
  moreover have "filter (\<lambda>i. i \<noteq> None) (map (\<lambda>v. Some (True, v)) vs) = map (\<lambda>v. Some (True, v)) vs"
    by (rule filter_True) auto
  ultimately show ?thesis by (simp add: plainArr_def)
qed

declare copyPlainDataRecord.simps [simp del] copyDenseDataArray.simps [simp del]

lemma copyDenseDataArray_length: "copyDenseDataArray v m c = Inr vs \<Longrightarrow> length vs \<le> m"
  by (cases v) (auto simp: copyDenseDataArray.simps split: if_splits dest: mapE_length)

lemma copyPlainDataRecord_length: "copyPlainDataRecord v c = Inr r \<Longrightarrow> length r \<le> MAX_DATA_OBJECT_FIELDS"
  by (cases v) (auto simp: copyPlainDataRecord.simps split: if_splits dest: mapE_length)

lemma assertExactKeys_simp [simp]:
  "assertExactKeys r ks c = (if fst ` set r \<subseteq> set ks then Inr () else Inl (TaskGraphError c))"
  by (auto simp: assertExactKeys_def requireE_def list_all_iff)

lemma assertIdentifier_Inr [simp]: "assertIdentifier v c = Inr s \<longleftrightarrow> v = JStr s \<and> isIdentifier s"
  by (cases v) auto

lemma assertFailureCode_Inr [simp]: "assertFailureCode v c = Inr s \<longleftrightarrow> v = JStr s \<and> isFailureCode s"
  by (cases v) auto

lemma assertKind_Inr [simp]: "assertKind v c = Inr s \<longleftrightarrow> v = JStr s \<and> isKind s"
  by (cases v) auto

lemma assertBoolean_Inr [simp]: "assertBoolean v c = Inr b \<longleftrightarrow> v = JBool b"
  by (cases v) auto

lemma assertCanonicalTimestamp_Inr [simp]:
  "assertCanonicalTimestamp v c = Inr s \<longleftrightarrow> v = JStr s \<and> canonicalTimestamp s"
  by (cases v) auto

lemma assertInteger_range:
  "assertInteger v lo hi c = Inr i \<Longrightarrow> lo \<le> i \<and> i \<le> hi \<and> \<bar>i\<bar> \<le> MAX_SAFE_INTEGER"
  by (cases v; (cases "case v of JNum n \<Rightarrow> n"))
    (auto split: if_splits simp: not_less elim: isSafeInteger.elims)

lemma readClock_Inr: "readClock r = Inr s \<longleftrightarrow> (\<exists>t. r = ClockDate t \<and> validTime t \<and> s = toISOString t)"
  by (cases r) auto

text \<open>Text that a normaliser let through is trimmed, in range, and passes again unchanged.\<close>

definition trimmedText :: "nat \<Rightarrow> string \<Rightarrow> bool" where
  "trimmedText maximum s \<longleftrightarrow> trim s = s \<and> s \<noteq> [] \<and> length s \<le> maximum"

lemma normalizeRequiredText_Inr:
  "normalizeRequiredText v m c = Inr s \<Longrightarrow> trimmedText m s"
  by (cases v) (auto simp: trimmedText_def Let_def split: if_splits)

lemma normalizeRequiredText_trimmed [simp]:
  "trimmedText m s \<Longrightarrow> normalizeRequiredText (JStr s) m c = Inr s"
  by (simp add: trimmedText_def Let_def)

declare normalizeRequiredText.simps [simp del]

lemma normalizeOptionalText_Inr:
  "normalizeOptionalText v m c = Inr d \<Longrightarrow> pred_option (trimmedText m) d"
  by (cases v) (auto simp: trimmedText_def Let_def split: if_splits)

lemma normalizeOptionalText_trimmed [simp]:
  "pred_option (trimmedText m) d \<Longrightarrow> normalizeOptionalText (jsNullable JStr d) m c = Inr d"
  by (cases d) (auto simp: trimmedText_def)

lemma parseUniqueIdentifiers_Inr:
  "parseUniqueIdentifiers v c m = Inr ids \<Longrightarrow> distinct ids \<and> list_all isIdentifier ids \<and> length ids \<le> m"
  by (auto simp: parseUniqueIdentifiers_def bindE_Inr_iff list_all_iff
      dest!: copyDenseDataArray_length dest: mapE_length mapE_set)

lemma parseUniqueIdentifiers_plain [simp]:
  assumes "distinct ids" "list_all isIdentifier ids" "length ids \<le> m"
  shows "parseUniqueIdentifiers (plainArr (map JStr ids)) c m = Inr ids"
proof -
  have "mapE (\<lambda>v. assertIdentifier v c) (map JStr ids) = Inr (map id ids)"
    using assms(2) by (intro mapE_map_Inr) (auto simp: list_all_iff)
  then show ?thesis using assms by (simp add: parseUniqueIdentifiers_def)
qed

definition cleanFailure :: "task_failure \<Rightarrow> bool" where
  "cleanFailure f \<longleftrightarrow> isFailureCode (f_code f) \<and> trimmedText 4000 (f_message f)"

lemma parseFailure_Inr: "parseFailure v c = Inr f \<Longrightarrow> cleanFailure f"
  by (auto simp: parseFailure_def cleanFailure_def bindE_Inr_iff dest!: normalizeRequiredText_Inr)

definition failureVal :: "task_failure \<Rightarrow> jsval" where
  "failureVal f = plainObj [(''code'', JStr (f_code f)), (''message'', JStr (f_message f)),
     (''retryable'', JBool (f_retryable f))]"

lemma parseFailure_failureVal [simp]: "cleanFailure f \<Longrightarrow> parseFailure (failureVal f) c = Inr f"
  by (simp add: parseFailure_def failureVal_def cleanFailure_def MAX_DATA_OBJECT_FIELDS_def)

subsection \<open>Cloning a clone\<close>

lemma cloneJsonValue_JObj_keys:
  assumes "threadE (\<lambda>(key, item) n.
      if key \<in> set ks then Inl e
      else bindE (f item n) (\<lambda>(j, n'). Inr ((key, j), n'))) src n = Inr (result, m)"
  shows "map fst result = map fst src"
proof -
  have "list_all2 (\<lambda>x y. fst y = fst x) src result"
    using threadE_list_all2 [OF assms]
    by (rule list_all2_mono) (auto simp: bindE_Inr_iff split: if_splits)
  then show ?thesis by (induction rule: list_all2_induct) auto
qed

lemma sortedKeys_map_fst: "map fst xs = map fst ys \<Longrightarrow> sortedKeys xs \<Longrightarrow> sortedKeys ys"
  by (simp add: sorted_wrt_iff_nth_less) (metis length_map nth_map order.strict_trans)

text \<open>The two recursive cases, once the node and depth checks have passed.\<close>

lemma cloneJsonValue_JArr:
  assumes "n + 1 \<le> MAX_JSON_NODES" and "d \<le> MAX_JSON_DEPTH"
  shows "cloneJsonValue c (JArr p xs ex) d n =
    bindE (copyDenseDataArray (JArr p xs ex) (MAX_JSON_NODES - (n + 1)) c) (\<lambda>source.
    bindE (threadE (\<lambda>item n. cloneJsonValue c item (d + 1) n) source (n + 1)) (\<lambda>(result, n).
    Inr (JsonArr result, n)))"
  using assms by (simp add: cloneJsonValue.simps [of c "JArr p xs ex" d n] Let_def)

lemma cloneJsonValue_JObj:
  assumes "n + 1 \<le> MAX_JSON_NODES" and "d \<le> MAX_JSON_DEPTH"
  shows "cloneJsonValue c (JObj p fs) d n =
    bindE (copyPlainDataRecord (JObj p fs) c) (\<lambda>source.
    bindE (threadE (\<lambda>(key, item) n.
        if key \<in> set DANGEROUS_OBJECT_KEYS then Inl (TaskGraphError c)
        else bindE (cloneJsonValue c item (d + 1) n) (\<lambda>(j, n'). Inr ((key, j), n')))
      (sortKeys source) (n + 1)) (\<lambda>(result, n).
    Inr (JsonObj result, n)))"
  using assms by (simp add: cloneJsonValue.simps [of c "JObj p fs" d n] Let_def)

lemma cloneJsonValue_plain:
  assumes "n + 1 \<le> MAX_JSON_NODES" and "d \<le> MAX_JSON_DEPTH"
  shows "cloneJsonValue c (plainArr vs) d n =
      (if length vs \<le> MAX_JSON_NODES - (n + 1)
       then bindE (threadE (\<lambda>item n. cloneJsonValue c item (d + 1) n) vs (n + 1)) (\<lambda>(result, n).
         Inr (JsonArr result, n))
       else Inl (TaskGraphError c))"
    and "cloneJsonValue c (plainObj gs) d n =
      (if length gs \<le> MAX_DATA_OBJECT_FIELDS
       then bindE (threadE (\<lambda>(key, item) n.
          if key \<in> set DANGEROUS_OBJECT_KEYS then Inl (TaskGraphError c)
          else bindE (cloneJsonValue c item (d + 1) n) (\<lambda>(j, n'). Inr ((key, j), n')))
        (sortKeys gs) (n + 1)) (\<lambda>(result, n). Inr (JsonObj result, n))
       else Inl (TaskGraphError c))"
proof -
  note eqs = cloneJsonValue_JArr [OF assms] cloneJsonValue_JObj [OF assms]
  show "cloneJsonValue c (plainArr vs) d n =
      (if length vs \<le> MAX_JSON_NODES - (n + 1)
       then bindE (threadE (\<lambda>item n. cloneJsonValue c item (d + 1) n) vs (n + 1)) (\<lambda>(result, n).
         Inr (JsonArr result, n))
       else Inl (TaskGraphError c))"
    unfolding plainArr_def eqs by (simp flip: plainArr_def)
  show "cloneJsonValue c (plainObj gs) d n =
      (if length gs \<le> MAX_DATA_OBJECT_FIELDS
       then bindE (threadE (\<lambda>(key, item) n.
          if key \<in> set DANGEROUS_OBJECT_KEYS then Inl (TaskGraphError c)
          else bindE (cloneJsonValue c item (d + 1) n) (\<lambda>(j, n'). Inr ((key, j), n')))
        (sortKeys gs) (n + 1)) (\<lambda>(result, n). Inr (JsonObj result, n))
       else Inl (TaskGraphError c))"
    unfolding plainObj_def eqs by (simp flip: plainObj_def)
qed

lemma cloneJsonValue_leaf:
  assumes "n + 1 \<le> MAX_JSON_NODES" and "d \<le> MAX_JSON_DEPTH"
  shows "cloneJsonValue c JNull d n = Inr (JsonNull, n + 1)"
    and "cloneJsonValue c (JBool b) d n = Inr (JsonBool b, n + 1)"
    and "cloneJsonValue c (JNum x) d n =
      (if isFiniteNum x then Inr (JsonNum (dropNegZero x), n + 1) else Inl (TaskGraphError c))"
    and "cloneJsonValue c (JStr s) d n =
      (if length s \<le> MAX_JSON_STRING_LENGTH then Inr (JsonStr s, n + 1) else Inl (TaskGraphError c))"
    and "cloneJsonValue c JUndef d n = Inl (TaskGraphError c)"
    and "cloneJsonValue c (JSym i) d n = Inl (TaskGraphError c)"
    and "cloneJsonValue c (JFun i) d n = Inl (TaskGraphError c)"
  unfolding cloneJsonValue.simps [of c _ d n] using assms by (simp_all add: Let_def)

theorem cloneJsonValue_again:
  "cloneJsonValue c v d n = Inr (j, m) \<Longrightarrow> cloneJsonValue c' (jsonVal j) d n = Inr (j, m)"
proof (induction c v d n arbitrary: j m rule: cloneJsonValue.induct)
  case (1 c v d n)
  have ok: "n + 1 \<le> MAX_JSON_NODES" "d \<le> MAX_JSON_DEPTH"
    using "1.prems" by (auto simp: cloneJsonValue.simps [of c v d n] Let_def split: if_splits)
  show ?case
  proof (cases v)
    case (JArr p xs ex)
    obtain src js where src: "copyDenseDataArray v (MAX_JSON_NODES - (n + 1)) c = Inr src"
      and js: "threadE (\<lambda>item k. cloneJsonValue c item (d + 1) k) src (n + 1) = Inr (js, m)" and j: "j = JsonArr js"
      using "1.prems" unfolding JArr cloneJsonValue_JArr [OF ok] by (auto simp: bindE_Inr_iff)
    have "threadE (\<lambda>item k. cloneJsonValue c' item (d + 1) k) (map jsonVal js) (n + 1) = Inr (js, m)"
      using js by (rule threadE_again) (use "1.IH"(2) ok JArr src in auto)
    moreover have "length js \<le> MAX_JSON_NODES - (n + 1)"
      using copyDenseDataArray_length [OF src] threadE_length [OF js] by simp
    ultimately show ?thesis unfolding j jsonVal.simps cloneJsonValue_plain [OF ok] by simp
  next
    case (JObj p fs)
    obtain src gs where src: "copyPlainDataRecord v c = Inr src"
      and gs: "threadE (\<lambda>(key, item) n.
          if key \<in> set DANGEROUS_OBJECT_KEYS then Inl (TaskGraphError c)
          else bindE (cloneJsonValue c item (d + 1) n) (\<lambda>(j, n'). Inr ((key, j), n')))
        (sortKeys src) (n + 1) = Inr (gs, m)" and j: "j = JsonObj gs"
      using "1.prems" unfolding JObj cloneJsonValue_JObj [OF ok] by (auto simp: bindE_Inr_iff)
    let ?h = "\<lambda>(k, j). (k, jsonVal j)"
    have "threadE (\<lambda>(key, item) n.
          if key \<in> set DANGEROUS_OBJECT_KEYS then Inl (TaskGraphError c')
          else bindE (cloneJsonValue c' item (d + 1) n) (\<lambda>(j, n'). Inr ((key, j), n')))
        (map ?h gs) (n + 1) = Inr (gs, m)"
      using gs by (rule threadE_again)
        (use "1.IH"(1) ok JObj src in \<open>auto simp: bindE_Inr_iff split: if_splits\<close>)
    moreover have "map fst gs = map fst (sortKeys src)"
      using gs by (rule cloneJsonValue_JObj_keys)
    then have "sortKeys (map ?h gs) = map ?h gs"
      by (intro sortKeys_sorted sortedKeys_map_fst [OF _ sortedKeys_sortKeys [of src]])
        (simp add: comp_def split_def)
    moreover have "length (map ?h gs) \<le> MAX_DATA_OBJECT_FIELDS"
      using copyPlainDataRecord_length [OF src] threadE_length [OF gs] by simp
    ultimately show ?thesis unfolding j jsonVal.simps cloneJsonValue_plain [OF ok] by simp
  next
    case (JTrap b)
    have "cloneJsonValue c (JTrap b) d n \<noteq> Inr (j, m)"
      unfolding cloneJsonValue.simps [of c "JTrap b" d n]
      by (cases b) (auto simp: Let_def bindE_Inr_iff)
    then show ?thesis using "1.prems" JTrap by simp
  qed (use "1.prems" in \<open>auto simp: cloneJsonValue_leaf [OF ok] split: if_splits\<close>)
qed

text \<open>Metadata that went through the clone is a fixed point of it.\<close>

definition cleanMetadata :: "json \<Rightarrow> bool" where
  "cleanMetadata j \<longleftrightarrow> (\<forall>c. cloneAndFreezeJsonObject (jsonVal j) c = Inr j)"

lemma cloneAndFreezeJsonObject_clean:
  assumes "cloneAndFreezeJsonObject v c = Inr j"
  shows "cleanMetadata j"
proof -
  from assms obtain k m where "cloneJsonValue c v 0 0 = Inr (k, m)"
    and "(case k of JsonObj _ \<Rightarrow> Inr k | _ \<Rightarrow> Inl (TaskGraphError c)) = Inr j"
    by (auto simp: cloneAndFreezeJsonObject_def bindE_Inr_iff)
  then obtain fs where "cloneJsonValue c v 0 0 = Inr (j, m)" and "j = JsonObj fs"
    by (cases k) simp_all
  then have "cloneJsonValue c' (jsonVal j) 0 0 = Inr (JsonObj fs, m)" for c'
    using cloneJsonValue_again by blast
  then show ?thesis
    unfolding cleanMetadata_def cloneAndFreezeJsonObject_def by (simp add: \<open>j = JsonObj fs\<close>)
qed

lemma cleanMetadataD [simp]: "cleanMetadata j \<Longrightarrow> cloneAndFreezeJsonObject (jsonVal j) c = Inr j"
  by (simp add: cleanMetadata_def)

end
