(* ===== verification/Tg_Types.thy ===== *)
theory Tg_Types
  imports Tg_Validation
begin

text \<open>
  \<open>packages/task-graph/src/types.ts\<close> and the private types of \<open>task-graph.ts\<close>: statuses, task
  nodes, events and limits. A \<open>MutableTask\<close> and the frozen \<open>TaskNode\<close> copied from it have the same
  fields and are one record. Timestamps are the strings the code stores.
\<close>

section \<open>Limits\<close>

definition MAX_TASKS :: nat where "MAX_TASKS = 10000"
definition MAX_DEPENDENCIES_PER_TASK :: nat where "MAX_DEPENDENCIES_PER_TASK = 256"
definition MAX_EDGES :: nat where "MAX_EDGES = 100000"
definition MAX_DEPTH :: nat where "MAX_DEPTH = 128"
definition MAX_OUTPUT_ARTIFACTS_PER_TASK :: nat where "MAX_OUTPUT_ARTIFACTS_PER_TASK = 1000"
definition MIN_PRIORITY :: int where "MIN_PRIORITY = -1000"
definition MAX_PRIORITY :: int where "MAX_PRIORITY = 1000"

abbreviation MAX_SEQUENCE :: int where
  "MAX_SEQUENCE \<equiv> MAX_SAFE_INTEGER"

section \<open>Statuses\<close>

datatype task_status =
  Pending | Ready | Running | Waiting | NeedsResolution | Succeeded | Failed | Cancelled | Blocked

datatype graph_status = Planning | Active | GSucceeded | GFailed | GCancelled

definition TERMINAL_STATUSES :: "task_status list" where
  "TERMINAL_STATUSES = [Succeeded, Failed, Cancelled, Blocked]"

definition UNSUCCESSFUL_TERMINAL_STATUSES :: "task_status list" where
  "UNSUCCESSFUL_TERMINAL_STATUSES = [Failed, Cancelled, Blocked]"

abbreviation terminal :: "task_status \<Rightarrow> bool" where
  "terminal s \<equiv> s \<in> set TERMINAL_STATUSES"

abbreviation unsuccessful :: "task_status \<Rightarrow> bool" where
  "unsuccessful s \<equiv> s \<in> set UNSUCCESSFUL_TERMINAL_STATUSES"

lemma status_sets [simp]:
  "set TERMINAL_STATUSES = {Succeeded, Failed, Cancelled, Blocked}"
  "set UNSUCCESSFUL_TERMINAL_STATUSES = {Failed, Cancelled, Blocked}"
  by (auto simp: TERMINAL_STATUSES_def UNSUCCESSFUL_TERMINAL_STATUSES_def)

text \<open>The strings of \<open>TASK_STATUSES\<close>, in which a snapshot carries a status.\<close>

fun statusText :: "task_status \<Rightarrow> string" where
  "statusText Pending = ''pending''"
| "statusText Ready = ''ready''"
| "statusText Running = ''running''"
| "statusText Waiting = ''waiting''"
| "statusText NeedsResolution = ''needs_resolution''"
| "statusText Succeeded = ''succeeded''"
| "statusText Failed = ''failed''"
| "statusText Cancelled = ''cancelled''"
| "statusText Blocked = ''blocked''"

definition TASK_STATUSES :: "task_status list" where
  "TASK_STATUSES = [Pending, Ready, Running, Waiting, NeedsResolution, Succeeded, Failed, Cancelled, Blocked]"

fun parseStatus :: "jsval \<Rightarrow> tg_code \<Rightarrow> tg_error + task_status" where
  "parseStatus (JStr s) code =
     (case List.find (\<lambda>t. statusText t = s) TASK_STATUSES of
        None \<Rightarrow> Inl (TaskGraphError code) | Some t \<Rightarrow> Inr t)"
| "parseStatus _ code = Inl (TaskGraphError code)"

lemma parseStatus_statusText [simp]: "parseStatus (JStr (statusText t)) c = Inr t"
  by (cases t) (simp_all add: TASK_STATUSES_def)

section \<open>Tasks and events\<close>

record task =
  t_id :: string
  t_kind :: string
  t_title :: string
  t_description :: "string option"
  t_dependencies :: "string list"
  t_priority :: int
  t_metadata :: json
  t_status :: task_status
  t_blockedBy :: "string list"
  t_outputArtifactIds :: "string list"
  t_failure :: "task_failure option"
  t_order :: int
  t_createdAt :: string
  t_updatedAt :: string

datatype pending_event =
    TaskAdded task
  | DependencyAdded string string
  | GraphSealed nat
  | TaskStatusChanged string task_status task_status "string option" task
  | GraphStatusChanged graph_status graph_status

record tg_event =
  e_graphId :: string
  e_projectId :: string
  e_sequence :: int
  e_aggregateVersion :: int
  e_eventIndex :: nat
  e_eventCount :: nat
  e_occurredAt :: string
  e_body :: pending_event

text \<open>\<open>cloneAndFreezeTask\<close>: the copy handed out re-clones the metadata.\<close>

definition cloneAndFreezeTask :: "task \<Rightarrow> tg_error + task" where
  "cloneAndFreezeTask t =
     bindE (cloneAndFreezeJsonObject (jsonVal (t_metadata t)) INVALID_ARGUMENT) (\<lambda>metadata.
     Inr (t\<lparr>t_metadata := metadata\<rparr>))"

lemma cloneAndFreezeTask_clean [simp]: "cleanMetadata (t_metadata t) \<Longrightarrow> cloneAndFreezeTask t = Inr t"
  by (simp add: cloneAndFreezeTask_def)

end
