(* ===== verification/Task_Heap.thy ===== *)
theory Task_Heap
  imports Tg_Types
begin

text \<open>
  The priority queue of the topological sort: \<open>TaskOrderMinHeap\<close> of \<open>task-graph.ts\<close>, a binary
  heap in an array ordered by \<open>order\<close>. The interface its client relies on is the locale
  \<open>min_queue\<close>; the heap is interpreted in it.
\<close>

section \<open>The interface\<close>

locale min_queue =
  fixes empty :: "'q"
    and push :: "'a \<Rightarrow> 'q \<Rightarrow> 'q"
    and pop :: "'q \<Rightarrow> 'a option \<times> 'q"
    and items :: "'q \<Rightarrow> 'a multiset"
    and invar :: "'q \<Rightarrow> bool"
    and prio :: "'a \<Rightarrow> int"
  assumes items_empty: "items empty = {#}"
    and invar_empty: "invar empty"
    and items_push: "invar q \<Longrightarrow> items (push x q) = add_mset x (items q)"
    and invar_push: "invar q \<Longrightarrow> invar (push x q)"
    and pop_None: "invar q \<Longrightarrow> fst (pop q) = None \<longleftrightarrow> items q = {#}"
    and items_pop: "invar q \<Longrightarrow> pop q = (Some x, q') \<Longrightarrow> items q = add_mset x (items q')"
    and invar_pop: "invar q \<Longrightarrow> pop q = (Some x, q') \<Longrightarrow> invar q'"
    and pop_least: "invar q \<Longrightarrow> pop q = (Some x, q') \<Longrightarrow> y \<in># items q \<Longrightarrow> prio x \<le> prio y"
begin

lemma push_all:
  "invar q \<Longrightarrow> invar (fold push xs q) \<and> items (fold push xs q) = items q + mset xs"
  by (induction xs arbitrary: q) (simp_all add: invar_push items_push)

lemma pop_cases:
  assumes "invar q" and "items q \<noteq> {#}"
  obtains x q' where "pop q = (Some x, q')" and "items q = add_mset x (items q')" and "invar q'"
    and "\<And>y. y \<in># items q' \<Longrightarrow> prio x \<le> prio y"
proof -
  obtain x q' where p: "pop q = (Some x, q')"
    using pop_None [OF assms(1)] assms(2) by (cases "pop q"; cases "fst (pop q)") auto
  have "prio x \<le> prio y" if "y \<in># items q'" for y
    using pop_least [OF assms(1) p, of y] items_pop [OF assms(1) p] that by simp
  then show thesis using that [OF p] items_pop [OF assms(1) p] invar_pop [OF assms(1) p] by blast
qed

lemma pop_unique_least:
  assumes "invar q" and "pop q = (Some x, q')" and "inj_on prio (set_mset (items q))"
    and "y \<in># items q" and "\<And>z. z \<in># items q \<Longrightarrow> prio y \<le> prio z"
  shows "y = x"
proof -
  have x: "x \<in># items q" using items_pop [OF assms(1,2)] by simp
  then have "prio x = prio y"
    using pop_least [OF assms(1,2,4)] assms(5) [OF x] by simp
  then show ?thesis using assms(3) x assms(4) by (metis inj_onD)
qed

end

section \<open>The heap\<close>

function siftUp :: "task list \<Rightarrow> nat \<Rightarrow> task \<Rightarrow> task list" where
  "siftUp items index task =
     (if index > 0 then
        let parent = (index - 1) div 2 in
        if t_order (items ! parent) \<le> t_order task then items[index := task]
        else siftUp (items[index := items ! parent]) parent task
      else items[index := task])"
  by pat_completeness auto
termination
  by (relation "measure (\<lambda>(items, index, task). index)") auto

definition heapPush :: "task \<Rightarrow> task list \<Rightarrow> task list" where
  "heapPush task items = siftUp (items @ [task]) (length items) task"

function siftDown :: "task list \<Rightarrow> nat \<Rightarrow> task \<Rightarrow> task list" where
  "siftDown items index lastTask =
     (let left = index * 2 + 1; right = left + 1 in
      if left \<ge> length items then items[index := lastTask]
      else
        let child = (if right < length items \<and> t_order (items ! right) < t_order (items ! left)
                     then right else left) in
        if t_order (items ! child) \<ge> t_order lastTask then items[index := lastTask]
        else siftDown (items[index := items ! child]) child lastTask)"
  by pat_completeness auto
termination
  by (relation "measure (\<lambda>(items, index, lastTask). length items - index)") (auto simp: Let_def split: if_splits)

definition heapPop :: "task list \<Rightarrow> task option \<times> task list" where
  "heapPop items =
     (case items of
        [] \<Rightarrow> (None, [])
      | root # _ \<Rightarrow>
          let rest = butlast items in
          if rest = [] then (Some root, rest)
          else (Some root, siftDown rest 0 (last items)))"

declare siftUp.simps [simp del] siftDown.simps [simp del]

section \<open>Its invariant\<close>

abbreviation parentOf :: "nat \<Rightarrow> nat" where
  "parentOf i \<equiv> (i - 1) div 2"

lemma parentOf_less: "0 < h \<Longrightarrow> parentOf h < h"
  by linarith

lemma parentOf_eq: "parentOf i = h \<Longrightarrow> 0 < i \<Longrightarrow> i = 2 * h + 1 \<or> i = 2 * h + 2"
  by linarith

definition heapInv :: "task list \<Rightarrow> bool" where
  "heapInv xs \<longleftrightarrow> (\<forall>i < length xs. 0 < i \<longrightarrow> t_order (xs ! parentOf i) \<le> t_order (xs ! i))"

text \<open>The heap property away from position \<open>h\<close>, the hole, and across it.\<close>

definition heapHole :: "task list \<Rightarrow> nat \<Rightarrow> bool" where
  "heapHole xs h \<longleftrightarrow>
     (\<forall>i < length xs. 0 < i \<longrightarrow> i \<noteq> h \<longrightarrow> parentOf i \<noteq> h \<longrightarrow> t_order (xs ! parentOf i) \<le> t_order (xs ! i)) \<and>
     (\<forall>i < length xs. 0 < i \<longrightarrow> parentOf i = h \<longrightarrow> 0 < h \<longrightarrow> t_order (xs ! parentOf h) \<le> t_order (xs ! i))"

lemma heapHole_fill:
  assumes "heapHole xs h" and "h < length xs"
    and "0 < h \<Longrightarrow> t_order (xs ! parentOf h) \<le> t_order x"
    and "\<And>i. i < length xs \<Longrightarrow> 0 < i \<Longrightarrow> parentOf i = h \<Longrightarrow> t_order x \<le> t_order (xs ! i)"
  shows "heapInv (xs[h := x])"
  unfolding heapInv_def
proof (intro allI impI)
  fix i assume i: "i < length (xs[h := x])" "0 < i"
  show "t_order (xs[h := x] ! parentOf i) \<le> t_order (xs[h := x] ! i)"
    using assms i unfolding heapHole_def by (cases "i = h"; cases "parentOf i = h") auto
qed

lemma siftUp_correct:
  assumes "heapHole xs h" and "h < length xs"
    and "\<And>i. i < length xs \<Longrightarrow> 0 < i \<Longrightarrow> parentOf i = h \<Longrightarrow> t_order x \<le> t_order (xs ! i)"
  shows "heapInv (siftUp xs h x) \<and> mset (siftUp xs h x) = mset (xs[h := x])"
  using assms
proof (induction xs h x rule: siftUp.induct)
  case (1 xs h x)
  show ?case
  proof (cases "0 < h \<and> \<not> t_order (xs ! parentOf h) \<le> t_order x")
    case False
    then have "siftUp xs h x = xs[h := x]" by (auto simp: siftUp.simps [of xs h x] Let_def)
    moreover have "heapInv (xs[h := x])"
      by (rule heapHole_fill) (use False "1.prems" in auto)
    ultimately show ?thesis by simp
  next
    case True
    let ?p = "parentOf h" and ?ys = "xs[h := xs ! parentOf h]"
    have p: "?p < h" using True parentOf_less by blast
    have up: "siftUp xs h x = siftUp ?ys ?p x"
      using True by (simp add: siftUp.simps [of xs h x] Let_def)
    have edge: "t_order (xs ! parentOf i) \<le> t_order (xs ! i)"
      if "i < length xs" "0 < i" "i \<noteq> h" "parentOf i \<noteq> h" for i
      using "1.prems"(1) that by (simp add: heapHole_def)
    have across: "t_order (xs ! ?p) \<le> t_order (xs ! i)" if "i < length xs" "0 < i" "parentOf i = h" for i
      using "1.prems"(1) that True by (simp add: heapHole_def)
    have hole: "heapHole ?ys ?p"
      unfolding heapHole_def
    proof (intro conjI allI impI)
      fix i assume i: "i < length ?ys" "0 < i" "i \<noteq> ?p" "parentOf i \<noteq> ?p"
      then show "t_order (?ys ! parentOf i) \<le> t_order (?ys ! i)"
        using edge [of i] across [of i] p "1.prems"(2) by (cases "parentOf i = h") (auto simp: nth_list_update)
    next
      fix i assume i: "i < length ?ys" "0 < i" "parentOf i = ?p" "0 < ?p"
      have q: "parentOf ?p < ?p" using i(4) by (rule parentOf_less)
      have "t_order (xs ! parentOf ?p) \<le> t_order (xs ! ?p)"
        by (rule edge) (use i q p "1.prems"(2) in auto)
      moreover have "t_order (xs ! ?p) \<le> t_order (?ys ! i)"
        using edge [of i] i p "1.prems"(2) by (cases "i = h") (auto simp: nth_list_update)
      ultimately show "t_order (?ys ! parentOf ?p) \<le> t_order (?ys ! i)"
        using q p by (simp add: nth_list_update)
    qed
    have above: "t_order x \<le> t_order (?ys ! i)" if "i < length ?ys" "0 < i" "parentOf i = ?p" for i
    proof (cases "i = h")
      case True
      then show ?thesis using \<open>0 < h \<and> _\<close> "1.prems"(2) by simp
    next
      case False
      then have "t_order (xs ! ?p) \<le> t_order (xs ! i)" using edge [of i] that p by simp
      then show ?thesis using \<open>0 < h \<and> _\<close> False by simp
    qed
    have "heapInv (siftUp ?ys ?p x) \<and> mset (siftUp ?ys ?p x) = mset (?ys[?p := x])"
      by (rule "1.IH") (use True hole above "1.prems"(2) p in auto)
    moreover have "mset (?ys[?p := x]) = mset (xs[h := x])"
      using mset_swap [of "?p" "xs[h := x]" h] "1.prems"(2) p by (simp add: nth_list_update list_update_overwrite)
    ultimately show ?thesis by (simp add: up)
  qed
qed

lemma heapInv_append_hole:
  assumes "heapInv xs"
  shows "heapHole (xs @ [x]) (length xs)"
  unfolding heapHole_def
proof (intro conjI allI impI)
  fix i assume i: "i < length (xs @ [x])" "0 < i" "i \<noteq> length xs"
  then have "parentOf i < length xs" using parentOf_less [OF i(2)] by simp
  then show "t_order ((xs @ [x]) ! parentOf i) \<le> t_order ((xs @ [x]) ! i)"
    using assms i by (simp add: heapInv_def nth_append)
next
  fix i assume "i < length (xs @ [x])" "0 < i" "parentOf i = length xs"
  then show "t_order ((xs @ [x]) ! parentOf (length xs)) \<le> t_order ((xs @ [x]) ! i)"
    using parentOf_less [of i] by simp
qed

lemma siftDown_correct:
  assumes "heapHole xs h" and "h < length xs" and "0 < h \<Longrightarrow> t_order (xs ! parentOf h) \<le> t_order x"
  shows "heapInv (siftDown xs h x) \<and> mset (siftDown xs h x) = mset (xs[h := x])"
  using assms
proof (induction xs h x rule: siftDown.induct)
  case (1 xs h x)
  let ?l = "h * 2 + 1" and ?r = "h * 2 + 1 + 1"
  define c where "c = (if ?r < length xs \<and> t_order (xs ! ?r) < t_order (xs ! ?l) then ?r else ?l)"
  show ?case
  proof (cases "?l < length xs \<and> \<not> t_order x \<le> t_order (xs ! c)")
    case False
    then have "siftDown xs h x = xs[h := x]"
      by (auto simp: siftDown.simps [of xs h x] Let_def c_def)
    moreover have "heapInv (xs[h := x])"
    proof (rule heapHole_fill)
      fix i assume "i < length xs" "0 < i" "parentOf i = h"
      moreover from this have "i = ?l \<or> i = ?r" using parentOf_eq [of i h] by (simp add: mult.commute)
      ultimately show "t_order x \<le> t_order (xs ! i)"
        using False by (auto simp: c_def split: if_splits)
    qed (use "1.prems" in auto)
    ultimately show ?thesis by simp
  next
    case True
    let ?ys = "xs[h := xs ! c]"
    have c: "h < c" "c < length xs" "parentOf c = h" "0 < c"
      using True by (auto simp: c_def split: if_splits)
    have least: "t_order (xs ! c) \<le> t_order (xs ! i)" if "i < length xs" "0 < i" "parentOf i = h" for i
      using parentOf_eq [OF that(3,2)] that(1) by (auto simp: c_def mult.commute split: if_splits)
    have down: "siftDown xs h x = siftDown ?ys c x"
      using True unfolding c_def by (subst siftDown.simps) (simp add: Let_def not_le split: if_splits)
    have hole: "heapHole ?ys c"
      unfolding heapHole_def
    proof (intro conjI allI impI)
      fix i assume i: "i < length ?ys" "0 < i" "i \<noteq> c" "parentOf i \<noteq> c"
      show "t_order (?ys ! parentOf i) \<le> t_order (?ys ! i)"
        using "1.prems"(1) i c least unfolding heapHole_def
        by (cases "i = h"; cases "parentOf i = h") (auto simp: nth_list_update)
    next
      fix i assume i: "i < length ?ys" "0 < i" "parentOf i = c" "0 < c"
      then have "c < i" using parentOf_less by metis
      with i c "1.prems"(1) show "t_order (?ys ! parentOf c) \<le> t_order (?ys ! i)"
        unfolding heapHole_def by (auto simp: nth_list_update)
    qed
    have "heapInv (siftDown ?ys c x) \<and> mset (siftDown ?ys c x) = mset (?ys[c := x])"
    proof (rule "1.IH" [OF refl refl _ c_def])
      show "t_order (?ys ! parentOf c) \<le> t_order x" using True c "1.prems"(2) by simp
    qed (use True hole c in auto)
    moreover have "mset (?ys[c := x]) = mset (xs[h := x])"
      using mset_swap [of c "xs[h := x]" h] "1.prems"(2) c by (simp add: nth_list_update list_update_overwrite)
    ultimately show ?thesis by (simp add: down)
  qed
qed

lemma heapInv_root_least: "heapInv xs \<Longrightarrow> i < length xs \<Longrightarrow> t_order (xs ! 0) \<le> t_order (xs ! i)"
proof (induction i rule: less_induct)
  case (less i)
  show ?case
  proof (cases "i = 0")
    case False
    then have "t_order (xs ! 0) \<le> t_order (xs ! parentOf i)"
      using less parentOf_less [of i] by simp
    also have "\<dots> \<le> t_order (xs ! i)" using less.prems False by (simp add: heapInv_def)
    finally show ?thesis .
  qed simp
qed

lemma heapPush_correct:
  assumes "heapInv xs"
  shows "heapInv (heapPush x xs) \<and> mset (heapPush x xs) = add_mset x (mset xs)"
proof -
  have "heapInv (siftUp (xs @ [x]) (length xs) x) \<and>
      mset (siftUp (xs @ [x]) (length xs) x) = mset ((xs @ [x])[length xs := x])"
    by (rule siftUp_correct [OF heapInv_append_hole [OF assms]]) (auto dest!: parentOf_eq)
  then show ?thesis by (simp add: heapPush_def)
qed

lemma heapPop_correct:
  assumes "heapInv xs" and "heapPop xs = (Some x, ys)"
  shows "heapInv ys" and "mset xs = add_mset x (mset ys)" and "\<And>y. y \<in># mset xs \<Longrightarrow> t_order x \<le> t_order y"
    and "length xs = Suc (length ys)"
proof -
  obtain zs where xs: "xs = x # zs"
    using assms(2) by (auto simp: heapPop_def Let_def split: list.splits if_splits)
  have both: "heapInv ys \<and> mset xs = add_mset x (mset ys)"
  proof (cases "zs = []")
    case True
    then show ?thesis using assms(2) by (auto simp: heapPop_def xs heapInv_def)
  next
    case False
    then have ys: "ys = siftDown (butlast xs) 0 (last xs)" and ne: "butlast xs \<noteq> []"
      using assms(2) by (auto simp: heapPop_def xs)
    have "heapHole (butlast xs) 0"
      using assms(1) unfolding heapInv_def heapHole_def by (simp add: nth_butlast)
    then have "heapInv ys \<and> mset ys = mset ((butlast xs)[0 := last xs])"
      unfolding ys using ne by (intro siftDown_correct) (auto simp del: length_butlast)
    moreover have "mset zs = add_mset (last zs) (mset (butlast zs))"
      using False by (metis append_butlast_last_id mset_append mset_single_iff union_mset_add_mset_right add.right_neutral mset.simps)
    then have "mset xs = add_mset x (mset ((butlast xs)[0 := last xs]))"
      using False by (simp add: xs)
    ultimately show ?thesis by simp
  qed
  then show "heapInv ys" and "mset xs = add_mset x (mset ys)" by simp_all
  then show "length xs = Suc (length ys)" by (metis size_add_mset size_mset)
  show "t_order x \<le> t_order y" if y: "y \<in># mset xs" for y
  proof -
    obtain i where "i < length xs" "y = xs ! i" using y by (auto simp: in_set_conv_nth)
    then show ?thesis using heapInv_root_least [OF assms(1), of i] by (simp add: xs)
  qed
qed

lemma heapPop_None: "fst (heapPop xs) = None \<longleftrightarrow> xs = []"
  by (auto simp: heapPop_def Let_def split: list.splits)

lemma heapPop_length: "heapPop xs = (Some x, ys) \<Longrightarrow> length xs = Suc (length ys)"
proof -
  have len: "length (siftDown zs i y) = length zs" for zs i y
    by (induction zs i y rule: siftDown.induct) (subst siftDown.simps, simp add: Let_def)
  show "heapPop xs = (Some x, ys) \<Longrightarrow> length xs = Suc (length ys)"
    by (auto simp: heapPop_def Let_def len split: list.splits if_splits)
qed

lemma heapPush_length: "length (heapPush x xs) = Suc (length xs)"
proof -
  have len: "length (siftUp zs i y) = length zs" for zs i y
    by (induction zs i y rule: siftUp.induct) (subst siftUp.simps, simp add: Let_def)
  show ?thesis by (simp add: heapPush_def len)
qed

interpretation heap: min_queue "[]" heapPush heapPop mset heapInv t_order
proof
  show "heapInv []" by (simp add: heapInv_def)
  show "mset ([] :: task list) = {#}" by simp
next
  fix q :: "task list" and x
  assume "heapInv q"
  then show "mset (heapPush x q) = add_mset x (mset q)" and "heapInv (heapPush x q)"
    and "fst (heapPop q) = None \<longleftrightarrow> mset q = {#}"
    by (simp_all add: heapPush_correct heapPop_None)
next
  fix q :: "task list" and x q' y
  assume "heapInv q" and "heapPop q = (Some x, q')"
  note pop = heapPop_correct [OF this]
  show "mset q = add_mset x (mset q')" and "heapInv q'" using pop by simp_all
  show "t_order x \<le> t_order y" if "y \<in># mset q" using that by (rule pop(3))
qed

end
