(* ===== verification/Task_Topology_Correct.thy ===== *)
theory Task_Topology_Correct
  imports Task_Topology
begin

text \<open>
  The topological sort against its specification: the invariant of Kahn's loop, kept by every
  consumed edge and every round, and what it says of the result.
\<close>

section \<open>Counting edges\<close>

lemma map_of_AList_update [simp]: "map_of (AList.update k v xs) = (map_of xs)(k \<mapsto> v)"
  by (rule ext) (simp add: update_conv')

lemma dependentsOf_update [simp]:
  "dependentsOf (AList.update k v m) i = (if i = k then v else dependentsOf m i)"
  by (simp add: dependentsOf_def)

lemma dependentsOf_fold:
  "distinct ds \<Longrightarrow>
     dependentsOf (fold (\<lambda>d m. AList.update d (dependentsOf m d @ [t]) m) ds m) i =
       dependentsOf m i @ (if i \<in> set ds then [t] else [])"
  by (induction ds arbitrary: m) auto

lemma countEdges_snoc:
  "countEdges (ts @ [t]) =
     (AList.update (t_id t) (int (length (t_dependencies t))) (fst (countEdges ts)),
      fold (\<lambda>d m. AList.update d (dependentsOf m d @ [t]) m) (t_dependencies t) (snd (countEdges ts)))"
  by (simp add: countEdges_def split_def)

lemma countEdges_indegree:
  "distinct (taskIds ts) \<Longrightarrow> t \<in> set ts \<Longrightarrow>
     map_of (fst (countEdges ts)) (t_id t) = Some (int (length (t_dependencies t)))"
  by (induction ts rule: rev_induct) (auto simp: countEdges_snoc taskIds_def image_iff)

lemma countEdges_dependents:
  "\<forall>t \<in> set ts. distinct (t_dependencies t) \<Longrightarrow>
     dependentsOf (snd (countEdges ts)) i = filter (\<lambda>t. i \<in> set (t_dependencies t)) ts"
proof (induction ts rule: rev_induct)
  case Nil
  show ?case by (simp add: countEdges_def dependentsOf_def)
next
  case (snoc t ts)
  then show ?case by (simp add: countEdges_snoc dependentsOf_fold)
qed

lemma initialKahn_snoc:
  "initialKahn (ts @ [t]) indegree =
     (let st = initialKahn ts indegree in
      if map_of indegree (t_id t) = Some 0
      then st\<lparr>k_depths := AList.update (t_id t) 1 (k_depths st), k_queue := heapPush t (k_queue st)\<rparr>
      else st)"
  by (simp add: initialKahn_def Let_def)

lemma initialKahn_props:
  "k_indegree (initialKahn ts indegree) = indegree \<and>
   heapInv (k_queue (initialKahn ts indegree)) \<and>
   mset (k_queue (initialKahn ts indegree)) = mset (filter (\<lambda>t. map_of indegree (t_id t) = Some 0) ts) \<and>
   (\<forall>i. depthOf (initialKahn ts indegree) i = 1)"
proof (induction ts rule: rev_induct)
  case Nil
  show ?case by (simp add: initialKahn_def depthOf_def heapInv_def)
next
  case (snoc t ts)
  then show ?case
    by (auto simp: initialKahn_snoc Let_def heapPush_correct depthOf_def)
qed

section \<open>The loop invariant\<close>

definition depsOf :: "task list \<Rightarrow> string \<Rightarrow> string set" where
  "depsOf tasks i =
     (case List.find (\<lambda>t. t_id t = i) tasks of None \<Rightarrow> {} | Some t \<Rightarrow> set (t_dependencies t))"

text \<open>\<open>gone i\<close> is the set of the dependencies of \<open>i\<close> that were consumed, \<open>dun\<close> the ids already
  put out.\<close>

definition kahnInv :: "task list \<Rightarrow> string set \<Rightarrow> (string \<Rightarrow> string set) \<Rightarrow> kahn \<Rightarrow> bool" where
  "kahnInv tasks dun gone st \<longleftrightarrow>
     heapInv (k_queue st) \<and> set (k_queue st) \<subseteq> set tasks \<and> distinct (taskIds (k_queue st)) \<and>
     (\<forall>t \<in> set tasks.
        map_of (k_indegree st) (t_id t) = Some (int (card (set (t_dependencies t) - gone (t_id t)))) \<and>
        (t \<in> set (k_queue st) \<longleftrightarrow> t_id t \<notin> dun \<and> set (t_dependencies t) \<subseteq> gone (t_id t)) \<and>
        gone (t_id t) \<subseteq> set (t_dependencies t) \<inter> dun \<and>
        (t_id t \<in> dun \<longrightarrow> set (t_dependencies t) \<subseteq> gone (t_id t)) \<and>
        (\<forall>d \<in> gone (t_id t). depthOf st d < depthOf st (t_id t)) \<and>
        1 \<le> depthOf st (t_id t) \<and> depthOf st (t_id t) \<le> MAX_DEPTH \<and>
        (\<forall>rank. ranks tasks rank \<longrightarrow> depthOf st (t_id t) \<le> rank (t_id t)))"

lemma relaxDependent_cases:
  assumes "map_of (k_indegree st) (t_id s) = Some n"
  shows "depthOf st (t_id x) + 1 > MAX_DEPTH \<and> relaxDependent c x s st = Inl (TaskGraphError c) \<or>
    depthOf st (t_id x) + 1 \<le> MAX_DEPTH \<and>
    (\<exists>st'. relaxDependent c x s st = Inr st' \<and>
       depthOf st' = (depthOf st)(t_id s := max (depthOf st (t_id s)) (depthOf st (t_id x) + 1)) \<and>
       map_of (k_indegree st') = (map_of (k_indegree st))(t_id s \<mapsto> n - 1) \<and>
       k_queue st' = (if n = 1 then heapPush s (k_queue st) else k_queue st))"
  using assms by (auto simp: relaxDependent_def Let_def depthOf_def fun_eq_iff max_def)

lemma heapPush_ids:
  assumes "heapInv q"
  shows "set (heapPush s q) = insert s (set q)"
    and "distinct (taskIds (heapPush s q)) \<longleftrightarrow> t_id s \<notin> set (taskIds q) \<and> distinct (taskIds q)"
proof -
  have m: "mset (heapPush s q) = mset (s # q)" using heapPush_correct [OF assms] by simp
  then show "set (heapPush s q) = insert s (set q)" by (metis list.simps(15) mset_eq_setD)
  have "mset (taskIds (heapPush s q)) = mset (taskIds (s # q))"
    using m unfolding taskIds_def by (metis mset_map)
  then show "distinct (taskIds (heapPush s q)) \<longleftrightarrow> t_id s \<notin> set (taskIds q) \<and> distinct (taskIds q)"
    by (metis distinct.simps(2) list.simps(9) mset_eq_imp_distinct_iff taskIds_def)
qed

lemma relax_step:
  assumes wk: "wellKeyed tasks" and inv: "kahnInv tasks dun gone st"
    and x: "x \<in> set tasks" "t_id x \<in> dun"
    and s: "s \<in> set tasks" "t_id x \<in> set (t_dependencies s)" "t_id x \<notin> gone (t_id s)"
  shows "relaxDependent c x s st = Inl (TaskGraphError c) \<and> \<not> layered MAX_DEPTH tasks \<or>
    (\<exists>st'. relaxDependent c x s st = Inr st' \<and>
       kahnInv tasks dun (gone(t_id s := insert (t_id x) (gone (t_id s)))) st')"
proof -
  let ?gone = "gone(t_id s := insert (t_id x) (gone (t_id s)))"
  let ?n = "card (set (t_dependencies s) - gone (t_id s))"
  have ids: "t = u" if "t \<in> set tasks" "u \<in> set tasks" "t_id t = t_id u" for t u
    using that wk by (auto simp: wellKeyed_def taskIds_def intro: distinct_map_inj_on_eq)
  have n: "map_of (k_indegree st) (t_id s) = Some (int ?n)"
    using inv s(1) by (simp add: kahnInv_def)
  have s_out: "t_id s \<notin> dun" "s \<notin> set (k_queue st)" using inv s by (auto simp: kahnInv_def)
  have s_q: "t_id s \<notin> set (taskIds (k_queue st))"
  proof
    assume "t_id s \<in> set (taskIds (k_queue st))"
    then obtain u where "u \<in> set (k_queue st)" "t_id u = t_id s" by (auto simp: taskIds_def)
    moreover have "set (k_queue st) \<subseteq> set tasks" using inv by (simp add: kahnInv_def)
    ultimately have "u \<in> set (k_queue st)" "u = s" using s(1) ids by blast+
    then show False using s_out by simp
  qed
  have card: "card (set (t_dependencies s) - insert (t_id x) (gone (t_id s))) = ?n - 1"
    using s by (subst Diff_insert) (simp add: card_Diff_singleton)
  have pos: "?n > 0" using s by (auto simp: card_gt_0_iff)
  have empty: "set (t_dependencies s) \<subseteq> insert (t_id x) (gone (t_id s)) \<longleftrightarrow> ?n = 1"
  proof -
    have "set (t_dependencies s) \<subseteq> insert (t_id x) (gone (t_id s)) \<longleftrightarrow>
        card (set (t_dependencies s) - insert (t_id x) (gone (t_id s))) = 0"
      by (simp only: Diff_eq_empty_iff card_eq_0_iff finite_Diff finite_set) simp
    also have "\<dots> \<longleftrightarrow> ?n = 1" using card pos by linarith
    finally show ?thesis .
  qed
  from relaxDependent_cases [OF n, of x c] show ?thesis
  proof (elim disjE conjE exE)
    assume deep: "depthOf st (t_id x) + 1 > MAX_DEPTH"
      and err: "relaxDependent c x s st = Inl (TaskGraphError c)"
    have "\<not> layered MAX_DEPTH tasks"
    proof
      assume "layered MAX_DEPTH tasks"
      then obtain rank where r: "ranks tasks rank" and top: "\<forall>t \<in> set tasks. rank (t_id t) \<le> MAX_DEPTH"
        by (auto simp: layered_def)
      have "depthOf st (t_id x) \<le> rank (t_id x)" using inv x(1) r by (simp add: kahnInv_def)
      moreover have "rank (t_id x) < rank (t_id s)" using r s by (simp add: ranks_def)
      ultimately show False using deep top s(1) by fastforce
    qed
    with err show ?thesis by blast
  next
    fix st'
    assume shallow: "depthOf st (t_id x) + 1 \<le> MAX_DEPTH" and ok: "relaxDependent c x s st = Inr st'"
      and d': "depthOf st' = (depthOf st)(t_id s := max (depthOf st (t_id s)) (depthOf st (t_id x) + 1))"
      and i': "map_of (k_indegree st') = (map_of (k_indegree st))(t_id s \<mapsto> int ?n - 1)"
      and q': "k_queue st' = (if int ?n = 1 then heapPush s (k_queue st) else k_queue st)"
    have heap: "heapInv (k_queue st)" using inv by (simp add: kahnInv_def)
    have q: "heapInv (k_queue st')" "set (k_queue st') \<subseteq> set tasks" "distinct (taskIds (k_queue st'))"
      using inv s(1) s_q heapPush_ids [OF heap] heapPush_correct [OF heap] by (simp_all add: q' kahnInv_def)
    have "map_of (k_indegree st') (t_id t) = Some (int (card (set (t_dependencies t) - ?gone (t_id t)))) \<and>
        (t \<in> set (k_queue st') \<longleftrightarrow> t_id t \<notin> dun \<and> set (t_dependencies t) \<subseteq> ?gone (t_id t)) \<and>
        ?gone (t_id t) \<subseteq> set (t_dependencies t) \<inter> dun \<and>
        (t_id t \<in> dun \<longrightarrow> set (t_dependencies t) \<subseteq> ?gone (t_id t)) \<and>
        (\<forall>d \<in> ?gone (t_id t). depthOf st' d < depthOf st' (t_id t)) \<and>
        1 \<le> depthOf st' (t_id t) \<and> depthOf st' (t_id t) \<le> MAX_DEPTH \<and>
        (\<forall>rank. ranks tasks rank \<longrightarrow> depthOf st' (t_id t) \<le> rank (t_id t))"
      if t: "t \<in> set tasks" for t
    proof (cases "t = s")
      case True
      have "max (depthOf st (t_id s)) (depthOf st (t_id x) + 1) \<le> rank (t_id s)" if r: "ranks tasks rank" for rank
      proof -
        have "depthOf st (t_id x) \<le> rank (t_id x)" using inv x(1) r by (simp add: kahnInv_def)
        moreover have "rank (t_id x) < rank (t_id s)" using r s by (simp add: ranks_def)
        moreover have "depthOf st (t_id s) \<le> rank (t_id s)" using inv s(1) r by (simp add: kahnInv_def)
        ultimately show ?thesis by simp
      qed
      moreover have "depthOf st' d < depthOf st' (t_id s)" if "d \<in> ?gone (t_id s)" for d
        using that inv s s_out x(2) by (auto simp: kahnInv_def d' less_max_iff_disj)
      moreover have "(s \<in> set (k_queue st') \<longleftrightarrow> t_id s \<notin> dun \<and> set (t_dependencies s) \<subseteq> ?gone (t_id s))"
        using s_out empty heapPush_ids(1) [OF heap] by (simp add: q')
      ultimately show ?thesis
        unfolding True using inv s s_out x(2) shallow card pos by (auto simp: kahnInv_def i' d')
    next
      case False
      then have ne: "t_id t \<noteq> t_id s" using ids [OF t s(1)] by blast
      have "depthOf st' d = depthOf st d" if "d \<in> gone (t_id t)" for d
        using that inv t s_out(1) by (auto simp: kahnInv_def d')
      then show ?thesis
        using inv t ne False heapPush_ids(1) [OF heap] by (simp add: kahnInv_def i' d' q')
    qed
    with q ok show ?thesis by (auto simp: kahnInv_def)
  qed
qed

text \<open>The inner loop: every edge out of \<open>x\<close> is consumed, or the graph is too deep.\<close>

lemma relax_all:
  assumes wk: "wellKeyed tasks" and x: "x \<in> set tasks" "t_id x \<in> dun"
    and inv: "kahnInv tasks dun gone st" and ss: "distinct (taskIds ss)"
    and s: "\<And>s. s \<in> set ss \<Longrightarrow> s \<in> set tasks \<and> t_id x \<in> set (t_dependencies s) \<and> t_id x \<notin> gone (t_id s)"
  shows "foldE (relaxDependent c x) ss st = Inl (TaskGraphError c) \<and> \<not> layered MAX_DEPTH tasks \<or>
    (\<exists>st'. foldE (relaxDependent c x) ss st = Inr st' \<and>
       kahnInv tasks dun (\<lambda>i. if i \<in> set (taskIds ss) then insert (t_id x) (gone i) else gone i) st')"
  using inv ss s
proof (induction ss arbitrary: gone st)
  case Nil
  then show ?case by (simp add: taskIds_def)
next
  case (Cons s ss)
  let ?gone = "gone(t_id s := insert (t_id x) (gone (t_id s)))"
  from relax_step [OF wk Cons.prems(1) x] Cons.prems(3) [of s]
  consider "relaxDependent c x s st = Inl (TaskGraphError c)" "\<not> layered MAX_DEPTH tasks"
    | st' where "relaxDependent c x s st = Inr st'" "kahnInv tasks dun ?gone st'"
    by (metis list.set_intros(1))
  then show ?case
  proof cases
    case 1
    then show ?thesis by simp
  next
    case 2
    have "foldE (relaxDependent c x) ss st' = Inl (TaskGraphError c) \<and> \<not> layered MAX_DEPTH tasks \<or>
      (\<exists>st''. foldE (relaxDependent c x) ss st' = Inr st'' \<and>
         kahnInv tasks dun (\<lambda>i. if i \<in> set (taskIds ss) then insert (t_id x) (?gone i) else ?gone i) st'')"
    proof (rule Cons.IH [OF 2(2)])
      show "distinct (taskIds ss)" using Cons.prems(2) by (simp add: taskIds_def)
    next
      fix u assume u: "u \<in> set ss"
      then have "t_id u \<noteq> t_id s" using Cons.prems(2) by (auto simp: taskIds_def image_iff)
      then show "u \<in> set tasks \<and> t_id x \<in> set (t_dependencies u) \<and> t_id x \<notin> ?gone (t_id u)"
        using Cons.prems(3) [of u] u by simp
    qed
    moreover have "(\<lambda>i. if i \<in> set (taskIds ss) then insert (t_id x) (?gone i) else ?gone i) =
      (\<lambda>i. if i \<in> set (taskIds (s # ss)) then insert (t_id x) (gone i) else gone i)"
      by (auto simp: taskIds_def fun_eq_iff)
    ultimately show ?thesis using 2(1) by simp
  qed
qed

section \<open>The rounds\<close>

definition goneAt :: "task list \<Rightarrow> string list \<Rightarrow> string \<Rightarrow> string set" where
  "goneAt tasks ids i = depsOf tasks i \<inter> set ids"

lemma depsOf_task [simp]:
  assumes "wellKeyed tasks" and "t \<in> set tasks"
  shows "depsOf tasks (t_id t) = set (t_dependencies t)"
proof -
  have "List.find (\<lambda>u. t_id u = t_id t) tasks = Some t"
    using assms by (subst find_Some_iff_distinct) (auto simp: wellKeyed_def taskIds_def)
  then show ?thesis by (simp add: depsOf_def)
qed

text \<open>What the loop has established when \<open>ids\<close> are out.\<close>

definition sortedSoFar :: "task list \<Rightarrow> string list \<Rightarrow> bool" where
  "sortedSoFar tasks ids \<longleftrightarrow> distinct ids \<and> set ids \<subseteq> set (taskIds tasks) \<and>
     dependencyOrdered tasks ids \<and> earliestFirst tasks ids"

lemma sortedSoFar_snoc:
  assumes "sortedSoFar tasks ids" and "wellKeyed tasks" and "x \<in> set tasks" and "t_id x \<notin> set ids"
    and "set (t_dependencies x) \<subseteq> set ids"
    and "\<And>u. u \<in> set tasks \<Longrightarrow> t_id u \<notin> set ids \<Longrightarrow> set (t_dependencies u) \<subseteq> set ids \<Longrightarrow> t_order x \<le> t_order u"
  shows "sortedSoFar tasks (ids @ [t_id x])"
proof -
  have same: "t = x" if "t \<in> set tasks" "t_id t = t_id x" for t
    using that assms(2,3) by (auto simp: wellKeyed_def taskIds_def intro: distinct_map_inj_on_eq)
  show ?thesis
    using assms same unfolding sortedSoFar_def dependencyOrdered_def earliestFirst_def
    by (simp add: less_Suc_eq nth_append taskIds_def all_conj_distrib imp_conjL) blast
qed

lemma kahnLoop_round:
  assumes wk: "wellKeyed tasks" and deps: "dependents = snd (countEdges tasks)"
    and inv: "kahnInv tasks (set ids) (goneAt tasks ids) st" and sofar: "sortedSoFar tasks ids"
    and pop: "heapPop (k_queue st) = (Some x, q)"
  shows "sortedSoFar tasks (ids @ [t_id x])"
    and "foldE (relaxDependent c x) (dependentsOf dependents (t_id x)) (st\<lparr>k_queue := q\<rparr>) = Inl (TaskGraphError c) \<and>
        \<not> layered MAX_DEPTH tasks \<or>
      (\<exists>st'. foldE (relaxDependent c x) (dependentsOf dependents (t_id x)) (st\<lparr>k_queue := q\<rparr>) = Inr st' \<and>
         kahnInv tasks (set (ids @ [t_id x])) (goneAt tasks (ids @ [t_id x])) st')"
proof -
  let ?dependents = "filter (\<lambda>t. t_id x \<in> set (t_dependencies t)) tasks"
  have heap: "heapInv (k_queue st)" using inv by (simp add: kahnInv_def)
  have same: "t = u" if "t \<in> set tasks" "u \<in> set tasks" "t_id t = t_id u" for t u
    using that wk by (auto simp: wellKeyed_def taskIds_def intro: distinct_map_inj_on_eq)
  have q: "mset (k_queue st) = add_mset x (mset q)" "heapInv q"
    using heap.items_pop [OF heap pop] heap.invar_pop [OF heap pop] by simp_all
  have qset: "set (k_queue st) = insert x (set q)"
    using q(1) by (metis set_mset_add_mset_insert set_mset_mset)
  have "mset (taskIds (k_queue st)) = mset (taskIds (x # q))"
    using q(1) unfolding taskIds_def by (metis mset.simps(2) mset_map)
  then have qids: "t_id x \<notin> set (taskIds q)" "distinct (taskIds q)"
    using inv unfolding kahnInv_def by (metis distinct.simps(2) list.simps(9) mset_eq_imp_distinct_iff taskIds_def)+
  have avail: "u \<in> set (k_queue st) \<longleftrightarrow> t_id u \<notin> set ids \<and> set (t_dependencies u) \<subseteq> set ids"
    if "u \<in> set tasks" for u
    using inv that wk by (auto simp: kahnInv_def goneAt_def)
  have x: "x \<in> set tasks" using inv qset by (auto simp: kahnInv_def)
  have xq: "t_id x \<notin> set ids" "set (t_dependencies x) \<subseteq> set ids" using avail [OF x] qset by auto
  show "sortedSoFar tasks (ids @ [t_id x])"
  proof (rule sortedSoFar_snoc [OF sofar wk x xq])
    fix u assume "u \<in> set tasks" "t_id u \<notin> set ids" "set (t_dependencies u) \<subseteq> set ids"
    then show "t_order x \<le> t_order u" using heap.pop_least [OF heap pop, of u] avail by simp
  qed
  have inv': "kahnInv tasks (set (ids @ [t_id x])) (goneAt tasks ids) (st\<lparr>k_queue := q\<rparr>)"
    unfolding kahnInv_def
  proof (intro conjI ballI)
    show "heapInv (k_queue (st\<lparr>k_queue := q\<rparr>))" "set (k_queue (st\<lparr>k_queue := q\<rparr>)) \<subseteq> set tasks"
      "distinct (taskIds (k_queue (st\<lparr>k_queue := q\<rparr>)))"
      using inv q qset qids by (auto simp: kahnInv_def)
  next
    fix t assume t: "t \<in> set tasks"
    have d: "depthOf (st\<lparr>k_queue := q\<rparr>) = depthOf st" by (simp add: depthOf_def fun_eq_iff)
    have mem: "t \<in> set q \<longleftrightarrow> t_id t \<notin> set (ids @ [t_id x]) \<and> set (t_dependencies t) \<subseteq> set ids"
      using avail [OF t] qset qids(1) same [OF t x] by (auto simp: taskIds_def)
    note it = inv [unfolded kahnInv_def, THEN conjunct2, THEN conjunct2, THEN conjunct2, rule_format, OF t]
    show "map_of (k_indegree (st\<lparr>k_queue := q\<rparr>)) (t_id t) = Some (int (card (set (t_dependencies t) - goneAt tasks ids (t_id t))))"
      and "1 \<le> depthOf (st\<lparr>k_queue := q\<rparr>) (t_id t)" and "depthOf (st\<lparr>k_queue := q\<rparr>) (t_id t) \<le> MAX_DEPTH"
      and "\<forall>rank. ranks tasks rank \<longrightarrow> depthOf (st\<lparr>k_queue := q\<rparr>) (t_id t) \<le> rank (t_id t)"
      using it d by auto
    show "(t \<in> set (k_queue (st\<lparr>k_queue := q\<rparr>))) =
        (t_id t \<notin> set (ids @ [t_id x]) \<and> set (t_dependencies t) \<subseteq> goneAt tasks ids (t_id t))"
      using mem wk t by (auto simp: goneAt_def)
    show "goneAt tasks ids (t_id t) \<subseteq> set (t_dependencies t) \<inter> set (ids @ [t_id x])"
      using wk t by (auto simp: goneAt_def)
    show "t_id t \<in> set (ids @ [t_id x]) \<longrightarrow> set (t_dependencies t) \<subseteq> goneAt tasks ids (t_id t)"
      using it xq(2) same [OF t x] wk t by (auto simp: goneAt_def)
    show "depthOf (st\<lparr>k_queue := q\<rparr>) d < depthOf (st\<lparr>k_queue := q\<rparr>) (t_id t)"
      if "d \<in> goneAt tasks ids (t_id t)" for d
      using it that d by simp
  qed
  have list: "dependentsOf dependents (t_id x) = ?dependents"
    unfolding deps using wk by (intro countEdges_dependents) (simp add: wellKeyed_def)
  have dist: "distinct (taskIds ?dependents)"
    using wk by (simp add: wellKeyed_def taskIds_def distinct_map_filter)
  have "(\<lambda>i. if i \<in> set (taskIds ?dependents) then insert (t_id x) (goneAt tasks ids i) else goneAt tasks ids i) =
      goneAt tasks (ids @ [t_id x])"
  proof
    fix i
    show "(if i \<in> set (taskIds ?dependents) then insert (t_id x) (goneAt tasks ids i) else goneAt tasks ids i) =
      goneAt tasks (ids @ [t_id x]) i"
    proof (cases "i \<in> set (taskIds tasks)")
      case True
      then obtain t where "t \<in> set tasks" "i = t_id t" by (auto simp: taskIds_def)
      then show ?thesis using wk same by (auto simp: goneAt_def taskIds_def)
    next
      case False
      then have "List.find (\<lambda>t. t_id t = i) tasks = None" by (simp add: taskIds_def find_None_iff_key)
      then have "depsOf tasks i = {}" by (simp add: depsOf_def)
      then show ?thesis using False by (auto simp: goneAt_def taskIds_def)
    qed
  qed
  then show "foldE (relaxDependent c x) (dependentsOf dependents (t_id x)) (st\<lparr>k_queue := q\<rparr>) = Inl (TaskGraphError c) \<and>
        \<not> layered MAX_DEPTH tasks \<or>
      (\<exists>st'. foldE (relaxDependent c x) (dependentsOf dependents (t_id x)) (st\<lparr>k_queue := q\<rparr>) = Inr st' \<and>
         kahnInv tasks (set (ids @ [t_id x])) (goneAt tasks (ids @ [t_id x])) st')"
    using relax_all [OF wk x _ inv' dist, of c] xq(1) unfolding list by (simp add: goneAt_def)
qed

lemma kahnLoop_correct:
  assumes wk: "wellKeyed tasks" and deps: "dependents = snd (countEdges tasks)"
    and "kahnInv tasks (set ids) (goneAt tasks ids) st" and "sortedSoFar tasks ids"
  shows "kahnLoop c dependents st ids = Inl (TaskGraphError c) \<and> \<not> layered MAX_DEPTH tasks \<or>
    (\<exists>ids' st'. kahnLoop c dependents st ids = Inr ids' \<and> sortedSoFar tasks ids' \<and>
       kahnInv tasks (set ids') (goneAt tasks ids') st' \<and> k_queue st' = [])"
  using assms
proof (induction c dependents st ids rule: kahnLoop.induct)
  case (1 c dependents st ids)
  show ?case
  proof (cases "heapPop (k_queue st)")
    case (Pair r q)
    show ?thesis
    proof (cases r)
      case None
      then have "k_queue st = []" using Pair heapPop_None [of "k_queue st"] by simp
      moreover have "kahnLoop c dependents st ids = Inr ids"
        using None Pair by (simp add: kahnLoop.simps [of c dependents st ids])
      ultimately show ?thesis using "1.prems" by blast
    next
      case (Some x)
      have pop: "heapPop (k_queue st) = (Some x, q)" using Pair Some by simp
      note round = kahnLoop_round(1) [OF "1.prems" pop] kahnLoop_round(2) [OF "1.prems" pop, of c]
      have eq: "kahnLoop c dependents st ids =
          bindE (foldE (relaxDependent c x) (dependentsOf dependents (t_id x)) (st\<lparr>k_queue := q\<rparr>))
            (\<lambda>st. kahnLoop c dependents st (ids @ [t_id x]))"
        by (simp add: kahnLoop.simps [of c dependents st ids] pop)
      from round(2) show ?thesis
      proof (elim disjE conjE exE)
        fix st'
        assume "foldE (relaxDependent c x) (dependentsOf dependents (t_id x)) (st\<lparr>k_queue := q\<rparr>) = Inr st'"
          and "kahnInv tasks (set (ids @ [t_id x])) (goneAt tasks (ids @ [t_id x])) st'"
        then show ?thesis
          using "1.IH" [OF Pair [symmetric] Some _ "1.prems"(1,2) _ round(1)] by (simp add: eq)
      qed (simp add: eq)
    qed
  qed
qed

section \<open>The result\<close>

lemma ranks_depth:
  assumes "wellKeyed tasks" and "kahnInv tasks (set ids) (goneAt tasks ids) st" and "set (taskIds tasks) \<subseteq> set ids"
  shows "ranks tasks (depthOf st)"
  unfolding ranks_def
proof (intro ballI conjI)
  fix t assume t: "t \<in> set tasks"
  then show "0 < depthOf st (t_id t)" using assms(2) by (auto simp: kahnInv_def)
  fix d assume d: "d \<in> set (t_dependencies t)"
  then have "d \<in> goneAt tasks ids (t_id t)"
    using t assms(1,3) by (auto simp: goneAt_def wellKeyed_def)
  then show "depthOf st d < depthOf st (t_id t)" using t assms(2) by (simp add: kahnInv_def)
qed

lemma stuck_cyclic:
  assumes wk: "wellKeyed tasks" and inv: "kahnInv tasks (set ids) (goneAt tasks ids) st" and q: "k_queue st = []"
    and t: "t \<in> set tasks" "t_id t \<notin> set ids"
  shows "\<not> acyclicTasks tasks"
proof
  assume "acyclicTasks tasks"
  then obtain rank where r: "ranks tasks rank" by (auto simp: acyclicTasks_def)
  have "\<not> (t \<in> set tasks \<and> t_id t \<notin> set ids)" for t
  proof (induction "rank (t_id t)" arbitrary: t rule: less_induct)
    case less
    show ?case
    proof
      assume t: "t \<in> set tasks \<and> t_id t \<notin> set ids"
      then obtain d where d: "d \<in> set (t_dependencies t)" "d \<notin> goneAt tasks ids (t_id t)"
        using inv q unfolding kahnInv_def by fastforce
      then have "d \<notin> set ids" using t wk by (auto simp: goneAt_def)
      moreover obtain u where "u \<in> set tasks" "t_id u = d"
        using d(1) t wk by (auto simp: wellKeyed_def taskIds_def)
      moreover have "rank d < rank (t_id t)" using r t d(1) by (simp add: ranks_def)
      ultimately show False using less by blast
    qed
  qed
  with t show False by blast
qed

lemma topologicalTaskIds_cases:
  assumes wk: "wellKeyed tasks"
  shows "topologicalTaskIds tasks cc lc = Inl (TaskGraphError lc) \<and> \<not> layered MAX_DEPTH tasks \<or>
    topologicalTaskIds tasks cc lc = Inl (TaskGraphError cc) \<and> \<not> acyclicTasks tasks \<or>
    (\<exists>ids. topologicalTaskIds tasks cc lc = Inr ids \<and> layered MAX_DEPTH tasks \<and>
       mset ids = mset (taskIds tasks) \<and> dependencyOrdered tasks ids \<and> earliestFirst tasks ids)"
proof -
  define dependents where "dependents = snd (countEdges tasks)"
  define st where "st = initialKahn tasks (fst (countEdges tasks))"
  have dist: "distinct (taskIds tasks)" using wk by (simp add: wellKeyed_def)
  have gone: "goneAt tasks [] = (\<lambda>_. {})" by (simp add: goneAt_def fun_eq_iff)
  have ind: "map_of (fst (countEdges tasks)) (t_id t) = Some (int (card (set (t_dependencies t))))"
    if "t \<in> set tasks" for t
    using countEdges_indegree [OF dist that] wk that by (simp add: wellKeyed_def distinct_card)
  have queue: "set (k_queue st) = {t \<in> set tasks. set (t_dependencies t) = {}}"
  proof -
    have "set (k_queue st) = {t \<in> set tasks. map_of (fst (countEdges tasks)) (t_id t) = Some 0}"
      using initialKahn_props [of tasks "fst (countEdges tasks)"] unfolding st_def
      by (metis mset_eq_setD set_filter)
    then show ?thesis using ind by auto
  qed
  have qids: "distinct (taskIds (k_queue st))"
  proof -
    have "mset (taskIds (k_queue st)) =
        mset (taskIds (filter (\<lambda>t. map_of (fst (countEdges tasks)) (t_id t) = Some 0) tasks))"
      using initialKahn_props [of tasks "fst (countEdges tasks)"] unfolding st_def taskIds_def by (metis mset_map)
    then show ?thesis
      using dist by (metis distinct_map_filter mset_eq_imp_distinct_iff taskIds_def)
  qed
  have "kahnInv tasks (set []) (goneAt tasks []) st"
    unfolding kahnInv_def gone
    using initialKahn_props [of tasks "fst (countEdges tasks)"] ind queue qids
    by (auto simp: st_def [symmetric] MAX_DEPTH_def ranks_def Suc_le_eq)
  moreover have "sortedSoFar tasks []"
    by (simp add: sortedSoFar_def dependencyOrdered_def earliestFirst_def)
  ultimately consider "kahnLoop lc dependents st [] = Inl (TaskGraphError lc)" "\<not> layered MAX_DEPTH tasks"
    | ids st' where "kahnLoop lc dependents st [] = Inr ids" "sortedSoFar tasks ids"
        "kahnInv tasks (set ids) (goneAt tasks ids) st'" "k_queue st' = []"
    using kahnLoop_correct [OF wk dependents_def, of "[]" st lc] by blast
  then show ?thesis
  proof cases
    case 1
    then show ?thesis by (simp add: topologicalTaskIds_def split_def flip: dependents_def st_def)
  next
    case 2
    have sub: "distinct ids" "set ids \<subseteq> set (taskIds tasks)" using 2(2) by (simp_all add: sortedSoFar_def)
    show ?thesis
    proof (cases "length ids = length tasks")
      case True
      then have "set ids = set (taskIds tasks)"
        using sub dist by (metis card_subset_eq distinct_card finite_set length_map taskIds_def)
      moreover from this have "mset ids = mset (taskIds tasks)"
        using sub dist set_eq_iff_mset_eq_distinct by blast
      moreover have "layered MAX_DEPTH tasks"
        using ranks_depth [OF wk 2(3)] calculation(1) 2(3) by (auto simp: layered_def kahnInv_def)
      ultimately show ?thesis
        using 2 True by (simp add: topologicalTaskIds_def split_def sortedSoFar_def flip: dependents_def st_def)
    next
      case False
      then have "set ids \<noteq> set (taskIds tasks)"
        using sub dist by (metis distinct_card length_map taskIds_def)
      then obtain t where "t \<in> set tasks" "t_id t \<notin> set ids" using sub(2) by (auto simp: taskIds_def)
      then have "\<not> acyclicTasks tasks" using stuck_cyclic [OF wk 2(3,4)] by blast
      then show ?thesis
        using 2 False by (simp add: topologicalTaskIds_def split_def flip: dependents_def st_def)
    qed
  qed
qed

lemma layered_acyclic: "layered n tasks \<Longrightarrow> acyclicTasks tasks"
  by (auto simp: layered_def acyclicTasks_def)

lemma topologicalTaskIds_ok_iff:
  "wellKeyed tasks \<Longrightarrow> isOk (topologicalTaskIds tasks cc lc) \<longleftrightarrow> layered MAX_DEPTH tasks"
  using topologicalTaskIds_cases [of tasks cc lc] layered_acyclic [of MAX_DEPTH tasks] by auto

lemma topologicalTaskIds_Inr:
  assumes "wellKeyed tasks" and "topologicalTaskIds tasks cc lc = Inr ids"
  shows "mset ids = mset (taskIds tasks)" and "dependencyOrdered tasks ids" and "earliestFirst tasks ids"
    and "layered MAX_DEPTH tasks" and "distinct ids" and "set ids = set (taskIds tasks)"
proof -
  show "mset ids = mset (taskIds tasks)" "dependencyOrdered tasks ids" "earliestFirst tasks ids"
    "layered MAX_DEPTH tasks"
    using topologicalTaskIds_cases [OF assms(1), of cc lc] assms(2) by auto
  then show "distinct ids" "set ids = set (taskIds tasks)"
    using assms(1) by (metis mset_eq_imp_distinct_iff wellKeyed_def, metis mset_eq_setD)
qed

lemma layered_topologicalTaskIds:
  assumes "wellKeyed tasks" and "layered MAX_DEPTH tasks"
  obtains ids where "topologicalTaskIds tasks cc lc = Inr ids"
  using topologicalTaskIds_cases [OF assms(1), of cc lc] assms(2) layered_acyclic by blast

lemma topologicalTaskIds_code:
  assumes "topologicalTaskIds tasks cc lc = Inl e" and "wellKeyed tasks"
  shows "e = TaskGraphError cc \<or> e = TaskGraphError lc"
  using topologicalTaskIds_cases [OF assms(2), of cc lc] assms(1) by auto

text \<open>The sort reads only the ids, dependencies and orders.\<close>

lemma layered_cong:
  assumes "list_all2 (\<lambda>a b. t_id a = t_id b \<and> set (t_dependencies a) = set (t_dependencies b)) xs ys"
  shows "layered n xs = layered n ys" and "wellKeyed xs \<Longrightarrow> list_all (\<lambda>t. distinct (t_dependencies t)) ys \<Longrightarrow> wellKeyed ys"
proof -
  have ids: "taskIds xs = taskIds ys"
    using assms by (induction rule: list_all2_induct) (auto simp: taskIds_def)
  have "ranks xs rank = ranks ys rank" for rank
    using assms by (induction rule: list_all2_induct) (auto simp: ranks_def)
  moreover have "(\<forall>t \<in> set xs. rank (t_id t) \<le> n) = (\<forall>t \<in> set ys. rank (t_id t) \<le> n)" for rank
    using assms by (induction rule: list_all2_induct) auto
  ultimately show "layered n xs = layered n ys" by (simp add: layered_def)
  have sub: "(\<forall>t \<in> set xs. set (t_dependencies t) \<subseteq> S) = (\<forall>t \<in> set ys. set (t_dependencies t) \<subseteq> S)" for S
    using assms by (induction rule: list_all2_induct) auto
  show "wellKeyed xs \<Longrightarrow> list_all (\<lambda>t. distinct (t_dependencies t)) ys \<Longrightarrow> wellKeyed ys"
    using ids sub [of "set (taskIds xs)"] by (auto simp: wellKeyed_def list_all_iff)
qed

section \<open>The edge limit\<close>

definition edgeCount :: "task list \<Rightarrow> nat" where
  "edgeCount tasks = (\<Sum>t \<leftarrow> tasks. length (t_dependencies t))"

lemma assertGraphEdgeLimit_iff:
  "assertGraphEdgeLimit tasks c =
     (if edgeCount tasks \<le> MAX_EDGES then Inr () else Inl (TaskGraphError c))"
proof -
  have "foldE (\<lambda>task edgeCount.
      let edgeCount = edgeCount + length (t_dependencies task) in
      if edgeCount > MAX_EDGES then Inl (TaskGraphError c) else Inr edgeCount) ts n =
    (if ts = [] \<or> n + edgeCount ts \<le> MAX_EDGES then Inr (n + edgeCount ts) else Inl (TaskGraphError c))" for ts n
    by (induction ts arbitrary: n) (auto simp: Let_def edgeCount_def)
  then show ?thesis by (auto simp: assertGraphEdgeLimit_def edgeCount_def)
qed

end
