(* ===== verification/Task_Graph.thy ===== *)
theory Task_Graph
  imports Task_Topology_Correct "HOL-Library.Product_Lexorder"
begin

text \<open>
  The class \<open>TaskGraph\<close> of \<open>task-graph.ts\<close>: its private fields are the record \<open>graph\<close>, its methods
  are functions in the method monad, in the order of the code: the guards of a command, the
  reading of the clock, the mutation of the tasks, and the commit that numbers the events.
  Arguments have type \<open>jsval\<close> and are parsed as the code parses them. The clock the graph was
  given is code of the caller: a command takes the reading it obtains as an argument. An optional
  parameter that is missing is \<open>JUndef\<close>.
\<close>

record graph =
  g_graphId :: string
  g_projectId :: string
  g_tasks :: "task list"
  g_version :: int
  g_eventSequence :: int
  g_sealed :: bool
  g_createdAt :: string
  g_updatedAt :: string
  g_events :: "tg_event list"
  g_nextOrder :: int
  g_clockActive :: bool

type_synonym 'a graph_action = "(graph, tg_error, 'a) action"

section \<open>Options\<close>

definition optionsOrEmpty :: "jsval \<Rightarrow> jsval" where
  "optionsOrEmpty v = (if v = JUndef then plainObj [] else v)"

definition parseExpectedVersion :: "jsrecord \<Rightarrow> tg_error + int option" where
  "parseExpectedVersion record =
     (if fld record ''expectedVersion'' = JUndef then Inr None
      else bindE (assertInteger (fld record ''expectedVersion'') 0 MAX_SEQUENCE INVALID_ARGUMENT) (\<lambda>v. Inr (Some v)))"

definition parseVersionedOptions :: "jsval \<Rightarrow> tg_error + int option" where
  "parseVersionedOptions value =
     bindE (copyPlainDataRecord value INVALID_ARGUMENT) (\<lambda>record.
     bindE (assertExactKeys record [''expectedVersion''] INVALID_ARGUMENT) (\<lambda>_.
     parseExpectedVersion record))"

definition parseMutationOptions :: "jsval \<Rightarrow> tg_error + (int option \<times> string option)" where
  "parseMutationOptions value =
     bindE (copyPlainDataRecord value INVALID_ARGUMENT) (\<lambda>record.
     bindE (assertExactKeys record [''expectedVersion'', ''reason''] INVALID_ARGUMENT) (\<lambda>_.
     bindE (parseExpectedVersion record) (\<lambda>expectedVersion.
     bindE (normalizeOptionalText (fld record ''reason'') 1000 INVALID_ARGUMENT) (\<lambda>reason.
     Inr (expectedVersion, reason)))))"

definition parseSucceedTaskOptions :: "jsval \<Rightarrow> tg_error + (int option \<times> string option \<times> jsval)" where
  "parseSucceedTaskOptions value =
     bindE (copyPlainDataRecord value INVALID_ARGUMENT) (\<lambda>record.
     bindE (assertExactKeys record [''expectedVersion'', ''reason'', ''outputArtifactIds''] INVALID_ARGUMENT) (\<lambda>_.
     bindE (parseExpectedVersion record) (\<lambda>expectedVersion.
     bindE (normalizeOptionalText (fld record ''reason'') 1000 INVALID_ARGUMENT) (\<lambda>reason.
     Inr (expectedVersion, reason,
          if fld record ''outputArtifactIds'' = JUndef then plainArr [] else fld record ''outputArtifactIds'')))))"

definition parseReadyTaskQuery :: "jsval \<Rightarrow> tg_error + nat" where
  "parseReadyTaskQuery value =
     bindE (copyPlainDataRecord value INVALID_ARGUMENT) (\<lambda>record.
     bindE (assertExactKeys record [''limit''] INVALID_ARGUMENT) (\<lambda>_.
     if fld record ''limit'' = JUndef then Inr MAX_TASKS
     else bindE (assertInteger (fld record ''limit'') 0 (int MAX_TASKS) INVALID_ARGUMENT) (\<lambda>n. Inr (nat n))))"

text \<open>\<open>resolveClock\<close> checks the option; the clock itself is represented by its readings.\<close>

definition resolveClock :: "jsval \<Rightarrow> tg_error + unit" where
  "resolveClock options =
     bindE (copyPlainDataRecord options INVALID_ARGUMENT) (\<lambda>record.
     bindE (assertExactKeys record [''clock''] INVALID_ARGUMENT) (\<lambda>_.
     case fld record ''clock'' of
       JUndef \<Rightarrow> Inr () | JFun _ \<Rightarrow> Inr () | _ \<Rightarrow> Inl (TaskGraphError INVALID_ARGUMENT)))"

definition parseTaskDefinition :: "jsval \<Rightarrow> int \<Rightarrow> string \<Rightarrow> tg_error + task" where
  "parseTaskDefinition value order timestamp =
     bindE (copyPlainDataRecord value INVALID_ARGUMENT) (\<lambda>record.
     bindE (assertExactKeys record
       [''id'', ''kind'', ''title'', ''description'', ''dependencies'', ''priority'', ''metadata''] INVALID_ARGUMENT) (\<lambda>_.
     bindE (assertIdentifier (fld record ''id'') INVALID_ARGUMENT) (\<lambda>i.
     bindE (parseUniqueIdentifiers
       (if fld record ''dependencies'' = JUndef then plainArr [] else fld record ''dependencies'')
       INVALID_ARGUMENT MAX_DEPENDENCIES_PER_TASK) (\<lambda>dependencies.
     bindE (requireE (i \<notin> set dependencies) (TaskGraphError CYCLIC_DEPENDENCY)) (\<lambda>_.
     bindE (assertKind (fld record ''kind'') INVALID_ARGUMENT) (\<lambda>kind.
     bindE (normalizeRequiredText (fld record ''title'') 300 INVALID_ARGUMENT) (\<lambda>title.
     bindE (normalizeOptionalText (fld record ''description'') 10000 INVALID_ARGUMENT) (\<lambda>description.
     bindE (if fld record ''priority'' = JUndef then Inr 0
            else assertInteger (fld record ''priority'') MIN_PRIORITY MAX_PRIORITY INVALID_ARGUMENT) (\<lambda>priority.
     bindE (cloneAndFreezeJsonObject
       (if fld record ''metadata'' = JUndef then plainObj [] else fld record ''metadata'') INVALID_ARGUMENT) (\<lambda>metadata.
     Inr \<lparr>t_id = i, t_kind = kind, t_title = title, t_description = description,
          t_dependencies = dependencies, t_priority = priority, t_metadata = metadata,
          t_status = Pending, t_blockedBy = [], t_outputArtifactIds = [], t_failure = None,
          t_order = order, t_createdAt = timestamp, t_updatedAt = timestamp\<rparr>))))))))))"

section \<open>Construction\<close>

definition create :: "jsval \<Rightarrow> jsval \<Rightarrow> clock_reading \<Rightarrow> tg_error + graph" where
  "create input options clock =
     bindE (copyPlainDataRecord input INVALID_ARGUMENT) (\<lambda>record.
     bindE (assertExactKeys record [''graphId'', ''projectId''] INVALID_ARGUMENT) (\<lambda>_.
     bindE (resolveClock (optionsOrEmpty options)) (\<lambda>_.
     bindE (readClock clock) (\<lambda>timestamp.
     bindE (assertIdentifier (fld record ''graphId'') INVALID_ARGUMENT) (\<lambda>graphId.
     bindE (assertIdentifier (fld record ''projectId'') INVALID_ARGUMENT) (\<lambda>projectId.
     Inr \<lparr>g_graphId = graphId, g_projectId = projectId, g_tasks = [], g_version = 0,
          g_eventSequence = 0, g_sealed = False, g_createdAt = timestamp, g_updatedAt = timestamp,
          g_events = [], g_nextOrder = 0, g_clockActive = False\<rparr>))))))"

section \<open>Reading\<close>

definition orderedTasks :: "graph \<Rightarrow> task list" where
  "orderedTasks g = sort_key t_order (g_tasks g)"

definition calculateGraphStatus :: "graph \<Rightarrow> graph_status" where
  "calculateGraphStatus g =
     (if \<not> g_sealed g then Planning
      else if list_all (\<lambda>t. t_status t = Succeeded) (g_tasks g) then GSucceeded
      else if list_ex (\<lambda>t. \<not> terminal (t_status t)) (g_tasks g) then Active
      else if list_ex (\<lambda>t. t_status t = Failed) (g_tasks g) then GFailed
      else GCancelled)"

text \<open>\<open>taskAt i\<close> is \<open>this.#tasks.get(i)!\<close>: the use of a missing task is a \<open>TypeError\<close>.\<close>

definition findTask :: "task list \<Rightarrow> string \<Rightarrow> task option" where
  "findTask tasks i = List.find (\<lambda>t. t_id t = i) tasks"

definition taskAt :: "string \<Rightarrow> task list \<Rightarrow> tg_error + task" where
  "taskAt i tasks = (case findTask tasks i of None \<Rightarrow> Inl ForeignError | Some t \<Rightarrow> Inr t)"

definition requireTask :: "jsval \<Rightarrow> graph \<Rightarrow> tg_error + task" where
  "requireTask taskId g =
     bindE (assertIdentifier taskId INVALID_ARGUMENT) (\<lambda>i.
     case findTask (g_tasks g) i of
       None \<Rightarrow> Inl (TaskGraphError UNKNOWN_TASK) | Some t \<Rightarrow> Inr t)"

definition hasTask :: "jsval \<Rightarrow> graph \<Rightarrow> tg_error + bool" where
  "hasTask taskId g =
     bindE (assertIdentifier taskId INVALID_ARGUMENT) (\<lambda>i. Inr (findTask (g_tasks g) i \<noteq> None))"

definition getTask :: "jsval \<Rightarrow> graph \<Rightarrow> tg_error + task" where
  "getTask taskId g = bindE (requireTask taskId g) cloneAndFreezeTask"

definition listTasks :: "graph \<Rightarrow> tg_error + task list" where
  "listTasks g = mapE cloneAndFreezeTask (orderedTasks g)"

definition getReadyTasks :: "jsval \<Rightarrow> graph \<Rightarrow> tg_error + task list" where
  "getReadyTasks query g =
     bindE (parseReadyTaskQuery (optionsOrEmpty query)) (\<lambda>limit.
     mapE cloneAndFreezeTask
       (take limit (sort_key (\<lambda>t. (- t_priority t, t_order t))
         (filter (\<lambda>t. t_status t = Ready) (orderedTasks g)))))"

definition getTopologicalTasks :: "graph \<Rightarrow> tg_error + task list" where
  "getTopologicalTasks g =
     bindE (topologicalTaskIds (g_tasks g) CYCLIC_DEPENDENCY GRAPH_LIMIT_EXCEEDED) (\<lambda>ids.
     mapE (\<lambda>i. bindE (taskAt i (g_tasks g)) cloneAndFreezeTask) ids)"

definition peekEvents :: "graph \<Rightarrow> tg_event list" where
  "peekEvents g = g_events g"

section \<open>Guards\<close>

definition assertNotReentrantMutation :: "unit graph_action" where
  "assertNotReentrantMutation =
     checkS (\<lambda>g. requireE (\<not> g_clockActive g) (TaskGraphError REENTRANT_MUTATION))"

definition assertPlanning :: "unit graph_action" where
  "assertPlanning = checkS (\<lambda>g. requireE (\<not> g_sealed g) (TaskGraphError GRAPH_SEALED))"

definition assertExecution :: "unit graph_action" where
  "assertExecution = checkS (\<lambda>g. requireE (g_sealed g) (TaskGraphError GRAPH_NOT_SEALED))"

definition maximumEventsForCommand :: int where
  "maximumEventsForCommand = int MAX_TASKS + 3"

definition assertExpectedVersion :: "int option \<Rightarrow> unit graph_action" where
  "assertExpectedVersion expectedVersion =
     checkS (\<lambda>g.
       if g_version g \<ge> MAX_SEQUENCE \<or> g_eventSequence g > MAX_SEQUENCE - maximumEventsForCommand
       then Inl (TaskGraphError INVALID_ARGUMENT)
       else (case expectedVersion of
           None \<Rightarrow> Inr ()
         | Some v \<Rightarrow>
             bindE (assertInteger (jsInt v) 0 MAX_SEQUENCE INVALID_ARGUMENT) (\<lambda>_.
             requireE (v = g_version g) (TaskGraphError CONCURRENCY_CONFLICT))))"

definition assertTransition :: "task \<Rightarrow> task_status list \<Rightarrow> tg_error + unit" where
  "assertTransition task allowedFrom =
     requireE (t_status task \<in> set allowedFrom) (TaskGraphError INVALID_TRANSITION)"

definition readTimestamp :: "clock_reading \<Rightarrow> string graph_action" where
  "readTimestamp clock =
     bindS assertNotReentrantMutation (\<lambda>_.
     bindS (modifyS (g_clockActive_update (\<lambda>_. True))) (\<lambda>_.
     finallyS
       (bindS (liftS (readClock clock)) (\<lambda>timestamp.
        bindS (checkS (\<lambda>g. requireE (\<not> strLess timestamp (g_updatedAt g)) (TaskGraphError INVALID_ARGUMENT))) (\<lambda>_.
        returnS timestamp)))
       (g_clockActive_update (\<lambda>_. False))))"

section \<open>Mutation\<close>

text \<open>A task is an object shared by the map and the local variables of a method; assigning its
  fields is \<open>putTask\<close>. An object that is in the map is read back with \<open>heldTask\<close>.\<close>

definition putTask :: "task \<Rightarrow> unit graph_action" where
  "putTask task = modifyS (\<lambda>g. g\<lparr>g_tasks := replaceBy t_id task (g_tasks g)\<rparr>)"

definition heldTask :: "string \<Rightarrow> task graph_action" where
  "heldTask i = checkS (\<lambda>g. taskAt i (g_tasks g))"

definition copyHeldTask :: "string \<Rightarrow> task graph_action" where
  "copyHeldTask i = checkS (\<lambda>g. bindE (taskAt i (g_tasks g)) cloneAndFreezeTask)"

definition setTaskStatus ::
    "string \<Rightarrow> task_status \<Rightarrow> string \<Rightarrow> string option \<Rightarrow> pending_event list \<Rightarrow> pending_event list graph_action" where
  "setTaskStatus i target timestamp reason pendingEvents =
     bindS (heldTask i) (\<lambda>task.
     bindS (putTask (task\<lparr>t_status := target, t_updatedAt := timestamp\<rparr>)) (\<lambda>_.
     bindS (copyHeldTask i) (\<lambda>copy.
     returnS (pendingEvents @ [TaskStatusChanged i (t_status task) target reason copy]))))"

fun joinText :: "string \<Rightarrow> string list \<Rightarrow> string" where
  "joinText separator [] = []"
| "joinText separator [s] = s"
| "joinText separator (s # ss) = s @ separator @ joinText separator ss"

definition blockedReason :: "string list \<Rightarrow> string" where
  "blockedReason blockedBy = ''Blocked by unsuccessful dependencies: '' @ joinText '', '' blockedBy"

definition reconcileTask :: "string \<Rightarrow> string \<Rightarrow> pending_event list \<Rightarrow> pending_event list graph_action" where
  "reconcileTask timestamp taskId pendingEvents =
     bindS (heldTask taskId) (\<lambda>task.
     if t_status task \<noteq> Pending then returnS pendingEvents
     else
       bindS (checkS (\<lambda>g. mapE (\<lambda>i. taskAt i (g_tasks g)) (t_dependencies task))) (\<lambda>dependencies.
       let blockedBy = map t_id (filter (\<lambda>d. unsuccessful (t_status d)) dependencies) in
       if blockedBy \<noteq> [] then
         bindS (putTask (task\<lparr>t_blockedBy := blockedBy\<rparr>)) (\<lambda>_.
         setTaskStatus taskId Blocked timestamp (Some (blockedReason blockedBy)) pendingEvents)
       else if list_all (\<lambda>d. t_status d = Succeeded) dependencies then
         bindS (putTask (task\<lparr>t_blockedBy := []\<rparr>)) (\<lambda>_.
         setTaskStatus taskId Ready timestamp None pendingEvents)
       else returnS pendingEvents))"

definition reconcilePendingTasks :: "string \<Rightarrow> pending_event list \<Rightarrow> pending_event list graph_action" where
  "reconcilePendingTasks timestamp pendingEvents =
     bindS (checkS (\<lambda>g. topologicalTaskIds (g_tasks g) CYCLIC_DEPENDENCY GRAPH_LIMIT_EXCEEDED)) (\<lambda>topologicalIds.
     forS (reconcileTask timestamp) topologicalIds pendingEvents)"

text \<open>The event that the commit makes of a pending one.\<close>

definition eventOf :: "graph \<Rightarrow> string \<Rightarrow> nat \<Rightarrow> nat \<Rightarrow> pending_event \<Rightarrow> tg_event" where
  "eventOf g timestamp eventCount eventIndex body =
     \<lparr>e_graphId = g_graphId g, e_projectId = g_projectId g, e_sequence = g_eventSequence g,
      e_aggregateVersion = g_version g, e_eventIndex = eventIndex, e_eventCount = eventCount,
      e_occurredAt = timestamp, e_body = body\<rparr>"

fun pushEvents :: "string \<Rightarrow> nat \<Rightarrow> nat \<Rightarrow> pending_event list \<Rightarrow> graph \<Rightarrow> graph" where
  "pushEvents timestamp eventCount eventIndex [] g = g"
| "pushEvents timestamp eventCount eventIndex (p # ps) g =
     (let g = g\<lparr>g_eventSequence := g_eventSequence g + 1\<rparr>;
          g = g\<lparr>g_events := g_events g @ [eventOf g timestamp eventCount eventIndex p]\<rparr>
      in pushEvents timestamp eventCount (eventIndex + 1) ps g)"

definition commit :: "string \<Rightarrow> graph_status \<Rightarrow> pending_event list \<Rightarrow> unit graph_action" where
  "commit timestamp previousStatus pendingEvents =
     modifyS (\<lambda>g.
       let g = g\<lparr>g_version := g_version g + 1, g_updatedAt := timestamp\<rparr>;
           nextStatus = calculateGraphStatus g;
           pendingEvents = (if previousStatus \<noteq> nextStatus
             then pendingEvents @ [GraphStatusChanged previousStatus nextStatus] else pendingEvents)
       in pushEvents timestamp (length pendingEvents) 0 pendingEvents g)"

section \<open>Planning commands\<close>

text \<open>The loops of \<open>addTasks\<close>: definitions are parsed in order and must bring new ids; then
  every dependency must be known.\<close>

fun parseDefinitions :: "jsval list \<Rightarrow> int \<Rightarrow> string \<Rightarrow> string set \<Rightarrow> tg_error + task list" where
  "parseDefinitions [] order timestamp candidateIds = Inr []"
| "parseDefinitions (v # vs) order timestamp candidateIds =
     bindE (parseTaskDefinition v order timestamp) (\<lambda>task.
     if t_id task \<in> candidateIds then Inl (TaskGraphError DUPLICATE_TASK)
     else bindE (parseDefinitions vs (order + 1) timestamp (insert (t_id task) candidateIds)) (\<lambda>tasks.
          Inr (task # tasks)))"

text \<open>The mutation at the end of \<open>addTasks\<close>.\<close>

definition insertTasks :: "task list \<Rightarrow> string \<Rightarrow> task list graph_action" where
  "insertTasks parsed timestamp =
     bindS (readS calculateGraphStatus) (\<lambda>previousStatus.
     bindS (forS (\<lambda>task pendingEvents.
         bindS (modifyS (\<lambda>g. g\<lparr>g_tasks := g_tasks g @ [task]\<rparr>)) (\<lambda>_.
         bindS (liftS (cloneAndFreezeTask task)) (\<lambda>copy.
         returnS (pendingEvents @ [TaskAdded copy])))) parsed []) (\<lambda>pendingEvents.
     bindS (modifyS (\<lambda>g. g\<lparr>g_nextOrder := g_nextOrder g + int (length parsed)\<rparr>)) (\<lambda>_.
     bindS (commit timestamp previousStatus pendingEvents) (\<lambda>_.
     liftS (mapE cloneAndFreezeTask parsed)))))"

definition addTasks :: "jsval \<Rightarrow> jsval \<Rightarrow> clock_reading \<Rightarrow> task list graph_action" where
  "addTasks definitions options clock =
     bindS assertNotReentrantMutation (\<lambda>_.
     bindS assertPlanning (\<lambda>_.
     bindS (liftS (parseVersionedOptions (optionsOrEmpty options))) (\<lambda>expectedVersion.
     bindS (assertExpectedVersion expectedVersion) (\<lambda>_.
     bindS (liftS (copyDenseDataArray definitions MAX_TASKS INVALID_ARGUMENT)) (\<lambda>definitionValues.
     bindS (liftS (requireE (definitionValues \<noteq> []) (TaskGraphError INVALID_ARGUMENT))) (\<lambda>_.
     bindS (checkS (\<lambda>g. requireE (length (g_tasks g) + length definitionValues \<le> MAX_TASKS)
       (TaskGraphError GRAPH_LIMIT_EXCEEDED))) (\<lambda>_.
     bindS (readTimestamp clock) (\<lambda>timestamp.
     bindS (checkS (\<lambda>g. parseDefinitions definitionValues (g_nextOrder g) timestamp (set (taskIds (g_tasks g))))) (\<lambda>parsed.
     bindS (checkS (\<lambda>g. requireE
       (list_all (\<lambda>t. list_all (\<lambda>d. d \<in> set (taskIds (g_tasks g @ parsed))) (t_dependencies t)) parsed)
       (TaskGraphError UNKNOWN_TASK))) (\<lambda>_.
     bindS (checkS (\<lambda>g. assertGraphEdgeLimit (g_tasks g @ parsed) GRAPH_LIMIT_EXCEEDED)) (\<lambda>_.
     bindS (checkS (\<lambda>g. topologicalTaskIds (g_tasks g @ parsed) CYCLIC_DEPENDENCY GRAPH_LIMIT_EXCEEDED)) (\<lambda>_.
     insertTasks parsed timestamp))))))))))))"

definition addTask :: "jsval \<Rightarrow> jsval \<Rightarrow> clock_reading \<Rightarrow> task list graph_action" where
  "addTask def options clock =
     bindS (addTasks (plainArr [def]) options clock) (\<lambda>tasks. returnS (take 1 tasks))"

text \<open>The mutation at the end of \<open>addDependency\<close>; \<open>extended\<close> is the task with the new dependency.\<close>

definition pushDependency :: "task \<Rightarrow> string \<Rightarrow> string \<Rightarrow> unit graph_action" where
  "pushDependency extended dependencyId timestamp =
     bindS (readS calculateGraphStatus) (\<lambda>previousStatus.
     bindS (putTask (extended\<lparr>t_updatedAt := timestamp\<rparr>)) (\<lambda>_.
     commit timestamp previousStatus [DependencyAdded (t_id extended) dependencyId]))"

definition addDependency :: "jsval \<Rightarrow> jsval \<Rightarrow> jsval \<Rightarrow> clock_reading \<Rightarrow> unit graph_action" where
  "addDependency taskId dependencyId options clock =
     bindS assertNotReentrantMutation (\<lambda>_.
     bindS assertPlanning (\<lambda>_.
     bindS (liftS (parseVersionedOptions (optionsOrEmpty options))) (\<lambda>expectedVersion.
     bindS (assertExpectedVersion expectedVersion) (\<lambda>_.
     bindS (checkS (requireTask taskId)) (\<lambda>task.
     bindS (checkS (requireTask dependencyId)) (\<lambda>dependency.
     bindS (liftS (requireE (t_id task \<noteq> t_id dependency) (TaskGraphError CYCLIC_DEPENDENCY))) (\<lambda>_.
     bindS (liftS (requireE (t_id dependency \<notin> set (t_dependencies task)) (TaskGraphError INVALID_ARGUMENT))) (\<lambda>_.
     bindS (liftS (requireE (length (t_dependencies task) < MAX_DEPENDENCIES_PER_TASK)
       (TaskGraphError GRAPH_LIMIT_EXCEEDED))) (\<lambda>_.
     let extended = task\<lparr>t_dependencies := t_dependencies task @ [t_id dependency]\<rparr> in
     bindS (checkS (\<lambda>g. assertGraphEdgeLimit (replaceBy t_id extended (g_tasks g)) GRAPH_LIMIT_EXCEEDED)) (\<lambda>_.
     bindS (checkS (\<lambda>g. topologicalTaskIds (replaceBy t_id extended (g_tasks g)) CYCLIC_DEPENDENCY GRAPH_LIMIT_EXCEEDED)) (\<lambda>_.
     bindS (readTimestamp clock) (\<lambda>timestamp.
     pushDependency extended (t_id dependency) timestamp))))))))))))"

text \<open>The mutation at the end of \<open>seal\<close>.\<close>

definition closeTopology :: "string \<Rightarrow> unit graph_action" where
  "closeTopology timestamp =
     bindS (readS calculateGraphStatus) (\<lambda>previousStatus.
     bindS (readS (\<lambda>g. [GraphSealed (length (g_tasks g))])) (\<lambda>pendingEvents.
     bindS (modifyS (g_sealed_update (\<lambda>_. True))) (\<lambda>_.
     bindS (reconcilePendingTasks timestamp pendingEvents) (\<lambda>pendingEvents.
     commit timestamp previousStatus pendingEvents))))"

definition sealGraph :: "jsval \<Rightarrow> clock_reading \<Rightarrow> unit graph_action" where
  "sealGraph options clock =
     bindS assertNotReentrantMutation (\<lambda>_.
     bindS assertPlanning (\<lambda>_.
     bindS (liftS (parseVersionedOptions (optionsOrEmpty options))) (\<lambda>expectedVersion.
     bindS (assertExpectedVersion expectedVersion) (\<lambda>_.
     bindS (checkS (\<lambda>g. requireE (g_tasks g \<noteq> []) (TaskGraphError EMPTY_GRAPH))) (\<lambda>_.
     bindS (readTimestamp clock) (\<lambda>timestamp.
     closeTopology timestamp))))))"

section \<open>Execution commands\<close>

text \<open>The mutation at the end of \<open>performTransition\<close>.\<close>

definition moveTask :: "task \<Rightarrow> task_status \<Rightarrow> string \<Rightarrow> string option \<Rightarrow> task graph_action" where
  "moveTask task target timestamp reason =
     bindS (readS calculateGraphStatus) (\<lambda>previousStatus.
     bindS (setTaskStatus (t_id task) target timestamp reason []) (\<lambda>pendingEvents.
     bindS (commit timestamp previousStatus pendingEvents) (\<lambda>_.
     copyHeldTask (t_id task))))"

definition performTransition ::
    "jsval \<Rightarrow> task_status list \<Rightarrow> task_status \<Rightarrow> jsval \<Rightarrow> clock_reading \<Rightarrow> task graph_action" where
  "performTransition taskId allowedFrom target options clock =
     bindS assertNotReentrantMutation (\<lambda>_.
     bindS assertExecution (\<lambda>_.
     bindS (liftS (parseMutationOptions (optionsOrEmpty options))) (\<lambda>(expectedVersion, reason).
     bindS (assertExpectedVersion expectedVersion) (\<lambda>_.
     bindS (checkS (requireTask taskId)) (\<lambda>task.
     bindS (liftS (assertTransition task allowedFrom)) (\<lambda>_.
     bindS (readTimestamp clock) (\<lambda>timestamp.
     moveTask task target timestamp reason)))))))"

definition startTask :: "jsval \<Rightarrow> jsval \<Rightarrow> clock_reading \<Rightarrow> task graph_action" where
  "startTask taskId = performTransition taskId [Ready] Running"

definition markTaskWaiting :: "jsval \<Rightarrow> jsval \<Rightarrow> clock_reading \<Rightarrow> task graph_action" where
  "markTaskWaiting taskId = performTransition taskId [Running] Waiting"

definition markTaskNeedsResolution :: "jsval \<Rightarrow> jsval \<Rightarrow> clock_reading \<Rightarrow> task graph_action" where
  "markTaskNeedsResolution taskId = performTransition taskId [Running] NeedsResolution"

definition resumeTask :: "jsval \<Rightarrow> jsval \<Rightarrow> clock_reading \<Rightarrow> task graph_action" where
  "resumeTask taskId = performTransition taskId [Waiting, NeedsResolution] Running"

text \<open>The end of \<open>succeedTask\<close>, \<open>failTask\<close> and \<open>cancelTask\<close>, which have it in common: the task with
  its outcome goes in, its status changes, the pending tasks are reconciled.\<close>

definition finishTask :: "task \<Rightarrow> task_status \<Rightarrow> string \<Rightarrow> string option \<Rightarrow> task graph_action" where
  "finishTask task target timestamp reason =
     bindS (readS calculateGraphStatus) (\<lambda>previousStatus.
     bindS (putTask task) (\<lambda>_.
     bindS (setTaskStatus (t_id task) target timestamp reason []) (\<lambda>pendingEvents.
     bindS (reconcilePendingTasks timestamp pendingEvents) (\<lambda>pendingEvents.
     bindS (commit timestamp previousStatus pendingEvents) (\<lambda>_.
     copyHeldTask (t_id task))))))"

definition succeedTask :: "jsval \<Rightarrow> jsval \<Rightarrow> clock_reading \<Rightarrow> task graph_action" where
  "succeedTask taskId options clock =
     bindS assertNotReentrantMutation (\<lambda>_.
     bindS assertExecution (\<lambda>_.
     bindS (liftS (parseSucceedTaskOptions (optionsOrEmpty options))) (\<lambda>(expectedVersion, reason, outputs).
     bindS (assertExpectedVersion expectedVersion) (\<lambda>_.
     bindS (checkS (requireTask taskId)) (\<lambda>task.
     bindS (liftS (assertTransition task [Running])) (\<lambda>_.
     bindS (liftS (parseUniqueIdentifiers outputs INVALID_ARGUMENT MAX_OUTPUT_ARTIFACTS_PER_TASK)) (\<lambda>outputArtifactIds.
     bindS (readTimestamp clock) (\<lambda>timestamp.
     finishTask (task\<lparr>t_outputArtifactIds := outputArtifactIds, t_failure := None, t_blockedBy := []\<rparr>)
       Succeeded timestamp reason))))))))"

definition failTask :: "jsval \<Rightarrow> jsval \<Rightarrow> jsval \<Rightarrow> clock_reading \<Rightarrow> task graph_action" where
  "failTask taskId failure options clock =
     bindS assertNotReentrantMutation (\<lambda>_.
     bindS assertExecution (\<lambda>_.
     bindS (liftS (parseMutationOptions (optionsOrEmpty options))) (\<lambda>(expectedVersion, explicitReason).
     bindS (assertExpectedVersion expectedVersion) (\<lambda>_.
     bindS (checkS (requireTask taskId)) (\<lambda>task.
     bindS (liftS (assertTransition task [Ready, Running, Waiting, NeedsResolution])) (\<lambda>_.
     bindS (liftS (parseFailure failure INVALID_ARGUMENT)) (\<lambda>parsedFailure.
     bindS (readTimestamp clock) (\<lambda>timestamp.
     finishTask (task\<lparr>t_failure := Some parsedFailure, t_outputArtifactIds := [], t_blockedBy := []\<rparr>)
       Failed timestamp
       (case explicitReason of None \<Rightarrow> Some (f_message parsedFailure) | Some r \<Rightarrow> Some r)))))))))"

definition cancelTask :: "jsval \<Rightarrow> jsval \<Rightarrow> clock_reading \<Rightarrow> task graph_action" where
  "cancelTask taskId options clock =
     bindS assertNotReentrantMutation (\<lambda>_.
     bindS assertExecution (\<lambda>_.
     bindS (liftS (parseMutationOptions (optionsOrEmpty options))) (\<lambda>(expectedVersion, reason).
     bindS (assertExpectedVersion expectedVersion) (\<lambda>_.
     bindS (checkS (requireTask taskId)) (\<lambda>task.
     bindS (liftS (assertTransition task [Pending, Ready, Running, Waiting, NeedsResolution])) (\<lambda>_.
     bindS (readTimestamp clock) (\<lambda>timestamp.
     finishTask (task\<lparr>t_failure := None, t_outputArtifactIds := [], t_blockedBy := []\<rparr>)
       Cancelled timestamp reason)))))))"

text \<open>The mutation at the end of \<open>cancelRemaining\<close>.\<close>

definition cancelAll :: "task list \<Rightarrow> string \<Rightarrow> string option \<Rightarrow> task list graph_action" where
  "cancelAll cancellable timestamp reason =
     bindS (readS calculateGraphStatus) (\<lambda>previousStatus.
     bindS (forS (\<lambda>task pendingEvents.
         bindS (putTask (task\<lparr>t_failure := None, t_outputArtifactIds := [], t_blockedBy := []\<rparr>)) (\<lambda>_.
         setTaskStatus (t_id task) Cancelled timestamp reason pendingEvents)) cancellable []) (\<lambda>pendingEvents.
     bindS (commit timestamp previousStatus pendingEvents) (\<lambda>_.
     checkS (\<lambda>g. mapE (\<lambda>t. bindE (taskAt (t_id t) (g_tasks g)) cloneAndFreezeTask) cancellable))))"

definition cancelRemaining :: "jsval \<Rightarrow> clock_reading \<Rightarrow> task list graph_action" where
  "cancelRemaining options clock =
     bindS assertNotReentrantMutation (\<lambda>_.
     bindS assertExecution (\<lambda>_.
     bindS (liftS (parseMutationOptions (optionsOrEmpty options))) (\<lambda>(expectedVersion, reason).
     bindS (assertExpectedVersion expectedVersion) (\<lambda>_.
     bindS (readS (\<lambda>g. filter (\<lambda>t. \<not> terminal (t_status t)) (orderedTasks g))) (\<lambda>cancellable.
     if cancellable = [] then returnS []
     else
       bindS (readTimestamp clock) (\<lambda>timestamp.
       cancelAll cancellable timestamp reason))))))"

definition acknowledgeEvents :: "jsval \<Rightarrow> nat graph_action" where
  "acknowledgeEvents throughSequence =
     bindS assertNotReentrantMutation (\<lambda>_.
     bindS (checkS (\<lambda>g. assertInteger throughSequence 0 (g_eventSequence g) INVALID_ARGUMENT)) (\<lambda>sequence.
     bindS (readS (\<lambda>g. length (g_events g))) (\<lambda>countBefore.
     bindS (modifyS (\<lambda>g. g\<lparr>g_events := filter (\<lambda>e. e_sequence e > sequence) (g_events g)\<rparr>)) (\<lambda>_.
     readS (\<lambda>g. countBefore - length (g_events g))))))"

end
