(* ===== verification/Task_Graph_Inv.thy ===== *)
theory Task_Graph_Inv
  imports Task_Graph
begin

text \<open>
  What a task graph promises about its tasks: the invariant \<open>tasksInv\<close>, the legal evolution of a
  task under one command, and the effect of reconciliation as a function of the task list. The
  lemmas are about task lists only; the methods are related to them in \<open>Task_Graph_Run\<close>.
\<close>

section \<open>Timestamps\<close>

abbreviation stampLe :: "string \<Rightarrow> string \<Rightarrow> bool" where
  "stampLe a b \<equiv> \<not> strLess b a"

lemma stampLe_trans: "stampLe a b \<Longrightarrow> stampLe b c \<Longrightarrow> stampLe a c"
  using strLess_trans strLess_total by metis

section \<open>Status of the dependencies\<close>

definition statusIn :: "task list \<Rightarrow> string \<Rightarrow> task_status option" where
  "statusIn tasks i = map_option t_status (findTask tasks i)"

definition allSucceeded :: "task list \<Rightarrow> task \<Rightarrow> bool" where
  "allSucceeded tasks t \<longleftrightarrow> list_all (\<lambda>d. statusIn tasks d = Some Succeeded) (t_dependencies t)"

definition failedDependencies :: "task list \<Rightarrow> task \<Rightarrow> string list" where
  "failedDependencies tasks t =
     filter (\<lambda>d. case statusIn tasks d of Some s \<Rightarrow> unsuccessful s | None \<Rightarrow> False) (t_dependencies t)"

text \<open>What must hold of a task in a sealed graph, at all times and after reconciliation.\<close>

definition outcomeOk :: "task list \<Rightarrow> task \<Rightarrow> bool" where
  "outcomeOk tasks t \<longleftrightarrow>
     (t_status t \<in> {Ready, Running, Waiting, NeedsResolution, Succeeded, Failed} \<longrightarrow> allSucceeded tasks t) \<and>
     (if t_status t = Blocked
      then t_blockedBy t \<noteq> [] \<and> set (t_blockedBy t) \<subseteq> set (failedDependencies tasks t)
      else t_blockedBy t = []) \<and>
     (t_status t = Failed \<longleftrightarrow> t_failure t \<noteq> None) \<and>
     (t_status t \<noteq> Succeeded \<longrightarrow> t_outputArtifactIds t = [])"

definition reconciled :: "task list \<Rightarrow> task \<Rightarrow> bool" where
  "reconciled tasks t \<longleftrightarrow>
     (t_status t = Pending \<longrightarrow> \<not> allSucceeded tasks t \<and> failedDependencies tasks t = [])"

definition fresh :: "task \<Rightarrow> bool" where
  "fresh t \<longleftrightarrow> t_status t = Pending \<and> t_blockedBy t = [] \<and> t_outputArtifactIds t = [] \<and> t_failure t = None"

definition statesOk :: "bool \<Rightarrow> task list \<Rightarrow> bool" where
  "statesOk sealed tasks \<longleftrightarrow>
     (\<forall>t \<in> set tasks. if sealed then outcomeOk tasks t \<and> reconciled tasks t else fresh t)"

section \<open>The invariant\<close>

definition cleanIds :: "nat \<Rightarrow> string list \<Rightarrow> bool" where
  "cleanIds n ids \<longleftrightarrow> distinct ids \<and> list_all isIdentifier ids \<and> length ids \<le> n"

definition cleanTask :: "task \<Rightarrow> bool" where
  "cleanTask t \<longleftrightarrow> isIdentifier (t_id t) \<and> isKind (t_kind t) \<and> trimmedText 300 (t_title t) \<and>
     pred_option (trimmedText 10000) (t_description t) \<and>
     cleanIds MAX_DEPENDENCIES_PER_TASK (t_dependencies t) \<and>
     MIN_PRIORITY \<le> t_priority t \<and> t_priority t \<le> MAX_PRIORITY \<and> cleanMetadata (t_metadata t) \<and>
     cleanIds MAX_DEPENDENCIES_PER_TASK (t_blockedBy t) \<and>
     cleanIds MAX_OUTPUT_ARTIFACTS_PER_TASK (t_outputArtifactIds t) \<and>
     pred_option cleanFailure (t_failure t) \<and>
     canonicalTimestamp (t_createdAt t) \<and> canonicalTimestamp (t_updatedAt t)"

text \<open>The shape of the graph: positions, distinct ids, known dependencies, no cycle, limits.\<close>

definition shapeOk :: "task list \<Rightarrow> bool" where
  "shapeOk tasks \<longleftrightarrow> map t_order tasks = map int [0..<length tasks] \<and> length tasks \<le> MAX_TASKS \<and>
     wellKeyed tasks \<and> layered MAX_DEPTH tasks \<and> edgeCount tasks \<le> MAX_EDGES"

definition stampsOk :: "string \<Rightarrow> string \<Rightarrow> task list \<Rightarrow> bool" where
  "stampsOk created updated tasks \<longleftrightarrow>
     (\<forall>t \<in> set tasks. stampLe created (t_createdAt t) \<and> stampLe (t_createdAt t) (t_updatedAt t) \<and>
        stampLe (t_updatedAt t) updated) \<and>
     (if tasks = [] then updated = created else updated \<in> t_updatedAt ` set tasks)"

definition tasksInv :: "bool \<Rightarrow> string \<Rightarrow> string \<Rightarrow> task list \<Rightarrow> bool" where
  "tasksInv sealed created updated tasks \<longleftrightarrow>
     shapeOk tasks \<and> (\<forall>t \<in> set tasks. cleanTask t) \<and> statesOk sealed tasks \<and> stampsOk created updated tasks"

section \<open>Evolution of a task\<close>

fun legalStatus :: "task_status \<Rightarrow> task_status \<Rightarrow> bool" where
  "legalStatus Pending s \<longleftrightarrow> s \<in> {Ready, Blocked, Cancelled}"
| "legalStatus Ready s \<longleftrightarrow> s \<in> {Running, Failed, Cancelled}"
| "legalStatus Running s \<longleftrightarrow> s \<in> {Waiting, NeedsResolution, Succeeded, Failed, Cancelled}"
| "legalStatus Waiting s \<longleftrightarrow> s \<in> {Running, Failed, Cancelled}"
| "legalStatus NeedsResolution s \<longleftrightarrow> s \<in> {Running, Failed, Cancelled}"
| "legalStatus _ s \<longleftrightarrow> False"

text \<open>The fields that no command changes once the task exists.\<close>

definition sameDefinition :: "task \<Rightarrow> task \<Rightarrow> bool" where
  "sameDefinition a b \<longleftrightarrow> t_id a = t_id b \<and> t_kind a = t_kind b \<and> t_title a = t_title b \<and>
     t_description a = t_description b \<and> t_dependencies a = t_dependencies b \<and>
     t_priority a = t_priority b \<and> t_metadata a = t_metadata b \<and> t_order a = t_order b \<and>
     t_createdAt a = t_createdAt b"

text \<open>One command at time \<open>ts\<close> leaves a task as it is or moves its status along a legal edge.\<close>

definition advances :: "string \<Rightarrow> task \<Rightarrow> task \<Rightarrow> bool" where
  "advances ts a b \<longleftrightarrow> b = a \<or>
     (sameDefinition a b \<and> legalStatus (t_status a) (t_status b) \<and> t_updatedAt b = ts)"

lemma advances_refl [simp]: "advances ts a a"
  by (simp add: advances_def)

lemma advances_same: "advances ts a b \<Longrightarrow> sameDefinition a b"
  by (auto simp: advances_def sameDefinition_def)

lemma legalStatus_source: "legalStatus s s' \<Longrightarrow> \<not> terminal s"
  by (cases s) auto

lemma advances_terminal: "advances ts a b \<Longrightarrow> terminal (t_status a) \<Longrightarrow> b = a"
  using legalStatus_source by (auto simp: advances_def)

lemma advances_pending: "advances ts a b \<Longrightarrow> t_status b = Pending \<Longrightarrow> b = a"
  by (cases "t_status a") (auto simp: advances_def)

section \<open>Task lists with the same definitions\<close>

lemma findTask_Some_iff:
  "distinct (taskIds tasks) \<Longrightarrow> findTask tasks i = Some t \<longleftrightarrow> t \<in> set tasks \<and> t_id t = i"
  unfolding findTask_def taskIds_def by (rule find_Some_iff_distinct)

lemma findTask_None_iff: "findTask tasks i = None \<longleftrightarrow> i \<notin> set (taskIds tasks)"
  unfolding findTask_def taskIds_def by (simp add: find_None_iff_key)

lemma findTask_self:
  "distinct (taskIds tasks) \<Longrightarrow> t \<in> set tasks \<Longrightarrow> findTask tasks (t_id t) = Some t"
  by (simp add: findTask_Some_iff)

lemma same_ids: "list_all2 sameDefinition xs ys \<Longrightarrow> taskIds xs = taskIds ys"
  by (induction rule: list_all2_induct) (auto simp: taskIds_def sameDefinition_def)

lemma same_edges: "list_all2 sameDefinition xs ys \<Longrightarrow> edgeCount xs = edgeCount ys"
  by (induction rule: list_all2_induct) (auto simp: edgeCount_def sameDefinition_def)

lemma same_orders: "list_all2 sameDefinition xs ys \<Longrightarrow> map t_order xs = map t_order ys"
  by (induction rule: list_all2_induct) (auto simp: sameDefinition_def)

lemma same_dependencies: "list_all2 sameDefinition xs ys \<Longrightarrow> map t_dependencies xs = map t_dependencies ys"
  by (induction rule: list_all2_induct) (auto simp: sameDefinition_def)

lemma shapeOk_same:
  assumes "list_all2 sameDefinition xs ys" and "shapeOk xs"
  shows "shapeOk ys"
proof -
  have deps: "list_all2 (\<lambda>a b. t_id a = t_id b \<and> set (t_dependencies a) = set (t_dependencies b)) xs ys"
    using assms(1) by (rule list_all2_mono) (auto simp: sameDefinition_def)
  have "list_all (\<lambda>t. distinct (t_dependencies t)) ys = list_all (\<lambda>t. distinct (t_dependencies t)) xs"
    using assms(1) by (induction rule: list_all2_induct) (auto simp: sameDefinition_def)
  then have "list_all (\<lambda>t. distinct (t_dependencies t)) ys"
    using assms(2) by (auto simp: shapeOk_def wellKeyed_def list_all_iff)
  then have "wellKeyed ys" and "layered MAX_DEPTH ys"
    using layered_cong [OF deps] assms(2) by (auto simp: shapeOk_def)
  moreover have "length ys = length xs" using assms(1) by (simp add: list_all2_lengthD)
  ultimately show ?thesis
    using assms same_edges [OF assms(1)] same_orders [OF assms(1)] by (simp add: shapeOk_def)
qed

lemma list_all2_set2: "list_all2 R xs ys \<Longrightarrow> y \<in> set ys \<Longrightarrow> \<exists>x \<in> set xs. R x y"
  by (induction rule: list_all2_induct) auto

lemma list_all2_set1: "list_all2 R xs ys \<Longrightarrow> x \<in> set xs \<Longrightarrow> \<exists>y \<in> set ys. R x y"
  by (induction rule: list_all2_induct) auto

lemma find_related:
  assumes "list_all2 R xs ys" and "\<And>a b. R a b \<Longrightarrow> t_id a = t_id b"
  shows "rel_option R (findTask xs i) (findTask ys i)"
  using assms(1) by (induction rule: list_all2_induct) (auto simp: findTask_def dest: assms(2))

lemma list_all2_refl_advances [simp]: "list_all2 (advances ts) xs xs"
  by (simp add: list_all2_same)

lemma replaceBy_related:
  assumes "distinct (taskIds xs)" and "a \<in> set xs" and "t_id b = t_id a" and "R a b" and "\<And>x. R x x"
  shows "list_all2 R xs (replaceBy t_id b xs)"
proof -
  have "R x (if t_id x = t_id b then b else x)" if "x \<in> set xs" for x
    using assms that by (auto simp: taskIds_def dest: distinct_map_inj_on_eq)
  then show ?thesis unfolding replaceBy_def by (simp add: list_all2_map2 list_all2_same)
qed

lemma replaceBy_self: "distinct (taskIds xs) \<Longrightarrow> a \<in> set xs \<Longrightarrow> replaceBy t_id a xs = xs"
  unfolding replaceBy_def taskIds_def by (auto intro!: map_idI dest: distinct_map_inj_on_eq)

lemma replaceBy_twice: "t_id a = t_id b \<Longrightarrow> replaceBy t_id b (replaceBy t_id a xs) = replaceBy t_id b xs"
  by (simp add: replaceBy_def comp_def)

lemma taskIds_replaceBy [simp]: "taskIds (replaceBy t_id t xs) = taskIds xs"
  by (simp add: taskIds_def)

lemma findTask_replaceBy:
  "findTask (replaceBy t_id t xs) i =
     (if i = t_id t then (if i \<in> set (taskIds xs) then Some t else None) else findTask xs i)"
  by (simp add: findTask_def find_replaceBy taskIds_def)

lemma statusIn_replaceBy:
  "t_id t \<in> set (taskIds xs) \<Longrightarrow>
     statusIn (replaceBy t_id t xs) i = (if i = t_id t then Some (t_status t) else statusIn xs i)"
  by (simp add: statusIn_def findTask_replaceBy)

lemma statusIn_task: "distinct (taskIds xs) \<Longrightarrow> t \<in> set xs \<Longrightarrow> statusIn xs (t_id t) = Some (t_status t)"
  by (simp add: statusIn_def findTask_self)

section \<open>Terminal statuses persist, so outcomes stay justified\<close>

lemma statusIn_advances:
  assumes "list_all2 (advances ts) xs ys" and "statusIn xs i = Some s" and "terminal s"
  shows "statusIn ys i = Some s"
proof -
  have "rel_option (advances ts) (findTask xs i) (findTask ys i)"
    using assms(1) by (rule find_related) (auto simp: advances_def sameDefinition_def)
  then show ?thesis using assms(2,3) advances_terminal by (fastforce simp: statusIn_def option_rel_Some1)
qed

lemma allSucceeded_advances:
  assumes "list_all2 (advances ts) xs ys" and "allSucceeded xs t"
  shows "allSucceeded ys t"
  using assms statusIn_advances [OF assms(1)] by (auto simp: allSucceeded_def list_all_iff)

lemma failedDependencies_advances:
  assumes "list_all2 (advances ts) xs ys"
  shows "set (failedDependencies xs t) \<subseteq> set (failedDependencies ys t)"
  using statusIn_advances [OF assms] by (fastforce simp: failedDependencies_def split: option.splits)

lemma outcomeOk_advances:
  "list_all2 (advances ts) xs ys \<Longrightarrow> outcomeOk xs t \<Longrightarrow> outcomeOk ys t"
  using allSucceeded_advances failedDependencies_advances by (fastforce simp: outcomeOk_def split: if_splits)

text \<open>Statuses of other tasks matter only through the dependencies.\<close>

lemma dependencies_cong:
  assumes "\<And>d. d \<in> set (t_dependencies t) \<Longrightarrow> statusIn xs d = statusIn ys d"
  shows "allSucceeded xs t = allSucceeded ys t" and "failedDependencies xs t = failedDependencies ys t"
  using assms by (auto simp: allSucceeded_def failedDependencies_def list_all_iff intro: filter_cong)

lemma sameDefinition_dependencies:
  assumes "t_dependencies a = t_dependencies b"
  shows "allSucceeded xs a = allSucceeded xs b" and "failedDependencies xs a = failedDependencies xs b"
  using assms by (simp_all add: allSucceeded_def failedDependencies_def)

section \<open>Reconciliation\<close>

text \<open>What one iteration makes of a task, and the whole loop.\<close>

definition settled :: "string \<Rightarrow> task list \<Rightarrow> task \<Rightarrow> task" where
  "settled ts tasks t =
     (if t_status t \<noteq> Pending then t
      else if failedDependencies tasks t \<noteq> []
        then t\<lparr>t_blockedBy := failedDependencies tasks t, t_status := Blocked, t_updatedAt := ts\<rparr>
      else if allSucceeded tasks t
        then t\<lparr>t_blockedBy := [], t_status := Ready, t_updatedAt := ts\<rparr>
      else t)"

definition settleAt :: "string \<Rightarrow> string \<Rightarrow> task list \<Rightarrow> task list" where
  "settleAt ts i tasks =
     (case findTask tasks i of None \<Rightarrow> tasks | Some t \<Rightarrow> replaceBy t_id (settled ts tasks t) tasks)"

definition settleAll :: "string \<Rightarrow> string list \<Rightarrow> task list \<Rightarrow> task list" where
  "settleAll ts ids tasks = fold (settleAt ts) ids tasks"

lemma settled_fields [simp]: "t_id (settled ts xs t) = t_id t" "t_dependencies (settled ts xs t) = t_dependencies t"
  by (simp_all add: settled_def)

lemma settled_advances: "advances ts t (settled ts xs t)"
  by (auto simp: settled_def advances_def sameDefinition_def)

lemma settled_pending: "t_status (settled ts xs t) = Pending \<Longrightarrow> settled ts xs t = t \<and> reconciled xs t"
  by (auto simp: settled_def reconciled_def split: if_splits)

lemma settled_outcomeOk:
  assumes "outcomeOk xs t"
  shows "outcomeOk xs (settled ts xs t)"
proof -
  have same: "allSucceeded xs (t\<lparr>t_blockedBy := b, t_status := s, t_updatedAt := ts\<rparr>) = allSucceeded xs t"
    "failedDependencies xs (t\<lparr>t_blockedBy := b, t_status := s, t_updatedAt := ts\<rparr>) = failedDependencies xs t" for b s
    by (rule sameDefinition_dependencies, simp)+
  consider "settled ts xs t = t"
    | "t_status t = Pending" "failedDependencies xs t \<noteq> []"
      "settled ts xs t = t\<lparr>t_blockedBy := failedDependencies xs t, t_status := Blocked, t_updatedAt := ts\<rparr>"
    | "t_status t = Pending" "allSucceeded xs t"
      "settled ts xs t = t\<lparr>t_blockedBy := [], t_status := Ready, t_updatedAt := ts\<rparr>"
    unfolding settled_def by presburger
  then show ?thesis
  proof cases
    case 1
    then show ?thesis using assms by simp
  next
    case 2
    then show ?thesis using assms unfolding 2(3) outcomeOk_def same by simp
  next
    case 3
    then show ?thesis using assms unfolding 3(3) outcomeOk_def same by simp
  qed
qed

text \<open>The loop invariant: \<open>dun\<close> are the ids visited, closed under dependencies.\<close>

definition settling :: "string \<Rightarrow> task list \<Rightarrow> string set \<Rightarrow> task list \<Rightarrow> bool" where
  "settling ts tasks dun now \<longleftrightarrow>
     list_all2 (advances ts) tasks now \<and> (\<forall>t \<in> set now. outcomeOk now t) \<and>
     (\<forall>t \<in> set now. t_id t \<in> dun \<longrightarrow> reconciled now t \<and> set (t_dependencies t) \<subseteq> dun)"

lemma advances_trans_pending:
  "advances ts a b \<Longrightarrow> t_status b = Pending \<Longrightarrow> advances ts b c \<Longrightarrow> advances ts a c"
  using advances_pending by blast

lemma settling_step:
  assumes dist: "distinct (taskIds tasks)" and st: "settling ts tasks dun now" and t: "t \<in> set now"
    and deps: "set (t_dependencies t) \<subseteq> dun" and new: "t_id t \<notin> dun"
  shows "settling ts tasks (insert (t_id t) dun) (settleAt ts (t_id t) now)"
proof -
  let ?t = "settled ts now t"
  let ?now = "replaceBy t_id ?t now"
  have adv: "list_all2 (advances ts) tasks now" using st by (simp add: settling_def)
  then have "list_all2 sameDefinition tasks now"
    by (rule list_all2_mono) (rule advances_same)
  then have dist': "distinct (taskIds now)" using dist same_ids by metis
  have at: "settleAt ts (t_id t) now = ?now" using findTask_self [OF dist' t] by (simp add: settleAt_def)
  have step: "list_all2 (advances ts) now ?now"
    using dist' t by (rule replaceBy_related) (simp_all add: settled_advances)
  have "list_all2 (advances ts) tasks ?now"
  proof -
    have "advances ts a ?t" if a: "advances ts a t" for a
    proof (cases "t_status t = Pending")
      case True
      then show ?thesis using advances_trans_pending [OF a] settled_advances by blast
    next
      case False
      then have "?t = t" by (simp add: settled_def)
      then show ?thesis using a by simp
    qed
    then have "advances ts a (if t_id b = t_id ?t then ?t else b)" if "advances ts a b" "b \<in> set now" for a b
      using that t dist' by (auto simp: taskIds_def dest: distinct_map_inj_on_eq)
    then show ?thesis
      using adv unfolding replaceBy_def by (auto simp: list_all2_map2 list_all2_conv_all_nth)
  qed
  moreover have "outcomeOk ?now u" if "u \<in> set ?now" for u
  proof -
    have "outcomeOk now u"
      using that st t settled_outcomeOk by (auto simp: replaceBy_set settling_def)
    then show ?thesis using outcomeOk_advances [OF step] by blast
  qed
  moreover have "reconciled ?now u \<and> set (t_dependencies u) \<subseteq> insert (t_id t) dun"
    if u: "u \<in> set ?now" "t_id u \<in> insert (t_id t) dun" for u
  proof (cases "t_id u = t_id t")
    case True
    then have ut: "u = ?t" using u(1) by (auto simp: replaceBy_set)
    have st: "statusIn ?now d = statusIn now d" if "d \<in> set (t_dependencies u)" for d
      using that deps new t by (subst statusIn_replaceBy) (auto simp: ut taskIds_def)
    have "reconciled now u"
      using settled_pending [of ts now t] ut by (auto simp: reconciled_def)
    then have "reconciled ?now u" using dependencies_cong [OF st] by (simp add: reconciled_def)
    then show ?thesis using deps by (auto simp: ut)
  next
    case False
    then have "u \<in> set now" "t_id u \<in> dun" using u by (auto simp: replaceBy_set)
    then have u': "reconciled now u" "set (t_dependencies u) \<subseteq> dun" using st by (auto simp: settling_def)
    have "statusIn ?now d = statusIn now d" if "d \<in> set (t_dependencies u)" for d
      using that u'(2) new t by (subst statusIn_replaceBy) (auto simp: taskIds_def)
    then show ?thesis using u' dependencies_cong [of u ?now now] by (auto simp: reconciled_def)
  qed
  ultimately show ?thesis by (auto simp: at settling_def)
qed

lemma settling_loop:
  assumes dist: "distinct (taskIds tasks)" and ids: "distinct ids" "set ids = set (taskIds tasks)"
    and ord: "dependencyOrdered tasks ids" and ok: "\<forall>t \<in> set tasks. outcomeOk tasks t"
  shows "k \<le> length ids \<Longrightarrow> settling ts tasks (set (take k ids)) (settleAll ts (take k ids) tasks)"
proof (induction k)
  case 0
  then show ?case using ok by (simp add: settling_def settleAll_def)
next
  case (Suc k)
  let ?now = "settleAll ts (take k ids) tasks"
  have k: "k < length ids" using Suc.prems by simp
  have st: "settling ts tasks (set (take k ids)) ?now" using Suc by simp
  then have same: "list_all2 sameDefinition tasks ?now"
    unfolding settling_def by (auto intro: list_all2_mono advances_same)
  have "ids ! k \<in> set (taskIds tasks)" using ids(2) k by (metis nth_mem)
  then have "ids ! k \<in> set (taskIds ?now)" using same_ids [OF same] by simp
  then obtain t where t: "t \<in> set ?now" "t_id t = ids ! k" by (auto simp: taskIds_def)
  then obtain a where "a \<in> set tasks" "sameDefinition a t" using list_all2_set2 [OF same] by blast
  then have a: "a \<in> set tasks" "t_id a = ids ! k" "t_dependencies a = t_dependencies t"
    using t(2) by (simp_all add: sameDefinition_def)
  have "set (t_dependencies a) \<subseteq> set (take k ids)"
    using ord [unfolded dependencyOrdered_def, rule_format, OF k a(1,2)] .
  then have deps: "set (t_dependencies t) \<subseteq> set (take k ids)" by (simp add: a(3))
  have new: "t_id t \<notin> set (take k ids)"
  proof -
    have "distinct (take (Suc k) ids)" using ids(1) by (rule distinct_take)
    then show ?thesis using k by (simp add: take_Suc_conv_app_nth t(2))
  qed
  have "settling ts tasks (insert (t_id t) (set (take k ids))) (settleAt ts (t_id t) ?now)"
    by (rule settling_step [OF dist st t(1) deps new])
  then show ?case using k t(2) by (simp add: take_Suc_conv_app_nth settleAll_def)
qed

text \<open>Reconciliation in dependency order: every task keeps its definition, moves at most once and
  legally, and afterwards no task waits for dependencies that are decided.\<close>

lemma settleAll_correct:
  assumes shape: "shapeOk tasks" and ok: "\<forall>t \<in> set tasks. outcomeOk tasks t"
    and ids: "topologicalTaskIds tasks cc lc = Inr ids"
  shows "list_all2 (advances ts) tasks (settleAll ts ids tasks)"
    and "statesOk True (settleAll ts ids tasks)"
proof -
  have wk: "wellKeyed tasks" using shape by (simp add: shapeOk_def)
  note topo = topologicalTaskIds_Inr [OF wk ids]
  have "settling ts tasks (set (take (length ids) ids)) (settleAll ts (take (length ids) ids) tasks)"
    using wk topo ok by (intro settling_loop) (simp_all add: wellKeyed_def)
  then have st: "settling ts tasks (set ids) (settleAll ts ids tasks)" by simp
  then show adv: "list_all2 (advances ts) tasks (settleAll ts ids tasks)" by (simp add: settling_def)
  have "list_all2 sameDefinition tasks (settleAll ts ids tasks)"
    using adv by (rule list_all2_mono) (rule advances_same)
  then have "set (taskIds (settleAll ts ids tasks)) = set ids" using topo(6) same_ids by metis
  then have "\<forall>t \<in> set (settleAll ts ids tasks). t_id t \<in> set ids" by (auto simp: taskIds_def)
  then show "statesOk True (settleAll ts ids tasks)"
    using st unfolding settling_def statesOk_def by simp
qed

end
