(* ===== verification/Task_Graph_Run.thy ===== *)
theory Task_Graph_Run
  imports Task_Graph_Inv
begin

text \<open>
  The methods of \<open>TaskGraph\<close> related to the invariant. A command is \<^emph>\<open>lawful\<close> when an exception
  leaves the graph as it was and success is a commit of a permitted change; the events of the
  commit, replayed on the graph before, give the graph after.
\<close>

section \<open>Replaying events\<close>

fun applyEvent :: "string \<Rightarrow> pending_event \<Rightarrow> task list \<Rightarrow> task list" where
  "applyEvent ts (TaskAdded t) tasks = tasks @ [t]"
| "applyEvent ts (DependencyAdded i d) tasks =
     map (\<lambda>t. if t_id t = i then t\<lparr>t_dependencies := t_dependencies t @ [d], t_updatedAt := ts\<rparr> else t) tasks"
| "applyEvent ts (TaskStatusChanged i from to reason t) tasks = replaceBy t_id t tasks"
| "applyEvent ts _ tasks = tasks"

definition replay :: "string \<Rightarrow> pending_event list \<Rightarrow> task list \<Rightarrow> task list" where
  "replay ts evs tasks = fold (applyEvent ts) evs tasks"

lemma replay_simps [simp]:
  "replay ts [] tasks = tasks"
  "replay ts (evs @ [e]) tasks = applyEvent ts e (replay ts evs tasks)"
  "replay ts (evs @ evs') tasks = replay ts evs' (replay ts evs tasks)"
  by (simp_all add: replay_def)

section \<open>The commit\<close>

definition committed :: "string \<Rightarrow> graph_status \<Rightarrow> pending_event list \<Rightarrow> graph \<Rightarrow> graph" where
  "committed ts previous evs g = snd (commit ts previous evs g :: (tg_error + unit) \<times> graph)"

lemma commit_run: "commit ts previous evs g = (Inr (), committed ts previous evs g)"
  by (simp add: committed_def commit_def modifyS_def)

text \<open>The events of a commit: bodies in order, numbered consecutively.\<close>

definition numbered :: "graph \<Rightarrow> string \<Rightarrow> nat \<Rightarrow> nat \<Rightarrow> pending_event list \<Rightarrow> tg_event list" where
  "numbered g ts n i ps =
     map (\<lambda>(k, p). eventOf (g\<lparr>g_eventSequence := g_eventSequence g + int k + 1\<rparr>) ts n (i + k) p) (enumerate 0 ps)"

lemma numbered_Cons:
  "numbered g ts n i (p # ps) =
     eventOf (g\<lparr>g_eventSequence := g_eventSequence g + 1\<rparr>) ts n i p #
     numbered (g\<lparr>g_eventSequence := g_eventSequence g + 1\<rparr>) ts n (Suc i) ps"
proof -
  have "enumerate 1 ps = map (\<lambda>(k, p). (Suc k, p)) (enumerate 0 ps)"
    by (rule nth_equalityI) (simp_all add: nth_enumerate_eq)
  then show ?thesis
    by (simp add: numbered_def split_def comp_def algebra_simps)
qed

lemma eventOf_cong:
  "g_graphId g = g_graphId h \<Longrightarrow> g_projectId g = g_projectId h \<Longrightarrow> g_eventSequence g = g_eventSequence h \<Longrightarrow>
   g_version g = g_version h \<Longrightarrow> eventOf g = eventOf h"
  by (simp add: eventOf_def fun_eq_iff)

lemma numbered_cong:
  "g_graphId g = g_graphId h \<Longrightarrow> g_projectId g = g_projectId h \<Longrightarrow> g_eventSequence g = g_eventSequence h \<Longrightarrow>
   g_version g = g_version h \<Longrightarrow> numbered g ts n i ps = numbered h ts n i ps"
  unfolding numbered_def by (auto simp: eventOf_def)

lemma pushEvents_eq:
  "pushEvents ts n i ps g =
     g\<lparr>g_eventSequence := g_eventSequence g + int (length ps), g_events := g_events g @ numbered g ts n i ps\<rparr>"
proof (induction ps arbitrary: i g)
  case Nil
  show ?case by (simp add: numbered_def)
next
  case (Cons p ps)
  let ?h = "g\<lparr>g_eventSequence := g_eventSequence g + 1,
    g_events := g_events g @ [eventOf (g\<lparr>g_eventSequence := g_eventSequence g + 1\<rparr>) ts n i p]\<rparr>"
  have "numbered ?h ts n (Suc i) ps = numbered (g\<lparr>g_eventSequence := g_eventSequence g + 1\<rparr>) ts n (Suc i) ps"
    by (rule numbered_cong) simp_all
  then show ?case by (simp add: Cons Let_def numbered_Cons)
qed

definition committedEvents :: "string \<Rightarrow> graph_status \<Rightarrow> pending_event list \<Rightarrow> graph \<Rightarrow> pending_event list" where
  "committedEvents ts previous evs g =
     (let next = calculateGraphStatus g in if previous \<noteq> next then evs @ [GraphStatusChanged previous next] else evs)"

lemma calculateGraphStatus_cong:
  "g_sealed g = g_sealed h \<Longrightarrow> g_tasks g = g_tasks h \<Longrightarrow> calculateGraphStatus g = calculateGraphStatus h"
  by (simp add: calculateGraphStatus_def)

lemma committed_eq:
  "committed ts previous evs g =
     (let all = committedEvents ts previous evs g; h = g\<lparr>g_version := g_version g + 1, g_updatedAt := ts\<rparr>
      in h\<lparr>g_eventSequence := g_eventSequence g + int (length all),
           g_events := g_events g @ numbered h ts (length all) 0 all\<rparr>)"
proof -
  have "calculateGraphStatus (g\<lparr>g_version := g_version g + 1, g_updatedAt := ts\<rparr>) = calculateGraphStatus g"
    by (rule calculateGraphStatus_cong) simp_all
  then show ?thesis
    by (simp add: committed_def commit_def pushEvents_eq committedEvents_def Let_def)
qed

lemma committed_fields [simp]:
  "g_tasks (committed ts previous evs g) = g_tasks g"
  "g_sealed (committed ts previous evs g) = g_sealed g"
  "g_version (committed ts previous evs g) = g_version g + 1"
  "g_updatedAt (committed ts previous evs g) = ts"
  "g_createdAt (committed ts previous evs g) = g_createdAt g"
  "g_graphId (committed ts previous evs g) = g_graphId g"
  "g_projectId (committed ts previous evs g) = g_projectId g"
  "g_nextOrder (committed ts previous evs g) = g_nextOrder g"
  "g_clockActive (committed ts previous evs g) = g_clockActive g"
  "g_eventSequence (committed ts previous evs g) =
     g_eventSequence g + int (length (committedEvents ts previous evs g))"
  by (simp_all add: committed_eq Let_def)

lemma committedEvents_length:
  "length evs \<le> length (committedEvents ts previous evs g)"
  "length (committedEvents ts previous evs g) \<le> Suc (length evs)"
  by (simp_all add: committedEvents_def Let_def)

section \<open>The invariant of a graph\<close>

definition eventsOk :: "graph \<Rightarrow> bool" where
  "eventsOk g \<longleftrightarrow> map e_sequence (g_events g) = [g_eventSequence g - int (length (g_events g)) + 1 .. g_eventSequence g] \<and>
     int (length (g_events g)) \<le> g_eventSequence g"

definition graphInv :: "graph \<Rightarrow> bool" where
  "graphInv g \<longleftrightarrow> \<not> g_clockActive g \<and> isIdentifier (g_graphId g) \<and> isIdentifier (g_projectId g) \<and>
     canonicalTimestamp (g_createdAt g) \<and> canonicalTimestamp (g_updatedAt g) \<and>
     stampLe (g_createdAt g) (g_updatedAt g) \<and>
     tasksInv (g_sealed g) (g_createdAt g) (g_updatedAt g) (g_tasks g) \<and>
     g_nextOrder g = int (length (g_tasks g)) \<and>
     0 \<le> g_version g \<and> g_version g \<le> g_eventSequence g \<and> g_eventSequence g \<le> MAX_SEQUENCE \<and>
     (if g_tasks g = [] then g_version g = 0 \<and> g_eventSequence g = 0 \<and> \<not> g_sealed g else 0 < g_version g) \<and>
     (g_sealed g \<longrightarrow> 2 \<le> g_version g) \<and> eventsOk g"

text \<open>What one command may do to the tasks: \<open>evolves\<close> relates a task before and after.\<close>

definition evolves :: "string \<Rightarrow> task \<Rightarrow> task \<Rightarrow> bool" where
  "evolves ts a b \<longleftrightarrow> advances ts a b \<or>
     (t_status a = Pending \<and> (\<exists>d. b = a\<lparr>t_dependencies := t_dependencies a @ [d], t_updatedAt := ts\<rparr>))"

definition tasksEvolve :: "bool \<Rightarrow> string \<Rightarrow> task list \<Rightarrow> task list \<Rightarrow> bool" where
  "tasksEvolve sealed ts tasks tasks' \<longleftrightarrow>
     (if sealed then list_all2 (advances ts) tasks tasks'
      else \<exists>news. list_all2 (evolves ts) tasks (take (length tasks) tasks') \<and>
             tasks' = take (length tasks) tasks' @ news \<and> (\<forall>t \<in> set news. t_createdAt t = ts \<and> t_updatedAt t = ts))"

definition changeOk :: "graph \<Rightarrow> string \<Rightarrow> task list \<Rightarrow> bool \<Rightarrow> pending_event list \<Rightarrow> bool" where
  "changeOk g ts tasks' sealed' evs \<longleftrightarrow>
     canonicalTimestamp ts \<and> stampLe (g_updatedAt g) ts \<and>
     g_version g < MAX_SEQUENCE \<and> g_eventSequence g \<le> MAX_SEQUENCE - maximumEventsForCommand \<and>
     tasksInv sealed' (g_createdAt g) ts tasks' \<and> tasks' \<noteq> [] \<and>
     (g_sealed g \<longrightarrow> sealed') \<and> (sealed' \<longrightarrow> g_tasks g \<noteq> []) \<and>
     evs \<noteq> [] \<and> length evs \<le> MAX_TASKS + 2 \<and>
     replay ts evs (g_tasks g) = tasks' \<and> tasksEvolve (g_sealed g) ts (g_tasks g) tasks' \<and>
     (sealed' \<noteq> g_sealed g \<longleftrightarrow> (\<exists>n. GraphSealed n \<in> set evs)) \<and>
     length (filter (\<lambda>e. case e of TaskAdded _ \<Rightarrow> True | _ \<Rightarrow> False) evs) + length (g_tasks g) = length tasks'"

definition changed :: "graph \<Rightarrow> string \<Rightarrow> task list \<Rightarrow> bool \<Rightarrow> pending_event list \<Rightarrow> graph" where
  "changed g ts tasks' sealed' evs =
     committed ts (calculateGraphStatus g) evs
       (g\<lparr>g_tasks := tasks', g_sealed := sealed', g_nextOrder := int (length tasks')\<rparr>)"

definition lawful :: "'a graph_action \<Rightarrow> graph \<Rightarrow> bool" where
  "lawful m g \<longleftrightarrow>
     (\<exists>e. m g = (Inl e, g)) \<or>
     (\<exists>x ts tasks' sealed' evs. m g = (Inr x, changed g ts tasks' sealed' evs) \<and> changeOk g ts tasks' sealed' evs)"

lemma lawful_bind_query:
  "queryAt m g \<Longrightarrow> (\<And>a. m g = (Inr a, g) \<Longrightarrow> lawful (f a) g) \<Longrightarrow> lawful (bindS m f) g"
  by (cases "m g"; cases "fst (m g)") (auto simp: queryAt_def lawful_def)

lemma lawful_change:
  "m g = (Inr x, changed g ts tasks' sealed' evs) \<Longrightarrow> changeOk g ts tasks' sealed' evs \<Longrightarrow> lawful m g"
  unfolding lawful_def by blast

section \<open>Guards\<close>

lemma queryAt_guards [simp, intro]:
  "queryAt assertNotReentrantMutation g" "queryAt assertPlanning g" "queryAt assertExecution g"
  "queryAt (assertExpectedVersion v) g" "queryAt (heldTask i) g" "queryAt (copyHeldTask i) g"
  by (simp_all add: assertNotReentrantMutation_def assertPlanning_def assertExecution_def
      assertExpectedVersion_def heldTask_def copyHeldTask_def)

lemma readTimestamp_run:
  assumes "\<not> g_clockActive g"
  shows "readTimestamp clock g =
    (bindE (readClock clock) (\<lambda>ts. if strLess ts (g_updatedAt g) then Inl (TaskGraphError INVALID_ARGUMENT) else Inr ts), g)"
proof -
  have reset: "g\<lparr>g_clockActive := False\<rparr> = g" using assms by simp
  then show ?thesis
    using assms
    by (cases "readClock clock") (simp_all add: readTimestamp_def assertNotReentrantMutation_def bindS_def finallyS_def requireE_def)
qed

lemma queryAt_readTimestamp: "\<not> g_clockActive g \<Longrightarrow> queryAt (readTimestamp clock) g"
  by (simp add: queryAt_def readTimestamp_run)

lemma readTimestamp_Inr:
  assumes "\<not> g_clockActive g" and "readTimestamp clock g = (Inr ts, g')"
  shows "canonicalTimestamp ts" and "stampLe (g_updatedAt g) ts" and "readClock clock = Inr ts"
  using assms canonical_toISOString
  by (auto simp: readTimestamp_run bindE_Inr_iff readClock_Inr split: if_splits)

lemma assertExpectedVersion_Inr:
  assumes "assertExpectedVersion v g = (Inr u, g')"
  shows "g_version g < MAX_SEQUENCE" and "g_eventSequence g \<le> MAX_SEQUENCE - maximumEventsForCommand"
    and "v = None \<or> v = Some (g_version g)"
  using assms by (auto simp: assertExpectedVersion_def bindE_Inr_iff split: if_splits option.splits)

lemma requireTask_Inr:
  assumes "wellKeyed (g_tasks g)" and "requireTask v g = Inr t"
  shows "t \<in> set (g_tasks g)" and "v = JStr (t_id t)"
  using assms by (auto simp: requireTask_def bindE_Inr_iff wellKeyed_def findTask_Some_iff split: option.splits)

section \<open>Mutation of tasks\<close>

lemma heldTask_run:
  "distinct (taskIds (g_tasks g)) \<Longrightarrow> t \<in> set (g_tasks g) \<Longrightarrow> heldTask (t_id t) g = (Inr t, g)"
  by (simp add: heldTask_def taskAt_def findTask_self)

lemma copyHeldTask_run:
  "distinct (taskIds (g_tasks g)) \<Longrightarrow> t \<in> set (g_tasks g) \<Longrightarrow> cleanMetadata (t_metadata t) \<Longrightarrow>
     copyHeldTask (t_id t) g = (Inr t, g)"
  by (simp add: copyHeldTask_def taskAt_def findTask_self)

lemma setTaskStatus_run:
  assumes "distinct (taskIds (g_tasks g))" and "t \<in> set (g_tasks g)" and "cleanMetadata (t_metadata t)"
  shows "setTaskStatus (t_id t) s ts r p g =
    (Inr (p @ [TaskStatusChanged (t_id t) (t_status t) s r (t\<lparr>t_status := s, t_updatedAt := ts\<rparr>)]),
     g\<lparr>g_tasks := replaceBy t_id (t\<lparr>t_status := s, t_updatedAt := ts\<rparr>) (g_tasks g)\<rparr>)"
proof -
  let ?t = "t\<lparr>t_status := s, t_updatedAt := ts\<rparr>"
  let ?g = "g\<lparr>g_tasks := replaceBy t_id ?t (g_tasks g)\<rparr>"
  have "?t \<in> set (g_tasks ?g)" using assms(2) by (auto simp: replaceBy_set)
  then have "copyHeldTask (t_id ?t) ?g = (Inr ?t, ?g)"
    by (rule copyHeldTask_run [rotated]) (use assms in simp_all)
  then show ?thesis
    using heldTask_run [OF assms(1,2)] by (simp add: setTaskStatus_def putTask_def bindS_def modifyS_def)
qed

text \<open>Assigning the outcome of a task and then its status.\<close>

lemma put_setTaskStatus_run:
  assumes "distinct (taskIds (g_tasks g))" and "t \<in> set (g_tasks g)" and "t_id u = t_id t" and "cleanMetadata (t_metadata u)"
  shows "bindS (putTask u) (\<lambda>_. setTaskStatus (t_id t) s ts r p) g =
    (Inr (p @ [TaskStatusChanged (t_id t) (t_status u) s r (u\<lparr>t_status := s, t_updatedAt := ts\<rparr>)]),
     g\<lparr>g_tasks := replaceBy t_id (u\<lparr>t_status := s, t_updatedAt := ts\<rparr>) (g_tasks g)\<rparr>)"
proof -
  let ?g = "g\<lparr>g_tasks := replaceBy t_id u (g_tasks g)\<rparr>"
  have "u \<in> set (g_tasks ?g)" using assms(2,3) by (auto simp: replaceBy_set)
  then have "setTaskStatus (t_id u) s ts r p ?g =
    (Inr (p @ [TaskStatusChanged (t_id u) (t_status u) s r (u\<lparr>t_status := s, t_updatedAt := ts\<rparr>)]),
     ?g\<lparr>g_tasks := replaceBy t_id (u\<lparr>t_status := s, t_updatedAt := ts\<rparr>) (g_tasks ?g)\<rparr>)"
    by (rule setTaskStatus_run [rotated]) (use assms in simp_all)
  then show ?thesis
    using assms(3) by (simp add: putTask_def bindS_def modifyS_def replaceBy_twice)
qed

lemma mapE_taskAt:
  assumes "distinct (taskIds tasks)" and "set is \<subseteq> set (taskIds tasks)"
  obtains us where "mapE (\<lambda>i. taskAt i tasks) is = Inr us" and "map t_id us = is" and "set us \<subseteq> set tasks"
  using assms(2)
proof (induction "is" arbitrary: thesis)
  case Nil
  then show ?case by simp
next
  case (Cons i "is")
  obtain us where us: "mapE (\<lambda>i. taskAt i tasks) is = Inr us" "map t_id us = is" "set us \<subseteq> set tasks"
    using Cons.IH Cons.prems(2) by auto
  obtain u where "u \<in> set tasks" "t_id u = i" using Cons.prems(2) by (auto simp: taskIds_def)
  then show ?case using us Cons.prems(1) [of "u # us"] findTask_self [OF assms(1)] by (auto simp: taskAt_def)
qed

lemma dependencies_of:
  assumes "distinct (taskIds tasks)" and "set us \<subseteq> set tasks" and "map t_id us = t_dependencies t"
  shows "map t_id (filter (\<lambda>u. unsuccessful (t_status u)) us) = failedDependencies tasks t"
    and "list_all (\<lambda>u. t_status u = Succeeded) us = allSucceeded tasks t"
proof -
  have st: "statusIn tasks (t_id u) = Some (t_status u)" if "u \<in> set us" for u
    using that assms(1,2) by (auto intro: statusIn_task)
  have "failedDependencies tasks t = map t_id (filter (\<lambda>u. case statusIn tasks (t_id u) of Some s \<Rightarrow> unsuccessful s | None \<Rightarrow> False) us)"
    unfolding failedDependencies_def assms(3) [symmetric] by (simp add: filter_map comp_def)
  also have "\<dots> = map t_id (filter (\<lambda>u. unsuccessful (t_status u)) us)"
    using st by (intro arg_cong [where f = "map t_id"] filter_cong) auto
  finally show "map t_id (filter (\<lambda>u. unsuccessful (t_status u)) us) = failedDependencies tasks t" by simp
  show "list_all (\<lambda>u. t_status u = Succeeded) us = allSucceeded tasks t"
    unfolding allSucceeded_def assms(3) [symmetric] using st by (auto simp: list_all_iff)
qed

text \<open>The added-task count and the sealed flag of a commit ignore status changes.\<close>

definition statusEvents :: "pending_event list \<Rightarrow> bool" where
  "statusEvents evs \<longleftrightarrow> (\<forall>e \<in> set evs. \<exists>i from to reason t. e = TaskStatusChanged i from to reason t)"

lemma statusEvents_no_add:
  "statusEvents evs \<Longrightarrow> filter (\<lambda>e. case e of TaskAdded _ \<Rightarrow> True | _ \<Rightarrow> False) evs = []"
  "statusEvents evs \<Longrightarrow> \<not> (\<exists>n. GraphSealed n \<in> set evs)"
  by (fastforce simp: statusEvents_def filter_empty_conv)+

lemma reconcileTask_run:
  assumes wk: "wellKeyed (g_tasks g)" and clean: "\<forall>t \<in> set (g_tasks g). cleanMetadata (t_metadata t)"
    and i: "i \<in> set (taskIds (g_tasks g))"
  shows "\<exists>evs. reconcileTask ts i p g = (Inr (p @ evs), g\<lparr>g_tasks := settleAt ts i (g_tasks g)\<rparr>) \<and>
    replay ts evs (g_tasks g) = settleAt ts i (g_tasks g) \<and> length evs \<le> 1 \<and> statusEvents evs"
proof -
  have dist: "distinct (taskIds (g_tasks g))" using wk by (simp add: wellKeyed_def)
  obtain t where t: "t \<in> set (g_tasks g)" "t_id t = i" using i by (auto simp: taskIds_def)
  have at: "settleAt ts i (g_tasks g) = replaceBy t_id (settled ts (g_tasks g) t) (g_tasks g)"
    using findTask_self [OF dist t(1)] t(2) by (simp add: settleAt_def)
  have held: "heldTask i g = (Inr t, g)" using heldTask_run [OF dist t(1)] t(2) by simp
  obtain us where us: "mapE (\<lambda>i. taskAt i (g_tasks g)) (t_dependencies t) = Inr us"
    "map t_id us = t_dependencies t" "set us \<subseteq> set (g_tasks g)"
    using mapE_taskAt [OF dist, of "t_dependencies t"] wk t(1) by (auto simp: wellKeyed_def)
  note deps = dependencies_of [OF dist us(3,2)]
  have put: "bindS (putTask (t\<lparr>t_blockedBy := b\<rparr>)) (\<lambda>_. setTaskStatus i s ts r p) g =
    (Inr (p @ [TaskStatusChanged i (t_status t) s r (t\<lparr>t_blockedBy := b, t_status := s, t_updatedAt := ts\<rparr>)]),
     g\<lparr>g_tasks := replaceBy t_id (t\<lparr>t_blockedBy := b, t_status := s, t_updatedAt := ts\<rparr>) (g_tasks g)\<rparr>)" for b s r
    using put_setTaskStatus_run [OF dist t(1), of "t\<lparr>t_blockedBy := b\<rparr>"] clean t by simp
  have stay: "replaceBy t_id t (g_tasks g) = g_tasks g" by (rule replaceBy_self [OF dist t(1)])
  have single: "replay ts [TaskStatusChanged i a b r u] xs = replaceBy t_id u xs" for a b r u xs
    by (simp add: replay_def)
  consider "t_status t \<noteq> Pending" | "t_status t = Pending" "failedDependencies (g_tasks g) t \<noteq> []"
    | "t_status t = Pending" "failedDependencies (g_tasks g) t = []" "allSucceeded (g_tasks g) t"
    | "t_status t = Pending" "failedDependencies (g_tasks g) t = []" "\<not> allSucceeded (g_tasks g) t"
    by blast
  then show ?thesis
  proof cases
    case 1
    then have "reconcileTask ts i p g = (Inr (p @ []), g)" by (simp add: reconcileTask_def held)
    then show ?thesis using 1 stay at by (intro exI [of _ "[]"]) (simp add: settled_def statusEvents_def)
  next
    case 2
    let ?r = "Some (blockedReason (failedDependencies (g_tasks g) t))"
    have "reconcileTask ts i p g = bindS (putTask (t\<lparr>t_blockedBy := failedDependencies (g_tasks g) t\<rparr>))
        (\<lambda>_. setTaskStatus i Blocked ts ?r p) g"
      using 2 by (simp add: reconcileTask_def held us(1) deps Let_def del: status_sets map_is_Nil_conv list.map_disc_iff)
    then show ?thesis
      unfolding put using 2 at
      by (intro exI [of _ "[TaskStatusChanged i (t_status t) Blocked ?r (settled ts (g_tasks g) t)]"])
        (simp add: settled_def single statusEvents_def)
  next
    case 3
    have "reconcileTask ts i p g = bindS (putTask (t\<lparr>t_blockedBy := []\<rparr>)) (\<lambda>_. setTaskStatus i Ready ts None p) g"
      using 3 by (simp add: reconcileTask_def held us(1) deps Let_def del: status_sets map_is_Nil_conv list.map_disc_iff)
    then show ?thesis
      unfolding put using 3 at
      by (intro exI [of _ "[TaskStatusChanged i (t_status t) Ready None (settled ts (g_tasks g) t)]"])
        (simp add: settled_def single statusEvents_def)
  next
    case 4
    then have "reconcileTask ts i p g = (Inr (p @ []), g)"
      by (simp add: reconcileTask_def held us(1) deps Let_def del: status_sets map_is_Nil_conv list.map_disc_iff)
    then show ?thesis using 4 stay at by (intro exI [of _ "[]"]) (simp add: settled_def statusEvents_def)
  qed
qed

lemma settleAt_keeps:
  assumes d: "distinct (taskIds xs)"
  shows "taskIds (settleAt ts i xs) = taskIds xs"
    and "map t_dependencies (settleAt ts i xs) = map t_dependencies xs"
    and "map t_metadata (settleAt ts i xs) = map t_metadata xs"
proof -
  show "taskIds (settleAt ts i xs) = taskIds xs" by (simp add: settleAt_def split: option.splits)
  have same: "list_all2 sameDefinition xs (settleAt ts i xs)"
  proof (cases "findTask xs i")
    case None
    then show ?thesis by (simp add: settleAt_def list_all2_same sameDefinition_def)
  next
    case (Some t)
    then have "t \<in> set xs" using findTask_Some_iff [OF d] by simp
    then show ?thesis
      unfolding settleAt_def Some option.case
      by (rule replaceBy_related [OF d]) (simp_all add: advances_same [OF settled_advances], simp add: sameDefinition_def)
  qed
  then show "map t_dependencies (settleAt ts i xs) = map t_dependencies xs"
    using same_dependencies by metis
  show "map t_metadata (settleAt ts i xs) = map t_metadata xs"
    using same by (induction rule: list_all2_induct) (auto simp: sameDefinition_def)
qed

lemma all_map_eq: "map f xs = map f ys \<Longrightarrow> (\<forall>x \<in> set xs. P (f x)) = (\<forall>y \<in> set ys. P (f y))"
  by (metis (mono_tags, lifting) image_iff set_map)

lemma reconcile_loop_run:
  assumes "wellKeyed (g_tasks g)" and "\<forall>t \<in> set (g_tasks g). cleanMetadata (t_metadata t)"
    and "set ids \<subseteq> set (taskIds (g_tasks g))"
  shows "\<exists>evs. forS (reconcileTask ts) ids p g = (Inr (p @ evs), g\<lparr>g_tasks := settleAll ts ids (g_tasks g)\<rparr>) \<and>
    replay ts evs (g_tasks g) = settleAll ts ids (g_tasks g) \<and> length evs \<le> length ids \<and> statusEvents evs"
  using assms
proof (induction ids arbitrary: p g)
  case Nil
  show ?case by (intro exI [of _ "[]"]) (simp add: settleAll_def statusEvents_def)
next
  case (Cons i ids)
  obtain evs where evs: "reconcileTask ts i p g = (Inr (p @ evs), g\<lparr>g_tasks := settleAt ts i (g_tasks g)\<rparr>)"
    "replay ts evs (g_tasks g) = settleAt ts i (g_tasks g)" "length evs \<le> 1" "statusEvents evs"
    using reconcileTask_run [OF Cons.prems(1,2), of i ts p] Cons.prems(3) by auto
  let ?g = "g\<lparr>g_tasks := settleAt ts i (g_tasks g)\<rparr>"
  have dist: "distinct (taskIds (g_tasks g))" using Cons.prems(1) by (simp add: wellKeyed_def)
  note keeps = settleAt_keeps [OF dist, of ts i]
  have "wellKeyed (g_tasks ?g)"
    using Cons.prems(1) keeps(1)
      all_map_eq [OF keeps(2), of "\<lambda>d. distinct d \<and> set d \<subseteq> set (taskIds (g_tasks g))"]
    by (simp add: wellKeyed_def)
  moreover have "\<forall>t \<in> set (g_tasks ?g). cleanMetadata (t_metadata t)"
    using Cons.prems(2) all_map_eq [OF keeps(3), of cleanMetadata] by simp
  moreover have "set ids \<subseteq> set (taskIds (g_tasks ?g))" using Cons.prems(3) keeps(1) by simp
  ultimately obtain evs' where evs': "forS (reconcileTask ts) ids (p @ evs) ?g =
      (Inr ((p @ evs) @ evs'), ?g\<lparr>g_tasks := settleAll ts ids (g_tasks ?g)\<rparr>)"
    "replay ts evs' (g_tasks ?g) = settleAll ts ids (g_tasks ?g)" "length evs' \<le> length ids" "statusEvents evs'"
    using Cons.IH [of ?g "p @ evs"] by blast
  then show ?case
    using evs by (intro exI [of _ "evs @ evs'"]) (auto simp: settleAll_def statusEvents_def)
qed

lemma reconcilePendingTasks_run:
  assumes shape: "shapeOk (g_tasks g)" and clean: "\<forall>t \<in> set (g_tasks g). cleanMetadata (t_metadata t)"
  shows "\<exists>ids evs. topologicalTaskIds (g_tasks g) CYCLIC_DEPENDENCY GRAPH_LIMIT_EXCEEDED = Inr ids \<and>
    reconcilePendingTasks ts p g = (Inr (p @ evs), g\<lparr>g_tasks := settleAll ts ids (g_tasks g)\<rparr>) \<and>
    replay ts evs (g_tasks g) = settleAll ts ids (g_tasks g) \<and> length evs \<le> length (g_tasks g) \<and> statusEvents evs"
proof -
  have wk: "wellKeyed (g_tasks g)" and lay: "layered MAX_DEPTH (g_tasks g)"
    using shape by (simp_all add: shapeOk_def)
  obtain ids where ids: "topologicalTaskIds (g_tasks g) CYCLIC_DEPENDENCY GRAPH_LIMIT_EXCEEDED = Inr ids"
    using layered_topologicalTaskIds [OF wk lay] .
  note topo = topologicalTaskIds_Inr [OF wk ids]
  have "length ids = length (g_tasks g)" using topo(1) by (metis length_map mset_eq_length taskIds_def)
  then show ?thesis
    using reconcile_loop_run [OF wk clean, of ids ts p] topo(6) ids by (auto simp: reconcilePendingTasks_def)
qed

end
