(* ===== verification/Task_Graph_Lawful.thy ===== *)
theory Task_Graph_Lawful
  imports Task_Graph_Run
begin

text \<open>
  Every command of \<open>TaskGraph\<close> is lawful in a graph that satisfies the invariant, and a lawful
  command keeps the invariant.
\<close>

section \<open>A permitted change keeps the invariant\<close>

lemma numbered_sequences:
  "map e_sequence (numbered g ts n i ps) = [g_eventSequence g + 1 .. g_eventSequence g + int (length ps)]"
proof (induction ps arbitrary: g i)
  case Nil
  show ?case by (simp add: numbered_def)
next
  case (Cons p ps)
  have "map e_sequence (numbered g ts n i (p # ps)) = (g_eventSequence g + 1) #
      [g_eventSequence g + 1 + 1 .. g_eventSequence g + 1 + int (length ps)]"
    using Cons [of "g\<lparr>g_eventSequence := g_eventSequence g + 1\<rparr>" "Suc i"]
    by (simp add: numbered_Cons eventOf_def)
  also have "\<dots> = [g_eventSequence g + 1 .. g_eventSequence g + int (length (p # ps))]"
    by (subst upto_rec1) (simp_all add: algebra_simps)
  finally show ?case .
qed

lemma numbered_length [simp]: "length (numbered g ts n i ps) = length ps"
  by (simp add: numbered_def)

lemma numbered_bodies: "map e_body (numbered g ts n i ps) = ps"
  by (rule nth_equalityI) (simp_all add: numbered_def eventOf_def split_def nth_enumerate_eq)

lemma eventsOk_committed:
  assumes "eventsOk g"
  shows "eventsOk (committed ts previous evs g)"
proof -
  let ?all = "committedEvents ts previous evs g" and ?h = "g\<lparr>g_version := g_version g + 1, g_updatedAt := ts\<rparr>"
  let ?n = "int (length (g_events g))" and ?m = "int (length ?all)" and ?s = "g_eventSequence g"
  have "[?s - ?n + 1 .. ?s] @ [?s + 1 .. ?s + ?m] = [?s - ?n + 1 .. ?s + ?m]"
    using upto_split2 [of "?s - ?n + 1" ?s "?s + ?m"] by (cases "g_events g") simp_all
  then have "map e_sequence (g_events g @ numbered ?h ts (length ?all) 0 ?all) = [?s - ?n + 1 .. ?s + ?m]"
    using assms numbered_sequences [of ?h ts "length ?all" 0 ?all] by (simp add: eventsOk_def)
  then show ?thesis
    using assms by (simp add: committed_eq Let_def eventsOk_def algebra_simps)
qed

lemma changed_fields [simp]:
  "g_tasks (changed g ts T s evs) = T" "g_sealed (changed g ts T s evs) = s"
  "g_version (changed g ts T s evs) = g_version g + 1" "g_updatedAt (changed g ts T s evs) = ts"
  "g_createdAt (changed g ts T s evs) = g_createdAt g" "g_graphId (changed g ts T s evs) = g_graphId g"
  "g_projectId (changed g ts T s evs) = g_projectId g" "g_nextOrder (changed g ts T s evs) = int (length T)"
  "g_clockActive (changed g ts T s evs) = g_clockActive g"
  by (simp_all add: changed_def)

lemma changed_sequence:
  "g_eventSequence g + int (length evs) \<le> g_eventSequence (changed g ts T s evs)"
  "g_eventSequence (changed g ts T s evs) \<le> g_eventSequence g + int (length evs) + 1"
  using committedEvents_length [where evs = evs and ts = ts and previous = "calculateGraphStatus g"
      and g = "g\<lparr>g_tasks := T, g_sealed := s, g_nextOrder := int (length T)\<rparr>"]
  by (simp_all add: changed_def)

theorem graphInv_changed:
  assumes inv: "graphInv g" and ok: "changeOk g ts T s evs"
  shows "graphInv (changed g ts T s evs)"
proof -
  let ?g = "changed g ts T s evs"
  have "eventsOk ?g"
    unfolding changed_def using inv
    by (intro eventsOk_committed) (simp add: graphInv_def eventsOk_def)
  moreover have "g_version ?g \<le> g_eventSequence ?g"
  proof -
    have "1 \<le> length evs" using ok by (cases evs) (auto simp: changeOk_def)
    moreover have "g_version g \<le> g_eventSequence g" using inv by (simp add: graphInv_def)
    ultimately show ?thesis using changed_sequence(1) [where g = g and evs = evs and ts = ts and T = T and s = s] by simp
  qed
  moreover have "g_eventSequence ?g \<le> MAX_SEQUENCE"
  proof -
    have "int (length evs) \<le> int MAX_TASKS + 2" "g_eventSequence g \<le> MAX_SEQUENCE - maximumEventsForCommand"
      using ok by (simp_all add: changeOk_def)
    then show ?thesis
      using changed_sequence(2) [where g = g and evs = evs and ts = ts and T = T and s = s] unfolding maximumEventsForCommand_def by linarith
  qed
  moreover have "stampLe (g_createdAt ?g) (g_updatedAt ?g)"
    using inv ok stampLe_trans unfolding graphInv_def changeOk_def changed_fields by blast
  moreover have "2 \<le> g_version ?g" if "g_sealed ?g"
    using that inv ok by (auto simp: graphInv_def changeOk_def)
  ultimately show ?thesis
    using inv ok unfolding graphInv_def changeOk_def by simp
qed

section \<open>Changes of status\<close>

lemma all_same_definition: "list_all2 (advances ts) T T' \<Longrightarrow> list_all2 sameDefinition T T'"
  by (erule list_all2_mono) (rule advances_same)

lemma tasksInv_advance:
  assumes inv: "tasksInv sealed c u T" and adv: "list_all2 (advances ts) T T'"
    and clean: "\<forall>t \<in> set T'. cleanTask t" and states: "statesOk sealed' T'"
    and le: "stampLe u ts" and mem: "ts \<in> t_updatedAt ` set T'"
  shows "tasksInv sealed' c ts T'"
proof -
  have "shapeOk T'" using shapeOk_same [OF all_same_definition [OF adv]] inv by (simp add: tasksInv_def)
  moreover have "stampLe c (t_createdAt b) \<and> stampLe (t_createdAt b) (t_updatedAt b) \<and> stampLe (t_updatedAt b) ts"
    if b: "b \<in> set T'" for b
  proof -
    obtain a where a: "a \<in> set T" "advances ts a b" using list_all2_set2 [OF adv b] by blast
    then have st: "stampLe c (t_createdAt a)" "stampLe (t_createdAt a) (t_updatedAt a)" "stampLe (t_updatedAt a) u"
      using inv by (simp_all add: tasksInv_def stampsOk_def)
    then have "stampLe (t_createdAt a) ts" "stampLe (t_updatedAt a) ts" using le stampLe_trans by blast+
    moreover have "b = a \<or> t_createdAt b = t_createdAt a \<and> t_updatedAt b = ts"
      using a(2) by (auto simp: advances_def sameDefinition_def)
    ultimately show ?thesis using st by auto
  qed
  ultimately show ?thesis
    using clean states mem by (auto simp: tasksInv_def stampsOk_def)
qed

lemma changed_status:
  assumes "graphInv g" and "g_sealed g" and "length T = length (g_tasks g)"
  shows "changed g ts T True evs = committed ts (calculateGraphStatus g) evs (g\<lparr>g_tasks := T\<rparr>)"
proof -
  have "g\<lparr>g_tasks := T, g_sealed := True, g_nextOrder := int (length T)\<rparr> = g\<lparr>g_tasks := T\<rparr>"
    using assms by (cases g) (simp add: graphInv_def)
  then show ?thesis by (simp add: changed_def)
qed

text \<open>What the guards of a command establish before it mutates.\<close>

definition admitted :: "graph \<Rightarrow> string \<Rightarrow> bool" where
  "admitted g ts \<longleftrightarrow> canonicalTimestamp ts \<and> stampLe (g_updatedAt g) ts \<and>
     g_version g < MAX_SEQUENCE \<and> g_eventSequence g \<le> MAX_SEQUENCE - maximumEventsForCommand"

lemma changeOk_status:
  assumes inv: "graphInv g" and sealed: "g_sealed g" and adm: "admitted g ts"
    and adv: "list_all2 (advances ts) (g_tasks g) T" and clean: "\<forall>t \<in> set T. cleanTask t"
    and states: "statesOk True T" and mem: "ts \<in> t_updatedAt ` set T"
    and evs: "replay ts evs (g_tasks g) = T" "evs \<noteq> []" "length evs \<le> MAX_TASKS + 2" "statusEvents evs"
  shows "changeOk g ts T True evs"
proof -
  have "tasksInv True (g_createdAt g) ts T"
    using inv sealed adm by (intro tasksInv_advance [OF _ adv clean states _ mem]) (auto simp: graphInv_def admitted_def)
  moreover have "T \<noteq> []" "g_tasks g \<noteq> []" using mem adv by auto
  moreover have "length T = length (g_tasks g)" using adv by (simp add: list_all2_lengthD)
  ultimately show ?thesis
    using sealed adm adv evs statusEvents_no_add [OF evs(4)]
    by (simp add: changeOk_def admitted_def tasksEvolve_def)
qed

text \<open>Ends that reconcile.\<close>

lemma settled_clean: "cleanTask t \<Longrightarrow> canonicalTimestamp ts \<Longrightarrow> cleanTask (settled ts T t)"
proof -
  assume t: "cleanTask t" and ts: "canonicalTimestamp ts"
  have "cleanIds MAX_DEPENDENCIES_PER_TASK (failedDependencies T t)"
    using t by (auto simp: cleanTask_def cleanIds_def failedDependencies_def list_all_iff intro: le_trans [OF length_filter_le])
  then show ?thesis using t ts by (simp add: settled_def cleanTask_def cleanIds_def)
qed

lemma settleAll_clean:
  assumes "canonicalTimestamp ts" and "\<forall>t \<in> set T. cleanTask t"
  shows "\<forall>t \<in> set (settleAll ts ids T). cleanTask t"
  using assms(2) unfolding settleAll_def
proof (induction ids arbitrary: T)
  case Nil
  then show ?case by simp
next
  case (Cons i ids)
  have "\<forall>t \<in> set (settleAt ts i T). cleanTask t"
  proof (cases "findTask T i")
    case None
    then show ?thesis using Cons.prems by (simp add: settleAt_def)
  next
    case (Some t)
    then have "t \<in> set T" by (auto simp: findTask_def find_Some_iff)
    then show ?thesis
      using Cons.prems settled_clean [OF _ assms(1)] by (auto simp: settleAt_def Some replaceBy_set)
  qed
  then show ?case using Cons.IH by simp
qed

lemma settleAt_keeps_member:
  assumes "distinct (taskIds T)" and "x \<in> set T" and "t_status x \<noteq> Pending"
  shows "x \<in> set (settleAt ts i T)"
proof (cases "findTask T i")
  case None
  then show ?thesis using assms by (simp add: settleAt_def)
next
  case (Some t)
  then have t: "t \<in> set T" "t_id t = i" using findTask_Some_iff [OF assms(1)] by simp_all
  show ?thesis
  proof (cases "t = x")
    case True
    then show ?thesis using assms t by (auto simp: settleAt_def Some replaceBy_set settled_def)
  next
    case False
    then have "t_id x \<noteq> t_id t" using assms t by (auto simp: taskIds_def dest: distinct_map_inj_on_eq)
    then show ?thesis using assms(2) by (simp add: settleAt_def Some replaceBy_set)
  qed
qed

lemma settleAll_keeps_member:
  "distinct (taskIds T) \<Longrightarrow> x \<in> set T \<Longrightarrow> t_status x \<noteq> Pending \<Longrightarrow> x \<in> set (settleAll ts ids T)"
  unfolding settleAll_def
  by (induction ids arbitrary: T) (simp_all add: settleAt_keeps_member settleAt_keeps)

lemma advances_compose_terminal:
  assumes "list_all2 (\<lambda>a b. b = a \<or> advances ts a b \<and> terminal (t_status b)) T T1" and "list_all2 (advances ts) T1 T2"
  shows "list_all2 (advances ts) T T2"
  using assms(1,2)
  by (rule list_all2_trans [rotated 1]) (use advances_terminal in blast)

lemma finishTask_run:
  assumes inv: "graphInv g" and sealed: "g_sealed g" and adm: "admitted g ts"
    and t: "t \<in> set (g_tasks g)" and same: "sameDefinition t x" "t_status x = t_status t"
    and legal: "legalStatus (t_status t) target" "terminal target"
    and x: "x' = x\<lparr>t_status := target, t_updatedAt := ts\<rparr>" "cleanTask x'" "outcomeOk (g_tasks g) x'"
  shows "\<exists>T evs ids. finishTask x target ts r g = (Inr x', changed g ts T True evs) \<and> changeOk g ts T True evs \<and>
    x' \<in> set T \<and> T = settleAll ts ids (replaceBy t_id x' (g_tasks g)) \<and>
    topologicalTaskIds (replaceBy t_id x' (g_tasks g)) CYCLIC_DEPENDENCY GRAPH_LIMIT_EXCEEDED = Inr ids"
proof -
  have shape: "shapeOk (g_tasks g)" and cleanT: "\<forall>t \<in> set (g_tasks g). cleanTask t"
    using inv by (simp_all add: graphInv_def tasksInv_def)
  have dist: "distinct (taskIds (g_tasks g))" using shape by (simp add: shapeOk_def wellKeyed_def)
  have ids: "t_id x = t_id t" "t_id x' = t_id t" using same(1) by (simp_all add: x(1) sameDefinition_def)
  let ?T1 = "replaceBy t_id x' (g_tasks g)"
  let ?e = "TaskStatusChanged (t_id t) (t_status t) target r x'"
  have adv: "advances ts t x'"
    using same legal(1) unfolding advances_def x(1) by (simp add: sameDefinition_def)
  have adv1: "list_all2 (advances ts) (g_tasks g) ?T1"
    by (rule replaceBy_related [where R = "advances ts", OF dist t ids(2) adv]) simp
  have adv1': "list_all2 (\<lambda>a b. b = a \<or> advances ts a b \<and> terminal (t_status b)) (g_tasks g) ?T1"
    by (rule replaceBy_related [where R = "\<lambda>a b. b = a \<or> advances ts a b \<and> terminal (t_status b)", OF dist t ids(2)])
      (use adv legal(2) in \<open>simp_all add: x(1)\<close>)
  have set1: "u = x' \<or> u \<in> set (g_tasks g)" if "u \<in> set ?T1" for u using that by (auto simp: replaceBy_set)
  have mem1: "x' \<in> set ?T1" using t ids(2) by (auto simp: replaceBy_set)
  have shape1: "shapeOk ?T1" by (rule shapeOk_same [OF all_same_definition [OF adv1] shape])
  have clean1: "\<forall>u \<in> set ?T1. cleanTask u" using cleanT x(2) set1 by blast
  have sts: "\<forall>u \<in> set (g_tasks g). outcomeOk (g_tasks g) u"
    using inv sealed by (simp add: graphInv_def tasksInv_def statesOk_def)
  have out1: "\<forall>u \<in> set ?T1. outcomeOk ?T1 u"
    using outcomeOk_advances [OF adv1] sts x(3) set1 by blast
  let ?g1 = "g\<lparr>g_tasks := ?T1\<rparr>"
  have put: "bindS (putTask x) (\<lambda>_. setTaskStatus (t_id t) target ts r []) g = (Inr [?e], ?g1)"
  proof -
    have "cleanMetadata (t_metadata x)" using x(2) by (simp add: x(1) cleanTask_def)
    then show ?thesis
      using put_setTaskStatus_run [OF dist t ids(1), of target ts r "[]"] same(2) by (simp add: x(1))
  qed
  obtain order evs where order: "topologicalTaskIds ?T1 CYCLIC_DEPENDENCY GRAPH_LIMIT_EXCEEDED = Inr order"
    and rec: "reconcilePendingTasks ts [?e] ?g1 = (Inr ([?e] @ evs), ?g1\<lparr>g_tasks := settleAll ts order ?T1\<rparr>)"
    and evs: "replay ts evs ?T1 = settleAll ts order ?T1" "length evs \<le> length ?T1" "statusEvents evs"
    using reconcilePendingTasks_run [of ?g1 ts "[?e]"] shape1 clean1 by (auto simp: cleanTask_def)
  let ?T = "settleAll ts order ?T1"
  note settle = settleAll_correct [OF shape1 out1 order, of ts]
  have advT: "list_all2 (advances ts) (g_tasks g) ?T"
    by (rule advances_compose_terminal [OF adv1' settle(1)])
  have cleanT': "\<forall>u \<in> set ?T. cleanTask u"
    by (rule settleAll_clean [OF _ clean1]) (use adm in \<open>simp add: admitted_def\<close>)
  have memT: "x' \<in> set ?T"
    using settleAll_keeps_member [OF _ mem1] dist legal(2) by (auto simp: x(1))
  have lenT: "length ?T = length (g_tasks g)" using advT by (simp add: list_all2_lengthD)
  have distT: "distinct (taskIds ?T)" using dist same_ids [OF all_same_definition [OF advT]] by simp
  have "g_tasks (changed g ts ?T True (?e # evs)) = ?T" by simp
  then have copy: "copyHeldTask (t_id t) (changed g ts ?T True (?e # evs)) = (Inr x', changed g ts ?T True (?e # evs))"
    using copyHeldTask_run [of "changed g ts ?T True (?e # evs)" x'] distT memT ids(2) x(2) by (simp add: cleanTask_def)
  have "finishTask x target ts r g =
      bindS (bindS (putTask x) (\<lambda>_. setTaskStatus (t_id t) target ts r [])) (\<lambda>pendingEvents.
      bindS (reconcilePendingTasks ts pendingEvents) (\<lambda>pendingEvents.
      bindS (commit ts (calculateGraphStatus g) pendingEvents) (\<lambda>_.
      copyHeldTask (t_id t)))) g"
    by (simp add: finishTask_def putTask_def modifyS_def bindS_def ids(1))
  also have "\<dots> = (Inr x', changed g ts ?T True (?e # evs))"
    using copy by (simp add: put rec commit_run changed_status [OF inv sealed lenT])
  finally have run: "finishTask x target ts r g = (Inr x', changed g ts ?T True (?e # evs))" .
  have "changeOk g ts ?T True (?e # evs)"
  proof (rule changeOk_status [OF inv sealed adm advT cleanT' settle(2)])
    show "ts \<in> t_updatedAt ` set ?T" using memT by (force simp: x(1))
    show "replay ts (?e # evs) (g_tasks g) = ?T" using evs(1) by (simp add: replay_def)
    show "length (?e # evs) \<le> MAX_TASKS + 2" using evs(2) shape by (simp add: shapeOk_def)
    show "statusEvents (?e # evs)" using evs(3) by (simp add: statusEvents_def)
  qed simp
  then show ?thesis using run memT order by blast
qed

text \<open>A live task stays live: nothing that depends on it changes.\<close>

lemma live_dependencies:
  assumes "\<And>i. statusIn xs i = statusIn ys i \<or>
    (\<exists>a b. statusIn xs i = Some a \<and> statusIn ys i = Some b \<and> \<not> terminal a \<and> \<not> terminal b)"
  shows "allSucceeded ys t = allSucceeded xs t" and "failedDependencies ys t = failedDependencies xs t"
proof -
  have "(statusIn ys d = Some Succeeded) = (statusIn xs d = Some Succeeded)" for d
    using assms [of d] by auto
  then show "allSucceeded ys t = allSucceeded xs t" by (simp add: allSucceeded_def)
  have "(case statusIn ys d of Some s \<Rightarrow> unsuccessful s | None \<Rightarrow> False) =
      (case statusIn xs d of Some s \<Rightarrow> unsuccessful s | None \<Rightarrow> False)" for d
    using assms [of d] by auto
  then show "failedDependencies ys t = failedDependencies xs t" by (simp add: failedDependencies_def)
qed

lemma transition_run:
  fixes r :: "string option"
  assumes inv: "graphInv g" and sealed: "g_sealed g" and adm: "admitted g ts"
    and t: "t \<in> set (g_tasks g)" and legal: "legalStatus (t_status t) target"
    and target: "target \<in> {Running, Waiting, NeedsResolution}"
    and x: "x = t\<lparr>t_status := target, t_updatedAt := ts\<rparr>"
  defines "e \<equiv> TaskStatusChanged (t_id t) (t_status t) target r x"
    and "T \<equiv> replaceBy t_id x (g_tasks g)"
  shows "moveTask t target ts r g = (Inr x, changed g ts T True [e])"
    and "changeOk g ts T True [e]" and "x \<in> set T"
proof -
  have shape: "shapeOk (g_tasks g)" and cleanT: "\<forall>t \<in> set (g_tasks g). cleanTask t"
    and states: "statesOk True (g_tasks g)"
    using inv sealed by (simp_all add: graphInv_def tasksInv_def)
  have dist: "distinct (taskIds (g_tasks g))" using shape by (simp add: shapeOk_def wellKeyed_def)
  have adv: "advances ts t x" using legal by (simp add: advances_def x sameDefinition_def)
  have advT: "list_all2 (advances ts) (g_tasks g) T"
    unfolding T_def by (rule replaceBy_related [where R = "advances ts", OF dist t _ adv]) (simp_all add: x)
  show mem: "x \<in> set T" using t by (auto simp: T_def x replaceBy_set)
  have lenT: "length T = length (g_tasks g)" using advT by (simp add: list_all2_lengthD)
  have distT: "distinct (taskIds T)" using dist by (simp add: T_def)
  have cleanx: "cleanTask x" using cleanT t adm by (simp add: x cleanTask_def admitted_def)
  have setT: "u = x \<or> u \<in> set (g_tasks g)" if "u \<in> set T" for u using that by (auto simp: T_def replaceBy_set)
  have live: "t_status t \<in> {Ready, Running, Waiting, NeedsResolution}"
    using legal target by (cases "t_status t") auto
  have st: "statusIn (g_tasks g) i = statusIn T i \<or>
    (\<exists>a b. statusIn (g_tasks g) i = Some a \<and> statusIn T i = Some b \<and> \<not> terminal a \<and> \<not> terminal b)" for i
    unfolding T_def using t live target statusIn_task [OF dist t]
    by (subst (1 2) statusIn_replaceBy) (auto simp: x taskIds_def)
  note deps = live_dependencies [OF st]
  have xdeps: "allSucceeded (g_tasks g) x = allSucceeded (g_tasks g) t" by (simp add: x allSucceeded_def)
  have "outcomeOk T u \<and> reconciled T u" if "u \<in> set T" for u
  proof (cases "u = x")
    case True
    have old: "outcomeOk (g_tasks g) t" using states t by (simp add: statesOk_def)
    have fields: "t_status x = target" "t_blockedBy x = t_blockedBy t" "t_failure x = t_failure t"
      "t_outputArtifactIds x = t_outputArtifactIds t" by (simp_all add: x)
    have "target \<noteq> Pending" "target \<noteq> Blocked" "target \<noteq> Failed" "target \<noteq> Succeeded"
      "t_status t \<noteq> Blocked" "t_status t \<noteq> Failed" "t_status t \<noteq> Succeeded"
      using target live by auto
    then show ?thesis
      using old live unfolding True outcomeOk_def reconciled_def deps xdeps fields by (simp, blast)
  next
    case False
    then show ?thesis using setT [OF that] states by (simp add: statesOk_def outcomeOk_def reconciled_def deps)
  qed
  then have statesT: "statesOk True T" by (simp add: statesOk_def)
  show "changeOk g ts T True [e]"
  proof (rule changeOk_status [OF inv sealed adm advT _ statesT])
    show "\<forall>u \<in> set T. cleanTask u" using setT cleanT cleanx by blast
    show "ts \<in> t_updatedAt ` set T" using mem by (force simp: x)
    show "replay ts [e] (g_tasks g) = T" by (simp add: replay_def e_def T_def)
    show "statusEvents [e]" by (simp add: statusEvents_def e_def)
  qed simp_all
  have "setTaskStatus (t_id t) target ts r [] g = (Inr [e], g\<lparr>g_tasks := T\<rparr>)"
    using setTaskStatus_run [OF dist t, of target ts r "[]"] cleanT t by (simp add: cleanTask_def e_def T_def x)
  moreover have "copyHeldTask (t_id t) (changed g ts T True [e]) = (Inr x, changed g ts T True [e])"
    using copyHeldTask_run [of "changed g ts T True [e]" x] distT mem cleanx by (simp add: x cleanTask_def)
  ultimately show "moveTask t target ts r g = (Inr x, changed g ts T True [e])"
    by (simp add: moveTask_def commit_run changed_status [OF inv sealed lenT])
qed

text \<open>\<open>cancelRemaining\<close> cancels every task that is not terminal.\<close>

definition cancelledAt :: "string \<Rightarrow> task \<Rightarrow> task" where
  "cancelledAt ts t = t\<lparr>t_failure := None, t_outputArtifactIds := [], t_blockedBy := [],
     t_status := Cancelled, t_updatedAt := ts\<rparr>"

lemma orderedTasks_id: "graphInv g \<Longrightarrow> orderedTasks g = g_tasks g"
proof -
  assume "graphInv g"
  then have "map t_order (g_tasks g) = map int [0..<length (g_tasks g)]"
    by (simp add: graphInv_def tasksInv_def shapeOk_def)
  then have "sorted (map t_order (g_tasks g))" by (simp add: sorted_wrt_map sorted_wrt_upt)
  then show ?thesis unfolding orderedTasks_def by (rule sort_key_id_if_sorted)
qed

lemma cancel_loop_run:
  assumes "distinct (taskIds (g_tasks g))" and "distinct (taskIds cs)" and "set cs \<subseteq> set (g_tasks g)"
    and "\<forall>t \<in> set cs. cleanMetadata (t_metadata t)"
  shows "\<exists>evs. forS (\<lambda>task pendingEvents.
      bindS (putTask (task\<lparr>t_failure := None, t_outputArtifactIds := [], t_blockedBy := []\<rparr>)) (\<lambda>_.
      setTaskStatus (t_id task) Cancelled ts r pendingEvents)) cs p g =
      (Inr (p @ evs), g\<lparr>g_tasks := fold (\<lambda>t. replaceBy t_id (cancelledAt ts t)) cs (g_tasks g)\<rparr>) \<and>
    replay ts evs (g_tasks g) = fold (\<lambda>t. replaceBy t_id (cancelledAt ts t)) cs (g_tasks g) \<and>
    length evs = length cs \<and> statusEvents evs"
  using assms
proof (induction cs arbitrary: p g)
  case Nil
  show ?case by (intro exI [of _ "[]"]) (simp add: statusEvents_def)
next
  case (Cons t cs)
  let ?u = "t\<lparr>t_failure := None, t_outputArtifactIds := [], t_blockedBy := []\<rparr>"
  let ?e = "TaskStatusChanged (t_id t) (t_status t) Cancelled r (cancelledAt ts t)"
  let ?g = "g\<lparr>g_tasks := replaceBy t_id (cancelledAt ts t) (g_tasks g)\<rparr>"
  have step: "bindS (putTask ?u) (\<lambda>_. setTaskStatus (t_id t) Cancelled ts r p) g = (Inr (p @ [?e]), ?g)"
    using put_setTaskStatus_run [OF Cons.prems(1), of t ?u Cancelled ts r p] Cons.prems(3,4) by (simp add: cancelledAt_def)
  have "set cs \<subseteq> set (g_tasks ?g)"
  proof
    fix u assume u: "u \<in> set cs"
    then have "t_id u \<noteq> t_id t" using Cons.prems(2) by (auto simp: taskIds_def image_iff)
    then show "u \<in> set (g_tasks ?g)" using u Cons.prems(3) by (auto simp: replaceBy_set cancelledAt_def)
  qed
  then obtain evs where evs: "forS (\<lambda>task pendingEvents.
      bindS (putTask (task\<lparr>t_failure := None, t_outputArtifactIds := [], t_blockedBy := []\<rparr>)) (\<lambda>_.
      setTaskStatus (t_id task) Cancelled ts r pendingEvents)) cs (p @ [?e]) ?g =
      (Inr ((p @ [?e]) @ evs), ?g\<lparr>g_tasks := fold (\<lambda>t. replaceBy t_id (cancelledAt ts t)) cs (g_tasks ?g)\<rparr>)"
    "replay ts evs (g_tasks ?g) = fold (\<lambda>t. replaceBy t_id (cancelledAt ts t)) cs (g_tasks ?g)"
    "length evs = length cs" "statusEvents evs"
    using Cons.IH [of ?g "p @ [?e]"] Cons.prems by (auto simp: taskIds_def)
  have "replay ts (?e # evs) (g_tasks g) = replay ts evs (g_tasks ?g)" by (simp add: replay_def)
  then show ?case
    using evs step by (intro exI [of _ "?e # evs"]) (auto simp: statusEvents_def)
qed

lemma fold_replaceBy_map:
  assumes "distinct (taskIds cs)" and "distinct (taskIds T)" and "set cs \<subseteq> set T" and "\<And>t. t_id (f t) = t_id t"
  shows "fold (\<lambda>t. replaceBy t_id (f t)) cs T = map (\<lambda>t. if t_id t \<in> set (taskIds cs) then f t else t) T"
  using assms(1,3)
proof (induction cs rule: rev_induct)
  case Nil
  show ?case by (simp add: taskIds_def)
next
  case (snoc c cs)
  have c: "c \<in> set T" using snoc.prems by simp
  have "fold (\<lambda>t. replaceBy t_id (f t)) cs T = map (\<lambda>t. if t_id t \<in> set (taskIds cs) then f t else t) T"
    using snoc by (simp add: taskIds_def)
  then have "fold (\<lambda>t. replaceBy t_id (f t)) (cs @ [c]) T =
      map (\<lambda>t. if t_id t = t_id c then f c else if t_id t \<in> set (taskIds cs) then f t else t) T"
    by (simp add: replaceBy_def assms(4) comp_def if_distrib [of t_id])
  also have "\<dots> = map (\<lambda>t. if t_id t \<in> set (taskIds (cs @ [c])) then f t else t) T"
  proof (rule map_cong [OF refl])
    fix t assume "t \<in> set T"
    then have "t_id t = t_id c \<Longrightarrow> t = c" using c assms(2) by (auto simp: taskIds_def dest: distinct_map_inj_on_eq)
    then show "(if t_id t = t_id c then f c else if t_id t \<in> set (taskIds cs) then f t else t) =
        (if t_id t \<in> set (taskIds (cs @ [c])) then f t else t)"
      by (auto simp: taskIds_def)
  qed
  finally show ?case .
qed

section \<open>The execution commands are lawful\<close>

lemma queryAt_requireTask [simp, intro]: "queryAt (checkS (requireTask v)) g"
  by simp

lemma admittedI:
  assumes "graphInv g" and "assertExpectedVersion v g = (Inr u, g)" and "readTimestamp clock g = (Inr ts, g)"
  shows "admitted g ts"
  using assertExpectedVersion_Inr [OF assms(2)] readTimestamp_Inr [OF _ assms(3)] assms(1)
  by (simp add: admitted_def graphInv_def)

lemma graphInvD:
  assumes "graphInv g"
  shows "\<not> g_clockActive g" and "wellKeyed (g_tasks g)" and "distinct (taskIds (g_tasks g))"
    and "shapeOk (g_tasks g)" and "t \<in> set (g_tasks g) \<Longrightarrow> cleanTask t"
    and "statesOk (g_sealed g) (g_tasks g)"
  using assms by (simp_all add: graphInv_def tasksInv_def shapeOk_def wellKeyed_def)

lemma checkS_Inr [simp]: "checkS f s = (Inr a, t) \<longleftrightarrow> f s = Inr a \<and> t = s"
  by auto

lemma liftS_Inr [simp]: "liftS r s = (Inr a, t) \<longleftrightarrow> r = Inr a \<and> t = s"
  by auto

lemma assertExecution_Inr [simp]: "assertExecution g = (Inr u, g') \<longleftrightarrow> g_sealed g \<and> g' = g"
  by (auto simp: assertExecution_def)

lemma assertPlanning_Inr [simp]: "assertPlanning g = (Inr u, g') \<longleftrightarrow> \<not> g_sealed g \<and> g' = g"
  by (auto simp: assertPlanning_def)

lemma assertTransition_Inr [simp]: "assertTransition t from = Inr u \<longleftrightarrow> t_status t \<in> set from"
  by (simp add: assertTransition_def)

lemma lawful_bind_query2:
  "queryAt m g \<Longrightarrow> (\<And>a b. m g = (Inr (a, b), g) \<Longrightarrow> lawful (f a b) g) \<Longrightarrow> lawful (bindS m (\<lambda>(a, b). f a b)) g"
  by (rule lawful_bind_query) auto

lemma lawful_bind_query3:
  "queryAt m g \<Longrightarrow> (\<And>a b c. m g = (Inr (a, b, c), g) \<Longrightarrow> lawful (f a b c) g) \<Longrightarrow>
     lawful (bindS m (\<lambda>(a, b, c). f a b c)) g"
  by (rule lawful_bind_query) auto

lemmas lawful_guards = lawful_bind_query3 lawful_bind_query2 lawful_bind_query queryAt_guards queryAt_prims
  queryAt_requireTask queryAt_readTimestamp

lemma performTransition_lawful:
  assumes inv: "graphInv g" and allowed: "\<And>s. s \<in> set allowed \<Longrightarrow> legalStatus s target"
    and target: "target \<in> {Running, Waiting, NeedsResolution}"
  shows "lawful (performTransition v allowed target options clock) g"
  unfolding performTransition_def
proof (intro lawful_guards graphInvD(1) [OF inv])
  fix u1 u2 expectedVersion reason u3 t u4 ts
  assume "assertExecution g = (Inr u2, g)" and "checkS (requireTask v) g = (Inr t, g)"
    and "liftS (assertTransition t allowed) g = (Inr u4, g)"
    and guards: "assertExpectedVersion expectedVersion g = (Inr u3, g)" "readTimestamp clock g = (Inr ts, g)"
  then have t: "g_sealed g" "t \<in> set (g_tasks g)" "legalStatus (t_status t) target"
    using allowed requireTask_Inr [OF graphInvD(2) [OF inv]] by auto
  note run = transition_run(1,2) [OF inv t(1) admittedI [OF inv guards] t(2,3) target refl, of reason]
  show "lawful (moveTask t target ts reason) g" using run by (rule lawful_change)
qed

lemma outcomeOk_fields:
  assumes "allSucceeded T t"
  shows "t_status x \<in> {Succeeded, Failed, Cancelled} \<Longrightarrow> t_dependencies x = t_dependencies t \<Longrightarrow> t_blockedBy x = [] \<Longrightarrow>
    (t_status x = Failed \<longleftrightarrow> t_failure x \<noteq> None) \<Longrightarrow> (t_status x \<noteq> Succeeded \<longrightarrow> t_outputArtifactIds x = []) \<Longrightarrow>
    outcomeOk T x"
  using assms by (auto simp: outcomeOk_def allSucceeded_def)

lemma live_allSucceeded:
  assumes "graphInv g" and "g_sealed g" and "t \<in> set (g_tasks g)"
    and "t_status t \<in> {Ready, Running, Waiting, NeedsResolution}"
  shows "allSucceeded (g_tasks g) t"
  using assms graphInvD(6) [OF assms(1)] by (auto simp: statesOk_def outcomeOk_def)

text \<open>What \<open>finishTask\<close> does when a live task ends.\<close>

lemma finish_live_run:
  assumes inv: "graphInv g" and sealed: "g_sealed g" and adm: "admitted g ts" and t: "t \<in> set (g_tasks g)"
    and legal: "legalStatus (t_status t) target" and target: "target \<in> {Succeeded, Failed, Cancelled}"
    and pend: "t_status t = Pending \<longrightarrow> target = Cancelled"
    and outs: "cleanIds MAX_OUTPUT_ARTIFACTS_PER_TASK outs" "target \<noteq> Succeeded \<longrightarrow> outs = []"
    and fl: "pred_option cleanFailure fl" "target = Failed \<longleftrightarrow> fl \<noteq> None"
  defines "x \<equiv> t\<lparr>t_outputArtifactIds := outs, t_failure := fl, t_blockedBy := []\<rparr>"
  shows "\<exists>T evs ids. finishTask x target ts r g = (Inr (x\<lparr>t_status := target, t_updatedAt := ts\<rparr>), changed g ts T True evs) \<and>
    changeOk g ts T True evs \<and> x\<lparr>t_status := target, t_updatedAt := ts\<rparr> \<in> set T \<and>
    T = settleAll ts ids (replaceBy t_id (x\<lparr>t_status := target, t_updatedAt := ts\<rparr>) (g_tasks g)) \<and>
    topologicalTaskIds (replaceBy t_id (x\<lparr>t_status := target, t_updatedAt := ts\<rparr>) (g_tasks g))
      CYCLIC_DEPENDENCY GRAPH_LIMIT_EXCEEDED = Inr ids"
proof (rule finishTask_run [OF inv sealed adm t _ _ legal _ refl])
  show "sameDefinition t x" "t_status x = t_status t" by (simp_all add: x_def sameDefinition_def)
  show "terminal target" using target by auto
  show "cleanTask (x\<lparr>t_status := target, t_updatedAt := ts\<rparr>)"
    using graphInvD(5) [OF inv t] adm outs(1) fl(1) by (simp add: x_def cleanTask_def cleanIds_def admitted_def)
  show "outcomeOk (g_tasks g) (x\<lparr>t_status := target, t_updatedAt := ts\<rparr>)"
  proof (cases "target = Cancelled")
    case True
    then show ?thesis using outs(2) fl(2) by (simp add: x_def outcomeOk_def)
  next
    case False
    then have "t_status t \<in> {Ready, Running, Waiting, NeedsResolution}"
      using legal pend by (cases "t_status t") auto
    then have "allSucceeded (g_tasks g) t" by (rule live_allSucceeded [OF inv sealed t])
    then show ?thesis using target outs(2) fl(2) by (intro outcomeOk_fields) (auto simp: x_def)
  qed
qed

lemma finish_lawful:
  assumes "graphInv g" and "g_sealed g" and "admitted g ts" and "t \<in> set (g_tasks g)"
    and "legalStatus (t_status t) target" and "target \<in> {Succeeded, Failed, Cancelled}"
    and "t_status t = Pending \<longrightarrow> target = Cancelled"
    and "cleanIds MAX_OUTPUT_ARTIFACTS_PER_TASK outs" "target \<noteq> Succeeded \<longrightarrow> outs = []"
    and "pred_option cleanFailure fl" "target = Failed \<longleftrightarrow> fl \<noteq> None"
  shows "lawful (finishTask (t\<lparr>t_outputArtifactIds := outs, t_failure := fl, t_blockedBy := []\<rparr>) target ts r) g"
  using finish_live_run [OF assms, of r] by (elim exE conjE) (rule lawful_change)

lemma succeedTask_lawful:
  assumes inv: "graphInv g"
  shows "lawful (succeedTask v options clock) g"
  unfolding succeedTask_def
proof (intro lawful_guards graphInvD(1) [OF inv])
  fix u1 u2 expectedVersion reason outputs u3 t u4 outs ts
  assume "assertExecution g = (Inr u2, g)" and "checkS (requireTask v) g = (Inr t, g)"
    and "liftS (assertTransition t [Running]) g = (Inr u4, g)"
    and outs: "liftS (parseUniqueIdentifiers outputs INVALID_ARGUMENT MAX_OUTPUT_ARTIFACTS_PER_TASK) g = (Inr outs, g)"
    and guards: "assertExpectedVersion expectedVersion g = (Inr u3, g)" "readTimestamp clock g = (Inr ts, g)"
  then have t: "g_sealed g" "t \<in> set (g_tasks g)" "t_status t = Running"
    using requireTask_Inr [OF graphInvD(2) [OF inv]] by auto
  have "cleanIds MAX_OUTPUT_ARTIFACTS_PER_TASK outs"
    using outs parseUniqueIdentifiers_Inr by (simp add: cleanIds_def)
  then show "lawful (finishTask (t\<lparr>t_outputArtifactIds := outs, t_failure := None, t_blockedBy := []\<rparr>) Succeeded ts reason) g"
    by (intro finish_lawful [OF inv t(1) admittedI [OF inv guards] t(2)]) (simp_all add: t(3))
qed

lemma outcome_swap:
  "t\<lparr>t_failure := fl, t_outputArtifactIds := outs, t_blockedBy := b\<rparr> =
   t\<lparr>t_outputArtifactIds := outs, t_failure := fl, t_blockedBy := b\<rparr>"
  by simp

lemma failTask_lawful:
  assumes inv: "graphInv g"
  shows "lawful (failTask v failure options clock) g"
  unfolding failTask_def
proof (intro lawful_guards graphInvD(1) [OF inv])
  fix u1 u2 expectedVersion reason u3 t u4 fl ts
  assume "assertExecution g = (Inr u2, g)" and "checkS (requireTask v) g = (Inr t, g)"
    and "liftS (assertTransition t [Ready, Running, Waiting, NeedsResolution]) g = (Inr u4, g)"
    and fl: "liftS (parseFailure failure INVALID_ARGUMENT) g = (Inr fl, g)"
    and guards: "assertExpectedVersion expectedVersion g = (Inr u3, g)" "readTimestamp clock g = (Inr ts, g)"
  then have t: "g_sealed g" "t \<in> set (g_tasks g)" "t_status t \<in> {Ready, Running, Waiting, NeedsResolution}"
    using requireTask_Inr [OF graphInvD(2) [OF inv]] by auto
  have "cleanFailure fl" using fl parseFailure_Inr by simp
  then show "lawful (finishTask (t\<lparr>t_failure := Some fl, t_outputArtifactIds := [], t_blockedBy := []\<rparr>) Failed ts
      (case reason of None \<Rightarrow> Some (f_message fl) | Some r \<Rightarrow> Some r)) g"
    unfolding outcome_swap using t(3)
    by (intro finish_lawful [OF inv t(1) admittedI [OF inv guards] t(2)]) (auto simp: cleanIds_def)
qed

lemma cancelTask_lawful:
  assumes inv: "graphInv g"
  shows "lawful (cancelTask v options clock) g"
  unfolding cancelTask_def
proof (intro lawful_guards graphInvD(1) [OF inv])
  fix u1 u2 expectedVersion reason u3 t u4 ts
  assume "assertExecution g = (Inr u2, g)" and "checkS (requireTask v) g = (Inr t, g)"
    and "liftS (assertTransition t [Pending, Ready, Running, Waiting, NeedsResolution]) g = (Inr u4, g)"
    and guards: "assertExpectedVersion expectedVersion g = (Inr u3, g)" "readTimestamp clock g = (Inr ts, g)"
  then have t: "g_sealed g" "t \<in> set (g_tasks g)" "t_status t \<in> {Pending, Ready, Running, Waiting, NeedsResolution}"
    using requireTask_Inr [OF graphInvD(2) [OF inv]] by auto
  then show "lawful (finishTask (t\<lparr>t_failure := None, t_outputArtifactIds := [], t_blockedBy := []\<rparr>) Cancelled ts reason) g"
    unfolding outcome_swap
    by (intro finish_lawful [OF inv t(1) admittedI [OF inv guards] t(2)]) (auto simp: cleanIds_def)
qed

lemma cancelAll_run:
  assumes inv: "graphInv g" and sealed: "g_sealed g" and adm: "admitted g ts"
    and cs: "cs = filter (\<lambda>t. \<not> terminal (t_status t)) (g_tasks g)" "cs \<noteq> []"
  defines "T \<equiv> map (\<lambda>t. if terminal (t_status t) then t else cancelledAt ts t) (g_tasks g)"
  shows "\<exists>evs. cancelAll cs ts r g = (Inr (map (cancelledAt ts) cs), changed g ts T True evs) \<and> changeOk g ts T True evs"
proof -
  note invD = graphInvD [OF inv]
  have dcs: "distinct (taskIds cs)" using invD(3) by (simp add: cs(1) taskIds_def distinct_map_filter)
  have sub: "set cs \<subseteq> set (g_tasks g)" by (auto simp: cs(1))
  have clean: "\<forall>t \<in> set cs. cleanMetadata (t_metadata t)" using sub invD(5) by (auto simp: cleanTask_def)
  have T: "fold (\<lambda>t. replaceBy t_id (cancelledAt ts t)) cs (g_tasks g) = T"
  proof -
    have "(t_id t \<in> set (taskIds cs)) = (\<not> terminal (t_status t))" if "t \<in> set (g_tasks g)" for t
      using that invD(3) by (auto simp: cs(1) taskIds_def dest: distinct_map_inj_on_eq)
    then show ?thesis
      unfolding T_def using dcs invD(3) sub
      by (subst fold_replaceBy_map) (auto simp: cancelledAt_def)
  qed
  obtain evs where loop: "forS (\<lambda>task pendingEvents.
      bindS (putTask (task\<lparr>t_failure := None, t_outputArtifactIds := [], t_blockedBy := []\<rparr>)) (\<lambda>_.
      setTaskStatus (t_id task) Cancelled ts r pendingEvents)) cs [] g = (Inr evs, g\<lparr>g_tasks := T\<rparr>)"
    and evs: "replay ts evs (g_tasks g) = T" "length evs = length cs" "statusEvents evs"
    using cancel_loop_run [OF invD(3) dcs sub clean, of ts r "[]"] by (auto simp: T)
  have step: "advances ts t (cancelledAt ts t)" if "t \<in> set cs" for t
    using that by (cases "t_status t") (auto simp: cs(1) advances_def cancelledAt_def sameDefinition_def)
  then have adv: "list_all2 (advances ts) (g_tasks g) T"
    by (auto simp: T_def list_all2_map2 cs(1) list_all2_same)
  have member: "cancelledAt ts t \<in> set T" if "t \<in> set cs" for t
    using that by (force simp: T_def cs(1))
  have lenT: "length T = length (g_tasks g)" by (simp add: T_def)
  have distT: "distinct (taskIds T)" using invD(3) same_ids [OF all_same_definition [OF adv]] by simp
  have cleanT: "\<forall>t \<in> set T. cleanTask t"
    using invD(5) adm by (auto simp: T_def cancelledAt_def cleanTask_def cleanIds_def admitted_def)
  have states: "\<forall>t \<in> set (g_tasks g). outcomeOk T t"
    using invD(6) sealed outcomeOk_advances [OF adv] by (simp add: statesOk_def)
  have "outcomeOk T t \<and> reconciled T t" if t: "t \<in> set T" for t
  proof -
    consider "t \<in> set (g_tasks g)" "terminal (t_status t)" | u where "t = cancelledAt ts u"
      using t by (auto simp: T_def split: if_splits)
    then show ?thesis
    proof cases
      case 1
      then have "t_status t \<noteq> Pending" by auto
      then show ?thesis using 1 states by (simp add: reconciled_def)
    next
      case 2
      then show ?thesis by (simp add: reconciled_def cancelledAt_def outcomeOk_def)
    qed
  qed
  then have statesT: "statesOk True T" by (simp add: statesOk_def)
  have ok: "changeOk g ts T True evs"
  proof (rule changeOk_status [OF inv sealed adm adv cleanT statesT])
    obtain c where "c \<in> set cs" using cs(2) by (cases cs) auto
    then show "ts \<in> t_updatedAt ` set T" using member by (force simp: cancelledAt_def)
    have "length cs \<le> length (g_tasks g)" by (simp add: cs(1))
    then show "length evs \<le> MAX_TASKS + 2" using evs(2) invD(4) by (simp add: shapeOk_def)
    show "evs \<noteq> []" using evs(2) cs(2) by auto
  qed (use evs in auto)
  have "mapE (\<lambda>t. bindE (taskAt (t_id t) T) cloneAndFreezeTask) (map id cs) = Inr (map (cancelledAt ts) cs)"
  proof (rule mapE_map_Inr)
    fix t assume "t \<in> set cs"
    then have "cancelledAt ts t \<in> set T" by (rule member)
    then have "findTask T (t_id (cancelledAt ts t)) = Some (cancelledAt ts t)" "cleanTask (cancelledAt ts t)"
      using findTask_self [OF distT] cleanT by auto
    then show "bindE (taskAt (t_id (id t)) T) cloneAndFreezeTask = Inr (cancelledAt ts t)"
      by (simp add: taskAt_def cleanTask_def) (simp add: cancelledAt_def)
  qed
  then have "cancelAll cs ts r g = (Inr (map (cancelledAt ts) cs), changed g ts T True evs)"
    by (simp add: cancelAll_def loop commit_run changed_status [OF inv sealed lenT])
  with ok show ?thesis by blast
qed

lemma cancelRemaining_lawful:
  assumes inv: "graphInv g"
  shows "lawful (cancelRemaining options clock) g \<or> cancelRemaining options clock g = (Inr [], g)"
proof -
  let ?cs = "filter (\<lambda>t. \<not> terminal (t_status t)) (g_tasks g)"
  note ord = orderedTasks_id [OF inv]
  have "lawful (cancelRemaining options clock) g" if ne: "?cs \<noteq> []"
    unfolding cancelRemaining_def
  proof (rule lawful_bind_query [OF queryAt_guards(1)], rule lawful_bind_query [OF queryAt_guards(3)],
      rule lawful_bind_query2 [OF queryAt_prims(3)], rule lawful_bind_query [OF queryAt_guards(4)],
      rule lawful_bind_query [OF queryAt_prims(4)])
    fix u1 u2 expectedVersion reason u3 cs
    assume sealed: "assertExecution g = (Inr u2, g)" and ver: "assertExpectedVersion expectedVersion g = (Inr u3, g)"
      and "readS (\<lambda>g. filter (\<lambda>t. \<not> terminal (t_status t)) (orderedTasks g)) g = (Inr cs, g)"
    then have cs: "cs = ?cs" by (simp add: ord)
    have "lawful (bindS (readTimestamp clock) (\<lambda>timestamp. cancelAll cs timestamp reason)) g"
    proof (rule lawful_bind_query [OF queryAt_readTimestamp [OF graphInvD(1) [OF inv]]])
      fix ts assume ts: "readTimestamp clock g = (Inr ts, g)"
      from cancelAll_run [OF inv _ admittedI [OF inv ver ts] cs, of reason] sealed ne cs
      show "lawful (cancelAll cs ts reason) g" by (elim exE conjE meta_impE) (auto intro: lawful_change)
    qed
    then show "lawful (if cs = [] then returnS []
        else bindS (readTimestamp clock) (\<lambda>timestamp. cancelAll cs timestamp reason)) g"
      using ne cs by simp
  qed
  moreover have "lawful (cancelRemaining options clock) g \<or> cancelRemaining options clock g = (Inr [], g)" if "?cs = []"
  proof (cases "fst (cancelRemaining options clock g)")
    case (Inl e)
    have "queryAt (cancelRemaining options clock) g"
      using that by (auto simp: cancelRemaining_def queryAt_def bindS_def assertNotReentrantMutation_def assertExecution_def
          assertExpectedVersion_def ord split: sum.splits prod.splits)
    then show ?thesis using Inl by (cases "cancelRemaining options clock g") (auto simp: lawful_def queryAt_def)
  next
    case (Inr x)
    then show ?thesis
      using that by (auto simp: cancelRemaining_def bindS_def assertNotReentrantMutation_def assertExecution_def
          assertExpectedVersion_def ord split: sum.splits prod.splits)
  qed
  ultimately show ?thesis by blast
qed

section \<open>The planning commands are lawful\<close>

lemma closeTopology_run:
  assumes inv: "graphInv g" and plan: "\<not> g_sealed g" and adm: "admitted g ts" and ne: "g_tasks g \<noteq> []"
  shows "\<exists>T evs. closeTopology ts g = (Inr (), changed g ts T True evs) \<and> changeOk g ts T True evs"
proof -
  note invD = graphInvD [OF inv]
  have fresh: "\<forall>t \<in> set (g_tasks g). fresh t" using invD(6) plan by (simp add: statesOk_def)
  then have out: "\<forall>t \<in> set (g_tasks g). outcomeOk (g_tasks g) t" by (auto simp: fresh_def outcomeOk_def)
  let ?e = "GraphSealed (length (g_tasks g))" and ?g1 = "g\<lparr>g_sealed := True\<rparr>"
  have "\<forall>t \<in> set (g_tasks ?g1). cleanMetadata (t_metadata t)" using invD(5) by (simp add: cleanTask_def)
  then obtain ids evs where ids: "topologicalTaskIds (g_tasks g) CYCLIC_DEPENDENCY GRAPH_LIMIT_EXCEEDED = Inr ids"
    and rec: "reconcilePendingTasks ts [?e] ?g1 = (Inr ([?e] @ evs), ?g1\<lparr>g_tasks := settleAll ts ids (g_tasks g)\<rparr>)"
    and evs: "replay ts evs (g_tasks g) = settleAll ts ids (g_tasks g)" "length evs \<le> length (g_tasks g)" "statusEvents evs"
    using reconcilePendingTasks_run [of ?g1 ts "[?e]"] invD(4) by auto
  let ?T = "settleAll ts ids (g_tasks g)"
  note settle = settleAll_correct [OF invD(4) out ids, of ts]
  have lenT: "length ?T = length (g_tasks g)" using settle(1) by (simp add: list_all2_lengthD)
  have cleanT: "\<forall>t \<in> set ?T. cleanTask t"
    by (rule settleAll_clean) (use adm invD(5) in \<open>auto simp: admitted_def\<close>)
  have "\<exists>a \<in> set (g_tasks g). t_dependencies a = []"
  proof -
    obtain rank where r: "ranks (g_tasks g) rank" using invD(4) by (auto simp: shapeOk_def layered_def)
    obtain a where a: "a \<in> set (g_tasks g)" and least: "\<forall>b \<in> set (g_tasks g). rank (t_id a) \<le> rank (t_id b)"
      using ne ex_has_least_nat [of "\<lambda>t. t \<in> set (g_tasks g)" "hd (g_tasks g)" "rank \<circ> t_id"] by auto
    have "d \<notin> set (t_dependencies a)" for d
    proof
      assume d: "d \<in> set (t_dependencies a)"
      then obtain b where "b \<in> set (g_tasks g)" "t_id b = d"
        using a invD(2) by (auto simp: wellKeyed_def taskIds_def)
      then show False using r a d least by (fastforce simp: ranks_def)
    qed
    then show ?thesis using a by (metis list.set_intros(1) neq_Nil_conv)
  qed
  then obtain a b where ab: "a \<in> set (g_tasks g)" "t_dependencies a = []" "b \<in> set ?T" "advances ts a b"
    using list_all2_set1 [OF settle(1)] by blast
  have "t_status b \<noteq> Pending"
    using settle(2) ab(3) advances_same [OF ab(4)] ab(2)
    by (auto simp: statesOk_def reconciled_def allSucceeded_def sameDefinition_def)
  then have mem: "ts \<in> t_updatedAt ` set ?T"
    using ab fresh by (force simp: advances_def fresh_def)
  have "tasksInv True (g_createdAt g) ts ?T"
    by (rule tasksInv_advance [OF _ settle(1) cleanT settle(2) _ mem, of "g_sealed g" _ "g_updatedAt g"])
      (use inv adm in \<open>auto simp: graphInv_def admitted_def\<close>)
  moreover have "tasksEvolve False ts (g_tasks g) ?T"
    using settle(1) lenT by (auto simp: tasksEvolve_def evolves_def intro: list_all2_mono)
  moreover have "replay ts (?e # evs) (g_tasks g) = ?T" using evs(1) by (simp add: replay_def)
  moreover have "?T \<noteq> []" using lenT ne by auto
  moreover have "length (?e # evs) \<le> MAX_TASKS + 2" using evs(2) invD(4) by (simp add: shapeOk_def)
  ultimately have ok: "changeOk g ts ?T True (?e # evs)"
    using adm ne plan lenT statusEvents_no_add(1) [OF evs(3)] by (auto simp: changeOk_def admitted_def)
  have "g\<lparr>g_tasks := ?T, g_sealed := True, g_nextOrder := int (length ?T)\<rparr> = ?g1\<lparr>g_tasks := ?T\<rparr>"
    using inv lenT by (cases g) (simp add: graphInv_def)
  then have "closeTopology ts g = (Inr (), changed g ts ?T True (?e # evs))"
    by (simp add: closeTopology_def rec commit_run changed_def)
  with ok show ?thesis by blast
qed

lemma sealGraph_lawful:
  assumes inv: "graphInv g"
  shows "lawful (sealGraph options clock) g"
  unfolding sealGraph_def
proof (intro lawful_guards graphInvD(1) [OF inv])
  fix u1 u2 expectedVersion u3 u4 ts
  assume "assertPlanning g = (Inr u2, g)"
    and "checkS (\<lambda>g. requireE (g_tasks g \<noteq> []) (TaskGraphError EMPTY_GRAPH)) g = (Inr u4, g)"
    and guards: "assertExpectedVersion expectedVersion g = (Inr u3, g)" "readTimestamp clock g = (Inr ts, g)"
  then show "lawful (closeTopology ts) g"
    using closeTopology_run [OF inv _ admittedI [OF inv guards]] by (auto intro: lawful_change)
qed

lemma parseTaskDefinition_Inr:
  assumes "parseTaskDefinition v n ts = Inr t" and "canonicalTimestamp ts"
  shows "cleanTask t" and "fresh t" and "t_order t = n" and "t_createdAt t = ts" and "t_updatedAt t = ts"
    and "t_id t \<notin> set (t_dependencies t)"
proof -
  from assms(1) obtain r i deps k title desc pr meta where i: "isIdentifier i" "isKind k" "i \<notin> set deps"
    and deps: "parseUniqueIdentifiers (if fld r ''dependencies'' = JUndef then plainArr [] else fld r ''dependencies'')
      INVALID_ARGUMENT MAX_DEPENDENCIES_PER_TASK = Inr deps"
    and title: "normalizeRequiredText (fld r ''title'') 300 INVALID_ARGUMENT = Inr title"
    and desc: "normalizeOptionalText (fld r ''description'') 10000 INVALID_ARGUMENT = Inr desc"
    and pr: "(if fld r ''priority'' = JUndef then Inr 0
      else assertInteger (fld r ''priority'') MIN_PRIORITY MAX_PRIORITY INVALID_ARGUMENT) = Inr pr"
    and meta: "cloneAndFreezeJsonObject (if fld r ''metadata'' = JUndef then plainObj [] else fld r ''metadata'') INVALID_ARGUMENT = Inr meta"
    and t: "t = \<lparr>t_id = i, t_kind = k, t_title = title, t_description = desc,
          t_dependencies = deps, t_priority = pr, t_metadata = meta,
          t_status = Pending, t_blockedBy = [], t_outputArtifactIds = [], t_failure = None,
          t_order = n, t_createdAt = ts, t_updatedAt = ts\<rparr>"
    unfolding parseTaskDefinition_def
    by (simp only: bindE_Inr_iff requireE_Inr_iff assertIdentifier_Inr assertKind_Inr sum.inject) blast
  have "MIN_PRIORITY \<le> pr \<and> pr \<le> MAX_PRIORITY"
    using pr by (auto simp: MIN_PRIORITY_def MAX_PRIORITY_def split: if_splits dest: assertInteger_range)
  then show "cleanTask t"
    using i parseUniqueIdentifiers_Inr [OF deps] normalizeRequiredText_Inr [OF title] normalizeOptionalText_Inr [OF desc]
      cloneAndFreezeJsonObject_clean [OF meta] assms(2)
    by (simp add: t cleanTask_def cleanIds_def)
  show "fresh t" "t_order t = n" "t_createdAt t = ts" "t_updatedAt t = ts" "t_id t \<notin> set (t_dependencies t)"
    using i by (simp_all add: t fresh_def)
qed

lemma parseDefinitions_Inr:
  assumes "parseDefinitions vs n ts known = Inr ps" and "canonicalTimestamp ts"
  shows "length ps = length vs \<and> map t_order ps = map (\<lambda>i. n + int i) [0..<length ps] \<and> distinct (taskIds ps) \<and>
    set (taskIds ps) \<inter> known = {} \<and>
    (\<forall>t \<in> set ps. cleanTask t \<and> fresh t \<and> t_createdAt t = ts \<and> t_updatedAt t = ts)"
  using assms(1)
proof (induction vs arbitrary: n known ps)
  case Nil
  then show ?case by (simp add: taskIds_def)
next
  case (Cons v vs)
  from Cons.prems obtain t ps' where t: "parseTaskDefinition v n ts = Inr t" "t_id t \<notin> known"
    and ps': "parseDefinitions vs (n + 1) ts (insert (t_id t) known) = Inr ps'" and ps: "ps = t # ps'"
    by (auto simp: bindE_Inr_iff split: if_splits)
  have "map t_order ps = map (\<lambda>i. n + int i) [0..<length ps]"
    using Cons.IH [OF ps'] parseTaskDefinition_Inr(3) [OF t(1) assms(2)]
    by (simp add: ps map_upt_Suc algebra_simps del: upt_Suc)
  then show ?case
    using Cons.IH [OF ps'] parseTaskDefinition_Inr [OF t(1) assms(2)] t(2) by (auto simp: ps taskIds_def)
qed

lemma insert_loop_run:
  assumes "\<forall>t \<in> set ps. cleanMetadata (t_metadata t)"
  shows "forS (\<lambda>task pendingEvents.
      bindS (modifyS (\<lambda>g. g\<lparr>g_tasks := g_tasks g @ [task]\<rparr>)) (\<lambda>_.
      bindS (liftS (cloneAndFreezeTask task)) (\<lambda>copy.
      returnS (pendingEvents @ [TaskAdded copy])))) ps p g =
    (Inr (p @ map TaskAdded ps), g\<lparr>g_tasks := g_tasks g @ ps\<rparr>)"
  using assms by (induction ps arbitrary: p g) simp_all

lemma replay_added: "replay ts (map TaskAdded ps) T = T @ ps"
  by (induction ps arbitrary: T) (simp_all add: replay_def)

lemma insertTasks_run:
  assumes inv: "graphInv g" and plan: "\<not> g_sealed g" and adm: "admitted g ts" and ps: "ps \<noteq> []"
    and len: "length (g_tasks g) + length ps \<le> MAX_TASKS"
    and parsed: "parseDefinitions vs (g_nextOrder g) ts (set (taskIds (g_tasks g))) = Inr ps"
    and known: "list_all (\<lambda>t. list_all (\<lambda>d. d \<in> set (taskIds (g_tasks g @ ps))) (t_dependencies t)) ps"
    and edges: "assertGraphEdgeLimit (g_tasks g @ ps) GRAPH_LIMIT_EXCEEDED = Inr u"
    and topo: "topologicalTaskIds (g_tasks g @ ps) CYCLIC_DEPENDENCY GRAPH_LIMIT_EXCEEDED = Inr ids"
  shows "insertTasks ps ts g = (Inr ps, changed g ts (g_tasks g @ ps) False (map TaskAdded ps))"
    and "changeOk g ts (g_tasks g @ ps) False (map TaskAdded ps)"
proof -
  note invD = graphInvD [OF inv]
  let ?T = "g_tasks g @ ps"
  have ts: "canonicalTimestamp ts" "stampLe (g_updatedAt g) ts" using adm by (simp_all add: admitted_def)
  note p = parseDefinitions_Inr [OF parsed ts(1)]
  have clean: "\<forall>t \<in> set ps. cleanMetadata (t_metadata t)" using p by (auto simp: cleanTask_def)
  have copies: "mapE cloneAndFreezeTask ps = Inr ps"
    using mapE_map_Inr [of ps cloneAndFreezeTask id id] clean by simp
  have same: "g\<lparr>g_tasks := ?T, g_sealed := False, g_nextOrder := int (length ?T)\<rparr> =
      g\<lparr>g_tasks := ?T, g_nextOrder := g_nextOrder g + int (length ps)\<rparr>"
    using inv plan by (cases g) (simp add: graphInv_def)
  show "insertTasks ps ts g = (Inr ps, changed g ts ?T False (map TaskAdded ps))"
    unfolding changed_def same
    by (simp add: insertTasks_def insert_loop_run [OF clean] commit_run copies)
  have nxt: "g_nextOrder g = int (length (g_tasks g))" using inv by (simp add: graphInv_def)
  have orders: "map t_order ?T = map int [0..<length ?T]"
  proof -
    have "map int [length (g_tasks g)..<length (g_tasks g) + length ps] =
        map (\<lambda>i. int (length (g_tasks g)) + int i) [0..<length ps]"
      by (rule nth_equalityI) simp_all
    moreover have "map t_order ps = map (\<lambda>i. int (length (g_tasks g)) + int i) [0..<length ps]"
      using p unfolding nxt by blast
    ultimately have "map t_order ps = map int [length (g_tasks g)..<length (g_tasks g) + length ps]"
      by (simp only:)
    then show ?thesis
      using invD(4) upt_add_eq_append [of 0 "length (g_tasks g)" "length ps"] by (simp add: shapeOk_def)
  qed
  have wk: "wellKeyed ?T"
    using invD(2) p known by (auto simp: wellKeyed_def taskIds_def list_all_iff cleanTask_def cleanIds_def)
  have "shapeOk ?T"
    using orders len wk topologicalTaskIds_Inr(4) [OF wk topo] edges
    by (simp add: shapeOk_def assertGraphEdgeLimit_iff split: if_splits)
  moreover have "statesOk False ?T" using invD(6) plan p by (auto simp: statesOk_def)
  moreover have "stampsOk (g_createdAt g) ts ?T"
  proof -
    have "stampLe (g_createdAt g) ts" using inv ts(2) stampLe_trans unfolding graphInv_def by blast
    moreover have "stampLe (t_updatedAt t) ts" if "t \<in> set (g_tasks g)" for t
      using that inv ts(2) stampLe_trans unfolding graphInv_def tasksInv_def stampsOk_def by blast
    ultimately have all: "\<forall>t \<in> set ?T. stampLe (g_createdAt g) (t_createdAt t) \<and>
        stampLe (t_createdAt t) (t_updatedAt t) \<and> stampLe (t_updatedAt t) ts"
      using inv p by (auto simp: graphInv_def tasksInv_def stampsOk_def)
    have "hd ps \<in> set ?T" "t_updatedAt (hd ps) = ts" using ps p by (cases ps; simp)+
    then have "ts \<in> t_updatedAt ` set ?T" by blast
    then show ?thesis unfolding stampsOk_def using all ps by simp
  qed
  ultimately have "tasksInv False (g_createdAt g) ts ?T" using invD(5) p by (auto simp: tasksInv_def)
  moreover have "tasksEvolve False ts (g_tasks g) ?T"
    using p by (auto simp: tasksEvolve_def evolves_def list_all2_same)
  ultimately show "changeOk g ts ?T False (map TaskAdded ps)"
    using adm ps plan len by (auto simp: changeOk_def admitted_def replay_added comp_def)
qed

lemma addTasks_lawful:
  assumes inv: "graphInv g"
  shows "lawful (addTasks defs options clock) g"
  unfolding addTasks_def
proof (intro lawful_guards graphInvD(1) [OF inv])
  fix u1 u2 expectedVersion u3 vs u4 u5 ts ps u6 u7 ids
  assume "assertPlanning g = (Inr u2, g)" and ne: "liftS (requireE (vs \<noteq> []) (TaskGraphError INVALID_ARGUMENT)) g = (Inr u4, g)"
    and len: "checkS (\<lambda>g. requireE (length (g_tasks g) + length vs \<le> MAX_TASKS) (TaskGraphError GRAPH_LIMIT_EXCEEDED)) g = (Inr u5, g)"
    and ps: "checkS (\<lambda>g. parseDefinitions vs (g_nextOrder g) ts (set (taskIds (g_tasks g)))) g = (Inr ps, g)"
    and rest: "checkS (\<lambda>g. requireE (list_all (\<lambda>t. list_all (\<lambda>d. d \<in> set (taskIds (g_tasks g @ ps))) (t_dependencies t)) ps)
        (TaskGraphError UNKNOWN_TASK)) g = (Inr u6, g)"
      "checkS (\<lambda>g. assertGraphEdgeLimit (g_tasks g @ ps) GRAPH_LIMIT_EXCEEDED) g = (Inr u7, g)"
      "checkS (\<lambda>g. topologicalTaskIds (g_tasks g @ ps) CYCLIC_DEPENDENCY GRAPH_LIMIT_EXCEEDED) g = (Inr ids, g)"
    and guards: "assertExpectedVersion expectedVersion g = (Inr u3, g)" "readTimestamp clock g = (Inr ts, g)"
  then have plan: "\<not> g_sealed g" by simp
  have adm: "admitted g ts" by (rule admittedI [OF inv guards])
  have "length ps = length vs"
    using parseDefinitions_Inr [of vs "g_nextOrder g" ts "set (taskIds (g_tasks g))" ps] ps adm by (simp add: admitted_def)
  then have "ps \<noteq> []" "length (g_tasks g) + length ps \<le> MAX_TASKS" using ne len by auto
  note run = insertTasks_run [OF inv plan adm this, of vs u7 ids]
  show "lawful (insertTasks ps ts) g" using run ps rest by (auto intro: lawful_change)
qed

lemma addTask_lawful: "graphInv g \<Longrightarrow> lawful (addTask def options clock) g"
  using addTasks_lawful [of g "plainArr [def]" options clock]
  by (auto simp: lawful_def addTask_def bindS_def)

lemma pushDependency_run:
  assumes inv: "graphInv g" and plan: "\<not> g_sealed g" and adm: "admitted g ts"
    and t: "t \<in> set (g_tasks g)" and d: "d \<in> set (taskIds (g_tasks g))" "isIdentifier d" "d \<notin> set (t_dependencies t)"
    and room: "length (t_dependencies t) < MAX_DEPENDENCIES_PER_TASK"
    and x: "x = t\<lparr>t_dependencies := t_dependencies t @ [d]\<rparr>"
    and edges: "assertGraphEdgeLimit (replaceBy t_id x (g_tasks g)) GRAPH_LIMIT_EXCEEDED = Inr u"
    and topo: "topologicalTaskIds (replaceBy t_id x (g_tasks g)) CYCLIC_DEPENDENCY GRAPH_LIMIT_EXCEEDED = Inr ids"
  defines "T \<equiv> replaceBy t_id (x\<lparr>t_updatedAt := ts\<rparr>) (g_tasks g)"
  shows "pushDependency x d ts g = (Inr (), changed g ts T False [DependencyAdded (t_id t) d])"
    and "changeOk g ts T False [DependencyAdded (t_id t) d]"
proof -
  note invD = graphInvD [OF inv]
  let ?y = "x\<lparr>t_updatedAt := ts\<rparr>" and ?T0 = "replaceBy t_id x (g_tasks g)"
  have ids: "t_id ?y = t_id t" "t_id x = t_id t" by (simp_all add: x)
  have same: "g\<lparr>g_tasks := T, g_sealed := False, g_nextOrder := int (length T)\<rparr> = g\<lparr>g_tasks := T\<rparr>"
    using inv plan by (cases g) (simp add: graphInv_def T_def)
  show "pushDependency x d ts g = (Inr (), changed g ts T False [DependencyAdded (t_id t) d])"
    unfolding changed_def same
    by (simp add: pushDependency_def putTask_def modifyS_def bindS_def commit_run ids T_def)
  have set: "u = ?y \<or> (u \<in> set (g_tasks g) \<and> t_id u \<noteq> t_id t)" if "u \<in> set T" for u
    using that by (auto simp: T_def replaceBy_set ids)
  have set0: "u = x \<or> (u \<in> set (g_tasks g) \<and> t_id u \<noteq> t_id t)" if "u \<in> set ?T0" for u
    using that by (auto simp: replaceBy_set ids)
  have mem: "?y \<in> set T" using t by (auto simp: T_def replaceBy_set ids)
  have fresh: "\<forall>u \<in> set (g_tasks g). fresh u" using invD(6) plan by (simp add: statesOk_def)
  have wk0: "wellKeyed ?T0"
  proof -
    have "distinct (t_dependencies u) \<and> set (t_dependencies u) \<subseteq> set (taskIds (g_tasks g))" if "u \<in> set ?T0" for u
    proof -
      have "set (t_dependencies t) \<subseteq> set (taskIds (g_tasks g))" "distinct (t_dependencies t)"
        using t invD(2) by (simp_all add: wellKeyed_def)
      then show ?thesis using set0 [OF that] d invD(2) by (auto simp: wellKeyed_def x)
    qed
    then show ?thesis using invD(3) by (simp add: wellKeyed_def)
  qed
  have rel: "list_all2 (\<lambda>a b. t_id a = t_id b \<and> set (t_dependencies a) = set (t_dependencies b)) ?T0 T"
    by (simp add: T_def replaceBy_def list_all2_map1 list_all2_map2 list_all2_same ids)
  have "list_all (\<lambda>t. distinct (t_dependencies t)) T"
    using set wk0 invD(2) t d by (fastforce simp: list_all_iff wellKeyed_def x)
  then have wk: "wellKeyed T" and lay: "layered MAX_DEPTH T"
    using layered_cong [OF rel] wk0 topologicalTaskIds_Inr(4) [OF wk0 topo] by auto
  have "edgeCount T = edgeCount ?T0"
    by (simp add: T_def edgeCount_def replaceBy_def comp_def if_distrib ids cong: if_cong)
  moreover have "map t_order T = map t_order (g_tasks g)"
  proof -
    have "t_order (if t_id u = t_id t then ?y else u) = t_order u" if "u \<in> set (g_tasks g)" for u
      using that t invD(3) by (auto simp: x taskIds_def dest: distinct_map_inj_on_eq)
    then show ?thesis by (simp add: T_def replaceBy_def ids comp_def)
  qed
  ultimately have shape: "shapeOk T"
    using invD(4) wk lay edges by (simp add: shapeOk_def assertGraphEdgeLimit_iff T_def split: if_splits)
  have ts: "canonicalTimestamp ts" "stampLe (g_updatedAt g) ts" using adm by (simp_all add: admitted_def)
  have clean: "\<forall>u \<in> set T. cleanTask u"
    using set invD(5) t d room ts(1) by (fastforce simp: cleanTask_def cleanIds_def x)
  have states: "statesOk False T"
    using set fresh t by (fastforce simp: statesOk_def fresh_def x)
  have "stampsOk (g_createdAt g) ts T"
  proof -
    have old: "stampLe (g_createdAt g) (t_createdAt u) \<and> stampLe (t_createdAt u) (t_updatedAt u) \<and> stampLe (t_updatedAt u) ts"
      if "u \<in> set (g_tasks g)" for u
      using that inv ts(2) stampLe_trans unfolding graphInv_def tasksInv_def stampsOk_def by blast
    then have "stampLe (t_createdAt t) ts" using t stampLe_trans by blast
    then have "stampLe (g_createdAt g) (t_createdAt u) \<and> stampLe (t_createdAt u) (t_updatedAt u) \<and> stampLe (t_updatedAt u) ts"
      if "u \<in> set T" for u
      using set [OF that] old t by (auto simp: x)
    then show ?thesis using mem by (force simp: stampsOk_def)
  qed
  then have "tasksInv False (g_createdAt g) ts T" using shape clean states by (simp add: tasksInv_def)
  moreover have "tasksEvolve False ts (g_tasks g) T"
  proof -
    have "evolves ts t ?y" using fresh t unfolding evolves_def x by (auto simp: fresh_def)
    then have "list_all2 (evolves ts) (g_tasks g) T"
      unfolding T_def by (intro replaceBy_related [where R = "evolves ts", OF invD(3) t ids(1)]) (simp_all add: evolves_def)
    then show ?thesis by (simp add: tasksEvolve_def T_def)
  qed
  moreover have "replay ts [DependencyAdded (t_id t) d] (g_tasks g) = T"
  proof -
    have "map (\<lambda>u. if t_id u = t_id t then u\<lparr>t_dependencies := t_dependencies u @ [d], t_updatedAt := ts\<rparr> else u) (g_tasks g) = T"
      unfolding T_def replaceBy_def
      by (rule map_cong [OF refl]) (use t invD(3) in \<open>auto simp: x taskIds_def dest: distinct_map_inj_on_eq\<close>)
    then show ?thesis by (simp add: replay_def)
  qed
  ultimately show "changeOk g ts T False [DependencyAdded (t_id t) d]"
    using adm mem plan by (auto simp: changeOk_def admitted_def T_def)
qed

lemma addDependency_lawful:
  assumes inv: "graphInv g"
  shows "lawful (addDependency v w options clock) g"
  unfolding addDependency_def Let_def
proof (intro lawful_guards graphInvD(1) [OF inv])
  fix u1 u2 expectedVersion u3 and t b :: task and u4 u5 u6 u7 ids ts
  let ?x = "t\<lparr>t_dependencies := t_dependencies t @ [t_id b]\<rparr>"
  assume plan: "assertPlanning g = (Inr u2, g)"
    and tb: "checkS (requireTask v) g = (Inr t, g)" "checkS (requireTask w) g = (Inr b, g)"
    and "liftS (requireE (t_id b \<notin> set (t_dependencies t)) (TaskGraphError INVALID_ARGUMENT)) g = (Inr u5, g)"
      "liftS (requireE (length (t_dependencies t) < MAX_DEPENDENCIES_PER_TASK) (TaskGraphError GRAPH_LIMIT_EXCEEDED)) g = (Inr u6, g)"
    and checks: "checkS (\<lambda>g. assertGraphEdgeLimit (replaceBy t_id ?x (g_tasks g)) GRAPH_LIMIT_EXCEEDED) g = (Inr u7, g)"
      "checkS (\<lambda>g. topologicalTaskIds (replaceBy t_id ?x (g_tasks g)) CYCLIC_DEPENDENCY GRAPH_LIMIT_EXCEEDED) g = (Inr ids, g)"
    and guards: "assertExpectedVersion expectedVersion g = (Inr u3, g)" "readTimestamp clock g = (Inr ts, g)"
  have t: "t \<in> set (g_tasks g)" "b \<in> set (g_tasks g)"
    using requireTask_Inr(1) [OF graphInvD(2) [OF inv]] tb by auto
  then have "t_id b \<in> set (taskIds (g_tasks g))" "isIdentifier (t_id b)"
    using graphInvD(5) [OF inv t(2)] by (auto simp: taskIds_def cleanTask_def)
  note run = pushDependency_run [OF inv _ admittedI [OF inv guards] t(1) this _ _ refl, of u7 ids]
  show "lawful (pushDependency ?x (t_id b) ts) g"
    by (rule lawful_change [where m = "pushDependency ?x (t_id b) ts", OF run])
      (use plan checks \<open>liftS _ g = (Inr u5, g)\<close> \<open>liftS _ g = (Inr u6, g)\<close> in auto)
qed

end
