(* ===== verification/Command_Interfaces.thy ===== *)
theory Command_Interfaces
  imports Prelude
begin

text \<open>
  The contracts that the stateful components share, as locales: an object whose commands are
  atomic and keep an invariant (\<open>guarded_object\<close>), one whose version counts its effective changes
  (as long as the counter is exact, \<open>countable\<close>) and guards against lost updates
  (\<open>versioned_object\<close>), and one whose items, once final, never change
  (\<open>item_lifecycle\<close>). The task graph and the budget account are interpreted in them.
\<close>

text \<open>A sequence of commands run one after the other on an object, each with its own input; an
  exception ends its command, not the sequence.\<close>

definition executeAll :: "('c \<Rightarrow> 'i \<Rightarrow> ('s, 'e, 'a) action) \<Rightarrow> ('c \<times> 'i) list \<Rightarrow> 's \<Rightarrow> 's" where
  "executeAll run cs s = fold (\<lambda>(c, i) s. snd (run c i s)) cs s"

text \<open>The commands of the sequence that returned.\<close>

fun succeeding :: "('c \<Rightarrow> 'i \<Rightarrow> ('s, 'e, 'a) action) \<Rightarrow> ('c \<times> 'i) list \<Rightarrow> 's \<Rightarrow> ('c \<times> 'i) list" where
  "succeeding run [] s = []"
| "succeeding run ((c, i) # cs) s =
     (if isOk (fst (run c i s)) then (c, i) # succeeding run cs (snd (run c i s))
      else succeeding run cs (snd (run c i s)))"

lemma executeAll_simps [simp]:
  "executeAll run [] s = s"
  "executeAll run ((c, i) # cs) s = executeAll run cs (snd (run c i s))"
  "executeAll run (cs @ ds) s = executeAll run ds (executeAll run cs s)"
  by (simp_all add: executeAll_def)

locale guarded_object =
  fixes run :: "'c \<Rightarrow> 'i \<Rightarrow> ('s, 'e, 'a) action"
    and inv :: "'s \<Rightarrow> bool"
  assumes run_inv: "inv s \<Longrightarrow> inv (snd (run c i s))"
    and run_atomic: "inv s \<Longrightarrow> fst (run c i s) = Inl e \<Longrightarrow> snd (run c i s) = s"
begin

lemma executeAll_inv: "inv s \<Longrightarrow> inv (executeAll run cs s)"
  by (induction cs arbitrary: s) (auto simp: run_inv)

text \<open>A command that failed might as well not have been issued.\<close>

lemma failures_are_noops: "inv s \<Longrightarrow> executeAll run (succeeding run cs s) s = executeAll run cs s"
proof (induction cs arbitrary: s)
  case (Cons c cs)
  obtain d i where c: "c = (d, i)" by fastforce
  show ?case
  proof (cases "fst (run d i s)")
    case (Inl e)
    then have "snd (run d i s) = s" using run_atomic Cons.prems by blast
    then show ?thesis using Cons Inl by (simp add: c)
  next
    case (Inr a)
    then show ?thesis using Cons run_inv by (simp add: c)
  qed
qed simp

end

locale versioned_object = guarded_object run inv
  for run :: "'c \<Rightarrow> 'i \<Rightarrow> ('s, 'e, 'a) action" and inv :: "'s \<Rightarrow> bool" +
  fixes version :: "'s \<Rightarrow> int"
    and effective :: "'c \<Rightarrow> 's \<Rightarrow> 's \<Rightarrow> bool"
    and expected :: "'c \<Rightarrow> int option"
    and countable :: "'s \<Rightarrow> bool"
  assumes version_step: "inv s \<Longrightarrow> countable s \<Longrightarrow> fst (run c i s) = Inr a \<Longrightarrow>
      effective c s (snd (run c i s)) \<Longrightarrow> version (snd (run c i s)) = version s + 1"
    and version_mono: "inv s \<Longrightarrow> version s \<le> version (snd (run c i s))"
    and version_guard: "inv s \<Longrightarrow> expected c = Some v \<Longrightarrow> v \<noteq> version s \<Longrightarrow> \<not> isOk (fst (run c i s))"
begin

lemma executeAll_version_mono: "inv s \<Longrightarrow> version s \<le> version (executeAll run cs s)"
proof (induction cs arbitrary: s)
  case (Cons c cs)
  obtain d i where c: "c = (d, i)" by fastforce
  have "version s \<le> version (snd (run d i s))" using version_mono Cons.prems by blast
  also have "\<dots> \<le> version (executeAll run cs (snd (run d i s)))" using Cons run_inv by blast
  finally show ?case by (simp add: c)
qed simp

text \<open>No lost update: of two writers that read the same version, the second fails, whatever
  happens in between.\<close>

lemma no_lost_update:
  assumes "inv s" and "countable s" and "isOk (fst (run c i s))" and "effective c s (snd (run c i s))"
    and "expected d = Some (version s)"
  shows "\<not> isOk (fst (run d j (executeAll run cs (snd (run c i s)))))"
proof -
  obtain a where "fst (run c i s) = Inr a" using assms(3) by (auto simp: isOk_iff)
  then have "version (snd (run c i s)) = version s + 1" using version_step assms(1,2,4) by blast
  moreover have "version (snd (run c i s)) \<le> version (executeAll run cs (snd (run c i s)))"
    using executeAll_version_mono run_inv assms(1) by blast
  ultimately show ?thesis
    using version_guard [OF executeAll_inv [OF run_inv [OF assms(1)]] assms(5)] by fastforce
qed

end

locale item_lifecycle = guarded_object run inv
  for run :: "'c \<Rightarrow> 'i \<Rightarrow> ('s, 'e, 'a) action" and inv :: "'s \<Rightarrow> bool" +
  fixes item :: "'s \<Rightarrow> 'k \<Rightarrow> 'v option"
    and final :: "'v \<Rightarrow> bool"
  assumes final_step: "inv s \<Longrightarrow> item s k = Some v \<Longrightarrow> final v \<Longrightarrow> item (snd (run c i s)) k = Some v"
begin

lemma final_forever: "inv s \<Longrightarrow> item s k = Some v \<Longrightarrow> final v \<Longrightarrow> item (executeAll run cs s) k = Some v"
proof (induction cs arbitrary: s)
  case (Cons c cs)
  then show ?case using final_step run_inv by (cases c) simp
qed simp

end

end
