(* ===== verification/Task_Graph_Props.thy ===== *)
theory Task_Graph_Props
  imports Task_Graph_Lawful Command_Interfaces
begin

text \<open>
  The promises of \<open>TaskGraph\<close> over all its commands: the invariant of reachable graphs, atomicity,
  legal transitions, the event log, optimistic concurrency, readiness and progress.
\<close>

section \<open>Commands\<close>

datatype command =
    AddTasks jsval jsval
  | AddTask jsval jsval
  | AddDependency jsval jsval jsval
  | Seal jsval
  | StartTask jsval jsval
  | MarkTaskWaiting jsval jsval
  | MarkTaskNeedsResolution jsval jsval
  | ResumeTask jsval jsval
  | SucceedTask jsval jsval
  | FailTask jsval jsval jsval
  | CancelTask jsval jsval
  | CancelRemaining jsval
  | AcknowledgeEvents jsval

definition listed :: "task graph_action \<Rightarrow> task list graph_action" where
  "listed m = bindS m (\<lambda>t. returnS [t])"

definition silent :: "'a graph_action \<Rightarrow> task list graph_action" where
  "silent m = bindS m (\<lambda>_. returnS [])"

fun runCommand :: "command \<Rightarrow> clock_reading \<Rightarrow> task list graph_action" where
  "runCommand (AddTasks defs options) clock = addTasks defs options clock"
| "runCommand (AddTask def options) clock = addTask def options clock"
| "runCommand (AddDependency taskId dependencyId options) clock = silent (addDependency taskId dependencyId options clock)"
| "runCommand (Seal options) clock = silent (sealGraph options clock)"
| "runCommand (StartTask taskId options) clock = listed (startTask taskId options clock)"
| "runCommand (MarkTaskWaiting taskId options) clock = listed (markTaskWaiting taskId options clock)"
| "runCommand (MarkTaskNeedsResolution taskId options) clock = listed (markTaskNeedsResolution taskId options clock)"
| "runCommand (ResumeTask taskId options) clock = listed (resumeTask taskId options clock)"
| "runCommand (SucceedTask taskId options) clock = listed (succeedTask taskId options clock)"
| "runCommand (FailTask taskId failure options) clock = listed (failTask taskId failure options clock)"
| "runCommand (CancelTask taskId options) clock = listed (cancelTask taskId options clock)"
| "runCommand (CancelRemaining options) clock = cancelRemaining options clock"
| "runCommand (AcknowledgeEvents through) clock = silent (acknowledgeEvents through)"

lemma lawful_wrap: "lawful m g \<Longrightarrow> lawful (bindS m (\<lambda>t. returnS (f t))) g"
  by (auto simp: lawful_def bindS_def)

lemma listed_lawful: "lawful m g \<Longrightarrow> lawful (listed m) g"
  unfolding listed_def by (rule lawful_wrap)

lemma silent_lawful: "lawful m g \<Longrightarrow> lawful (silent m) g"
  unfolding silent_def by (rule lawful_wrap)

text \<open>The commands that may return without a commit: acknowledging, and cancelling when there is
  nothing to cancel.\<close>

fun mayIdle :: "command \<Rightarrow> bool" where
  "mayIdle (CancelRemaining _) = True"
| "mayIdle (AcknowledgeEvents _) = True"
| "mayIdle _ = False"

lemma transitions_lawful:
  assumes "graphInv g"
  shows "lawful (startTask v options clock) g" and "lawful (markTaskWaiting v options clock) g"
    and "lawful (markTaskNeedsResolution v options clock) g" and "lawful (resumeTask v options clock) g"
  unfolding startTask_def markTaskWaiting_def markTaskNeedsResolution_def resumeTask_def
  by (rule performTransition_lawful [OF assms]; auto)+

lemma runCommand_lawful:
  assumes inv: "graphInv g" and "\<not> mayIdle cmd"
  shows "lawful (runCommand cmd clock) g"
  using assms(2)
  by (cases cmd) (simp_all add: inv addTasks_lawful addTask_lawful listed_lawful silent_lawful addDependency_lawful
      sealGraph_lawful transitions_lawful succeedTask_lawful failTask_lawful cancelTask_lawful)

text \<open>Acknowledging removes a prefix of the events.\<close>

lemma filter_upto_drop:
  "map f es = [a..b :: int] \<Longrightarrow> filter (\<lambda>e. f e > s) es = drop (nat (s - a + 1)) es"
proof (induction es arbitrary: a)
  case (Cons e es)
  then have e: "f e = a" "map f es = [a + 1..b]" "a \<le> b"
    by (auto simp: upto.simps [of a b] split: if_splits)
  show ?case
  proof (cases "a > s")
    case True
    have "\<forall>x \<in> set es. f x > s"
    proof
      fix x assume "x \<in> set es"
      then have "f x \<in> set [a + 1..b]" using e(2) by (metis image_eqI list.set_map)
      then show "f x > s" using True by simp
    qed
    then show ?thesis using True e(1) by (simp add: filter_id_conv)
  next
    case False
    then have "nat (s - a + 1) = Suc (nat (s - (a + 1) + 1))" by simp
    then show ?thesis using Cons.IH [OF e(2)] e(1) False by simp
  qed
qed simp

lemma acknowledgeEvents_cases:
  assumes inv: "graphInv g"
  shows "(\<exists>e. acknowledgeEvents v g = (Inl e, g)) \<or>
    (\<exists>s k. assertInteger v 0 (g_eventSequence g) INVALID_ARGUMENT = Inr s \<and>
       acknowledgeEvents v g = (Inr (min k (length (g_events g))), g\<lparr>g_events := drop k (g_events g)\<rparr>) \<and>
       drop k (g_events g) = filter (\<lambda>e. e_sequence e > s) (g_events g))"
proof -
  have active: "\<not> g_clockActive g" and evs: "eventsOk g" using inv by (simp_all add: graphInv_def)
  show ?thesis
  proof (cases "assertInteger v 0 (g_eventSequence g) INVALID_ARGUMENT")
    case (Inl e)
    then show ?thesis using active by (simp add: acknowledgeEvents_def assertNotReentrantMutation_def bindS_def)
  next
    case (Inr s)
    let ?k = "nat (s - (g_eventSequence g - int (length (g_events g)) + 1) + 1)"
    have "filter (\<lambda>e. e_sequence e > s) (g_events g) = drop ?k (g_events g)"
      using evs by (intro filter_upto_drop) (simp add: eventsOk_def)
    then show ?thesis
      using Inr active
      by (intro disjI2 exI [of _ s] exI [of _ ?k])
        (simp add: acknowledgeEvents_def assertNotReentrantMutation_def bindS_def min_def)
  qed
qed

text \<open>All that a command can do to a graph that satisfies the invariant.\<close>

lemma runCommand_cases:
  assumes inv: "graphInv g"
  obtains (failed) e where "runCommand cmd clock g = (Inl e, g)"
  | (changed) x ts T s evs where "runCommand cmd clock g = (Inr x, changed g ts T s evs)" "changeOk g ts T s evs"
  | (idle) x k where "mayIdle cmd" "runCommand cmd clock g = (Inr x, g\<lparr>g_events := drop k (g_events g)\<rparr>)"
proof (cases "mayIdle cmd")
  case False
  then show ?thesis using runCommand_lawful [OF inv, of cmd clock] that(1,2) unfolding lawful_def by blast
next
  case True
  then consider options where "cmd = CancelRemaining options" | v where "cmd = AcknowledgeEvents v"
    by (cases cmd) auto
  then show ?thesis
  proof cases
    case 1
    show ?thesis
    proof (cases "lawful (cancelRemaining options clock) g")
      case True
      then show ?thesis using that(1,2) unfolding lawful_def by (auto simp: 1)
    next
      case False
      then have "cancelRemaining options clock g = (Inr [], g)" using cancelRemaining_lawful [OF inv] by blast
      then show ?thesis using that(3) [of "[]" 0] by (simp add: 1)
    qed
  next
    case 2
    from acknowledgeEvents_cases [OF inv, of v] show ?thesis
    proof (elim disjE exE conjE)
      fix e assume "acknowledgeEvents v g = (Inl e, g)"
      then show ?thesis using that(1) by (simp add: 2 silent_def)
    next
      fix s k
      assume "acknowledgeEvents v g = (Inr (min k (length (g_events g))), g\<lparr>g_events := drop k (g_events g)\<rparr>)"
      then show ?thesis using that(3) [of "[]" k] by (simp add: 2 silent_def)
    qed
  qed
qed

lemma graphInv_drop:
  assumes "graphInv g"
  shows "graphInv (g\<lparr>g_events := drop k (g_events g)\<rparr>)"
proof -
  have ok: "map e_sequence (g_events g) = [g_eventSequence g - int (length (g_events g)) + 1 .. g_eventSequence g]"
    "int (length (g_events g)) \<le> g_eventSequence g"
    using assms by (simp_all add: graphInv_def eventsOk_def)
  have dropped: "drop j [a..b :: int] = [a + int j..b]" for j a b
    by (rule nth_equalityI) (auto simp: nth_upto)
  have "eventsOk (g\<lparr>g_events := drop k (g_events g)\<rparr>)"
    using ok by (cases "k \<le> length (g_events g)") (simp_all add: eventsOk_def dropped algebra_simps of_nat_diff flip: drop_map)
  then show ?thesis using assms by (simp add: graphInv_def)
qed

text \<open>Every reachable graph satisfies the invariant.\<close>

lemma runCommand_inv:
  assumes "graphInv g"
  shows "graphInv (snd (runCommand cmd clock g))"
  using assms by (cases rule: runCommand_cases [where cmd = cmd and clock = clock])
    (simp_all add: assms graphInv_changed graphInv_drop)

lemma create_inv:
  assumes "create input options clock = Inr g"
  shows "graphInv g"
proof -
  from assms obtain ts gid pid where ids: "isIdentifier gid" "isIdentifier pid" and ts: "readClock clock = Inr ts"
    and g: "g = \<lparr>g_graphId = gid, g_projectId = pid, g_tasks = [], g_version = 0,
          g_eventSequence = 0, g_sealed = False, g_createdAt = ts, g_updatedAt = ts,
          g_events = [], g_nextOrder = 0, g_clockActive = False\<rparr>"
    unfolding create_def by (simp only: bindE_Inr_iff assertIdentifier_Inr sum.inject) blast
  have "canonicalTimestamp ts" using ts canonical_toISOString by (auto simp: readClock_Inr)
  then show ?thesis
    using ids by (simp add: g graphInv_def tasksInv_def shapeOk_def wellKeyed_def taskIds_def layered_def ranks_def
        edgeCount_def statesOk_def stampsOk_def eventsOk_def)
qed

inductive reachable :: "graph \<Rightarrow> bool" where
  created: "create input options clock = Inr g \<Longrightarrow> reachable g"
| stepped: "reachable g \<Longrightarrow> reachable (snd (runCommand cmd clock g))"

lemma reachable_executeAll: "reachable g \<Longrightarrow> reachable (executeAll runCommand cs g)"
proof (induction cs arbitrary: g)
  case (Cons c cs)
  then show ?case using reachable.stepped by (cases c) simp
qed simp

lemma reachable_inv: "reachable g \<Longrightarrow> graphInv g"
  by (induction rule: reachable.induct) (simp_all add: create_inv runCommand_inv)

lemma runCommand_atomic:
  assumes "graphInv g" and "fst (runCommand cmd clock g) = Inl e"
  shows "snd (runCommand cmd clock g) = g"
  using assms by (cases rule: runCommand_cases [where cmd = cmd and clock = clock]) simp_all

section \<open>Versions\<close>

fun optionsOf :: "command \<Rightarrow> jsval option" where
  "optionsOf (AddTasks _ v) = Some v"
| "optionsOf (AddTask _ v) = Some v"
| "optionsOf (AddDependency _ _ v) = Some v"
| "optionsOf (Seal v) = Some v"
| "optionsOf (StartTask _ v) = Some v"
| "optionsOf (MarkTaskWaiting _ v) = Some v"
| "optionsOf (MarkTaskNeedsResolution _ v) = Some v"
| "optionsOf (ResumeTask _ v) = Some v"
| "optionsOf (SucceedTask _ v) = Some v"
| "optionsOf (FailTask _ _ v) = Some v"
| "optionsOf (CancelTask _ v) = Some v"
| "optionsOf (CancelRemaining v) = Some v"
| "optionsOf (AcknowledgeEvents _) = None"

text \<open>The guards every command but \<open>acknowledgeEvents\<close> evaluates first, in this order: no call from
  the clock callback, the phase of the graph, well-formed options, the safe-integer limits and
  the expected version.\<close>

fun planningCommand :: "command \<Rightarrow> bool" where
  "planningCommand (AddTasks _ _) = True"
| "planningCommand (AddTask _ _) = True"
| "planningCommand (AddDependency _ _ _) = True"
| "planningCommand (Seal _) = True"
| "planningCommand _ = False"

fun parsedVersion :: "command \<Rightarrow> tg_error + int option" where
  "parsedVersion (SucceedTask _ v) = bindE (parseSucceedTaskOptions (optionsOrEmpty v)) (\<lambda>(w, _). Inr w)"
| "parsedVersion (AcknowledgeEvents _) = Inr None"
| "parsedVersion cmd = (case optionsOf cmd of None \<Rightarrow> Inr None | Some v \<Rightarrow>
     if planningCommand cmd then parseVersionedOptions (optionsOrEmpty v)
     else bindE (parseMutationOptions (optionsOrEmpty v)) (\<lambda>(w, _). Inr w))"

definition admission :: "command \<Rightarrow> graph \<Rightarrow> tg_error + unit" where
  "admission cmd g =
     (if optionsOf cmd = None then requireE (\<not> g_clockActive g) (TaskGraphError REENTRANT_MUTATION)
      else bindE (requireE (\<not> g_clockActive g) (TaskGraphError REENTRANT_MUTATION)) (\<lambda>_.
        bindE (if planningCommand cmd then requireE (\<not> g_sealed g) (TaskGraphError GRAPH_SEALED)
               else requireE (g_sealed g) (TaskGraphError GRAPH_NOT_SEALED)) (\<lambda>_.
        bindE (parsedVersion cmd) (\<lambda>v. fst (assertExpectedVersion v g)))))"

lemma bindS_checkS: "bindS (checkS f) k s = (case f s of Inl e \<Rightarrow> (Inl e, s) | Inr a \<Rightarrow> k a s)"
  by (simp add: bindS_def split: sum.splits)

lemma bindS_liftS: "bindS (liftS r) k s = (case r of Inl e \<Rightarrow> (Inl e, s) | Inr a \<Rightarrow> k a s)"
  by (simp add: bindS_def split: sum.splits)

lemma bindS_guard:
  "bindS (assertExpectedVersion v) k s = (case fst (assertExpectedVersion v s) of Inl e \<Rightarrow> (Inl e, s) | Inr a \<Rightarrow> k a s)"
  by (simp add: assertExpectedVersion_def bindS_checkS)

lemma bindS_assoc: "bindS (bindS m f) h = bindS m (\<lambda>x. bindS (f x) h)"
  by (auto simp: bindS_def fun_eq_iff split: prod.splits sum.splits)

lemma admission_first:
  assumes "admission cmd g = Inl e"
  shows "runCommand cmd clock g = (Inl e, g)"
proof -
  note run = assertNotReentrantMutation_def assertPlanning_def assertExecution_def bindS_checkS bindS_liftS bindS_guard bindS_assoc
  note ops = addTasks_def addTask_def addDependency_def sealGraph_def performTransition_def succeedTask_def failTask_def
    cancelTask_def cancelRemaining_def acknowledgeEvents_def startTask_def markTaskWaiting_def
    markTaskNeedsResolution_def resumeTask_def
  show ?thesis
    using assms
    by (cases cmd) (auto simp: admission_def bindE_Inl_iff bindE_Inr_iff run ops listed_def silent_def)
qed

lemma assertExpectedVersion_result:
  "isOk (fst (assertExpectedVersion v g)) \<Longrightarrow> v = None \<or> v = Some (g_version g)"
  using assertExpectedVersion_Inr(3) [of v g] by (cases "assertExpectedVersion v g") (auto simp: isOk_iff)

text \<open>The version a command expects, where its options are well formed.\<close>

definition expectedOf :: "command \<Rightarrow> int option" where
  "expectedOf cmd = (case parsedVersion cmd of Inl _ \<Rightarrow> None | Inr v \<Rightarrow> v)"

lemma runCommand_version_guard:
  assumes "expectedOf cmd = Some v" and "v \<noteq> g_version g"
  shows "\<not> isOk (fst (runCommand cmd clock g))"
proof -
  have "\<not> isOk (admission cmd g)"
    using assms assertExpectedVersion_result [of "Some v" g]
    by (cases cmd) (auto simp: admission_def expectedOf_def isOk_iff bindE_Inr_iff split: sum.splits)
  then obtain e where "admission cmd g = Inl e" by (cases "admission cmd g") auto
  then show ?thesis using admission_first by simp
qed

lemma runCommand_version:
  assumes "graphInv g"
  shows "\<not> mayIdle cmd \<Longrightarrow> fst (runCommand cmd clock g) = Inr x \<Longrightarrow> g_version (snd (runCommand cmd clock g)) = g_version g + 1"
    and "g_version g \<le> g_version (snd (runCommand cmd clock g))"
  using assms by (cases rule: runCommand_cases [where cmd = cmd and clock = clock]; simp)+

section \<open>Tasks over time\<close>

lemma find_append_Some: "List.find P xs = Some b \<Longrightarrow> List.find P (xs @ ys) = Some b"
  by (induction xs) (auto split: if_splits)

lemma tasksEvolve_find:
  assumes "tasksEvolve sealed ts T T'" and "findTask T i = Some a"
  shows "\<exists>b. findTask T' i = Some b \<and> evolves ts a b"
proof -
  have ids: "evolves ts a b \<Longrightarrow> t_id a = t_id b" for a b
    using advances_same by (auto simp: evolves_def sameDefinition_def)
  have "list_all2 (evolves ts) T (take (length T) T')"
  proof (cases sealed)
    case True
    then have "list_all2 (advances ts) T T'" using assms(1) by (simp add: tasksEvolve_def)
    then have "list_all2 (evolves ts) T T'" by (rule list_all2_mono) (simp add: evolves_def)
    then show ?thesis by (simp add: list_all2_lengthD)
  qed (use assms(1) in \<open>auto simp: tasksEvolve_def\<close>)
  then have "rel_option (evolves ts) (findTask T i) (findTask (take (length T) T') i)"
    by (rule find_related) (rule ids)
  then obtain b where b: "findTask (take (length T) T') i = Some b" "evolves ts a b"
    using assms(2) by (auto simp: option_rel_Some1)
  from b(1) have "findTask (take (length T) T' @ drop (length T) T') i = Some b"
    unfolding findTask_def by (rule find_append_Some)
  with b show ?thesis by simp
qed

lemma runCommand_task:
  assumes "graphInv g" and "findTask (g_tasks g) i = Some a"
  shows "\<exists>b ts. findTask (g_tasks (snd (runCommand cmd clock g))) i = Some b \<and> (b = a \<or> evolves ts a b)"
  using assms(1)
proof (cases rule: runCommand_cases [where cmd = cmd and clock = clock])
  case (changed x ts T s evs)
  then have "tasksEvolve (g_sealed g) ts (g_tasks g) T" by (simp add: changeOk_def)
  then show ?thesis using tasksEvolve_find assms(2) changed(1) by fastforce
qed (use assms(2) in auto)

lemma evolves_final: "evolves ts a b \<Longrightarrow> terminal (t_status a) \<Longrightarrow> b = a"
  using advances_terminal by (auto simp: evolves_def)

lemma runCommand_final:
  assumes "graphInv g" and "findTask (g_tasks g) i = Some a" and "terminal (t_status a)"
  shows "findTask (g_tasks (snd (runCommand cmd clock g))) i = Some a"
  using runCommand_task [OF assms(1,2), of cmd clock] evolves_final [OF _ assms(3)] by metis

interpretation graph: versioned_object runCommand graphInv g_version "\<lambda>cmd _ _. \<not> mayIdle cmd" expectedOf "\<lambda>_. True"
  by unfold_locales (auto simp: runCommand_inv runCommand_atomic runCommand_version runCommand_version_guard)

interpretation task: item_lifecycle runCommand graphInv "\<lambda>g. findTask (g_tasks g)" "\<lambda>t. terminal (t_status t)"
  by unfold_locales (rule runCommand_final)

section \<open>The event log\<close>

text \<open>One event applied to a copy of the graph, as a consumer of the log would.\<close>

definition replayEvent :: "tg_event \<Rightarrow> graph \<Rightarrow> graph" where
  "replayEvent e g = g\<lparr>
     g_tasks := applyEvent (e_occurredAt e) (e_body e) (g_tasks g),
     g_version := e_aggregateVersion e,
     g_eventSequence := e_sequence e,
     g_sealed := (case e_body e of GraphSealed _ \<Rightarrow> True | _ \<Rightarrow> g_sealed g),
     g_updatedAt := e_occurredAt e,
     g_events := g_events g @ [e],
     g_nextOrder := (case e_body e of TaskAdded _ \<Rightarrow> g_nextOrder g + 1 | _ \<Rightarrow> g_nextOrder g)\<rparr>"

abbreviation isAdded :: "pending_event \<Rightarrow> bool" where
  "isAdded e \<equiv> (case e of TaskAdded _ \<Rightarrow> True | _ \<Rightarrow> False)"

lemma replayEvent_numbered:
  assumes "g_eventSequence h = g_eventSequence g"
  shows "fold replayEvent (numbered h ts n i ps) g = g\<lparr>
     g_tasks := replay ts ps (g_tasks g),
     g_version := (if ps = [] then g_version g else g_version h),
     g_eventSequence := g_eventSequence g + int (length ps),
     g_sealed := (g_sealed g \<or> (\<exists>k. GraphSealed k \<in> set ps)),
     g_updatedAt := (if ps = [] then g_updatedAt g else ts),
     g_events := g_events g @ numbered h ts n i ps,
     g_nextOrder := g_nextOrder g + int (length (filter isAdded ps))\<rparr>"
  using assms
proof (induction ps arbitrary: g h i)
  case Nil
  show ?case by (simp add: numbered_def)
next
  case (Cons p ps)
  let ?h = "h\<lparr>g_eventSequence := g_eventSequence h + 1\<rparr>"
  let ?e = "eventOf ?h ts n i p"
  have seq: "g_eventSequence ?h = g_eventSequence (replayEvent ?e g)"
    by (simp add: replayEvent_def eventOf_def)
  have e: "e_body ?e = p" "e_occurredAt ?e = ts" "e_aggregateVersion ?e = g_version h"
    "e_sequence ?e = g_eventSequence g + 1"
    using Cons.prems by (simp_all add: eventOf_def)
  show ?case
    unfolding numbered_Cons fold_simps Cons.IH [OF seq]
    by (simp add: replayEvent_def e replay_def) (cases p; auto simp: ex_disj_distrib add.assoc)
qed

lemma committedEvents_replay [simp]:
  "replay ts (committedEvents ts' previous evs g) T = replay ts evs T"
  "(\<exists>k. GraphSealed k \<in> set (committedEvents ts' previous evs g)) \<longleftrightarrow> (\<exists>k. GraphSealed k \<in> set evs)"
  "filter isAdded (committedEvents ts' previous evs g) = filter isAdded evs"
  "committedEvents ts' previous evs g = [] \<Longrightarrow> evs = []"
  by (auto simp: committedEvents_def Let_def replay_def split: if_splits)

lemma changed_events:
  "g_events (changed g ts T s evs) = g_events g @ drop (length (g_events g)) (g_events (changed g ts T s evs))"
  by (simp add: changed_def committed_eq Let_def)

lemma replay_changed:
  assumes inv: "graphInv g" and ok: "changeOk g ts T s evs"
  shows "fold replayEvent (drop (length (g_events g)) (g_events (changed g ts T s evs))) g = changed g ts T s evs"
proof -
  let ?g = "g\<lparr>g_tasks := T, g_sealed := s, g_nextOrder := int (length T)\<rparr>"
  let ?all = "committedEvents ts (calculateGraphStatus g) evs ?g"
  let ?h = "?g\<lparr>g_version := g_version g + 1, g_updatedAt := ts\<rparr>"
  have new: "changed g ts T s evs = ?h\<lparr>g_eventSequence := g_eventSequence g + int (length ?all),
      g_events := g_events g @ numbered ?h ts (length ?all) 0 ?all\<rparr>"
    by (simp add: changed_def committed_eq Let_def)
  have ne: "?all \<noteq> []" using committedEvents_replay(4) ok by (auto simp: changeOk_def)
  have added: "g_nextOrder g + int (length (filter isAdded evs)) = int (length T)"
    using ok inv by (simp add: changeOk_def graphInv_def)
  have sealed: "(g_sealed g \<or> (\<exists>k. GraphSealed k \<in> set evs)) = s"
    using ok by (auto simp: changeOk_def)
  have "fold replayEvent (numbered ?h ts (length ?all) 0 ?all) g = changed g ts T s evs"
    unfolding new
    by (subst replayEvent_numbered) (use ok ne added sealed in \<open>simp_all add: changeOk_def\<close>)
  then show ?thesis by (simp add: new)
qed

section \<open>Readiness and progress\<close>

text \<open>The dependency relation between the tasks of a graph, and its status.\<close>

definition dependsOn :: "task list \<Rightarrow> (task \<times> task) set" where
  "dependsOn tasks = {(t, d). t \<in> set tasks \<and> d \<in> set tasks \<and> t_id d \<in> set (t_dependencies t)}"

lemma sealed_states:
  assumes "graphInv g" and "g_sealed g" and "t \<in> set (g_tasks g)"
  shows "outcomeOk (g_tasks g) t" and "reconciled (g_tasks g) t"
  using assms graphInvD(6) [OF assms(1)] by (simp_all add: statesOk_def)

lemma dependency_status:
  assumes "graphInv g" and "(t, d) \<in> dependsOn (g_tasks g)"
  shows "statusIn (g_tasks g) (t_id d) = Some (t_status d)" and "t_id d \<in> set (t_dependencies t)"
    and "t \<in> set (g_tasks g)" and "d \<in> set (g_tasks g)"
  using assms graphInvD(3) [OF assms(1)] by (auto simp: dependsOn_def intro: statusIn_task)

lemma started_needs_success:
  assumes inv: "graphInv g" and sealed: "g_sealed g" and "(t, d) \<in> (dependsOn (g_tasks g))\<^sup>+"
    and "t_status t \<in> {Ready, Running, Waiting, NeedsResolution, Succeeded, Failed}"
  shows "t_status d = Succeeded"
  using assms(3,4)
proof (induction rule: trancl_induct)
  case (base d)
  then have "allSucceeded (g_tasks g) t"
    using sealed_states(1) [OF inv sealed dependency_status(3) [OF inv base(1)]] by (auto simp: outcomeOk_def)
  then show ?case
    using dependency_status [OF inv base(1)] by (auto simp: allSucceeded_def list_all_iff)
next
  case (step d e)
  then have "allSucceeded (g_tasks g) d"
    using sealed_states(1) [OF inv sealed dependency_status(3) [OF inv step(2)]] by (auto simp: outcomeOk_def)
  then show ?case
    using dependency_status [OF inv step(2)] by (auto simp: allSucceeded_def list_all_iff)
qed

lemma failure_spreads:
  assumes inv: "graphInv g" and sealed: "g_sealed g" and "(t, d) \<in> (dependsOn (g_tasks g))\<^sup>+"
    and "unsuccessful (t_status d)"
  shows "t_status t \<in> {Blocked, Cancelled}"
proof -
  have one: "t_status t \<in> {Blocked, Cancelled}"
    if td: "(t, d) \<in> dependsOn (g_tasks g)" and bad: "unsuccessful (t_status d)" for t d
  proof -
    note st = dependency_status [OF inv td]
    have "t_id d \<in> set (failedDependencies (g_tasks g) t)"
      using st(1,2) bad by (simp add: failedDependencies_def)
    moreover have "\<not> allSucceeded (g_tasks g) t"
      using st(1,2) bad by (force simp: allSucceeded_def list_all_iff)
    ultimately show ?thesis
      using sealed_states [OF inv sealed st(3)] by (cases "t_status t") (auto simp: outcomeOk_def reconciled_def)
  qed
  show ?thesis
    using assms(3)
  proof (induction rule: converse_trancl_induct)
    case (base t)
    then show ?case using one assms(4) by blast
  next
    case (step t u)
    then show ?case using one by fastforce
  qed
qed

lemma some_task_is_live:
  assumes inv: "graphInv g" and sealed: "g_sealed g" and opn: "t \<in> set (g_tasks g)" "\<not> terminal (t_status t)"
  shows "\<exists>u \<in> set (g_tasks g). t_status u \<in> {Ready, Running, Waiting, NeedsResolution}"
proof -
  obtain rank where r: "ranks (g_tasks g) rank"
    using graphInvD(4) [OF inv] by (auto simp: shapeOk_def layered_def)
  show ?thesis
    using opn
  proof (induction "rank (t_id t)" arbitrary: t rule: less_induct)
    case less
    show ?case
    proof (cases "t_status t = Pending")
      case True
      then have "\<not> allSucceeded (g_tasks g) t" "failedDependencies (g_tasks g) t = []"
        using sealed_states(2) [OF inv sealed less.prems(1)] by (simp_all add: reconciled_def)
      then obtain d where d: "d \<in> set (t_dependencies t)" "statusIn (g_tasks g) d \<noteq> Some Succeeded"
        "\<not> (case statusIn (g_tasks g) d of Some s \<Rightarrow> unsuccessful s | None \<Rightarrow> False)"
        by (auto simp: allSucceeded_def list_all_iff failedDependencies_def filter_empty_conv)
      obtain u where u: "u \<in> set (g_tasks g)" "t_id u = d"
        using graphInvD(2) [OF inv] less.prems(1) d(1) by (auto simp: wellKeyed_def taskIds_def)
      have "\<not> terminal (t_status u)"
        using d(2,3) statusIn_task [OF graphInvD(3) [OF inv] u(1)] u(2) by auto
      moreover have "rank (t_id u) < rank (t_id t)" using r less.prems(1) d(1) u(2) by (simp add: ranks_def)
      ultimately show ?thesis using less.hyps u(1) by blast
    next
      case False
      then show ?thesis using less.prems by (cases "t_status t") auto
    qed
  qed
qed

lemma active_iff:
  assumes "graphInv g"
  shows "calculateGraphStatus g = Active \<longleftrightarrow> g_sealed g \<and> (\<exists>t \<in> set (g_tasks g). \<not> terminal (t_status t))"
  by (auto simp: calculateGraphStatus_def list_all_iff list_ex_iff)

section \<open>Ready tasks\<close>

lemma mapE_clone:
  "\<forall>t \<in> set ts. cleanMetadata (t_metadata t) \<Longrightarrow> mapE cloneAndFreezeTask ts = Inr ts"
  using mapE_map_Inr [of ts cloneAndFreezeTask id id] by simp

lemma getReadyTasks_eq:
  assumes inv: "graphInv g"
  shows "getReadyTasks query g = bindE (parseReadyTaskQuery (optionsOrEmpty query)) (\<lambda>limit.
     Inr (take limit (sort_key (\<lambda>t. (- t_priority t, t_order t)) (filter (\<lambda>t. t_status t = Ready) (g_tasks g)))))"
proof -
  have "mapE cloneAndFreezeTask (take k (sort_key f (filter P (g_tasks g)))) = Inr (take k (sort_key f (filter P (g_tasks g))))"
    for k P and f :: "task \<Rightarrow> int \<times> int"
    using graphInvD(5) [OF inv] by (intro mapE_clone) (auto simp: cleanTask_def dest: in_set_takeD)
  then show ?thesis by (simp add: getReadyTasks_def orderedTasks_id [OF inv])
qed

end
