(* ===== verification/Task_Graph_Claims.thy ===== *)
theory Task_Graph_Claims
  imports Task_Graph_Props "HOL-Library.Code_Target_Numeral"
begin

text \<open>
  The properties of the task graph, each with a witness: a small project (\<open>b\<close> depends on \<open>a\<close>)
  created, planned, sealed and run by the commands of the model, evaluated in the kernel.
\<close>

section \<open>A sample project\<close>

definition sampleClock :: "nat \<Rightarrow> clock_reading" where
  "sampleClock n = ClockDate (1767225600000 + int n)"

definition sampleInput :: jsval where
  "sampleInput = plainObj [(''graphId'', JStr ''g''), (''projectId'', JStr ''p'')]"

definition sampleTask :: "string \<Rightarrow> string list \<Rightarrow> int \<Rightarrow> jsval" where
  "sampleTask i ds priority = plainObj [(''id'', JStr i), (''kind'', JStr ''build''), (''title'', JStr ''Build''),
     (''dependencies'', plainArr (map JStr ds)), (''priority'', jsInt priority)]"

definition sampleFailure :: jsval where
  "sampleFailure = plainObj [(''code'', JStr ''E1''), (''message'', JStr ''broken''), (''retryable'', JBool False)]"

definition sampleEmpty :: graph where
  "sampleEmpty = (case create sampleInput JUndef (sampleClock 0) of Inr g \<Rightarrow> g)"

definition samplePlan :: "(command \<times> clock_reading) list" where
  "samplePlan =
     [(AddTasks (plainArr [sampleTask ''b'' [''a''] 0, sampleTask ''a'' [] 0]) JUndef, sampleClock 1),
      (Seal JUndef, sampleClock 2)]"

definition sampleSealed :: graph where
  "sampleSealed = executeAll runCommand samplePlan sampleEmpty"

definition sampleRunning :: graph where
  "sampleRunning = snd (runCommand (StartTask (JStr ''a'') JUndef) (sampleClock 3) sampleSealed)"

definition sampleFailed :: graph where
  "sampleFailed = snd (runCommand (FailTask (JStr ''a'') sampleFailure JUndef) (sampleClock 4) sampleRunning)"

lemma sampleEmpty_created: "create sampleInput JUndef (sampleClock 0) = Inr sampleEmpty"
proof -
  have "isOk (create sampleInput JUndef (sampleClock 0))" by code_simp
  then show ?thesis unfolding sampleEmpty_def by (cases "create sampleInput JUndef (sampleClock 0)") auto
qed

lemma sample_reachable: "reachable sampleEmpty" "reachable sampleSealed" "reachable sampleRunning" "reachable sampleFailed"
proof -
  show e: "reachable sampleEmpty" by (rule reachable.created [OF sampleEmpty_created])
  then show s: "reachable sampleSealed"
    unfolding sampleSealed_def by (rule reachable_executeAll)
  then show r: "reachable sampleRunning" unfolding sampleRunning_def by (rule reachable.stepped)
  then show "reachable sampleFailed" unfolding sampleFailed_def by (rule reachable.stepped)
qed

lemmas sample_inv = sample_reachable [THEN reachable_inv]

section \<open>All commands\<close>

text \<open>
  C1: every graph that can be built by \<open>create\<close> and any sequence of commands with any arguments and
  any clock satisfies the invariant: ids are distinct, dependencies known, acyclic and within the
  limits, positions contiguous, every task's status is justified by its dependencies, timestamps
  are ordered, versions and event numbers are within the safe integers.
\<close>

theorem reachable_graphs_are_valid: "reachable g \<Longrightarrow> graphInv g"
  by (rule reachable_inv)

theorem reachable_graphs_are_valid_witness: "graphInv sampleRunning"
  by (rule reachable_graphs_are_valid [OF sample_reachable(3)])

text \<open>
  C3: commands are atomic. Whichever exception a command ends with, the graph, its events and its
  counters are exactly what they were.
\<close>

theorem failed_command_changes_nothing:
  assumes "graphInv g" and "fst (runCommand cmd clock g) = Inl e"
  shows "snd (runCommand cmd clock g) = g"
  using assms by (rule runCommand_atomic)

theorem failed_command_changes_nothing_witness:
  "snd (runCommand (StartTask (JStr ''b'') JUndef) (sampleClock 3) sampleSealed) = sampleSealed"
proof (rule failed_command_changes_nothing [OF sample_inv(2)])
  show "fst (runCommand (StartTask (JStr ''b'') JUndef) (sampleClock 3) sampleSealed) = Inl (TaskGraphError INVALID_TRANSITION)"
    by code_simp
qed

text \<open>
  C2: a command moves a task only along the legal edges of the status machine, keeps its id, kind,
  title, description, priority, metadata, position and creation time, and never touches a task
  that is succeeded, failed, cancelled or blocked.
\<close>

theorem commands_move_tasks_legally:
  assumes "graphInv g" and "findTask (g_tasks g) i = Some a"
  shows "\<exists>b. findTask (g_tasks (snd (runCommand cmd clock g))) i = Some b \<and>
    (t_status b = t_status a \<or> legalStatus (t_status a) (t_status b)) \<and>
    (terminal (t_status a) \<longrightarrow> b = a) \<and>
    t_id b = i \<and> t_kind b = t_kind a \<and> t_title b = t_title a \<and> t_description b = t_description a \<and>
    t_priority b = t_priority a \<and> t_metadata b = t_metadata a \<and> t_order b = t_order a \<and>
    t_createdAt b = t_createdAt a"
proof -
  have "t_id a = i" using assms findTask_Some_iff [OF graphInvD(3) [OF assms(1)]] by simp
  moreover obtain b ts where b: "findTask (g_tasks (snd (runCommand cmd clock g))) i = Some b" "b = a \<or> evolves ts a b"
    using runCommand_task [OF assms] by blast
  moreover have "terminal (t_status a) \<longrightarrow> b = a" using b(2) evolves_final by blast
  moreover from b(2) consider "b = a" | "sameDefinition a b" "legalStatus (t_status a) (t_status b)"
    | d where "b = a\<lparr>t_dependencies := t_dependencies a @ [d], t_updatedAt := ts\<rparr>"
    unfolding evolves_def advances_def by blast
  then have "(t_status b = t_status a \<or> legalStatus (t_status a) (t_status b)) \<and>
    t_id b = t_id a \<and> t_kind b = t_kind a \<and> t_title b = t_title a \<and> t_description b = t_description a \<and>
    t_priority b = t_priority a \<and> t_metadata b = t_metadata a \<and> t_order b = t_order a \<and>
    t_createdAt b = t_createdAt a"
    by cases (simp_all add: sameDefinition_def)
  ultimately show ?thesis by blast
qed

theorem commands_move_tasks_legally_witness:
  "\<exists>b. findTask (g_tasks (snd (runCommand (CancelRemaining JUndef) (sampleClock 9) sampleFailed))) ''a'' = Some b \<and>
    t_status b = Failed"
proof -
  obtain a where "findTask (g_tasks sampleFailed) ''a'' = Some a" "terminal (t_status a)" "t_status a = Failed"
  proof -
    have "map_option t_status (findTask (g_tasks sampleFailed) ''a'') = Some Failed" by code_simp
    then show ?thesis using that by fastforce
  qed
  then show ?thesis
    using commands_move_tasks_legally [OF sample_inv(4), of "''a''" a "CancelRemaining JUndef" "sampleClock 9"] by fastforce
qed

text \<open>
  an outcome is final. Once a task has reached a terminal status, no sequence of commands
  changes its record any more, neither the status nor its artifacts, failure or timestamps.
\<close>

theorem outcomes_are_final:
  assumes "graphInv g" and "findTask (g_tasks g) i = Some a" and "terminal (t_status a)"
  shows "findTask (g_tasks (executeAll runCommand cmds g)) i = Some a"
  using assms by (rule task.final_forever)

theorem outcomes_are_final_witness:
  "findTask (g_tasks (executeAll runCommand samplePlan sampleFailed)) ''a'' = findTask (g_tasks sampleFailed) ''a''"
proof -
  have "\<exists>a. findTask (g_tasks sampleFailed) ''a'' = Some a \<and> terminal (t_status a)"
  proof -
    have "map_option t_status (findTask (g_tasks sampleFailed) ''a'') = Some Failed" by code_simp
    then show ?thesis by fastforce
  qed
  then show ?thesis using outcomes_are_final [OF sample_inv(4)] by metis
qed



text \<open>
  event numbers have no gaps. The events not yet acknowledged carry exactly the last numbers up
  to the graph's event sequence, and neither that nor the version ever leaves the safe integers.
\<close>

theorem event_numbers_are_contiguous:
  assumes "reachable g"
  shows "map e_sequence (g_events g) = [g_eventSequence g - int (length (g_events g)) + 1 .. g_eventSequence g] \<and>
    0 \<le> g_version g \<and> g_version g \<le> g_eventSequence g \<and> g_eventSequence g \<le> MAX_SEQUENCE"
  using reachable_inv [OF assms] by (simp add: graphInv_def eventsOk_def)

theorem event_numbers_are_contiguous_witness:
  "map e_sequence (g_events sampleSealed) = [g_eventSequence sampleSealed - int (length (g_events sampleSealed)) + 1 .. g_eventSequence sampleSealed]"
  using event_numbers_are_contiguous [OF sample_reachable(2)] by simp

text \<open>
  no lost updates. If a command succeeded, a later command that still expects the version from
  before it fails, whatever other commands ran in between.
\<close>

theorem stale_writers_fail:
  assumes "graphInv g" and "\<not> mayIdle cmd" and "isOk (fst (runCommand cmd clock g))"
    and "expectedOf cmd' = Some (g_version g)"
  shows "\<not> isOk (fst (runCommand cmd' clock' (executeAll runCommand cmds (snd (runCommand cmd clock g)))))"
  using assms(1) TrueI assms(3,2,4) by (rule graph.no_lost_update)

theorem stale_writers_fail_witness:
  "\<not> isOk (fst (runCommand (FailTask (JStr ''a'') sampleFailure (plainObj [(''expectedVersion'', jsInt 2)])) (sampleClock 9)
     (executeAll runCommand [] (snd (runCommand (StartTask (JStr ''a'') JUndef) (sampleClock 3) sampleSealed)))))"
proof (rule stale_writers_fail [OF sample_inv(2)])
  show "isOk (fst (runCommand (StartTask (JStr ''a'') JUndef) (sampleClock 3) sampleSealed))" by code_simp
  show "expectedOf (FailTask (JStr ''a'') sampleFailure (plainObj [(''expectedVersion'', jsInt 2)])) = Some (g_version sampleSealed)"
    by code_simp
qed simp

text \<open>
  the guards come first and in order. The first guard that rejects (a call from the clock
  callback, the wrong phase, malformed options, exhausted counters, a version conflict) decides
  the exception, before any other argument is looked at, and the graph is unchanged.
\<close>

theorem admission_decides_the_exception:
  assumes "admission cmd g = Inl e"
  shows "runCommand cmd clock g = (Inl e, g)"
  using assms by (rule admission_first)

theorem admission_decides_the_exception_witness:
  "runCommand (StartTask (JStr ''zzz'') (plainObj [(''expectedVersion'', jsInt 7)])) ClockThrows sampleSealed =
     (Inl (TaskGraphError CONCURRENCY_CONFLICT), sampleSealed)"
  by (rule admission_decides_the_exception) code_simp

section \<open>Scheduling\<close>

text \<open>
  C10: safety of execution. In a sealed graph a task that is ready, running, waiting or finished by
  its own doing has all its direct and indirect dependencies succeeded.
\<close>

theorem started_tasks_have_succeeded_dependencies:
  assumes "graphInv g" and "g_sealed g" and "(t, d) \<in> (dependsOn (g_tasks g))\<^sup>+"
    and "t_status t \<in> {Ready, Running, Waiting, NeedsResolution, Succeeded, Failed}"
  shows "t_status d = Succeeded"
  using assms by (rule started_needs_success)

definition sampleSecond :: graph where
  "sampleSecond = snd (runCommand (SucceedTask (JStr ''a'') JUndef) (sampleClock 4) sampleRunning)"

lemma sampleSecond_pair:
  "(g_tasks sampleSecond ! 0, g_tasks sampleSecond ! 1) \<in> (dependsOn (g_tasks sampleSecond))\<^sup>+"
proof -
  have "length (g_tasks sampleSecond) = 2" "t_id (g_tasks sampleSecond ! 1) \<in> set (t_dependencies (g_tasks sampleSecond ! 0))"
    by code_simp+
  then show ?thesis by (intro r_into_trancl) (simp add: dependsOn_def)
qed

theorem started_tasks_have_succeeded_dependencies_witness:
  "t_status (g_tasks sampleSecond ! 1) = Succeeded"
proof (rule started_tasks_have_succeeded_dependencies [OF _ _ sampleSecond_pair])
  show "graphInv sampleSecond"
    unfolding sampleSecond_def by (rule runCommand_inv [OF sample_inv(3)])
  show "g_sealed sampleSecond" by code_simp
  have "t_status (g_tasks sampleSecond ! 0) = Ready" by code_simp
  then show "t_status (g_tasks sampleSecond ! 0) \<in> {Ready, Running, Waiting, NeedsResolution, Succeeded, Failed}" by simp
qed

text \<open>
  C4: failure spreads, and at once. In a sealed graph every task that depends, directly or through
  others, on a failed, cancelled or blocked task is itself blocked or cancelled.
\<close>

theorem failures_block_all_dependents:
  assumes "graphInv g" and "g_sealed g" and "(t, d) \<in> (dependsOn (g_tasks g))\<^sup>+" and "unsuccessful (t_status d)"
  shows "t_status t \<in> {Blocked, Cancelled}"
  using assms by (rule failure_spreads)

theorem failures_block_all_dependents_witness:
  "t_status (g_tasks sampleFailed ! 0) \<in> {Blocked, Cancelled}"
proof (rule failures_block_all_dependents [OF sample_inv(4)])
  show "g_sealed sampleFailed" by code_simp
  have "length (g_tasks sampleFailed) = 2" "t_id (g_tasks sampleFailed ! 1) \<in> set (t_dependencies (g_tasks sampleFailed ! 0))"
    by code_simp+
  then show "(g_tasks sampleFailed ! 0, g_tasks sampleFailed ! 1) \<in> (dependsOn (g_tasks sampleFailed))\<^sup>+"
    by (intro r_into_trancl) (simp add: dependsOn_def)
  have "t_status (g_tasks sampleFailed ! 1) = Failed" by code_simp
  then show "unsuccessful (t_status (g_tasks sampleFailed ! 1))" by simp
qed

text \<open>
  C9: no deadlock. While a graph is active there is a task that can be worked on: one that is
  ready, running, waiting or needs a resolution. Tasks never wait for each other in a circle or
  for a decision that has been made.
\<close>

theorem active_graphs_have_live_tasks:
  assumes "graphInv g" and "calculateGraphStatus g = Active"
  shows "\<exists>u \<in> set (g_tasks g). t_status u \<in> {Ready, Running, Waiting, NeedsResolution}"
  using assms some_task_is_live active_iff by blast

theorem active_graphs_have_live_tasks_witness:
  "\<exists>u \<in> set (g_tasks sampleSealed). t_status u \<in> {Ready, Running, Waiting, NeedsResolution}"
  by (rule active_graphs_have_live_tasks [OF sample_inv(2)]) code_simp

text \<open>
  \<open>getReadyTasks\<close> returns the ready tasks and no others, highest priority first and in the order
  they were added among equals, cut off at the limit and nowhere else.
\<close>

theorem ready_tasks_by_priority:
  assumes "graphInv g" and "parseReadyTaskQuery (optionsOrEmpty query) = Inr limit"
  shows "\<exists>ranking. getReadyTasks query g = Inr (take limit ranking) \<and>
    set ranking = {t \<in> set (g_tasks g). t_status t = Ready} \<and> distinct ranking \<and>
    sorted_wrt (\<lambda>a b. t_priority b < t_priority a \<or> t_priority a = t_priority b \<and> t_order a < t_order b) ranking"
proof -
  let ?key = "\<lambda>t. (- t_priority t, t_order t)"
  let ?ready = "filter (\<lambda>t. t_status t = Ready) (g_tasks g)"
  let ?ranking = "sort_key ?key ?ready"
  have dist: "distinct (g_tasks g)"
    using graphInvD(3) [OF assms(1)] by (simp add: taskIds_def distinct_map)
  have inj: "inj_on t_order (set (g_tasks g))"
  proof -
    have "distinct (map t_order (g_tasks g))"
      using graphInvD(4) [OF assms(1)] by (simp add: shapeOk_def distinct_map)
    then show ?thesis by (simp add: distinct_map)
  qed
  have d: "distinct ?ranking" using dist by simp
  have "inj_on ?key (set ?ranking)" using inj by (auto simp: inj_on_def)
  then have "distinct (map ?key ?ranking)" using d by (simp add: distinct_map)
  then have "sorted_wrt (<) (map ?key ?ranking)"
    unfolding strict_sorted_iff using sorted_sort_key by blast
  then have "sorted_wrt (\<lambda>a b. ?key a < ?key b) ?ranking" by (simp only: sorted_wrt_map)
  then have "sorted_wrt (\<lambda>a b. t_priority b < t_priority a \<or> t_priority a = t_priority b \<and> t_order a < t_order b) ?ranking"
    by (rule sorted_wrt_mono_rel [rotated]) auto
  then show ?thesis
    using d assms(2) by (intro exI [of _ ?ranking]) (auto simp: getReadyTasks_eq [OF assms(1)])
qed

theorem ready_tasks_by_priority_witness:
  "\<exists>ranking. getReadyTasks JUndef sampleSealed = Inr (take MAX_TASKS ranking) \<and>
    set ranking = {t \<in> set (g_tasks sampleSealed). t_status t = Ready}"
proof -
  have "parseReadyTaskQuery (optionsOrEmpty JUndef) = Inr MAX_TASKS" by code_simp
  then show ?thesis using ready_tasks_by_priority [OF sample_inv(2)] by blast
qed

section \<open>Topology\<close>

text \<open>
  C8: the sort succeeds exactly on the graphs it should. With distinct ids and known dependencies,
  \<open>topologicalTaskIds\<close> returns if and only if ranks 1 to 128 can be given to the tasks that grow
  along every dependency; in particular it terminates, and never rejects a graph that fits.
\<close>

theorem topological_sort_decides_layering:
  assumes "wellKeyed tasks"
  shows "isOk (topologicalTaskIds tasks cycleErrorCode limitErrorCode) \<longleftrightarrow> layered MAX_DEPTH tasks"
  using assms by (rule topologicalTaskIds_ok_iff)

theorem topological_sort_decides_layering_witness: "layered MAX_DEPTH (g_tasks sampleSealed)"
proof -
  have "isOk (topologicalTaskIds (g_tasks sampleSealed) CYCLIC_DEPENDENCY GRAPH_LIMIT_EXCEEDED)" by code_simp
  then show ?thesis using topological_sort_decides_layering [OF graphInvD(2) [OF sample_inv(2)]] by blast
qed

text \<open>
  what the sort returns is a permutation of the ids in which every task comes after its
  dependencies and, at each position, the task added first among those available.
\<close>

theorem topological_sort_result:
  assumes "wellKeyed tasks" and "topologicalTaskIds tasks cycleErrorCode limitErrorCode = Inr ids"
  shows "mset ids = mset (taskIds tasks) \<and> dependencyOrdered tasks ids \<and> earliestFirst tasks ids"
  using topologicalTaskIds_Inr(1-3) [OF assms] by simp

theorem topological_sort_result_witness:
  "dependencyOrdered (g_tasks sampleSealed) [''a'', ''b'']"
proof -
  have "topologicalTaskIds (g_tasks sampleSealed) CYCLIC_DEPENDENCY GRAPH_LIMIT_EXCEEDED = Inr [''a'', ''b'']" by code_simp
  then show ?thesis using topological_sort_result [OF graphInvD(2) [OF sample_inv(2)]] by blast
qed

text \<open>
  the sort blames the right thing. The cycle error is raised only when no ranks of any height
  exist, that is when the dependencies are cyclic; the limit error only when 128 ranks do not
  suffice; no other exception is possible.
\<close>

theorem topological_sort_errors:
  assumes "wellKeyed tasks" and "topologicalTaskIds tasks CYCLIC_DEPENDENCY GRAPH_LIMIT_EXCEEDED = Inl e"
  shows "e = TaskGraphError CYCLIC_DEPENDENCY \<and> \<not> acyclicTasks tasks \<or>
    e = TaskGraphError GRAPH_LIMIT_EXCEEDED \<and> \<not> layered MAX_DEPTH tasks"
  using topologicalTaskIds_cases [OF assms(1), of CYCLIC_DEPENDENCY GRAPH_LIMIT_EXCEEDED] assms(2) by auto

definition sampleCycle :: "task list" where
  "sampleCycle = map (\<lambda>t. t\<lparr>t_dependencies := (if t_id t = ''a'' then [''b''] else [''a''])\<rparr>) (g_tasks sampleSealed)"

theorem topological_sort_errors_witness: "\<not> acyclicTasks sampleCycle"
proof -
  have "topologicalTaskIds sampleCycle CYCLIC_DEPENDENCY GRAPH_LIMIT_EXCEEDED = Inl (TaskGraphError CYCLIC_DEPENDENCY)"
    by code_simp
  moreover have "wellKeyed sampleCycle" by code_simp
  ultimately show ?thesis using topological_sort_errors by fastforce
qed

end
