(* ===== verification/Task_Snapshot.thy ===== *)
theory Task_Snapshot
  imports Task_Graph_Props
begin

text \<open>
  Snapshots of the task graph: \<open>toSnapshot\<close>, \<open>parseSnapshot\<close>, \<open>parseSnapshotTask\<close>,
  \<open>validateHydratedTaskStates\<close> and \<open>hydrate\<close> of \<open>task-graph.ts\<close>. A snapshot that the graph produced
  is accepted and gives the graph back; a value that is accepted satisfies the invariant. The
  graph orders timestamps as strings, the parser as instants: the two agree on the years 0 to
  9999, which both theorems assume of the stamps involved (\<open>ordinaryStamps\<close>).
\<close>

section \<open>Producing\<close>

definition TASK_GRAPH_SCHEMA_VERSION :: int where "TASK_GRAPH_SCHEMA_VERSION = 1"

record snapshot =
  sn_schemaVersion :: int
  sn_graphId :: string
  sn_projectId :: string
  sn_version :: int
  sn_eventSequence :: int
  sn_sealed :: bool
  sn_createdAt :: string
  sn_updatedAt :: string
  sn_tasks :: "task list"

definition toSnapshot :: "graph \<Rightarrow> tg_error + snapshot" where
  "toSnapshot g =
     bindE (mapE cloneAndFreezeTask (orderedTasks g)) (\<lambda>tasks.
     Inr \<lparr>sn_schemaVersion = TASK_GRAPH_SCHEMA_VERSION, sn_graphId = g_graphId g, sn_projectId = g_projectId g,
          sn_version = g_version g, sn_eventSequence = g_eventSequence g, sn_sealed = g_sealed g,
          sn_createdAt = g_createdAt g, sn_updatedAt = g_updatedAt g, sn_tasks = tasks\<rparr>)"

text \<open>The objects that \<open>toSnapshot\<close> returns, as a parser sees them.\<close>

definition taskVal :: "task \<Rightarrow> jsval" where
  "taskVal t = plainObj [
     (''id'', JStr (t_id t)), (''kind'', JStr (t_kind t)), (''title'', JStr (t_title t)),
     (''description'', jsNullable JStr (t_description t)),
     (''dependencies'', plainArr (map JStr (t_dependencies t))), (''priority'', jsInt (t_priority t)),
     (''metadata'', jsonVal (t_metadata t)), (''status'', JStr (statusText (t_status t))),
     (''blockedBy'', plainArr (map JStr (t_blockedBy t))),
     (''outputArtifactIds'', plainArr (map JStr (t_outputArtifactIds t))),
     (''failure'', jsNullable failureVal (t_failure t)), (''order'', jsInt (t_order t)),
     (''createdAt'', JStr (t_createdAt t)), (''updatedAt'', JStr (t_updatedAt t))]"

definition snapshotVal :: "snapshot \<Rightarrow> jsval" where
  "snapshotVal s = plainObj [
     (''schemaVersion'', jsInt (sn_schemaVersion s)), (''graphId'', JStr (sn_graphId s)),
     (''projectId'', JStr (sn_projectId s)), (''version'', jsInt (sn_version s)),
     (''eventSequence'', jsInt (sn_eventSequence s)), (''sealed'', JBool (sn_sealed s)),
     (''createdAt'', JStr (sn_createdAt s)), (''updatedAt'', JStr (sn_updatedAt s)),
     (''tasks'', plainArr (map taskVal (sn_tasks s)))]"

section \<open>Parsing\<close>

definition parseSnapshotTask :: "jsval \<Rightarrow> tg_error + task" where
  "parseSnapshotTask value =
     bindE (copyPlainDataRecord value INVALID_SNAPSHOT) (\<lambda>record.
     bindE (assertExactKeys record
       [''id'', ''kind'', ''title'', ''description'', ''dependencies'', ''priority'', ''metadata'', ''status'',
        ''blockedBy'', ''outputArtifactIds'', ''failure'', ''order'', ''createdAt'', ''updatedAt''] INVALID_SNAPSHOT) (\<lambda>_.
     bindE (parseStatus (fld record ''status'') INVALID_SNAPSHOT) (\<lambda>status.
     bindE (assertCanonicalTimestamp (fld record ''createdAt'') INVALID_SNAPSHOT) (\<lambda>createdAt.
     bindE (assertCanonicalTimestamp (fld record ''updatedAt'') INVALID_SNAPSHOT) (\<lambda>updatedAt.
     bindE (requireE (dateParse createdAt \<le> dateParse updatedAt) (TaskGraphError INVALID_SNAPSHOT)) (\<lambda>_.
     bindE (assertIdentifier (fld record ''id'') INVALID_SNAPSHOT) (\<lambda>i.
     bindE (assertKind (fld record ''kind'') INVALID_SNAPSHOT) (\<lambda>kind.
     bindE (normalizeRequiredText (fld record ''title'') 300 INVALID_SNAPSHOT) (\<lambda>title.
     bindE (normalizeOptionalText (fld record ''description'') 10000 INVALID_SNAPSHOT) (\<lambda>description.
     bindE (parseUniqueIdentifiers (fld record ''dependencies'') INVALID_SNAPSHOT MAX_DEPENDENCIES_PER_TASK) (\<lambda>dependencies.
     bindE (assertInteger (fld record ''priority'') MIN_PRIORITY MAX_PRIORITY INVALID_SNAPSHOT) (\<lambda>priority.
     bindE (cloneAndFreezeJsonObject (fld record ''metadata'') INVALID_SNAPSHOT) (\<lambda>metadata.
     bindE (parseUniqueIdentifiers (fld record ''blockedBy'') INVALID_SNAPSHOT MAX_DEPENDENCIES_PER_TASK) (\<lambda>blockedBy.
     bindE (parseUniqueIdentifiers (fld record ''outputArtifactIds'') INVALID_SNAPSHOT MAX_OUTPUT_ARTIFACTS_PER_TASK) (\<lambda>outputArtifactIds.
     bindE (if fld record ''failure'' = JNull then Inr None
            else bindE (parseFailure (fld record ''failure'') INVALID_SNAPSHOT) (\<lambda>f. Inr (Some f))) (\<lambda>failure.
     bindE (assertInteger (fld record ''order'') 0 (int MAX_TASKS - 1) INVALID_SNAPSHOT) (\<lambda>order.
     Inr \<lparr>t_id = i, t_kind = kind, t_title = title, t_description = description,
          t_dependencies = dependencies, t_priority = priority, t_metadata = metadata, t_status = status,
          t_blockedBy = blockedBy, t_outputArtifactIds = outputArtifactIds, t_failure = failure,
          t_order = order, t_createdAt = createdAt, t_updatedAt = updatedAt\<rparr>)))))))))))))))))"

definition validateTaskState :: "task list \<Rightarrow> bool \<Rightarrow> task \<Rightarrow> tg_error + unit" where
  "validateTaskState tasks sealed task =
     (if \<not> sealed then
        requireE (\<not> (t_status task \<noteq> Pending \<or> t_blockedBy task \<noteq> [] \<or> t_outputArtifactIds task \<noteq> [] \<or> t_failure task \<noteq> None))
          (TaskGraphError INVALID_SNAPSHOT)
      else
        bindE (mapE (\<lambda>i. taskAt i tasks) (t_dependencies task)) (\<lambda>dependencies.
        let unsuccessful = map t_id (filter (\<lambda>d. unsuccessful (t_status d)) dependencies);
            allSucceeded = list_all (\<lambda>d. t_status d = Succeeded) dependencies in
        bindE (requireE (\<not> (t_status task = Pending \<and> (allSucceeded \<or> unsuccessful \<noteq> [])))
          (TaskGraphError INVALID_SNAPSHOT)) (\<lambda>_.
        bindE (requireE (\<not> (t_status task \<in> set [Ready, Running, Waiting, NeedsResolution, Succeeded, Failed] \<and> \<not> allSucceeded))
          (TaskGraphError INVALID_SNAPSHOT)) (\<lambda>_.
        bindE (if t_status task = Blocked
               then requireE (\<not> (t_blockedBy task = [] \<or> list_ex (\<lambda>i. i \<notin> set unsuccessful) (t_blockedBy task)))
                 (TaskGraphError INVALID_SNAPSHOT)
               else requireE (t_blockedBy task = []) (TaskGraphError INVALID_SNAPSHOT)) (\<lambda>_.
        bindE (requireE ((t_status task = Failed) = (t_failure task \<noteq> None)) (TaskGraphError INVALID_SNAPSHOT)) (\<lambda>_.
        requireE (\<not> (t_status task \<noteq> Succeeded \<and> t_outputArtifactIds task \<noteq> [])) (TaskGraphError INVALID_SNAPSHOT)))))))"

definition validateHydratedTaskStates :: "task list \<Rightarrow> bool \<Rightarrow> tg_error + unit" where
  "validateHydratedTaskStates tasks sealed =
     bindE (mapE (validateTaskState tasks sealed) tasks) (\<lambda>_. Inr ())"

text \<open>The loops of \<open>parseSnapshot\<close>: positions, then ids and timestamps, then dependencies.\<close>

fun checkOrders :: "task list \<Rightarrow> int \<Rightarrow> tg_error + unit" where
  "checkOrders [] index = Inr ()"
| "checkOrders (t # ts) index =
     (if t_order t \<noteq> index then Inl (TaskGraphError INVALID_SNAPSHOT) else checkOrders ts (index + 1))"

definition collectTask :: "string \<Rightarrow> string \<Rightarrow> task \<Rightarrow> task list \<Rightarrow> tg_error + task list" where
  "collectTask createdAt updatedAt task tasks =
     (if t_id task \<in> set (taskIds tasks) then Inl (TaskGraphError INVALID_SNAPSHOT)
      else if dateParse (t_createdAt task) < dateParse createdAt \<or> dateParse (t_updatedAt task) > dateParse updatedAt
      then Inl (TaskGraphError INVALID_SNAPSHOT)
      else Inr (tasks @ [task]))"

definition latestUpdate :: "string \<Rightarrow> task list \<Rightarrow> string" where
  "latestUpdate createdAt tasks =
     foldl (\<lambda>maximum task. if dateParse (t_updatedAt task) > dateParse maximum then t_updatedAt task else maximum) createdAt tasks"

definition parseSnapshot :: "jsval \<Rightarrow> tg_error + (snapshot \<times> task list)" where
  "parseSnapshot value =
     bindE (copyPlainDataRecord value INVALID_SNAPSHOT) (\<lambda>record.
     bindE (assertExactKeys record
       [''schemaVersion'', ''graphId'', ''projectId'', ''version'', ''eventSequence'', ''sealed'', ''createdAt'', ''updatedAt'', ''tasks'']
       INVALID_SNAPSHOT) (\<lambda>_.
     bindE (requireE (fld record ''schemaVersion'' = jsInt TASK_GRAPH_SCHEMA_VERSION) (TaskGraphError INVALID_SNAPSHOT)) (\<lambda>_.
     bindE (assertIdentifier (fld record ''graphId'') INVALID_SNAPSHOT) (\<lambda>graphId.
     bindE (assertIdentifier (fld record ''projectId'') INVALID_SNAPSHOT) (\<lambda>projectId.
     bindE (assertInteger (fld record ''version'') 0 MAX_SEQUENCE INVALID_SNAPSHOT) (\<lambda>version.
     bindE (assertInteger (fld record ''eventSequence'') 0 MAX_SEQUENCE INVALID_SNAPSHOT) (\<lambda>eventSequence.
     bindE (assertBoolean (fld record ''sealed'') INVALID_SNAPSHOT) (\<lambda>sealed.
     bindE (assertCanonicalTimestamp (fld record ''createdAt'') INVALID_SNAPSHOT) (\<lambda>createdAt.
     bindE (assertCanonicalTimestamp (fld record ''updatedAt'') INVALID_SNAPSHOT) (\<lambda>updatedAt.
     bindE (requireE (dateParse createdAt \<le> dateParse updatedAt) (TaskGraphError INVALID_SNAPSHOT)) (\<lambda>_.
     bindE (copyDenseDataArray (fld record ''tasks'') MAX_TASKS INVALID_SNAPSHOT) (\<lambda>taskValues.
     bindE (mapE parseSnapshotTask taskValues) (\<lambda>unsorted.
     let parsedTasks = sort_key t_order unsorted in
     bindE (checkOrders parsedTasks 0) (\<lambda>_.
     bindE (foldE (collectTask createdAt updatedAt) parsedTasks []) (\<lambda>tasks.
     bindE (requireE (eventSequence \<ge> version) (TaskGraphError INVALID_SNAPSHOT)) (\<lambda>_.
     bindE (requireE (\<not> (length tasks = 0 \<and> (version \<noteq> 0 \<or> eventSequence \<noteq> 0 \<or> sealed))) (TaskGraphError INVALID_SNAPSHOT)) (\<lambda>_.
     bindE (requireE (\<not> (length tasks > 0 \<and> version = 0)) (TaskGraphError INVALID_SNAPSHOT)) (\<lambda>_.
     bindE (requireE (\<not> (sealed \<and> version < 2)) (TaskGraphError INVALID_SNAPSHOT)) (\<lambda>_.
     bindE (requireE (latestUpdate createdAt parsedTasks = updatedAt) (TaskGraphError INVALID_SNAPSHOT)) (\<lambda>_.
     bindE (requireE (list_all (\<lambda>t. list_all (\<lambda>d. d \<in> set (taskIds tasks)) (t_dependencies t)) tasks)
       (TaskGraphError INVALID_SNAPSHOT)) (\<lambda>_.
     bindE (assertGraphEdgeLimit tasks INVALID_SNAPSHOT) (\<lambda>_.
     bindE (topologicalTaskIds tasks INVALID_SNAPSHOT INVALID_SNAPSHOT) (\<lambda>_.
     bindE (validateHydratedTaskStates tasks sealed) (\<lambda>_.
     bindE (mapE cloneAndFreezeTask parsedTasks) (\<lambda>copies.
     Inr (\<lparr>sn_schemaVersion = TASK_GRAPH_SCHEMA_VERSION, sn_graphId = graphId, sn_projectId = projectId,
           sn_version = version, sn_eventSequence = eventSequence, sn_sealed = sealed,
           sn_createdAt = createdAt, sn_updatedAt = updatedAt, sn_tasks = copies\<rparr>, tasks))))))))))))))))))))))))))"

text \<open>The constructor of \<open>TaskGraph\<close>.\<close>

definition constructGraph :: "snapshot \<Rightarrow> task list \<Rightarrow> graph" where
  "constructGraph s tasks =
     \<lparr>g_graphId = sn_graphId s, g_projectId = sn_projectId s, g_tasks = tasks, g_version = sn_version s,
      g_eventSequence = sn_eventSequence s, g_sealed = sn_sealed s, g_createdAt = sn_createdAt s,
      g_updatedAt = sn_updatedAt s, g_events = [],
      g_nextOrder = (if tasks = [] then 0 else Max (set (map t_order tasks)) + 1), g_clockActive = False\<rparr>"

definition hydrate :: "jsval \<Rightarrow> jsval \<Rightarrow> tg_error + graph" where
  "hydrate value options =
     bindE (parseSnapshot value) (\<lambda>(snapshot, tasks).
     bindE (resolveClock (optionsOrEmpty options)) (\<lambda>_.
     Inr (constructGraph snapshot tasks)))"

section \<open>The checks against the invariant\<close>

lemma taskVal_parses:
  assumes "cleanTask t" and "0 \<le> t_order t" and "t_order t < int MAX_TASKS"
    and "dateParse (t_createdAt t) \<le> dateParse (t_updatedAt t)"
  shows "parseSnapshotTask (taskVal t) = Inr t"
proof -
  have nn: "failureVal f \<noteq> JNull" for f by (simp add: failureVal_def plainObj_def)
  have p: "isSafeInteger (NInt (t_priority t))" "isSafeInteger (NInt (t_order t))"
    using assms(1-3) by (auto simp: cleanTask_def MIN_PRIORITY_def MAX_PRIORITY_def MAX_TASKS_def)
  show ?thesis
    using assms p nn
    by (cases "t_failure t")
      (simp_all add: parseSnapshotTask_def taskVal_def MAX_DATA_OBJECT_FIELDS_def cleanTask_def cleanIds_def
        del: isSafeInteger.simps parseStatus.simps)
qed

lemma validateTaskState_ok:
  assumes wk: "wellKeyed tasks" and t: "t \<in> set tasks"
  shows "validateTaskState tasks sealed t = Inr () \<longleftrightarrow>
    (if sealed then outcomeOk tasks t \<and> reconciled tasks t else fresh t)"
proof (cases sealed)
  case False
  then show ?thesis by (auto simp: validateTaskState_def fresh_def)
next
  case True
  have dist: "distinct (taskIds tasks)" and sub: "set (t_dependencies t) \<subseteq> set (taskIds tasks)"
    using wk t by (simp_all add: wellKeyed_def)
  obtain us where us: "mapE (\<lambda>i. taskAt i tasks) (t_dependencies t) = Inr us" "map t_id us = t_dependencies t" "set us \<subseteq> set tasks"
    using mapE_taskAt [OF dist sub] .
  note deps = dependencies_of [OF dist us(3,2)]
  have "validateTaskState tasks sealed t = Inr () \<longleftrightarrow>
      \<not> (t_status t = Pending \<and> (allSucceeded tasks t \<or> failedDependencies tasks t \<noteq> [])) \<and>
      \<not> (t_status t \<in> {Ready, Running, Waiting, NeedsResolution, Succeeded, Failed} \<and> \<not> allSucceeded tasks t) \<and>
      (if t_status t = Blocked
       then \<not> (t_blockedBy t = [] \<or> list_ex (\<lambda>i. i \<notin> set (failedDependencies tasks t)) (t_blockedBy t))
       else t_blockedBy t = []) \<and>
      (t_status t = Failed) = (t_failure t \<noteq> None) \<and>
      \<not> (t_status t \<noteq> Succeeded \<and> t_outputArtifactIds t \<noteq> [])"
    using True unfolding validateTaskState_def
    by (simp add: us(1) deps Let_def bindE_Inr_iff del: status_sets map_is_Nil_conv list.map_disc_iff)
  also have "\<dots> \<longleftrightarrow> outcomeOk tasks t \<and> reconciled tasks t"
    unfolding outcomeOk_def reconciled_def list_ex_iff by (auto simp del: insert_iff)
  finally show ?thesis using True by simp
qed

lemma validateHydratedTaskStates_ok:
  assumes "wellKeyed tasks"
  shows "validateHydratedTaskStates tasks sealed = Inr () \<longleftrightarrow> statesOk sealed tasks"
proof -
  have "mapE (validateTaskState tasks sealed) ts = Inr us \<Longrightarrow> \<forall>t \<in> set ts. validateTaskState tasks sealed t = Inr ()" for ts us
    by (induction ts arbitrary: us) (auto simp: bindE_Inr_iff)
  moreover have "\<forall>t \<in> set ts. validateTaskState tasks sealed t = Inr () \<Longrightarrow> \<exists>us. mapE (validateTaskState tasks sealed) ts = Inr us" for ts
    by (induction ts) auto
  ultimately have "validateHydratedTaskStates tasks sealed = Inr () \<longleftrightarrow> (\<forall>t \<in> set tasks. validateTaskState tasks sealed t = Inr ())"
    by (auto simp: validateHydratedTaskStates_def bindE_Inr_iff)
  then show ?thesis using validateTaskState_ok [OF assms] by (simp add: statesOk_def)
qed

lemma checkOrders_ok: "checkOrders ts n = Inr () \<longleftrightarrow> map t_order ts = map (\<lambda>k. n + int k) [0..<length ts]"
proof (induction ts arbitrary: n)
  case (Cons t ts)
  have "map (\<lambda>k. n + int k) [0..<length (t # ts)] = n # map (\<lambda>k. n + 1 + int k) [0..<length ts]"
    by (simp add: map_upt_Suc algebra_simps del: upt_Suc)
  then show ?case using Cons by auto
qed simp

lemma collectTasks_Inr:
  "foldE (collectTask c u) ts acc = Inr out \<longleftrightarrow>
     out = acc @ ts \<and> (\<forall>t \<in> set ts. dateParse c \<le> dateParse (t_createdAt t) \<and> dateParse (t_updatedAt t) \<le> dateParse u) \<and>
     distinct (taskIds ts) \<and> set (taskIds ts) \<inter> set (taskIds acc) = {}"
proof (induction ts arbitrary: acc)
  case Nil
  then show ?case by (auto simp: taskIds_def)
next
  case (Cons t ts)
  show ?case
  proof (cases "t_id t \<in> set (taskIds acc) \<or> dateParse (t_createdAt t) < dateParse c \<or> dateParse (t_updatedAt t) > dateParse u")
    case True
    then show ?thesis by (auto simp: collectTask_def taskIds_def)
  next
    case False
    then show ?thesis using Cons [of "acc @ [t]"] by (auto simp: collectTask_def taskIds_def)
  qed
qed

section \<open>Stamps\<close>

definition ordinaryStamps :: "graph \<Rightarrow> bool" where
  "ordinaryStamps g \<longleftrightarrow> fourDigitStamp (g_createdAt g) \<and> fourDigitStamp (g_updatedAt g) \<and>
     (\<forall>t \<in> set (g_tasks g). fourDigitStamp (t_createdAt t) \<and> fourDigitStamp (t_updatedAt t))"

lemma stampLe_iff: "fourDigitStamp a \<Longrightarrow> fourDigitStamp b \<Longrightarrow> stampLe a b \<longleftrightarrow> dateParse a \<le> dateParse b"
  by (simp add: strLess_stamps not_less)

lemma stamp_inj: "fourDigitStamp a \<Longrightarrow> fourDigitStamp b \<Longrightarrow> dateParse a = dateParse b \<Longrightarrow> a = b"
  unfolding fourDigitStamp_def by (metis canonicalE)

lemma latestUpdate_max:
  "\<forall>t \<in> set ts. dateParse (t_updatedAt t) \<le> dateParse (latestUpdate c ts)"
  "dateParse c \<le> dateParse (latestUpdate c ts)"
  "latestUpdate c ts = c \<or> latestUpdate c ts \<in> t_updatedAt ` set ts"
proof -
  have "(\<forall>t \<in> set ts. dateParse (t_updatedAt t) \<le> dateParse (latestUpdate c ts)) \<and> dateParse c \<le> dateParse (latestUpdate c ts) \<and>
    (latestUpdate c ts = c \<or> latestUpdate c ts \<in> t_updatedAt ` set ts)"
    by (induction ts rule: rev_induct) (auto simp: latestUpdate_def)
  then show "\<forall>t \<in> set ts. dateParse (t_updatedAt t) \<le> dateParse (latestUpdate c ts)"
    "dateParse c \<le> dateParse (latestUpdate c ts)" "latestUpdate c ts = c \<or> latestUpdate c ts \<in> t_updatedAt ` set ts"
    by blast+
qed

lemma latestUpdate_stampsOk:
  assumes "stampsOk c u ts" and "fourDigitStamp c" and "fourDigitStamp u"
    and "\<forall>t \<in> set ts. fourDigitStamp (t_createdAt t) \<and> fourDigitStamp (t_updatedAt t)"
  shows "latestUpdate c ts = u"
proof (cases "ts = []")
  case True
  then show ?thesis using assms(1) by (simp add: stampsOk_def latestUpdate_def)
next
  case False
  then obtain t where t: "t \<in> set ts" "u = t_updatedAt t" using assms(1) by (auto simp: stampsOk_def)
  let ?m = "latestUpdate c ts"
  have le: "dateParse (t_updatedAt s) \<le> dateParse u \<and> dateParse c \<le> dateParse u" if "s \<in> set ts" for s
    using assms that stampLe_iff unfolding stampsOk_def by (meson order.trans)
  have "dateParse u \<le> dateParse ?m" using latestUpdate_max(1) [of ts c] t by blast
  moreover have "dateParse ?m \<le> dateParse u" using latestUpdate_max(3) [of c ts] le t(1) by auto
  moreover have "fourDigitStamp ?m" using latestUpdate_max(3) [of c ts] assms(2,4) by auto
  ultimately show ?thesis using stamp_inj assms(3) by (metis order.antisym)
qed

section \<open>Round trip\<close>

lemma snapshot_orders:
  assumes "shapeOk tasks"
  shows "checkOrders tasks 0 = Inr ()" and "sort_key t_order tasks = tasks"
    and "t \<in> set tasks \<Longrightarrow> 0 \<le> t_order t \<and> t_order t < int MAX_TASKS"
proof -
  have ord: "map t_order tasks = map int [0..<length tasks]" and len: "length tasks \<le> MAX_TASKS"
    using assms by (simp_all add: shapeOk_def)
  then show "checkOrders tasks 0 = Inr ()" by (simp add: checkOrders_ok)
  have "sorted (map t_order tasks)" unfolding ord by (simp add: sorted_wrt_map sorted_wrt_upt)
  then show "sort_key t_order tasks = tasks" by (rule sort_key_id_if_sorted)
  show "0 \<le> t_order t \<and> t_order t < int MAX_TASKS" if "t \<in> set tasks"
  proof -
    have "t_order t \<in> set (map int [0..<length tasks])" using that ord by (metis image_eqI list.set_map)
    then show ?thesis using len by auto
  qed
qed

definition withoutEvents :: "graph \<Rightarrow> graph" where
  "withoutEvents g = g\<lparr>g_events := []\<rparr>"

lemma toSnapshot_run:
  assumes inv: "graphInv g"
  shows "toSnapshot g = Inr \<lparr>sn_schemaVersion = 1, sn_graphId = g_graphId g, sn_projectId = g_projectId g,
          sn_version = g_version g, sn_eventSequence = g_eventSequence g, sn_sealed = g_sealed g,
          sn_createdAt = g_createdAt g, sn_updatedAt = g_updatedAt g, sn_tasks = g_tasks g\<rparr>"
  using graphInvD(5) [OF inv]
  by (simp add: toSnapshot_def orderedTasks_id [OF inv] mapE_clone cleanTask_def TASK_GRAPH_SCHEMA_VERSION_def)

lemma constructGraph_same:
  assumes inv: "graphInv g"
  shows "constructGraph \<lparr>sn_schemaVersion = v, sn_graphId = g_graphId g, sn_projectId = g_projectId g,
          sn_version = g_version g, sn_eventSequence = g_eventSequence g, sn_sealed = g_sealed g,
          sn_createdAt = g_createdAt g, sn_updatedAt = g_updatedAt g, sn_tasks = copies\<rparr> (g_tasks g) = withoutEvents g"
proof -
  have n: "g_nextOrder g = int (length (g_tasks g))" "\<not> g_clockActive g" using inv by (simp_all add: graphInv_def)
  have ord: "map t_order (g_tasks g) = map int [0..<length (g_tasks g)]"
    using graphInvD(4) [OF inv] by (simp add: shapeOk_def)
  have "Max (set (map t_order (g_tasks g))) + 1 = int (length (g_tasks g))" if ne: "g_tasks g \<noteq> []"
  proof -
    have "Max (set (map int [0..<length (g_tasks g)])) = int (length (g_tasks g)) - 1"
      using ne by (intro Max_eqI) (auto simp: image_iff of_nat_diff Suc_le_eq intro!: bexI [of _ "length (g_tasks g) - 1"])
    then show ?thesis unfolding ord by simp
  qed
  then have "(if g_tasks g = [] then 0 else Max (set (map t_order (g_tasks g))) + 1) = g_nextOrder g"
    using n(1) by simp
  then show ?thesis using n(2) unfolding constructGraph_def withoutEvents_def by (cases g) simp
qed

theorem hydrate_toSnapshot:
  assumes inv: "graphInv g" and ord: "ordinaryStamps g" and opt: "resolveClock (optionsOrEmpty options) = Inr ()"
    and s: "toSnapshot g = Inr s"
  shows "hydrate (snapshotVal s) options = Inr (withoutEvents g)"
proof -
  let ?s = "\<lparr>sn_schemaVersion = 1, sn_graphId = g_graphId g, sn_projectId = g_projectId g,
          sn_version = g_version g, sn_eventSequence = g_eventSequence g, sn_sealed = g_sealed g,
          sn_createdAt = g_createdAt g, sn_updatedAt = g_updatedAt g, sn_tasks = g_tasks g\<rparr>"
  note invD = graphInvD [OF inv]
  note orders = snapshot_orders [OF invD(4)]
  have stamps: "stampsOk (g_createdAt g) (g_updatedAt g) (g_tasks g)" "stampLe (g_createdAt g) (g_updatedAt g)"
    using inv by (simp_all add: graphInv_def tasksInv_def)
  have four: "fourDigitStamp (g_createdAt g)" "fourDigitStamp (g_updatedAt g)"
    "\<forall>t \<in> set (g_tasks g). fourDigitStamp (t_createdAt t) \<and> fourDigitStamp (t_updatedAt t)"
    using ord by (simp_all add: ordinaryStamps_def)
  have cu: "dateParse (g_createdAt g) \<le> dateParse (g_updatedAt g)" using stamps(2) four stampLe_iff by blast
  have ts: "dateParse (t_createdAt t) \<le> dateParse (t_updatedAt t)" "dateParse (g_createdAt g) \<le> dateParse (t_createdAt t)"
    "dateParse (t_updatedAt t) \<le> dateParse (g_updatedAt g)" if "t \<in> set (g_tasks g)" for t
    using stamps(1) four that stampLe_iff unfolding stampsOk_def by blast+
  have parsed: "mapE parseSnapshotTask (map taskVal (g_tasks g)) = Inr (map id (g_tasks g))"
    using taskVal_parses invD(5) orders(3) ts(1) by (intro mapE_map_Inr) simp
  have collected: "foldE (collectTask (g_createdAt g) (g_updatedAt g)) (g_tasks g) [] = Inr (g_tasks g)"
    using ts invD(3) by (simp add: collectTasks_Inr taskIds_def)
  have latest: "latestUpdate (g_createdAt g) (g_tasks g) = g_updatedAt g"
    by (rule latestUpdate_stampsOk [OF stamps(1) four])
  have known: "list_all (\<lambda>t. list_all (\<lambda>d. d \<in> set (taskIds (g_tasks g))) (t_dependencies t)) (g_tasks g)"
    using invD(2) by (auto simp: wellKeyed_def list_all_iff)
  obtain ids where topo: "topologicalTaskIds (g_tasks g) INVALID_SNAPSHOT INVALID_SNAPSHOT = Inr ids"
    using layered_topologicalTaskIds [OF invD(2)] invD(4) by (auto simp: shapeOk_def)
  have edges: "assertGraphEdgeLimit (g_tasks g) INVALID_SNAPSHOT = Inr ()"
    using invD(4) by (simp add: shapeOk_def assertGraphEdgeLimit_iff)
  have states: "validateHydratedTaskStates (g_tasks g) (g_sealed g) = Inr ()"
    using validateHydratedTaskStates_ok [OF invD(2)] invD(6) by simp
  have copies: "mapE cloneAndFreezeTask (g_tasks g) = Inr (g_tasks g)"
    using invD(5) by (intro mapE_clone) (simp add: cleanTask_def)
  have numbers: "0 \<le> g_version g" "g_version g \<le> g_eventSequence g" "g_eventSequence g \<le> MAX_SEQUENCE"
    "if g_tasks g = [] then g_version g = 0 \<and> g_eventSequence g = 0 \<and> \<not> g_sealed g else 0 < g_version g"
    "g_sealed g \<longrightarrow> 2 \<le> g_version g" "length (g_tasks g) \<le> MAX_TASKS"
    "isIdentifier (g_graphId g)" "isIdentifier (g_projectId g)" "canonicalTimestamp (g_createdAt g)" "canonicalTimestamp (g_updatedAt g)"
    using inv invD(4) by (simp_all add: graphInv_def shapeOk_def)
  have ints: "assertInteger (jsInt (g_version g)) 0 MAX_SEQUENCE INVALID_SNAPSHOT = Inr (g_version g)"
    "assertInteger (jsInt (g_eventSequence g)) 0 MAX_SEQUENCE INVALID_SNAPSHOT = Inr (g_eventSequence g)"
    using numbers(1-3) by simp_all
  have nums: "g_tasks g = [] \<Longrightarrow> g_version g = 0 \<and> g_eventSequence g = 0 \<and> \<not> g_sealed g" "g_tasks g = [] \<or> g_version g \<noteq> 0"
    "\<not> (g_sealed g \<and> g_version g < 2)"
    using numbers(4,5) by (auto split: if_splits)
  have "parseSnapshot (snapshotVal ?s) = Inr (?s, g_tasks g)"
    using numbers(2,6-) nums cu
    by (simp add: parseSnapshot_def snapshotVal_def MAX_DATA_OBJECT_FIELDS_def TASK_GRAPH_SCHEMA_VERSION_def ints parsed
        orders(1,2) collected latest known topo edges states copies Let_def requireE_def del: assertInteger.simps)
  moreover have "s = ?s" using s toSnapshot_run [OF inv] by simp
  ultimately show ?thesis using opt constructGraph_same [OF inv] by (simp add: hydrate_def)
qed

section \<open>Soundness\<close>

lemma parseUniqueIdentifiers_clean: "parseUniqueIdentifiers v c m = Inr ids \<Longrightarrow> cleanIds m ids"
  using parseUniqueIdentifiers_Inr by (simp add: cleanIds_def)

lemma parseSnapshotTask_Inr:
  assumes "parseSnapshotTask v = Inr t"
  shows "cleanTask t" and "dateParse (t_createdAt t) \<le> dateParse (t_updatedAt t)"
proof -
  from assms obtain r st c u i k title desc deps pr meta bl outs fl ord
    where p: "canonicalTimestamp c" "canonicalTimestamp u" "dateParse c \<le> dateParse u" "isIdentifier i" "isKind k"
    and title: "normalizeRequiredText (fld r ''title'') 300 INVALID_SNAPSHOT = Inr title"
    and desc: "normalizeOptionalText (fld r ''description'') 10000 INVALID_SNAPSHOT = Inr desc"
    and deps: "parseUniqueIdentifiers (fld r ''dependencies'') INVALID_SNAPSHOT MAX_DEPENDENCIES_PER_TASK = Inr deps"
    and pr: "assertInteger (fld r ''priority'') MIN_PRIORITY MAX_PRIORITY INVALID_SNAPSHOT = Inr pr"
    and meta: "cloneAndFreezeJsonObject (fld r ''metadata'') INVALID_SNAPSHOT = Inr meta"
    and bl: "parseUniqueIdentifiers (fld r ''blockedBy'') INVALID_SNAPSHOT MAX_DEPENDENCIES_PER_TASK = Inr bl"
    and outs: "parseUniqueIdentifiers (fld r ''outputArtifactIds'') INVALID_SNAPSHOT MAX_OUTPUT_ARTIFACTS_PER_TASK = Inr outs"
    and fl: "(if fld r ''failure'' = JNull then Inr None
            else bindE (parseFailure (fld r ''failure'') INVALID_SNAPSHOT) (\<lambda>f. Inr (Some f))) = Inr fl"
    and t: "t = \<lparr>t_id = i, t_kind = k, t_title = title, t_description = desc,
          t_dependencies = deps, t_priority = pr, t_metadata = meta, t_status = st,
          t_blockedBy = bl, t_outputArtifactIds = outs, t_failure = fl,
          t_order = ord, t_createdAt = c, t_updatedAt = u\<rparr>"
    unfolding parseSnapshotTask_def
    by (simp only: bindE_Inr_iff requireE_Inr_iff assertIdentifier_Inr assertKind_Inr assertCanonicalTimestamp_Inr sum.inject) blast
  have "pred_option cleanFailure fl"
    using fl parseFailure_Inr by (auto simp: bindE_Inr_iff split: if_splits)
  then show "cleanTask t"
    using p normalizeRequiredText_Inr [OF title] normalizeOptionalText_Inr [OF desc] parseUniqueIdentifiers_clean [OF deps]
      parseUniqueIdentifiers_clean [OF bl] parseUniqueIdentifiers_clean [OF outs] assertInteger_range [OF pr]
      cloneAndFreezeJsonObject_clean [OF meta]
    by (simp add: t cleanTask_def)
  show "dateParse (t_createdAt t) \<le> dateParse (t_updatedAt t)" using p(3) by (simp add: t)
qed

lemma bindE_InrE: "bindE m f = Inr b \<Longrightarrow> (\<And>a. m = Inr a \<Longrightarrow> f a = Inr b \<Longrightarrow> P) \<Longrightarrow> P"
  by (cases m) auto

lemma requireE_InrE: "requireE c e = Inr u \<Longrightarrow> (c \<Longrightarrow> P) \<Longrightarrow> P"
  by simp

lemma parseSnapshot_Inr:
  assumes "parseSnapshot v = Inr (s, tasks)"
  shows "\<exists>gid pid version seq sealed c u raw ids copies.
    s = \<lparr>sn_schemaVersion = TASK_GRAPH_SCHEMA_VERSION, sn_graphId = gid, sn_projectId = pid,
           sn_version = version, sn_eventSequence = seq, sn_sealed = sealed,
           sn_createdAt = c, sn_updatedAt = u, sn_tasks = copies\<rparr> \<and>
    isIdentifier gid \<and> isIdentifier pid \<and> 0 \<le> version \<and> version \<le> seq \<and> seq \<le> MAX_SEQUENCE \<and>
    canonicalTimestamp c \<and> canonicalTimestamp u \<and> dateParse c \<le> dateParse u \<and>
    length raw \<le> MAX_TASKS \<and> (\<forall>t \<in> set raw. cleanTask t \<and> dateParse (t_createdAt t) \<le> dateParse (t_updatedAt t)) \<and>
    tasks = sort_key t_order raw \<and> checkOrders tasks 0 = Inr () \<and>
    foldE (collectTask c u) tasks [] = Inr tasks \<and> latestUpdate c tasks = u \<and>
    \<not> (length tasks = 0 \<and> (version \<noteq> 0 \<or> seq \<noteq> 0 \<or> sealed)) \<and> \<not> (length tasks > 0 \<and> version = 0) \<and>
    \<not> (sealed \<and> version < 2) \<and>
    list_all (\<lambda>t. list_all (\<lambda>d. d \<in> set (taskIds tasks)) (t_dependencies t)) tasks \<and>
    assertGraphEdgeLimit tasks INVALID_SNAPSHOT = Inr () \<and>
    topologicalTaskIds tasks INVALID_SNAPSHOT INVALID_SNAPSHOT = Inr ids \<and>
    validateHydratedTaskStates tasks sealed = Inr ()"
proof -
  from assms obtain r gid pid version seq sealed c u vs raw tasks' ids copies
    where s: "\<lparr>sn_schemaVersion = TASK_GRAPH_SCHEMA_VERSION, sn_graphId = gid, sn_projectId = pid,
           sn_version = version, sn_eventSequence = seq, sn_sealed = sealed,
           sn_createdAt = c, sn_updatedAt = u, sn_tasks = copies\<rparr> = s" "tasks' = tasks"
    and p: "isIdentifier gid" "isIdentifier pid" "canonicalTimestamp c" "canonicalTimestamp u" "dateParse c \<le> dateParse u"
    and version: "assertInteger (fld r ''version'') 0 MAX_SEQUENCE INVALID_SNAPSHOT = Inr version"
    and seq: "assertInteger (fld r ''eventSequence'') 0 MAX_SEQUENCE INVALID_SNAPSHOT = Inr seq"
    and vs: "copyDenseDataArray (fld r ''tasks'') MAX_TASKS INVALID_SNAPSHOT = Inr vs"
    and raw: "mapE parseSnapshotTask vs = Inr raw"
    and orders: "checkOrders (sort_key t_order raw) 0 = Inr ()"
    and coll: "foldE (collectTask c u) (sort_key t_order raw) [] = Inr tasks'"
    and rest: "version \<le> seq" "\<not> (length tasks' = 0 \<and> (version \<noteq> 0 \<or> seq \<noteq> 0 \<or> sealed))" "\<not> (length tasks' > 0 \<and> version = 0)"
      "\<not> (sealed \<and> version < 2)" "latestUpdate c (sort_key t_order raw) = u"
      "list_all (\<lambda>t. list_all (\<lambda>d. d \<in> set (taskIds tasks')) (t_dependencies t)) tasks'"
      "assertGraphEdgeLimit tasks' INVALID_SNAPSHOT = Inr ()" "topologicalTaskIds tasks' INVALID_SNAPSHOT INVALID_SNAPSHOT = Inr ids"
      "validateHydratedTaskStates tasks' sealed = Inr ()"
    unfolding parseSnapshot_def Let_def
    apply (elim bindE_InrE)
    apply (elim requireE_InrE)
    apply (drule Inr_inject, erule Pair_inject)
    apply (drule assertIdentifier_Inr [THEN iffD1], drule assertIdentifier_Inr [THEN iffD1])
    apply (drule assertCanonicalTimestamp_Inr [THEN iffD1], drule assertCanonicalTimestamp_Inr [THEN iffD1])
    apply (elim conjE)
    apply (rule that)
    apply (assumption | (erule trans, rule arg_cong [where f = Inr], rule unit_eq))+
    done
  have tasks: "tasks' = sort_key t_order raw" using coll by (simp add: collectTasks_Inr)
  have "length raw \<le> MAX_TASKS" using copyDenseDataArray_length [OF vs] mapE_length [OF raw] by simp
  moreover have "\<forall>t \<in> set raw. cleanTask t \<and> dateParse (t_createdAt t) \<le> dateParse (t_updatedAt t)"
    using mapE_set [OF raw] parseSnapshotTask_Inr by blast
  moreover have "0 \<le> version" "seq \<le> MAX_SEQUENCE"
    using assertInteger_range [OF version] assertInteger_range [OF seq] by simp_all
  ultimately show ?thesis
    unfolding s [symmetric] tasks
    by (intro exI conjI) (rule refl p rest(1-5) [unfolded tasks] rest(6-9) [unfolded tasks] orders coll [unfolded tasks] | assumption)+
qed

theorem hydrate_sound:
  assumes "hydrate v options = Inr g" and ord: "ordinaryStamps g"
  shows "graphInv g"
proof -
  from assms(1) obtain s tasks where ps: "parseSnapshot v = Inr (s, tasks)" and g: "g = constructGraph s tasks"
    by (auto simp: hydrate_def bindE_Inr_iff)
  from parseSnapshot_Inr [OF ps] obtain gid pid version seq sealed c u raw ids copies where
    s: "s = \<lparr>sn_schemaVersion = TASK_GRAPH_SCHEMA_VERSION, sn_graphId = gid, sn_projectId = pid,
           sn_version = version, sn_eventSequence = seq, sn_sealed = sealed,
           sn_createdAt = c, sn_updatedAt = u, sn_tasks = copies\<rparr>"
    and a: "isIdentifier gid" "isIdentifier pid" "0 \<le> version" "version \<le> seq" "seq \<le> MAX_SEQUENCE"
      "canonicalTimestamp c" "canonicalTimestamp u" "dateParse c \<le> dateParse u"
    and raw: "length raw \<le> MAX_TASKS" "\<forall>t \<in> set raw. cleanTask t \<and> dateParse (t_createdAt t) \<le> dateParse (t_updatedAt t)"
      "tasks = sort_key t_order raw"
    and orders: "checkOrders tasks 0 = Inr ()" and coll: "foldE (collectTask c u) tasks [] = Inr tasks" and latest: "latestUpdate c tasks = u"
    and nums: "\<not> (length tasks = 0 \<and> (version \<noteq> 0 \<or> seq \<noteq> 0 \<or> sealed))" "\<not> (length tasks > 0 \<and> version = 0)" "\<not> (sealed \<and> version < 2)"
    and known: "list_all (\<lambda>t. list_all (\<lambda>d. d \<in> set (taskIds tasks)) (t_dependencies t)) tasks"
    and checks: "assertGraphEdgeLimit tasks INVALID_SNAPSHOT = Inr ()"
      "topologicalTaskIds tasks INVALID_SNAPSHOT INVALID_SNAPSHOT = Inr ids" "validateHydratedTaskStates tasks sealed = Inr ()"
    by (elim exE conjE) blast
  have clean: "\<forall>t \<in> set tasks. cleanTask t \<and> dateParse (t_createdAt t) \<le> dateParse (t_updatedAt t)" using raw by simp
  have ordn: "map t_order tasks = map int [0..<length tasks]" using orders by (simp add: checkOrders_ok)
  have c: "\<forall>t \<in> set tasks. dateParse c \<le> dateParse (t_createdAt t) \<and> dateParse (t_updatedAt t) \<le> dateParse u"
    and dist: "distinct (taskIds tasks)" using coll by (simp_all add: collectTasks_Inr)
  have wk: "wellKeyed tasks"
    using dist known clean by (auto simp: wellKeyed_def list_all_iff cleanTask_def cleanIds_def)
  have "edgeCount tasks \<le> MAX_EDGES" using checks(1) by (simp add: assertGraphEdgeLimit_iff split: if_splits)
  then have shape: "shapeOk tasks"
    using ordn raw wk topologicalTaskIds_Inr(4) [OF wk checks(2)] by (simp add: shapeOk_def)
  have four: "fourDigitStamp c" "fourDigitStamp u" "\<forall>t \<in> set tasks. fourDigitStamp (t_createdAt t) \<and> fourDigitStamp (t_updatedAt t)"
    using ord by (simp_all add: g s ordinaryStamps_def constructGraph_def)
  have "\<forall>t \<in> set tasks. stampLe c (t_createdAt t) \<and> stampLe (t_createdAt t) (t_updatedAt t) \<and> stampLe (t_updatedAt t) u"
    using c clean four stampLe_iff by blast
  moreover have "if tasks = [] then u = c else u \<in> t_updatedAt ` set tasks"
  proof (cases "tasks = []")
    case True
    then show ?thesis using latest by (simp add: latestUpdate_def)
  next
    case False
    then obtain t where t: "t \<in> set tasks" by (cases tasks) auto
    show ?thesis
    proof (cases "u = c")
      case True
      then have "dateParse (t_updatedAt t) = dateParse u" using t c clean by force
      then have "t_updatedAt t = u" using stamp_inj four t by blast
      then show ?thesis using t False by auto
    next
      case other: False
      then show ?thesis using latestUpdate_max(3) [of c tasks] latest False by simp
    qed
  qed
  ultimately have "stampsOk c u tasks" by (simp add: stampsOk_def)
  moreover have "statesOk sealed tasks" using checks(3) validateHydratedTaskStates_ok [OF wk] by simp
  ultimately have inv: "tasksInv sealed c u tasks" using shape clean by (simp add: tasksInv_def)
  have "Max (set (map t_order tasks)) + 1 = int (length tasks)" if ne: "tasks \<noteq> []"
  proof -
    have "Max (set (map int [0..<length tasks])) = int (length tasks) - 1"
      using ne by (intro Max_eqI) (auto simp: image_iff of_nat_diff Suc_le_eq intro!: bexI [of _ "length tasks - 1"])
    then show ?thesis unfolding ordn by simp
  qed
  then have "(if tasks = [] then 0 else Max (set (map t_order tasks)) + 1) = int (length tasks)" by simp
  moreover have "stampLe c u" using a(8) four stampLe_iff by blast
  ultimately show ?thesis
    using a nums inv by (auto simp: graphInv_def g s constructGraph_def eventsOk_def)
qed

end
