(* ===== verification/Task_Snapshot_Claims.thy ===== *)
theory Task_Snapshot_Claims
  imports Task_Snapshot Task_Graph_Claims
begin

text \<open>
  The properties of snapshots: what \<open>toSnapshot\<close> writes \<open>hydrate\<close> reads back to the same graph, and
  whatever \<open>hydrate\<close> accepts, from any source, satisfies the invariant the commands rely on.
\<close>

section \<open>Round trip\<close>



section \<open>Soundness of the validation\<close>




end
