(* ===== verification/Domain_Guards.thy ===== *)
theory Domain_Guards
  imports Js_Date
begin

text \<open>
  \<open>packages/domain/src/errors.ts\<close> and \<open>internal/guards.ts\<close>: the exceptions of the domain package
  and the guards every parser of that package is made of. A validation error is represented by
  its issue code; paths, messages and the other details are not part of the model. A guard
  reads a value of type \<open>unknown\<close> as reflection shows it; an array guard spreads the array, which
  reads a hole as \<open>undefined\<close> and an accessor through its getter (the value in the model is
  what the getter returns; a getter that throws is not representable).
\<close>

section \<open>Exceptions\<close>

datatype budget_dimension = InputTokens | OutputTokens | TotalTokens | MoneyDim | DurationDim

datatype severity = Hard | Soft

record limit_breach =
  lb_dimension :: budget_dimension
  lb_severity :: severity
  lb_limit :: int
  lb_attempted :: int
  lb_currency :: "string option"

record budget_decision =
  bd_allowed :: bool
  bd_breaches :: "limit_breach list"

datatype domain_error =
    Validation string
  | InvariantViolation
  | SerializationFailed
  | BudgetExceeded budget_decision
  | PolicyViolation "string list"
  | VersionConflict
  | Foreign

abbreviation fail :: "string \<Rightarrow> domain_error + 'a" where
  "fail code \<equiv> Inl (Validation code)"

section \<open>Guards\<close>

fun ensureRecord :: "jsval \<Rightarrow> domain_error + jsrecord" where
  "ensureRecord (JObj plain fs) =
     (if \<not> plain then fail ''exotic_object''
      else if list_ex (\<lambda>(k, _). isSymKey k) fs then fail ''symbol_key''
      else mapE (\<lambda>(k, dataProp, v).
        if keyName k \<in> set DANGEROUS_OBJECT_KEYS then fail ''forbidden_key''
        else if dataProp then Inr (keyName k, v) else fail ''accessor_field'') fs)"
| "ensureRecord (JTrap False) = Inl Foreign"
| "ensureRecord _ = fail ''not_object''"

definition ensureExactKeys :: "jsrecord \<Rightarrow> string list \<Rightarrow> domain_error + unit" where
  "ensureExactKeys r allowedKeys =
     requireE (list_all (\<lambda>(k, _). k \<in> set allowedKeys) r) (Validation ''unexpected_fields'')"

text \<open>A rule without a pattern has the pattern that always matches.\<close>

fun ensureString :: "jsval \<Rightarrow> nat \<Rightarrow> nat \<Rightarrow> (string \<Rightarrow> bool) \<Rightarrow> domain_error + string" where
  "ensureString (JStr s) minLength maxLength pattern =
     (if length s < minLength \<or> length s > maxLength then fail ''bad_length''
      else if \<not> pattern s then fail ''bad_format''
      else Inr s)"
| "ensureString _ minLength maxLength pattern = fail ''not_string''"

text \<open>The members of an enumeration are a datatype here; \<open>text\<close> gives each its string.\<close>

fun ensureEnum :: "jsval \<Rightarrow> ('a \<Rightarrow> string) \<Rightarrow> 'a list \<Rightarrow> domain_error + 'a" where
  "ensureEnum (JStr s) text allowed =
     (case find (\<lambda>a. text a = s) allowed of Some a \<Rightarrow> Inr a | None \<Rightarrow> fail ''bad_enum'')"
| "ensureEnum _ text allowed = fail ''bad_enum''"

fun ensureSafeInteger :: "jsval \<Rightarrow> int \<Rightarrow> int \<Rightarrow> domain_error + int" where
  "ensureSafeInteger (JNum n) minimum maximum =
     (if \<not> isSafeInteger n \<or> intOf n < minimum \<or> intOf n > maximum then fail ''bad_integer''
      else Inr (intOf n))"
| "ensureSafeInteger _ minimum maximum = fail ''bad_integer''"

fun ensureBoolean :: "jsval \<Rightarrow> domain_error + bool" where
  "ensureBoolean (JBool b) = Inr b"
| "ensureBoolean _ = fail ''not_boolean''"

fun ensureTimestamp :: "jsval \<Rightarrow> domain_error + string" where
  "ensureTimestamp (JStr s) =
     (if length s > 30 then fail ''not_timestamp''
      else if canonicalTimestamp s then Inr s
      else fail ''not_canonical_timestamp'')"
| "ensureTimestamp _ = fail ''not_timestamp''"

definition spreadItem :: "(bool \<times> jsval) option \<Rightarrow> jsval" where
  "spreadItem i = (case i of None \<Rightarrow> JUndef | Some (_, v) \<Rightarrow> v)"

fun ensureArray :: "jsval \<Rightarrow> nat \<Rightarrow> domain_error + jsval list" where
  "ensureArray (JArr plain items extra) maxItems =
     (if \<not> plain then fail ''not_array''
      else if length items > maxItems then fail ''too_many_items''
      else if length (filter (\<lambda>i. i \<noteq> None) items) + length extra + 1 \<noteq> length items + 1
              \<or> list_ex isSymKey extra then fail ''sparse_array''
      else Inr (map spreadItem items))"
| "ensureArray (JTrap True) maxItems = Inl Foreign"
| "ensureArray _ maxItems = fail ''not_array''"

definition sortTexts :: "('a \<Rightarrow> string) \<Rightarrow> 'a list \<Rightarrow> 'a list" where
  "sortTexts text xs = map snd (sortKeys (map (\<lambda>a. (text a, a)) (remdups xs)))"

definition ensureEnumArray :: "jsval \<Rightarrow> ('a \<Rightarrow> string) \<Rightarrow> 'a list \<Rightarrow> nat \<Rightarrow> domain_error + 'a list" where
  "ensureEnumArray value text allowed maxItems =
     bindE (ensureArray value maxItems) (\<lambda>items.
     bindE (mapE (\<lambda>item. ensureEnum item text allowed) items) (\<lambda>members.
     Inr (sortTexts text members)))"

definition ensureNullable :: "jsval \<Rightarrow> (jsval \<Rightarrow> domain_error + 'a) \<Rightarrow> domain_error + 'a option" where
  "ensureNullable value parse =
     (if value = JUndef \<or> value = JNull then Inr None
      else bindE (parse value) (\<lambda>a. Inr (Some a)))"

text \<open>\<open>v === i\<close> for an integer \<open>i\<close> (\<open>-0 === 0\<close> holds).\<close>

fun strictlyEqual :: "jsval \<Rightarrow> int \<Rightarrow> bool" where
  "strictlyEqual (JNum (NInt j)) i \<longleftrightarrow> j = i"
| "strictlyEqual (JNum NNegZero) i \<longleftrightarrow> i = 0"
| "strictlyEqual _ i \<longleftrightarrow> False"

definition ensureSchemaVersion :: "jsval \<Rightarrow> int \<Rightarrow> domain_error + unit" where
  "ensureSchemaVersion value expected =
     requireE (strictlyEqual value expected) (Validation ''unsupported_schema_version'')"

text \<open>The identifier shape of \<open>ids.ts\<close>, shared by every identifier of the package, and its parser.\<close>

definition ID_PATTERN :: "string \<Rightarrow> bool" where
  "ID_PATTERN = headTail (\<lambda>c. isUpper c \<or> isLower c \<or> isDigit c)
     (\<lambda>c. isUpper c \<or> isLower c \<or> isDigit c \<or> c \<in> set ''._:-'') 127"

definition parseId :: "jsval \<Rightarrow> domain_error + string" where
  "parseId value = ensureString value 1 128 ID_PATTERN"

fun isId :: "jsval \<Rightarrow> bool" where
  "isId (JStr s) \<longleftrightarrow> ID_PATTERN s"
| "isId _ \<longleftrightarrow> False"

section \<open>What the guards accept\<close>

definition safeKeys :: "(string \<times> 'a) list \<Rightarrow> bool" where
  "safeKeys fs \<longleftrightarrow> list_all (\<lambda>(k, _). k \<notin> set DANGEROUS_OBJECT_KEYS) fs"

lemma safeKeys_simps [simp]:
  "safeKeys []" "safeKeys ((k, v) # fs) \<longleftrightarrow> k \<notin> set DANGEROUS_OBJECT_KEYS \<and> safeKeys fs"
  by (simp_all add: safeKeys_def)

lemma ensureRecord_plainObj [simp]: "safeKeys fs \<Longrightarrow> ensureRecord (plainObj fs) = Inr fs"
proof -
  assume safe: "safeKeys fs"
  have "mapE (\<lambda>(k, dataProp, v).
        if keyName k \<in> set DANGEROUS_OBJECT_KEYS then fail ''forbidden_key''
        else if dataProp then Inr (keyName k, v) else fail ''accessor_field'')
      (map (\<lambda>(k, v). (KStr k, True, v)) fs) = Inr fs"
    using safe by (induction fs) (auto simp del: set_simps)
  moreover have "\<not> list_ex (\<lambda>(k, _). isSymKey k) (map (\<lambda>(k, v). (KStr k, True, v)) fs)"
    by (induction fs) auto
  ultimately show ?thesis by (simp add: plainObj_def)
qed

lemma ensureArray_plainArr [simp]: "length vs \<le> m \<Longrightarrow> ensureArray (plainArr vs) m = Inr vs"
proof -
  assume "length vs \<le> m"
  moreover have "filter (\<lambda>i. i \<noteq> None) (map (\<lambda>v. Some (True, v)) vs) = map (\<lambda>v. Some (True, v)) vs"
    by (rule filter_True) auto
  ultimately show ?thesis by (simp add: plainArr_def comp_def spreadItem_def)
qed

lemma ensureArray_length: "ensureArray v m = Inr vs \<Longrightarrow> length vs \<le> m"
  by (cases v; cases "v = JTrap True") (auto split: if_splits)

declare ensureRecord.simps [simp del] ensureArray.simps [simp del]

lemma ensureExactKeys_simp [simp]:
  "ensureExactKeys r ks = (if fst ` set r \<subseteq> set ks then Inr () else fail ''unexpected_fields'')"
  by (auto simp: ensureExactKeys_def requireE_def list_all_iff)

lemma ensureString_Inr [simp]:
  "ensureString v mn mx p = Inr s \<longleftrightarrow> v = JStr s \<and> mn \<le> length s \<and> length s \<le> mx \<and> p s"
  by (cases v) auto

lemma ensureSafeInteger_Inr:
  "ensureSafeInteger v lo hi = Inr i \<longleftrightarrow>
     (\<exists>n. v = JNum n \<and> isSafeInteger n \<and> i = intOf n \<and> lo \<le> i \<and> i \<le> hi)"
  by (cases v) auto

lemma ensureSafeInteger_range:
  "ensureSafeInteger v lo hi = Inr i \<Longrightarrow> lo \<le> i \<and> i \<le> hi \<and> \<bar>i\<bar> \<le> MAX_SAFE_INTEGER"
  by (auto simp: ensureSafeInteger_Inr elim: isSafeInteger.elims)

lemma ensureSafeInteger_jsInt [simp]:
  "lo \<le> i \<Longrightarrow> i \<le> hi \<Longrightarrow> \<bar>i\<bar> \<le> MAX_SAFE_INTEGER \<Longrightarrow> ensureSafeInteger (jsInt i) lo hi = Inr i"
  by simp

declare ensureSafeInteger.simps [simp del]

lemma ensureBoolean_Inr [simp]: "ensureBoolean v = Inr b \<longleftrightarrow> v = JBool b"
  by (cases v) auto

definition timestampText :: "string \<Rightarrow> bool" where
  "timestampText s \<longleftrightarrow> canonicalTimestamp s \<and> length s \<le> 30"

lemma ensureTimestamp_Inr [simp]: "ensureTimestamp v = Inr s \<longleftrightarrow> v = JStr s \<and> timestampText s"
  by (cases v) (auto simp: timestampText_def)

declare ensureTimestamp.simps(1) [simp del]

lemma ensureTimestamp_text [simp]: "timestampText s \<Longrightarrow> ensureTimestamp (JStr s) = Inr s"
  by simp

lemma ensureEnum_text [simp]: "inj text \<Longrightarrow> a \<in> set allowed \<Longrightarrow> ensureEnum (JStr (text a)) text allowed = Inr a"
  by (induction allowed) (auto simp: inj_eq)

lemma ensureEnum_Inr: "ensureEnum v text allowed = Inr a \<Longrightarrow> v = JStr (text a) \<and> a \<in> set allowed"
  by (cases v) (auto simp: find_Some_iff split: option.splits)

declare ensureEnum.simps(1) [simp del]

declare ensureString.simps(1) [simp del]

lemma ensureNullable_simps [simp]:
  "ensureNullable JNull p = Inr None" "ensureNullable JUndef p = Inr None"
  by (simp_all add: ensureNullable_def)

lemma ensureNullable_jsNullable:
  "\<lbrakk>\<And>a. f a \<noteq> JNull; \<And>a. f a \<noteq> JUndef; \<And>a. x = Some a \<Longrightarrow> p (f a) = Inr a\<rbrakk> \<Longrightarrow>
   ensureNullable (jsNullable f x) p = Inr x"
  by (cases x) (auto simp: ensureNullable_def)

lemma ensureNullable_Inr:
  "ensureNullable v p = Inr x \<longleftrightarrow>
     (if v = JUndef \<or> v = JNull then x = None else \<exists>a. p v = Inr a \<and> x = Some a)"
  by (auto simp: ensureNullable_def bindE_Inr_iff)

lemma ensureNullable_pred:
  "ensureNullable v p = Inr x \<Longrightarrow> (\<And>a. p v = Inr a \<Longrightarrow> P a) \<Longrightarrow> pred_option P x"
  by (auto simp: ensureNullable_Inr split: if_splits)

lemma strictlyEqual_jsInt [simp]: "strictlyEqual (jsInt j) i \<longleftrightarrow> j = i"
  by simp

lemma ensureSchemaVersion_jsInt [simp]: "ensureSchemaVersion (jsInt i) i = Inr ()"
  by (simp add: ensureSchemaVersion_def requireE_def)

lemma ID_PATTERN_length: "ID_PATTERN s \<Longrightarrow> 1 \<le> length s \<and> length s \<le> 128"
  by (cases s) (auto simp: ID_PATTERN_def)

lemma ensureString_id [simp]: "ID_PATTERN s \<Longrightarrow> ensureString (JStr s) (Suc 0) 128 ID_PATTERN = Inr s"
  using ID_PATTERN_length [of s] by (auto simp: ensureString.simps)

lemma parseId_Inr [simp]: "parseId v = Inr s \<longleftrightarrow> v = JStr s \<and> ID_PATTERN s"
  using ID_PATTERN_length by (auto simp: parseId_def)

lemma parseId_text [simp]: "ID_PATTERN s \<Longrightarrow> parseId (JStr s) = Inr s"
  by simp

lemma isId_iff: "isId v \<longleftrightarrow> isOk (parseId v)"
  by (cases v) (auto simp: isOk_iff)

text \<open>An array of members in canonical order: sorted by their texts and without repetition.\<close>

definition canonicalMembers :: "('a \<Rightarrow> string) \<Rightarrow> 'a list \<Rightarrow> bool" where
  "canonicalMembers text xs \<longleftrightarrow> distinct xs \<and> sortedKeys (map (\<lambda>a. (text a, a)) xs)"

lemma sortTexts_set [simp]: "set (sortTexts text xs) = set xs"
  by (auto simp: sortTexts_def image_image)

lemma sortTexts_canonical: "canonicalMembers text (sortTexts text xs)"
proof -
  let ?ps = "sortKeys (map (\<lambda>a. (text a, a)) (remdups xs))"
  have "set ?ps = (\<lambda>a. (text a, a)) ` set xs" by simp
  then have ps: "map (\<lambda>a. (text a, a)) (map snd ?ps) = ?ps"
    by (subst map_map, intro map_idI) auto
  have "mset (map snd ?ps) = mset (remdups xs)" 
    by (simp only: mset_map mset_sortKeys) (simp flip: mset_map add: comp_def)
  then have "distinct (map snd ?ps)" by (metis distinct_remdups mset_eq_imp_distinct_iff)
  then show ?thesis unfolding canonicalMembers_def sortTexts_def ps by (simp add: sortedKeys_sortKeys)
qed

lemma sortTexts_fixed: "canonicalMembers text xs \<Longrightarrow> sortTexts text xs = xs"
  by (simp add: canonicalMembers_def sortTexts_def sortKeys_sorted comp_def remdups_id_iff_distinct [THEN iffD2])

lemma ensureEnumArray_Inr:
  "ensureEnumArray v text allowed m = Inr xs \<Longrightarrow> canonicalMembers text xs \<and> set xs \<subseteq> set allowed"
  by (auto simp: ensureEnumArray_def bindE_Inr_iff sortTexts_canonical) (blast dest: mapE_set ensureEnum_Inr)

lemma ensureEnumArray_texts [simp]:
  assumes "inj text" and "set xs \<subseteq> set allowed" and "length xs \<le> m" and "canonicalMembers text xs"
  shows "ensureEnumArray (plainArr (map (\<lambda>a. JStr (text a)) xs)) text allowed m = Inr xs"
proof -
  have "mapE (\<lambda>item. ensureEnum item text allowed) (map (\<lambda>a. JStr (text a)) xs) = Inr (map id xs)"
    using assms by (intro mapE_map_Inr) auto
  then show ?thesis using assms by (simp add: ensureEnumArray_def sortTexts_fixed)
qed

end
