(* ===== verification/Budget.thy ===== *)
theory Budget
  imports Domain_Guards
begin

text \<open>
  \<open>packages/domain/src/budget.ts\<close>: money, token usage, budgets and usage records, their parsers
  (values of type \<open>unknown\<close> in, records out) and their checked arithmetic. Every amount is a
  safe integer; a sum of two safe integers is safe in floating point exactly when it is safe
  over the integers, so amounts are \<open>int\<close> and the overflow checks are written out.
\<close>

section \<open>Money\<close>

record money =
  m_currency :: string
  m_amountMicros :: int

definition MAX_MONEY_MICROS :: int where "MAX_MONEY_MICROS = MAX_SAFE_INTEGER"
definition MAX_TOKEN_COUNT :: int where "MAX_TOKEN_COUNT = 1000000000000"
definition MAX_DURATION_MS :: int where "MAX_DURATION_MS = 10000000000000"

definition CURRENCY_PATTERN :: "string \<Rightarrow> bool" where
  "CURRENCY_PATTERN s \<longleftrightarrow> length s = 3 \<and> list_all isUpper s"

definition parseCurrencyCode :: "jsval \<Rightarrow> domain_error + string" where
  "parseCurrencyCode value = ensureString value 3 3 CURRENCY_PATTERN"

definition parseMoney :: "jsval \<Rightarrow> domain_error + money" where
  "parseMoney value =
     bindE (ensureRecord value) (\<lambda>r.
     bindE (ensureExactKeys r [''currency'', ''amountMicros'']) (\<lambda>_.
     bindE (parseCurrencyCode (fld r ''currency'')) (\<lambda>currency.
     bindE (ensureSafeInteger (fld r ''amountMicros'') 0 MAX_MONEY_MICROS) (\<lambda>amountMicros.
     Inr \<lparr>m_currency = currency, m_amountMicros = amountMicros\<rparr>))))"

definition createMoney :: "jsval \<Rightarrow> jsval \<Rightarrow> domain_error + money" where
  "createMoney currency amountMicros =
     parseMoney (plainObj [(''currency'', currency), (''amountMicros'', amountMicros)])"

definition zeroMoney :: "string \<Rightarrow> domain_error + money" where
  "zeroMoney currency = createMoney (JStr currency) (jsInt 0)"

definition assertSameCurrency :: "money \<Rightarrow> money \<Rightarrow> domain_error + unit" where
  "assertSameCurrency a b = requireE (m_currency a = m_currency b) InvariantViolation"

definition checkedAddMicros :: "int \<Rightarrow> int \<Rightarrow> domain_error + int" where
  "checkedAddMicros a b =
     (let sum = a + b in
      if \<bar>sum\<bar> > MAX_SAFE_INTEGER \<or> sum > MAX_MONEY_MICROS then Inl InvariantViolation else Inr sum)"

definition addMoney :: "money \<Rightarrow> money \<Rightarrow> domain_error + money" where
  "addMoney a b =
     bindE (assertSameCurrency a b) (\<lambda>_.
     bindE (checkedAddMicros (m_amountMicros a) (m_amountMicros b)) (\<lambda>amount.
     Inr \<lparr>m_currency = m_currency a, m_amountMicros = amount\<rparr>))"

definition subtractMoney :: "money \<Rightarrow> money \<Rightarrow> domain_error + money" where
  "subtractMoney a b =
     bindE (assertSameCurrency a b) (\<lambda>_.
     let difference = m_amountMicros a - m_amountMicros b in
     if difference < 0 then Inl InvariantViolation
     else Inr \<lparr>m_currency = m_currency a, m_amountMicros = difference\<rparr>)"

definition compareMoney :: "money \<Rightarrow> money \<Rightarrow> domain_error + int" where
  "compareMoney a b =
     bindE (assertSameCurrency a b) (\<lambda>_.
     Inr (if m_amountMicros a < m_amountMicros b then -1
          else if m_amountMicros a > m_amountMicros b then 1 else 0))"

definition moneyEquals :: "money \<Rightarrow> money \<Rightarrow> bool" where
  "moneyEquals a b \<longleftrightarrow> m_currency a = m_currency b \<and> m_amountMicros a = m_amountMicros b"

section \<open>Tokens\<close>

record token_usage =
  tu_inputTokens :: int
  tu_outputTokens :: int
  tu_cachedInputTokens :: int
  tu_reasoningTokens :: int

definition parseTokenUsage :: "jsval \<Rightarrow> domain_error + token_usage" where
  "parseTokenUsage value =
     bindE (ensureRecord value) (\<lambda>r.
     bindE (ensureExactKeys r [''inputTokens'', ''outputTokens'', ''cachedInputTokens'', ''reasoningTokens'']) (\<lambda>_.
     bindE (ensureSafeInteger (fld r ''inputTokens'') 0 MAX_TOKEN_COUNT) (\<lambda>input.
     bindE (ensureSafeInteger (fld r ''outputTokens'') 0 MAX_TOKEN_COUNT) (\<lambda>output.
     bindE (ensureSafeInteger (fld r ''cachedInputTokens'') 0 MAX_TOKEN_COUNT) (\<lambda>cached.
     bindE (ensureSafeInteger (fld r ''reasoningTokens'') 0 MAX_TOKEN_COUNT) (\<lambda>reasoning.
     Inr \<lparr>tu_inputTokens = input, tu_outputTokens = output, tu_cachedInputTokens = cached,
          tu_reasoningTokens = reasoning\<rparr>))))))"

text \<open>\<open>a ?? b\<close>.\<close>

definition orElse :: "jsval \<Rightarrow> jsval \<Rightarrow> jsval" where
  "orElse a b = (if a = JUndef \<or> a = JNull then b else a)"

definition createTokenUsage :: "jsrecord \<Rightarrow> domain_error + token_usage" where
  "createTokenUsage input =
     parseTokenUsage (plainObj
       [(''inputTokens'', orElse (fld input ''inputTokens'') (jsInt 0)),
        (''outputTokens'', orElse (fld input ''outputTokens'') (jsInt 0)),
        (''cachedInputTokens'', orElse (fld input ''cachedInputTokens'') (jsInt 0)),
        (''reasoningTokens'', orElse (fld input ''reasoningTokens'') (jsInt 0))])"

definition ZERO_TOKEN_USAGE :: token_usage where
  "ZERO_TOKEN_USAGE = \<lparr>tu_inputTokens = 0, tu_outputTokens = 0, tu_cachedInputTokens = 0, tu_reasoningTokens = 0\<rparr>"

definition checkedAddTokens :: "int \<Rightarrow> int \<Rightarrow> domain_error + int" where
  "checkedAddTokens a b =
     (let sum = a + b in if \<bar>sum\<bar> > MAX_SAFE_INTEGER then Inl InvariantViolation else Inr sum)"

definition addTokenUsage :: "token_usage \<Rightarrow> token_usage \<Rightarrow> domain_error + token_usage" where
  "addTokenUsage a b =
     bindE (checkedAddTokens (tu_inputTokens a) (tu_inputTokens b)) (\<lambda>input.
     bindE (checkedAddTokens (tu_outputTokens a) (tu_outputTokens b)) (\<lambda>output.
     bindE (checkedAddTokens (tu_cachedInputTokens a) (tu_cachedInputTokens b)) (\<lambda>cached.
     bindE (checkedAddTokens (tu_reasoningTokens a) (tu_reasoningTokens b)) (\<lambda>reasoning.
     Inr \<lparr>tu_inputTokens = input, tu_outputTokens = output, tu_cachedInputTokens = cached,
          tu_reasoningTokens = reasoning\<rparr>))))"

definition totalTokens :: "token_usage \<Rightarrow> domain_error + int" where
  "totalTokens usage =
     bindE (checkedAddTokens (tu_inputTokens usage) (tu_cachedInputTokens usage)) (\<lambda>input.
     bindE (checkedAddTokens (tu_outputTokens usage) (tu_reasoningTokens usage)) (\<lambda>output.
     checkedAddTokens input output))"

section \<open>Budgets\<close>

record token_budget =
  tb_maxTotalTokens :: int
  tb_maxInputTokens :: "int option"
  tb_maxOutputTokens :: "int option"
  tb_softMaxTotalTokens :: "int option"

definition parseTokenBudget :: "jsval \<Rightarrow> domain_error + token_budget" where
  "parseTokenBudget value =
     bindE (ensureRecord value) (\<lambda>r.
     bindE (ensureExactKeys r [''maxTotalTokens'', ''maxInputTokens'', ''maxOutputTokens'', ''softMaxTotalTokens'']) (\<lambda>_.
     bindE (ensureSafeInteger (fld r ''maxTotalTokens'') 1 MAX_TOKEN_COUNT) (\<lambda>maxTotal.
     let limitWithin = (\<lambda>key. ensureNullable (fld r key) (\<lambda>limit. ensureSafeInteger limit 1 maxTotal)) in
     bindE (limitWithin ''maxInputTokens'') (\<lambda>maxInput.
     bindE (limitWithin ''maxOutputTokens'') (\<lambda>maxOutput.
     bindE (limitWithin ''softMaxTotalTokens'') (\<lambda>softMax.
     Inr \<lparr>tb_maxTotalTokens = maxTotal, tb_maxInputTokens = maxInput, tb_maxOutputTokens = maxOutput,
          tb_softMaxTotalTokens = softMax\<rparr>))))))"

record monetary_budget =
  mb_limit :: money
  mb_softLimit :: "money option"

definition parseMonetaryBudget :: "jsval \<Rightarrow> domain_error + monetary_budget" where
  "parseMonetaryBudget value =
     bindE (ensureRecord value) (\<lambda>r.
     bindE (ensureExactKeys r [''limit'', ''softLimit'']) (\<lambda>_.
     bindE (parseMoney (fld r ''limit'')) (\<lambda>limit.
     bindE (ensureNullable (fld r ''softLimit'') parseMoney) (\<lambda>softLimit.
     case softLimit of
       None \<Rightarrow> Inr \<lparr>mb_limit = limit, mb_softLimit = None\<rparr>
     | Some soft \<Rightarrow>
         if m_currency soft \<noteq> m_currency limit then fail ''currency_mismatch''
         else if m_amountMicros soft > m_amountMicros limit then fail ''soft_above_hard''
         else Inr \<lparr>mb_limit = limit, mb_softLimit = Some soft\<rparr>))))"

record time_budget =
  tmb_maxDurationMs :: int
  tmb_softMaxDurationMs :: "int option"

definition parseTimeBudget :: "jsval \<Rightarrow> domain_error + time_budget" where
  "parseTimeBudget value =
     bindE (ensureRecord value) (\<lambda>r.
     bindE (ensureExactKeys r [''maxDurationMs'', ''softMaxDurationMs'']) (\<lambda>_.
     bindE (ensureSafeInteger (fld r ''maxDurationMs'') 1 MAX_DURATION_MS) (\<lambda>maxDuration.
     bindE (ensureNullable (fld r ''softMaxDurationMs'') (\<lambda>soft. ensureSafeInteger soft 1 maxDuration)) (\<lambda>softMax.
     Inr \<lparr>tmb_maxDurationMs = maxDuration, tmb_softMaxDurationMs = softMax\<rparr>))))"

record aggregate_budget =
  ab_tokens :: "token_budget option"
  ab_money :: "monetary_budget option"
  ab_time :: "time_budget option"

definition parseAggregateBudget :: "jsval \<Rightarrow> domain_error + aggregate_budget" where
  "parseAggregateBudget value =
     bindE (ensureRecord value) (\<lambda>r.
     bindE (ensureExactKeys r [''tokens'', ''money'', ''time'']) (\<lambda>_.
     bindE (ensureNullable (fld r ''tokens'') parseTokenBudget) (\<lambda>tokens.
     bindE (ensureNullable (fld r ''money'') parseMonetaryBudget) (\<lambda>money.
     bindE (ensureNullable (fld r ''time'') parseTimeBudget) (\<lambda>time.
     if tokens = None \<and> money = None \<and> time = None then fail ''empty_budget''
     else Inr \<lparr>ab_tokens = tokens, ab_money = money, ab_time = time\<rparr>)))))"

definition createAggregateBudget :: "jsrecord \<Rightarrow> domain_error + aggregate_budget" where
  "createAggregateBudget input =
     parseAggregateBudget (plainObj
       [(''tokens'', orElse (fld input ''tokens'') JNull),
        (''money'', orElse (fld input ''money'') JNull),
        (''time'', orElse (fld input ''time'') JNull)])"

section \<open>Usage\<close>

record usage_amounts =
  ua_tokens :: token_usage
  ua_cost :: "money option"
  ua_durationMs :: int

definition parseUsageAmounts :: "jsval \<Rightarrow> domain_error + usage_amounts" where
  "parseUsageAmounts value =
     bindE (ensureRecord value) (\<lambda>r.
     bindE (ensureExactKeys r [''tokens'', ''cost'', ''durationMs'']) (\<lambda>_.
     bindE (parseTokenUsage (fld r ''tokens'')) (\<lambda>tokens.
     bindE (ensureNullable (fld r ''cost'') parseMoney) (\<lambda>cost.
     bindE (ensureSafeInteger (fld r ''durationMs'') 0 MAX_DURATION_MS) (\<lambda>duration.
     Inr \<lparr>ua_tokens = tokens, ua_cost = cost, ua_durationMs = duration\<rparr>)))))"

definition createUsageAmounts :: "jsrecord \<Rightarrow> jsval \<Rightarrow> jsval \<Rightarrow> domain_error + usage_amounts" where
  "createUsageAmounts tokens cost durationMs =
     bindE (createTokenUsage tokens) (\<lambda>t.
     parseUsageAmounts (plainObj
       [(''tokens'', plainObj
           [(''inputTokens'', jsInt (tu_inputTokens t)), (''outputTokens'', jsInt (tu_outputTokens t)),
            (''cachedInputTokens'', jsInt (tu_cachedInputTokens t)), (''reasoningTokens'', jsInt (tu_reasoningTokens t))]),
        (''cost'', orElse cost JNull),
        (''durationMs'', orElse durationMs (jsInt 0))]))"

definition addUsageAmounts :: "usage_amounts \<Rightarrow> usage_amounts \<Rightarrow> domain_error + usage_amounts" where
  "addUsageAmounts a b =
     bindE (case (ua_cost a, ua_cost b) of
         (None, c) \<Rightarrow> Inr c
       | (c, None) \<Rightarrow> Inr c
       | (Some c, Some d) \<Rightarrow> bindE (addMoney c d) (\<lambda>m. Inr (Some m))) (\<lambda>cost.
     let duration = ua_durationMs a + ua_durationMs b in
     if \<bar>duration\<bar> > MAX_SAFE_INTEGER then Inl InvariantViolation
     else
       bindE (addTokenUsage (ua_tokens a) (ua_tokens b)) (\<lambda>tokens.
       Inr \<lparr>ua_tokens = tokens, ua_cost = cost, ua_durationMs = duration\<rparr>))"

definition ZERO_USAGE :: usage_amounts where
  "ZERO_USAGE = \<lparr>ua_tokens = ZERO_TOKEN_USAGE, ua_cost = None, ua_durationMs = 0\<rparr>"

definition usageAmountsEqual :: "usage_amounts \<Rightarrow> usage_amounts \<Rightarrow> bool" where
  "usageAmountsEqual a b \<longleftrightarrow>
     (case ua_cost a of None \<Rightarrow> ua_cost b = None
      | Some c \<Rightarrow> (case ua_cost b of None \<Rightarrow> False | Some d \<Rightarrow> moneyEquals c d)) \<and>
     ua_durationMs a = ua_durationMs b \<and>
     tu_inputTokens (ua_tokens a) = tu_inputTokens (ua_tokens b) \<and>
     tu_outputTokens (ua_tokens a) = tu_outputTokens (ua_tokens b) \<and>
     tu_cachedInputTokens (ua_tokens a) = tu_cachedInputTokens (ua_tokens b) \<and>
     tu_reasoningTokens (ua_tokens a) = tu_reasoningTokens (ua_tokens b)"

datatype usage_kind = Estimated | Actual

fun usageKindText :: "usage_kind \<Rightarrow> string" where
  "usageKindText Estimated = ''estimated''"
| "usageKindText Actual = ''actual''"

datatype scope_type = TaskScope | RunScope | ProjectScope

fun scopeTypeText :: "scope_type \<Rightarrow> string" where
  "scopeTypeText TaskScope = ''task''"
| "scopeTypeText RunScope = ''run''"
| "scopeTypeText ProjectScope = ''project''"

record budget_scope =
  bs_scopeType :: scope_type
  bs_scopeId :: string

definition parseBudgetScope :: "jsval \<Rightarrow> domain_error + budget_scope" where
  "parseBudgetScope value =
     bindE (ensureRecord value) (\<lambda>r.
     bindE (ensureExactKeys r [''scopeType'', ''scopeId'']) (\<lambda>_.
     bindE (ensureEnum (fld r ''scopeType'') scopeTypeText [TaskScope, RunScope, ProjectScope]) (\<lambda>scopeType.
     bindE (ensureString (fld r ''scopeId'') 1 128 ID_PATTERN) (\<lambda>scopeId.
     Inr \<lparr>bs_scopeType = scopeType, bs_scopeId = scopeId\<rparr>))))"

record usage_record =
  ur_kind :: usage_kind
  ur_scope :: budget_scope
  ur_amounts :: usage_amounts
  ur_recordedAt :: string
  ur_traceId :: "string option"

definition USAGE_RECORD_SCHEMA_VERSION :: int where "USAGE_RECORD_SCHEMA_VERSION = 1"

definition parseUsageRecord :: "jsval \<Rightarrow> domain_error + usage_record" where
  "parseUsageRecord value =
     bindE (ensureRecord value) (\<lambda>r.
     bindE (ensureExactKeys r [''schemaVersion'', ''kind'', ''scope'', ''amounts'', ''recordedAt'', ''traceId'']) (\<lambda>_.
     bindE (ensureSchemaVersion (fld r ''schemaVersion'') USAGE_RECORD_SCHEMA_VERSION) (\<lambda>_.
     bindE (ensureEnum (fld r ''kind'') usageKindText [Estimated, Actual]) (\<lambda>kind.
     bindE (parseBudgetScope (fld r ''scope'')) (\<lambda>scope.
     bindE (parseUsageAmounts (fld r ''amounts'')) (\<lambda>amounts.
     bindE (ensureTimestamp (fld r ''recordedAt'')) (\<lambda>recordedAt.
     bindE (ensureNullable (fld r ''traceId'') (\<lambda>trace. ensureString trace 1 128 ID_PATTERN)) (\<lambda>traceId.
     Inr \<lparr>ur_kind = kind, ur_scope = scope, ur_amounts = amounts, ur_recordedAt = recordedAt,
          ur_traceId = traceId\<rparr>))))))))"

definition createUsageRecord :: "jsrecord \<Rightarrow> domain_error + usage_record" where
  "createUsageRecord input =
     parseUsageRecord (plainObj
       [(''schemaVersion'', jsInt USAGE_RECORD_SCHEMA_VERSION), (''kind'', fld input ''kind''),
        (''scope'', fld input ''scope''), (''amounts'', fld input ''amounts''),
        (''recordedAt'', fld input ''recordedAt''), (''traceId'', orElse (fld input ''traceId'') JNull)])"

record usage_summary =
  us_estimated :: usage_amounts
  us_actual :: usage_amounts
  us_recordCount :: nat

definition summarizeStep :: "jsval \<Rightarrow> usage_amounts \<times> usage_amounts \<Rightarrow> domain_error + (usage_amounts \<times> usage_amounts)" where
  "summarizeStep = (\<lambda>value (estimated, actual).
     bindE (parseUsageRecord value) (\<lambda>parsed.
     if ur_kind parsed = Estimated
     then bindE (addUsageAmounts estimated (ur_amounts parsed)) (\<lambda>e. Inr (e, actual))
     else bindE (addUsageAmounts actual (ur_amounts parsed)) (\<lambda>a. Inr (estimated, a))))"

definition summarizeUsage :: "jsval list \<Rightarrow> domain_error + usage_summary" where
  "summarizeUsage records =
     bindE (foldE summarizeStep records (ZERO_USAGE, ZERO_USAGE)) (\<lambda>(estimated, actual).
     Inr \<lparr>us_estimated = estimated, us_actual = actual, us_recordCount = length records\<rparr>)"
end
