(* ===== verification/Budget_Laws.thy ===== *)
theory Budget_Laws
  imports Budget
begin

text \<open>
  What the parsers of \<open>Budget\<close> accept (\<open>...Ok\<close>), how a parsed record looks when it is passed to a
  parser again (\<open>...Val\<close>), the round trips between the two, and the arithmetic of usage: a chain of
  checked additions returns the exact total, in any order, or fails.
\<close>

section \<open>Parsed values\<close>

definition moneyOk :: "money \<Rightarrow> bool" where
  "moneyOk m \<longleftrightarrow> CURRENCY_PATTERN (m_currency m) \<and> 0 \<le> m_amountMicros m \<and> m_amountMicros m \<le> MAX_MONEY_MICROS"

definition moneyVal :: "money \<Rightarrow> jsval" where
  "moneyVal m = plainObj [(''currency'', JStr (m_currency m)), (''amountMicros'', jsInt (m_amountMicros m))]"

definition tokenUsageOk :: "token_usage \<Rightarrow> bool" where
  "tokenUsageOk t \<longleftrightarrow>
     0 \<le> tu_inputTokens t \<and> tu_inputTokens t \<le> MAX_TOKEN_COUNT \<and>
     0 \<le> tu_outputTokens t \<and> tu_outputTokens t \<le> MAX_TOKEN_COUNT \<and>
     0 \<le> tu_cachedInputTokens t \<and> tu_cachedInputTokens t \<le> MAX_TOKEN_COUNT \<and>
     0 \<le> tu_reasoningTokens t \<and> tu_reasoningTokens t \<le> MAX_TOKEN_COUNT"

definition tokenUsageVal :: "token_usage \<Rightarrow> jsval" where
  "tokenUsageVal t = plainObj
     [(''inputTokens'', jsInt (tu_inputTokens t)), (''outputTokens'', jsInt (tu_outputTokens t)),
      (''cachedInputTokens'', jsInt (tu_cachedInputTokens t)), (''reasoningTokens'', jsInt (tu_reasoningTokens t))]"

definition within :: "int \<Rightarrow> int option \<Rightarrow> bool" where
  "within maximum = pred_option (\<lambda>i. 1 \<le> i \<and> i \<le> maximum)"

definition tokenBudgetOk :: "token_budget \<Rightarrow> bool" where
  "tokenBudgetOk b \<longleftrightarrow> 1 \<le> tb_maxTotalTokens b \<and> tb_maxTotalTokens b \<le> MAX_TOKEN_COUNT \<and>
     within (tb_maxTotalTokens b) (tb_maxInputTokens b) \<and> within (tb_maxTotalTokens b) (tb_maxOutputTokens b) \<and>
     within (tb_maxTotalTokens b) (tb_softMaxTotalTokens b)"

definition tokenBudgetVal :: "token_budget \<Rightarrow> jsval" where
  "tokenBudgetVal b = plainObj
     [(''maxTotalTokens'', jsInt (tb_maxTotalTokens b)), (''maxInputTokens'', jsNullable jsInt (tb_maxInputTokens b)),
      (''maxOutputTokens'', jsNullable jsInt (tb_maxOutputTokens b)),
      (''softMaxTotalTokens'', jsNullable jsInt (tb_softMaxTotalTokens b))]"

definition monetaryBudgetOk :: "monetary_budget \<Rightarrow> bool" where
  "monetaryBudgetOk b \<longleftrightarrow> moneyOk (mb_limit b) \<and>
     pred_option (\<lambda>soft. moneyOk soft \<and> m_currency soft = m_currency (mb_limit b) \<and>
       m_amountMicros soft \<le> m_amountMicros (mb_limit b)) (mb_softLimit b)"

definition monetaryBudgetVal :: "monetary_budget \<Rightarrow> jsval" where
  "monetaryBudgetVal b = plainObj [(''limit'', moneyVal (mb_limit b)), (''softLimit'', jsNullable moneyVal (mb_softLimit b))]"

definition timeBudgetOk :: "time_budget \<Rightarrow> bool" where
  "timeBudgetOk b \<longleftrightarrow> 1 \<le> tmb_maxDurationMs b \<and> tmb_maxDurationMs b \<le> MAX_DURATION_MS \<and>
     within (tmb_maxDurationMs b) (tmb_softMaxDurationMs b)"

definition timeBudgetVal :: "time_budget \<Rightarrow> jsval" where
  "timeBudgetVal b = plainObj
     [(''maxDurationMs'', jsInt (tmb_maxDurationMs b)), (''softMaxDurationMs'', jsNullable jsInt (tmb_softMaxDurationMs b))]"

definition aggregateBudgetOk :: "aggregate_budget \<Rightarrow> bool" where
  "aggregateBudgetOk b \<longleftrightarrow> pred_option tokenBudgetOk (ab_tokens b) \<and> pred_option monetaryBudgetOk (ab_money b) \<and>
     pred_option timeBudgetOk (ab_time b) \<and> (ab_tokens b \<noteq> None \<or> ab_money b \<noteq> None \<or> ab_time b \<noteq> None)"

definition aggregateBudgetVal :: "aggregate_budget \<Rightarrow> jsval" where
  "aggregateBudgetVal b = plainObj
     [(''tokens'', jsNullable tokenBudgetVal (ab_tokens b)), (''money'', jsNullable monetaryBudgetVal (ab_money b)),
      (''time'', jsNullable timeBudgetVal (ab_time b))]"

definition usageOk :: "usage_amounts \<Rightarrow> bool" where
  "usageOk u \<longleftrightarrow> tokenUsageOk (ua_tokens u) \<and> pred_option moneyOk (ua_cost u) \<and>
     0 \<le> ua_durationMs u \<and> ua_durationMs u \<le> MAX_DURATION_MS"

definition usageVal :: "usage_amounts \<Rightarrow> jsval" where
  "usageVal u = plainObj
     [(''tokens'', tokenUsageVal (ua_tokens u)), (''cost'', jsNullable moneyVal (ua_cost u)),
      (''durationMs'', jsInt (ua_durationMs u))]"

definition scopeOk :: "budget_scope \<Rightarrow> bool" where
  "scopeOk s \<longleftrightarrow> ID_PATTERN (bs_scopeId s)"

definition scopeVal :: "budget_scope \<Rightarrow> jsval" where
  "scopeVal s = plainObj [(''scopeType'', JStr (scopeTypeText (bs_scopeType s))), (''scopeId'', JStr (bs_scopeId s))]"

definition usageRecordOk :: "usage_record \<Rightarrow> bool" where
  "usageRecordOk r \<longleftrightarrow> scopeOk (ur_scope r) \<and> usageOk (ur_amounts r) \<and> timestampText (ur_recordedAt r) \<and>
     pred_option ID_PATTERN (ur_traceId r)"

definition usageRecordVal :: "usage_record \<Rightarrow> jsval" where
  "usageRecordVal r = plainObj
     [(''schemaVersion'', jsInt USAGE_RECORD_SCHEMA_VERSION), (''kind'', JStr (usageKindText (ur_kind r))),
      (''scope'', scopeVal (ur_scope r)), (''amounts'', usageVal (ur_amounts r)),
      (''recordedAt'', JStr (ur_recordedAt r)), (''traceId'', jsNullable JStr (ur_traceId r))]"

lemmas value_defs = moneyVal_def tokenUsageVal_def tokenBudgetVal_def monetaryBudgetVal_def timeBudgetVal_def
  aggregateBudgetVal_def usageVal_def scopeVal_def usageRecordVal_def

lemmas limit_defs = MAX_MONEY_MICROS_def MAX_TOKEN_COUNT_def MAX_DURATION_MS_def

lemma plainObj_present [simp]: "plainObj fs \<noteq> JNull" "plainObj fs \<noteq> JUndef"
  by (simp_all add: plainObj_def)

lemma dangerous_keys [simp]: "set DANGEROUS_OBJECT_KEYS = {''__proto__'', ''constructor'', ''prototype''}"
  by (simp add: DANGEROUS_OBJECT_KEYS_def)

lemma inj_texts [simp]: "inj usageKindText" "inj scopeTypeText"
  by (auto intro!: injI elim!: usageKindText.elims scopeTypeText.elims)

lemma all_members [simp]: "k = Estimated \<or> k = Actual" "t = TaskScope \<or> t = RunScope \<or> t = ProjectScope"
  by (cases k; simp) (cases t; simp)

subsection \<open>Parsers and their inverses\<close>

lemma CURRENCY_PATTERN_length: "CURRENCY_PATTERN s \<Longrightarrow> length s = 3"
  by (simp add: CURRENCY_PATTERN_def)

lemma parseMoney_moneyVal [simp]: "moneyOk m \<Longrightarrow> parseMoney (moneyVal m) = Inr m"
  by (simp add: parseMoney_def moneyVal_def moneyOk_def parseCurrencyCode_def CURRENCY_PATTERN_length limit_defs ensureString.simps)

lemma parseMoney_Inr: "parseMoney v = Inr m \<Longrightarrow> moneyOk m"
  by (auto simp: parseMoney_def moneyOk_def parseCurrencyCode_def bindE_Inr_iff dest: ensureSafeInteger_range)

lemma parseTokenUsage_val [simp]: "tokenUsageOk t \<Longrightarrow> parseTokenUsage (tokenUsageVal t) = Inr t"
  by (simp add: parseTokenUsage_def tokenUsageVal_def tokenUsageOk_def limit_defs)

lemma parseTokenUsage_Inr: "parseTokenUsage v = Inr t \<Longrightarrow> tokenUsageOk t"
  by (auto simp: parseTokenUsage_def tokenUsageOk_def bindE_Inr_iff dest!: ensureSafeInteger_range)

lemma within_nullable [simp]:
  "within m x \<Longrightarrow> m \<le> MAX_TOKEN_COUNT \<or> m \<le> MAX_DURATION_MS \<Longrightarrow>
   ensureNullable (jsNullable jsInt x) (\<lambda>i. ensureSafeInteger i 1 m) = Inr x"
  by (rule ensureNullable_jsNullable) (auto simp: within_def limit_defs)

lemma nullable_within: "ensureNullable v (\<lambda>i. ensureSafeInteger i 1 m) = Inr x \<Longrightarrow> within m x"
  unfolding within_def by (rule ensureNullable_pred) (auto dest: ensureSafeInteger_range)

lemma parseTokenBudget_val [simp]: "tokenBudgetOk b \<Longrightarrow> parseTokenBudget (tokenBudgetVal b) = Inr b"
  by (simp add: parseTokenBudget_def tokenBudgetVal_def tokenBudgetOk_def Let_def) (simp add: limit_defs)

lemma parseTokenBudget_Inr: "parseTokenBudget v = Inr b \<Longrightarrow> tokenBudgetOk b"
  by (auto simp: parseTokenBudget_def tokenBudgetOk_def bindE_Inr_iff Let_def
      dest!: nullable_within dest: ensureSafeInteger_range)

lemma values_present [simp]:
  "moneyVal m \<noteq> JNull" "moneyVal m \<noteq> JUndef" "tokenBudgetVal t \<noteq> JNull" "tokenBudgetVal t \<noteq> JUndef"
  "monetaryBudgetVal b \<noteq> JNull" "monetaryBudgetVal b \<noteq> JUndef" "timeBudgetVal d \<noteq> JNull" "timeBudgetVal d \<noteq> JUndef"
  "usageVal u \<noteq> JNull" "usageVal u \<noteq> JUndef"
  by (simp_all add: value_defs)

lemma nullable_val:
  "\<lbrakk>pred_option P x; \<And>a. P a \<Longrightarrow> p (f a) = Inr a; \<And>a. f a \<noteq> JNull; \<And>a. f a \<noteq> JUndef\<rbrakk> \<Longrightarrow>
   ensureNullable (jsNullable f x) p = Inr x"
  by (rule ensureNullable_jsNullable) auto

lemma nullable_money [simp]: "pred_option moneyOk x \<Longrightarrow> ensureNullable (jsNullable moneyVal x) parseMoney = Inr x"
  by (erule nullable_val) auto

lemma money_nullable: "ensureNullable v parseMoney = Inr x \<Longrightarrow> pred_option moneyOk x"
  by (erule ensureNullable_pred) (rule parseMoney_Inr)

lemma parseMonetaryBudget_val [simp]:
  assumes "monetaryBudgetOk b"
  shows "parseMonetaryBudget (monetaryBudgetVal b) = Inr b"
proof -
  have "pred_option moneyOk (mb_softLimit b)"
    using assms by (auto simp: monetaryBudgetOk_def elim: option.pred_mono_strong)
  with assms show ?thesis
    by (cases "mb_softLimit b")
      (simp_all add: parseMonetaryBudget_def monetaryBudgetVal_def monetaryBudgetOk_def nullable_money [of "Some _", simplified])
qed

lemma parseMonetaryBudget_Inr: "parseMonetaryBudget v = Inr b \<Longrightarrow> monetaryBudgetOk b"
  by (auto simp: parseMonetaryBudget_def monetaryBudgetOk_def bindE_Inr_iff
      dest!: parseMoney_Inr money_nullable split: option.splits if_splits)

lemma parseTimeBudget_val [simp]: "timeBudgetOk b \<Longrightarrow> parseTimeBudget (timeBudgetVal b) = Inr b"
  by (simp add: parseTimeBudget_def timeBudgetVal_def timeBudgetOk_def) (simp add: limit_defs)

lemma parseTimeBudget_Inr: "parseTimeBudget v = Inr b \<Longrightarrow> timeBudgetOk b"
  by (auto simp: parseTimeBudget_def timeBudgetOk_def bindE_Inr_iff dest!: nullable_within dest: ensureSafeInteger_range)

lemma parseAggregateBudget_val [simp]: "aggregateBudgetOk b \<Longrightarrow> parseAggregateBudget (aggregateBudgetVal b) = Inr b"
  by (auto simp: parseAggregateBudget_def aggregateBudgetVal_def aggregateBudgetOk_def
      nullable_val [where P = tokenBudgetOk] nullable_val [where P = monetaryBudgetOk] nullable_val [where P = timeBudgetOk])

lemma parseAggregateBudget_Inr: "parseAggregateBudget v = Inr b \<Longrightarrow> aggregateBudgetOk b"
  by (auto simp: parseAggregateBudget_def aggregateBudgetOk_def bindE_Inr_iff split: if_splits
      dest!: ensureNullable_pred [where P = tokenBudgetOk, OF _ parseTokenBudget_Inr]
        ensureNullable_pred [where P = monetaryBudgetOk, OF _ parseMonetaryBudget_Inr]
        ensureNullable_pred [where P = timeBudgetOk, OF _ parseTimeBudget_Inr])

lemma parseUsageAmounts_val [simp]: "usageOk u \<Longrightarrow> parseUsageAmounts (usageVal u) = Inr u"
  by (simp add: parseUsageAmounts_def usageVal_def usageOk_def limit_defs)

lemma parseUsageAmounts_Inr: "parseUsageAmounts v = Inr u \<Longrightarrow> usageOk u"
  by (auto simp: parseUsageAmounts_def usageOk_def bindE_Inr_iff dest!: parseTokenUsage_Inr money_nullable ensureSafeInteger_range)

lemma parseBudgetScope_val [simp]: "scopeOk s \<Longrightarrow> parseBudgetScope (scopeVal s) = Inr s"
  by (simp add: parseBudgetScope_def scopeVal_def scopeOk_def)

lemma parseBudgetScope_Inr: "parseBudgetScope v = Inr s \<Longrightarrow> scopeOk s"
  by (auto simp: parseBudgetScope_def scopeOk_def bindE_Inr_iff)

lemma parseUsageRecord_val [simp]:
  assumes "usageRecordOk r"
  shows "parseUsageRecord (usageRecordVal r) = Inr r"
proof -
  have "ensureNullable (jsNullable JStr (ur_traceId r)) (\<lambda>trace. ensureString trace 1 128 ID_PATTERN) = Inr (ur_traceId r)"
    using assms by (intro nullable_val [where P = ID_PATTERN]) (auto simp: usageRecordOk_def dest: ID_PATTERN_length)
  then show ?thesis
    using assms by (simp add: parseUsageRecord_def usageRecordVal_def usageRecordOk_def)
qed

lemma parseUsageRecord_Inr: "parseUsageRecord v = Inr r \<Longrightarrow> usageRecordOk r"
  by (auto simp: parseUsageRecord_def usageRecordOk_def bindE_Inr_iff
      dest!: parseBudgetScope_Inr parseUsageAmounts_Inr ensureNullable_pred [where P = ID_PATTERN])

section \<open>Exact totals\<close>

text \<open>The reference for a chain of additions: the sums over the integers, and the common currency.\<close>

fun costsOf :: "usage_amounts list \<Rightarrow> money list" where
  "costsOf [] = []"
| "costsOf (u # us) = (case ua_cost u of None \<Rightarrow> costsOf us | Some m \<Rightarrow> m # costsOf us)"

definition totalCost :: "usage_amounts list \<Rightarrow> money option" where
  "totalCost us = (case costsOf us of [] \<Rightarrow> None
     | m # ms \<Rightarrow> Some \<lparr>m_currency = m_currency m, m_amountMicros = sum_list (map m_amountMicros (m # ms))\<rparr>)"

definition totalUsage :: "usage_amounts list \<Rightarrow> usage_amounts" where
  "totalUsage us =
     \<lparr>ua_tokens = \<lparr>tu_inputTokens = sum_list (map (tu_inputTokens \<circ> ua_tokens) us),
        tu_outputTokens = sum_list (map (tu_outputTokens \<circ> ua_tokens) us),
        tu_cachedInputTokens = sum_list (map (tu_cachedInputTokens \<circ> ua_tokens) us),
        tu_reasoningTokens = sum_list (map (tu_reasoningTokens \<circ> ua_tokens) us)\<rparr>,
      ua_cost = totalCost us,
      ua_durationMs = sum_list (map ua_durationMs us)\<rparr>"

definition oneCurrency :: "usage_amounts list \<Rightarrow> bool" where
  "oneCurrency us \<longleftrightarrow> (\<forall>m \<in> set (costsOf us). \<forall>n \<in> set (costsOf us). m_currency m = m_currency n)"

definition safeInt :: "int \<Rightarrow> bool" where
  "safeInt i \<longleftrightarrow> 0 \<le> i \<and> i \<le> MAX_SAFE_INTEGER"

definition safeUsage :: "usage_amounts \<Rightarrow> bool" where
  "safeUsage u \<longleftrightarrow> safeInt (tu_inputTokens (ua_tokens u)) \<and> safeInt (tu_outputTokens (ua_tokens u)) \<and>
     safeInt (tu_cachedInputTokens (ua_tokens u)) \<and> safeInt (tu_reasoningTokens (ua_tokens u)) \<and>
     pred_option (\<lambda>m. safeInt (m_amountMicros m)) (ua_cost u) \<and> safeInt (ua_durationMs u)"

lemma usageOk_safe: "usageOk u \<Longrightarrow> safeUsage u"
  by (auto simp: usageOk_def safeUsage_def tokenUsageOk_def moneyOk_def safeInt_def limit_defs elim: option.pred_mono_strong)

lemma costsOf_append [simp]: "costsOf (us @ ws) = costsOf us @ costsOf ws"
  by (induction us) (auto split: option.splits)

lemma totalUsage_Nil [simp]: "totalUsage [] = ZERO_USAGE"
  by (simp add: totalUsage_def totalCost_def ZERO_USAGE_def ZERO_TOKEN_USAGE_def)

lemma totalUsage_single [simp]: "totalUsage [u] = u"
  by (auto simp: totalUsage_def totalCost_def split: option.splits)

lemma oneCurrency_trivial [simp]: "oneCurrency []" "oneCurrency [u]"
  by (auto simp: oneCurrency_def split: option.splits)

lemma totalCost_append:
  "totalCost (us @ ws) = (case totalCost us of None \<Rightarrow> totalCost ws
     | Some c \<Rightarrow> (case totalCost ws of None \<Rightarrow> Some c
       | Some d \<Rightarrow> Some \<lparr>m_currency = m_currency c, m_amountMicros = m_amountMicros c + m_amountMicros d\<rparr>))"
  by (auto simp: totalCost_def split: list.splits)

lemma oneCurrency_Cons: "costsOf us = m # ms \<Longrightarrow> oneCurrency us \<longleftrightarrow> (\<forall>n \<in> set ms. m_currency n = m_currency m)"
  unfolding oneCurrency_def by (metis list.set_intros set_ConsD)

lemma oneCurrency_append:
  "oneCurrency (us @ ws) \<longleftrightarrow> oneCurrency us \<and> oneCurrency ws \<and>
     (\<forall>c d. totalCost us = Some c \<longrightarrow> totalCost ws = Some d \<longrightarrow> m_currency c = m_currency d)"
proof (cases "costsOf us"; cases "costsOf ws")
  fix m ms n ns
  assume us: "costsOf us = m # ms" and ws: "costsOf ws = n # ns"
  have "oneCurrency (us @ ws) \<longleftrightarrow> (\<forall>k \<in> set (ms @ n # ns). m_currency k = m_currency m)"
    using us ws by (intro oneCurrency_Cons) simp
  then show ?thesis using oneCurrency_Cons [OF us] oneCurrency_Cons [OF ws] us ws by (auto simp: totalCost_def)
qed (simp_all add: oneCurrency_def totalCost_def)

lemma addTokenUsage_eq:
  "addTokenUsage a b =
     (if \<bar>tu_inputTokens a + tu_inputTokens b\<bar> \<le> MAX_SAFE_INTEGER \<and> \<bar>tu_outputTokens a + tu_outputTokens b\<bar> \<le> MAX_SAFE_INTEGER \<and>
         \<bar>tu_cachedInputTokens a + tu_cachedInputTokens b\<bar> \<le> MAX_SAFE_INTEGER \<and>
         \<bar>tu_reasoningTokens a + tu_reasoningTokens b\<bar> \<le> MAX_SAFE_INTEGER
      then Inr \<lparr>tu_inputTokens = tu_inputTokens a + tu_inputTokens b, tu_outputTokens = tu_outputTokens a + tu_outputTokens b,
        tu_cachedInputTokens = tu_cachedInputTokens a + tu_cachedInputTokens b,
        tu_reasoningTokens = tu_reasoningTokens a + tu_reasoningTokens b\<rparr>
      else Inl InvariantViolation)"
  by (auto simp: addTokenUsage_def checkedAddTokens_def Let_def)

lemma addMoney_eq:
  "addMoney a b = (if m_currency a = m_currency b \<and> \<bar>m_amountMicros a + m_amountMicros b\<bar> \<le> MAX_SAFE_INTEGER
     then Inr \<lparr>m_currency = m_currency a, m_amountMicros = m_amountMicros a + m_amountMicros b\<rparr>
     else Inl InvariantViolation)"
  by (auto simp: addMoney_def assertSameCurrency_def checkedAddMicros_def Let_def requireE_def MAX_MONEY_MICROS_def)

lemma addUsageAmounts_totals:
  assumes "oneCurrency us" "oneCurrency ws" "safeUsage (totalUsage us)" "safeUsage (totalUsage ws)"
  shows "addUsageAmounts (totalUsage us) (totalUsage ws) =
    (if oneCurrency (us @ ws) \<and> safeUsage (totalUsage (us @ ws)) then Inr (totalUsage (us @ ws))
     else Inl InvariantViolation)"
  using assms
  by (cases "totalCost us"; cases "totalCost ws")
    (auto simp: addUsageAmounts_def addTokenUsage_eq addMoney_eq totalUsage_def safeUsage_def safeInt_def
      oneCurrency_append totalCost_append Let_def)

lemma safeUsage_append:
  assumes "safeUsage (totalUsage (us @ ws))" and "\<forall>u \<in> set (us @ ws). safeUsage u"
  shows "safeUsage (totalUsage us)" and "safeUsage (totalUsage ws)"
proof -
  have nonneg: "0 \<le> sum_list (map f xs)" if "\<And>u. safeUsage u \<Longrightarrow> 0 \<le> f u" "\<forall>u \<in> set xs. safeUsage u" for f :: "usage_amounts \<Rightarrow> int" and xs
    using that by (intro sum_list_nonneg) auto
  have cost: "0 \<le> sum_list (map m_amountMicros (costsOf xs))" if "\<forall>u \<in> set xs. safeUsage u" for xs
    using that by (induction xs) (auto simp: safeUsage_def safeInt_def split: option.splits)
  have "pred_option (\<lambda>m. 0 \<le> m_amountMicros m) (totalCost xs)" if "\<forall>u \<in> set xs. safeUsage u" for xs
    using cost [OF that] by (auto simp: totalCost_def split: list.splits)
  then have tc: "pred_option (\<lambda>m. 0 \<le> m_amountMicros m) (totalCost us)" "pred_option (\<lambda>m. 0 \<le> m_amountMicros m) (totalCost ws)"
    using assms(2) by simp_all
  have us: "\<forall>u \<in> set us. safeUsage u" and ws: "\<forall>u \<in> set ws. safeUsage u" using assms(2) by auto
  note pos = nonneg [OF _ us] nonneg [OF _ ws]
  have "safeUsage (totalUsage us) \<and> safeUsage (totalUsage ws)"
    using assms(1) tc pos [of "tu_inputTokens \<circ> ua_tokens"] pos [of "tu_outputTokens \<circ> ua_tokens"]
      pos [of "tu_cachedInputTokens \<circ> ua_tokens"] pos [of "tu_reasoningTokens \<circ> ua_tokens"] pos [of ua_durationMs]
    by (cases "totalCost us"; cases "totalCost ws")
      (auto simp: safeUsage_def safeInt_def totalUsage_def totalCost_append)
  then show "safeUsage (totalUsage us)" "safeUsage (totalUsage ws)" by simp_all
qed

definition exactSum :: "usage_amounts list \<Rightarrow> domain_error + usage_amounts" where
  "exactSum us =
     (if oneCurrency us \<and> safeUsage (totalUsage us) then Inr (totalUsage us) else Inl InvariantViolation)"

lemma exactSum_single [simp]: "safeUsage u \<Longrightarrow> exactSum [u] = Inr u"
  by (simp add: exactSum_def)

lemma exactSum_append:
  assumes "\<forall>u \<in> set (us @ ws). safeUsage u"
  shows "bindE (exactSum us) (\<lambda>a. bindE (exactSum ws) (addUsageAmounts a)) = exactSum (us @ ws)"
proof (cases "oneCurrency (us @ ws) \<and> safeUsage (totalUsage (us @ ws))")
  case True
  then have parts: "oneCurrency us" "oneCurrency ws" "safeUsage (totalUsage us)" "safeUsage (totalUsage ws)"
    using safeUsage_append [of us ws] assms oneCurrency_append by blast+
  then have "exactSum us = Inr (totalUsage us)" "exactSum ws = Inr (totalUsage ws)" by (simp_all add: exactSum_def)
  then show ?thesis using addUsageAmounts_totals [OF parts] by (simp add: exactSum_def)
next
  case False
  then have whole: "exactSum (us @ ws) = Inl InvariantViolation" unfolding exactSum_def by (rule if_not_P)
  show ?thesis
  proof (cases "oneCurrency us \<and> safeUsage (totalUsage us)")
    case us: True
    show ?thesis
    proof (cases "oneCurrency ws \<and> safeUsage (totalUsage ws)")
      case True
      then show ?thesis
        using us addUsageAmounts_totals [of us ws] unfolding whole by (simp add: exactSum_def if_not_P [OF False])
    qed (auto simp: whole exactSum_def [of us] exactSum_def [of ws] us)
  qed (auto simp: whole exactSum_def [of us])
qed

text \<open>A chain of additions from zero, and its independence of the order.\<close>

theorem sum_of_usages:
  assumes "\<forall>u \<in> set us. safeUsage u"
  shows "foldE (\<lambda>u s. addUsageAmounts s u) us ZERO_USAGE = exactSum us"
  using assms
proof (induction us rule: rev_induct)
  case Nil
  show ?case by (simp add: exactSum_def safeUsage_def ZERO_USAGE_def ZERO_TOKEN_USAGE_def safeInt_def)
next
  case (snoc u us)
  then have "foldE (\<lambda>u s. addUsageAmounts s u) (us @ [u]) ZERO_USAGE = bindE (exactSum us) (\<lambda>a. bindE (exactSum [u]) (addUsageAmounts a))"
    by (cases "exactSum us") (auto simp: foldE_append bindE_def split: sum.splits)
  then show ?case using exactSum_append [of us "[u]"] snoc.prems by simp
qed

lemma costsOf_mset: "mset us = mset ws \<Longrightarrow> mset (costsOf us) = mset (costsOf ws)"
proof -
  have "mset (costsOf us) = sum_mset (image_mset (\<lambda>u. case ua_cost u of None \<Rightarrow> {#} | Some m \<Rightarrow> {#m#}) (mset us))" for us
    by (induction us) (auto split: option.splits)
  then show "mset us = mset ws \<Longrightarrow> mset (costsOf us) = mset (costsOf ws)" by simp
qed

lemma sum_list_mset_eq: "mset xs = mset ys \<Longrightarrow> sum_list (map f xs) = (sum_list (map f ys) :: int)"
  by (metis mset_map sum_mset_sum_list)

lemma oneCurrency_mset: "mset us = mset ws \<Longrightarrow> oneCurrency us \<longleftrightarrow> oneCurrency ws"
  unfolding oneCurrency_def using costsOf_mset by (metis mset_eq_setD)

lemma totalUsage_mset:
  assumes eq: "mset us = mset ws" and one: "oneCurrency us"
  shows "totalUsage us = totalUsage ws"
proof -
  have c: "mset (costsOf us) = mset (costsOf ws)" using costsOf_mset [OF eq] .
  have "totalCost us = totalCost ws"
  proof (cases "costsOf us")
    case Nil
    then show ?thesis using c by (simp add: totalCost_def)
  next
    case (Cons m ms)
    then obtain n ns where n: "costsOf ws = n # ns" using c by (cases "costsOf ws") auto
    then have "n \<in> set (costsOf us)" using mset_eq_setD [OF c] by simp
    then have "m_currency m = m_currency n" using one Cons oneCurrency_Cons by fastforce
    then show ?thesis using sum_list_mset_eq [OF c, of m_amountMicros] by (simp add: totalCost_def Cons n)
  qed
  then show ?thesis using sum_list_mset_eq [OF eq] by (simp add: totalUsage_def)
qed

section \<open>Summaries of usage records\<close>

definition recordedAs :: "usage_kind \<Rightarrow> usage_record list \<Rightarrow> usage_amounts list" where
  "recordedAs kind rs = map ur_amounts (filter (\<lambda>r. ur_kind r = kind) rs)"

lemma recordedAs_simps [simp]:
  "recordedAs k [] = []"
  "recordedAs k (r # rs) = (if ur_kind r = k then ur_amounts r # recordedAs k rs else recordedAs k rs)"
  by (simp_all add: recordedAs_def)

lemma exactSum_prefix: "\<forall>u \<in> set (us @ ws). safeUsage u \<Longrightarrow> exactSum us = Inl e \<Longrightarrow> exactSum (us @ ws) = Inl e"
  using safeUsage_append [of us ws] by (auto simp: exactSum_def oneCurrency_append split: if_splits)

lemma exactSum_Inl: "exactSum us = Inl e \<Longrightarrow> e = InvariantViolation"
  by (simp add: exactSum_def split: if_splits)

lemma exactSum_extend:
  assumes "exactSum us = Inr a" and "safeUsage u"
  shows "addUsageAmounts a u = exactSum (us @ [u])"
  using assms addUsageAmounts_totals [of us "[u]"] by (simp add: exactSum_def split: if_splits)

lemma summarize_steps:
  assumes "list_all usageRecordOk rs" and "\<forall>u \<in> set (es @ acs). safeUsage u"
    and "exactSum es = Inr e" and "exactSum acs = Inr a"
  shows "foldE summarizeStep (map usageRecordVal rs) (e, a) =
    bindE (exactSum (es @ recordedAs Estimated rs)) (\<lambda>e. bindE (exactSum (acs @ recordedAs Actual rs)) (\<lambda>a. Inr (e, a)))"
  using assms
proof (induction rs arbitrary: es acs e a)
  case (Cons r rs)
  let ?u = "ur_amounts r"
  have r: "parseUsageRecord (usageRecordVal r) = Inr r" using Cons.prems(1) by simp
  have u: "safeUsage ?u" using Cons.prems(1) by (auto simp: usageRecordOk_def usageOk_safe)
  have rest: "\<forall>u \<in> set (recordedAs k rs). safeUsage u" for k
    using Cons.prems(1) by (auto simp: recordedAs_def list_all_iff usageRecordOk_def usageOk_safe)
  show ?case
  proof (cases "ur_kind r")
    case Estimated
    note add = exactSum_extend [OF Cons.prems(3) u]
    show ?thesis
    proof (cases "exactSum (es @ [?u])")
      case (Inl x)
      then have "exactSum ((es @ [?u]) @ recordedAs Estimated rs) = Inl x"
        using Cons.prems(2) u rest by (intro exactSum_prefix [OF _ Inl]) auto
      then show ?thesis by (simp add: summarizeStep_def r Estimated add Inl)
    next
      case (Inr e')
      then show ?thesis
        using Cons.IH [of "es @ [?u]" acs e' a] Cons.prems u by (simp add: summarizeStep_def r Estimated add)
    qed
  next
    case Actual
    note add = exactSum_extend [OF Cons.prems(4) u]
    show ?thesis
    proof (cases "exactSum (acs @ [?u])")
      case (Inl x)
      then have "exactSum ((acs @ [?u]) @ recordedAs Actual rs) = Inl x"
        using Cons.prems(2) u rest by (intro exactSum_prefix [OF _ Inl]) auto
      then show ?thesis
        using exactSum_Inl [OF Inl] exactSum_Inl [of "es @ recordedAs Estimated rs"]
        by (cases "exactSum (es @ recordedAs Estimated rs)") (simp_all add: summarizeStep_def r Actual add Inl)
    next
      case (Inr a')
      then show ?thesis
        using Cons.IH [of es "acs @ [?u]" e a'] Cons.prems u by (simp add: summarizeStep_def r Actual add)
    qed
  qed
qed simp

lemma exactSum_Nil [simp]: "exactSum [] = Inr ZERO_USAGE"
  by (simp add: exactSum_def safeUsage_def safeInt_def ZERO_USAGE_def ZERO_TOKEN_USAGE_def)

lemma summarizeUsage_exact:
  "list_all usageRecordOk rs \<Longrightarrow> summarizeUsage (map usageRecordVal rs) =
    bindE (exactSum (recordedAs Estimated rs)) (\<lambda>e. bindE (exactSum (recordedAs Actual rs)) (\<lambda>a.
    Inr \<lparr>us_estimated = e, us_actual = a, us_recordCount = length rs\<rparr>))"
  using summarize_steps [of rs "[]" "[]" ZERO_USAGE ZERO_USAGE]
  by (simp add: summarizeUsage_def bindE_def split: sum.splits)

lemma exactSum_mset: "mset us = mset ws \<Longrightarrow> exactSum us = exactSum ws"
  using oneCurrency_mset totalUsage_mset by (metis exactSum_def)

end
