(* ===== verification/Budget_Account.thy ===== *)
theory Budget_Account
  imports Budget_Laws Command_Interfaces
begin

text \<open>
  \<open>packages/domain/src/budget-account.ts\<close>: an account of reservations against a budget. An
  operation takes the account and a command and returns the next account or throws. The fields of
  a command are values of type \<open>unknown\<close>, because the operations validate them; the account is the
  typed state the previous operation returned. A reservation list is a list of slots: the parser
  of a stored account accepts an array with holes, which \<open>filter\<close>, \<open>map\<close> and \<open>reduce\<close> skip and \<open>find\<close>
  visits as \<open>undefined\<close>, so a slot may be empty here as well.
\<close>

section \<open>State\<close>

definition BUDGET_ACCOUNT_SCHEMA_VERSION :: int where "BUDGET_ACCOUNT_SCHEMA_VERSION = 1"
definition MAX_RESERVATIONS_PER_ACCOUNT :: nat where "MAX_RESERVATIONS_PER_ACCOUNT = 10000"

datatype reservation_status = Held | Committed | Released | Cancelled

fun reservationStatusText :: "reservation_status \<Rightarrow> string" where
  "reservationStatusText Held = ''held''"
| "reservationStatusText Committed = ''committed''"
| "reservationStatusText Released = ''released''"
| "reservationStatusText Cancelled = ''cancelled''"

definition RESERVATION_STATUSES :: "reservation_status list" where
  "RESERVATION_STATUSES = [Held, Committed, Released, Cancelled]"

datatype account_status = OpenAccount | CancelledAccount

fun accountStatusText :: "account_status \<Rightarrow> string" where
  "accountStatusText OpenAccount = ''open''"
| "accountStatusText CancelledAccount = ''cancelled''"

record reservation =
  rv_id :: string
  rv_status :: reservation_status
  rv_estimate :: usage_amounts
  rv_actual :: "usage_amounts option"
  rv_createdAt :: string
  rv_settledAt :: "string option"

record account =
  ac_scope :: budget_scope
  ac_budget :: aggregate_budget
  ac_status :: account_status
  ac_version :: int
  ac_reservations :: "reservation option list"

section \<open>Parsing a stored account\<close>

definition parseReservationId :: "jsval \<Rightarrow> domain_error + string" where
  "parseReservationId value = ensureString value 1 128 ID_PATTERN"

definition checkConsistency :: "reservation_status \<Rightarrow> usage_amounts option \<Rightarrow> string option \<Rightarrow> domain_error + unit" where
  "checkConsistency status actual settledAt =
     (if status = Held \<and> (actual \<noteq> None \<or> settledAt \<noteq> None) then fail ''inconsistent_reservation''
      else if status \<noteq> Held \<and> settledAt = None then fail ''inconsistent_reservation''
      else if status = Committed \<and> actual = None then fail ''inconsistent_reservation''
      else if (status = Released \<or> status = Cancelled) \<and> actual \<noteq> None then fail ''inconsistent_reservation''
      else Inr ())"

definition parseReservation :: "jsval \<Rightarrow> domain_error + reservation" where
  "parseReservation value =
     bindE (ensureRecord value) (\<lambda>r.
     bindE (ensureExactKeys r [''id'', ''status'', ''estimate'', ''actual'', ''createdAt'', ''settledAt'']) (\<lambda>_.
     bindE (ensureEnum (fld r ''status'') reservationStatusText RESERVATION_STATUSES) (\<lambda>status.
     bindE (ensureNullable (fld r ''actual'') parseUsageAmounts) (\<lambda>actual.
     bindE (ensureNullable (fld r ''settledAt'') ensureTimestamp) (\<lambda>settledAt.
     bindE (checkConsistency status actual settledAt) (\<lambda>_.
     bindE (parseReservationId (fld r ''id'')) (\<lambda>i.
     bindE (parseUsageAmounts (fld r ''estimate'')) (\<lambda>estimate.
     bindE (ensureTimestamp (fld r ''createdAt'')) (\<lambda>createdAt.
     Inr \<lparr>rv_id = i, rv_status = status, rv_estimate = estimate, rv_actual = actual,
          rv_createdAt = createdAt, rv_settledAt = settledAt\<rparr>)))))))))"

definition assertCurrencyMatchesBudget :: "aggregate_budget \<Rightarrow> usage_amounts \<Rightarrow> domain_error + unit" where
  "assertCurrencyMatchesBudget budget amounts =
     (case (ab_money budget, ua_cost amounts) of
        (Some money, Some cost) \<Rightarrow>
          requireE (m_currency cost = m_currency (mb_limit money)) (Validation ''currency_mismatch'')
      | _ \<Rightarrow> Inr ())"

text \<open>The callback of \<open>reservationsValue.map\<close>; \<open>seen\<close> are the ids of the entries before.\<close>

definition admitReservation :: "aggregate_budget \<Rightarrow> (bool \<times> jsval) option \<Rightarrow> string list \<Rightarrow>
    domain_error + (reservation option \<times> string list)" where
  "admitReservation budget entry seen =
     (case entry of
        None \<Rightarrow> Inr (None, seen)
      | Some (_, value) \<Rightarrow>
          bindE (parseReservation value) (\<lambda>reservation.
          bindE (requireE (rv_id reservation \<notin> set seen) (Validation ''duplicate_reservation'')) (\<lambda>_.
          bindE (assertCurrencyMatchesBudget budget (rv_estimate reservation)) (\<lambda>_.
          bindE (case rv_actual reservation of None \<Rightarrow> Inr () | Some actual \<Rightarrow> assertCurrencyMatchesBudget budget actual) (\<lambda>_.
          Inr (Some reservation, rv_id reservation # seen))))))"

text \<open>The slots of an array that passes \<open>Array.isArray\<close> and the limit; an array with a foreign
  prototype has no known \<open>map\<close> and the traps of a proxy throw.\<close>

fun reservationSlots :: "jsval \<Rightarrow> domain_error + (bool \<times> jsval) option list" where
  "reservationSlots (JArr plain items extra) =
     (if length items > MAX_RESERVATIONS_PER_ACCOUNT then fail ''bad_reservations''
      else Inr items)"
| "reservationSlots (JTrap True) = Inl Foreign"
| "reservationSlots _ = fail ''bad_reservations''"

fun hasMap :: "jsval \<Rightarrow> bool" where
  "hasMap (JArr plain items extra) \<longleftrightarrow> plain"
| "hasMap _ \<longleftrightarrow> False"

definition parseBudgetAccountState :: "jsval \<Rightarrow> domain_error + account" where
  "parseBudgetAccountState value =
     bindE (ensureRecord value) (\<lambda>r.
     bindE (ensureExactKeys r [''schemaVersion'', ''scope'', ''budget'', ''status'', ''version'', ''reservations'']) (\<lambda>_.
     bindE (ensureSchemaVersion (fld r ''schemaVersion'') BUDGET_ACCOUNT_SCHEMA_VERSION) (\<lambda>_.
     bindE (reservationSlots (fld r ''reservations'')) (\<lambda>slots.
     bindE (parseAggregateBudget (fld r ''budget'')) (\<lambda>budget.
     bindE (requireE (hasMap (fld r ''reservations'')) Foreign) (\<lambda>_.
     bindE (threadE (admitReservation budget) slots []) (\<lambda>(reservations, seen).
     bindE (parseBudgetScope (fld r ''scope'')) (\<lambda>scope.
     bindE (ensureEnum (fld r ''status'') accountStatusText [OpenAccount, CancelledAccount]) (\<lambda>status.
     bindE (ensureSafeInteger (fld r ''version'') 0 MAX_SAFE_INTEGER) (\<lambda>version.
     Inr \<lparr>ac_scope = scope, ac_budget = budget, ac_status = status, ac_version = version,
          ac_reservations = reservations\<rparr>))))))))))"

definition createBudgetAccount :: "jsval \<Rightarrow> jsval \<Rightarrow> domain_error + account" where
  "createBudgetAccount scope budget =
     parseBudgetAccountState (plainObj
       [(''schemaVersion'', jsInt BUDGET_ACCOUNT_SCHEMA_VERSION), (''scope'', scope), (''budget'', budget),
        (''status'', JStr ''open''), (''version'', jsInt 0), (''reservations'', plainArr [])])"

section \<open>Totals and admission\<close>

definition present :: "'a option list \<Rightarrow> 'a list" where
  "present xs = map the (filter (\<lambda>x. x \<noteq> None) xs)"

definition reservedTotals :: "account \<Rightarrow> domain_error + usage_amounts" where
  "reservedTotals state =
     foldE (\<lambda>r sum. addUsageAmounts sum (rv_estimate r))
       (filter (\<lambda>r. rv_status r = Held) (present (ac_reservations state))) ZERO_USAGE"

definition committedTotals :: "account \<Rightarrow> domain_error + usage_amounts" where
  "committedTotals state =
     foldE (\<lambda>r sum. addUsageAmounts sum (case rv_actual r of None \<Rightarrow> ZERO_USAGE | Some a \<Rightarrow> a))
       (filter (\<lambda>r. rv_status r = Committed) (present (ac_reservations state))) ZERO_USAGE"

definition pushBreach :: "budget_dimension \<Rightarrow> severity \<Rightarrow> int \<Rightarrow> int \<Rightarrow> string option \<Rightarrow> limit_breach list" where
  "pushBreach dimension severity limit attempted currency =
     (if attempted > limit
      then [\<lparr>lb_dimension = dimension, lb_severity = severity, lb_limit = limit, lb_attempted = attempted,
             lb_currency = currency\<rparr>]
      else [])"

definition pushOptional :: "budget_dimension \<Rightarrow> severity \<Rightarrow> int option \<Rightarrow> int \<Rightarrow> limit_breach list" where
  "pushOptional dimension severity limit attempted =
     (case limit of None \<Rightarrow> [] | Some l \<Rightarrow> pushBreach dimension severity l attempted None)"

definition tokenBreaches :: "token_budget \<Rightarrow> token_usage \<Rightarrow> domain_error + limit_breach list" where
  "tokenBreaches tokens used =
     (let inputTotal = tu_inputTokens used + tu_cachedInputTokens used;
          outputTotal = tu_outputTokens used + tu_reasoningTokens used in
      bindE (totalTokens used) (\<lambda>total.
      Inr (pushOptional InputTokens Hard (tb_maxInputTokens tokens) inputTotal @
           pushOptional OutputTokens Hard (tb_maxOutputTokens tokens) outputTotal @
           pushBreach TotalTokens Hard (tb_maxTotalTokens tokens) total None @
           pushOptional TotalTokens Soft (tb_softMaxTotalTokens tokens) total)))"

definition moneyBreaches :: "monetary_budget \<Rightarrow> money \<Rightarrow> limit_breach list" where
  "moneyBreaches money cost =
     pushBreach MoneyDim Hard (m_amountMicros (mb_limit money)) (m_amountMicros cost)
       (Some (m_currency (mb_limit money))) @
     (case mb_softLimit money of None \<Rightarrow> []
      | Some soft \<Rightarrow> pushBreach MoneyDim Soft (m_amountMicros soft) (m_amountMicros cost) (Some (m_currency soft)))"

definition timeBreaches :: "time_budget \<Rightarrow> int \<Rightarrow> limit_breach list" where
  "timeBreaches time duration =
     pushBreach DurationDim Hard (tmb_maxDurationMs time) duration None @
     pushOptional DurationDim Soft (tmb_softMaxDurationMs time) duration"

definition collectBreaches :: "aggregate_budget \<Rightarrow> usage_amounts \<Rightarrow> domain_error + limit_breach list" where
  "collectBreaches budget prospective =
     bindE (case ab_tokens budget of None \<Rightarrow> Inr []
            | Some tokens \<Rightarrow> tokenBreaches tokens (ua_tokens prospective)) (\<lambda>breaches.
     Inr (breaches @
       (case (ab_money budget, ua_cost prospective) of
          (Some money, Some cost) \<Rightarrow> moneyBreaches money cost
        | _ \<Rightarrow> []) @
       (case ab_time budget of None \<Rightarrow> [] | Some time \<Rightarrow> timeBreaches time (ua_durationMs prospective))))"

definition evaluateReservation :: "account \<Rightarrow> jsval \<Rightarrow> domain_error + budget_decision" where
  "evaluateReservation state estimate =
     bindE (parseUsageAmounts estimate) (\<lambda>parsedEstimate.
     bindE (assertCurrencyMatchesBudget (ac_budget state) parsedEstimate) (\<lambda>_.
     bindE (reservedTotals state) (\<lambda>reserved.
     bindE (committedTotals state) (\<lambda>committed.
     bindE (addUsageAmounts reserved committed) (\<lambda>used.
     bindE (addUsageAmounts used parsedEstimate) (\<lambda>prospective.
     bindE (collectBreaches (ac_budget state) prospective) (\<lambda>breaches.
     Inr \<lparr>bd_allowed = (filter (\<lambda>b. lb_severity b = Hard) breaches = []), bd_breaches = breaches\<rparr>)))))))"

definition checkVersion :: "account \<Rightarrow> jsval \<Rightarrow> domain_error + unit" where
  "checkVersion state expectedVersion =
     requireE (expectedVersion = JUndef \<or> strictlyEqual expectedVersion (ac_version state)) VersionConflict"

fun findSlot :: "string \<Rightarrow> reservation option list \<Rightarrow> domain_error + reservation option" where
  "findSlot i [] = Inr None"
| "findSlot i (None # slots) = Inl Foreign"
| "findSlot i (Some r # slots) = (if rv_id r = i then Inr (Some r) else findSlot i slots)"

definition findReservation :: "account \<Rightarrow> string \<Rightarrow> domain_error + reservation option" where
  "findReservation state reservationId = findSlot reservationId (ac_reservations state)"

text \<open>\<open>version + 1\<close> on a double: exact up to \<open>2 ^ 53\<close>, where it stops growing.\<close>

definition nextVersion :: "int \<Rightarrow> int" where
  "nextVersion v = (if v \<le> MAX_SAFE_INTEGER then v + 1 else v)"

definition withReservation :: "account \<Rightarrow> reservation \<Rightarrow> account" where
  "withReservation state newer =
     state\<lparr>ac_version := nextVersion (ac_version state),
           ac_reservations := map (map_option (\<lambda>r. if rv_id r = rv_id newer then newer else r)) (ac_reservations state)\<rparr>"

section \<open>Operations\<close>

definition reserveBudget :: "account \<Rightarrow> jsval \<Rightarrow> jsval \<Rightarrow> jsval \<Rightarrow> jsval \<Rightarrow> domain_error + account" where
  "reserveBudget state cmdId cmdEstimate cmdRequestedAt expectedVersion =
     bindE (parseReservationId cmdId) (\<lambda>reservationId.
     bindE (parseUsageAmounts cmdEstimate) (\<lambda>estimate.
     bindE (ensureTimestamp cmdRequestedAt) (\<lambda>requestedAt.
     bindE (checkVersion state expectedVersion) (\<lambda>_.
     bindE (findReservation state reservationId) (\<lambda>existing.
     case existing of
       Some r \<Rightarrow>
         if rv_status r = Held \<and> usageAmountsEqual (rv_estimate r) estimate \<and> rv_createdAt r = requestedAt
         then Inr state else Inl InvariantViolation
     | None \<Rightarrow>
         if ac_status state \<noteq> OpenAccount then Inl InvariantViolation
         else if length (ac_reservations state) \<ge> MAX_RESERVATIONS_PER_ACCOUNT then Inl InvariantViolation
         else
           bindE (evaluateReservation state (usageVal estimate)) (\<lambda>decision.
           if \<not> bd_allowed decision then Inl (BudgetExceeded decision)
           else Inr (state\<lparr>ac_version := nextVersion (ac_version state),
             ac_reservations := ac_reservations state @
               [Some \<lparr>rv_id = reservationId, rv_status = Held, rv_estimate = estimate, rv_actual = None,
                      rv_createdAt = requestedAt, rv_settledAt = None\<rparr>]\<rparr>)))))))"

definition commitReservation :: "account \<Rightarrow> jsval \<Rightarrow> jsval \<Rightarrow> jsval \<Rightarrow> jsval \<Rightarrow> domain_error + account" where
  "commitReservation state cmdId cmdActual cmdSettledAt expectedVersion =
     bindE (parseReservationId cmdId) (\<lambda>reservationId.
     bindE (parseUsageAmounts cmdActual) (\<lambda>actual.
     bindE (ensureTimestamp cmdSettledAt) (\<lambda>settledAt.
     bindE (assertCurrencyMatchesBudget (ac_budget state) actual) (\<lambda>_.
     bindE (checkVersion state expectedVersion) (\<lambda>_.
     bindE (findReservation state reservationId) (\<lambda>existing.
     case existing of
       None \<Rightarrow> Inl InvariantViolation
     | Some r \<Rightarrow>
         if rv_status r = Committed then
           if (case rv_actual r of None \<Rightarrow> False | Some a \<Rightarrow> usageAmountsEqual a actual) \<and> rv_settledAt r = Some settledAt
           then Inr state else Inl InvariantViolation
         else if rv_status r \<noteq> Held then Inl InvariantViolation
         else Inr (withReservation state
           (r\<lparr>rv_status := Committed, rv_actual := Some actual, rv_settledAt := Some settledAt\<rparr>))))))))"

definition settleWithoutUsage :: "account \<Rightarrow> jsval \<Rightarrow> jsval \<Rightarrow> jsval \<Rightarrow> reservation_status \<Rightarrow> domain_error + account" where
  "settleWithoutUsage state cmdId cmdSettledAt expectedVersion terminalStatus =
     bindE (parseReservationId cmdId) (\<lambda>reservationId.
     bindE (ensureTimestamp cmdSettledAt) (\<lambda>settledAt.
     bindE (checkVersion state expectedVersion) (\<lambda>_.
     bindE (findReservation state reservationId) (\<lambda>existing.
     case existing of
       None \<Rightarrow> Inl InvariantViolation
     | Some r \<Rightarrow>
         if rv_status r = terminalStatus then
           if rv_settledAt r = Some settledAt then Inr state else Inl InvariantViolation
         else if rv_status r \<noteq> Held then Inl InvariantViolation
         else Inr (withReservation state (r\<lparr>rv_status := terminalStatus, rv_settledAt := Some settledAt\<rparr>))))))"

definition releaseReservation :: "account \<Rightarrow> jsval \<Rightarrow> jsval \<Rightarrow> jsval \<Rightarrow> domain_error + account" where
  "releaseReservation state cmdId cmdSettledAt expectedVersion =
     settleWithoutUsage state cmdId cmdSettledAt expectedVersion Released"

definition cancelReservation :: "account \<Rightarrow> jsval \<Rightarrow> jsval \<Rightarrow> jsval \<Rightarrow> domain_error + account" where
  "cancelReservation state cmdId cmdSettledAt expectedVersion =
     settleWithoutUsage state cmdId cmdSettledAt expectedVersion Cancelled"

definition cancelHeld :: "string \<Rightarrow> reservation \<Rightarrow> reservation" where
  "cancelHeld cancelledAt r =
     (if rv_status r = Held then r\<lparr>rv_status := Cancelled, rv_settledAt := Some cancelledAt\<rparr> else r)"

definition cancelBudgetAccount :: "account \<Rightarrow> jsval \<Rightarrow> jsval \<Rightarrow> domain_error + account" where
  "cancelBudgetAccount state cmdCancelledAt expectedVersion =
     bindE (ensureTimestamp cmdCancelledAt) (\<lambda>cancelledAt.
     bindE (checkVersion state expectedVersion) (\<lambda>_.
     if ac_status state = CancelledAccount then Inr state
     else Inr (state\<lparr>ac_status := CancelledAccount, ac_version := nextVersion (ac_version state),
       ac_reservations := map (map_option (cancelHeld cancelledAt)) (ac_reservations state)\<rparr>)))"

end
