(* ===== verification/Account_Laws.thy ===== *)
theory Account_Laws
  imports Budget_Account
begin

text \<open>
  The invariant of budget accounts, the abstract ledger they implement (a step relation whose
  admission condition is a bound on exact totals), and the interpretation of the account in the
  shared contracts.
\<close>

section \<open>Invariant\<close>

definition costFits :: "aggregate_budget \<Rightarrow> usage_amounts \<Rightarrow> bool" where
  "costFits b u \<longleftrightarrow> (\<forall>money cost. ab_money b = Some money \<longrightarrow> ua_cost u = Some cost \<longrightarrow>
     m_currency cost = m_currency (mb_limit money))"

definition reservationOk :: "aggregate_budget \<Rightarrow> reservation \<Rightarrow> bool" where
  "reservationOk b r \<longleftrightarrow> ID_PATTERN (rv_id r) \<and> usageOk (rv_estimate r) \<and> costFits b (rv_estimate r) \<and>
     pred_option (\<lambda>a. usageOk a \<and> costFits b a) (rv_actual r) \<and> timestampText (rv_createdAt r) \<and>
     pred_option timestampText (rv_settledAt r) \<and>
     (rv_status r = Committed \<longleftrightarrow> rv_actual r \<noteq> None) \<and> (rv_status r = Held \<longleftrightarrow> rv_settledAt r = None)"

definition accountInv :: "account \<Rightarrow> bool" where
  "accountInv s \<longleftrightarrow> (\<exists>rs. ac_reservations s = map Some rs \<and> distinct (map rv_id rs) \<and>
       list_all (reservationOk (ac_budget s)) rs \<and> length rs \<le> MAX_RESERVATIONS_PER_ACCOUNT \<and>
       (ac_status s = CancelledAccount \<longrightarrow> list_all (\<lambda>r. rv_status r \<noteq> Held) rs)) \<and>
     scopeOk (ac_scope s) \<and> aggregateBudgetOk (ac_budget s) \<and> 0 \<le> ac_version s"

abbreviation slots :: "account \<Rightarrow> reservation list" where
  "slots s \<equiv> present (ac_reservations s)"

definition itemOf :: "account \<Rightarrow> string \<Rightarrow> reservation option" where
  "itemOf s i = find (\<lambda>r. rv_id r = i) (slots s)"

text \<open>The usage an account has to answer for: what is held, estimated, and what was committed, actual.\<close>

definition heldUsages :: "account \<Rightarrow> usage_amounts list" where
  "heldUsages s = map rv_estimate (filter (\<lambda>r. rv_status r = Held) (slots s))"

definition committedUsages :: "account \<Rightarrow> usage_amounts list" where
  "committedUsages s = map (\<lambda>r. case rv_actual r of None \<Rightarrow> ZERO_USAGE | Some a \<Rightarrow> a)
     (filter (\<lambda>r. rv_status r = Committed) (slots s))"

definition usagesOf :: "account \<Rightarrow> usage_amounts list" where
  "usagesOf s = heldUsages s @ committedUsages s"

text \<open>The hard limits of a budget, over exact totals.\<close>

definition withinHard :: "aggregate_budget \<Rightarrow> usage_amounts \<Rightarrow> bool" where
  "withinHard b u \<longleftrightarrow>
     (\<forall>tokens. ab_tokens b = Some tokens \<longrightarrow>
        (\<forall>m. tb_maxInputTokens tokens = Some m \<longrightarrow> tu_inputTokens (ua_tokens u) + tu_cachedInputTokens (ua_tokens u) \<le> m) \<and>
        (\<forall>m. tb_maxOutputTokens tokens = Some m \<longrightarrow> tu_outputTokens (ua_tokens u) + tu_reasoningTokens (ua_tokens u) \<le> m) \<and>
        tu_inputTokens (ua_tokens u) + tu_cachedInputTokens (ua_tokens u) +
          (tu_outputTokens (ua_tokens u) + tu_reasoningTokens (ua_tokens u)) \<le> tb_maxTotalTokens tokens) \<and>
     (\<forall>money cost. ab_money b = Some money \<longrightarrow> ua_cost u = Some cost \<longrightarrow>
        m_amountMicros cost \<le> m_amountMicros (mb_limit money)) \<and>
     (\<forall>time. ab_time b = Some time \<longrightarrow> ua_durationMs u \<le> tmb_maxDurationMs time)"

lemma present_map_Some [simp]: "present (map Some rs) = rs"
  by (induction rs) (simp_all add: present_def)

lemma present_append [simp]: "present (xs @ ys) = present xs @ present ys"
  by (simp add: present_def)

lemma present_map_option [simp]: "present (map (map_option f) xs) = map f (present xs)"
  by (induction xs) (auto simp: present_def)

lemma findSlot_map_Some [simp]: "findSlot i (map Some rs) = Inr (find (\<lambda>r. rv_id r = i) rs)"
  by (induction rs) auto

lemma accountInvE:
  assumes "accountInv s"
  obtains rs where "ac_reservations s = map Some rs" "slots s = rs" "distinct (map rv_id rs)"
    "list_all (reservationOk (ac_budget s)) rs" "length rs \<le> MAX_RESERVATIONS_PER_ACCOUNT"
    "ac_status s = CancelledAccount \<longrightarrow> list_all (\<lambda>r. rv_status r \<noteq> Held) rs"
    "scopeOk (ac_scope s)" "aggregateBudgetOk (ac_budget s)" "0 \<le> ac_version s"
  using assms by (auto simp: accountInv_def)

section \<open>Admission over exact totals\<close>

lemma assertCurrencyMatchesBudget_iff:
  "assertCurrencyMatchesBudget b u = (if costFits b u then Inr () else fail ''currency_mismatch'')"
  by (auto simp: assertCurrencyMatchesBudget_def costFits_def requireE_def split: option.splits)

lemma assertCurrencyMatchesBudget_Inr [simp]: "assertCurrencyMatchesBudget b u = Inr x \<longleftrightarrow> costFits b u"
  by (simp add: assertCurrencyMatchesBudget_iff)

lemma foldE_map: "foldE (\<lambda>x. f (g x)) xs = foldE f (map g xs)"
proof (induction xs)
  case Nil
  show ?case by (rule ext) simp
next
  case (Cons x xs)
  show ?case by (rule ext) (simp add: Cons)
qed

lemma totals_eq:
  "reservedTotals s = foldE (\<lambda>u sum. addUsageAmounts sum u) (heldUsages s) ZERO_USAGE"
  "committedTotals s = foldE (\<lambda>u sum. addUsageAmounts sum u) (committedUsages s) ZERO_USAGE"
  by (simp_all add: reservedTotals_def committedTotals_def heldUsages_def committedUsages_def foldE_map [symmetric])

lemma usagesOf_safe: "accountInv s \<Longrightarrow> u \<in> set (usagesOf s) \<Longrightarrow> safeUsage u"
  by (elim accountInvE) (auto simp: usagesOf_def heldUsages_def committedUsages_def reservationOk_def list_all_iff
      intro!: usageOk_safe split: option.splits)

lemma hard_pushes [simp]:
  "filter (\<lambda>b. lb_severity b = Hard) (pushBreach d Hard l a c) = [] \<longleftrightarrow> a \<le> l"
  "filter (\<lambda>b. lb_severity b = Hard) (pushBreach d Soft l a c) = []"
  "filter (\<lambda>b. lb_severity b = Hard) (pushOptional d Hard lo a) = [] \<longleftrightarrow> (\<forall>l. lo = Some l \<longrightarrow> a \<le> l)"
  "filter (\<lambda>b. lb_severity b = Hard) (pushOptional d Soft lo a) = []"
  by (auto simp: pushBreach_def pushOptional_def split: option.splits)

declare filter_empty_conv [simp del]

lemma totalTokens_Inr:
  "totalTokens u = Inr t \<Longrightarrow>
   t = tu_inputTokens u + tu_cachedInputTokens u + (tu_outputTokens u + tu_reasoningTokens u)"
  by (auto simp: totalTokens_def checkedAddTokens_def bindE_Inr_iff Let_def split: if_splits)

lemma collectBreaches_hard:
  assumes "collectBreaches b u = Inr breaches"
  shows "filter (\<lambda>b. lb_severity b = Hard) breaches = [] \<longleftrightarrow> withinHard b u"
  using assms
  by (auto simp: collectBreaches_def withinHard_def tokenBreaches_def moneyBreaches_def timeBreaches_def bindE_Inr_iff Let_def
      dest!: totalTokens_Inr split: option.splits)

theorem evaluateReservation_eq:
  assumes inv: "accountInv s" and e: "usageOk e"
  shows "evaluateReservation s (usageVal e) =
    (if costFits (ac_budget s) e
     then bindE (exactSum (usagesOf s @ [e])) (\<lambda>total.
       bindE (collectBreaches (ac_budget s) total) (\<lambda>breaches.
       Inr \<lparr>bd_allowed = (filter (\<lambda>b. lb_severity b = Hard) breaches = []), bd_breaches = breaches\<rparr>))
     else fail ''currency_mismatch'')"
proof -
  have safe: "\<forall>u \<in> set (usagesOf s @ [e]). safeUsage u" using usagesOf_safe [OF inv] usageOk_safe [OF e] by auto
  then have parts: "reservedTotals s = exactSum (heldUsages s)" "committedTotals s = exactSum (committedUsages s)"
    unfolding totals_eq by (intro sum_of_usages; simp add: usagesOf_def)+
  have used: "bindE (reservedTotals s) (\<lambda>a. bindE (committedTotals s) (addUsageAmounts a)) = exactSum (usagesOf s)"
    unfolding parts usagesOf_def using safe by (intro exactSum_append) (simp add: usagesOf_def)
  have all: "bindE (exactSum (usagesOf s)) (\<lambda>u. addUsageAmounts u e) = exactSum (usagesOf s @ [e])"
    using exactSum_append [of "usagesOf s" "[e]"] safe by simp
  have "bindE (reservedTotals s) (\<lambda>reserved. bindE (committedTotals s) (\<lambda>committed.
      bindE (addUsageAmounts reserved committed) (\<lambda>used. bindE (addUsageAmounts used e) k))) =
    bindE (exactSum (usagesOf s @ [e])) k" for k :: "usage_amounts \<Rightarrow> domain_error + budget_decision"
    unfolding all [symmetric] used [symmetric] by (simp add: bindE_def split: sum.splits)
  then show ?thesis
    using e by (simp add: evaluateReservation_def assertCurrencyMatchesBudget_iff)
qed

section \<open>Commands as steps of a ledger\<close>

datatype account_command =
    Reserve jsval jsval jsval jsval
  | Commit jsval jsval jsval jsval
  | Release jsval jsval jsval
  | CancelOne jsval jsval jsval
  | CancelAccount jsval jsval

fun applyAccount :: "account_command \<Rightarrow> account \<Rightarrow> domain_error + account" where
  "applyAccount (Reserve i e t v) s = reserveBudget s i e t v"
| "applyAccount (Commit i a t v) s = commitReservation s i a t v"
| "applyAccount (Release i t v) s = releaseReservation s i t v"
| "applyAccount (CancelOne i t v) s = cancelReservation s i t v"
| "applyAccount (CancelAccount t v) s = cancelBudgetAccount s t v"

text \<open>The ledger the account implements: what a step may change, and under which condition.\<close>

inductive ledgerStep :: "account \<Rightarrow> account \<Rightarrow> bool" where
  unchanged: "ledgerStep s s"
| held: "\<lbrakk>ac_status s = OpenAccount; itemOf s i = None; ID_PATTERN i; usageOk e; costFits (ac_budget s) e; timestampText t;
     length (ac_reservations s) < MAX_RESERVATIONS_PER_ACCOUNT; oneCurrency (usagesOf s @ [e]);
     withinHard (ac_budget s) (totalUsage (usagesOf s @ [e]))\<rbrakk> \<Longrightarrow>
   ledgerStep s (s\<lparr>ac_version := nextVersion (ac_version s), ac_reservations := ac_reservations s @
     [Some \<lparr>rv_id = i, rv_status = Held, rv_estimate = e, rv_actual = None, rv_createdAt = t, rv_settledAt = None\<rparr>]\<rparr>)"
| settled: "\<lbrakk>itemOf s i = Some r; rv_status r = Held; rv_id r' = i; rv_status r' \<noteq> Held; rv_estimate r' = rv_estimate r;
     rv_createdAt r' = rv_createdAt r; reservationOk (ac_budget s) r'\<rbrakk> \<Longrightarrow>
   ledgerStep s (withReservation s r')"
| closed: "\<lbrakk>ac_status s = OpenAccount; timestampText t\<rbrakk> \<Longrightarrow>
   ledgerStep s (s\<lparr>ac_status := CancelledAccount, ac_version := nextVersion (ac_version s),
     ac_reservations := map (map_option (cancelHeld t)) (ac_reservations s)\<rparr>)"

inductive_cases ledgerStepE: "ledgerStep s s'"

lemma findReservation_item: "accountInv s \<Longrightarrow> findReservation s i = Inr (itemOf s i)"
  by (elim accountInvE) (simp add: findReservation_def itemOf_def)

lemma itemOf_ok: "accountInv s \<Longrightarrow> itemOf s i = Some r \<Longrightarrow> rv_id r = i \<and> r \<in> set (slots s) \<and> reservationOk (ac_budget s) r"
  by (elim accountInvE) (auto simp: itemOf_def find_Some_iff list_all_iff)

lemma parseReservationId_Inr [simp]: "parseReservationId v = Inr i \<longleftrightarrow> v = JStr i \<and> ID_PATTERN i"
  using ID_PATTERN_length by (auto simp: parseReservationId_def)

lemma reserveBudget_result:
  assumes inv: "accountInv s" and ok: "reserveBudget s i e t v = Inr s'"
  obtains (replayed) "s' = s"
  | (held) i' e' t' where "i = JStr i'" "t = JStr t'" "parseUsageAmounts e = Inr e'" "ac_status s = OpenAccount" "itemOf s i' = None"
      "ID_PATTERN i'" "usageOk e'" "costFits (ac_budget s) e'" "timestampText t'"
      "length (ac_reservations s) < MAX_RESERVATIONS_PER_ACCOUNT" "oneCurrency (usagesOf s @ [e'])"
      "withinHard (ac_budget s) (totalUsage (usagesOf s @ [e']))"
      "s' = s\<lparr>ac_version := nextVersion (ac_version s), ac_reservations := ac_reservations s @
        [Some \<lparr>rv_id = i', rv_status = Held, rv_estimate = e', rv_actual = None, rv_createdAt = t', rv_settledAt = None\<rparr>]\<rparr>"
proof -
  from ok inv obtain i' e' t' where p: "i = JStr i'" "t = JStr t'" "ID_PATTERN i'" "parseUsageAmounts e = Inr e'" "timestampText t'"
    and k: "(case itemOf s i' of
       Some r \<Rightarrow> if rv_status r = Held \<and> usageAmountsEqual (rv_estimate r) e' \<and> rv_createdAt r = t'
         then Inr s else Inl InvariantViolation
     | None \<Rightarrow>
         if ac_status s \<noteq> OpenAccount then Inl InvariantViolation
         else if length (ac_reservations s) \<ge> MAX_RESERVATIONS_PER_ACCOUNT then Inl InvariantViolation
         else
           bindE (evaluateReservation s (usageVal e')) (\<lambda>decision.
           if \<not> bd_allowed decision then Inl (BudgetExceeded decision)
           else Inr (s\<lparr>ac_version := nextVersion (ac_version s),
             ac_reservations := ac_reservations s @
               [Some \<lparr>rv_id = i', rv_status = Held, rv_estimate = e', rv_actual = None,
                      rv_createdAt = t', rv_settledAt = None\<rparr>]\<rparr>))) = Inr s'"
    by (auto simp: reserveBudget_def bindE_Inr_iff findReservation_item)
  have e': "usageOk e'" using p(4) by (rule parseUsageAmounts_Inr)
  show thesis
  proof (cases "itemOf s i'")
    case None
    with k obtain d where open_: "ac_status s = OpenAccount" "length (ac_reservations s) < MAX_RESERVATIONS_PER_ACCOUNT"
      and d: "evaluateReservation s (usageVal e') = Inr d" "bd_allowed d"
      and s': "s' = s\<lparr>ac_version := nextVersion (ac_version s), ac_reservations := ac_reservations s @
        [Some \<lparr>rv_id = i', rv_status = Held, rv_estimate = e', rv_actual = None, rv_createdAt = t', rv_settledAt = None\<rparr>]\<rparr>"
      by (auto simp: bindE_Inr_iff not_le split: if_splits)
    from d have "costFits (ac_budget s) e'" "oneCurrency (usagesOf s @ [e'])"
      "withinHard (ac_budget s) (totalUsage (usagesOf s @ [e']))"
      by (auto simp: evaluateReservation_eq [OF inv e'] bindE_Inr_iff exactSum_def collectBreaches_hard split: if_splits)
    with open_ None p e' s' show thesis by (intro held)
  next
    case (Some r)
    then show thesis using k by (intro replayed) (auto split: if_splits)
  qed
qed

lemma reserveBudget_step: "accountInv s \<Longrightarrow> reserveBudget s i e t v = Inr s' \<Longrightarrow> ledgerStep s s'"
  by (erule (1) reserveBudget_result) (auto intro: ledgerStep.intros)

text \<open>The two ways a settlement returns: nothing to do, or a held reservation replaced.\<close>

lemma commitReservation_result:
  assumes inv: "accountInv s" and ok: "commitReservation s i a t v = Inr s'"
  obtains (replayed) "s' = s"
  | (settled) i' a' t' r where "i = JStr i'" "t = JStr t'" "ID_PATTERN i'" "parseUsageAmounts a = Inr a'" "timestampText t'" "costFits (ac_budget s) a'"
      "itemOf s i' = Some r" "rv_status r = Held"
      "s' = withReservation s (r\<lparr>rv_status := Committed, rv_actual := Some a', rv_settledAt := Some t'\<rparr>)"
proof -
  from ok inv obtain i' a' t' where p: "i = JStr i'" "t = JStr t'" "ID_PATTERN i'" "parseUsageAmounts a = Inr a'" "timestampText t'" "costFits (ac_budget s) a'"
    and k: "(case itemOf s i' of None \<Rightarrow> Inl InvariantViolation | Some r \<Rightarrow>
         if rv_status r = Committed then
           if (case rv_actual r of None \<Rightarrow> False | Some a \<Rightarrow> usageAmountsEqual a a') \<and> rv_settledAt r = Some t'
           then Inr s else Inl InvariantViolation
         else if rv_status r \<noteq> Held then Inl InvariantViolation
         else Inr (withReservation s
           (r\<lparr>rv_status := Committed, rv_actual := Some a', rv_settledAt := Some t'\<rparr>))) = Inr s'"
    by (auto simp: commitReservation_def bindE_Inr_iff findReservation_item)
  from k obtain r where r: "itemOf s i' = Some r" by (cases "itemOf s i'") auto
  show thesis
  proof (cases "rv_status r = Held")
    case True
    then show ?thesis using k r p by (intro settled) auto
  next
    case False
    then show ?thesis using k r by (intro replayed) (auto split: if_splits)
  qed
qed

lemma settleWithoutUsage_result:
  assumes inv: "accountInv s" and terminal: "terminal \<in> {Released, Cancelled}"
    and ok: "settleWithoutUsage s i t v terminal = Inr s'"
  obtains (replayed) "s' = s"
  | (settled) i' t' r where "timestampText t'" "itemOf s i' = Some r" "rv_status r = Held"
      "s' = withReservation s (r\<lparr>rv_status := terminal, rv_settledAt := Some t'\<rparr>)"
proof -
  from ok inv obtain i' t' where p: "timestampText t'"
    and k: "(case itemOf s i' of None \<Rightarrow> Inl InvariantViolation | Some r \<Rightarrow>
         if rv_status r = terminal then
           if rv_settledAt r = Some t' then Inr s else Inl InvariantViolation
         else if rv_status r \<noteq> Held then Inl InvariantViolation
         else Inr (withReservation s (r\<lparr>rv_status := terminal, rv_settledAt := Some t'\<rparr>))) = Inr s'"
    by (auto simp: settleWithoutUsage_def bindE_Inr_iff findReservation_item)
  from k obtain r where r: "itemOf s i' = Some r" by (cases "itemOf s i'") auto
  show thesis
  proof (cases "rv_status r = Held")
    case True
    then show ?thesis using k r p terminal by (intro settled) (auto split: if_splits)
  next
    case False
    then show ?thesis using k r by (intro replayed) (auto split: if_splits)
  qed
qed

lemma settlement_step:
  assumes inv: "accountInv s" and r: "itemOf s i = Some r" "rv_status r = Held"
    and t: "timestampText t" and a: "status = Committed \<longleftrightarrow> a \<noteq> None" "pred_option (\<lambda>a. usageOk a \<and> costFits (ac_budget s) a) a"
    and st: "status \<noteq> Held"
  shows "ledgerStep s (withReservation s (r\<lparr>rv_status := status, rv_actual := a, rv_settledAt := Some t\<rparr>))"
  using itemOf_ok [OF inv r(1)] assms
  by (intro ledgerStep.settled [where r = r and i = i]) (auto simp: reservationOk_def)

lemma commitReservation_step:
  assumes inv: "accountInv s" and ok: "commitReservation s i a t v = Inr s'"
  shows "ledgerStep s s'"
proof (rule commitReservation_result [OF inv ok])
  fix i' a' t' r
  assume "parseUsageAmounts a = Inr a'" "timestampText t'" "costFits (ac_budget s) a'" "itemOf s i' = Some r" "rv_status r = Held"
    "s' = withReservation s (r\<lparr>rv_status := Committed, rv_actual := Some a', rv_settledAt := Some t'\<rparr>)"
  then show ?thesis using settlement_step [OF inv, of i' r t' Committed "Some a'"] parseUsageAmounts_Inr by auto
qed (auto intro: ledgerStep.unchanged)

lemma settleWithoutUsage_step:
  assumes inv: "accountInv s" and terminal: "terminal \<in> {Released, Cancelled}"
    and ok: "settleWithoutUsage s i t v terminal = Inr s'"
  shows "ledgerStep s s'"
proof (rule settleWithoutUsage_result [OF inv terminal ok])
  fix i' t' r
  assume r: "timestampText t'" "itemOf s i' = Some r" "rv_status r = Held"
    and s': "s' = withReservation s (r\<lparr>rv_status := terminal, rv_settledAt := Some t'\<rparr>)"
  have "rv_actual r = None" using itemOf_ok [OF inv r(2)] r(3) by (auto simp: reservationOk_def)
  then have "s' = withReservation s (r\<lparr>rv_status := terminal, rv_actual := None, rv_settledAt := Some t'\<rparr>)"
    unfolding s' by (cases r) simp
  then show ?thesis using settlement_step [OF inv r(2,3,1), of terminal None] terminal by auto
qed (auto intro: ledgerStep.unchanged)

lemma cancelBudgetAccount_step:
  assumes "cancelBudgetAccount s t v = Inr s'"
  shows "ledgerStep s s'"
proof (cases "ac_status s")
  case OpenAccount
  with assms show ?thesis
    by (auto simp: cancelBudgetAccount_def bindE_Inr_iff intro: ledgerStep.closed)
next
  case CancelledAccount
  with assms show ?thesis by (auto simp: cancelBudgetAccount_def bindE_Inr_iff intro: ledgerStep.unchanged)
qed

theorem applyAccount_step: "accountInv s \<Longrightarrow> applyAccount c s = Inr s' \<Longrightarrow> ledgerStep s s'"
  by (cases c) (auto simp: releaseReservation_def cancelReservation_def
      intro: reserveBudget_step commitReservation_step settleWithoutUsage_step cancelBudgetAccount_step)

end
