(* ===== verification/Account_Props.thy ===== *)
theory Account_Props
  imports Account_Laws
begin

text \<open>
  Invariance of budget accounts under their commands, the interpretation of the account in the
  contracts of \<open>Command_Interfaces\<close>, the budget's hard limits over sequences of commands, and the
  round trip of a stored account.
\<close>

section \<open>Running commands\<close>

text \<open>The owner of an account replaces it by what a command returns and keeps it when one throws.\<close>

definition runAccount :: "account_command \<Rightarrow> unit \<Rightarrow> (account, domain_error, unit) action" where
  "runAccount c i s = (case applyAccount c s of Inl e \<Rightarrow> (Inl e, s) | Inr s' \<Rightarrow> (Inr (), s'))"

lemma runAccount_simps:
  "applyAccount c s = Inl e \<Longrightarrow> runAccount c i s = (Inl e, s)"
  "applyAccount c s = Inr s' \<Longrightarrow> runAccount c i s = (Inr (), s')"
  by (simp_all add: runAccount_def)

lemma runAccount_step: "accountInv s \<Longrightarrow> ledgerStep s (snd (runAccount c i s))"
  by (auto simp: runAccount_def applyAccount_step intro: ledgerStep.unchanged split: sum.splits)

definition holdingOf :: "string \<Rightarrow> usage_amounts \<Rightarrow> string \<Rightarrow> reservation" where
  "holdingOf i e t = \<lparr>rv_id = i, rv_status = Held, rv_estimate = e, rv_actual = None, rv_createdAt = t, rv_settledAt = None\<rparr>"

lemma find_none_notin: "find (\<lambda>r. rv_id r = i) rs = None \<longleftrightarrow> i \<notin> rv_id ` set rs"
  by (auto simp: find_None_iff)

lemma ledgerStep_inv:
  assumes "ledgerStep s s'" and "accountInv s"
  shows "accountInv s'"
  using assms
proof (induction rule: ledgerStep.induct)
  case (held s i e t)
  from held.prems obtain rs where rs: "ac_reservations s = map Some rs" "slots s = rs" "distinct (map rv_id rs)"
    "list_all (reservationOk (ac_budget s)) rs" "length rs \<le> MAX_RESERVATIONS_PER_ACCOUNT"
    and c: "ac_status s = CancelledAccount \<longrightarrow> list_all (\<lambda>r. rv_status r \<noteq> Held) rs"
    and rest: "scopeOk (ac_scope s)" "aggregateBudgetOk (ac_budget s)" "0 \<le> ac_version s"
    by (rule accountInvE)
  have "map Some rs @ [Some (holdingOf i e t)] = map Some (rs @ [holdingOf i e t])" by simp
  moreover have "distinct (map rv_id (rs @ [holdingOf i e t]))"
    using rs held.hyps(2) by (auto simp: itemOf_def find_none_notin holdingOf_def)
  moreover have "reservationOk (ac_budget s) (holdingOf i e t)"
    using held.hyps by (simp add: reservationOk_def holdingOf_def)
  ultimately show ?case
    using rs rest held.hyps(1,7) unfolding accountInv_def holdingOf_def [symmetric]
    by (intro conjI exI [of _ "rs @ [holdingOf i e t]"]) (auto simp: nextVersion_def)
next
  case (settled s i r r')
  from settled.prems obtain rs where rs: "ac_reservations s = map Some rs" "slots s = rs" "distinct (map rv_id rs)"
    "list_all (reservationOk (ac_budget s)) rs" "length rs \<le> MAX_RESERVATIONS_PER_ACCOUNT"
    and c: "ac_status s = CancelledAccount \<longrightarrow> list_all (\<lambda>r. rv_status r \<noteq> Held) rs"
    and rest: "scopeOk (ac_scope s)" "aggregateBudgetOk (ac_budget s)" "0 \<le> ac_version s"
    by (rule accountInvE)
  let ?f = "\<lambda>r. if rv_id r = rv_id r' then r' else r"
  have "map (map_option ?f) (map Some rs) = map Some (map ?f rs)" by simp
  moreover have "rv_id \<circ> ?f = rv_id" by (rule ext) simp
  moreover have "list_all (reservationOk (ac_budget s)) (map ?f rs)"
    using rs(4) settled.hyps by (auto simp: list_all_iff)
  moreover have "r \<in> set rs" using itemOf_ok [OF settled.prems settled.hyps(1)] rs by simp
  then have "ac_status s \<noteq> CancelledAccount" using c settled.hyps(2) by (auto simp: list_all_iff)
  ultimately show ?case
    using rs rest unfolding accountInv_def withReservation_def
    by (intro conjI exI [of _ "map ?f rs"]) (auto simp: nextVersion_def)
next
  case (closed s t)
  from closed.prems obtain rs where rs: "ac_reservations s = map Some rs" "slots s = rs" "distinct (map rv_id rs)"
    "list_all (reservationOk (ac_budget s)) rs" "length rs \<le> MAX_RESERVATIONS_PER_ACCOUNT"
    and c: "ac_status s = CancelledAccount \<longrightarrow> list_all (\<lambda>r. rv_status r \<noteq> Held) rs"
    and rest: "scopeOk (ac_scope s)" "aggregateBudgetOk (ac_budget s)" "0 \<le> ac_version s"
    by (rule accountInvE)
  have "rv_id \<circ> cancelHeld t = rv_id" by (rule ext) (simp add: cancelHeld_def)
  moreover have "list_all (reservationOk (ac_budget s)) (map (cancelHeld t) rs)"
    using rs(4) closed.hyps by (auto simp: list_all_iff cancelHeld_def reservationOk_def)
  moreover have "list_all (\<lambda>r. rv_status r \<noteq> Held) (map (cancelHeld t) rs)"
    by (auto simp: list_all_iff cancelHeld_def)
  ultimately show ?case
    using rs rest unfolding accountInv_def
    by (intro conjI exI [of _ "map (cancelHeld t) rs"]) (auto simp: nextVersion_def)
qed

lemma itemOf_withReservation:
  "itemOf (withReservation s r') k =
     (if k = rv_id r' \<and> itemOf s k \<noteq> None then Some r' else itemOf s k)"
proof -
  let ?f = "\<lambda>r. if rv_id r = rv_id r' then r' else r"
  have "find (\<lambda>r. rv_id r = k) (map ?f rs) =
    (if k = rv_id r' \<and> find (\<lambda>r. rv_id r = k) rs \<noteq> None then Some r' else find (\<lambda>r. rv_id r = k) rs)" for rs
    by (induction rs) auto
  then show ?thesis by (auto simp: itemOf_def withReservation_def)
qed

lemma itemOf_cancelHeld: "find (\<lambda>r. rv_id r = k) (map (cancelHeld t) rs) = map_option (cancelHeld t) (find (\<lambda>r. rv_id r = k) rs)"
  by (induction rs) (auto simp: cancelHeld_def)

lemma find_append_left: "find P xs = Some v \<Longrightarrow> find P (xs @ ys) = Some v"
  by (induction xs) (auto split: if_splits)

lemma ledgerStep_final:
  assumes "ledgerStep s s'" and "itemOf s k = Some v" and "rv_status v \<noteq> Held"
  shows "itemOf s' k = Some v"
  using assms
proof (induction rule: ledgerStep.induct)
  case (held s i e t)
  then show ?case by (simp add: itemOf_def find_append_left)
next
  case (settled s i r r')
  then show ?case by (auto simp: itemOf_withReservation)
next
  case (closed s t)
  then show ?case by (simp add: itemOf_def itemOf_cancelHeld cancelHeld_def)
qed

lemma ledgerStep_version: "ledgerStep s s' \<Longrightarrow> s' = s \<or> ac_version s' = nextVersion (ac_version s)"
  by (induction rule: ledgerStep.induct) (auto simp: withReservation_def)

lemma ledgerStep_fixed: "ledgerStep s s' \<Longrightarrow> ac_budget s' = ac_budget s \<and> ac_scope s' = ac_scope s"
  by (induction rule: ledgerStep.induct) (auto simp: withReservation_def)

lemma ledgerStep_cancelled: "ledgerStep s s' \<Longrightarrow> ac_status s = CancelledAccount \<Longrightarrow> ac_status s' = CancelledAccount"
  by (induction rule: ledgerStep.induct) (auto simp: withReservation_def)

lemma runAccount_inv: "accountInv s \<Longrightarrow> accountInv (snd (runAccount c i s))"
  using ledgerStep_inv runAccount_step by blast

lemma runAccount_atomic: "fst (runAccount c i s) = Inl e \<Longrightarrow> snd (runAccount c i s) = s"
  by (auto simp: runAccount_def split: sum.splits)

text \<open>The version a command expects, when it carries a number.\<close>

fun expectedVersionOf :: "account_command \<Rightarrow> int option" where
  "expectedVersionOf (Reserve _ _ _ (JNum (NInt v))) = Some v"
| "expectedVersionOf (Commit _ _ _ (JNum (NInt v))) = Some v"
| "expectedVersionOf (Release _ _ (JNum (NInt v))) = Some v"
| "expectedVersionOf (CancelOne _ _ (JNum (NInt v))) = Some v"
| "expectedVersionOf (CancelAccount _ (JNum (NInt v))) = Some v"
| "expectedVersionOf _ = None"

lemma checkVersion_other: "v \<noteq> ac_version s \<Longrightarrow> checkVersion s (jsInt v) = Inl VersionConflict"
  by (simp add: checkVersion_def requireE_def)

lemma expectedVersion_guard:
  assumes "expectedVersionOf c = Some v" and "v \<noteq> ac_version s"
  shows "\<not> isOk (applyAccount c s)"
  using assms checkVersion_other [OF assms(2)]
  by (auto elim!: expectedVersionOf.elims simp: isOk_iff bindE_Inr_iff reserveBudget_def commitReservation_def
      releaseReservation_def cancelReservation_def settleWithoutUsage_def cancelBudgetAccount_def)

interpretation account: versioned_object runAccount accountInv ac_version "\<lambda>_ s s'. s' \<noteq> s" expectedVersionOf
    "\<lambda>s. ac_version s \<le> MAX_SAFE_INTEGER"
proof
  fix s c i e a v
  show "accountInv s \<Longrightarrow> accountInv (snd (runAccount c i s))" by (rule runAccount_inv)
  show "fst (runAccount c i s) = Inl e \<Longrightarrow> snd (runAccount c i s) = s" by (rule runAccount_atomic)
  show "ac_version (snd (runAccount c i s)) = ac_version s + 1"
    if "accountInv s" "ac_version s \<le> MAX_SAFE_INTEGER" "snd (runAccount c i s) \<noteq> s"
    using ledgerStep_version [OF runAccount_step [OF that(1)]] that by (auto simp: nextVersion_def)
  show "ac_version s \<le> ac_version (snd (runAccount c i s))" if "accountInv s"
    using ledgerStep_version [OF runAccount_step [OF that], of c i] by (auto simp: nextVersion_def)
  show "\<not> isOk (fst (runAccount c i s))" if "expectedVersionOf c = Some v" "v \<noteq> ac_version s"
    using expectedVersion_guard [OF that] by (auto simp: runAccount_def isOk_iff split: sum.splits)
qed

interpretation reservations: item_lifecycle runAccount accountInv itemOf "\<lambda>r. rv_status r \<noteq> Held"
  by unfold_locales (rule ledgerStep_final [OF runAccount_step])

section \<open>Creation\<close>

lemma createBudgetAccount_Inr:
  assumes "createBudgetAccount scope budget = Inr s"
  shows "accountInv s" and "ac_reservations s = []" and "ac_version s = 0" and "ac_status s = OpenAccount"
proof -
  have slots: "reservationSlots (plainArr []) = Inr []" "hasMap (plainArr [])" by (simp_all add: plainArr_def)
  have st: "ensureEnum (JStr ''open'') accountStatusText [OpenAccount, CancelledAccount] = Inr OpenAccount"
    by (simp add: ensureEnum.simps)
  from assms obtain b sc where "parseAggregateBudget budget = Inr b" "parseBudgetScope scope = Inr sc"
    and s: "s = \<lparr>ac_scope = sc, ac_budget = b, ac_status = OpenAccount, ac_version = 0, ac_reservations = []\<rparr>"
    by (auto simp: createBudgetAccount_def parseBudgetAccountState_def bindE_Inr_iff slots st
        ensureSafeInteger_jsInt BUDGET_ACCOUNT_SCHEMA_VERSION_def)
  then show "accountInv s" "ac_reservations s = []" "ac_version s = 0" "ac_status s = OpenAccount"
    using parseAggregateBudget_Inr parseBudgetScope_Inr by (auto simp: accountInv_def MAX_RESERVATIONS_PER_ACCOUNT_def)
qed

inductive accountReachable :: "account \<Rightarrow> bool" where
  created: "createBudgetAccount scope budget = Inr s \<Longrightarrow> accountReachable s"
| stepped: "accountReachable s \<Longrightarrow> accountReachable (snd (runAccount c () s))"

theorem accountReachable_inv: "accountReachable s \<Longrightarrow> accountInv s"
  by (induction rule: accountReachable.induct) (auto simp: runAccount_inv createBudgetAccount_Inr)

section \<open>Hard limits over time\<close>

text \<open>The hard limits as bounds on sums over all usages; a sum does not depend on the order.\<close>

definition costMicros :: "usage_amounts \<Rightarrow> int" where
  "costMicros u = (case ua_cost u of None \<Rightarrow> 0 | Some m \<Rightarrow> m_amountMicros m)"

abbreviation inputOf :: "usage_amounts \<Rightarrow> int" where
  "inputOf u \<equiv> tu_inputTokens (ua_tokens u) + tu_cachedInputTokens (ua_tokens u)"

abbreviation outputOf :: "usage_amounts \<Rightarrow> int" where
  "outputOf u \<equiv> tu_outputTokens (ua_tokens u) + tu_reasoningTokens (ua_tokens u)"

definition limitsHold :: "aggregate_budget \<Rightarrow> int \<Rightarrow> int \<Rightarrow> int \<Rightarrow> int \<Rightarrow> bool" where
  "limitsHold b input output cost duration \<longleftrightarrow>
     (\<forall>tokens. ab_tokens b = Some tokens \<longrightarrow>
        (\<forall>m. tb_maxInputTokens tokens = Some m \<longrightarrow> input \<le> m) \<and>
        (\<forall>m. tb_maxOutputTokens tokens = Some m \<longrightarrow> output \<le> m) \<and> input + output \<le> tb_maxTotalTokens tokens) \<and>
     (\<forall>money. ab_money b = Some money \<longrightarrow> cost \<le> m_amountMicros (mb_limit money)) \<and>
     (\<forall>time. ab_time b = Some time \<longrightarrow> duration \<le> tmb_maxDurationMs time)"

definition sumsWithin :: "aggregate_budget \<Rightarrow> usage_amounts list \<Rightarrow> bool" where
  "sumsWithin b us \<longleftrightarrow> limitsHold b (sum_list (map inputOf us)) (sum_list (map outputOf us))
     (sum_list (map costMicros us)) (sum_list (map ua_durationMs us))"

lemma limitsHold_mono:
  "limitsHold b i out c d \<Longrightarrow> i' \<le> i \<Longrightarrow> out' \<le> out \<Longrightarrow> c' \<le> c \<Longrightarrow> d' \<le> d \<Longrightarrow> limitsHold b i' out' c' d'"
  by (cases "ab_tokens b"; cases "ab_money b"; cases "ab_time b") (fastforce simp: limitsHold_def)+

lemma totalCost_micros: "case totalCost us of None \<Rightarrow> sum_list (map costMicros us) = 0 | Some c \<Rightarrow> m_amountMicros c = sum_list (map costMicros us)"
proof -
  have "sum_list (map costMicros us) = sum_list (map m_amountMicros (costsOf us))"
    by (induction us) (auto simp: costMicros_def split: option.splits)
  then show ?thesis by (auto simp: totalCost_def split: list.splits)
qed

lemma withinHard_sums:
  assumes "aggregateBudgetOk b"
  shows "withinHard b (totalUsage us) \<longleftrightarrow> sumsWithin b us"
proof -
  have "0 \<le> m_amountMicros (mb_limit money)" if "ab_money b = Some money" for money
    using assms that by (auto simp: aggregateBudgetOk_def monetaryBudgetOk_def moneyOk_def)
  moreover have "sum_list (map inputOf us) = sum_list (map (tu_inputTokens \<circ> ua_tokens) us) + sum_list (map (tu_cachedInputTokens \<circ> ua_tokens) us)"
    "sum_list (map outputOf us) = sum_list (map (tu_outputTokens \<circ> ua_tokens) us) + sum_list (map (tu_reasoningTokens \<circ> ua_tokens) us)"
    by (simp_all add: sum_list_addf comp_def)
  ultimately show ?thesis
    using totalCost_micros [of us]
    by (auto simp: withinHard_def sumsWithin_def limitsHold_def totalUsage_def split: option.splits)
qed

text \<open>\<open>covers e a\<close>: the estimate covers the actual usage in every dimension.\<close>

definition covers :: "usage_amounts \<Rightarrow> usage_amounts \<Rightarrow> bool" where
  "covers e a \<longleftrightarrow> inputOf a \<le> inputOf e \<and> outputOf a \<le> outputOf e \<and> costMicros a \<le> costMicros e \<and>
     ua_durationMs a \<le> ua_durationMs e"

definition slotUsage :: "reservation \<Rightarrow> usage_amounts list" where
  "slotUsage r = (if rv_status r = Held then [rv_estimate r]
     else if rv_status r = Committed then [case rv_actual r of None \<Rightarrow> ZERO_USAGE | Some a \<Rightarrow> a] else [])"

lemma usagesOf_slots: "mset (usagesOf s) = mset (concat (map slotUsage (slots s)))"
proof -
  have "mset (map rv_estimate (filter (\<lambda>r. rv_status r = Held) rs)) +
    mset (map (\<lambda>r. case rv_actual r of None \<Rightarrow> ZERO_USAGE | Some a \<Rightarrow> a) (filter (\<lambda>r. rv_status r = Committed) rs)) =
    mset (concat (map slotUsage rs))" for rs
    by (induction rs) (auto simp: slotUsage_def)
  then show ?thesis by (simp add: usagesOf_def heldUsages_def committedUsages_def)
qed

definition boundedBy :: "usage_amounts list \<Rightarrow> usage_amounts list \<Rightarrow> bool" where
  "boundedBy us ws \<longleftrightarrow> sum_list (map inputOf us) \<le> sum_list (map inputOf ws) \<and>
     sum_list (map outputOf us) \<le> sum_list (map outputOf ws) \<and>
     sum_list (map costMicros us) \<le> sum_list (map costMicros ws) \<and>
     sum_list (map ua_durationMs us) \<le> sum_list (map ua_durationMs ws)"

lemma sumsWithin_bounded: "sumsWithin b ws \<Longrightarrow> boundedBy us ws \<Longrightarrow> sumsWithin b us"
  unfolding sumsWithin_def boundedBy_def by (elim conjE) (rule limitsHold_mono)

lemma boundedBy_mset:
  assumes "mset us = mset us'" and "mset ws = mset ws'"
  shows "boundedBy us ws = boundedBy us' ws'"
  unfolding boundedBy_def sum_list_mset_eq [OF assms(1)] sum_list_mset_eq [OF assms(2)] by (rule refl)

lemma boundedBy_concat:
  "list_all2 (\<lambda>r' r. boundedBy (slotUsage r') (slotUsage r)) rs' rs \<Longrightarrow>
   boundedBy (concat (map slotUsage rs')) (concat (map slotUsage rs))"
  by (induction rule: list_all2_induct) (auto simp: boundedBy_def)

lemma slotUsage_shrinks:
  assumes "usageOk (rv_estimate r)" and "rv_status r = Held" and "rv_status r' \<noteq> Held"
    and "rv_status r' = Committed \<Longrightarrow> \<exists>a. rv_actual r' = Some a \<and> covers (rv_estimate r) a"
  shows "boundedBy (slotUsage r') (slotUsage r)"
  using assms
  by (auto simp: boundedBy_def slotUsage_def covers_def usageOk_def tokenUsageOk_def costMicros_def moneyOk_def split: option.splits)

lemma boundedBy_refl [simp]: "boundedBy us us"
  by (simp add: boundedBy_def)

lemma sumsWithin_shrinking:
  assumes "sumsWithin b (usagesOf s)" and "list_all2 (\<lambda>r' r. boundedBy (slotUsage r') (slotUsage r)) (slots s') (slots s)"
  shows "sumsWithin b (usagesOf s')"
  using sumsWithin_bounded [OF assms(1)] boundedBy_concat [OF assms(2)] boundedBy_mset [OF usagesOf_slots usagesOf_slots] by blast

text \<open>A command is frugal when it is not a commit above the estimate.\<close>

fun frugal :: "account \<Rightarrow> account_command \<Rightarrow> bool" where
  "frugal s (Commit (JStr i) a t v) \<longleftrightarrow>
     (case (parseUsageAmounts a, itemOf s i) of (Inr actual, Some r) \<Rightarrow> covers (rv_estimate r) actual | _ \<Rightarrow> True)"
| "frugal s _ \<longleftrightarrow> True"

definition withinBudget :: "account \<Rightarrow> bool" where
  "withinBudget s \<longleftrightarrow> withinHard (ac_budget s) (totalUsage (usagesOf s))"

lemma slots_withReservation: "slots (withReservation s r') = map (\<lambda>r. if rv_id r = rv_id r' then r' else r) (slots s)"
  by (simp add: withReservation_def)

lemma replaced_shrinks:
  assumes inv: "accountInv s" and r: "itemOf s i = Some r" "rv_status r = Held" "rv_id r' = i" "rv_status r' \<noteq> Held"
    and c: "rv_status r' = Committed \<Longrightarrow> \<exists>a. rv_actual r' = Some a \<and> covers (rv_estimate r) a"
  shows "list_all2 (\<lambda>r' r. boundedBy (slotUsage r') (slotUsage r)) (slots (withReservation s r')) (slots s)"
proof -
  obtain rs where rs: "slots s = rs" "distinct (map rv_id rs)" using inv by (elim accountInvE)
  note ok = itemOf_ok [OF inv r(1)]
  have same: "q = r" if "q \<in> set rs" "rv_id q = i" for q
    using ok rs that by (auto simp: distinct_map inj_on_def)
  have "boundedBy (slotUsage r') (slotUsage r)"
    using ok r(2,4) c by (intro slotUsage_shrinks) (auto simp: reservationOk_def)
  then show ?thesis
    unfolding slots_withReservation rs(1) list_all2_map1 list_all2_same using same r(3) by auto
qed

lemma usagesOf_held:
  "mset (usagesOf (s\<lparr>ac_version := v, ac_reservations := ac_reservations s @ [Some (holdingOf i e t)]\<rparr>)) = mset (usagesOf s @ [e])"
  by (simp add: usagesOf_def heldUsages_def committedUsages_def holdingOf_def present_def)

lemma sumsWithin_mset: "mset us = mset ws \<Longrightarrow> sumsWithin b us = sumsWithin b ws"
  using boundedBy_mset [OF _ refl, of us ws] sumsWithin_bounded by (metis boundedBy_refl)

lemma withinBudget_sums: "accountInv s \<Longrightarrow> withinBudget s \<longleftrightarrow> sumsWithin (ac_budget s) (usagesOf s)"
  unfolding withinBudget_def by (rule withinHard_sums) (auto elim: accountInvE)

lemma accountInv_budget: "accountInv s \<Longrightarrow> aggregateBudgetOk (ac_budget s)"
  by (auto elim: accountInvE)

theorem reserve_within:
  assumes inv: "accountInv s" and ok: "reserveBudget s i e t v = Inr s'" and changed: "s' \<noteq> s"
  shows "withinBudget s'"
proof (rule reserveBudget_result [OF inv ok])
  fix i' e' t'
  assume w: "withinHard (ac_budget s) (totalUsage (usagesOf s @ [e']))"
    and s': "s' = s\<lparr>ac_version := nextVersion (ac_version s), ac_reservations := ac_reservations s @
        [Some \<lparr>rv_id = i', rv_status = Held, rv_estimate = e', rv_actual = None, rv_createdAt = t', rv_settledAt = None\<rparr>]\<rparr>"
  have "sumsWithin (ac_budget s) (usagesOf s')"
    unfolding s' holdingOf_def [symmetric] sumsWithin_mset [OF usagesOf_held]
    using w withinHard_sums [OF accountInv_budget [OF inv]] by blast
  moreover have "accountInv s'" using ledgerStep_inv [OF reserveBudget_step [OF inv ok] inv] .
  ultimately show ?thesis by (simp add: withinBudget_sums s')
qed (use changed in simp)

lemma cancelled_shrinks:
  assumes "accountInv s"
  shows "list_all2 (\<lambda>r' r. boundedBy (slotUsage r') (slotUsage r)) (map (cancelHeld t) (slots s)) (slots s)"
proof -
  have ok: "reservationOk (ac_budget s) r" if "r \<in> set (slots s)" for r
    using assms that by (elim accountInvE) (auto simp: list_all_iff)
  then show ?thesis
    unfolding list_all2_map1 list_all2_same
    by (auto simp: cancelHeld_def reservationOk_def intro!: slotUsage_shrinks)
qed

theorem frugal_within:
  assumes inv: "accountInv s" and w: "withinBudget s" and frugal: "frugal s c" and ok: "applyAccount c s = Inr s'"
  shows "withinBudget s'"
proof -
  have inv': "accountInv s'" and b: "ac_budget s' = ac_budget s"
    using applyAccount_step [OF inv ok] ledgerStep_inv ledgerStep_fixed inv by blast+
  have shrink: "withinBudget s'" if "list_all2 (\<lambda>r' r. boundedBy (slotUsage r') (slotUsage r)) (slots s') (slots s)"
    using sumsWithin_shrinking [OF _ that] w b by (simp add: withinBudget_sums inv inv')
  have settle: "withinBudget s'" if "settleWithoutUsage s i t v terminal = Inr s'" "terminal \<in> {Released, Cancelled}" for i t v terminal
  proof (rule settleWithoutUsage_result [OF inv that(2,1)])
    fix i' t' r
    assume r: "itemOf s i' = Some r" "rv_status r = Held" and s': "s' = withReservation s (r\<lparr>rv_status := terminal, rv_settledAt := Some t'\<rparr>)"
    show ?thesis
      using r that(2) itemOf_ok [OF inv r(1)] by (intro shrink) (auto simp: s' intro!: replaced_shrinks [OF inv r(1,2)])
  qed (use w in simp)
  show ?thesis
  proof (cases c)
    case (Reserve i e t v)
    then show ?thesis using reserve_within [OF inv, of i e t v s'] w ok by auto
  next
    case (Commit i a t v)
    then have k: "commitReservation s i a t v = Inr s'" using ok by simp
    show ?thesis
    proof (rule commitReservation_result [OF inv k])
      fix i' a' t' r
      assume r: "i = JStr i'" "parseUsageAmounts a = Inr a'" "itemOf s i' = Some r" "rv_status r = Held"
        and s': "s' = withReservation s (r\<lparr>rv_status := Committed, rv_actual := Some a', rv_settledAt := Some t'\<rparr>)"
      have "covers (rv_estimate r) a'" using frugal r by (simp add: Commit)
      then show ?thesis
        using itemOf_ok [OF inv r(3)] by (intro shrink) (auto simp: s' intro!: replaced_shrinks [OF inv r(3,4)])
    qed (use w in simp)
  next
    case (CancelAccount t v)
    then obtain t' where "s' = s \<or> s' = s\<lparr>ac_status := CancelledAccount, ac_version := nextVersion (ac_version s),
        ac_reservations := map (map_option (cancelHeld t')) (ac_reservations s)\<rparr>"
      using ok by (auto simp: cancelBudgetAccount_def bindE_Inr_iff split: if_splits)
    then show ?thesis using w shrink cancelled_shrinks [OF inv] by auto
  qed (use ok settle in \<open>auto simp: releaseReservation_def cancelReservation_def\<close>)
qed

inductive frugallyReachable :: "account \<Rightarrow> bool" where
  created: "createBudgetAccount scope budget = Inr s \<Longrightarrow> frugallyReachable s"
| stepped: "frugallyReachable s \<Longrightarrow> frugal s c \<Longrightarrow> frugallyReachable (snd (runAccount c () s))"

lemma createBudgetAccount_within:
  assumes "createBudgetAccount scope budget = Inr s"
  shows "withinBudget s"
proof -
  note c = createBudgetAccount_Inr [OF assms]
  have u: "usagesOf s = []" using c(2) by (simp add: usagesOf_def heldUsages_def committedUsages_def present_def)
  show ?thesis
    using accountInv_budget [OF c(1)] unfolding withinBudget_sums [OF c(1)] u
    by (auto simp: sumsWithin_def limitsHold_def aggregateBudgetOk_def tokenBudgetOk_def within_def monetaryBudgetOk_def moneyOk_def timeBudgetOk_def)
qed

theorem frugallyReachable_within: "frugallyReachable s \<Longrightarrow> accountInv s \<and> withinBudget s"
proof (induction rule: frugallyReachable.induct)
  case (created scope budget s)
  then show ?case using createBudgetAccount_Inr createBudgetAccount_within by blast
next
  case (stepped s c)
  then show ?case
    using frugal_within [of s c] runAccount_inv [of s c "()"] by (cases "applyAccount c s") (auto simp: runAccount_def)
qed

section \<open>Replayed commands\<close>

fun withoutVersion :: "account_command \<Rightarrow> account_command" where
  "withoutVersion (Reserve i e t v) = Reserve i e t JUndef"
| "withoutVersion (Commit i a t v) = Commit i a t JUndef"
| "withoutVersion (Release i t v) = Release i t JUndef"
| "withoutVersion (CancelOne i t v) = CancelOne i t JUndef"
| "withoutVersion (CancelAccount t v) = CancelAccount t JUndef"

lemma checkVersion_undef [simp]: "checkVersion s JUndef = Inr ()"
  by (simp add: checkVersion_def requireE_def)

lemma usageAmountsEqual_iff: "usageAmountsEqual a b \<longleftrightarrow> a = b"
  by (cases a; cases b; cases "ua_tokens a"; cases "ua_tokens b")
    (auto simp: usageAmountsEqual_def moneyEquals_def split: option.splits)

lemma withoutVersion_same: "applyAccount c s = Inr s' \<Longrightarrow> applyAccount (withoutVersion c) s = Inr s'"
  by (cases c; simp only: applyAccount.simps withoutVersion.simps reserveBudget_def commitReservation_def releaseReservation_def
      cancelReservation_def settleWithoutUsage_def cancelBudgetAccount_def bindE_Inr_iff; use checkVersion_undef in blast)

lemma replay_unchanged: "applyAccount c s = Inr s' \<Longrightarrow> s' = s \<Longrightarrow> applyAccount (withoutVersion c) s' = Inr s'"
  using withoutVersion_same by blast

lemma itemOf_held:
  "itemOf s i = None \<Longrightarrow> rv_id r = i \<Longrightarrow>
   itemOf (s\<lparr>ac_version := v, ac_reservations := ac_reservations s @ [Some r]\<rparr>) i = Some r"
proof -
  have "find P (xs @ [x]) = (if find P xs = None \<and> P x then Some x else find P xs)" for P xs and x :: reservation
    by (induction xs) auto
  then show "itemOf s i = None \<Longrightarrow> rv_id r = i \<Longrightarrow> ?thesis" by (simp add: itemOf_def present_def)
qed

lemma itemOf_replaced: "itemOf s i = Some r \<Longrightarrow> rv_id r' = i \<Longrightarrow> itemOf (withReservation s r') i = Some r'"
  by (simp add: itemOf_withReservation)

lemma settled_replay:
  assumes inv: "accountInv s" and terminal: "terminal \<in> {Released, Cancelled}" and ok: "settleWithoutUsage s i t v terminal = Inr s'"
    and inv': "accountInv s'"
  shows "settleWithoutUsage s' i t JUndef terminal = Inr s'"
proof -
  from ok inv obtain i' t' where p: "i = JStr i'" "ID_PATTERN i'" "t = JStr t'" "timestampText t'"
    and k: "(case itemOf s i' of None \<Rightarrow> Inl InvariantViolation | Some r \<Rightarrow>
         if rv_status r = terminal then
           if rv_settledAt r = Some t' then Inr s else Inl InvariantViolation
         else if rv_status r \<noteq> Held then Inl InvariantViolation
         else Inr (withReservation s (r\<lparr>rv_status := terminal, rv_settledAt := Some t'\<rparr>))) = Inr s'"
    by (auto simp: settleWithoutUsage_def bindE_Inr_iff findReservation_item)
  from k obtain r where r: "itemOf s i' = Some r" by (cases "itemOf s i'") auto
  have "\<exists>r'. itemOf s' i' = Some r' \<and> rv_status r' = terminal \<and> rv_settledAt r' = Some t'"
    using k r itemOf_ok [OF inv r] by (auto simp: itemOf_replaced split: if_splits)
  then show ?thesis
    using p by (auto simp: settleWithoutUsage_def findReservation_item [OF inv'] parseReservationId_def)
qed

theorem commands_replay:
  assumes inv: "accountInv s" and ok: "applyAccount c s = Inr s'"
  shows "applyAccount (withoutVersion c) s' = Inr s'"
proof -
  have inv': "accountInv s'" and b: "ac_budget s' = ac_budget s"
    using applyAccount_step [OF inv ok] ledgerStep_inv ledgerStep_fixed inv by blast+
  show ?thesis
  proof (cases c)
    case (Reserve i e t v)
    then have k: "reserveBudget s i e t v = Inr s'" using ok by simp
    show ?thesis
    proof (rule reserveBudget_result [OF inv k])
      fix i' e' t'
      assume p: "i = JStr i'" "parseUsageAmounts e = Inr e'" "ID_PATTERN i'" "timestampText t'" "itemOf s i' = None" "t = JStr t'"
        and s': "s' = s\<lparr>ac_version := nextVersion (ac_version s), ac_reservations := ac_reservations s @
          [Some \<lparr>rv_id = i', rv_status = Held, rv_estimate = e', rv_actual = None, rv_createdAt = t', rv_settledAt = None\<rparr>]\<rparr>"
      have "itemOf s' i' = Some (holdingOf i' e' t')"
        using itemOf_held [OF p(5), of "holdingOf i' e' t'"] unfolding s' holdingOf_def [symmetric] by (simp add: holdingOf_def)
      then show ?thesis
        using p by (simp add: Reserve reserveBudget_def findReservation_item [OF inv'] parseReservationId_def holdingOf_def usageAmountsEqual_iff)
    qed (use ok in \<open>auto intro: replay_unchanged\<close>)
  next
    case (Commit i a t v)
    then have k: "commitReservation s i a t v = Inr s'" using ok by simp
    show ?thesis
    proof (rule commitReservation_result [OF inv k])
      fix i' a' t' r
      assume p: "i = JStr i'" "parseUsageAmounts a = Inr a'" "timestampText t'" "costFits (ac_budget s) a'" "itemOf s i' = Some r"
          "rv_status r = Held" "t = JStr t'" "ID_PATTERN i'"
        and s': "s' = withReservation s (r\<lparr>rv_status := Committed, rv_actual := Some a', rv_settledAt := Some t'\<rparr>)"
      note rok = itemOf_ok [OF inv p(5)]
      have "itemOf s' i' = Some (r\<lparr>rv_status := Committed, rv_actual := Some a', rv_settledAt := Some t'\<rparr>)"
        using p(5) rok by (auto simp: s' intro!: itemOf_replaced)
      then show ?thesis
        using p rok
        by (simp add: Commit commitReservation_def findReservation_item [OF inv'] parseReservationId_def usageAmountsEqual_iff
            assertCurrencyMatchesBudget_iff b)
    qed (use ok in \<open>auto intro: replay_unchanged\<close>)
  next
    case (Release i t v)
    then show ?thesis using ok settled_replay [OF inv _ _ inv', of Released i t v] by (simp add: releaseReservation_def)
  next
    case (CancelOne i t v)
    then show ?thesis using ok settled_replay [OF inv _ _ inv', of Cancelled i t v] by (simp add: cancelReservation_def)
  next
    case (CancelAccount t v)
    then have k: "cancelBudgetAccount s t v = Inr s'" using ok by simp
    then obtain t' where "t = JStr t'" "timestampText t'" by (auto simp: cancelBudgetAccount_def bindE_Inr_iff)
    moreover have "ac_status s' = CancelledAccount"
      using k by (cases "ac_status s") (auto simp: cancelBudgetAccount_def bindE_Inr_iff dest!: arg_cong [where f = ac_status])
    ultimately show ?thesis by (simp add: CancelAccount cancelBudgetAccount_def)
  qed
qed

end
