(* ===== verification/Account_Storage.thy ===== *)
theory Account_Storage
  imports Account_Props
begin

text \<open>
  Stored accounts: how an account looks as a JavaScript value, that the parser reads it back, and
  what the parser guarantees of an account from any source.
\<close>

definition reservationVal :: "reservation \<Rightarrow> jsval" where
  "reservationVal r = plainObj
     [(''id'', JStr (rv_id r)), (''status'', JStr (reservationStatusText (rv_status r))),
      (''estimate'', usageVal (rv_estimate r)), (''actual'', jsNullable usageVal (rv_actual r)),
      (''createdAt'', JStr (rv_createdAt r)), (''settledAt'', jsNullable JStr (rv_settledAt r))]"

definition slotVal :: "reservation option \<Rightarrow> (bool \<times> jsval) option" where
  "slotVal = map_option (\<lambda>r. (True, reservationVal r))"

definition accountVal :: "account \<Rightarrow> jsval" where
  "accountVal s = plainObj
     [(''schemaVersion'', jsInt BUDGET_ACCOUNT_SCHEMA_VERSION), (''scope'', scopeVal (ac_scope s)),
      (''budget'', aggregateBudgetVal (ac_budget s)), (''status'', JStr (accountStatusText (ac_status s))),
      (''version'', jsInt (ac_version s)), (''reservations'', JArr True (map slotVal (ac_reservations s)) [])]"

lemma inj_status_texts [simp]: "inj reservationStatusText" "inj accountStatusText"
  by (auto intro!: injI elim!: reservationStatusText.elims accountStatusText.elims)

lemma status_members [simp]:
  "x \<in> set RESERVATION_STATUSES" "y = OpenAccount \<or> y = CancelledAccount"
  by (cases x; simp add: RESERVATION_STATUSES_def) (cases y; simp)

lemma checkConsistency_iff:
  "checkConsistency status actual settledAt = Inr () \<longleftrightarrow>
     (status = Committed \<longleftrightarrow> actual \<noteq> None) \<and> (status = Held \<longleftrightarrow> settledAt = None)"
  by (cases status) (auto simp: checkConsistency_def)

lemma nullable_usage [simp]: "pred_option usageOk x \<Longrightarrow> ensureNullable (jsNullable usageVal x) parseUsageAmounts = Inr x"
  by (erule nullable_val) auto

lemma nullable_timestamp [simp]: "pred_option timestampText x \<Longrightarrow> ensureNullable (jsNullable JStr x) ensureTimestamp = Inr x"
  by (erule nullable_val) auto

lemma usage_nullable: "ensureNullable v parseUsageAmounts = Inr x \<Longrightarrow> pred_option usageOk x"
  by (erule ensureNullable_pred) (rule parseUsageAmounts_Inr)

lemma timestamp_nullable: "ensureNullable v ensureTimestamp = Inr x \<Longrightarrow> pred_option timestampText x"
  by (erule ensureNullable_pred) simp

lemma parseReservation_val [simp]:
  assumes "reservationOk b r"
  shows "parseReservation (reservationVal r) = Inr r"
proof -
  have "pred_option usageOk (rv_actual r)" using assms by (auto simp: reservationOk_def elim: option.pred_mono_strong)
  moreover have "checkConsistency (rv_status r) (rv_actual r) (rv_settledAt r) = Inr ()"
    using assms by (simp add: checkConsistency_iff reservationOk_def)
  ultimately show ?thesis
    using assms by (simp add: parseReservation_def reservationVal_def reservationOk_def parseReservationId_def)
qed

lemma parseReservation_Inr:
  assumes "parseReservation v = Inr r" and "costFits b (rv_estimate r)" and "pred_option (costFits b) (rv_actual r)"
  shows "reservationOk b r"
proof -
  have "pred_option usageOk (rv_actual r) \<and> ID_PATTERN (rv_id r) \<and> usageOk (rv_estimate r) \<and> timestampText (rv_createdAt r) \<and>
    pred_option timestampText (rv_settledAt r) \<and> checkConsistency (rv_status r) (rv_actual r) (rv_settledAt r) = Inr ()"
    using assms(1)
    by (auto simp: parseReservation_def bindE_Inr_iff
        dest!: parseUsageAmounts_Inr usage_nullable timestamp_nullable)
  then show ?thesis using assms(2,3) unfolding checkConsistency_iff by (cases "rv_actual r") (auto simp: reservationOk_def)
qed

lemma admit_all:
  assumes "list_all (reservationOk b) rs" and "distinct (map rv_id rs)" and "\<forall>r \<in> set rs. rv_id r \<notin> set seen"
  shows "threadE (admitReservation b) (map slotVal (map Some rs)) seen = Inr (map Some rs, rev (map rv_id rs) @ seen)"
  using assms
proof (induction rs arbitrary: seen)
  case (Cons r rs)
  have "admitReservation b (slotVal (Some r)) seen = Inr (Some r, rv_id r # seen)"
    using Cons.prems
    by (cases "rv_actual r") (auto simp: admitReservation_def slotVal_def assertCurrencyMatchesBudget_iff reservationOk_def requireE_def
        parseReservation_val [where b = b])
  moreover have "threadE (admitReservation b) (map slotVal (map Some rs)) (rv_id r # seen) =
    Inr (map Some rs, rev (map rv_id rs) @ rv_id r # seen)"
    using Cons.prems by (intro Cons.IH) (auto simp: image_iff)
  ultimately show ?case by simp
qed simp

theorem account_round_trip:
  assumes inv: "accountInv s" and v: "ac_version s \<le> MAX_SAFE_INTEGER"
  shows "parseBudgetAccountState (accountVal s) = Inr s"
proof -
  from inv obtain rs where rs: "ac_reservations s = map Some rs" "slots s = rs" "distinct (map rv_id rs)"
    "list_all (reservationOk (ac_budget s)) rs" "length rs \<le> MAX_RESERVATIONS_PER_ACCOUNT"
    "ac_status s = CancelledAccount \<longrightarrow> list_all (\<lambda>r. rv_status r \<noteq> Held) rs"
    "scopeOk (ac_scope s)" "aggregateBudgetOk (ac_budget s)" "0 \<le> ac_version s"
    by (rule accountInvE)
  have "threadE (admitReservation (ac_budget s)) (map slotVal (ac_reservations s)) [] = Inr (map Some rs, rev (map rv_id rs))"
    using admit_all [OF rs(4,3), of "[]"] rs(1) by simp
  then show ?thesis
    using rs v by (simp add: parseBudgetAccountState_def accountVal_def)
qed

lemma admitted_slots:
  assumes "threadE (admitReservation b) vs seen = Inr (sls, seen')"
  shows "distinct (map rv_id (present sls)) \<and> (\<forall>r \<in> set (present sls). reservationOk b r \<and> rv_id r \<notin> set seen)"
  using assms
proof (induction vs arbitrary: seen sls)
  case (Cons v vs)
  then obtain slot seen1 sls1 where one: "admitReservation b v seen = Inr (slot, seen1)"
    and rest: "threadE (admitReservation b) vs seen1 = Inr (sls1, seen')" and s: "sls = slot # sls1"
    by (auto simp: bindE_Inr_iff)
  show ?case
  proof (cases slot)
    case None
    then have "seen1 = seen" using one by (cases v) (auto simp: admitReservation_def bindE_Inr_iff)
    then show ?thesis using Cons.IH [OF rest] None by (simp add: s present_def)
  next
    case (Some r)
    then obtain w where r: "parseReservation w = Inr r" "rv_id r \<notin> set seen" "costFits b (rv_estimate r)"
      and a: "(case rv_actual r of None \<Rightarrow> Inr () | Some actual \<Rightarrow> assertCurrencyMatchesBudget b actual) = Inr ()"
      and seen1: "seen1 = rv_id r # seen"
      using one by (cases v) (auto simp: admitReservation_def bindE_Inr_iff)
    have "pred_option (costFits b) (rv_actual r)" using a by (auto split: option.splits)
    then have "reservationOk b r" using r parseReservation_Inr by blast
    then show ?thesis using Cons.IH [OF rest] r(2) Some by (auto simp: s seen1 present_def)
  qed
qed (simp add: present_def)

lemma full_slots: "None \<notin> set xs \<Longrightarrow> xs = map Some (present xs)"
proof (induction xs)
  case (Cons x xs)
  then show ?case by (cases x) (auto simp: present_def)
qed (simp add: present_def)

theorem stored_account_valid:
  assumes p: "parseBudgetAccountState v = Inr s" and full: "None \<notin> set (ac_reservations s)"
    and closed: "ac_status s = CancelledAccount \<Longrightarrow> \<forall>r \<in> set (slots s). rv_status r \<noteq> Held"
  shows "accountInv s"
proof -
  from p obtain r items seen where t: "threadE (admitReservation (ac_budget s)) items [] = Inr (ac_reservations s, seen)"
    and items: "reservationSlots (fld r ''reservations'') = Inr items"
    and ok: "aggregateBudgetOk (ac_budget s)" "scopeOk (ac_scope s)" "0 \<le> ac_version s"
    by (auto simp: parseBudgetAccountState_def bindE_Inr_iff
        dest!: parseAggregateBudget_Inr parseBudgetScope_Inr ensureSafeInteger_range)
  have "length items \<le> MAX_RESERVATIONS_PER_ACCOUNT"
    using items by (cases "fld r ''reservations''" rule: reservationSlots.cases) (auto split: if_splits)
  moreover have "length (ac_reservations s) = length items" using threadE_length [OF t] .
  moreover have eq: "ac_reservations s = map Some (slots s)"
    using full by (rule full_slots)
  ultimately show ?thesis
    using admitted_slots [OF t] ok closed unfolding accountInv_def
    by (intro conjI exI [of _ "slots s"]) (auto simp: list_all_iff dest: arg_cong [where f = length])
qed

section \<open>Two currencies\<close>

text \<open>Without a monetary limit nothing compares currencies; once usage in two currencies is committed
  or held, every admission check throws.\<close>

lemma costsOf_member: "c \<in> set (costsOf us) \<Longrightarrow> \<exists>u \<in> set us. ua_cost u = Some c"
  by (induction us) (auto split: option.splits)

theorem mixed_currencies_block:
  assumes inv: "accountInv s" and e: "usageOk e" and mixed: "\<not> oneCurrency (usagesOf s)"
  shows "evaluateReservation s (usageVal e) = Inl InvariantViolation"
proof -
  have "ab_money (ac_budget s) = None"
  proof (rule ccontr)
    assume "ab_money (ac_budget s) \<noteq> None"
    then obtain money where m: "ab_money (ac_budget s) = Some money" by blast
    obtain rs where rs: "slots s = rs" "list_all (reservationOk (ac_budget s)) rs" using inv by (elim accountInvE)
    have "costFits (ac_budget s) u" if mem: "u \<in> set (usagesOf s)" for u
    proof -
      obtain r where r: "r \<in> set rs" "u = rv_estimate r \<or> rv_status r = Committed \<and> u = (case rv_actual r of None \<Rightarrow> ZERO_USAGE | Some a \<Rightarrow> a)"
        using mem rs(1) by (auto simp: usagesOf_def heldUsages_def committedUsages_def)
      then have "reservationOk (ac_budget s) r" using rs(2) by (simp add: list_all_iff)
      with r(2) show ?thesis by (cases "rv_actual r") (simp_all add: reservationOk_def, blast+)
    qed
    then have "m_currency c = m_currency (mb_limit money)" if c: "c \<in> set (costsOf (usagesOf s))" for c
      using costsOf_member [OF c] m by (auto simp: costFits_def)
    then have "oneCurrency (usagesOf s)" by (simp add: oneCurrency_def)
    with mixed show False by simp
  qed
  moreover have "\<not> oneCurrency (usagesOf s @ [e])" using mixed oneCurrency_append by blast
  ultimately show ?thesis by (simp add: evaluateReservation_eq [OF inv e] costFits_def exactSum_def)
qed

end
