(* ===== verification/Account_Claims.thy ===== *)
theory Account_Claims
  imports Account_Storage "HOL-Library.Code_Target_Numeral"
begin

text \<open>
  The properties of budget accounts, each with a witness: a small account with token, money and
  time limits, on which the commands of the model run in the kernel.
\<close>

section \<open>A sample account\<close>

definition sampleStamp :: "char \<Rightarrow> jsval" where
  "sampleStamp d = JStr (''2026-01-01T00:00:0'' @ [d] @ ''.000Z'')"

definition sampleUsage :: "int \<Rightarrow> int \<Rightarrow> string \<Rightarrow> usage_amounts" where
  "sampleUsage input micros currency =
     \<lparr>ua_tokens = \<lparr>tu_inputTokens = input, tu_outputTokens = 10, tu_cachedInputTokens = 0, tu_reasoningTokens = 0\<rparr>,
      ua_cost = Some \<lparr>m_currency = currency, m_amountMicros = micros\<rparr>, ua_durationMs = 5\<rparr>"

definition sampleTokens :: token_budget where
  "sampleTokens = \<lparr>tb_maxTotalTokens = 100, tb_maxInputTokens = None, tb_maxOutputTokens = Some 50, tb_softMaxTotalTokens = Some 80\<rparr>"

definition sampleBudget :: aggregate_budget where
  "sampleBudget =
     \<lparr>ab_tokens = Some sampleTokens,
      ab_money = Some \<lparr>mb_limit = \<lparr>m_currency = ''USD'', m_amountMicros = 1000\<rparr>, mb_softLimit = None\<rparr>, ab_time = None\<rparr>"

definition freeBudget :: aggregate_budget where
  "freeBudget = \<lparr>ab_tokens = Some sampleTokens, ab_money = None, ab_time = None\<rparr>"

definition sampleScope :: jsval where
  "sampleScope = plainObj [(''scopeType'', JStr ''run''), (''scopeId'', JStr ''run-1'')]"

definition openedAccount :: "aggregate_budget \<Rightarrow> account" where
  "openedAccount b = (case createBudgetAccount sampleScope (aggregateBudgetVal b) of Inr s \<Rightarrow> s)"

definition sampleReserve :: "string \<Rightarrow> usage_amounts \<Rightarrow> jsval \<Rightarrow> account_command" where
  "sampleReserve i e v = Reserve (JStr i) (usageVal e) (sampleStamp CHR ''1'') v"

definition sampleCommit :: "string \<Rightarrow> usage_amounts \<Rightarrow> jsval \<Rightarrow> account_command" where
  "sampleCommit i a v = Commit (JStr i) (usageVal a) (sampleStamp CHR ''2'') v"

definition sampleCommands :: "(account_command \<times> unit) list" where
  "sampleCommands =
     [(sampleReserve ''r1'' (sampleUsage 30 400 ''USD'') JUndef, ()),
      (sampleReserve ''r2'' (sampleUsage 20 100 ''USD'') (jsInt 1), ()),
      (sampleReserve ''r3'' (sampleUsage 90 100 ''USD'') JUndef, ()),
      (sampleCommit ''r1'' (sampleUsage 25 300 ''USD'') JUndef, ())]"

definition sampleAccount :: account where
  "sampleAccount = executeAll runAccount sampleCommands (openedAccount sampleBudget)"

definition closedAccount :: account where
  "closedAccount = snd (runAccount (CancelAccount (sampleStamp CHR ''3'') JUndef) () sampleAccount)"

lemma opened: "createBudgetAccount sampleScope (aggregateBudgetVal b) = Inr (openedAccount b)"
  if "isOk (createBudgetAccount sampleScope (aggregateBudgetVal b))"
  using that by (auto simp: openedAccount_def isOk_iff)

lemma sample_created:
  "createBudgetAccount sampleScope (aggregateBudgetVal sampleBudget) = Inr (openedAccount sampleBudget)"
  "createBudgetAccount sampleScope (aggregateBudgetVal freeBudget) = Inr (openedAccount freeBudget)"
  by (rule opened, code_simp)+

lemma sample_inv: "accountInv (openedAccount sampleBudget)" "accountInv (openedAccount freeBudget)" "accountInv sampleAccount"
  "accountInv closedAccount"
proof -
  show o: "accountInv (openedAccount sampleBudget)" "accountInv (openedAccount freeBudget)"
    using sample_created createBudgetAccount_Inr(1) by blast+
  show s: "accountInv sampleAccount" unfolding sampleAccount_def using o(1) by (rule account.executeAll_inv)
  show "accountInv closedAccount" unfolding closedAccount_def using s by (rule runAccount_inv)
qed

lemma sample_text_inputs:
  "usageOk (sampleUsage 10 100 ''USD'')" "usageOk (sampleUsage 90 100 ''USD'')" "usageOk (sampleUsage 1 1 ''EUR'')"
  by code_simp+

section \<open>Validity and refinement\<close>

text \<open>C12: An account created from any scope and budget stays valid under every sequence of commands with
  any arguments: distinct reservations within the limit, each with consistent status, usage and
  settlement, costs in the currency of the budget, nothing held once cancelled; the budget and the scope never change.\<close>
theorem reachable_accounts_are_valid:
  assumes "createBudgetAccount scope budget = Inr s"
  shows "accountInv (executeAll runAccount cs s) \<and> ac_budget (executeAll runAccount cs s) = ac_budget s \<and>
    ac_scope (executeAll runAccount cs s) = ac_scope s"
proof -
  have "ac_budget (executeAll runAccount cs t) = ac_budget t \<and> ac_scope (executeAll runAccount cs t) = ac_scope t"
    if "accountInv t" for t
    using that
  proof (induction cs arbitrary: t)
    case (Cons c cs)
    obtain d where c: "c = (d, ())" by (cases c) simp
    show ?case
      using Cons.IH [OF runAccount_inv [OF Cons.prems, of d "()"]] ledgerStep_fixed [OF runAccount_step [OF Cons.prems, of d "()"]]
      by (simp add: c)
  qed simp
  then show ?thesis using createBudgetAccount_Inr(1) [OF assms] account.executeAll_inv by blast
qed

theorem reachable_accounts_are_valid_witness:
  "accountInv (executeAll runAccount sampleCommands (openedAccount sampleBudget)) \<and>
   ac_budget (executeAll runAccount sampleCommands (openedAccount sampleBudget)) = ac_budget (openedAccount sampleBudget) \<and>
   ac_scope (executeAll runAccount sampleCommands (openedAccount sampleBudget)) = ac_scope (openedAccount sampleBudget)"
  using sample_created(1) by (rule reachable_accounts_are_valid)

text \<open>C13: Every command that returns is a step of the abstract ledger: it leaves the account as it is, holds
  a fresh reservation that fits the hard limits on exact totals, settles one held reservation, or
  closes the account and cancels what is held; each change advances the version once.\<close>
theorem commands_refine_the_ledger:
  assumes "accountInv s" and "applyAccount c s = Inr s'"
  shows "ledgerStep s s' \<and> (s' = s \<or> ac_version s' = nextVersion (ac_version s))"
  using applyAccount_step [OF assms] ledgerStep_version by blast

theorem commands_refine_the_ledger_witness:
  "ledgerStep sampleAccount closedAccount \<and> (closedAccount = sampleAccount \<or> ac_version closedAccount = nextVersion (ac_version sampleAccount))"
proof -
  have "isOk (applyAccount (CancelAccount (sampleStamp CHR ''3'') JUndef) sampleAccount)" by code_simp
  then have "applyAccount (CancelAccount (sampleStamp CHR ''3'') JUndef) sampleAccount = Inr closedAccount"
    by (auto simp: isOk_iff closedAccount_def runAccount_def)
  then show ?thesis using sample_inv(3) by (rule commands_refine_the_ledger [rotated])
qed

section \<open>Limits\<close>



text \<open>C11: As long as no commit reports more than its reservation held, an account never exceeds a hard
  limit of its budget: what is held and committed, taken together, stays within every limit.\<close>
theorem hard_limits_are_never_exceeded:
  "frugallyReachable s \<Longrightarrow> withinHard (ac_budget s) (totalUsage (usagesOf s))"
  using frugallyReachable_within by (simp add: withinBudget_def)

theorem hard_limits_are_never_exceeded_witness:
  "withinHard (ac_budget sampleAccount) (totalUsage (usagesOf sampleAccount))"
proof (rule hard_limits_are_never_exceeded)
  have start: "frugallyReachable (openedAccount sampleBudget)" by (rule frugallyReachable.created [OF sample_created(1)])
  let ?run = "\<lambda>n. executeAll runAccount (take n sampleCommands) (openedAccount sampleBudget)"
  have step: "frugallyReachable (snd (runAccount c () s))" if "frugallyReachable s" "frugal s c" for s c
    using that by (rule frugallyReachable.stepped)
  have "frugal (?run 3) (sampleCommit ''r1'' (sampleUsage 25 300 ''USD'') JUndef)" by code_simp
  then show "frugallyReachable sampleAccount"
    unfolding sampleAccount_def sampleCommands_def
    by (simp add: step start sampleReserve_def)
qed

text \<open>A fresh reservation on an open account with room that would exceed a hard limit is refused, with a
  decision that names a hard limit it breaks.\<close>
theorem over_limit_reservations_are_refused:
  assumes "accountInv s" and "usageOk e" and "costFits (ac_budget s) e" and "oneCurrency (usagesOf s @ [e])"
    and "safeUsage (totalUsage (usagesOf s @ [e]))" and "isOk (totalTokens (ua_tokens (totalUsage (usagesOf s @ [e]))))"
    and "ID_PATTERN i" and "timestampText t" and "itemOf s i = None" and "ac_status s = OpenAccount"
    and "length (ac_reservations s) < MAX_RESERVATIONS_PER_ACCOUNT"
    and "\<not> withinHard (ac_budget s) (totalUsage (usagesOf s @ [e]))"
  shows "\<exists>d. reserveBudget s (JStr i) (usageVal e) (JStr t) JUndef = Inl (BudgetExceeded d) \<and>
    \<not> bd_allowed d \<and> (\<exists>b \<in> set (bd_breaches d). lb_severity b = Hard)"
proof -
  have "\<exists>breaches. collectBreaches (ac_budget s) (totalUsage (usagesOf s @ [e])) = Inr breaches"
    using assms(6) by (cases "ab_tokens (ac_budget s)") (auto simp: collectBreaches_def tokenBreaches_def isOk_iff Let_def)
  then obtain breaches where b: "collectBreaches (ac_budget s) (totalUsage (usagesOf s @ [e])) = Inr breaches" by blast
  then have "filter (\<lambda>b. lb_severity b = Hard) breaches \<noteq> []" using collectBreaches_hard [OF b] assms(12) by simp
  then have "\<exists>b \<in> set breaches. lb_severity b = Hard" by (auto simp: filter_empty_conv)
  then show ?thesis
    using assms b collectBreaches_hard [OF b]
    by (simp add: reserveBudget_def parseReservationId_def findReservation_item evaluateReservation_eq exactSum_def)
qed

theorem over_limit_reservations_are_refused_witness:
  "\<exists>d. reserveBudget sampleAccount (JStr ''r9'') (usageVal (sampleUsage 90 100 ''USD'')) (JStr ''2026-01-01T00:00:01.000Z'') JUndef =
      Inl (BudgetExceeded d) \<and> \<not> bd_allowed d \<and> (\<exists>b \<in> set (bd_breaches d). lb_severity b = Hard)"
proof (rule over_limit_reservations_are_refused [OF sample_inv(3) sample_text_inputs(2)])
  have "ab_money (ac_budget sampleAccount) = ab_money sampleBudget" by code_simp
  then show "costFits (ac_budget sampleAccount) (sampleUsage 90 100 ''USD'')"
    by (auto simp: costFits_def sampleBudget_def sampleUsage_def)
  let ?u = "totalUsage (usagesOf sampleAccount @ [sampleUsage 90 100 ''USD''])"
  have "ab_tokens (ac_budget sampleAccount) = Some sampleTokens" "tu_inputTokens (ua_tokens ?u) = 135" "tu_cachedInputTokens (ua_tokens ?u) = 0"
    "tu_outputTokens (ua_tokens ?u) = 30" "tu_reasoningTokens (ua_tokens ?u) = 0"
    by code_simp+
  then show "\<not> withinHard (ac_budget sampleAccount) ?u"
    by (simp add: withinHard_def sampleTokens_def)
qed code_simp+

section \<open>Reservations and versions over time\<close>

text \<open>A reservation that is committed, released or cancelled never changes again, whatever commands follow.\<close>
theorem settled_reservations_are_final:
  assumes "accountInv s" and "itemOf s i = Some r" and "rv_status r \<noteq> Held"
  shows "itemOf (executeAll runAccount cs s) i = Some r"
  using assms by (rule reservations.final_forever)

theorem settled_reservations_are_final_witness:
  "itemOf (executeAll runAccount sampleCommands sampleAccount) ''r1'' = itemOf sampleAccount ''r1''"
proof -
  have "\<exists>r. itemOf sampleAccount ''r1'' = Some r \<and> rv_status r \<noteq> Held"
    by (rule exI [of _ "the (itemOf sampleAccount ''r1'')"]) code_simp
  then show ?thesis using settled_reservations_are_final [OF sample_inv(3)] by metis
qed

text \<open>Of two writers that read the same version of an account, the one whose command comes second fails,
  whatever happens in between, while the version is a safe integer.\<close>
theorem stale_account_writers_fail:
  assumes "accountInv s" and "ac_version s \<le> MAX_SAFE_INTEGER" and "applyAccount c s = Inr s'" and "s' \<noteq> s"
    and "expectedVersionOf d = Some (ac_version s)"
  shows "\<not> isOk (applyAccount d (executeAll runAccount cs s'))"
proof -
  have run: "runAccount c () s = (Inr (), s')" using assms(3) by (rule runAccount_simps)
  have "\<not> isOk (fst (runAccount d () (executeAll runAccount cs (snd (runAccount c () s)))))"
    using assms run by (intro account.no_lost_update) (auto simp: isOk_iff)
  then have "\<not> isOk (fst (runAccount d () (executeAll runAccount cs s')))" by (simp add: run)
  then show ?thesis unfolding runAccount_def by (auto simp: isOk_iff split: sum.splits)
qed

theorem stale_account_writers_fail_witness:
  "\<not> isOk (applyAccount (sampleCommit ''r2'' (sampleUsage 10 100 ''USD'') (jsInt 3)) (executeAll runAccount [] closedAccount))"
proof -
  let ?c = "CancelAccount (sampleStamp CHR ''3'') JUndef"
  have "isOk (applyAccount ?c sampleAccount)" by code_simp
  then have "applyAccount ?c sampleAccount = Inr closedAccount" by (auto simp: isOk_iff closedAccount_def runAccount_def)
  moreover have "ac_version sampleAccount = 3" "ac_version closedAccount = 4" by code_simp+
  moreover have "expectedVersionOf (sampleCommit ''r2'' (sampleUsage 10 100 ''USD'') (jsInt 3)) = Some 3"
    by (simp add: sampleCommit_def)
  ultimately show ?thesis
    by (intro stale_account_writers_fail [OF sample_inv(3), where c = ?c]) auto
qed

text \<open>Commands are idempotent: a command that returned, issued again without an expected version, returns
  the same account.\<close>
theorem commands_are_idempotent:
  assumes "accountInv s" and "applyAccount c s = Inr s'"
  shows "applyAccount (withoutVersion c) s' = Inr s'"
  using assms by (rule commands_replay)

theorem commands_are_idempotent_witness: "applyAccount (CancelAccount (sampleStamp CHR ''3'') JUndef) closedAccount = Inr closedAccount"
proof -
  let ?c = "CancelAccount (sampleStamp CHR ''3'') (jsInt 3)"
  have "applyAccount ?c sampleAccount = applyAccount (CancelAccount (sampleStamp CHR ''3'') JUndef) sampleAccount"
    "isOk (applyAccount ?c sampleAccount)"
    by code_simp+
  then have "applyAccount ?c sampleAccount = Inr closedAccount" by (auto simp: isOk_iff closedAccount_def runAccount_def)
  then show ?thesis using commands_are_idempotent [OF sample_inv(3)] by fastforce
qed

lemma ledgerStep_closed: "ledgerStep s s' \<Longrightarrow> accountInv s \<Longrightarrow> ac_status s = CancelledAccount \<Longrightarrow> s' = s"
proof (induction rule: ledgerStep.induct)
  case (settled s i r r')
  then have "rv_status r \<noteq> Held"
    using itemOf_ok [OF settled.prems(1) settled.hyps(1)] by (auto elim!: accountInvE simp: list_all_iff)
  then show ?case using settled.hyps(2) by simp
qed simp_all

lemma cancelBudgetAccount_status: "cancelBudgetAccount s t v = Inr s' \<Longrightarrow> ac_status s' = CancelledAccount"
  by (cases "ac_status s") (auto simp: cancelBudgetAccount_def bindE_Inr_iff)

text \<open>A cancelled account holds nothing and is closed for good: no sequence of commands changes it.\<close>
theorem cancelled_accounts_are_closed:
  assumes "accountInv s" and "cancelBudgetAccount s t v = Inr s'"
  shows "heldUsages s' = [] \<and> executeAll runAccount cs s' = s'"
proof -
  have step: "ledgerStep s s'" and status: "ac_status s' = CancelledAccount"
    using applyAccount_step [OF assms(1), of "CancelAccount t v"] assms(2) cancelBudgetAccount_status by simp_all
  have inv: "accountInv s'" using ledgerStep_inv [OF step assms(1)] .
  have "executeAll runAccount cs s' = s'"
    using ledgerStep_closed [OF runAccount_step [OF inv] inv status] by (induction cs) auto
  moreover have "heldUsages s' = []"
    using inv status by (elim accountInvE) (auto simp: heldUsages_def list_all_iff)
  ultimately show ?thesis by blast
qed

theorem cancelled_accounts_are_closed_witness:
  "heldUsages closedAccount = [] \<and> executeAll runAccount sampleCommands closedAccount = closedAccount"
proof -
  have "isOk (cancelBudgetAccount sampleAccount (sampleStamp CHR ''3'') JUndef)" by code_simp
  then have "cancelBudgetAccount sampleAccount (sampleStamp CHR ''3'') JUndef = Inr closedAccount"
    by (auto simp: isOk_iff closedAccount_def runAccount_def)
  then show ?thesis by (rule cancelled_accounts_are_closed [OF sample_inv(3)])
qed

section \<open>Storage\<close>





section \<open>Sums of usage\<close>

text \<open>The summary of usage records is the exact sum of the estimated and of the actual amounts, or a
  failure when one of the sums mixes currencies or leaves the safe integers; the order of the
  records does not matter.\<close>
theorem usage_summaries_are_exact:
  assumes "list_all usageRecordOk rs" and "mset rs = mset rs'"
  shows "summarizeUsage (map usageRecordVal rs') =
    bindE (exactSum (recordedAs Estimated rs)) (\<lambda>e. bindE (exactSum (recordedAs Actual rs)) (\<lambda>a.
    Inr \<lparr>us_estimated = e, us_actual = a, us_recordCount = length rs\<rparr>))"
proof -
  have "list_all usageRecordOk rs'" using assms mset_eq_setD [OF assms(2)] by (simp add: list_all_iff)
  moreover have "mset (recordedAs k rs') = mset (recordedAs k rs)" for k
    using arg_cong [OF assms(2), of "\<lambda>m. image_mset ur_amounts (filter_mset (\<lambda>r. ur_kind r = k) m)"] by (simp add: recordedAs_def)
  then have "exactSum (recordedAs k rs') = exactSum (recordedAs k rs)" for k by (rule exactSum_mset)
  ultimately show ?thesis using summarizeUsage_exact [of rs'] mset_eq_length [OF assms(2)] by simp
qed

definition sampleRecord :: "usage_kind \<Rightarrow> int \<Rightarrow> usage_record" where
  "sampleRecord kind input =
     \<lparr>ur_kind = kind, ur_scope = \<lparr>bs_scopeType = RunScope, bs_scopeId = ''run-1''\<rparr>, ur_amounts = sampleUsage input 7 ''USD'',
      ur_recordedAt = ''2026-01-01T00:00:01.000Z'', ur_traceId = None\<rparr>"

theorem usage_summaries_are_exact_witness:
  "summarizeUsage (map usageRecordVal [sampleRecord Actual 5, sampleRecord Estimated 3]) =
    bindE (exactSum (recordedAs Estimated [sampleRecord Estimated 3, sampleRecord Actual 5])) (\<lambda>e.
    bindE (exactSum (recordedAs Actual [sampleRecord Estimated 3, sampleRecord Actual 5])) (\<lambda>a.
    Inr \<lparr>us_estimated = e, us_actual = a, us_recordCount = length [sampleRecord Estimated 3, sampleRecord Actual 5]\<rparr>))"
proof (rule usage_summaries_are_exact)
  show "list_all usageRecordOk [sampleRecord Estimated 3, sampleRecord Actual 5]" by code_simp
qed simp

text \<open>An account without a monetary limit accepts usage in any currency; once what it holds and has
  committed mixes two, the admission check throws for every estimate.\<close>
theorem mixed_currencies_block_the_account:
  assumes "accountInv s" and "usageOk e" and "\<not> oneCurrency (usagesOf s)"
  shows "evaluateReservation s (usageVal e) = Inl InvariantViolation"
  using assms by (rule mixed_currencies_block)

definition mixedAccount :: account where
  "mixedAccount = executeAll runAccount
     [(sampleReserve ''r1'' (sampleUsage 10 100 ''USD'') JUndef, ()), (sampleReserve ''r2'' (sampleUsage 10 100 ''USD'') JUndef, ()),
      (sampleCommit ''r2'' (sampleUsage 1 1 ''EUR'') JUndef, ())]
     (openedAccount freeBudget)"

theorem mixed_currencies_block_the_account_witness:
  "evaluateReservation mixedAccount (usageVal (sampleUsage 1 1 ''EUR'')) = Inl InvariantViolation"
proof (rule mixed_currencies_block_the_account)
  show "accountInv mixedAccount" unfolding mixedAccount_def using sample_inv(2) by (rule account.executeAll_inv)
qed code_simp+

end
