(* ===== verification/Domain_Policy.thy ===== *)
theory Domain_Policy
  imports Budget_Laws
begin

text \<open>
  \<open>packages/domain/src/classification.ts\<close>: data classifications, data handling policies and the
  decision whether content under a policy may be disclosed to a target. The policy and the target
  are validated again by every function that takes them, so they are values of type \<open>unknown\<close>.
\<close>

section \<open>Classifications\<close>

datatype data_classification = Public | Internal | ProprietarySource | Personal | Secret

fun classificationText :: "data_classification \<Rightarrow> string" where
  "classificationText Public = ''public''"
| "classificationText Internal = ''internal''"
| "classificationText ProprietarySource = ''proprietary-source''"
| "classificationText Personal = ''personal''"
| "classificationText Secret = ''secret''"

definition DATA_CLASSIFICATIONS :: "data_classification list" where
  "DATA_CLASSIFICATIONS = [Public, Internal, ProprietarySource, Personal, Secret]"

text \<open>\<open>DATA_CLASSIFICATIONS.indexOf\<close>.\<close>

fun classificationRank :: "data_classification \<Rightarrow> nat" where
  "classificationRank Public = 0"
| "classificationRank Internal = 1"
| "classificationRank ProprietarySource = 2"
| "classificationRank Personal = 3"
| "classificationRank Secret = 4"

lemma classificationRank_index: "DATA_CLASSIFICATIONS ! classificationRank c = c"
  by (cases c) (simp_all add: DATA_CLASSIFICATIONS_def)

lemma classificationRank_inj [simp]: "classificationRank a = classificationRank b \<longleftrightarrow> a = b"
  by (metis classificationRank_index)

text \<open>Sensitivity is a linear order.\<close>

instantiation data_classification :: linorder
begin

definition less_eq_data_classification :: "data_classification \<Rightarrow> data_classification \<Rightarrow> bool" where
  "less_eq_data_classification a b \<longleftrightarrow> classificationRank a \<le> classificationRank b"

definition less_data_classification :: "data_classification \<Rightarrow> data_classification \<Rightarrow> bool" where
  "less_data_classification a b \<longleftrightarrow> classificationRank a < classificationRank b"

instance
  by standard (auto simp: less_eq_data_classification_def less_data_classification_def)

end

definition compareDataClassification :: "data_classification \<Rightarrow> data_classification \<Rightarrow> int" where
  "compareDataClassification a b =
     (let rankA = classificationRank a; rankB = classificationRank b in
      if rankA < rankB then -1 else if rankA > rankB then 1 else 0)"

definition parseDataClassification :: "jsval \<Rightarrow> domain_error + data_classification" where
  "parseDataClassification value = ensureEnum value classificationText DATA_CLASSIFICATIONS"

section \<open>Policies\<close>

datatype redaction_kind = PersonalData | ProprietaryIdentifiers | Secrets

fun redactionText :: "redaction_kind \<Rightarrow> string" where
  "redactionText PersonalData = ''personal-data''"
| "redactionText ProprietaryIdentifiers = ''proprietary-identifiers''"
| "redactionText Secrets = ''secrets''"

definition REDACTION_KINDS :: "redaction_kind list" where
  "REDACTION_KINDS = [PersonalData, ProprietaryIdentifiers, Secrets]"

datatype provider_capability = DataRetention | ExternalNetworkTools | ModelTraining | ThirdPartySharing

fun capabilityText :: "provider_capability \<Rightarrow> string" where
  "capabilityText DataRetention = ''data-retention''"
| "capabilityText ExternalNetworkTools = ''external-network-tools''"
| "capabilityText ModelTraining = ''model-training''"
| "capabilityText ThirdPartySharing = ''third-party-sharing''"

definition PROVIDER_DATA_CAPABILITIES :: "provider_capability list" where
  "PROVIDER_DATA_CAPABILITIES = [DataRetention, ExternalNetworkTools, ModelTraining, ThirdPartySharing]"

record data_policy =
  dp_classification :: data_classification
  dp_cloudProvidersAllowed :: bool
  dp_localExecutionRequired :: bool
  dp_redactionsRequired :: "redaction_kind list"
  dp_logRetentionAllowed :: bool
  dp_artifactPersistenceAllowed :: bool
  dp_humanApprovalRequired :: bool
  dp_disallowedCapabilities :: "provider_capability list"

definition POLICY_SCHEMA_VERSION :: int where "POLICY_SCHEMA_VERSION = 1"

definition POLICY_KEYS :: "string list" where
  "POLICY_KEYS = [''schemaVersion'', ''classification'', ''cloudProvidersAllowed'', ''localExecutionRequired'',
     ''redactionsRequiredBeforeDisclosure'', ''logRetentionAllowed'', ''artifactPersistenceAllowed'',
     ''humanApprovalRequired'', ''disallowedProviderCapabilities'']"

text \<open>The floors a policy may not go below.\<close>

definition checkFloors :: "data_classification \<Rightarrow> bool \<Rightarrow> bool \<Rightarrow> redaction_kind list \<Rightarrow> domain_error + unit" where
  "checkFloors classification cloud local redactions =
     (if local \<and> cloud then fail ''policy_conflict''
      else if classification = Secret \<and> (cloud \<or> \<not> local) then fail ''classification_floor''
      else if classification = Personal \<and> cloud \<and> PersonalData \<notin> set redactions then fail ''classification_floor''
      else Inr ())"

definition parseDataHandlingPolicy :: "jsval \<Rightarrow> domain_error + data_policy" where
  "parseDataHandlingPolicy value =
     bindE (ensureRecord value) (\<lambda>r.
     bindE (ensureExactKeys r POLICY_KEYS) (\<lambda>_.
     bindE (ensureSchemaVersion (fld r ''schemaVersion'') POLICY_SCHEMA_VERSION) (\<lambda>_.
     bindE (parseDataClassification (fld r ''classification'')) (\<lambda>classification.
     bindE (ensureBoolean (fld r ''cloudProvidersAllowed'')) (\<lambda>cloud.
     bindE (ensureBoolean (fld r ''localExecutionRequired'')) (\<lambda>local.
     bindE (ensureEnumArray (fld r ''redactionsRequiredBeforeDisclosure'') redactionText REDACTION_KINDS (length REDACTION_KINDS)) (\<lambda>redactions.
     bindE (checkFloors classification cloud local redactions) (\<lambda>_.
     bindE (ensureBoolean (fld r ''logRetentionAllowed'')) (\<lambda>logs.
     bindE (ensureBoolean (fld r ''artifactPersistenceAllowed'')) (\<lambda>artifacts.
     bindE (ensureBoolean (fld r ''humanApprovalRequired'')) (\<lambda>approval.
     bindE (ensureEnumArray (fld r ''disallowedProviderCapabilities'') capabilityText PROVIDER_DATA_CAPABILITIES
       (length PROVIDER_DATA_CAPABILITIES)) (\<lambda>disallowed.
     Inr \<lparr>dp_classification = classification, dp_cloudProvidersAllowed = cloud, dp_localExecutionRequired = local,
          dp_redactionsRequired = redactions, dp_logRetentionAllowed = logs, dp_artifactPersistenceAllowed = artifacts,
          dp_humanApprovalRequired = approval, dp_disallowedCapabilities = disallowed\<rparr>))))))))))))"

text \<open>A policy as the object the program passes on.\<close>

definition redactionsVal :: "redaction_kind list \<Rightarrow> jsval" where
  "redactionsVal rs = plainArr (map (\<lambda>k. JStr (redactionText k)) rs)"

definition capabilitiesVal :: "provider_capability list \<Rightarrow> jsval" where
  "capabilitiesVal cs = plainArr (map (\<lambda>c. JStr (capabilityText c)) cs)"

definition policyVal :: "data_policy \<Rightarrow> jsval" where
  "policyVal p = plainObj
     [(''schemaVersion'', jsInt POLICY_SCHEMA_VERSION), (''classification'', JStr (classificationText (dp_classification p))),
      (''cloudProvidersAllowed'', JBool (dp_cloudProvidersAllowed p)), (''localExecutionRequired'', JBool (dp_localExecutionRequired p)),
      (''redactionsRequiredBeforeDisclosure'', redactionsVal (dp_redactionsRequired p)),
      (''logRetentionAllowed'', JBool (dp_logRetentionAllowed p)), (''artifactPersistenceAllowed'', JBool (dp_artifactPersistenceAllowed p)),
      (''humanApprovalRequired'', JBool (dp_humanApprovalRequired p)),
      (''disallowedProviderCapabilities'', capabilitiesVal (dp_disallowedCapabilities p))]"

definition createDataHandlingPolicy :: "data_policy \<Rightarrow> domain_error + data_policy" where
  "createDataHandlingPolicy input = parseDataHandlingPolicy (policyVal input)"

definition policyOf :: "data_classification \<Rightarrow> bool \<Rightarrow> bool \<Rightarrow> redaction_kind list \<Rightarrow> bool \<Rightarrow> bool \<Rightarrow> bool \<Rightarrow>
    provider_capability list \<Rightarrow> data_policy" where
  "policyOf classification cloud local redactions logs artifacts approval disallowed =
     \<lparr>dp_classification = classification, dp_cloudProvidersAllowed = cloud, dp_localExecutionRequired = local,
      dp_redactionsRequired = redactions, dp_logRetentionAllowed = logs, dp_artifactPersistenceAllowed = artifacts,
      dp_humanApprovalRequired = approval, dp_disallowedCapabilities = disallowed\<rparr>"

fun defaultPolicyInput :: "data_classification \<Rightarrow> data_policy" where
  "defaultPolicyInput Public = policyOf Public True False [] True True False []"
| "defaultPolicyInput Internal = policyOf Internal True False [Secrets] True True False [ModelTraining, ThirdPartySharing]"
| "defaultPolicyInput ProprietarySource =
     policyOf ProprietarySource True False [Secrets] True True False [DataRetention, ModelTraining, ThirdPartySharing]"
| "defaultPolicyInput Personal =
     policyOf Personal False True [PersonalData, Secrets] False True True
       [DataRetention, ExternalNetworkTools, ModelTraining, ThirdPartySharing]"
| "defaultPolicyInput Secret =
     policyOf Secret False True [PersonalData, ProprietaryIdentifiers, Secrets] False False True
       [DataRetention, ExternalNetworkTools, ModelTraining, ThirdPartySharing]"

definition defaultDataHandlingPolicy :: "jsval \<Rightarrow> domain_error + data_policy" where
  "defaultDataHandlingPolicy classification =
     bindE (parseDataClassification classification) (\<lambda>parsed.
     createDataHandlingPolicy (defaultPolicyInput parsed))"

section \<open>Disclosure\<close>

datatype locality = LocalTarget | CloudTarget

fun localityText :: "locality \<Rightarrow> string" where
  "localityText LocalTarget = ''local''"
| "localityText CloudTarget = ''cloud''"

record disclosure_target =
  dt_locality :: locality
  dt_retainsData :: bool
  dt_capabilities :: "provider_capability list"

definition parseDisclosureTarget :: "jsval \<Rightarrow> domain_error + disclosure_target" where
  "parseDisclosureTarget value =
     bindE (ensureRecord value) (\<lambda>r.
     bindE (ensureExactKeys r [''locality'', ''retainsData'', ''capabilities'']) (\<lambda>_.
     bindE (ensureEnum (fld r ''locality'') localityText [LocalTarget, CloudTarget]) (\<lambda>locality.
     bindE (ensureBoolean (fld r ''retainsData'')) (\<lambda>retains.
     bindE (ensureEnumArray (fld r ''capabilities'') capabilityText PROVIDER_DATA_CAPABILITIES (length PROVIDER_DATA_CAPABILITIES)) (\<lambda>caps.
     Inr \<lparr>dt_locality = locality, dt_retainsData = retains, dt_capabilities = caps\<rparr>)))))"

record policy_decision =
  pd_allowed :: bool
  pd_reasons :: "string list"
  pd_requiredTransformations :: "redaction_kind list"
  pd_requiredApprovals :: "string list"
  pd_classification :: data_classification
  pd_evaluatedAt :: string
  pd_ruleCodes :: "string list"

text \<open>The rules in the order in which they fire: a code, whether it denies, and its condition.\<close>

definition disclosureRules :: "data_policy \<Rightarrow> disclosure_target \<Rightarrow> (string \<times> bool) list" where
  "disclosureRules policy target =
     (if dt_locality target = CloudTarget \<and> \<not> dp_cloudProvidersAllowed policy
      then [(''CLOUD_DISCLOSURE_FORBIDDEN'', True)] else []) @
     (if dp_localExecutionRequired policy \<and> dt_locality target \<noteq> LocalTarget
      then [(''LOCAL_EXECUTION_REQUIRED'', True)] else []) @
     (if dt_retainsData target \<and> DataRetention \<in> set (dp_disallowedCapabilities policy)
      then [(''RETENTION_FORBIDDEN'', True)] else []) @
     (if filter (\<lambda>c. c \<in> set (dp_disallowedCapabilities policy)) (dt_capabilities target) \<noteq> []
      then [(''CAPABILITY_FORBIDDEN'', True)] else []) @
     (if dt_locality target = CloudTarget \<and> dp_redactionsRequired policy \<noteq> []
      then [(''REDACTION_REQUIRED'', False)] else []) @
     (if dp_humanApprovalRequired policy then [(''HUMAN_APPROVAL_REQUIRED'', False)] else [])"

definition decide :: "data_policy \<Rightarrow> disclosure_target \<Rightarrow> string \<Rightarrow> policy_decision" where
  "decide policy target evaluatedAt =
     (let rules = disclosureRules policy target;
          reasons = map fst (filter snd rules) in
      \<lparr>pd_allowed = (length reasons = 0),
       pd_reasons = reasons,
       pd_requiredTransformations =
         (if dt_locality target = CloudTarget \<and> dp_redactionsRequired policy \<noteq> []
          then dp_redactionsRequired policy else []),
       pd_requiredApprovals = (if dp_humanApprovalRequired policy then [''human-review''] else []),
       pd_classification = dp_classification policy,
       pd_evaluatedAt = evaluatedAt,
       pd_ruleCodes = map fst rules\<rparr>)"

definition evaluateDisclosure :: "jsval \<Rightarrow> jsval \<Rightarrow> jsval \<Rightarrow> domain_error + policy_decision" where
  "evaluateDisclosure policy target context =
     bindE (parseDataHandlingPolicy policy) (\<lambda>parsedPolicy.
     bindE (parseDisclosureTarget target) (\<lambda>parsedTarget.
     bindE (ensureRecord context) (\<lambda>r.
     bindE (ensureTimestamp (fld r ''evaluatedAt'')) (\<lambda>evaluatedAt.
     Inr (decide parsedPolicy parsedTarget evaluatedAt)))))"

definition evaluateProviderEligibility :: "jsval \<Rightarrow> jsval \<Rightarrow> jsval \<Rightarrow> domain_error + (bool \<times> policy_decision)" where
  "evaluateProviderEligibility policy target context =
     bindE (evaluateDisclosure policy target context) (\<lambda>decision. Inr (pd_allowed decision, decision))"

definition assertDisclosureAllowed :: "jsval \<Rightarrow> jsval \<Rightarrow> jsval \<Rightarrow> domain_error + policy_decision" where
  "assertDisclosureAllowed policy target context =
     bindE (evaluateDisclosure policy target context) (\<lambda>decision.
     if \<not> pd_allowed decision then Inl (PolicyViolation (pd_reasons decision)) else Inr decision)"

definition mayUseCloudProvider :: "jsval \<Rightarrow> domain_error + bool" where
  "mayUseCloudProvider policy = bindE (parseDataHandlingPolicy policy) (\<lambda>p. Inr (dp_cloudProvidersAllowed p))"

definition requiresLocalModel :: "jsval \<Rightarrow> domain_error + bool" where
  "requiresLocalModel policy = bindE (parseDataHandlingPolicy policy) (\<lambda>p. Inr (dp_localExecutionRequired p))"

definition requiredRedactions :: "jsval \<Rightarrow> domain_error + redaction_kind list" where
  "requiredRedactions policy = bindE (parseDataHandlingPolicy policy) (\<lambda>p. Inr (dp_redactionsRequired p))"

definition mayRetainLogs :: "jsval \<Rightarrow> domain_error + bool" where
  "mayRetainLogs policy = bindE (parseDataHandlingPolicy policy) (\<lambda>p. Inr (dp_logRetentionAllowed p))"

definition mayPersistArtifacts :: "jsval \<Rightarrow> domain_error + bool" where
  "mayPersistArtifacts policy = bindE (parseDataHandlingPolicy policy) (\<lambda>p. Inr (dp_artifactPersistenceAllowed p))"

definition requiresHumanApproval :: "jsval \<Rightarrow> domain_error + bool" where
  "requiresHumanApproval policy = bindE (parseDataHandlingPolicy policy) (\<lambda>p. Inr (dp_humanApprovalRequired p))"

definition disallowedProviderCapabilities :: "jsval \<Rightarrow> domain_error + provider_capability list" where
  "disallowedProviderCapabilities policy = bindE (parseDataHandlingPolicy policy) (\<lambda>p. Inr (dp_disallowedCapabilities p))"

section \<open>What policies guarantee\<close>

definition policyOk :: "data_policy \<Rightarrow> bool" where
  "policyOk p \<longleftrightarrow> canonicalMembers redactionText (dp_redactionsRequired p) \<and>
     canonicalMembers capabilityText (dp_disallowedCapabilities p) \<and>
     checkFloors (dp_classification p) (dp_cloudProvidersAllowed p) (dp_localExecutionRequired p) (dp_redactionsRequired p) = Inr ()"

lemma inj_policy_texts [simp]: "inj classificationText" "inj redactionText" "inj capabilityText" "inj localityText"
  by (auto intro!: injI elim!: classificationText.elims redactionText.elims capabilityText.elims localityText.elims)

lemma policy_members [simp]:
  "c \<in> set DATA_CLASSIFICATIONS" "set REDACTION_KINDS = UNIV" "set PROVIDER_DATA_CAPABILITIES = UNIV"
  "l = LocalTarget \<or> l = CloudTarget"
  by (cases c; simp add: DATA_CLASSIFICATIONS_def)
    (auto simp: REDACTION_KINDS_def PROVIDER_DATA_CAPABILITIES_def intro: redaction_kind.exhaust provider_capability.exhaust locality.exhaust)

lemma parsePolicy_Inr: "parseDataHandlingPolicy v = Inr p \<Longrightarrow> policyOk p"
  by (auto simp: parseDataHandlingPolicy_def policyOk_def bindE_Inr_iff dest!: ensureEnumArray_Inr)

lemma distinct_members_length: "distinct xs \<Longrightarrow> set xs \<subseteq> set ys \<Longrightarrow> length xs \<le> length ys"
  by (metis card_length card_mono distinct_card finite_set order_trans)

lemma parsePolicy_val [simp]: "policyOk p \<Longrightarrow> parseDataHandlingPolicy (policyVal p) = Inr p"
  by (simp add: parseDataHandlingPolicy_def policyVal_def policyOk_def POLICY_KEYS_def redactionsVal_def capabilitiesVal_def
      parseDataClassification_def distinct_members_length canonicalMembers_def)

lemma filter_disjoint: "filter (\<lambda>c. c \<in> A) xs = [] \<longleftrightarrow> set xs \<inter> A = {}"
  by (auto simp: filter_empty_conv)

lemma decide_allowed:
  "pd_allowed (decide p t at') \<longleftrightarrow>
     (dt_locality t = CloudTarget \<longrightarrow> dp_cloudProvidersAllowed p \<and> \<not> dp_localExecutionRequired p) \<and>
     (dt_retainsData t \<longrightarrow> DataRetention \<notin> set (dp_disallowedCapabilities p)) \<and>
     set (dt_capabilities t) \<inter> set (dp_disallowedCapabilities p) = {}"
  by (cases "dt_locality t") (auto simp: decide_def disclosureRules_def Let_def filter_disjoint)

end
