(* ===== verification/Domain_Task.thy ===== *)
theory Domain_Task
  imports Domain_Policy
begin

text \<open>
  \<open>packages/domain/src/task.ts\<close>: what a task demands, and the retry and timeout policies of its
  execution. The retry delay is computed with unbounded integers in the code (\<open>BigInt\<close>) and here.
\<close>

section \<open>Task requirements\<close>

datatype task_kind = Plan | Architecture | Implement | Refactor | Debug | Review | TestKind | Document | Shell | Explain | Transform

fun taskKindText :: "task_kind \<Rightarrow> string" where
  "taskKindText Plan = ''plan''"
| "taskKindText Architecture = ''architecture''"
| "taskKindText Implement = ''implement''"
| "taskKindText Refactor = ''refactor''"
| "taskKindText Debug = ''debug''"
| "taskKindText Review = ''review''"
| "taskKindText TestKind = ''test''"
| "taskKindText Document = ''document''"
| "taskKindText Shell = ''shell''"
| "taskKindText Explain = ''explain''"
| "taskKindText Transform = ''transform''"

definition TASK_KINDS :: "task_kind list" where
  "TASK_KINDS = [Plan, Architecture, Implement, Refactor, Debug, Review, TestKind, Document, Shell, Explain, Transform]"

datatype task_risk = LowRisk | MediumRisk | HighRisk | CriticalRisk

fun taskRiskText :: "task_risk \<Rightarrow> string" where
  "taskRiskText LowRisk = ''low''"
| "taskRiskText MediumRisk = ''medium''"
| "taskRiskText HighRisk = ''high''"
| "taskRiskText CriticalRisk = ''critical''"

definition TASK_RISKS :: "task_risk list" where "TASK_RISKS = [LowRisk, MediumRisk, HighRisk, CriticalRisk]"

datatype reasoning_demand = LowReasoning | MediumReasoning | HighReasoning | ExtremeReasoning

fun reasoningText :: "reasoning_demand \<Rightarrow> string" where
  "reasoningText LowReasoning = ''low''"
| "reasoningText MediumReasoning = ''medium''"
| "reasoningText HighReasoning = ''high''"
| "reasoningText ExtremeReasoning = ''extreme''"

definition REASONING_DEMANDS :: "reasoning_demand list" where
  "REASONING_DEMANDS = [LowReasoning, MediumReasoning, HighReasoning, ExtremeReasoning]"

datatype edit_scope = NoEdit | SingleFile | MultiFile | CrossPackage

fun editScopeText :: "edit_scope \<Rightarrow> string" where
  "editScopeText NoEdit = ''none''"
| "editScopeText SingleFile = ''single-file''"
| "editScopeText MultiFile = ''multi-file''"
| "editScopeText CrossPackage = ''cross-package''"

definition EDIT_SCOPES :: "edit_scope list" where "EDIT_SCOPES = [NoEdit, SingleFile, MultiFile, CrossPackage]"

datatype task_capability =
    Reasoning | RepositoryRead | CodeEdit | ShellUse | Testing | Documentation | Vision | StructuredOutput | ToolUse

fun taskCapabilityText :: "task_capability \<Rightarrow> string" where
  "taskCapabilityText Reasoning = ''reasoning''"
| "taskCapabilityText RepositoryRead = ''repository-read''"
| "taskCapabilityText CodeEdit = ''code-edit''"
| "taskCapabilityText ShellUse = ''shell''"
| "taskCapabilityText Testing = ''testing''"
| "taskCapabilityText Documentation = ''documentation''"
| "taskCapabilityText Vision = ''vision''"
| "taskCapabilityText StructuredOutput = ''structured-output''"
| "taskCapabilityText ToolUse = ''tool-use''"

definition TASK_CAPABILITIES :: "task_capability list" where
  "TASK_CAPABILITIES = [Reasoning, RepositoryRead, CodeEdit, ShellUse, Testing, Documentation, Vision, StructuredOutput, ToolUse]"

definition parseTaskKind :: "jsval \<Rightarrow> domain_error + task_kind" where
  "parseTaskKind value = ensureEnum value taskKindText TASK_KINDS"

definition parseTaskRisk :: "jsval \<Rightarrow> domain_error + task_risk" where
  "parseTaskRisk value = ensureEnum value taskRiskText TASK_RISKS"

definition parseTaskComplexity :: "jsval \<Rightarrow> domain_error + int" where
  "parseTaskComplexity value = ensureSafeInteger value 1 5"

definition parseTaskPriority :: "jsval \<Rightarrow> domain_error + int" where
  "parseTaskPriority value = ensureSafeInteger value (-1000) 1000"

record task_requirements =
  tr_kind :: task_kind
  tr_complexity :: int
  tr_risk :: task_risk
  tr_reasoning :: reasoning_demand
  tr_editScope :: edit_scope
  tr_capabilities :: "task_capability list"
  tr_dataClassification :: data_classification
  tr_expectedInputTokens :: "int option"
  tr_expectedOutputTokens :: "int option"

definition nullableTokens :: "jsval \<Rightarrow> domain_error + int option" where
  "nullableTokens value = ensureNullable value (\<lambda>v. ensureSafeInteger v 0 MAX_TOKEN_COUNT)"

definition parseTaskRequirements :: "jsval \<Rightarrow> domain_error + task_requirements" where
  "parseTaskRequirements value =
     bindE (ensureRecord value) (\<lambda>r.
     bindE (ensureExactKeys r [''kind'', ''complexity'', ''risk'', ''reasoning'', ''editScope'', ''capabilities'',
       ''dataClassification'', ''expectedInputTokens'', ''expectedOutputTokens'']) (\<lambda>_.
     bindE (ensureEnum (fld r ''editScope'') editScopeText EDIT_SCOPES) (\<lambda>editScope.
     bindE (ensureEnumArray (fld r ''capabilities'') taskCapabilityText TASK_CAPABILITIES (length TASK_CAPABILITIES)) (\<lambda>capabilities.
     if editScope \<noteq> NoEdit \<and> CodeEdit \<notin> set capabilities then fail ''missing_code_edit''
     else
     bindE (parseTaskKind (fld r ''kind'')) (\<lambda>kind.
     bindE (parseTaskComplexity (fld r ''complexity'')) (\<lambda>complexity.
     bindE (parseTaskRisk (fld r ''risk'')) (\<lambda>risk.
     bindE (ensureEnum (fld r ''reasoning'') reasoningText REASONING_DEMANDS) (\<lambda>reasoning.
     bindE (ensureEnum (fld r ''dataClassification'') classificationText DATA_CLASSIFICATIONS) (\<lambda>classification.
     bindE (nullableTokens (fld r ''expectedInputTokens'')) (\<lambda>inputTokens.
     bindE (nullableTokens (fld r ''expectedOutputTokens'')) (\<lambda>outputTokens.
     Inr \<lparr>tr_kind = kind, tr_complexity = complexity, tr_risk = risk, tr_reasoning = reasoning, tr_editScope = editScope,
          tr_capabilities = capabilities, tr_dataClassification = classification,
          tr_expectedInputTokens = inputTokens, tr_expectedOutputTokens = outputTokens\<rparr>)))))))))))"

definition createTaskRequirements :: "jsval \<Rightarrow> domain_error + task_requirements" where
  "createTaskRequirements input = parseTaskRequirements input"

section \<open>Retries\<close>

datatype backoff = NoBackoff | Fixed | Exponential

fun backoffText :: "backoff \<Rightarrow> string" where
  "backoffText NoBackoff = ''none''"
| "backoffText Fixed = ''fixed''"
| "backoffText Exponential = ''exponential''"

record retry_policy =
  rp_maxAttempts :: int
  rp_backoff :: backoff
  rp_initialDelayMs :: int
  rp_maxDelayMs :: int
  rp_backoffMultiplierPercent :: int

definition parseRetryPolicy :: "jsval \<Rightarrow> domain_error + retry_policy" where
  "parseRetryPolicy value =
     bindE (ensureRecord value) (\<lambda>r.
     bindE (ensureExactKeys r [''maxAttempts'', ''backoff'', ''initialDelayMs'', ''maxDelayMs'', ''backoffMultiplierPercent'']) (\<lambda>_.
     bindE (ensureEnum (fld r ''backoff'') backoffText [NoBackoff, Fixed, Exponential]) (\<lambda>backoff.
     bindE (ensureSafeInteger (fld r ''initialDelayMs'') 0 MAX_DURATION_MS) (\<lambda>initialDelay.
     bindE (ensureSafeInteger (fld r ''maxDelayMs'') 0 MAX_DURATION_MS) (\<lambda>maxDelay.
     if initialDelay > maxDelay then fail ''delay_order''
     else
     bindE (ensureSafeInteger (fld r ''backoffMultiplierPercent'') 100 10000) (\<lambda>multiplier.
     if backoff = Exponential \<and> multiplier = 100 then fail ''no_growth''
     else
     bindE (ensureSafeInteger (fld r ''maxAttempts'') 1 100) (\<lambda>maxAttempts.
     Inr \<lparr>rp_maxAttempts = maxAttempts, rp_backoff = backoff, rp_initialDelayMs = initialDelay,
          rp_maxDelayMs = maxDelay, rp_backoffMultiplierPercent = multiplier\<rparr>)))))))"

definition createRetryPolicy :: "jsval \<Rightarrow> domain_error + retry_policy" where
  "createRetryPolicy input = parseRetryPolicy input"

text \<open>The loop of \<open>computeRetryDelayMs\<close>; the first argument counts the steps still to run.\<close>

fun growDelay :: "nat \<Rightarrow> int \<Rightarrow> int \<Rightarrow> int \<Rightarrow> int" where
  "growDelay 0 delay multiplier maxDelay = (if delay \<ge> maxDelay then maxDelay else delay)"
| "growDelay (Suc steps) delay multiplier maxDelay =
     (let delay' = (delay * multiplier) div 100 in
      if delay' \<ge> maxDelay then maxDelay else growDelay steps delay' multiplier maxDelay)"

definition computeRetryDelayMs :: "retry_policy \<Rightarrow> jsval \<Rightarrow> domain_error + int" where
  "computeRetryDelayMs policy attempt =
     bindE (ensureSafeInteger attempt 1 100) (\<lambda>attemptNumber.
     if attemptNumber = 1 \<or> rp_backoff policy = NoBackoff then Inr 0
     else if rp_backoff policy = Fixed then Inr (rp_initialDelayMs policy)
     else Inr (growDelay (nat (attemptNumber - 2)) (rp_initialDelayMs policy) (rp_backoffMultiplierPercent policy)
       (rp_maxDelayMs policy)))"

section \<open>Timeouts and constraints\<close>

record timeout_policy =
  to_executionTimeoutMs :: int
  to_totalTimeoutMs :: int
  to_heartbeatTimeoutMs :: "int option"

definition parseTimeoutPolicy :: "jsval \<Rightarrow> domain_error + timeout_policy" where
  "parseTimeoutPolicy value =
     bindE (ensureRecord value) (\<lambda>r.
     bindE (ensureExactKeys r [''executionTimeoutMs'', ''totalTimeoutMs'', ''heartbeatTimeoutMs'']) (\<lambda>_.
     bindE (ensureSafeInteger (fld r ''executionTimeoutMs'') 1 MAX_DURATION_MS) (\<lambda>execution.
     bindE (ensureSafeInteger (fld r ''totalTimeoutMs'') 1 MAX_DURATION_MS) (\<lambda>total.
     if execution > total then fail ''timeout_order''
     else
     bindE (ensureNullable (fld r ''heartbeatTimeoutMs'') (\<lambda>v. ensureSafeInteger v 1 MAX_DURATION_MS)) (\<lambda>heartbeat.
     if (case heartbeat of None \<Rightarrow> False | Some h \<Rightarrow> h > execution) then fail ''timeout_order''
     else Inr \<lparr>to_executionTimeoutMs = execution, to_totalTimeoutMs = total, to_heartbeatTimeoutMs = heartbeat\<rparr>)))))"

record execution_constraints =
  ec_timeout :: timeout_policy
  ec_retry :: retry_policy
  ec_maxToolCalls :: int
  ec_maxOutputBytes :: int
  ec_maxSubtaskDepth :: int

definition parseExecutionConstraints :: "jsval \<Rightarrow> domain_error + execution_constraints" where
  "parseExecutionConstraints value =
     bindE (ensureRecord value) (\<lambda>r.
     bindE (ensureExactKeys r [''timeout'', ''retry'', ''maxToolCalls'', ''maxOutputBytes'', ''maxSubtaskDepth'']) (\<lambda>_.
     bindE (parseTimeoutPolicy (fld r ''timeout'')) (\<lambda>timeout.
     bindE (parseRetryPolicy (fld r ''retry'')) (\<lambda>retry.
     bindE (ensureSafeInteger (fld r ''maxToolCalls'') 0 100000) (\<lambda>toolCalls.
     bindE (ensureSafeInteger (fld r ''maxOutputBytes'') 1 1000000000000) (\<lambda>outputBytes.
     bindE (ensureSafeInteger (fld r ''maxSubtaskDepth'') 0 128) (\<lambda>depth.
     Inr \<lparr>ec_timeout = timeout, ec_retry = retry, ec_maxToolCalls = toolCalls, ec_maxOutputBytes = outputBytes,
          ec_maxSubtaskDepth = depth\<rparr>)))))))"

definition createExecutionConstraints :: "jsval \<Rightarrow> domain_error + execution_constraints" where
  "createExecutionConstraints input = parseExecutionConstraints input"

section \<open>Retry delays\<close>

definition retryPolicyOk :: "retry_policy \<Rightarrow> bool" where
  "retryPolicyOk p \<longleftrightarrow> 1 \<le> rp_maxAttempts p \<and> rp_maxAttempts p \<le> 100 \<and> 0 \<le> rp_initialDelayMs p \<and>
     rp_initialDelayMs p \<le> rp_maxDelayMs p \<and> rp_maxDelayMs p \<le> MAX_DURATION_MS \<and>
     100 \<le> rp_backoffMultiplierPercent p \<and> rp_backoffMultiplierPercent p \<le> 10000 \<and>
     (rp_backoff p = Exponential \<longrightarrow> 100 < rp_backoffMultiplierPercent p)"

lemma parseRetryPolicy_Inr: "parseRetryPolicy v = Inr p \<Longrightarrow> retryPolicyOk p"
  by (auto simp: parseRetryPolicy_def retryPolicyOk_def bindE_Inr_iff dest!: ensureSafeInteger_range split: if_splits)

text \<open>The reference: the capped geometric sequence.\<close>

fun cappedDelay :: "nat \<Rightarrow> retry_policy \<Rightarrow> int" where
  "cappedDelay 0 p = rp_initialDelayMs p"
| "cappedDelay (Suc k) p = min (rp_maxDelayMs p) ((cappedDelay k p * rp_backoffMultiplierPercent p) div 100)"

lemma grow_le: "0 \<le> d \<Longrightarrow> 100 \<le> m \<Longrightarrow> d \<le> (d * m) div (100::int)"
proof -
  assume "0 \<le> d" "100 \<le> m"
  then have "d * 100 \<le> d * m" by (rule mult_left_mono [rotated])
  then have "(d * 100) div 100 \<le> (d * m) div 100" by (intro zdiv_mono1) auto
  then show ?thesis by simp
qed

lemma cappedDelay_range: "retryPolicyOk p \<Longrightarrow> 0 \<le> cappedDelay k p \<and> cappedDelay k p \<le> rp_maxDelayMs p"
  by (induction k) (auto simp: retryPolicyOk_def div_int_pos_iff)

lemma cappedDelay_mono_step: "retryPolicyOk p \<Longrightarrow> cappedDelay k p \<le> cappedDelay (Suc k) p"
  using cappedDelay_range [of p k] grow_le [of "cappedDelay k p"] by (simp add: retryPolicyOk_def)

lemma cappedDelay_mono: "retryPolicyOk p \<Longrightarrow> j \<le> k \<Longrightarrow> cappedDelay j p \<le> cappedDelay k p"
  by (rule lift_Suc_mono_le [of "\<lambda>k. cappedDelay k p"]) (rule cappedDelay_mono_step)

lemma cappedDelay_stays: "retryPolicyOk p \<Longrightarrow> cappedDelay k p = rp_maxDelayMs p \<Longrightarrow> cappedDelay (k + n) p = rp_maxDelayMs p"
  using cappedDelay_mono [of p k "k + n"] cappedDelay_range [of p "k + n"] by simp

lemma growDelay_capped:
  assumes "retryPolicyOk p"
  shows "growDelay n (cappedDelay k p) (rp_backoffMultiplierPercent p) (rp_maxDelayMs p) = cappedDelay (k + n) p"
proof (induction n arbitrary: k)
  case 0
  then show ?case using cappedDelay_range [OF assms, of k] by auto
next
  case (Suc n)
  let ?d = "(cappedDelay k p * rp_backoffMultiplierPercent p) div 100"
  show ?case
  proof (cases "rp_maxDelayMs p \<le> ?d")
    case True
    then have "cappedDelay (Suc k) p = rp_maxDelayMs p" by simp
    then have "cappedDelay (Suc k + n) p = rp_maxDelayMs p" using cappedDelay_stays [OF assms] by blast
    then show ?thesis using True by (simp add: Let_def)
  next
    case False
    then have "cappedDelay (Suc k) p = ?d" by simp
    then show ?thesis using Suc.IH [of "Suc k"] False by (simp add: Let_def)
  qed
qed

end
