(* ===== verification/Domain_Models.thy ===== *)
theory Domain_Models
  imports Budget_Laws
begin

text \<open>
  \<open>packages/domain/src/capabilities.ts\<close>: what a model declares, what a route requires, the check
  of one against the other, and the exact cost estimate. The code computes costs with \<open>BigInt\<close>.
\<close>

datatype model_locality = LocalModel | CloudModel

fun modelLocalityText :: "model_locality \<Rightarrow> string" where
  "modelLocalityText LocalModel = ''local''"
| "modelLocalityText CloudModel = ''cloud''"

datatype latency_class = FastLatency | StandardLatency | SlowLatency

fun latencyText :: "latency_class \<Rightarrow> string" where
  "latencyText FastLatency = ''fast''"
| "latencyText StandardLatency = ''standard''"
| "latencyText SlowLatency = ''slow''"

record model_cost =
  mc_currency :: string
  mc_inputRate :: int
  mc_outputRate :: int
  mc_cachedRate :: "int option"

record model_capabilities =
  md_providerId :: string
  md_modelId :: string
  md_contextWindowTokens :: int
  md_maxOutputTokens :: int
  md_supportsToolUse :: bool
  md_supportsStructuredOutput :: bool
  md_supportsVision :: bool
  md_locality :: model_locality
  md_latencyClass :: latency_class
  md_codingCapability :: int
  md_reasoningCapability :: int
  md_cost :: "model_cost option"

definition MODEL_SCHEMA_VERSION :: int where "MODEL_SCHEMA_VERSION = 1"

definition parseRating :: "jsval \<Rightarrow> domain_error + int" where
  "parseRating value = ensureSafeInteger value 1 5"

definition parseModelCostMetadata :: "jsval \<Rightarrow> domain_error + model_cost" where
  "parseModelCostMetadata value =
     bindE (ensureRecord value) (\<lambda>r.
     bindE (ensureExactKeys r [''currency'', ''inputMicrosPerMillionTokens'', ''outputMicrosPerMillionTokens'',
       ''cachedInputMicrosPerMillionTokens'']) (\<lambda>_.
     bindE (parseCurrencyCode (fld r ''currency'')) (\<lambda>currency.
     bindE (ensureSafeInteger (fld r ''inputMicrosPerMillionTokens'') 0 MAX_MONEY_MICROS) (\<lambda>inputRate.
     bindE (ensureSafeInteger (fld r ''outputMicrosPerMillionTokens'') 0 MAX_MONEY_MICROS) (\<lambda>outputRate.
     bindE (ensureNullable (fld r ''cachedInputMicrosPerMillionTokens'')
       (\<lambda>cached. ensureSafeInteger cached 0 MAX_MONEY_MICROS)) (\<lambda>cachedRate.
     Inr \<lparr>mc_currency = currency, mc_inputRate = inputRate, mc_outputRate = outputRate, mc_cachedRate = cachedRate\<rparr>))))))"

definition parseModelCapabilities :: "jsval \<Rightarrow> domain_error + model_capabilities" where
  "parseModelCapabilities value =
     bindE (ensureRecord value) (\<lambda>r.
     bindE (ensureExactKeys r [''schemaVersion'', ''providerId'', ''modelId'', ''contextWindowTokens'', ''maxOutputTokens'',
       ''supportsToolUse'', ''supportsStructuredOutput'', ''supportsVision'', ''locality'', ''latencyClass'',
       ''codingCapability'', ''reasoningCapability'', ''cost'']) (\<lambda>_.
     bindE (ensureSchemaVersion (fld r ''schemaVersion'') MODEL_SCHEMA_VERSION) (\<lambda>_.
     bindE (ensureSafeInteger (fld r ''contextWindowTokens'') 1 MAX_TOKEN_COUNT) (\<lambda>contextWindow.
     bindE (parseId (fld r ''providerId'')) (\<lambda>providerId.
     bindE (parseId (fld r ''modelId'')) (\<lambda>modelId.
     bindE (ensureSafeInteger (fld r ''maxOutputTokens'') 1 contextWindow) (\<lambda>maxOutput.
     bindE (ensureBoolean (fld r ''supportsToolUse'')) (\<lambda>toolUse.
     bindE (ensureBoolean (fld r ''supportsStructuredOutput'')) (\<lambda>structured.
     bindE (ensureBoolean (fld r ''supportsVision'')) (\<lambda>vision.
     bindE (ensureEnum (fld r ''locality'') modelLocalityText [LocalModel, CloudModel]) (\<lambda>locality.
     bindE (ensureEnum (fld r ''latencyClass'') latencyText [FastLatency, StandardLatency, SlowLatency]) (\<lambda>latency.
     bindE (parseRating (fld r ''codingCapability'')) (\<lambda>coding.
     bindE (parseRating (fld r ''reasoningCapability'')) (\<lambda>reasoning.
     bindE (ensureNullable (fld r ''cost'') parseModelCostMetadata) (\<lambda>cost.
     Inr \<lparr>md_providerId = providerId, md_modelId = modelId, md_contextWindowTokens = contextWindow,
          md_maxOutputTokens = maxOutput, md_supportsToolUse = toolUse, md_supportsStructuredOutput = structured,
          md_supportsVision = vision, md_locality = locality, md_latencyClass = latency, md_codingCapability = coding,
          md_reasoningCapability = reasoning, md_cost = cost\<rparr>)))))))))))))))"

text \<open>The input is spread over the schema version, so a field of that name in it wins.\<close>

definition createModelCapabilities :: "jsrecord \<Rightarrow> domain_error + model_capabilities" where
  "createModelCapabilities input =
     parseModelCapabilities (plainObj
       ((''schemaVersion'', if ''schemaVersion'' \<in> fst ` set input then fld input ''schemaVersion'' else jsInt MODEL_SCHEMA_VERSION) #
        filter (\<lambda>(k, _). k \<noteq> ''schemaVersion'') input))"

record model_requirements =
  mr_minContextWindowTokens :: "int option"
  mr_minOutputTokens :: "int option"
  mr_requireToolUse :: bool
  mr_requireStructuredOutput :: bool
  mr_requireVision :: bool
  mr_requireLocalExecution :: bool
  mr_minCodingCapability :: "int option"
  mr_minReasoningCapability :: "int option"

definition parseModelRequirements :: "jsval \<Rightarrow> domain_error + model_requirements" where
  "parseModelRequirements value =
     bindE (ensureRecord value) (\<lambda>r.
     bindE (ensureExactKeys r [''minContextWindowTokens'', ''minOutputTokens'', ''requireToolUse'', ''requireStructuredOutput'',
       ''requireVision'', ''requireLocalExecution'', ''minCodingCapability'', ''minReasoningCapability'']) (\<lambda>_.
     bindE (ensureNullable (fld r ''minContextWindowTokens'') (\<lambda>v. ensureSafeInteger v 1 MAX_TOKEN_COUNT)) (\<lambda>window.
     bindE (ensureNullable (fld r ''minOutputTokens'') (\<lambda>v. ensureSafeInteger v 1 MAX_TOKEN_COUNT)) (\<lambda>output.
     bindE (ensureBoolean (fld r ''requireToolUse'')) (\<lambda>toolUse.
     bindE (ensureBoolean (fld r ''requireStructuredOutput'')) (\<lambda>structured.
     bindE (ensureBoolean (fld r ''requireVision'')) (\<lambda>vision.
     bindE (ensureBoolean (fld r ''requireLocalExecution'')) (\<lambda>local.
     bindE (ensureNullable (fld r ''minCodingCapability'') parseRating) (\<lambda>coding.
     bindE (ensureNullable (fld r ''minReasoningCapability'') parseRating) (\<lambda>reasoning.
     Inr \<lparr>mr_minContextWindowTokens = window, mr_minOutputTokens = output, mr_requireToolUse = toolUse,
          mr_requireStructuredOutput = structured, mr_requireVision = vision, mr_requireLocalExecution = local,
          mr_minCodingCapability = coding, mr_minReasoningCapability = reasoning\<rparr>))))))))))"

definition createModelRequirements :: "jsrecord \<Rightarrow> domain_error + model_requirements" where
  "createModelRequirements input =
     parseModelRequirements (plainObj
       [(''minContextWindowTokens'', orElse (fld input ''minContextWindowTokens'') JNull),
        (''minOutputTokens'', orElse (fld input ''minOutputTokens'') JNull),
        (''requireToolUse'', orElse (fld input ''requireToolUse'') (JBool False)),
        (''requireStructuredOutput'', orElse (fld input ''requireStructuredOutput'') (JBool False)),
        (''requireVision'', orElse (fld input ''requireVision'') (JBool False)),
        (''requireLocalExecution'', orElse (fld input ''requireLocalExecution'') (JBool False)),
        (''minCodingCapability'', orElse (fld input ''minCodingCapability'') JNull),
        (''minReasoningCapability'', orElse (fld input ''minReasoningCapability'') JNull)])"

section \<open>Matching\<close>

definition below :: "int \<Rightarrow> int option \<Rightarrow> bool" where
  "below x minimum \<longleftrightarrow> (case minimum of None \<Rightarrow> False | Some m \<Rightarrow> x < m)"

definition unmetRequirements :: "model_capabilities \<Rightarrow> model_requirements \<Rightarrow> string list" where
  "unmetRequirements model needs =
     (if below (md_contextWindowTokens model) (mr_minContextWindowTokens needs) then [''context-window''] else []) @
     (if below (md_maxOutputTokens model) (mr_minOutputTokens needs) then [''max-output''] else []) @
     (if mr_requireToolUse needs \<and> \<not> md_supportsToolUse model then [''tool-use''] else []) @
     (if mr_requireStructuredOutput needs \<and> \<not> md_supportsStructuredOutput model then [''structured-output''] else []) @
     (if mr_requireVision needs \<and> \<not> md_supportsVision model then [''vision''] else []) @
     (if mr_requireLocalExecution needs \<and> md_locality model \<noteq> LocalModel then [''local-execution''] else []) @
     (if below (md_codingCapability model) (mr_minCodingCapability needs) then [''coding-capability''] else []) @
     (if below (md_reasoningCapability model) (mr_minReasoningCapability needs) then [''reasoning-capability''] else [])"

definition findUnmetRequirements :: "jsval \<Rightarrow> jsval \<Rightarrow> domain_error + string list" where
  "findUnmetRequirements capabilities requirements =
     bindE (parseModelCapabilities capabilities) (\<lambda>model.
     bindE (parseModelRequirements requirements) (\<lambda>needs.
     Inr (unmetRequirements model needs)))"

text \<open>The exception of \<open>assertModelSupports\<close> carries the unmet requirements; here it is \<open>Inl (Inr unmet)\<close>.\<close>

definition assertModelSupports :: "jsval \<Rightarrow> jsval \<Rightarrow> (domain_error + string list) + unit" where
  "assertModelSupports capabilities requirements =
     (case findUnmetRequirements capabilities requirements of
        Inl e \<Rightarrow> Inl (Inl e)
      | Inr unmet \<Rightarrow> if length unmet > 0 then Inl (Inr unmet) else Inr ())"

section \<open>Cost\<close>

definition MICROS_DIVISOR :: int where "MICROS_DIVISOR = 1000000"

text \<open>Division of \<open>BigInt\<close>s truncates; the numerators here are not negative.\<close>

definition ceilDivide :: "int \<Rightarrow> int \<Rightarrow> int" where
  "ceilDivide numerator denominator = (numerator + denominator - 1) div denominator"

definition cachedRateOf :: "model_cost \<Rightarrow> int" where
  "cachedRateOf cost = (case mc_cachedRate cost of None \<Rightarrow> mc_inputRate cost | Some rate \<Rightarrow> rate)"

definition costInMicros :: "model_cost \<Rightarrow> token_usage \<Rightarrow> int" where
  "costInMicros cost tokens =
     ceilDivide (tu_inputTokens tokens * mc_inputRate cost) MICROS_DIVISOR +
     ceilDivide (tu_cachedInputTokens tokens * cachedRateOf cost) MICROS_DIVISOR +
     ceilDivide ((tu_outputTokens tokens + tu_reasoningTokens tokens) * mc_outputRate cost) MICROS_DIVISOR"

definition estimateModelCost :: "jsval \<Rightarrow> jsval \<Rightarrow> domain_error + money" where
  "estimateModelCost capabilities usage =
     bindE (parseModelCapabilities capabilities) (\<lambda>model.
     bindE (parseTokenUsage usage) (\<lambda>tokens.
     case md_cost model of
       None \<Rightarrow> Inl InvariantViolation
     | Some cost \<Rightarrow>
         let micros = costInMicros cost tokens in
         if micros > MAX_MONEY_MICROS then Inl InvariantViolation
         else createMoney (JStr (mc_currency cost)) (jsInt micros)))"

section \<open>The estimate is the exact cost, rounded up\<close>

definition costOk :: "model_cost \<Rightarrow> bool" where
  "costOk c \<longleftrightarrow> CURRENCY_PATTERN (mc_currency c) \<and> 0 \<le> mc_inputRate c \<and> 0 \<le> mc_outputRate c \<and> 0 \<le> cachedRateOf c"

lemma parseModelCostMetadata_Inr: "parseModelCostMetadata v = Inr c \<Longrightarrow> costOk c"
  by (auto simp: parseModelCostMetadata_def costOk_def cachedRateOf_def parseCurrencyCode_def bindE_Inr_iff ensureNullable_Inr
      dest!: ensureSafeInteger_range split: if_splits option.splits)

lemma parseModelCapabilities_cost: "parseModelCapabilities v = Inr m \<Longrightarrow> pred_option costOk (md_cost m)"
  by (auto simp: parseModelCapabilities_def bindE_Inr_iff dest!: ensureNullable_pred [where P = costOk, OF _ parseModelCostMetadata_Inr])

lemma ceilDivide_bounds: "0 < d \<Longrightarrow> n \<le> d * ceilDivide n d \<and> d * ceilDivide n d < n + d"
proof -
  assume d: "0 < d"
  have "d * ceilDivide n d = n + d - 1 - (n + d - 1) mod d"
    by (simp add: ceilDivide_def minus_mod_eq_mult_div [symmetric])
  moreover have "0 \<le> (n + d - 1) mod d" "(n + d - 1) mod d < d" using d by simp_all
  ultimately show ?thesis by linarith
qed

lemma ceilDivide_nonneg: "0 \<le> n \<Longrightarrow> 0 < d \<Longrightarrow> 0 \<le> ceilDivide n d"
  by (simp add: ceilDivide_def div_int_pos_iff)

lemma ceilDivide_mono: "m \<le> n \<Longrightarrow> 0 < d \<Longrightarrow> ceilDivide m d \<le> ceilDivide n d"
  unfolding ceilDivide_def by (rule zdiv_mono1) auto

text \<open>The exact cost in micro-units times a million.\<close>

definition exactCost :: "model_cost \<Rightarrow> token_usage \<Rightarrow> int" where
  "exactCost cost tokens = tu_inputTokens tokens * mc_inputRate cost + tu_cachedInputTokens tokens * cachedRateOf cost +
     (tu_outputTokens tokens + tu_reasoningTokens tokens) * mc_outputRate cost"

lemma costInMicros_bounds:
  "exactCost c t \<le> MICROS_DIVISOR * costInMicros c t \<and> MICROS_DIVISOR * costInMicros c t < exactCost c t + 3 * MICROS_DIVISOR"
  using ceilDivide_bounds [of MICROS_DIVISOR "tu_inputTokens t * mc_inputRate c"]
    ceilDivide_bounds [of MICROS_DIVISOR "tu_cachedInputTokens t * cachedRateOf c"]
    ceilDivide_bounds [of MICROS_DIVISOR "(tu_outputTokens t + tu_reasoningTokens t) * mc_outputRate c"]
  by (simp add: exactCost_def costInMicros_def MICROS_DIVISOR_def distrib_left)

lemma costInMicros_nonneg: "costOk c \<Longrightarrow> tokenUsageOk t \<Longrightarrow> 0 \<le> costInMicros c t"
  by (simp add: costInMicros_def costOk_def tokenUsageOk_def MICROS_DIVISOR_def ceilDivide_nonneg)

lemma costInMicros_mono:
  assumes "costOk c" and "tu_inputTokens t \<le> tu_inputTokens u" "tu_cachedInputTokens t \<le> tu_cachedInputTokens u"
    "tu_outputTokens t + tu_reasoningTokens t \<le> tu_outputTokens u + tu_reasoningTokens u"
  shows "costInMicros c t \<le> costInMicros c u"
  unfolding costInMicros_def using assms
  by (intro add_mono ceilDivide_mono) (auto simp: costOk_def MICROS_DIVISOR_def intro: mult_right_mono)

lemma estimateModelCost_Inr:
  assumes "parseModelCapabilities m = Inr model" and "md_cost model = Some c" and "parseTokenUsage u = Inr t"
  shows "estimateModelCost m u = (if costInMicros c t > MAX_MONEY_MICROS then Inl InvariantViolation
     else Inr \<lparr>m_currency = mc_currency c, m_amountMicros = costInMicros c t\<rparr>)"
proof -
  have c: "costOk c" using parseModelCapabilities_cost [OF assms(1)] assms(2) by simp
  have "createMoney (JStr (mc_currency c)) (jsInt (costInMicros c t)) = Inr \<lparr>m_currency = mc_currency c, m_amountMicros = costInMicros c t\<rparr>"
    if "costInMicros c t \<le> MAX_MONEY_MICROS"
    using parseMoney_moneyVal [of "\<lparr>m_currency = mc_currency c, m_amountMicros = costInMicros c t\<rparr>"]
      c costInMicros_nonneg [OF c parseTokenUsage_Inr [OF assms(3)]] that
    by (simp add: createMoney_def moneyVal_def moneyOk_def costOk_def)
  then show ?thesis using assms by (simp add: estimateModelCost_def Let_def)
qed

end
