(* ===== verification/Domain_Json.thy ===== *)
theory Domain_Json
  imports Domain_Guards
begin

text \<open>
  \<open>packages/domain/src/json.ts\<close>: the canonical copy of a JSON value. Serialisation to text and
  parsing of text are the language's \<open>JSON.stringify\<close> and \<open>JSON.parse\<close>; the functions built on
  them take those as arguments here.
\<close>

definition maxDepth :: nat where "maxDepth = 64"
definition maxNodes :: nat where "maxNodes = 100000"
definition maxStringLength :: nat where "maxStringLength = 1000000"
definition maxTextLength :: nat where "maxTextLength = 10000000"

text \<open>A validation error becomes a serialization error; other exceptions pass.\<close>

fun toSerializationInput :: "domain_error + 'a \<Rightarrow> domain_error + 'a" where
  "toSerializationInput (Inl (Validation code)) = Inl SerializationFailed"
| "toSerializationInput m = m"

function canonicalClone :: "jsval \<Rightarrow> nat \<Rightarrow> nat \<Rightarrow> domain_error + (json \<times> nat)" where
  "canonicalClone value depth nodes =
     (let nodes' = nodes + 1 in
      if nodes' > maxNodes then Inl SerializationFailed
      else if depth > maxDepth then Inl SerializationFailed
      else (case value of
          JNull \<Rightarrow> Inr (JsonNull, nodes')
        | JBool b \<Rightarrow> Inr (JsonBool b, nodes')
        | JNum n \<Rightarrow> if \<not> isFiniteNum n then Inl SerializationFailed else Inr (JsonNum (dropNegZero n), nodes')
        | JStr s \<Rightarrow> if length s > maxStringLength then Inl SerializationFailed else Inr (JsonStr s, nodes')
        | JArr _ _ _ \<Rightarrow>
            bindE (toSerializationInput (ensureArray value maxNodes)) (\<lambda>source.
            bindE (threadE (\<lambda>item n. canonicalClone item (depth + 1) n) source nodes') (\<lambda>(result, n).
            Inr (JsonArr result, n)))
        | JObj _ _ \<Rightarrow>
            bindE (toSerializationInput (ensureRecord value)) (\<lambda>source.
            bindE (threadE (\<lambda>(key, item) n.
                bindE (canonicalClone item (depth + 1) n) (\<lambda>(j, n'). Inr ((key, j), n')))
              (sortKeys source) nodes') (\<lambda>(result, n).
            Inr (JsonObj result, n)))
        | JTrap _ \<Rightarrow> Inl Foreign
        | _ \<Rightarrow> Inl SerializationFailed))"
  by pat_completeness auto
termination
  by (relation "measure (\<lambda>(value, depth, nodes). Suc maxDepth - depth)") auto

declare canonicalClone.simps [simp del]

definition canonicalizeJson :: "jsval \<Rightarrow> domain_error + json" where
  "canonicalizeJson value = bindE (canonicalClone value 0 0) (\<lambda>(j, _). Inr j)"

definition toCanonicalJson :: "(json \<Rightarrow> string) \<Rightarrow> jsval \<Rightarrow> domain_error + string" where
  "toCanonicalJson stringify value = bindE (canonicalizeJson value) (\<lambda>j. Inr (stringify j))"

text \<open>\<open>parse\<close> is \<open>JSON.parse\<close>: \<open>None\<close> when it throws.\<close>

fun parseJsonText :: "(string \<Rightarrow> jsval option) \<Rightarrow> jsval \<Rightarrow> domain_error + json" where
  "parseJsonText parse (JStr text) =
     (if length text > maxTextLength then Inl SerializationFailed
      else (case parse text of None \<Rightarrow> Inl SerializationFailed | Some parsed \<Rightarrow> canonicalizeJson parsed))"
| "parseJsonText parse _ = Inl SerializationFailed"

definition jsonEquals :: "(json \<Rightarrow> string) \<Rightarrow> jsval \<Rightarrow> jsval \<Rightarrow> domain_error + bool" where
  "jsonEquals stringify a b =
     bindE (toCanonicalJson stringify a) (\<lambda>s.
     bindE (toCanonicalJson stringify b) (\<lambda>t. Inr (s = t)))"

section \<open>Canonical values are fixed points\<close>

lemma toSerializationInput_Inr [simp]: "toSerializationInput m = Inr x \<longleftrightarrow> m = Inr x"
  by (cases m rule: toSerializationInput.cases) auto

lemma toSerializationInput_ok [simp]: "toSerializationInput (Inr x) = Inr x"
  by simp

lemma safeKeys_keys: "safeKeys fs \<longleftrightarrow> fst ` set fs \<inter> set DANGEROUS_OBJECT_KEYS = {}"
  by (auto simp: safeKeys_def list_all_iff split_def)

lemma ensureRecord_safe: "ensureRecord v = Inr r \<Longrightarrow> safeKeys r"
proof -
  have "list_all2 (\<lambda>x y. fst y \<notin> set DANGEROUS_OBJECT_KEYS) fs r"
    if "mapE (\<lambda>(k, dataProp, v). if keyName k \<in> set DANGEROUS_OBJECT_KEYS then fail ''forbidden_key''
        else if dataProp then Inr (keyName k, v) else fail ''accessor_field'') fs = Inr r" for fs :: "(jskey \<times> bool \<times> jsval) list"
    using that unfolding mapE_Inr_iff by (rule list_all2_mono) (auto split: if_splits)
  then have "safeKeys r"
    if "mapE (\<lambda>(k, dataProp, v). if keyName k \<in> set DANGEROUS_OBJECT_KEYS then fail ''forbidden_key''
        else if dataProp then Inr (keyName k, v) else fail ''accessor_field'') fs = Inr r" for fs :: "(jskey \<times> bool \<times> jsval) list"
    using that by (auto simp: safeKeys_def list_all_length list_all2_conv_all_nth split_def)
  then show "ensureRecord v = Inr r \<Longrightarrow> safeKeys r"
    by (cases v; cases "v = JTrap False") (auto simp: ensureRecord.simps split: if_splits)
qed

lemma canonicalClone_JArr:
  assumes "n + 1 \<le> maxNodes" and "d \<le> maxDepth"
  shows "canonicalClone (JArr p xs ex) d n =
    bindE (toSerializationInput (ensureArray (JArr p xs ex) maxNodes)) (\<lambda>source.
    bindE (threadE (\<lambda>item n. canonicalClone item (d + 1) n) source (n + 1)) (\<lambda>(result, n).
    Inr (JsonArr result, n)))"
  using assms by (simp add: canonicalClone.simps [of "JArr p xs ex" d n] Let_def)

lemma canonicalClone_JObj:
  assumes "n + 1 \<le> maxNodes" and "d \<le> maxDepth"
  shows "canonicalClone (JObj p fs) d n =
    bindE (toSerializationInput (ensureRecord (JObj p fs))) (\<lambda>source.
    bindE (threadE (\<lambda>(key, item) n. bindE (canonicalClone item (d + 1) n) (\<lambda>(j, n'). Inr ((key, j), n')))
      (sortKeys source) (n + 1)) (\<lambda>(result, n).
    Inr (JsonObj result, n)))"
  using assms by (simp add: canonicalClone.simps [of "JObj p fs" d n] Let_def)

lemma canonicalClone_plainArr:
  assumes "n + 1 \<le> maxNodes" and "d \<le> maxDepth" and "length vs \<le> maxNodes"
  shows "canonicalClone (plainArr vs) d n =
    bindE (threadE (\<lambda>item n. canonicalClone item (d + 1) n) vs (n + 1)) (\<lambda>(result, n). Inr (JsonArr result, n))"
proof -
  have "ensureArray (plainArr vs) maxNodes = Inr vs" using assms(3) by (rule ensureArray_plainArr)
  then show ?thesis unfolding plainArr_def canonicalClone_JArr [OF assms(1,2)] by simp
qed

lemma canonicalClone_plainObj:
  assumes "n + 1 \<le> maxNodes" and "d \<le> maxDepth" and "safeKeys fs"
  shows "canonicalClone (plainObj fs) d n =
    bindE (threadE (\<lambda>(key, item) n. bindE (canonicalClone item (d + 1) n) (\<lambda>(j, n'). Inr ((key, j), n')))
      (sortKeys fs) (n + 1)) (\<lambda>(result, n). Inr (JsonObj result, n))"
proof -
  have "ensureRecord (plainObj fs) = Inr fs" using assms(3) by (rule ensureRecord_plainObj)
  then show ?thesis unfolding plainObj_def canonicalClone_JObj [OF assms(1,2)] by simp
qed

lemma canonicalClone_leaf:
  assumes "n + 1 \<le> maxNodes" and "d \<le> maxDepth"
  shows "canonicalClone JNull d n = Inr (JsonNull, n + 1)"
    and "canonicalClone (JBool b) d n = Inr (JsonBool b, n + 1)"
    and "canonicalClone (JNum x) d n = (if isFiniteNum x then Inr (JsonNum (dropNegZero x), n + 1) else Inl SerializationFailed)"
    and "canonicalClone (JStr s) d n = (if length s \<le> maxStringLength then Inr (JsonStr s, n + 1) else Inl SerializationFailed)"
    and "canonicalClone JUndef d n = Inl SerializationFailed"
    and "canonicalClone (JSym i) d n = Inl SerializationFailed"
    and "canonicalClone (JFun i) d n = Inl SerializationFailed"
    and "canonicalClone (JTrap b) d n = Inl Foreign"
  unfolding canonicalClone.simps [of _ d n] using assms by (simp_all add: Let_def)

lemma canonicalClone_keys:
  assumes "threadE (\<lambda>(key, item) n. bindE (f item n) (\<lambda>(j, n'). Inr ((key, j), n'))) src n = Inr (result, m)"
  shows "map fst result = map fst src"
proof -
  have "list_all2 (\<lambda>x y. fst y = fst x) src result"
    using threadE_list_all2 [OF assms] by (rule list_all2_mono) (auto simp: bindE_Inr_iff)
  then show ?thesis by (induction rule: list_all2_induct) auto
qed

lemma sortedKeys_same_keys: "map fst xs = map fst ys \<Longrightarrow> sortedKeys xs \<Longrightarrow> sortedKeys ys"
  by (simp add: sorted_wrt_iff_nth_less) (metis length_map nth_map order.strict_trans)

theorem canonicalClone_again:
  "canonicalClone v d n = Inr (j, m) \<Longrightarrow> canonicalClone (jsonVal j) d n = Inr (j, m)"
proof (induction v d n arbitrary: j m rule: canonicalClone.induct)
  case (1 v d n)
  have ok: "n + 1 \<le> maxNodes" "d \<le> maxDepth"
    using "1.prems" by (auto simp: canonicalClone.simps [of v d n] Let_def split: if_splits)
  show ?case
  proof (cases v)
    case (JArr p xs ex)
    obtain src js where src: "ensureArray v maxNodes = Inr src"
      and js: "threadE (\<lambda>item k. canonicalClone item (d + 1) k) src (n + 1) = Inr (js, m)" and j: "j = JsonArr js"
      using "1.prems" unfolding JArr canonicalClone_JArr [OF ok] by (auto simp: bindE_Inr_iff)
    have "threadE (\<lambda>item k. canonicalClone item (d + 1) k) (map jsonVal js) (n + 1) = Inr (js, m)"
      using js by (rule threadE_again) (use "1.IH"(2) ok JArr src in auto)
    moreover have "length js \<le> maxNodes" using ensureArray_length [OF src] threadE_length [OF js] by simp
    ultimately show ?thesis
      by (simp add: j canonicalClone_plainArr [OF ok])
  next
    case (JObj p fs)
    obtain src gs where src: "ensureRecord v = Inr src"
      and gs: "threadE (\<lambda>(key, item) n. bindE (canonicalClone item (d + 1) n) (\<lambda>(j, n'). Inr ((key, j), n')))
        (sortKeys src) (n + 1) = Inr (gs, m)" and j: "j = JsonObj gs"
      using "1.prems" unfolding JObj canonicalClone_JObj [OF ok] by (auto simp: bindE_Inr_iff)
    let ?h = "\<lambda>(k, j). (k, jsonVal j)"
    have again: "threadE (\<lambda>(key, item) n. bindE (canonicalClone item (d + 1) n) (\<lambda>(j, n'). Inr ((key, j), n')))
        (map ?h gs) (n + 1) = Inr (gs, m)"
      using gs by (rule threadE_again) (use "1.IH"(1) ok JObj src in \<open>auto simp: bindE_Inr_iff\<close>)
    have keys: "map fst gs = map fst (sortKeys src)" using gs by (rule canonicalClone_keys)
    then have sorted: "sortKeys (map ?h gs) = map ?h gs"
      by (intro sortKeys_sorted sortedKeys_same_keys [OF _ sortedKeys_sortKeys [of src]]) (simp add: comp_def split_def)
    have "fst ` set gs = fst ` set src" using arg_cong [OF keys, of set] by simp
    then have "safeKeys (map ?h gs)" using ensureRecord_safe [OF src]
      by (simp add: safeKeys_keys image_image split_def)
    then show ?thesis
      using again by (simp add: j sorted canonicalClone_plainObj [OF ok])
  qed (use "1.prems" in \<open>auto simp: canonicalClone_leaf [OF ok] split: if_splits\<close>)
qed

theorem canonicalizeJson_again: "canonicalizeJson v = Inr j \<Longrightarrow> canonicalizeJson (jsonVal j) = Inr j"
  using canonicalClone_again by (fastforce simp: canonicalizeJson_def bindE_Inr_iff)

end
