(* ===== verification/Domain_Claims.thy ===== *)
theory Domain_Claims
  imports Domain_Task Domain_Models Domain_Json "HOL-Library.Code_Target_Numeral"
begin

text \<open>
  The properties of disclosure policies, retry delays, model requirements and costs, canonical JSON
  and the array guard, each with a witness.
\<close>

section \<open>Disclosure\<close>

lemma evaluateDisclosure_parts:
  assumes "evaluateDisclosure p t c = Inr d"
  obtains pol tgt at' where "parseDataHandlingPolicy p = Inr pol" "policyOk pol" "parseDisclosureTarget t = Inr tgt"
    "d = decide pol tgt at'"
  using assms parsePolicy_Inr by (auto simp: evaluateDisclosure_def bindE_Inr_iff)

definition sampleTarget :: "string \<Rightarrow> jsval" where
  "sampleTarget locality = plainObj [(''locality'', JStr locality), (''retainsData'', JBool False), (''capabilities'', plainArr [])]"

definition sampleContext :: jsval where
  "sampleContext = plainObj [(''evaluatedAt'', JStr ''2026-01-01T00:00:01.000Z'')]"

definition personalPolicy :: data_policy where
  "personalPolicy = policyOf Personal True False [PersonalData] False True True [ModelTraining]"

definition personalDecision :: policy_decision where
  "personalDecision = decide personalPolicy \<lparr>dt_locality = CloudTarget, dt_retainsData = False, dt_capabilities = []\<rparr> ''2026-01-01T00:00:01.000Z''"

text \<open>C17: Whatever the policy and the target, an allowed disclosure to a cloud target is never of secret
  content, demands the removal of personal data from personal content, and demands every redaction
  of the policy.\<close>
theorem cloud_disclosure_is_guarded:
  assumes "evaluateDisclosure policy target context = Inr d" and "pd_allowed d"
    and "parseDataHandlingPolicy policy = Inr p" and "parseDisclosureTarget target = Inr t" and "dt_locality t = CloudTarget"
  shows "pd_classification d \<noteq> Secret \<and> (pd_classification d = Personal \<longrightarrow> PersonalData \<in> set (pd_requiredTransformations d)) \<and>
    pd_requiredTransformations d = dp_redactionsRequired p"
proof -
  obtain at' where d: "d = decide p t at'" and ok: "policyOk p"
    using assms(1,3,4) by (elim evaluateDisclosure_parts) auto
  have "dp_cloudProvidersAllowed p" using assms(2,5) by (simp add: d decide_allowed)
  then show ?thesis
    using ok assms(5) by (auto simp: d decide_def Let_def policyOk_def checkFloors_def split: if_splits)
qed

theorem cloud_disclosure_is_guarded_witness:
  "PersonalData \<in> set (pd_requiredTransformations personalDecision) \<and> pd_requiredTransformations personalDecision = [PersonalData]"
proof -
  have e: "evaluateDisclosure (policyVal personalPolicy) (sampleTarget ''cloud'') sampleContext = Inr personalDecision"
    and a: "pd_allowed personalDecision" and p: "parseDataHandlingPolicy (policyVal personalPolicy) = Inr personalPolicy"
    and t: "parseDisclosureTarget (sampleTarget ''cloud'') = Inr \<lparr>dt_locality = CloudTarget, dt_retainsData = False, dt_capabilities = []\<rparr>"
    and c: "pd_classification personalDecision = Personal" "dp_redactionsRequired personalPolicy = [PersonalData]"
    by code_simp+
  show ?thesis using cloud_disclosure_is_guarded [OF e a p t] c by simp
qed

text \<open>The decision is exact: a disclosure is allowed exactly when a cloud target is permitted and local
  execution is not demanded, retention is not disallowed for a target that retains, and no capability
  of the target is disallowed; a denied one names at least one reason.\<close>
theorem disclosure_is_exact:
  assumes "evaluateDisclosure policy target context = Inr d" and "parseDataHandlingPolicy policy = Inr p"
    and "parseDisclosureTarget target = Inr t"
  shows "(pd_allowed d \<longleftrightarrow>
     (dt_locality t = CloudTarget \<longrightarrow> dp_cloudProvidersAllowed p \<and> \<not> dp_localExecutionRequired p) \<and>
     (dt_retainsData t \<longrightarrow> DataRetention \<notin> set (dp_disallowedCapabilities p)) \<and>
     set (dt_capabilities t) \<inter> set (dp_disallowedCapabilities p) = {}) \<and> (pd_allowed d \<longleftrightarrow> pd_reasons d = [])"
proof -
  obtain at' where d: "d = decide p t at'" using assms by (elim evaluateDisclosure_parts) auto
  have "pd_allowed d \<longleftrightarrow> pd_reasons d = []" by (simp add: d decide_def Let_def)
  then show ?thesis using decide_allowed [of p t at'] by (simp add: d)
qed

theorem disclosure_is_exact_witness: "pd_allowed personalDecision \<and> pd_reasons personalDecision = []"
proof -
  let ?t = "\<lparr>dt_locality = CloudTarget, dt_retainsData = False, dt_capabilities = []\<rparr>"
  have "evaluateDisclosure (policyVal personalPolicy) (sampleTarget ''cloud'') sampleContext = Inr personalDecision"
    "parseDataHandlingPolicy (policyVal personalPolicy) = Inr personalPolicy" "parseDisclosureTarget (sampleTarget ''cloud'') = Inr ?t"
    by code_simp+
  from disclosure_is_exact [OF this] show ?thesis by (auto simp: personalPolicy_def policyOf_def)
qed

lemma defaults_ok: "policyOk (defaultPolicyInput c)"
  by (induction c) code_simp+

lemma defaultPolicy_eq: "defaultDataHandlingPolicy (JStr (classificationText c)) = Inr (defaultPolicyInput c)"
  by (simp add: defaultDataHandlingPolicy_def createDataHandlingPolicy_def parseDataClassification_def defaults_ok)

text \<open>The default policies are valid and grow stricter with the classification: what the default of a
  more sensitive class allows for a target, the default of every less sensitive class allows too,
  and a redaction, an approval or a ban of the less sensitive default is also one of the other.\<close>
theorem default_policies_are_monotone:
  assumes "c \<le> c'"
  shows "\<exists>p p'. defaultDataHandlingPolicy (JStr (classificationText c)) = Inr p \<and>
    defaultDataHandlingPolicy (JStr (classificationText c')) = Inr p' \<and>
    (pd_allowed (decide p' t at') \<longrightarrow> pd_allowed (decide p t at')) \<and>
    set (dp_redactionsRequired p) \<subseteq> set (dp_redactionsRequired p') \<and>
    set (dp_disallowedCapabilities p) \<subseteq> set (dp_disallowedCapabilities p') \<and>
    (dp_humanApprovalRequired p \<longrightarrow> dp_humanApprovalRequired p')"
  using assms unfolding defaultPolicy_eq decide_allowed
  by (cases c; cases c') (auto simp: policyOf_def less_eq_data_classification_def)

theorem default_policies_are_monotone_witness:
  "\<exists>p p'. defaultDataHandlingPolicy (JStr (classificationText Internal)) = Inr p \<and>
    defaultDataHandlingPolicy (JStr (classificationText Secret)) = Inr p' \<and>
    set (dp_redactionsRequired p) \<subseteq> set (dp_redactionsRequired p') \<and>
    set (dp_disallowedCapabilities p) \<subseteq> set (dp_disallowedCapabilities p')"
proof -
  have "Internal \<le> Secret" by code_simp
  from default_policies_are_monotone [OF this] show ?thesis by blast
qed

section \<open>Retries\<close>

definition sampleRetry :: retry_policy where
  "sampleRetry = \<lparr>rp_maxAttempts = 5, rp_backoff = Exponential, rp_initialDelayMs = 100, rp_maxDelayMs = 1000, rp_backoffMultiplierPercent = 250\<rparr>"

text \<open>The exponential delay before attempt \<open>n\<close> is the initial delay multiplied \<open>n - 2\<close> times, each time
  rounded down and capped; it never exceeds the cap and never shrinks from one attempt to the next.\<close>
theorem retry_delays_are_capped_and_monotone:
  assumes "parseRetryPolicy value = Inr p" and "rp_backoff p = Exponential" and "2 \<le> n" and "n < 100"
  shows "computeRetryDelayMs p (jsInt n) = Inr (cappedDelay (nat (n - 2)) p) \<and>
    0 \<le> cappedDelay (nat (n - 2)) p \<and> cappedDelay (nat (n - 2)) p \<le> rp_maxDelayMs p \<and>
    (\<exists>d. computeRetryDelayMs p (jsInt (n + 1)) = Inr d \<and> cappedDelay (nat (n - 2)) p \<le> d)"
proof -
  note ok = parseRetryPolicy_Inr [OF assms(1)]
  have eq: "computeRetryDelayMs p (jsInt k) = Inr (cappedDelay (nat (k - 2)) p)" if "2 \<le> k" "k \<le> 100" for k
    using that assms(2) growDelay_capped [OF ok, of "nat (k - 2)" 0]
    by (simp add: computeRetryDelayMs_def ensureSafeInteger_jsInt)
  then show ?thesis
    using assms(3,4) cappedDelay_range [OF ok] cappedDelay_mono [OF ok] by (simp add: nat_mono)
qed

theorem retry_delays_are_capped_and_monotone_witness:
  "computeRetryDelayMs sampleRetry (jsInt 4) = Inr (cappedDelay (nat (4 - 2)) sampleRetry) \<and>
    0 \<le> cappedDelay (nat (4 - 2)) sampleRetry \<and> cappedDelay (nat (4 - 2)) sampleRetry \<le> rp_maxDelayMs sampleRetry \<and>
    (\<exists>d. computeRetryDelayMs sampleRetry (jsInt (4 + 1)) = Inr d \<and> cappedDelay (nat (4 - 2)) sampleRetry \<le> d)"
proof (rule retry_delays_are_capped_and_monotone)
  show "parseRetryPolicy (plainObj [(''maxAttempts'', jsInt 5), (''backoff'', JStr ''exponential''), (''initialDelayMs'', jsInt 100),
      (''maxDelayMs'', jsInt 1000), (''backoffMultiplierPercent'', jsInt 250)]) = Inr sampleRetry"
    by code_simp
qed (simp_all add: sampleRetry_def)

section \<open>Models\<close>

definition sampleModel :: jsval where
  "sampleModel = plainObj
     [(''schemaVersion'', jsInt 1), (''providerId'', JStr ''p''), (''modelId'', JStr ''m''), (''contextWindowTokens'', jsInt 8000),
      (''maxOutputTokens'', jsInt 1000), (''supportsToolUse'', JBool True), (''supportsStructuredOutput'', JBool False),
      (''supportsVision'', JBool False), (''locality'', JStr ''cloud''), (''latencyClass'', JStr ''fast''),
      (''codingCapability'', jsInt 4), (''reasoningCapability'', jsInt 3),
      (''cost'', plainObj [(''currency'', JStr ''USD''), (''inputMicrosPerMillionTokens'', jsInt 3000000),
        (''outputMicrosPerMillionTokens'', jsInt 15000000), (''cachedInputMicrosPerMillionTokens'', JNull)])]"

definition sampleModelTokens :: token_usage where
  "sampleModelTokens = \<lparr>tu_inputTokens = 7, tu_outputTokens = 3, tu_cachedInputTokens = 1, tu_reasoningTokens = 0\<rparr>"

text \<open>C18: An estimate is in the currency of the model, never below the exact cost of the tokens, and above
  it by less than one micro-unit for each of the three rates.\<close>
theorem cost_estimates_cover_the_exact_cost:
  assumes "parseModelCapabilities model = Inr m" and "md_cost m = Some cost" and "parseTokenUsage usage = Inr tokens"
    and "estimateModelCost model usage = Inr estimate"
  shows "m_currency estimate = mc_currency cost \<and> exactCost cost tokens \<le> MICROS_DIVISOR * m_amountMicros estimate \<and>
    MICROS_DIVISOR * m_amountMicros estimate < exactCost cost tokens + 3 * MICROS_DIVISOR"
  using assms(4) costInMicros_bounds [of cost tokens] by (auto simp: estimateModelCost_Inr [OF assms(1-3)] split: if_splits)

theorem cost_estimates_cover_the_exact_cost_witness:
  "m_currency \<lparr>m_currency = ''USD'', m_amountMicros = 69\<rparr> = ''USD'' \<and>
   exactCost \<lparr>mc_currency = ''USD'', mc_inputRate = 3000000, mc_outputRate = 15000000, mc_cachedRate = None\<rparr> sampleModelTokens
     \<le> MICROS_DIVISOR * 69 \<and>
   MICROS_DIVISOR * 69 <
     exactCost \<lparr>mc_currency = ''USD'', mc_inputRate = 3000000, mc_outputRate = 15000000, mc_cachedRate = None\<rparr> sampleModelTokens +
     3 * MICROS_DIVISOR"
proof -
  let ?m = "case parseModelCapabilities sampleModel of Inr m \<Rightarrow> m"
  have "isOk (parseModelCapabilities sampleModel)" by code_simp
  then have m: "parseModelCapabilities sampleModel = Inr ?m" by (auto simp: isOk_iff)
  have c: "md_cost ?m = Some \<lparr>mc_currency = ''USD'', mc_inputRate = 3000000, mc_outputRate = 15000000, mc_cachedRate = None\<rparr>"
    and t: "parseTokenUsage (tokenUsageVal sampleModelTokens) = Inr sampleModelTokens"
    and e: "estimateModelCost sampleModel (tokenUsageVal sampleModelTokens) = Inr \<lparr>m_currency = ''USD'', m_amountMicros = 69\<rparr>"
    by code_simp+
  from cost_estimates_cover_the_exact_cost [OF m c t e] show ?thesis by simp
qed

definition meets :: "model_capabilities \<Rightarrow> model_requirements \<Rightarrow> bool" where
  "meets m r \<longleftrightarrow>
     pred_option (\<lambda>n. n \<le> md_contextWindowTokens m) (mr_minContextWindowTokens r) \<and>
     pred_option (\<lambda>n. n \<le> md_maxOutputTokens m) (mr_minOutputTokens r) \<and>
     (mr_requireToolUse r \<longrightarrow> md_supportsToolUse m) \<and> (mr_requireStructuredOutput r \<longrightarrow> md_supportsStructuredOutput m) \<and>
     (mr_requireVision r \<longrightarrow> md_supportsVision m) \<and> (mr_requireLocalExecution r \<longrightarrow> md_locality m = LocalModel) \<and>
     pred_option (\<lambda>n. n \<le> md_codingCapability m) (mr_minCodingCapability r) \<and>
     pred_option (\<lambda>n. n \<le> md_reasoningCapability m) (mr_minReasoningCapability r)"

lemma unmet_iff: "unmetRequirements m r = [] \<longleftrightarrow> meets m r"
  by (simp add: unmetRequirements_def meets_def below_def not_less split: option.splits)

definition sampleNeeds :: jsval where
  "sampleNeeds = plainObj
     [(''minContextWindowTokens'', jsInt 4000), (''minOutputTokens'', JNull), (''requireToolUse'', JBool True),
      (''requireStructuredOutput'', JBool False), (''requireVision'', JBool False), (''requireLocalExecution'', JBool True),
      (''minCodingCapability'', jsInt 4), (''minReasoningCapability'', JNull)]"

text \<open>A model is accepted for a route exactly when it meets every requirement: the minimal sizes and
  ratings, each demanded feature, and local execution.\<close>
theorem models_are_matched_exactly:
  assumes "parseModelCapabilities model = Inr m" and "parseModelRequirements requirements = Inr r"
  shows "isOk (assertModelSupports model requirements) \<longleftrightarrow> meets m r"
  unfolding unmet_iff [symmetric] using assms by (simp add: assertModelSupports_def findUnmetRequirements_def isOk_iff)

theorem models_are_matched_exactly_witness:
  "isOk (assertModelSupports sampleModel sampleNeeds) \<longleftrightarrow>
     meets (case parseModelCapabilities sampleModel of Inr m \<Rightarrow> m) (case parseModelRequirements sampleNeeds of Inr r \<Rightarrow> r)"
proof -
  have "isOk (parseModelCapabilities sampleModel)" "isOk (parseModelRequirements sampleNeeds)" by code_simp+
  then obtain m r where p: "parseModelCapabilities sampleModel = Inr m" "parseModelRequirements sampleNeeds = Inr r" by (auto simp: isOk_iff)
  show ?thesis unfolding p sum.case by (rule models_are_matched_exactly [OF p])
qed

section \<open>Canonical JSON and arrays\<close>

text \<open>A canonical value is a fixed point: canonicalizing what canonicalization returned gives the same
  value, with its keys in the same order and within the same limits.\<close>
theorem canonical_json_is_stable:
  assumes "canonicalizeJson v = Inr j"
  shows "canonicalizeJson (jsonVal j) = Inr j"
  using assms by (rule canonicalizeJson_again)

theorem canonical_json_is_stable_witness:
  "canonicalizeJson (jsonVal (JsonObj [(''a'', JsonArr [JsonNull, JsonBool True]), (''b'', JsonNum (NInt 0))])) =
     Inr (JsonObj [(''a'', JsonArr [JsonNull, JsonBool True]), (''b'', JsonNum (NInt 0))])"
proof (rule canonical_json_is_stable)
  show "canonicalizeJson (plainObj [(''b'', JNum NNegZero), (''a'', plainArr [JNull, JBool True])]) =
     Inr (JsonObj [(''a'', JsonArr [JsonNull, JsonBool True]), (''b'', JsonNum (NInt 0))])"
    by code_simp
qed

text \<open>The array guard only counts fields: a plain array within the limit passes exactly when it has as
  many custom fields, all with text keys, as holes, and a hole is read as \<open>undefined\<close>.\<close>
theorem array_guard_only_counts:
  "(isOk (ensureArray (JArr True items extra) (length items + k)) \<longleftrightarrow>
      length (filter (\<lambda>i. i = None) items) = length extra \<and> \<not> list_ex isSymKey extra) \<and>
   ensureArray (JArr True [None] [KStr ''x'']) 1 = Inr [JUndef]"
  using sum_length_filter_compl [of "\<lambda>i. i = None" items] by (auto simp: ensureArray.simps isOk_iff spreadItem_def)

end
