(* ===== verification/Artifacts.thy ===== *)
theory Artifacts
  imports Domain_Policy
begin

text \<open>
  \<open>packages/artifacts/src\<close>: digests, safe relative paths and locations (\<open>location.ts\<close>), the immutable
  descriptor of an artifact (\<open>artifact.ts\<close>) and the manifest of a task run (\<open>manifest.ts\<close>). Raw
  contents never appear here.
\<close>

section \<open>Digests\<close>

datatype digest_algorithm = Sha256 | Sha512

fun digestAlgorithmText :: "digest_algorithm \<Rightarrow> string" where
  "digestAlgorithmText Sha256 = ''sha-256''"
| "digestAlgorithmText Sha512 = ''sha-512''"

definition DIGEST_ALGORITHMS :: "digest_algorithm list" where "DIGEST_ALGORITHMS = [Sha256, Sha512]"

fun digestHexLength :: "digest_algorithm \<Rightarrow> nat" where
  "digestHexLength Sha256 = 64"
| "digestHexLength Sha512 = 128"

definition isHexDigit :: "char \<Rightarrow> bool" where
  "isHexDigit c \<longleftrightarrow> isDigit c \<or> (97 \<le> codeUnit c \<and> codeUnit c \<le> 102)"

definition LOWER_HEX_PATTERN :: "string \<Rightarrow> bool" where
  "LOWER_HEX_PATTERN s \<longleftrightarrow> s \<noteq> [] \<and> list_all isHexDigit s"

record artifact_digest =
  dg_algorithm :: digest_algorithm
  dg_hex :: string

definition parseArtifactDigest :: "jsval \<Rightarrow> domain_error + artifact_digest" where
  "parseArtifactDigest value =
     bindE (ensureRecord value) (\<lambda>r.
     bindE (ensureExactKeys r [''algorithm'', ''hex'']) (\<lambda>_.
     bindE (ensureEnum (fld r ''algorithm'') digestAlgorithmText DIGEST_ALGORITHMS) (\<lambda>algorithm.
     bindE (ensureString (fld r ''hex'') (digestHexLength algorithm) (digestHexLength algorithm) LOWER_HEX_PATTERN) (\<lambda>hex.
     Inr \<lparr>dg_algorithm = algorithm, dg_hex = hex\<rparr>))))"

definition createArtifactDigest :: "jsval \<Rightarrow> jsval \<Rightarrow> domain_error + artifact_digest" where
  "createArtifactDigest algorithm hex = parseArtifactDigest (plainObj [(''algorithm'', algorithm), (''hex'', hex)])"

definition digestEquals :: "artifact_digest \<Rightarrow> artifact_digest \<Rightarrow> bool" where
  "digestEquals a b \<longleftrightarrow> dg_algorithm a = dg_algorithm b \<and> dg_hex a = dg_hex b"

section \<open>Safe relative paths\<close>

definition MAX_RELATIVE_PATH_LENGTH :: nat where "MAX_RELATIVE_PATH_LENGTH = 1024"
definition MAX_PATH_SEGMENT_LENGTH :: nat where "MAX_PATH_SEGMENT_LENGTH = 255"

definition WINDOWS_RESERVED_NAMES :: "string list" where
  "WINDOWS_RESERVED_NAMES =
     [''CON'', ''PRN'', ''AUX'', ''NUL''] @ map (\<lambda>d. ''COM'' @ [d]) ''123456789'' @ map (\<lambda>d. ''LPT'' @ [d]) ''123456789''"

definition isControl :: "char \<Rightarrow> bool" where
  "isControl c \<longleftrightarrow> codeUnit c \<le> 31 \<or> codeUnit c = 127"

definition forbiddenSegmentChar :: "char \<Rightarrow> bool" where
  "forbiddenSegmentChar c \<longleftrightarrow> isControl c \<or> c \<in> set ''<>:|?*'' \<or> codeUnit c = 34"

text \<open>\<open>split\<close> by one character.\<close>

fun splitOn :: "char \<Rightarrow> string \<Rightarrow> string list" where
  "splitOn d [] = [[]]"
| "splitOn d (c # cs) =
     (if c = d then [] # splitOn d cs
      else (case splitOn d cs of [] \<Rightarrow> [[c]] | s # ss \<Rightarrow> (c # s) # ss))"

text \<open>\<open>toUpperCase\<close> on letters; no other code unit becomes part of a reserved name.\<close>

definition upperChar :: "char \<Rightarrow> char" where
  "upperChar c = (if isLower c then char_of (codeUnit c - 32) else c)"

definition checkSegment :: "string \<Rightarrow> domain_error + unit" where
  "checkSegment segment =
     (if segment = [] then fail ''empty_segment''
      else if length segment > MAX_PATH_SEGMENT_LENGTH then fail ''segment_too_long''
      else if segment = ''.'' \<or> segment = ''..'' then fail ''traversal''
      else if segment = ''~'' then fail ''home_reference''
      else if list_ex forbiddenSegmentChar segment then fail ''forbidden_character''
      else if last segment = CHR ''.'' \<or> last segment = CHR '' '' \<or> hd segment = CHR '' '' then fail ''unsafe_edges''
      else if map upperChar (takeWhile (\<lambda>c. c \<noteq> CHR ''.'') segment) \<in> set WINDOWS_RESERVED_NAMES
      then fail ''reserved_device_name''
      else Inr ())"

definition startsWithDrive :: "string \<Rightarrow> bool" where
  "startsWithDrive s \<longleftrightarrow>
     (case s of c # d # _ \<Rightarrow> (isUpper c \<or> isLower c) \<and> d = CHR '':'' | _ \<Rightarrow> False)"

definition backslash :: char where "backslash = char_of (92 :: nat)"

definition parseSafeRelativePath :: "jsval \<Rightarrow> domain_error + string" where
  "parseSafeRelativePath value =
     bindE (ensureString value 1 MAX_RELATIVE_PATH_LENGTH (\<lambda>_. True)) (\<lambda>text.
     if backslash \<in> set text then fail ''backslash''
     else if take 1 text = ''/'' then fail ''absolute_path''
     else if startsWithDrive text then fail ''drive_letter''
     else
     bindE (mapE checkSegment (splitOn CHR ''/'' text)) (\<lambda>_. Inr text))"

section \<open>Locations\<close>

datatype store_kind = LocalStore | RemoteStore

fun storeKindText :: "store_kind \<Rightarrow> string" where
  "storeKindText LocalStore = ''local''"
| "storeKindText RemoteStore = ''remote''"

definition ARTIFACT_STORE_KINDS :: "store_kind list" where "ARTIFACT_STORE_KINDS = [LocalStore, RemoteStore]"

datatype artifact_location = ContentAddressed store_kind | WorkspaceFile string string

datatype location_type = ContentAddressedType | WorkspaceFileType

fun locationTypeText :: "location_type \<Rightarrow> string" where
  "locationTypeText ContentAddressedType = ''content-addressed''"
| "locationTypeText WorkspaceFileType = ''workspace-file''"

definition ARTIFACT_LOCATION_TYPES :: "location_type list" where
  "ARTIFACT_LOCATION_TYPES = [ContentAddressedType, WorkspaceFileType]"

definition parseArtifactLocation :: "jsval \<Rightarrow> domain_error + artifact_location" where
  "parseArtifactLocation value =
     bindE (ensureRecord value) (\<lambda>r.
     bindE (ensureEnum (fld r ''type'') locationTypeText ARTIFACT_LOCATION_TYPES) (\<lambda>type.
     if type = ContentAddressedType then
       bindE (ensureExactKeys r [''type'', ''store'']) (\<lambda>_.
       bindE (ensureEnum (fld r ''store'') storeKindText ARTIFACT_STORE_KINDS) (\<lambda>store.
       Inr (ContentAddressed store)))
     else
       bindE (ensureExactKeys r [''type'', ''workspaceId'', ''path'']) (\<lambda>_.
       bindE (parseId (fld r ''workspaceId'')) (\<lambda>workspaceId.
       bindE (parseSafeRelativePath (fld r ''path'')) (\<lambda>path.
       Inr (WorkspaceFile workspaceId path))))))"

section \<open>Provenance\<close>

datatype artifact_producer = ModelProducer string string | AgentProducer string | UserProducer | SystemProducer string

datatype producer_type = ModelType | AgentType | UserType | SystemType

fun producerTypeText :: "producer_type \<Rightarrow> string" where
  "producerTypeText ModelType = ''model''"
| "producerTypeText AgentType = ''agent''"
| "producerTypeText UserType = ''user''"
| "producerTypeText SystemType = ''system''"

definition ARTIFACT_PRODUCER_TYPES :: "producer_type list" where
  "ARTIFACT_PRODUCER_TYPES = [ModelType, AgentType, UserType, SystemType]"

definition parseArtifactProducer :: "jsval \<Rightarrow> domain_error + artifact_producer" where
  "parseArtifactProducer value =
     bindE (ensureRecord value) (\<lambda>r.
     bindE (ensureEnum (fld r ''type'') producerTypeText ARTIFACT_PRODUCER_TYPES) (\<lambda>type.
     case type of
       ModelType \<Rightarrow>
         bindE (ensureExactKeys r [''type'', ''providerId'', ''modelId'']) (\<lambda>_.
         bindE (parseId (fld r ''providerId'')) (\<lambda>providerId.
         bindE (parseId (fld r ''modelId'')) (\<lambda>modelId.
         Inr (ModelProducer providerId modelId))))
     | AgentType \<Rightarrow>
         bindE (ensureExactKeys r [''type'', ''agentId'']) (\<lambda>_.
         bindE (parseId (fld r ''agentId'')) (\<lambda>agentId. Inr (AgentProducer agentId)))
     | UserType \<Rightarrow> bindE (ensureExactKeys r [''type'']) (\<lambda>_. Inr UserProducer)
     | SystemType \<Rightarrow>
         bindE (ensureExactKeys r [''type'', ''component'']) (\<lambda>_.
         bindE (parseId (fld r ''component'')) (\<lambda>component. Inr (SystemProducer component)))))"

record artifact_provenance =
  pv_producedBy :: artifact_producer
  pv_runId :: "string option"
  pv_taskId :: "string option"
  pv_taskRunId :: "string option"
  pv_traceId :: "string option"

definition parseArtifactProvenance :: "jsval \<Rightarrow> domain_error + artifact_provenance" where
  "parseArtifactProvenance value =
     bindE (ensureRecord value) (\<lambda>r.
     bindE (ensureExactKeys r [''producedBy'', ''runId'', ''taskId'', ''taskRunId'', ''traceId'']) (\<lambda>_.
     bindE (parseArtifactProducer (fld r ''producedBy'')) (\<lambda>producedBy.
     bindE (ensureNullable (fld r ''runId'') parseId) (\<lambda>runId.
     bindE (ensureNullable (fld r ''taskId'') parseId) (\<lambda>taskId.
     bindE (ensureNullable (fld r ''taskRunId'') parseId) (\<lambda>taskRunId.
     bindE (ensureNullable (fld r ''traceId'') parseId) (\<lambda>traceId.
     Inr \<lparr>pv_producedBy = producedBy, pv_runId = runId, pv_taskId = taskId, pv_taskRunId = taskRunId,
          pv_traceId = traceId\<rparr>)))))))"

section \<open>Descriptors\<close>

definition ARTIFACT_SCHEMA_VERSION :: int where "ARTIFACT_SCHEMA_VERSION = 1"

datatype artifact_kind = BinaryKind | DocumentKind | LogKind | PatchKind | SourceFile | StructuredData | TestResult

fun artifactKindText :: "artifact_kind \<Rightarrow> string" where
  "artifactKindText BinaryKind = ''binary''"
| "artifactKindText DocumentKind = ''document''"
| "artifactKindText LogKind = ''log''"
| "artifactKindText PatchKind = ''patch''"
| "artifactKindText SourceFile = ''source-file''"
| "artifactKindText StructuredData = ''structured-data''"
| "artifactKindText TestResult = ''test-result''"

definition ARTIFACT_KINDS :: "artifact_kind list" where
  "ARTIFACT_KINDS = [BinaryKind, DocumentKind, LogKind, PatchKind, SourceFile, StructuredData, TestResult]"

datatype artifact_role = InputRole | OutputRole | IntermediateRole | DiagnosticRole

fun artifactRoleText :: "artifact_role \<Rightarrow> string" where
  "artifactRoleText InputRole = ''input''"
| "artifactRoleText OutputRole = ''output''"
| "artifactRoleText IntermediateRole = ''intermediate''"
| "artifactRoleText DiagnosticRole = ''diagnostic''"

definition ARTIFACT_ROLES :: "artifact_role list" where
  "ARTIFACT_ROLES = [InputRole, OutputRole, IntermediateRole, DiagnosticRole]"

definition MAX_ARTIFACT_BYTES :: int where "MAX_ARTIFACT_BYTES = 1000000000000"
definition MAX_PARENT_ARTIFACTS :: nat where "MAX_PARENT_ARTIFACTS = 64"

definition edgeChar :: "char \<Rightarrow> bool" where
  "edgeChar c \<longleftrightarrow> c = CHR '' '' \<or> c = CHR ''.''"

definition SAFE_DISPLAY_NAME_PATTERN :: "string \<Rightarrow> bool" where
  "SAFE_DISPLAY_NAME_PATTERN s \<longleftrightarrow>
     s \<noteq> [] \<and> length s \<le> 120 \<and> \<not> edgeChar (hd s) \<and> \<not> edgeChar (last s) \<and>
     list_all (\<lambda>c. \<not> isControl c \<and> c \<notin> set ''/:*?<>|'' \<and> c \<noteq> backslash \<and> codeUnit c \<noteq> 34) s"

definition mediaTypePart :: "string \<Rightarrow> bool" where
  "mediaTypePart = headTail (\<lambda>c. isLower c \<or> isDigit c)
     (\<lambda>c. isLower c \<or> isDigit c \<or> c \<in> set ''!#$&^_.+-'') 63"

definition MEDIA_TYPE_PATTERN :: "string \<Rightarrow> bool" where
  "MEDIA_TYPE_PATTERN s \<longleftrightarrow>
     (case splitOn CHR ''/'' s of [major, minor] \<Rightarrow> mediaTypePart major \<and> mediaTypePart minor | _ \<Rightarrow> False)"

record artifact_descriptor =
  ad_id :: string
  ad_displayName :: string
  ad_kind :: artifact_kind
  ad_role :: artifact_role
  ad_mediaType :: string
  ad_sizeBytes :: int
  ad_digest :: artifact_digest
  ad_classification :: data_classification
  ad_location :: artifact_location
  ad_provenance :: artifact_provenance
  ad_parents :: "string list"
  ad_createdAt :: string

definition DESCRIPTOR_KEYS :: "string list" where
  "DESCRIPTOR_KEYS = [''schemaVersion'', ''id'', ''displayName'', ''kind'', ''role'', ''mediaType'', ''sizeBytes'', ''digest'',
     ''classification'', ''location'', ''provenance'', ''parents'', ''createdAt'']"

text \<open>The body of the loop over the parents; \<open>seen\<close> are the ids of the parents before.\<close>

definition admitParent :: "string \<Rightarrow> jsval \<Rightarrow> string list \<Rightarrow> domain_error + (string \<times> string list)" where
  "admitParent i parent seen =
     bindE (parseId parent) (\<lambda>parentId.
     if parentId = i then fail ''self_parent''
     else if parentId \<in> set seen then fail ''duplicate_parent''
     else Inr (parentId, parentId # seen))"

definition parseArtifactDescriptor :: "jsval \<Rightarrow> domain_error + artifact_descriptor" where
  "parseArtifactDescriptor value =
     bindE (ensureRecord value) (\<lambda>r.
     bindE (ensureExactKeys r DESCRIPTOR_KEYS) (\<lambda>_.
     bindE (ensureSchemaVersion (fld r ''schemaVersion'') ARTIFACT_SCHEMA_VERSION) (\<lambda>_.
     bindE (parseId (fld r ''id'')) (\<lambda>i.
     bindE (ensureArray (fld r ''parents'') MAX_PARENT_ARTIFACTS) (\<lambda>parentsRaw.
     bindE (threadE (admitParent i) parentsRaw []) (\<lambda>(parents, _).
     bindE (ensureString (fld r ''displayName'') 1 120 SAFE_DISPLAY_NAME_PATTERN) (\<lambda>displayName.
     bindE (ensureEnum (fld r ''kind'') artifactKindText ARTIFACT_KINDS) (\<lambda>kind.
     bindE (ensureEnum (fld r ''role'') artifactRoleText ARTIFACT_ROLES) (\<lambda>role.
     bindE (ensureString (fld r ''mediaType'') 1 128 MEDIA_TYPE_PATTERN) (\<lambda>mediaType.
     bindE (ensureSafeInteger (fld r ''sizeBytes'') 0 MAX_ARTIFACT_BYTES) (\<lambda>sizeBytes.
     bindE (parseArtifactDigest (fld r ''digest'')) (\<lambda>digest.
     bindE (parseDataClassification (fld r ''classification'')) (\<lambda>classification.
     bindE (parseArtifactLocation (fld r ''location'')) (\<lambda>location.
     bindE (parseArtifactProvenance (fld r ''provenance'')) (\<lambda>provenance.
     bindE (ensureTimestamp (fld r ''createdAt'')) (\<lambda>createdAt.
     Inr \<lparr>ad_id = i, ad_displayName = displayName, ad_kind = kind, ad_role = role, ad_mediaType = mediaType,
          ad_sizeBytes = sizeBytes, ad_digest = digest, ad_classification = classification, ad_location = location,
          ad_provenance = provenance, ad_parents = parents, ad_createdAt = createdAt\<rparr>))))))))))))))))"

text \<open>\<open>{ schemaVersion, ...input }\<close>: a field of that name in the input wins.\<close>

definition withSchemaVersion :: "int \<Rightarrow> jsrecord \<Rightarrow> jsval" where
  "withSchemaVersion version input =
     plainObj ((''schemaVersion'', if ''schemaVersion'' \<in> fst ` set input then fld input ''schemaVersion'' else jsInt version) #
       filter (\<lambda>(k, _). k \<noteq> ''schemaVersion'') input)"

definition createArtifactDescriptor :: "jsrecord \<Rightarrow> domain_error + artifact_descriptor" where
  "createArtifactDescriptor input = parseArtifactDescriptor (withSchemaVersion ARTIFACT_SCHEMA_VERSION input)"

definition isInputArtifact :: "artifact_descriptor \<Rightarrow> bool" where "isInputArtifact a \<longleftrightarrow> ad_role a = InputRole"
definition isOutputArtifact :: "artifact_descriptor \<Rightarrow> bool" where "isOutputArtifact a \<longleftrightarrow> ad_role a = OutputRole"
definition isPatchArtifact :: "artifact_descriptor \<Rightarrow> bool" where "isPatchArtifact a \<longleftrightarrow> ad_kind a = PatchKind"
definition isTestResultArtifact :: "artifact_descriptor \<Rightarrow> bool" where "isTestResultArtifact a \<longleftrightarrow> ad_kind a = TestResult"
definition isLogArtifact :: "artifact_descriptor \<Rightarrow> bool" where "isLogArtifact a \<longleftrightarrow> ad_kind a = LogKind"

section \<open>Manifests\<close>

definition ARTIFACT_MANIFEST_SCHEMA_VERSION :: int where "ARTIFACT_MANIFEST_SCHEMA_VERSION = 1"
definition MAX_MANIFEST_ARTIFACTS :: nat where "MAX_MANIFEST_ARTIFACTS = 1000"

record artifact_manifest =
  mf_manifestId :: string
  mf_taskRunId :: "string option"
  mf_artifacts :: "artifact_descriptor option list"
  mf_createdAt :: string

text \<open>The list a manifest is made of: \<open>Array.isArray\<close> and the limit are checked, holes are not; \<open>map\<close> of an
  array with a foreign prototype is unknown.\<close>

fun manifestSlots :: "jsval \<Rightarrow> domain_error + (bool \<times> jsval) option list" where
  "manifestSlots (JArr plain items extra) =
     (if length items > MAX_MANIFEST_ARTIFACTS then fail ''bad_artifacts''
      else if \<not> plain then Inl Foreign
      else Inr items)"
| "manifestSlots (JTrap True) = Inl Foreign"
| "manifestSlots _ = fail ''bad_artifacts''"

definition admitArtifact :: "(bool \<times> jsval) option \<Rightarrow> string list \<Rightarrow> domain_error + (artifact_descriptor option \<times> string list)" where
  "admitArtifact entry seen =
     (case entry of
        None \<Rightarrow> Inr (None, seen)
      | Some (_, value) \<Rightarrow>
          bindE (parseArtifactDescriptor value) (\<lambda>descriptor.
          if ad_id descriptor \<in> set seen then fail ''duplicate_artifact''
          else Inr (Some descriptor, ad_id descriptor # seen)))"

definition parseArtifactManifest :: "jsval \<Rightarrow> domain_error + artifact_manifest" where
  "parseArtifactManifest value =
     bindE (ensureRecord value) (\<lambda>r.
     bindE (ensureExactKeys r [''schemaVersion'', ''manifestId'', ''taskRunId'', ''artifacts'', ''createdAt'']) (\<lambda>_.
     bindE (ensureSchemaVersion (fld r ''schemaVersion'') ARTIFACT_MANIFEST_SCHEMA_VERSION) (\<lambda>_.
     bindE (manifestSlots (fld r ''artifacts'')) (\<lambda>slots.
     bindE (threadE admitArtifact slots []) (\<lambda>(artifacts, _).
     bindE (parseId (fld r ''manifestId'')) (\<lambda>manifestId.
     bindE (ensureNullable (fld r ''taskRunId'') parseId) (\<lambda>taskRunId.
     bindE (ensureTimestamp (fld r ''createdAt'')) (\<lambda>createdAt.
     Inr \<lparr>mf_manifestId = manifestId, mf_taskRunId = taskRunId, mf_artifacts = artifacts, mf_createdAt = createdAt\<rparr>))))))))"

definition createArtifactManifest :: "jsrecord \<Rightarrow> domain_error + artifact_manifest" where
  "createArtifactManifest input = parseArtifactManifest (withSchemaVersion ARTIFACT_MANIFEST_SCHEMA_VERSION input)"

text \<open>\<open>find\<close> visits a hole as \<open>undefined\<close>, whose field access throws; \<open>filter\<close> skips it.\<close>

fun findArtifact :: "string \<Rightarrow> artifact_descriptor option list \<Rightarrow> domain_error + artifact_descriptor option" where
  "findArtifact i [] = Inr None"
| "findArtifact i (None # slots) = Inl Foreign"
| "findArtifact i (Some a # slots) = (if ad_id a = i then Inr (Some a) else findArtifact i slots)"

definition findArtifactById :: "artifact_manifest \<Rightarrow> string \<Rightarrow> domain_error + artifact_descriptor option" where
  "findArtifactById manifest artifactId = findArtifact artifactId (mf_artifacts manifest)"

definition listArtifactsByRole :: "artifact_manifest \<Rightarrow> artifact_role \<Rightarrow> artifact_descriptor list" where
  "listArtifactsByRole manifest role = filter (\<lambda>a. ad_role a = role) (map the (filter (\<lambda>s. s \<noteq> None) (mf_artifacts manifest)))"

end
