(* ===== verification/Persistence.thy ===== *)
theory Persistence
  imports Artifacts Domain_Json
begin

text \<open>
  \<open>packages/persistence/src\<close>: the error codes (\<open>errors.ts\<close>), checksums (\<open>checksum.ts\<close>), pagination
  cursors (\<open>cursor.ts\<close>), the validation of every write (\<open>records.ts\<close>), the transitions of an outbox
  message (\<open>outbox-logic.ts\<close>), the outcome of an operation (\<open>adapter-support.ts\<close>) and the migration
  plan (\<open>migration.ts\<close>). \<open>JSON.stringify\<close>, \<open>JSON.parse\<close>, SHA-256 and base64url belong to the run-time
  and are the fields of a \<open>codec\<close>.
\<close>

section \<open>Errors\<close>

datatype persistence_code =
    CONCURRENCY_CONFLICT | NOT_FOUND | DUPLICATE_ID | DUPLICATE_IDEMPOTENCY_KEY | CORRUPTION_DETECTED | INVALID_CURSOR
  | MIGRATION_FAILED | MIGRATION_CHECKSUM_MISMATCH | SCHEMA_TOO_NEW | TRANSACTION_COMPLETED | NESTED_TRANSACTION
  | ADAPTER_CLOSED | OUTBOX_STATE_CONFLICT | STORAGE_FAILURE

text \<open>\<open>HostError\<close> is any exception that is neither (an invalid date, an exception of a caller's function).\<close>

datatype store_error = PersistenceError persistence_code | DomainError domain_error | HostError

definition liftD :: "domain_error + 'a \<Rightarrow> store_error + 'a" where
  "liftD m = (case m of Inl e \<Rightarrow> Inl (DomainError e) | Inr a \<Rightarrow> Inr a)"

lemma liftD_simps [simp]: "liftD (Inr a) = Inr a" "liftD (Inl e) = Inl (DomainError e)"
  by (simp_all add: liftD_def)

lemma liftD_Inr_iff [simp]: "liftD m = Inr a \<longleftrightarrow> m = Inr a"
  by (cases m) simp_all

datatype operation_outcome = Success | Conflict | NotFound | Duplicate | Corruption | ValidationFailed | OtherError

fun outcomeOfError :: "store_error \<Rightarrow> operation_outcome" where
  "outcomeOfError (DomainError (Validation code)) = ValidationFailed"
| "outcomeOfError (PersistenceError CONCURRENCY_CONFLICT) = Conflict"
| "outcomeOfError (PersistenceError OUTBOX_STATE_CONFLICT) = Conflict"
| "outcomeOfError (PersistenceError NOT_FOUND) = NotFound"
| "outcomeOfError (PersistenceError DUPLICATE_ID) = Duplicate"
| "outcomeOfError (PersistenceError DUPLICATE_IDEMPOTENCY_KEY) = Duplicate"
| "outcomeOfError (PersistenceError CORRUPTION_DETECTED) = Corruption"
| "outcomeOfError _ = OtherError"

section \<open>Checksums\<close>

record codec =
  cd_stringify :: "json \<Rightarrow> string"
  cd_parse :: "string \<Rightarrow> jsval option"
  cd_sha256 :: "string \<Rightarrow> string"
  cd_toBase64 :: "string \<Rightarrow> string"
  cd_fromBase64 :: "string \<Rightarrow> string"

datatype checksum_algorithm = Sha256Checksum

fun checksumAlgorithmText :: "checksum_algorithm \<Rightarrow> string" where
  "checksumAlgorithmText Sha256Checksum = ''sha-256''"

record checksum =
  ck_algorithm :: checksum_algorithm
  ck_hex :: string

definition parseChecksum :: "jsval \<Rightarrow> domain_error + checksum" where
  "parseChecksum value =
     bindE (ensureRecord value) (\<lambda>r.
     bindE (ensureExactKeys r [''algorithm'', ''hex'']) (\<lambda>_.
     bindE (ensureEnum (fld r ''algorithm'') checksumAlgorithmText [Sha256Checksum]) (\<lambda>algorithm.
     bindE (ensureString (fld r ''hex'') 64 64 (\<lambda>s. length s = 64 \<and> list_all isHexDigit s)) (\<lambda>hex.
     Inr \<lparr>ck_algorithm = algorithm, ck_hex = hex\<rparr>))))"

definition computeChecksumOfText :: "codec \<Rightarrow> string \<Rightarrow> checksum" where
  "computeChecksumOfText cd canonicalText = \<lparr>ck_algorithm = Sha256Checksum, ck_hex = cd_sha256 cd canonicalText\<rparr>"

definition canonicalizeWithChecksum :: "codec \<Rightarrow> jsval \<Rightarrow> domain_error + (string \<times> checksum)" where
  "canonicalizeWithChecksum cd payload =
     bindE (toCanonicalJson (cd_stringify cd) payload) (\<lambda>text. Inr (text, computeChecksumOfText cd text))"

definition checksumEquals :: "checksum \<Rightarrow> checksum \<Rightarrow> bool" where
  "checksumEquals a b \<longleftrightarrow> ck_algorithm a = ck_algorithm b \<and> ck_hex a = ck_hex b"

definition verifyChecksum :: "codec \<Rightarrow> string \<Rightarrow> checksum \<Rightarrow> store_error + unit" where
  "verifyChecksum cd canonicalText stored =
     requireE (checksumEquals (computeChecksumOfText cd canonicalText) stored) (PersistenceError CORRUPTION_DETECTED)"

section \<open>Cursors and pages\<close>

definition MAX_PAGE_SIZE :: int where "MAX_PAGE_SIZE = 1000"
definition DEFAULT_PAGE_SIZE :: int where "DEFAULT_PAGE_SIZE = 100"
definition MAX_CURSOR_LENGTH :: nat where "MAX_CURSOR_LENGTH = 1024"

datatype list_cursor = StringKeyCursor string | SequenceCursor int

fun cursorVal :: "list_cursor \<Rightarrow> jsval" where
  "cursorVal (StringKeyCursor lastKey) = plainObj [(''kind'', JStr ''string-key''), (''lastKey'', JStr lastKey)]"
| "cursorVal (SequenceCursor lastSequence) = plainObj [(''kind'', JStr ''sequence''), (''lastSequence'', jsInt lastSequence)]"

definition encodeCursor :: "codec \<Rightarrow> list_cursor \<Rightarrow> domain_error + string" where
  "encodeCursor cd cursor =
     bindE (toCanonicalJson (cd_stringify cd) (cursorVal cursor)) (\<lambda>text. Inr (cd_toBase64 cd text))"

text \<open>The body of the \<open>try\<close> of \<open>decodeCursor\<close> for each expected kind; every exception becomes the same.\<close>

definition decodeStringKey :: "codec \<Rightarrow> string \<Rightarrow> domain_error + string" where
  "decodeStringKey cd value =
     bindE (parseJsonText (cd_parse cd) (JStr (cd_fromBase64 cd value))) (\<lambda>parsed.
     bindE (ensureRecord (jsonVal parsed)) (\<lambda>r.
     bindE (requireE (fld r ''kind'' = JStr ''string-key'') Foreign) (\<lambda>_.
     bindE (ensureExactKeys r [''kind'', ''lastKey'']) (\<lambda>_.
     ensureString (fld r ''lastKey'') 1 256 (\<lambda>_. True)))))"

definition decodeSequence :: "codec \<Rightarrow> string \<Rightarrow> domain_error + int" where
  "decodeSequence cd value =
     bindE (parseJsonText (cd_parse cd) (JStr (cd_fromBase64 cd value))) (\<lambda>parsed.
     bindE (ensureRecord (jsonVal parsed)) (\<lambda>r.
     bindE (requireE (fld r ''kind'' = JStr ''sequence'') Foreign) (\<lambda>_.
     bindE (ensureExactKeys r [''kind'', ''lastSequence'']) (\<lambda>_.
     ensureSafeInteger (fld r ''lastSequence'') 0 MAX_SAFE_INTEGER))))"

fun decodeCursor :: "(string \<Rightarrow> domain_error + 'a) \<Rightarrow> jsval \<Rightarrow> store_error + 'a" where
  "decodeCursor decode (JStr value) =
     (if value = [] \<or> length value > MAX_CURSOR_LENGTH then Inl (PersistenceError INVALID_CURSOR)
      else (case decode value of Inl _ \<Rightarrow> Inl (PersistenceError INVALID_CURSOR) | Inr a \<Rightarrow> Inr a))"
| "decodeCursor decode _ = Inl (PersistenceError INVALID_CURSOR)"

definition normalizePageSize :: "jsval \<Rightarrow> domain_error + int" where
  "normalizePageSize limit =
     (if limit = JUndef \<or> limit = JNull then Inr DEFAULT_PAGE_SIZE
      else ensureSafeInteger limit 1 MAX_PAGE_SIZE)"

record 'a page =
  pg_items :: "'a list"
  pg_nextCursor :: "string option"

definition buildPage :: "codec \<Rightarrow> 'a list \<Rightarrow> int \<Rightarrow> ('a \<Rightarrow> list_cursor) \<Rightarrow> store_error + 'a page" where
  "buildPage cd items limit cursorOf =
     (if int (length items) \<le> limit then Inr \<lparr>pg_items = items, pg_nextCursor = None\<rparr>
      else
        let pageItems = take (nat limit) items in
        bindE (liftD (encodeCursor cd (cursorOf (last pageItems)))) (\<lambda>cursor.
        Inr \<lparr>pg_items = pageItems, pg_nextCursor = Some cursor\<rparr>))"

section \<open>Validated writes\<close>

datatype aggregate_type = ArtifactManifestType | BudgetAccountType | ProjectType | TaskGraphType | TaskRunType | TelemetryLedgerType

fun aggregateTypeText :: "aggregate_type \<Rightarrow> string" where
  "aggregateTypeText ArtifactManifestType = ''artifact-manifest''"
| "aggregateTypeText BudgetAccountType = ''budget-account''"
| "aggregateTypeText ProjectType = ''project''"
| "aggregateTypeText TaskGraphType = ''task-graph''"
| "aggregateTypeText TaskRunType = ''task-run''"
| "aggregateTypeText TelemetryLedgerType = ''telemetry-ledger''"

definition AGGREGATE_TYPES :: "aggregate_type list" where
  "AGGREGATE_TYPES = [ArtifactManifestType, BudgetAccountType, ProjectType, TaskGraphType, TaskRunType, TelemetryLedgerType]"

definition MAX_SCHEMA_VERSION :: int where "MAX_SCHEMA_VERSION = 1000000"
definition MAX_PAYLOAD_TEXT_LENGTH :: nat where "MAX_PAYLOAD_TEXT_LENGTH = 10000000"

definition KIND_PATTERN :: "string \<Rightarrow> bool" where
  "KIND_PATTERN = headTail isLower (\<lambda>c. isLower c \<or> isDigit c \<or> c \<in> set ''._-'') 63"

definition parsePersistedId :: "jsval \<Rightarrow> domain_error + string" where
  "parsePersistedId value = ensureString value 1 128 ID_PATTERN"

definition parseKind :: "jsval \<Rightarrow> domain_error + string" where
  "parseKind value = ensureString value 1 64 KIND_PATTERN"

definition parseAggregateType :: "jsval \<Rightarrow> domain_error + aggregate_type" where
  "parseAggregateType value = ensureEnum value aggregateTypeText AGGREGATE_TYPES"

definition parseSchemaVersion :: "jsval \<Rightarrow> domain_error + int" where
  "parseSchemaVersion value = ensureSafeInteger value 1 MAX_SCHEMA_VERSION"

definition parseOptionalId :: "jsval \<Rightarrow> domain_error + string option" where
  "parseOptionalId value = ensureNullable value parsePersistedId"

definition preparePayload :: "codec \<Rightarrow> jsval \<Rightarrow> domain_error + (string \<times> checksum)" where
  "preparePayload cd payload =
     bindE (canonicalizeWithChecksum cd payload) (\<lambda>prepared.
     if length (fst prepared) > MAX_PAYLOAD_TEXT_LENGTH then fail ''payload_too_large'' else Inr prepared)"

record aggregate_write =
  aw_type :: aggregate_type
  aw_id :: string
  aw_schemaVersion :: int
  aw_payloadText :: string
  aw_checksum :: checksum
  aw_traceId :: "string option"

text \<open>The inputs are objects whose fields the validators check; an absent field is \<open>undefined\<close>.\<close>

definition validateCreateAggregateInput :: "codec \<Rightarrow> jsrecord \<Rightarrow> domain_error + aggregate_write" where
  "validateCreateAggregateInput cd input =
     bindE (preparePayload cd (fld input ''payload'')) (\<lambda>(text, checksum).
     bindE (parseAggregateType (fld input ''aggregateType'')) (\<lambda>aggregateType.
     bindE (parsePersistedId (fld input ''aggregateId'')) (\<lambda>aggregateId.
     bindE (parseSchemaVersion (fld input ''schemaVersion'')) (\<lambda>schemaVersion.
     bindE (parseOptionalId (fld input ''traceId'')) (\<lambda>traceId.
     Inr \<lparr>aw_type = aggregateType, aw_id = aggregateId, aw_schemaVersion = schemaVersion, aw_payloadText = text,
          aw_checksum = checksum, aw_traceId = traceId\<rparr>)))))"

definition validateUpdateAggregateInput :: "codec \<Rightarrow> jsrecord \<Rightarrow> domain_error + (aggregate_write \<times> int)" where
  "validateUpdateAggregateInput cd input =
     bindE (validateCreateAggregateInput cd input) (\<lambda>base.
     bindE (ensureSafeInteger (fld input ''expectedVersion'') 1 MAX_SAFE_INTEGER) (\<lambda>expectedVersion.
     Inr (base, expectedVersion)))"

record event_append =
  ea_eventId :: string
  ea_type :: aggregate_type
  ea_id :: string
  ea_version :: int
  ea_eventType :: string
  ea_schemaVersion :: int
  ea_payloadText :: string
  ea_checksum :: checksum
  ea_occurredAt :: string
  ea_traceId :: "string option"
  ea_causationId :: "string option"

definition validateAppendEventInput :: "codec \<Rightarrow> jsrecord \<Rightarrow> domain_error + event_append" where
  "validateAppendEventInput cd input =
     bindE (preparePayload cd (fld input ''payload'')) (\<lambda>(text, checksum).
     bindE (parsePersistedId (fld input ''eventId'')) (\<lambda>eventId.
     bindE (parseAggregateType (fld input ''aggregateType'')) (\<lambda>aggregateType.
     bindE (parsePersistedId (fld input ''aggregateId'')) (\<lambda>aggregateId.
     bindE (ensureSafeInteger (fld input ''aggregateVersion'') 1 MAX_SAFE_INTEGER) (\<lambda>aggregateVersion.
     bindE (parseKind (fld input ''eventType'')) (\<lambda>eventType.
     bindE (parseSchemaVersion (fld input ''eventSchemaVersion'')) (\<lambda>schemaVersion.
     bindE (ensureTimestamp (fld input ''occurredAt'')) (\<lambda>occurredAt.
     bindE (parseOptionalId (fld input ''traceId'')) (\<lambda>traceId.
     bindE (parseOptionalId (fld input ''causationId'')) (\<lambda>causationId.
     Inr \<lparr>ea_eventId = eventId, ea_type = aggregateType, ea_id = aggregateId, ea_version = aggregateVersion,
          ea_eventType = eventType, ea_schemaVersion = schemaVersion, ea_payloadText = text, ea_checksum = checksum,
          ea_occurredAt = occurredAt, ea_traceId = traceId, ea_causationId = causationId\<rparr>))))))))))"

definition IDEMPOTENCY_PATTERN :: "string \<Rightarrow> bool" where
  "IDEMPOTENCY_PATTERN = headTail (\<lambda>c. isUpper c \<or> isLower c \<or> isDigit c)
     (\<lambda>c. isUpper c \<or> isLower c \<or> isDigit c \<or> c \<in> set ''._:-'') 255"

record outbox_enqueue =
  oe_messageId :: string
  oe_topic :: string
  oe_schemaVersion :: int
  oe_payloadText :: string
  oe_checksum :: checksum
  oe_idempotencyKey :: string
  oe_availableAt :: "string option"
  oe_traceId :: "string option"

definition validateEnqueueOutboxInput :: "codec \<Rightarrow> jsrecord \<Rightarrow> domain_error + outbox_enqueue" where
  "validateEnqueueOutboxInput cd input =
     bindE (preparePayload cd (fld input ''payload'')) (\<lambda>(text, checksum).
     bindE (parsePersistedId (fld input ''messageId'')) (\<lambda>messageId.
     bindE (parseKind (fld input ''topic'')) (\<lambda>topic.
     bindE (parseSchemaVersion (fld input ''schemaVersion'')) (\<lambda>schemaVersion.
     bindE (ensureString (fld input ''idempotencyKey'') 1 256 IDEMPOTENCY_PATTERN) (\<lambda>key.
     bindE (ensureNullable (fld input ''availableAt'') ensureTimestamp) (\<lambda>availableAt.
     bindE (parseOptionalId (fld input ''traceId'')) (\<lambda>traceId.
     Inr \<lparr>oe_messageId = messageId, oe_topic = topic, oe_schemaVersion = schemaVersion, oe_payloadText = text,
          oe_checksum = checksum, oe_idempotencyKey = key, oe_availableAt = availableAt, oe_traceId = traceId\<rparr>)))))))"

definition MAX_LEASE_DURATION_MS :: int where "MAX_LEASE_DURATION_MS = 86400000"
definition MAX_CLAIM_LIMIT :: int where "MAX_CLAIM_LIMIT = 100"

record outbox_claim =
  oc_owner :: string
  oc_leaseDurationMs :: int
  oc_limit :: int

definition validateClaimOutboxInput :: "jsrecord \<Rightarrow> domain_error + outbox_claim" where
  "validateClaimOutboxInput input =
     bindE (parsePersistedId (fld input ''owner'')) (\<lambda>owner.
     bindE (ensureSafeInteger (fld input ''leaseDurationMs'') 1 MAX_LEASE_DURATION_MS) (\<lambda>duration.
     bindE (if fld input ''limit'' = JUndef \<or> fld input ''limit'' = JNull then Inr 1
            else ensureSafeInteger (fld input ''limit'') 1 MAX_CLAIM_LIMIT) (\<lambda>limit.
     Inr \<lparr>oc_owner = owner, oc_leaseDurationMs = duration, oc_limit = limit\<rparr>)))"

definition parseFailureCategory :: "jsval \<Rightarrow> domain_error + string" where
  "parseFailureCategory value = parseKind value"

section \<open>Outbox transitions\<close>

datatype outbox_status = PendingMessage | LeasedMessage | AcknowledgedMessage | DeadLetteredMessage

fun outboxStatusText :: "outbox_status \<Rightarrow> string" where
  "outboxStatusText PendingMessage = ''pending''"
| "outboxStatusText LeasedMessage = ''leased''"
| "outboxStatusText AcknowledgedMessage = ''acknowledged''"
| "outboxStatusText DeadLetteredMessage = ''dead-lettered''"

definition OUTBOX_STATUSES :: "outbox_status list" where
  "OUTBOX_STATUSES = [PendingMessage, LeasedMessage, AcknowledgedMessage, DeadLetteredMessage]"

text \<open>A stored message: an \<open>OutboxMessage\<close> with the text of its payload.\<close>

record stored_outbox =
  om_messageId :: string
  om_topic :: string
  om_schemaVersion :: int
  om_payloadText :: string
  om_checksum :: checksum
  om_idempotencyKey :: string
  om_status :: outbox_status
  om_attemptCount :: int
  om_createdAt :: string
  om_availableAt :: string
  om_leaseOwner :: "string option"
  om_leaseExpiresAt :: "string option"
  om_acknowledgedAt :: "string option"
  om_deadLetteredAt :: "string option"
  om_lastFailureCategory :: "string option"
  om_sequence :: int
  om_traceId :: "string option"

text \<open>\<open>a \<le> b\<close> on strings.\<close>

definition strLeq :: "string \<Rightarrow> string \<Rightarrow> bool" where
  "strLeq a b \<longleftrightarrow> \<not> strLess b a"

definition isClaimable :: "stored_outbox \<Rightarrow> string \<Rightarrow> bool" where
  "isClaimable message nowIso \<longleftrightarrow>
     (if om_status message = PendingMessage then strLeq (om_availableAt message) nowIso
      else if om_status message = LeasedMessage then
        (case om_leaseExpiresAt message of None \<Rightarrow> False | Some expiresAt \<Rightarrow> strLeq expiresAt nowIso)
      else False)"

definition applyClaim :: "stored_outbox \<Rightarrow> string \<Rightarrow> string \<Rightarrow> stored_outbox" where
  "applyClaim message owner leaseExpiresAt =
     message\<lparr>om_status := LeasedMessage, om_leaseOwner := Some owner, om_leaseExpiresAt := Some leaseExpiresAt,
             om_attemptCount := om_attemptCount message + 1\<rparr>"

definition requireLeasedByOwner :: "stored_outbox \<Rightarrow> string \<Rightarrow> store_error + unit" where
  "requireLeasedByOwner message owner =
     (if om_status message \<noteq> LeasedMessage then Inl (PersistenceError OUTBOX_STATE_CONFLICT)
      else if om_leaseOwner message \<noteq> Some owner then Inl (PersistenceError OUTBOX_STATE_CONFLICT)
      else Inr ())"

definition applyAcknowledge :: "stored_outbox \<Rightarrow> jsval \<Rightarrow> string \<Rightarrow> store_error + (bool \<times> stored_outbox)" where
  "applyAcknowledge message owner nowIso =
     bindE (liftD (parsePersistedId owner)) (\<lambda>owner.
     if om_status message = AcknowledgedMessage then Inr (False, message)
     else
     bindE (requireLeasedByOwner message owner) (\<lambda>_.
     Inr (True, message\<lparr>om_status := AcknowledgedMessage, om_acknowledgedAt := Some nowIso, om_leaseOwner := None,
       om_leaseExpiresAt := None\<rparr>)))"

definition applyScheduleRetry :: "stored_outbox \<Rightarrow> jsval \<Rightarrow> jsval \<Rightarrow> jsval \<Rightarrow> store_error + stored_outbox" where
  "applyScheduleRetry message owner retryAt failureCategory =
     bindE (liftD (parsePersistedId owner)) (\<lambda>owner.
     bindE (liftD (ensureTimestamp retryAt)) (\<lambda>retryAt.
     bindE (liftD (ensureNullable failureCategory parseFailureCategory)) (\<lambda>category.
     bindE (requireLeasedByOwner message owner) (\<lambda>_.
     Inr (message\<lparr>om_status := PendingMessage, om_availableAt := retryAt, om_leaseOwner := None, om_leaseExpiresAt := None,
       om_lastFailureCategory := (if category = None then om_lastFailureCategory message else category)\<rparr>)))))"

definition applyDeadLetter :: "stored_outbox \<Rightarrow> jsval \<Rightarrow> jsval \<Rightarrow> string \<Rightarrow> store_error + stored_outbox" where
  "applyDeadLetter message owner failureCategory nowIso =
     bindE (liftD (parsePersistedId owner)) (\<lambda>owner.
     bindE (liftD (parseFailureCategory failureCategory)) (\<lambda>category.
     bindE (requireLeasedByOwner message owner) (\<lambda>_.
     Inr (message\<lparr>om_status := DeadLetteredMessage, om_deadLetteredAt := Some nowIso, om_leaseOwner := None,
       om_leaseExpiresAt := None, om_lastFailureCategory := Some category\<rparr>))))"

text \<open>What a call of the clock gives: the time value of a valid date and its text.\<close>

fun readNow :: "clock_reading \<Rightarrow> store_error + (int \<times> string)" where
  "readNow (ClockDate t) = (if validTime t then Inr (t, toISOString t) else Inl HostError)"
| "readNow _ = Inl HostError"

definition leaseExpiry :: "int \<Rightarrow> int \<Rightarrow> store_error + string" where
  "leaseExpiry now leaseDurationMs =
     (if validTime (now + leaseDurationMs) then Inr (toISOString (now + leaseDurationMs))
      else Inl (PersistenceError STORAGE_FAILURE))"

section \<open>Migrations\<close>

definition MIGRATION_ID_PATTERN :: "string \<Rightarrow> bool" where
  "MIGRATION_ID_PATTERN s \<longleftrightarrow>
     length s \<ge> 5 \<and> list_all isDigit (take 4 s) \<and> s ! 4 = CHR ''-'' \<and>
     headTail (\<lambda>c. isLower c \<or> isDigit c) (\<lambda>c. isLower c \<or> isDigit c \<or> c = CHR ''-'') 63 (drop 5 s)"

record migration =
  mg_id :: string
  mg_content :: string

record applied_migration =
  am_id :: string
  am_checksum :: checksum
  am_appliedAt :: string
  am_ordinal :: int

definition parseMigrationId :: "jsval \<Rightarrow> domain_error + string" where
  "parseMigrationId value = ensureString value 1 69 MIGRATION_ID_PATTERN"

definition migrationChecksum :: "codec \<Rightarrow> migration \<Rightarrow> checksum" where
  "migrationChecksum cd m = computeChecksumOfText cd (mg_content m)"

definition parseAppliedMigration :: "jsval \<Rightarrow> domain_error + applied_migration" where
  "parseAppliedMigration value =
     bindE (ensureRecord value) (\<lambda>r.
     bindE (ensureExactKeys r [''id'', ''checksum'', ''appliedAt'', ''ordinal'']) (\<lambda>_.
     bindE (parseMigrationId (fld r ''id'')) (\<lambda>i.
     bindE (parseChecksum (fld r ''checksum'')) (\<lambda>checksum.
     bindE (ensureTimestamp (fld r ''appliedAt'')) (\<lambda>appliedAt.
     bindE (ensureSafeInteger (fld r ''ordinal'') 1 1000000) (\<lambda>ordinal.
     Inr \<lparr>am_id = i, am_checksum = checksum, am_appliedAt = appliedAt, am_ordinal = ordinal\<rparr>))))))"

text \<open>The loop over the definitions; \<open>seen\<close> are the identifiers before, the last one first.\<close>

fun checkDefinitions :: "migration list \<Rightarrow> string list \<Rightarrow> store_error + unit" where
  "checkDefinitions [] seen = Inr ()"
| "checkDefinitions (d # ds) seen =
     bindE (liftD (parseMigrationId (JStr (mg_id d)))) (\<lambda>i.
     bindE (liftD (ensureString (JStr (mg_content d)) 1 1000000 (\<lambda>_. True))) (\<lambda>_.
     if i \<in> set seen then Inl (PersistenceError MIGRATION_FAILED)
     else if seen \<noteq> [] \<and> strLeq i (hd seen) then Inl (PersistenceError MIGRATION_FAILED)
     else checkDefinitions ds (i # seen)))"

text \<open>The loop over the applied history, with the definitions from the current position on.\<close>

fun checkApplied :: "codec \<Rightarrow> applied_migration list \<Rightarrow> migration list \<Rightarrow> int \<Rightarrow> store_error + unit" where
  "checkApplied cd [] ds index = Inr ()"
| "checkApplied cd (a # as) [] index = Inl (PersistenceError MIGRATION_FAILED)"
| "checkApplied cd (a # as) (d # ds) index =
     (if mg_id d \<noteq> am_id a \<or> am_ordinal a \<noteq> index + 1 then Inl (PersistenceError MIGRATION_FAILED)
      else if \<not> checksumEquals (migrationChecksum cd d) (am_checksum a) then Inl (PersistenceError MIGRATION_CHECKSUM_MISMATCH)
      else checkApplied cd as ds (index + 1))"

record migration_plan =
  mp_toApply :: "migration list"
  mp_applied :: "applied_migration list"
  mp_pending :: "string list"
  mp_databaseSchemaAhead :: bool

definition planMigrations :: "codec \<Rightarrow> migration list \<Rightarrow> applied_migration list \<Rightarrow> store_error + migration_plan" where
  "planMigrations cd ds applied =
     bindE (checkDefinitions ds []) (\<lambda>_.
     if list_ex (\<lambda>a. am_id a \<notin> mg_id ` set ds) applied then Inl (PersistenceError SCHEMA_TOO_NEW)
     else
     bindE (checkApplied cd applied ds 0) (\<lambda>_.
     let toApply = drop (length applied) ds in
     Inr \<lparr>mp_toApply = toApply, mp_applied = applied, mp_pending = map mg_id toApply, mp_databaseSchemaAhead = False\<rparr>))"

end
