(* ===== verification/Artifact_Laws.thy ===== *)
theory Artifact_Laws
  imports Artifacts
begin

text \<open>
  Descriptors and manifests as JavaScript values, the well-formedness their parsers establish, the
  round trips, and what a safe relative path means for a file system: resolving it from any
  directory ends below that directory.
\<close>

section \<open>Resolution of paths\<close>

lemma splitOn_not_Nil [simp]: "splitOn d s \<noteq> []"
  by (induction s) (auto split: list.splits)

lemma splitOn_free: "seg \<in> set (splitOn d s) \<Longrightarrow> d \<notin> set seg"
  by (induction s arbitrary: seg) (auto split: list.splits if_splits)

fun joinOn :: "char \<Rightarrow> string list \<Rightarrow> string" where
  "joinOn d [] = []"
| "joinOn d [s] = s"
| "joinOn d (s # ss) = s @ d # joinOn d ss"

lemma joinOn_cons: "ss \<noteq> [] \<Longrightarrow> joinOn d (s # ss) = s @ d # joinOn d ss"
  by (cases ss) auto

lemma joinOn_splitOn [simp]: "joinOn d (splitOn d s) = s"
proof (induction s)
  case (Cons c cs)
  then show ?case
    by (cases "splitOn d cs"; cases "tl (splitOn d cs)") (auto simp: joinOn_cons)
qed simp

text \<open>The walk of a file system along the segments of a path: an empty segment and \<open>.\<close> stay, \<open>..\<close> goes up.\<close>

fun walk :: "string list \<Rightarrow> string list \<Rightarrow> string list" where
  "walk dir [] = dir"
| "walk dir (seg # segs) =
     (if seg = [] \<or> seg = ''.'' then walk dir segs
      else if seg = ''..'' then walk (butlast dir) segs
      else walk (dir @ [seg]) segs)"

lemma checkSegment_Inr:
  "checkSegment seg = Inr u \<Longrightarrow> seg \<noteq> [] \<and> seg \<noteq> ''.'' \<and> seg \<noteq> ''..'' \<and> \<not> list_ex forbiddenSegmentChar seg \<and>
     length seg \<le> MAX_PATH_SEGMENT_LENGTH"
  by (simp add: checkSegment_def split: if_splits)

lemma walk_plain: "\<forall>seg \<in> set segs. seg \<noteq> [] \<and> seg \<noteq> ''.'' \<and> seg \<noteq> ''..'' \<Longrightarrow> walk dir segs = dir @ segs"
  by (induction segs arbitrary: dir) auto

definition safePath :: "string \<Rightarrow> bool" where
  "safePath p \<longleftrightarrow> parseSafeRelativePath (JStr p) = Inr p"

lemma parseSafeRelativePath_parts:
  assumes "parseSafeRelativePath v = Inr p"
  shows "v = JStr p" and "isOk (mapE checkSegment (splitOn CHR ''/'' p))"
proof -
  from assms obtain s where s: "ensureString v 1 MAX_RELATIVE_PATH_LENGTH (\<lambda>_. True) = Inr s"
    and rest: "(if backslash \<in> set s then fail ''backslash'' else if take 1 s = ''/'' then fail ''absolute_path''
      else if startsWithDrive s then fail ''drive_letter''
      else bindE (mapE checkSegment (splitOn CHR ''/'' s)) (\<lambda>_. Inr s)) = Inr p"
    using assms unfolding parseSafeRelativePath_def by (auto simp only: bindE_Inr_iff)
  from rest have "bindE (mapE checkSegment (splitOn CHR ''/'' s)) (\<lambda>_. Inr s) = Inr p"
    unfolding if_Inl_Inr by blast
  then have "p = s \<and> isOk (mapE checkSegment (splitOn CHR ''/'' s))" by (auto simp: bindE_Inr_iff isOk_iff)
  then show "v = JStr p" "isOk (mapE checkSegment (splitOn CHR ''/'' p))" using s by simp_all
qed

lemma parseSafeRelativePath_Inr: "parseSafeRelativePath v = Inr p \<longleftrightarrow> v = JStr p \<and> safePath p"
  using parseSafeRelativePath_parts(1) unfolding safePath_def by blast

lemma safePath_segments:
  assumes "safePath p"
  shows "\<forall>seg \<in> set (splitOn CHR ''/'' p). seg \<noteq> [] \<and> seg \<noteq> ''.'' \<and> seg \<noteq> ''..'' \<and> \<not> list_ex forbiddenSegmentChar seg \<and>
     length seg \<le> MAX_PATH_SEGMENT_LENGTH"
proof
  fix seg assume seg: "seg \<in> set (splitOn CHR ''/'' p)"
  from assms obtain us where "mapE checkSegment (splitOn CHR ''/'' p) = Inr us"
    using parseSafeRelativePath_parts(2) [OF assms [unfolded safePath_def]] by (auto simp: isOk_iff)
  then have "list_all2 (\<lambda>x y. checkSegment x = Inr y) (splitOn CHR ''/'' p) us" by (simp add: mapE_Inr_iff)
  then obtain u where "checkSegment seg = Inr u"
    using seg by (induction rule: list_all2_induct) auto
  then show "seg \<noteq> [] \<and> seg \<noteq> ''.'' \<and> seg \<noteq> ''..'' \<and> \<not> list_ex forbiddenSegmentChar seg \<and> length seg \<le> MAX_PATH_SEGMENT_LENGTH"
    by (rule checkSegment_Inr)
qed

theorem safePath_walk: "safePath p \<Longrightarrow> walk dir (splitOn CHR ''/'' p) = dir @ splitOn CHR ''/'' p"
  using safePath_segments by (intro walk_plain) blast

section \<open>Values\<close>

definition digestVal :: "artifact_digest \<Rightarrow> jsval" where
  "digestVal d = plainObj [(''algorithm'', JStr (digestAlgorithmText (dg_algorithm d))), (''hex'', JStr (dg_hex d))]"

fun locationVal :: "artifact_location \<Rightarrow> jsval" where
  "locationVal (ContentAddressed store) =
     plainObj [(''type'', JStr ''content-addressed''), (''store'', JStr (storeKindText store))]"
| "locationVal (WorkspaceFile workspaceId path) =
     plainObj [(''type'', JStr ''workspace-file''), (''workspaceId'', JStr workspaceId), (''path'', JStr path)]"

fun producerVal :: "artifact_producer \<Rightarrow> jsval" where
  "producerVal (ModelProducer p m) = plainObj [(''type'', JStr ''model''), (''providerId'', JStr p), (''modelId'', JStr m)]"
| "producerVal (AgentProducer a) = plainObj [(''type'', JStr ''agent''), (''agentId'', JStr a)]"
| "producerVal UserProducer = plainObj [(''type'', JStr ''user'')]"
| "producerVal (SystemProducer c) = plainObj [(''type'', JStr ''system''), (''component'', JStr c)]"

definition provenanceVal :: "artifact_provenance \<Rightarrow> jsval" where
  "provenanceVal p = plainObj
     [(''producedBy'', producerVal (pv_producedBy p)), (''runId'', jsNullable JStr (pv_runId p)),
      (''taskId'', jsNullable JStr (pv_taskId p)), (''taskRunId'', jsNullable JStr (pv_taskRunId p)),
      (''traceId'', jsNullable JStr (pv_traceId p))]"

definition descriptorVal :: "artifact_descriptor \<Rightarrow> jsval" where
  "descriptorVal a = plainObj
     [(''schemaVersion'', jsInt ARTIFACT_SCHEMA_VERSION), (''id'', JStr (ad_id a)), (''displayName'', JStr (ad_displayName a)),
      (''kind'', JStr (artifactKindText (ad_kind a))), (''role'', JStr (artifactRoleText (ad_role a))),
      (''mediaType'', JStr (ad_mediaType a)), (''sizeBytes'', jsInt (ad_sizeBytes a)), (''digest'', digestVal (ad_digest a)),
      (''classification'', JStr (classificationText (ad_classification a))), (''location'', locationVal (ad_location a)),
      (''provenance'', provenanceVal (ad_provenance a)), (''parents'', plainArr (map JStr (ad_parents a))),
      (''createdAt'', JStr (ad_createdAt a))]"

definition artifactSlotVal :: "artifact_descriptor option \<Rightarrow> (bool \<times> jsval) option" where
  "artifactSlotVal = map_option (\<lambda>a. (True, descriptorVal a))"

definition manifestVal :: "artifact_manifest \<Rightarrow> jsval" where
  "manifestVal m = plainObj
     [(''schemaVersion'', jsInt ARTIFACT_MANIFEST_SCHEMA_VERSION), (''manifestId'', JStr (mf_manifestId m)),
      (''taskRunId'', jsNullable JStr (mf_taskRunId m)), (''artifacts'', JArr True (map artifactSlotVal (mf_artifacts m)) []),
      (''createdAt'', JStr (mf_createdAt m))]"

section \<open>Well-formedness\<close>

definition digestOk :: "artifact_digest \<Rightarrow> bool" where
  "digestOk d \<longleftrightarrow> length (dg_hex d) = digestHexLength (dg_algorithm d) \<and> LOWER_HEX_PATTERN (dg_hex d)"

fun locationOk :: "artifact_location \<Rightarrow> bool" where
  "locationOk (ContentAddressed store) \<longleftrightarrow> True"
| "locationOk (WorkspaceFile workspaceId path) \<longleftrightarrow> ID_PATTERN workspaceId \<and> safePath path"

fun producerOk :: "artifact_producer \<Rightarrow> bool" where
  "producerOk (ModelProducer p m) \<longleftrightarrow> ID_PATTERN p \<and> ID_PATTERN m"
| "producerOk (AgentProducer a) \<longleftrightarrow> ID_PATTERN a"
| "producerOk UserProducer \<longleftrightarrow> True"
| "producerOk (SystemProducer c) \<longleftrightarrow> ID_PATTERN c"

definition provenanceOk :: "artifact_provenance \<Rightarrow> bool" where
  "provenanceOk p \<longleftrightarrow> producerOk (pv_producedBy p) \<and> pred_option ID_PATTERN (pv_runId p) \<and> pred_option ID_PATTERN (pv_taskId p) \<and>
     pred_option ID_PATTERN (pv_taskRunId p) \<and> pred_option ID_PATTERN (pv_traceId p)"

definition descriptorOk :: "artifact_descriptor \<Rightarrow> bool" where
  "descriptorOk a \<longleftrightarrow> ID_PATTERN (ad_id a) \<and> SAFE_DISPLAY_NAME_PATTERN (ad_displayName a) \<and>
     length (ad_mediaType a) \<le> 128 \<and> MEDIA_TYPE_PATTERN (ad_mediaType a) \<and> 0 \<le> ad_sizeBytes a \<and> ad_sizeBytes a \<le> MAX_ARTIFACT_BYTES \<and>
     digestOk (ad_digest a) \<and> locationOk (ad_location a) \<and> provenanceOk (ad_provenance a) \<and>
     length (ad_parents a) \<le> MAX_PARENT_ARTIFACTS \<and> distinct (ad_parents a) \<and> ad_id a \<notin> set (ad_parents a) \<and>
     list_all ID_PATTERN (ad_parents a) \<and> timestampText (ad_createdAt a)"

text \<open>A manifest as the parser leaves it; holes may remain.\<close>

definition manifestOk :: "artifact_manifest \<Rightarrow> bool" where
  "manifestOk m \<longleftrightarrow> ID_PATTERN (mf_manifestId m) \<and> pred_option ID_PATTERN (mf_taskRunId m) \<and>
     length (mf_artifacts m) \<le> MAX_MANIFEST_ARTIFACTS \<and> list_all (pred_option descriptorOk) (mf_artifacts m) \<and>
     distinct (map (ad_id \<circ> the) (filter (\<lambda>s. s \<noteq> None) (mf_artifacts m))) \<and> timestampText (mf_createdAt m)"

lemma inj_artifact_texts [simp]:
  "inj digestAlgorithmText" "inj storeKindText" "inj locationTypeText" "inj producerTypeText" "inj artifactKindText" "inj artifactRoleText"
  by (auto intro!: injI elim!: digestAlgorithmText.elims storeKindText.elims locationTypeText.elims producerTypeText.elims
      artifactKindText.elims artifactRoleText.elims)

lemma artifact_members [simp]:
  "set DIGEST_ALGORITHMS = UNIV" "set ARTIFACT_STORE_KINDS = UNIV" "set ARTIFACT_LOCATION_TYPES = UNIV"
  "set ARTIFACT_PRODUCER_TYPES = UNIV" "set ARTIFACT_KINDS = UNIV" "set ARTIFACT_ROLES = UNIV"
  by (auto simp: DIGEST_ALGORITHMS_def ARTIFACT_STORE_KINDS_def ARTIFACT_LOCATION_TYPES_def ARTIFACT_PRODUCER_TYPES_def
      ARTIFACT_KINDS_def ARTIFACT_ROLES_def intro: digest_algorithm.exhaust store_kind.exhaust location_type.exhaust
      producer_type.exhaust artifact_kind.exhaust artifact_role.exhaust)

section \<open>Round trips\<close>

lemma jsNullable_id [simp]: "pred_option ID_PATTERN x \<Longrightarrow> ensureNullable (jsNullable JStr x) parseId = Inr x"
  by (rule ensureNullable_jsNullable) auto

lemma nullable_id: "ensureNullable v parseId = Inr x \<Longrightarrow> pred_option ID_PATTERN x"
  by (erule ensureNullable_pred) simp

lemma parseArtifactDigest_val [simp]: "digestOk d \<Longrightarrow> parseArtifactDigest (digestVal d) = Inr d"
  by (auto simp: parseArtifactDigest_def digestVal_def digestOk_def bindE_Inr_iff)

lemma parseArtifactDigest_Inr: "parseArtifactDigest v = Inr d \<Longrightarrow> digestOk d"
  by (auto simp: parseArtifactDigest_def digestOk_def bindE_Inr_iff)

lemma parseSafeRelativePath_safe [simp]: "safePath p \<Longrightarrow> parseSafeRelativePath (JStr p) = Inr p"
  by (simp add: safePath_def)

lemma ensureEnum_texts [simp]:
  "ensureEnum (JStr ''content-addressed'') locationTypeText ARTIFACT_LOCATION_TYPES = Inr ContentAddressedType"
  "ensureEnum (JStr ''workspace-file'') locationTypeText ARTIFACT_LOCATION_TYPES = Inr WorkspaceFileType"
  "ensureEnum (JStr ''model'') producerTypeText ARTIFACT_PRODUCER_TYPES = Inr ModelType"
  "ensureEnum (JStr ''agent'') producerTypeText ARTIFACT_PRODUCER_TYPES = Inr AgentType"
  "ensureEnum (JStr ''user'') producerTypeText ARTIFACT_PRODUCER_TYPES = Inr UserType"
  "ensureEnum (JStr ''system'') producerTypeText ARTIFACT_PRODUCER_TYPES = Inr SystemType"
  by (simp_all add: ensureEnum.simps ARTIFACT_LOCATION_TYPES_def ARTIFACT_PRODUCER_TYPES_def)

lemma parseArtifactLocation_val [simp]: "locationOk l \<Longrightarrow> parseArtifactLocation (locationVal l) = Inr l"
  by (cases l) (simp_all add: parseArtifactLocation_def)

lemma parseArtifactLocation_Inr: "parseArtifactLocation v = Inr l \<Longrightarrow> locationOk l"
  by (auto simp: parseArtifactLocation_def bindE_Inr_iff parseSafeRelativePath_Inr split: if_splits)

lemma parseArtifactProducer_val [simp]: "producerOk p \<Longrightarrow> parseArtifactProducer (producerVal p) = Inr p"
  by (cases p) (simp_all add: parseArtifactProducer_def)

lemma parseArtifactProducer_Inr: "parseArtifactProducer v = Inr p \<Longrightarrow> producerOk p"
  by (simp only: parseArtifactProducer_def bindE_Inr_iff, elim exE conjE, rename_tac r type, case_tac type)
    (auto simp: bindE_Inr_iff)

lemma parseArtifactProvenance_val [simp]: "provenanceOk p \<Longrightarrow> parseArtifactProvenance (provenanceVal p) = Inr p"
  by (simp add: parseArtifactProvenance_def provenanceVal_def provenanceOk_def)

lemma parseArtifactProvenance_Inr:
  assumes "parseArtifactProvenance v = Inr p"
  shows "provenanceOk p"
proof -
  from assms obtain r where "parseArtifactProducer (fld r ''producedBy'') = Inr (pv_producedBy p)"
      "ensureNullable (fld r ''runId'') parseId = Inr (pv_runId p)" "ensureNullable (fld r ''taskId'') parseId = Inr (pv_taskId p)"
      "ensureNullable (fld r ''taskRunId'') parseId = Inr (pv_taskRunId p)"
      "ensureNullable (fld r ''traceId'') parseId = Inr (pv_traceId p)"
    by (auto simp: parseArtifactProvenance_def bindE_Inr_iff)
  then show ?thesis using parseArtifactProducer_Inr nullable_id by (simp add: provenanceOk_def)
qed

lemma admitParents_val:
  assumes "list_all ID_PATTERN ps" and "distinct ps" and "i \<notin> set ps" and "set ps \<inter> set seen = {}"
  shows "threadE (admitParent i) (map JStr ps) seen = Inr (ps, rev ps @ seen)"
  using assms by (induction ps arbitrary: seen) (auto simp: admitParent_def)

lemma admitParent_Inr:
  "admitParent i v seen = Inr (p, seen') \<longleftrightarrow> v = JStr p \<and> ID_PATTERN p \<and> p \<noteq> i \<and> p \<notin> set seen \<and> seen' = p # seen"
  by (auto simp: admitParent_def bindE_Inr_iff)

lemma admitParents_Inr:
  assumes "threadE (admitParent i) vs seen = Inr (ps, seen')"
  shows "list_all ID_PATTERN ps \<and> distinct ps \<and> i \<notin> set ps \<and> set ps \<inter> set seen = {} \<and> length ps = length vs"
  using assms
proof (induction vs arbitrary: seen ps)
  case (Cons v vs)
  then obtain p ps' where p: "ID_PATTERN p" "p \<noteq> i" "p \<notin> set seen"
    and rest: "threadE (admitParent i) vs (p # seen) = Inr (ps', seen')" and ps: "ps = p # ps'"
    by (auto simp: bindE_Inr_iff admitParent_Inr)
  show ?case using Cons.IH [OF rest] p by (auto simp: ps)
qed simp

lemma display_length: "SAFE_DISPLAY_NAME_PATTERN s \<Longrightarrow> s \<noteq> [] \<and> length s \<le> 120"
  by (cases s) (auto simp: SAFE_DISPLAY_NAME_PATTERN_def)

lemma media_length: "MEDIA_TYPE_PATTERN s \<Longrightarrow> s \<noteq> []"
  by (cases s) (auto simp: MEDIA_TYPE_PATTERN_def)

lemma parseDataClassification_text [simp]: "parseDataClassification (JStr (classificationText c)) = Inr c"
  by (simp add: parseDataClassification_def)

theorem descriptor_round_trip [simp]: "descriptorOk a \<Longrightarrow> parseArtifactDescriptor (descriptorVal a) = Inr a"
  using display_length [of "ad_displayName a"] media_length [of "ad_mediaType a"]
    admitParents_val [of "ad_parents a" "ad_id a" "[]"]
  by (simp add: parseArtifactDescriptor_def descriptorVal_def descriptorOk_def DESCRIPTOR_KEYS_def ensureString.simps
      ensureSafeInteger_jsInt MAX_ARTIFACT_BYTES_def)

theorem parseArtifactDescriptor_Inr:
  assumes "parseArtifactDescriptor v = Inr a"
  shows "descriptorOk a"
proof -
  from assms obtain vs i seen where "threadE (admitParent i) vs [] = Inr (ad_parents a, seen)" "i = ad_id a"
      "length vs \<le> MAX_PARENT_ARTIFACTS" "ID_PATTERN (ad_id a)" "SAFE_DISPLAY_NAME_PATTERN (ad_displayName a)"
      "length (ad_mediaType a) \<le> 128" "MEDIA_TYPE_PATTERN (ad_mediaType a)" "0 \<le> ad_sizeBytes a" "ad_sizeBytes a \<le> MAX_ARTIFACT_BYTES"
      "digestOk (ad_digest a)" "locationOk (ad_location a)" "provenanceOk (ad_provenance a)" "timestampText (ad_createdAt a)"
    by (auto simp: parseArtifactDescriptor_def bindE_Inr_iff
        dest!: parseArtifactDigest_Inr parseArtifactLocation_Inr parseArtifactProvenance_Inr ensureSafeInteger_range ensureArray_length)
  then show ?thesis using admitParents_Inr [of i vs "[]" "ad_parents a" seen] by (auto simp: descriptorOk_def)
qed

lemma admitArtifact_slot [simp]:
  "admitArtifact (artifactSlotVal None) seen = Inr (None, seen)"
  "descriptorOk a \<Longrightarrow> admitArtifact (artifactSlotVal (Some a)) seen =
     (if ad_id a \<in> set seen then fail ''duplicate_artifact'' else Inr (Some a, ad_id a # seen))"
  by (simp_all add: admitArtifact_def artifactSlotVal_def)

lemma admitArtifacts_val:
  assumes "list_all (pred_option descriptorOk) xs" and "distinct (map (ad_id \<circ> the) (filter (\<lambda>s. s \<noteq> None) xs))"
    and "\<forall>a. Some a \<in> set xs \<longrightarrow> ad_id a \<notin> set seen"
  shows "\<exists>seen'. threadE admitArtifact (map artifactSlotVal xs) seen = Inr (xs, seen')"
  using assms
proof (induction xs arbitrary: seen)
  case (Cons x xs)
  show ?case
  proof (cases x)
    case None
    then obtain seen' where "threadE admitArtifact (map artifactSlotVal xs) seen = Inr (xs, seen')"
      using Cons.IH [of seen] Cons.prems by auto
    then show ?thesis by (simp add: None)
  next
    case (Some a)
    have new: "\<forall>b. Some b \<in> set xs \<longrightarrow> ad_id b \<notin> set (ad_id a # seen)"
      using Cons.prems Some by (force simp: image_iff)
    then obtain seen' where "threadE admitArtifact (map artifactSlotVal xs) (ad_id a # seen) = Inr (xs, seen')"
      using Cons.IH [of "ad_id a # seen"] Cons.prems by (auto simp: Some)
    then show ?thesis using Cons.prems by (simp add: Some)
  qed
qed simp

theorem manifest_round_trip: "manifestOk m \<Longrightarrow> parseArtifactManifest (manifestVal m) = Inr m"
proof -
  assume ok: "manifestOk m"
  then obtain seen where "threadE admitArtifact (map artifactSlotVal (mf_artifacts m)) [] = Inr (mf_artifacts m, seen)"
    using admitArtifacts_val [of "mf_artifacts m" "[]"] by (auto simp: manifestOk_def)
  then show ?thesis using ok by (simp add: parseArtifactManifest_def manifestVal_def manifestOk_def)
qed

lemma admitArtifacts_Inr:
  assumes "threadE admitArtifact vs seen = Inr (xs, seen')"
  shows "list_all (pred_option descriptorOk) xs \<and> distinct (map (ad_id \<circ> the) (filter (\<lambda>s. s \<noteq> None) xs)) \<and>
    (\<forall>a. Some a \<in> set xs \<longrightarrow> ad_id a \<notin> set seen) \<and> length xs = length vs"
  using assms
proof (induction vs arbitrary: seen xs)
  case (Cons v vs)
  then obtain x seen1 ys where x: "admitArtifact v seen = Inr (x, seen1)"
    and rest: "threadE admitArtifact vs seen1 = Inr (ys, seen')" and xs: "xs = x # ys"
    by (auto simp: bindE_Inr_iff)
  show ?case
  proof (cases x)
    case None
    then have "seen1 = seen" using x by (cases v) (auto simp: admitArtifact_def bindE_Inr_iff split: if_splits)
    then show ?thesis using Cons.IH [OF rest] None by (simp add: xs)
  next
    case (Some a)
    then have a: "descriptorOk a" "ad_id a \<notin> set seen" "seen1 = ad_id a # seen"
      using x by (cases v; auto simp: admitArtifact_def bindE_Inr_iff split: if_splits dest: parseArtifactDescriptor_Inr)+
    have "ad_id a \<notin> (ad_id \<circ> the) ` set (filter (\<lambda>s. s \<noteq> None) ys)"
      using Cons.IH [OF rest] a(3) by auto
    then show ?thesis using Cons.IH [OF rest] a by (auto simp: xs Some)
  qed
qed simp

lemma manifestSlots_length: "manifestSlots v = Inr items \<Longrightarrow> length items \<le> MAX_MANIFEST_ARTIFACTS"
  by (cases v; cases "v = JTrap True") (auto split: if_splits)

theorem parseArtifactManifest_Inr:
  assumes "parseArtifactManifest v = Inr m"
  shows "manifestOk m"
proof -
  from assms obtain r items seen where "manifestSlots (fld r ''artifacts'') = Inr items"
      "threadE admitArtifact items [] = Inr (mf_artifacts m, seen)" "ID_PATTERN (mf_manifestId m)"
      "ensureNullable (fld r ''taskRunId'') parseId = Inr (mf_taskRunId m)" "timestampText (mf_createdAt m)"
    by (auto simp: parseArtifactManifest_def bindE_Inr_iff)
  then show ?thesis
    using admitArtifacts_Inr [of items "[]" "mf_artifacts m" seen] manifestSlots_length nullable_id
    by (auto simp: manifestOk_def)
qed

end
