(* ===== verification/Memory_Store.thy ===== *)
theory Memory_Store
  imports Persistence Artifact_Laws "HOL-Library.List_Lexorder"
begin

text \<open>
  \<open>packages/persistence-memory/src/memory-adapter.ts\<close>: the reference implementation of the
  persistence contract. A \<open>Map\<close> is the list of its entries in insertion order; \<open>Map.set\<close> of a key it
  has replaces the entry in place (\<open>replaceBy\<close>). Each store operation is a method over the store that
  consumes at most one reading of the clock; a transaction callback is an interaction tree that calls
  operations and decides on their outcomes. The sequence counters are unbounded integers (the code
  counts in doubles, exact below two to the 53rd power); no observer is installed.
\<close>

section \<open>State\<close>

record stored_aggregate =
  sa_type :: aggregate_type
  sa_id :: string
  sa_schemaVersion :: int
  sa_version :: int
  sa_payloadText :: string
  sa_checksum :: checksum
  sa_createdAt :: string
  sa_updatedAt :: string
  sa_traceId :: "string option"

record stored_event =
  se_eventId :: string
  se_type :: aggregate_type
  se_id :: string
  se_version :: int
  se_eventType :: string
  se_schemaVersion :: int
  se_payloadText :: string
  se_checksum :: checksum
  se_occurredAt :: string
  se_recordedAt :: string
  se_globalSequence :: int
  se_traceId :: "string option"
  se_causationId :: "string option"

record stored_artifact =
  st_id :: string
  st_payloadText :: string
  st_checksum :: checksum

record memory_state =
  ms_aggregates :: "stored_aggregate list"
  ms_events :: "stored_event list"
  ms_eventSequence :: int
  ms_outbox :: "stored_outbox list"
  ms_idempotencyKeys :: "(string \<times> string) list"
  ms_outboxSequence :: int
  ms_artifacts :: "stored_artifact list"
  ms_manifests :: "stored_artifact list"

definition emptyState :: memory_state where
  "emptyState = \<lparr>ms_aggregates = [], ms_events = [], ms_eventSequence = 0, ms_outbox = [], ms_idempotencyKeys = [],
     ms_outboxSequence = 0, ms_artifacts = [], ms_manifests = []\<rparr>"

type_synonym 'a store_method = "(memory_state, store_error, 'a) action"

text \<open>A record that is returned: the stored record (its text stands for \<open>rest\<close>) and the payload read back.\<close>

definition readPayload :: "codec \<Rightarrow> string \<Rightarrow> checksum \<Rightarrow> store_error + json" where
  "readPayload cd text checksum =
     bindE (verifyChecksum cd text checksum) (\<lambda>_. liftD (parseJsonText (cd_parse cd) (JStr text)))"

definition toEnvelope :: "codec \<Rightarrow> stored_aggregate \<Rightarrow> store_error + (stored_aggregate \<times> json)" where
  "toEnvelope cd stored =
     bindE (readPayload cd (sa_payloadText stored) (sa_checksum stored)) (\<lambda>payload. Inr (stored, payload))"

definition toEventRecord :: "codec \<Rightarrow> stored_event \<Rightarrow> store_error + (stored_event \<times> json)" where
  "toEventRecord cd stored =
     bindE (readPayload cd (se_payloadText stored) (se_checksum stored)) (\<lambda>payload. Inr (stored, payload))"

definition toOutboxMessage :: "codec \<Rightarrow> stored_outbox \<Rightarrow> store_error + (stored_outbox \<times> json)" where
  "toOutboxMessage cd stored =
     bindE (readPayload cd (om_payloadText stored) (om_checksum stored)) (\<lambda>payload. Inr (stored, payload))"

definition readArtifact :: "codec \<Rightarrow> (jsval \<Rightarrow> domain_error + 'a) \<Rightarrow> stored_artifact \<Rightarrow> store_error + 'a" where
  "readArtifact cd parse stored =
     bindE (readPayload cd (st_payloadText stored) (st_checksum stored)) (\<lambda>payload. liftD (parse (jsonVal payload)))"

text \<open>The cursor of a query: absent and \<open>null\<close> both start from the beginning.\<close>

definition queryCursor :: "(string \<Rightarrow> domain_error + 'a) \<Rightarrow> jsval \<Rightarrow> store_error + 'a option" where
  "queryCursor decode cursor =
     (if cursor = JUndef \<or> cursor = JNull then Inr None
      else bindE (decodeCursor decode cursor) (\<lambda>key. Inr (Some key)))"

definition afterCursor :: "('k::linorder) option \<Rightarrow> 'k \<Rightarrow> bool" where
  "afterCursor after key \<longleftrightarrow> (case after of None \<Rightarrow> True | Some k \<Rightarrow> k < key)"

text \<open>\<open>sort\<close> by a key, \<open>filter\<close> and \<open>slice(0, limit + 1)\<close>: what a page is built from.\<close>

definition selectAfter :: "('a \<Rightarrow> 'k::linorder) \<Rightarrow> ('a \<Rightarrow> bool) \<Rightarrow> 'k option \<Rightarrow> int \<Rightarrow> 'a list \<Rightarrow> 'a list" where
  "selectAfter key P after limit xs =
     take (nat (limit + 1)) (filter (\<lambda>x. P x \<and> afterCursor after (key x)) (sort_key key xs))"

section \<open>Aggregates\<close>

definition aggregateKey :: "stored_aggregate \<Rightarrow> aggregate_type \<times> string" where
  "aggregateKey a = (sa_type a, sa_id a)"

definition findAggregate :: "memory_state \<Rightarrow> aggregate_type \<Rightarrow> string \<Rightarrow> stored_aggregate option" where
  "findAggregate s t i = List.find (\<lambda>a. aggregateKey a = (t, i)) (ms_aggregates s)"

definition createAggregate :: "codec \<Rightarrow> jsrecord \<Rightarrow> clock_reading \<Rightarrow> (stored_aggregate \<times> json) store_method" where
  "createAggregate cd raw clock =
     bindS (liftS (liftD (validateCreateAggregateInput cd raw))) (\<lambda>input.
     bindS (readS (\<lambda>s. findAggregate s (aw_type input) (aw_id input))) (\<lambda>existing.
     if existing \<noteq> None then throwS (PersistenceError CONCURRENCY_CONFLICT)
     else
     bindS (liftS (readNow clock)) (\<lambda>(_, nowIso).
     let stored = \<lparr>sa_type = aw_type input, sa_id = aw_id input, sa_schemaVersion = aw_schemaVersion input,
           sa_version = 1, sa_payloadText = aw_payloadText input, sa_checksum = aw_checksum input,
           sa_createdAt = nowIso, sa_updatedAt = nowIso, sa_traceId = aw_traceId input\<rparr> in
     bindS (modifyS (\<lambda>s. s\<lparr>ms_aggregates := ms_aggregates s @ [stored]\<rparr>)) (\<lambda>_.
     liftS (toEnvelope cd stored)))))"

definition updateAggregate :: "codec \<Rightarrow> jsrecord \<Rightarrow> clock_reading \<Rightarrow> (stored_aggregate \<times> json) store_method" where
  "updateAggregate cd raw clock =
     bindS (liftS (liftD (validateUpdateAggregateInput cd raw))) (\<lambda>(input, expectedVersion).
     bindS (readS (\<lambda>s. findAggregate s (aw_type input) (aw_id input))) (\<lambda>found.
     case found of
       None \<Rightarrow> throwS (PersistenceError NOT_FOUND)
     | Some existing \<Rightarrow>
         if sa_version existing \<noteq> expectedVersion then throwS (PersistenceError CONCURRENCY_CONFLICT)
         else
         bindS (liftS (readNow clock)) (\<lambda>(_, nowIso).
         let stored = existing\<lparr>sa_schemaVersion := aw_schemaVersion input, sa_version := expectedVersion + 1,
               sa_payloadText := aw_payloadText input, sa_checksum := aw_checksum input, sa_updatedAt := nowIso,
               sa_traceId := aw_traceId input\<rparr> in
         bindS (modifyS (\<lambda>s. s\<lparr>ms_aggregates := replaceBy aggregateKey stored (ms_aggregates s)\<rparr>)) (\<lambda>_.
         liftS (toEnvelope cd stored)))))"

definition getAggregate :: "codec \<Rightarrow> jsval \<Rightarrow> jsval \<Rightarrow> (stored_aggregate \<times> json) option store_method" where
  "getAggregate cd aggregateType aggregateId =
     bindS (liftS (liftD (parseAggregateType aggregateType))) (\<lambda>t.
     bindS (liftS (liftD (parsePersistedId aggregateId))) (\<lambda>i.
     bindS (readS (\<lambda>s. findAggregate s t i)) (\<lambda>found.
     case found of None \<Rightarrow> returnS None
     | Some stored \<Rightarrow> bindS (liftS (toEnvelope cd stored)) (\<lambda>envelope. returnS (Some envelope)))))"

definition listAggregates :: "codec \<Rightarrow> jsrecord \<Rightarrow> (stored_aggregate \<times> json) page store_method" where
  "listAggregates cd query =
     bindS (liftS (liftD (parseAggregateType (fld query ''aggregateType'')))) (\<lambda>t.
     bindS (liftS (liftD (normalizePageSize (fld query ''limit'')))) (\<lambda>limit.
     bindS (liftS (queryCursor (decodeStringKey cd) (fld query ''cursor''))) (\<lambda>after.
     bindS (readS (\<lambda>s. selectAfter sa_id (\<lambda>_. True) after limit (filter (\<lambda>a. sa_type a = t) (ms_aggregates s)))) (\<lambda>selected.
     bindS (liftS (mapE (toEnvelope cd) selected)) (\<lambda>items.
     liftS (buildPage cd items limit (\<lambda>(a, _). StringKeyCursor (sa_id a))))))))"

section \<open>Events\<close>

definition appendEvent :: "codec \<Rightarrow> jsrecord \<Rightarrow> clock_reading \<Rightarrow> (stored_event \<times> json) store_method" where
  "appendEvent cd raw clock =
     bindS (liftS (liftD (validateAppendEventInput cd raw))) (\<lambda>input.
     bindS (readS (\<lambda>s. ea_eventId input \<in> se_eventId ` set (ms_events s))) (\<lambda>known.
     if known then throwS (PersistenceError DUPLICATE_ID)
     else
     bindS (modifyS (\<lambda>s. s\<lparr>ms_eventSequence := ms_eventSequence s + 1\<rparr>)) (\<lambda>_.
     bindS (liftS (readNow clock)) (\<lambda>(_, nowIso).
     bindS (readS (\<lambda>s. \<lparr>se_eventId = ea_eventId input, se_type = ea_type input, se_id = ea_id input,
         se_version = ea_version input, se_eventType = ea_eventType input, se_schemaVersion = ea_schemaVersion input,
         se_payloadText = ea_payloadText input, se_checksum = ea_checksum input, se_occurredAt = ea_occurredAt input,
         se_recordedAt = nowIso, se_globalSequence = ms_eventSequence s, se_traceId = ea_traceId input,
         se_causationId = ea_causationId input\<rparr>)) (\<lambda>stored.
     bindS (modifyS (\<lambda>s. s\<lparr>ms_events := ms_events s @ [stored]\<rparr>)) (\<lambda>_.
     liftS (toEventRecord cd stored)))))))"

definition listEvents :: "codec \<Rightarrow> jsrecord \<Rightarrow> (stored_event \<times> json) page store_method" where
  "listEvents cd query =
     bindS (liftS (if fld query ''aggregateType'' = JUndef then Inr None
                   else bindE (liftD (parseAggregateType (fld query ''aggregateType''))) (\<lambda>t. Inr (Some t)))) (\<lambda>t.
     bindS (liftS (if fld query ''aggregateId'' = JUndef then Inr None
                   else bindE (liftD (parsePersistedId (fld query ''aggregateId''))) (\<lambda>i. Inr (Some i)))) (\<lambda>i.
     if i \<noteq> None \<and> t = None then throwS (DomainError (Validation ''missing_aggregate_type''))
     else
     bindS (liftS (liftD (normalizePageSize (fld query ''limit'')))) (\<lambda>limit.
     bindS (liftS (queryCursor (decodeSequence cd) (fld query ''cursor''))) (\<lambda>after.
     bindS (readS (\<lambda>s. selectAfter se_globalSequence
         (\<lambda>e. (t = None \<or> t = Some (se_type e)) \<and> (i = None \<or> i = Some (se_id e))) after limit (ms_events s))) (\<lambda>selected.
     bindS (liftS (mapE (toEventRecord cd) selected)) (\<lambda>items.
     liftS (buildPage cd items limit (\<lambda>(e, _). SequenceCursor (se_globalSequence e)))))))))"

section \<open>Outbox\<close>

definition enqueueMessage :: "codec \<Rightarrow> jsrecord \<Rightarrow> clock_reading \<Rightarrow> (stored_outbox \<times> json) store_method" where
  "enqueueMessage cd raw clock =
     bindS (liftS (liftD (validateEnqueueOutboxInput cd raw))) (\<lambda>input.
     bindS (readS (\<lambda>s. oe_messageId input \<in> om_messageId ` set (ms_outbox s))) (\<lambda>known.
     if known then throwS (PersistenceError DUPLICATE_ID)
     else
     bindS (readS (\<lambda>s. oe_idempotencyKey input \<in> fst ` set (ms_idempotencyKeys s))) (\<lambda>used.
     if used then throwS (PersistenceError DUPLICATE_IDEMPOTENCY_KEY)
     else
     bindS (liftS (readNow clock)) (\<lambda>(_, nowIso).
     bindS (modifyS (\<lambda>s. s\<lparr>ms_outboxSequence := ms_outboxSequence s + 1\<rparr>)) (\<lambda>_.
     bindS (readS (\<lambda>s. \<lparr>om_messageId = oe_messageId input, om_topic = oe_topic input,
         om_schemaVersion = oe_schemaVersion input, om_payloadText = oe_payloadText input,
         om_checksum = oe_checksum input, om_idempotencyKey = oe_idempotencyKey input, om_status = PendingMessage,
         om_attemptCount = 0, om_createdAt = nowIso,
         om_availableAt = (case oe_availableAt input of None \<Rightarrow> nowIso | Some availableAt \<Rightarrow> availableAt),
         om_leaseOwner = None, om_leaseExpiresAt = None, om_acknowledgedAt = None, om_deadLetteredAt = None,
         om_lastFailureCategory = None, om_sequence = ms_outboxSequence s, om_traceId = oe_traceId input\<rparr>)) (\<lambda>stored.
     bindS (modifyS (\<lambda>s. s\<lparr>ms_outbox := ms_outbox s @ [stored]\<rparr>)) (\<lambda>_.
     bindS (modifyS (\<lambda>s. s\<lparr>ms_idempotencyKeys :=
         ms_idempotencyKeys s @ [(oe_idempotencyKey input, oe_messageId input)]\<rparr>)) (\<lambda>_.
     liftS (toOutboxMessage cd stored)))))))))"

definition storeMessage :: "stored_outbox \<Rightarrow> memory_state \<Rightarrow> memory_state" where
  "storeMessage m s = s\<lparr>ms_outbox := replaceBy om_messageId m (ms_outbox s)\<rparr>"

text \<open>The loop of \<open>claim\<close> over a sorted copy of the messages; \<open>claimed\<close> is the result so far.\<close>

fun claimLoop :: "codec \<Rightarrow> outbox_claim \<Rightarrow> string \<Rightarrow> string \<Rightarrow> stored_outbox list \<Rightarrow> (stored_outbox \<times> json) list \<Rightarrow>
    (stored_outbox \<times> json) list store_method" where
  "claimLoop cd input nowIso expiresAt [] claimed = returnS claimed"
| "claimLoop cd input nowIso expiresAt (m # ms) claimed =
     (if int (length claimed) \<ge> oc_limit input then returnS claimed
      else if \<not> isClaimable m nowIso then claimLoop cd input nowIso expiresAt ms claimed
      else
        let leased = applyClaim m (oc_owner input) expiresAt in
        bindS (modifyS (storeMessage leased)) (\<lambda>_.
        bindS (liftS (toOutboxMessage cd leased)) (\<lambda>message.
        claimLoop cd input nowIso expiresAt ms (claimed @ [message]))))"

definition claimMessages :: "codec \<Rightarrow> jsrecord \<Rightarrow> clock_reading \<Rightarrow> (stored_outbox \<times> json) list store_method" where
  "claimMessages cd raw clock =
     bindS (liftS (liftD (validateClaimOutboxInput raw))) (\<lambda>input.
     bindS (liftS (readNow clock)) (\<lambda>(now, nowIso).
     bindS (liftS (leaseExpiry now (oc_leaseDurationMs input))) (\<lambda>expiresAt.
     bindS (readS (\<lambda>s. sort_key om_sequence (ms_outbox s))) (\<lambda>messages.
     claimLoop cd input nowIso expiresAt messages []))))"

definition requireMessage :: "string \<Rightarrow> stored_outbox store_method" where
  "requireMessage messageId =
     checkS (\<lambda>s. case List.find (\<lambda>m. om_messageId m = messageId) (ms_outbox s) of
       None \<Rightarrow> Inl (PersistenceError NOT_FOUND) | Some stored \<Rightarrow> Inr stored)"

definition acknowledgeMessage :: "codec \<Rightarrow> jsrecord \<Rightarrow> clock_reading \<Rightarrow> (stored_outbox \<times> json) store_method" where
  "acknowledgeMessage cd raw clock =
     bindS (liftS (liftD (parsePersistedId (fld raw ''messageId'')))) (\<lambda>messageId.
     bindS (requireMessage messageId) (\<lambda>stored.
     bindS (liftS (readNow clock)) (\<lambda>(_, nowIso).
     bindS (liftS (applyAcknowledge stored (fld raw ''owner'') nowIso)) (\<lambda>(changed, message).
     bindS (if changed then modifyS (storeMessage message) else returnS ()) (\<lambda>_.
     liftS (toOutboxMessage cd message))))))"

text \<open>\<open>raw.failureCategory ?? null\<close>.\<close>

definition orNull :: "jsval \<Rightarrow> jsval" where
  "orNull v = (if v = JUndef then JNull else v)"

definition scheduleRetryMessage :: "codec \<Rightarrow> jsrecord \<Rightarrow> (stored_outbox \<times> json) store_method" where
  "scheduleRetryMessage cd raw =
     bindS (liftS (liftD (parsePersistedId (fld raw ''messageId'')))) (\<lambda>messageId.
     bindS (requireMessage messageId) (\<lambda>stored.
     bindS (liftS (applyScheduleRetry stored (fld raw ''owner'') (fld raw ''retryAt'') (orNull (fld raw ''failureCategory'')))) (\<lambda>message.
     bindS (modifyS (storeMessage message)) (\<lambda>_.
     liftS (toOutboxMessage cd message)))))"

definition deadLetterMessage :: "codec \<Rightarrow> jsrecord \<Rightarrow> clock_reading \<Rightarrow> (stored_outbox \<times> json) store_method" where
  "deadLetterMessage cd raw clock =
     bindS (liftS (liftD (parsePersistedId (fld raw ''messageId'')))) (\<lambda>messageId.
     bindS (requireMessage messageId) (\<lambda>stored.
     bindS (liftS (readNow clock)) (\<lambda>(_, nowIso).
     bindS (liftS (applyDeadLetter stored (fld raw ''owner'') (fld raw ''failureCategory'') nowIso)) (\<lambda>message.
     bindS (modifyS (storeMessage message)) (\<lambda>_.
     liftS (toOutboxMessage cd message))))))"

definition getMessage :: "codec \<Rightarrow> jsval \<Rightarrow> (stored_outbox \<times> json) option store_method" where
  "getMessage cd messageId =
     bindS (liftS (liftD (parsePersistedId messageId))) (\<lambda>i.
     bindS (readS (\<lambda>s. List.find (\<lambda>m. om_messageId m = i) (ms_outbox s))) (\<lambda>found.
     case found of None \<Rightarrow> returnS None
     | Some stored \<Rightarrow> bindS (liftS (toOutboxMessage cd stored)) (\<lambda>message. returnS (Some message))))"

definition listMessages :: "codec \<Rightarrow> jsrecord \<Rightarrow> (stored_outbox \<times> json) page store_method" where
  "listMessages cd query =
     bindS (liftS (if fld query ''status'' = JUndef then Inr None
                   else bindE (liftD (ensureEnum (fld query ''status'') outboxStatusText OUTBOX_STATUSES)) (\<lambda>st. Inr (Some st)))) (\<lambda>status.
     bindS (liftS (liftD (normalizePageSize (fld query ''limit'')))) (\<lambda>limit.
     bindS (liftS (queryCursor (decodeSequence cd) (fld query ''cursor''))) (\<lambda>after.
     bindS (readS (\<lambda>s. selectAfter om_sequence (\<lambda>m. status = None \<or> status = Some (om_status m)) after limit (ms_outbox s))) (\<lambda>selected.
     bindS (liftS (mapE (toOutboxMessage cd) selected)) (\<lambda>items.
     liftS (buildPage cd items limit (\<lambda>(m, _). SequenceCursor (om_sequence m))))))))"

section \<open>Artifact metadata\<close>



definition putDescriptor :: "codec \<Rightarrow> jsval \<Rightarrow> artifact_descriptor store_method" where
  "putDescriptor cd raw =
     bindS (liftS (liftD (parseArtifactDescriptor raw))) (\<lambda>descriptor.
     bindS (readS (\<lambda>s. ad_id descriptor \<in> st_id ` set (ms_artifacts s))) (\<lambda>known.
     if known then throwS (PersistenceError DUPLICATE_ID)
     else
     bindS (liftS (liftD (preparePayload cd (descriptorVal descriptor)))) (\<lambda>(text, checksum).
     bindS (modifyS (\<lambda>s. s\<lparr>ms_artifacts := ms_artifacts s @
         [\<lparr>st_id = ad_id descriptor, st_payloadText = text, st_checksum = checksum\<rparr>]\<rparr>)) (\<lambda>_.
     returnS descriptor))))"

definition getDescriptor :: "codec \<Rightarrow> jsval \<Rightarrow> artifact_descriptor option store_method" where
  "getDescriptor cd artifactId =
     bindS (liftS (liftD (parsePersistedId artifactId))) (\<lambda>i.
     bindS (readS (\<lambda>s. List.find (\<lambda>a. st_id a = i) (ms_artifacts s))) (\<lambda>found.
     case found of None \<Rightarrow> returnS None
     | Some stored \<Rightarrow> bindS (liftS (readArtifact cd parseArtifactDescriptor stored)) (\<lambda>d. returnS (Some d))))"

definition listDescriptors :: "codec \<Rightarrow> jsrecord \<Rightarrow> artifact_descriptor page store_method" where
  "listDescriptors cd query =
     bindS (liftS (liftD (normalizePageSize (fld query ''limit'')))) (\<lambda>limit.
     bindS (liftS (queryCursor (decodeStringKey cd) (fld query ''cursor''))) (\<lambda>after.
     bindS (readS (\<lambda>s. selectAfter st_id (\<lambda>_. True) after limit (ms_artifacts s))) (\<lambda>selected.
     bindS (liftS (mapE (readArtifact cd parseArtifactDescriptor) selected)) (\<lambda>items.
     liftS (buildPage cd items limit (\<lambda>d. StringKeyCursor (ad_id d)))))))"

definition putManifest :: "codec \<Rightarrow> jsval \<Rightarrow> artifact_manifest store_method" where
  "putManifest cd raw =
     bindS (liftS (liftD (parseArtifactManifest raw))) (\<lambda>manifest.
     bindS (readS (\<lambda>s. mf_manifestId manifest \<in> st_id ` set (ms_manifests s))) (\<lambda>known.
     if known then throwS (PersistenceError DUPLICATE_ID)
     else
     bindS (liftS (liftD (preparePayload cd (manifestVal manifest)))) (\<lambda>(text, checksum).
     bindS (modifyS (\<lambda>s. s\<lparr>ms_manifests := ms_manifests s @
         [\<lparr>st_id = mf_manifestId manifest, st_payloadText = text, st_checksum = checksum\<rparr>]\<rparr>)) (\<lambda>_.
     returnS manifest))))"

definition getManifest :: "codec \<Rightarrow> jsval \<Rightarrow> artifact_manifest option store_method" where
  "getManifest cd manifestId =
     bindS (liftS (liftD (parsePersistedId manifestId))) (\<lambda>i.
     bindS (readS (\<lambda>s. List.find (\<lambda>a. st_id a = i) (ms_manifests s))) (\<lambda>found.
     case found of None \<Rightarrow> returnS None
     | Some stored \<Rightarrow> bindS (liftS (readArtifact cd parseArtifactManifest stored)) (\<lambda>m. returnS (Some m))))"

section \<open>The operations of a transaction context\<close>

datatype store_op =
    CreateAggregate jsrecord | UpdateAggregate jsrecord | GetAggregate jsval jsval | ListAggregates jsrecord
  | AppendEvent jsrecord | ListEvents jsrecord
  | EnqueueMessage jsrecord | ClaimMessages jsrecord | AcknowledgeMessage jsrecord | ScheduleRetryMessage jsrecord
  | DeadLetterMessage jsrecord | GetMessage jsval | ListMessages jsrecord
  | PutDescriptor jsval | GetDescriptor jsval | ListDescriptors jsrecord | PutManifest jsval | GetManifest jsval

datatype store_reply =
    Envelope "stored_aggregate \<times> json" | EnvelopeOrNull "(stored_aggregate \<times> json) option"
  | EnvelopePage "(stored_aggregate \<times> json) page"
  | Recorded "stored_event \<times> json" | EventPage "(stored_event \<times> json) page"
  | Message "stored_outbox \<times> json" | MessageOrNull "(stored_outbox \<times> json) option"
  | Claimed "(stored_outbox \<times> json) list" | MessagePage "(stored_outbox \<times> json) page"
  | Descriptor artifact_descriptor | DescriptorOrNull "artifact_descriptor option" | DescriptorPage "artifact_descriptor page"
  | Manifest artifact_manifest | ManifestOrNull "artifact_manifest option"

definition mapS :: "('a \<Rightarrow> 'b) \<Rightarrow> ('s, 'e, 'a) action \<Rightarrow> ('s, 'e, 'b) action" where
  "mapS f m = bindS m (\<lambda>a. returnS (f a))"

fun performOp :: "codec \<Rightarrow> store_op \<Rightarrow> clock_reading \<Rightarrow> store_reply store_method" where
  "performOp cd (CreateAggregate raw) clock = mapS Envelope (createAggregate cd raw clock)"
| "performOp cd (UpdateAggregate raw) clock = mapS Envelope (updateAggregate cd raw clock)"
| "performOp cd (GetAggregate t i) clock = mapS EnvelopeOrNull (getAggregate cd t i)"
| "performOp cd (ListAggregates query) clock = mapS EnvelopePage (listAggregates cd query)"
| "performOp cd (AppendEvent raw) clock = mapS Recorded (appendEvent cd raw clock)"
| "performOp cd (ListEvents query) clock = mapS EventPage (listEvents cd query)"
| "performOp cd (EnqueueMessage raw) clock = mapS Message (enqueueMessage cd raw clock)"
| "performOp cd (ClaimMessages raw) clock = mapS Claimed (claimMessages cd raw clock)"
| "performOp cd (AcknowledgeMessage raw) clock = mapS Message (acknowledgeMessage cd raw clock)"
| "performOp cd (ScheduleRetryMessage raw) clock = mapS Message (scheduleRetryMessage cd raw)"
| "performOp cd (DeadLetterMessage raw) clock = mapS Message (deadLetterMessage cd raw clock)"
| "performOp cd (GetMessage i) clock = mapS MessageOrNull (getMessage cd i)"
| "performOp cd (ListMessages query) clock = mapS MessagePage (listMessages cd query)"
| "performOp cd (PutDescriptor raw) clock = mapS Descriptor (putDescriptor cd raw)"
| "performOp cd (GetDescriptor i) clock = mapS DescriptorOrNull (getDescriptor cd i)"
| "performOp cd (ListDescriptors query) clock = mapS DescriptorPage (listDescriptors cd query)"
| "performOp cd (PutManifest raw) clock = mapS Manifest (putManifest cd raw)"
| "performOp cd (GetManifest i) clock = mapS ManifestOrNull (getManifest cd i)"

section \<open>Transactions\<close>

text \<open>A callback: it ends with a value or an exception, calls an operation of its context (with the reading of
  the clock during the call) and goes on with the outcome, which it may catch, or calls \<open>transact\<close> again and
  goes on with the exception that gives.\<close>

datatype 'a script =
    Done 'a
  | Raise store_error
  | Call store_op clock_reading "store_error + store_reply \<Rightarrow> 'a script"
  | Nest "store_error \<Rightarrow> 'a script"

primrec runScript :: "codec \<Rightarrow> 'a script \<Rightarrow> 'a store_method" where
  "runScript cd (Done a) = returnS a"
| "runScript cd (Raise e) = throwS e"
| "runScript cd (Call operation clock continue) =
     (\<lambda>s. case performOp cd operation clock s of (outcome, t) \<Rightarrow> runScript cd (continue outcome) t)"
| "runScript cd (Nest continue) = runScript cd (continue (PersistenceError NESTED_TRANSACTION))"

record adapter =
  ap_state :: memory_state
  ap_closed :: bool

definition createMemoryPersistenceAdapter :: adapter where
  "createMemoryPersistenceAdapter = \<lparr>ap_state = emptyState, ap_closed = False\<rparr>"

text \<open>The mutex runs the transactions one after the other. The snapshot is the state at the start: every stored
  record is immutable, so the copied maps share nothing that an operation changes.\<close>

definition transact :: "codec \<Rightarrow> 'a script \<Rightarrow> (adapter, store_error, 'a) action" where
  "transact cd work =
     bindS (checkS (\<lambda>ap. requireE (\<not> ap_closed ap) (PersistenceError ADAPTER_CLOSED))) (\<lambda>_ ap.
     let snapshot = ap_state ap in
     (case runScript cd work snapshot of
        (Inr result, state) \<Rightarrow> (Inr result, ap\<lparr>ap_state := state\<rparr>)
      | (Inl e, state) \<Rightarrow> (Inl e, ap\<lparr>ap_state := snapshot\<rparr>)))"

text \<open>An operation of a context whose transaction has completed.\<close>

definition performOpCompleted :: "store_op \<Rightarrow> clock_reading \<Rightarrow> store_reply store_method" where
  "performOpCompleted operation clock = throwS (PersistenceError TRANSACTION_COMPLETED)"

definition closeAdapter :: "(adapter, store_error, unit) action" where
  "closeAdapter = modifyS (\<lambda>ap. ap\<lparr>ap_closed := True\<rparr>)"

section \<open>Fault injection\<close>

definition corruptText :: "string \<Rightarrow> string" where "corruptText text = text @ '' ''"

definition corruptWith :: "(memory_state \<Rightarrow> memory_state option) \<Rightarrow> (adapter, store_error, unit) action" where
  "corruptWith mutate ap =
     (if ap_closed ap then (Inl (PersistenceError ADAPTER_CLOSED), ap)
      else (case mutate (ap_state ap) of
          None \<Rightarrow> (Inl (PersistenceError NOT_FOUND), ap)
        | Some s \<Rightarrow> (Inr (), ap\<lparr>ap_state := s\<rparr>)))"

definition corruptAggregatePayload :: "aggregate_type \<Rightarrow> string \<Rightarrow> (adapter, store_error, unit) action" where
  "corruptAggregatePayload t i = corruptWith (\<lambda>s. case findAggregate s t i of None \<Rightarrow> None
     | Some a \<Rightarrow> Some (s\<lparr>ms_aggregates :=
         replaceBy aggregateKey (a\<lparr>sa_payloadText := corruptText (sa_payloadText a)\<rparr>) (ms_aggregates s)\<rparr>))"

definition corruptEventPayload :: "string \<Rightarrow> (adapter, store_error, unit) action" where
  "corruptEventPayload i = corruptWith (\<lambda>s. case List.find (\<lambda>e. se_eventId e = i) (ms_events s) of None \<Rightarrow> None
     | Some e \<Rightarrow> Some (s\<lparr>ms_events :=
         replaceBy se_eventId (e\<lparr>se_payloadText := corruptText (se_payloadText e)\<rparr>) (ms_events s)\<rparr>))"

definition corruptOutboxPayload :: "string \<Rightarrow> (adapter, store_error, unit) action" where
  "corruptOutboxPayload i = corruptWith (\<lambda>s. case List.find (\<lambda>m. om_messageId m = i) (ms_outbox s) of None \<Rightarrow> None
     | Some m \<Rightarrow> Some (storeMessage (m\<lparr>om_payloadText := corruptText (om_payloadText m)\<rparr>) s))"

definition corruptArtifactPayload :: "string \<Rightarrow> (adapter, store_error, unit) action" where
  "corruptArtifactPayload i = corruptWith (\<lambda>s. case List.find (\<lambda>a. st_id a = i) (ms_artifacts s) of None \<Rightarrow> None
     | Some a \<Rightarrow> Some (s\<lparr>ms_artifacts :=
         replaceBy st_id (a\<lparr>st_payloadText := corruptText (st_payloadText a)\<rparr>) (ms_artifacts s)\<rparr>))"

end
