(* ===== verification/Store_Laws.thy ===== *)
theory Store_Laws
  imports Memory_Store Command_Interfaces
begin

text \<open>
  What an operation of the store can do to its state, as a step relation (\<open>store_step\<close>), the invariant of
  the state and its preservation by rule induction. Every operation, also one that throws, performs a
  sequence of these steps (\<open>performOp_steps\<close>); so does every callback.
\<close>

section \<open>Steps\<close>

definition intactText :: "codec \<Rightarrow> string \<Rightarrow> checksum \<Rightarrow> bool" where
  "intactText cd text checksum \<longleftrightarrow> checksum = computeChecksumOfText cd text"

lemma verifyChecksum_Inr [simp]: "verifyChecksum cd text checksum = Inr u \<longleftrightarrow> intactText cd text checksum"
  by (cases checksum) (auto simp: verifyChecksum_def checksumEquals_def intactText_def computeChecksumOfText_def)

lemma verifyChecksum_intact [simp]: "intactText cd text checksum \<Longrightarrow> verifyChecksum cd text checksum = Inr ()"
  by simp

text \<open>The moves of one message. \<open>sameMessage\<close> is the part no move touches.\<close>

definition sameMessage :: "stored_outbox \<Rightarrow> stored_outbox \<Rightarrow> bool" where
  "sameMessage m m' \<longleftrightarrow> om_messageId m' = om_messageId m \<and> om_topic m' = om_topic m \<and>
     om_schemaVersion m' = om_schemaVersion m \<and> om_payloadText m' = om_payloadText m \<and> om_checksum m' = om_checksum m \<and>
     om_idempotencyKey m' = om_idempotencyKey m \<and> om_createdAt m' = om_createdAt m \<and>
     om_sequence m' = om_sequence m \<and> om_traceId m' = om_traceId m"

inductive message_move :: "store_op \<times> clock_reading \<Rightarrow> stored_outbox \<Rightarrow> stored_outbox \<Rightarrow> bool" where
  claim: "readNow clock = Inr (now, nowIso) \<Longrightarrow> isClaimable m nowIso \<Longrightarrow>
     message_move (ClaimMessages raw, clock) m (applyClaim m owner expiresAt)"
| acknowledge: "parsePersistedId (fld raw ''messageId'') = Inr (om_messageId m) \<Longrightarrow>
     applyAcknowledge m (fld raw ''owner'') nowIso = Inr (True, m') \<Longrightarrow> message_move (AcknowledgeMessage raw, clock) m m'"
| retry: "parsePersistedId (fld raw ''messageId'') = Inr (om_messageId m) \<Longrightarrow>
     applyScheduleRetry m (fld raw ''owner'') retryAt failureCategory = Inr m' \<Longrightarrow> message_move (ScheduleRetryMessage raw, clock) m m'"
| dead_letter: "parsePersistedId (fld raw ''messageId'') = Inr (om_messageId m) \<Longrightarrow>
     applyDeadLetter m (fld raw ''owner'') failureCategory nowIso = Inr m' \<Longrightarrow> message_move (DeadLetterMessage raw, clock) m m'"

inductive_cases message_moveE: "message_move (operation, clock) m m'"

definition messageOk :: "stored_outbox \<Rightarrow> bool" where
  "messageOk m \<longleftrightarrow>
     (om_status m = LeasedMessage \<longleftrightarrow> om_leaseOwner m \<noteq> None) \<and> (om_leaseOwner m = None \<longleftrightarrow> om_leaseExpiresAt m = None) \<and>
     (om_status m = AcknowledgedMessage \<longleftrightarrow> om_acknowledgedAt m \<noteq> None) \<and>
     (om_status m = DeadLetteredMessage \<longleftrightarrow> om_deadLetteredAt m \<noteq> None) \<and>
     0 \<le> om_attemptCount m \<and> (om_status m \<noteq> PendingMessage \<longrightarrow> 1 \<le> om_attemptCount m) \<and>
     (om_status m = DeadLetteredMessage \<longrightarrow> om_lastFailureCategory m \<noteq> None)"

abbreviation terminalMessage :: "stored_outbox \<Rightarrow> bool" where
  "terminalMessage m \<equiv> om_status m = AcknowledgedMessage \<or> om_status m = DeadLetteredMessage"

lemma isClaimable_status: "isClaimable m nowIso \<Longrightarrow> om_status m = PendingMessage \<or> om_status m = LeasedMessage"
  by (auto simp: isClaimable_def split: if_splits)

lemma requireLeasedByOwner_Inr [simp]:
  "requireLeasedByOwner m owner = Inr u \<longleftrightarrow> om_status m = LeasedMessage \<and> om_leaseOwner m = Some owner"
  by (auto simp: requireLeasedByOwner_def)

text \<open>What the transitions of a leased message do.\<close>

lemma applyAcknowledge_Inr:
  assumes "applyAcknowledge m owner nowIso = Inr (changed, m')"
  shows "if changed then om_status m = LeasedMessage \<and> (\<exists>o'. parsePersistedId owner = Inr o' \<and> om_leaseOwner m = Some o') \<and>
      m' = m\<lparr>om_status := AcknowledgedMessage, om_acknowledgedAt := Some nowIso, om_leaseOwner := None, om_leaseExpiresAt := None\<rparr>
    else om_status m = AcknowledgedMessage \<and> m' = m"
  using assms unfolding applyAcknowledge_def bindE_Inr_iff liftD_Inr_iff if_Inl_Inr
  by (auto simp: bindE_Inr_iff split: if_split_asm)

lemma applyScheduleRetry_Inr:
  assumes "applyScheduleRetry m owner retryAt failureCategory = Inr m'"
  shows "om_status m = LeasedMessage \<and> (\<exists>o'. parsePersistedId owner = Inr o' \<and> om_leaseOwner m = Some o') \<and>
    (\<exists>at category. m' = m\<lparr>om_status := PendingMessage, om_availableAt := at, om_leaseOwner := None, om_leaseExpiresAt := None,
      om_lastFailureCategory := category\<rparr>)"
  using assms unfolding applyScheduleRetry_def bindE_Inr_iff liftD_Inr_iff by auto

lemma applyDeadLetter_Inr:
  assumes "applyDeadLetter m owner failureCategory nowIso = Inr m'"
  shows "om_status m = LeasedMessage \<and> (\<exists>o'. parsePersistedId owner = Inr o' \<and> om_leaseOwner m = Some o') \<and>
    (\<exists>category. m' = m\<lparr>om_status := DeadLetteredMessage, om_deadLetteredAt := Some nowIso, om_leaseOwner := None,
      om_leaseExpiresAt := None, om_lastFailureCategory := Some category\<rparr>)"
  using assms unfolding applyDeadLetter_def bindE_Inr_iff liftD_Inr_iff by auto

lemmas transition_results = applyAcknowledge_Inr applyScheduleRetry_Inr applyDeadLetter_Inr

lemma message_move_frame: "message_move call m m' \<Longrightarrow> sameMessage m m'"
  by (induction rule: message_move.induct) (auto simp: sameMessage_def applyClaim_def dest!: transition_results)

lemma message_move_from: "message_move call m m' \<Longrightarrow> \<not> terminalMessage m"
  by (induction rule: message_move.induct) (auto dest!: isClaimable_status transition_results)

lemma message_move_ok: "message_move call m m' \<Longrightarrow> messageOk m \<Longrightarrow> messageOk m'"
proof (induction rule: message_move.induct)
  case (claim clock now nowIso m raw owner expiresAt)
  then show ?case using isClaimable_status [OF claim(2)] by (auto simp: messageOk_def applyClaim_def)
next
  case (acknowledge raw m nowIso m' clock)
  then show ?case using applyAcknowledge_Inr [OF acknowledge(2)] by (auto simp: messageOk_def)
next
  case (retry raw m retryAt failureCategory m' clock)
  then show ?case using applyScheduleRetry_Inr [OF retry(2)] by (auto simp: messageOk_def)
next
  case (dead_letter raw m failureCategory nowIso m' clock)
  then show ?case using applyDeadLetter_Inr [OF dead_letter(2)] by (auto simp: messageOk_def)
qed

definition freshMessage :: "memory_state \<Rightarrow> stored_outbox \<Rightarrow> bool" where
  "freshMessage s m \<longleftrightarrow> om_messageId m \<notin> om_messageId ` set (ms_outbox s) \<and>
     om_idempotencyKey m \<notin> fst ` set (ms_idempotencyKeys s) \<and> om_sequence m = ms_outboxSequence s + 1 \<and>
     om_status m = PendingMessage \<and> messageOk m"

inductive store_step :: "codec \<Rightarrow> store_op \<times> clock_reading \<Rightarrow> memory_state \<Rightarrow> memory_state \<Rightarrow> bool" for cd call where
  create: "findAggregate s (sa_type a) (sa_id a) = None \<Longrightarrow> sa_version a = 1 \<Longrightarrow> intactText cd (sa_payloadText a) (sa_checksum a) \<Longrightarrow>
     store_step cd call s (s\<lparr>ms_aggregates := ms_aggregates s @ [a]\<rparr>)"
| update: "findAggregate s (sa_type a) (sa_id a) = Some b \<Longrightarrow> sa_version a = sa_version b + 1 \<Longrightarrow> sa_createdAt a = sa_createdAt b \<Longrightarrow>
     intactText cd (sa_payloadText a) (sa_checksum a) \<Longrightarrow>
     store_step cd call s (s\<lparr>ms_aggregates := replaceBy aggregateKey a (ms_aggregates s)\<rparr>)"
| number: "store_step cd call s (s\<lparr>ms_eventSequence := ms_eventSequence s + 1\<rparr>)"
| append: "se_eventId e \<notin> se_eventId ` set (ms_events s) \<Longrightarrow> se_globalSequence e = ms_eventSequence s + 1 \<Longrightarrow>
     intactText cd (se_payloadText e) (se_checksum e) \<Longrightarrow>
     store_step cd call s (s\<lparr>ms_eventSequence := ms_eventSequence s + 1, ms_events := ms_events s @ [e]\<rparr>)"
| enqueue: "freshMessage s m \<Longrightarrow> intactText cd (om_payloadText m) (om_checksum m) \<Longrightarrow>
     store_step cd call s (s\<lparr>ms_outboxSequence := ms_outboxSequence s + 1, ms_outbox := ms_outbox s @ [m],
       ms_idempotencyKeys := ms_idempotencyKeys s @ [(om_idempotencyKey m, om_messageId m)]\<rparr>)"
| move: "m \<in> set (ms_outbox s) \<Longrightarrow> message_move call m m' \<Longrightarrow> store_step cd call s (storeMessage m' s)"
| put_descriptor: "st_id a \<notin> st_id ` set (ms_artifacts s) \<Longrightarrow> intactText cd (st_payloadText a) (st_checksum a) \<Longrightarrow>
     store_step cd call s (s\<lparr>ms_artifacts := ms_artifacts s @ [a]\<rparr>)"
| put_manifest: "st_id a \<notin> st_id ` set (ms_manifests s) \<Longrightarrow> intactText cd (st_payloadText a) (st_checksum a) \<Longrightarrow>
     store_step cd call s (s\<lparr>ms_manifests := ms_manifests s @ [a]\<rparr>)"

section \<open>The invariant\<close>

definition numbered :: "('a \<Rightarrow> int) \<Rightarrow> int \<Rightarrow> 'a list \<Rightarrow> bool" where
  "numbered number n xs \<longleftrightarrow> sorted_wrt (\<lambda>x y. number x < number y) xs \<and> (\<forall>x \<in> set xs. 1 \<le> number x \<and> number x \<le> n)"

definition storeInv :: "memory_state \<Rightarrow> bool" where
  "storeInv s \<longleftrightarrow>
     distinct (map aggregateKey (ms_aggregates s)) \<and> (\<forall>a \<in> set (ms_aggregates s). 1 \<le> sa_version a) \<and>
     distinct (map se_eventId (ms_events s)) \<and> 0 \<le> ms_eventSequence s \<and>
     numbered se_globalSequence (ms_eventSequence s) (ms_events s) \<and>
     distinct (map om_messageId (ms_outbox s)) \<and> 0 \<le> ms_outboxSequence s \<and>
     numbered om_sequence (ms_outboxSequence s) (ms_outbox s) \<and> list_all messageOk (ms_outbox s) \<and>
     ms_idempotencyKeys s = map (\<lambda>m. (om_idempotencyKey m, om_messageId m)) (ms_outbox s) \<and>
     distinct (map om_idempotencyKey (ms_outbox s)) \<and>
     distinct (map st_id (ms_artifacts s)) \<and> distinct (map st_id (ms_manifests s))"

definition intact :: "codec \<Rightarrow> memory_state \<Rightarrow> bool" where
  "intact cd s \<longleftrightarrow>
     (\<forall>a \<in> set (ms_aggregates s). intactText cd (sa_payloadText a) (sa_checksum a)) \<and>
     (\<forall>e \<in> set (ms_events s). intactText cd (se_payloadText e) (se_checksum e)) \<and>
     (\<forall>m \<in> set (ms_outbox s). intactText cd (om_payloadText m) (om_checksum m)) \<and>
     (\<forall>a \<in> set (ms_artifacts s) \<union> set (ms_manifests s). intactText cd (st_payloadText a) (st_checksum a))"

lemma storeInv_empty: "storeInv emptyState" "intact cd emptyState"
  by (simp_all add: storeInv_def intact_def emptyState_def numbered_def)

lemma numbered_snoc: "numbered f n xs \<Longrightarrow> f x = n + 1 \<Longrightarrow> 0 \<le> n \<Longrightarrow> numbered f (n + 1) (xs @ [x])"
  by (fastforce simp: numbered_def sorted_wrt_append)

lemma numbered_mono: "numbered f n xs \<Longrightarrow> n \<le> m \<Longrightarrow> numbered f m xs"
  by (force simp: numbered_def)

lemma numbered_map: "numbered f n xs \<longleftrightarrow> sorted_wrt (<) (map f xs) \<and> (\<forall>i \<in> set (map f xs). 1 \<le> i \<and> i \<le> n)"
  by (simp add: numbered_def sorted_wrt_map)

lemma numbered_sort: "numbered f n xs \<Longrightarrow> sort_key f xs = xs"
  by (intro sort_key_id_if_sorted) (auto simp: numbered_map intro: strict_sorted_imp_sorted)

text \<open>A field that a replacement keeps.\<close>

lemma replaceBy_map:
  "(\<And>x. x \<in> set xs \<Longrightarrow> f x = f y \<Longrightarrow> g x = g y) \<Longrightarrow> map g (replaceBy f y xs) = map g xs"
  by (auto simp: replaceBy_def)

lemma storeInv_messages:
  assumes "storeInv s" and "m \<in> set (ms_outbox s)" and "x \<in> set (ms_outbox s)" and "om_messageId x = om_messageId m"
  shows "x = m"
  using assms distinct_map_inj_on_eq [of om_messageId "ms_outbox s"] by (simp add: storeInv_def)

lemma storeMessage_inv:
  assumes inv: "storeInv s" and m: "m \<in> set (ms_outbox s)" and ok: "messageOk m'"
    and same: "om_messageId m' = om_messageId m" "om_sequence m' = om_sequence m" "om_idempotencyKey m' = om_idempotencyKey m"
  shows "storeInv (storeMessage m' s)"
proof -
  let ?xs = "replaceBy om_messageId m' (ms_outbox s)"
  have keep: "map g ?xs = map g (ms_outbox s)" if "g m' = g m" for g :: "stored_outbox \<Rightarrow> 'a"
    by (rule replaceBy_map) (use that storeInv_messages [OF inv m] same in auto)
  have g: "map om_sequence ?xs = map om_sequence (ms_outbox s)" "map om_idempotencyKey ?xs = map om_idempotencyKey (ms_outbox s)"
    "map (\<lambda>m. (om_idempotencyKey m, om_messageId m)) ?xs = map (\<lambda>m. (om_idempotencyKey m, om_messageId m)) (ms_outbox s)"
    using same by (auto intro!: keep)
  have "list_all messageOk ?xs"
    using inv ok by (auto simp: storeInv_def list_all_iff replaceBy_set)
  then show ?thesis
    using inv g by (simp add: storeInv_def storeMessage_def numbered_map)
qed

lemma findAggregate_iff:
  "distinct (map aggregateKey (ms_aggregates s)) \<Longrightarrow>
     findAggregate s t i = Some a \<longleftrightarrow> a \<in> set (ms_aggregates s) \<and> sa_type a = t \<and> sa_id a = i"
  unfolding findAggregate_def by (subst find_Some_iff_distinct) (auto simp: aggregateKey_def)

lemma findAggregate_None: "findAggregate s t i = None \<longleftrightarrow> (t, i) \<notin> aggregateKey ` set (ms_aggregates s)"
  unfolding findAggregate_def by (rule find_None_iff_key)

lemma store_step_inv: "store_step cd call s t \<Longrightarrow> storeInv s \<Longrightarrow> storeInv t"
proof (induction rule: store_step.induct)
  case (create s a)
  then show ?case by (auto simp: storeInv_def findAggregate_None aggregateKey_def)
next
  case (update s a b)
  then have "b \<in> set (ms_aggregates s)" by (simp add: findAggregate_iff storeInv_def)
  then have "1 \<le> sa_version a" using update by (auto simp: storeInv_def)
  then show ?case using update by (auto simp: storeInv_def replaceBy_set)
next
  case (number s)
  then show ?case by (auto simp: storeInv_def intro: numbered_mono)
next
  case (append e s)
  then show ?case by (auto simp: storeInv_def intro: numbered_snoc)
next
  case (enqueue s m)
  then have "om_idempotencyKey m \<notin> om_idempotencyKey ` set (ms_outbox s)"
    by (force simp: storeInv_def freshMessage_def)
  then show ?case using enqueue by (auto simp: storeInv_def freshMessage_def intro: numbered_snoc)
next
  case (move m s m')
  then show ?case
    using message_move_frame [OF move(2)] message_move_ok [OF move(2)]
    by (intro storeMessage_inv) (auto simp: sameMessage_def storeInv_def list_all_iff)
next
  case (put_descriptor a s)
  then show ?case by (auto simp: storeInv_def)
next
  case (put_manifest a s)
  then show ?case by (auto simp: storeInv_def)
qed

lemma store_step_intact: "store_step cd call s t \<Longrightarrow> intact cd s \<Longrightarrow> intact cd t"
proof (induction rule: store_step.induct)
  case (move m s m')
  then have "intactText cd (om_payloadText m') (om_checksum m')"
    using message_move_frame [OF move(2)] by (auto simp: intact_def sameMessage_def)
  then show ?case using move by (auto simp: intact_def storeMessage_def replaceBy_set)
qed (auto simp: intact_def replaceBy_set)

abbreviation store_steps :: "codec \<Rightarrow> store_op \<times> clock_reading \<Rightarrow> memory_state \<Rightarrow> memory_state \<Rightarrow> bool" where
  "store_steps cd call \<equiv> (store_step cd call)\<^sup>*\<^sup>*"

lemma store_steps_inv: "store_steps cd call s t \<Longrightarrow> storeInv s \<Longrightarrow> storeInv t"
  by (induction rule: rtranclp_induct) (auto intro: store_step_inv)

lemma store_steps_intact: "store_steps cd call s t \<Longrightarrow> intact cd s \<Longrightarrow> intact cd t"
  by (induction rule: rtranclp_induct) (auto intro: store_step_intact)

section \<open>Every operation performs steps\<close>

text \<open>\<open>stepping cd call s m\<close>: from \<open>s\<close> the method ends in a state that steps lead to, whatever its outcome.\<close>

definition stepping :: "codec \<Rightarrow> store_op \<times> clock_reading \<Rightarrow> memory_state \<Rightarrow> 'a store_method \<Rightarrow> bool" where
  "stepping cd call s m \<longleftrightarrow> store_steps cd call s (snd (m s))"

lemma stepping_query: "queryAt m s \<Longrightarrow> stepping cd call s m"
  by (simp add: stepping_def queryAt_def)

lemma stepping_bind:
  assumes "queryAt m s" and "\<And>a. m s = (Inr a, s) \<Longrightarrow> stepping cd call s (f a)"
  shows "stepping cd call s (bindS m f)"
  using assms by (cases "m s"; cases "fst (m s)") (auto simp: stepping_def queryAt_def)

lemma queryAt_bind: "queryAt m s \<Longrightarrow> (\<And>a. m s = (Inr a, s) \<Longrightarrow> queryAt (f a) s) \<Longrightarrow> queryAt (bindS m f) s"
  by (cases "m s"; cases "fst (m s)") (auto simp: queryAt_def)

lemma stepping_modify:
  assumes "store_step cd call s (h s)" and "\<And>u. queryAt (f u) (h s)"
  shows "stepping cd call s (bindS (modifyS h) f)"
  using assms by (auto simp: stepping_def queryAt_def)

lemma stepping_mapS [simp]: "stepping cd call s (mapS f m) \<longleftrightarrow> stepping cd call s m"
  by (cases "m s"; cases "fst (m s)") (auto simp: stepping_def mapS_def)

lemma preparePayload_intact: "preparePayload cd v = Inr (text, checksum) \<Longrightarrow> intactText cd text checksum"
  by (auto simp: preparePayload_def canonicalizeWithChecksum_def bindE_Inr_iff intactText_def split: if_splits)

lemma validateCreate_intact:
  "validateCreateAggregateInput cd raw = Inr input \<Longrightarrow> intactText cd (aw_payloadText input) (aw_checksum input)"
  by (auto simp: validateCreateAggregateInput_def bindE_Inr_iff dest: preparePayload_intact)

lemma stepping_prod: "(\<And>x y. p = (x, y) \<Longrightarrow> stepping cd call s (f x y)) \<Longrightarrow> stepping cd call s (case p of (x, y) \<Rightarrow> f x y)"
  by (cases p) simp

lemma stepping_if:
  "(c \<Longrightarrow> stepping cd call s m) \<Longrightarrow> (\<not> c \<Longrightarrow> stepping cd call s n) \<Longrightarrow> stepping cd call s (if c then m else n)"
  by simp

lemma stepping_option:
  "(x = None \<Longrightarrow> stepping cd call s m) \<Longrightarrow> (\<And>y. x = Some y \<Longrightarrow> stepping cd call s (f y)) \<Longrightarrow>
     stepping cd call s (case x of None \<Rightarrow> m | Some y \<Rightarrow> f y)"
  by (cases x) simp_all

lemma stepping_throw [simp]: "stepping cd call s (throwS e)" "stepping cd call s (returnS a)" "stepping cd call s (liftS r)"
  by (simp_all add: stepping_query)

lemma queryAt_requireMessage [simp, intro]: "queryAt (requireMessage i) s"
  by (simp add: requireMessage_def)

text \<open>Reading the arguments and the state; a \<open>modifyS\<close> is left to the specific rules.\<close>

lemmas stepping_reads = stepping_bind [OF queryAt_prims(3)] stepping_bind [OF queryAt_prims(4)]
  stepping_bind [OF queryAt_requireMessage]

lemmas stepping_rules = stepping_reads stepping_prod stepping_if stepping_option

lemma createAggregate_steps: "stepping cd call s (createAggregate cd raw clock)"
  unfolding createAggregate_def Let_def
  by (intro stepping_rules stepping_modify)
    (auto intro!: store_step.create dest: validateCreate_intact)

lemma validateUpdate_intact:
  "validateUpdateAggregateInput cd raw = Inr (input, v) \<Longrightarrow> intactText cd (aw_payloadText input) (aw_checksum input)"
  by (auto simp: validateUpdateAggregateInput_def bindE_Inr_iff dest: validateCreate_intact)

lemma validateAppend_intact:
  "validateAppendEventInput cd raw = Inr input \<Longrightarrow> intactText cd (ea_payloadText input) (ea_checksum input)"
  by (auto simp: validateAppendEventInput_def bindE_Inr_iff dest: preparePayload_intact)

lemma validateEnqueue_intact:
  "validateEnqueueOutboxInput cd raw = Inr input \<Longrightarrow> intactText cd (oe_payloadText input) (oe_checksum input)"
  by (auto simp: validateEnqueueOutboxInput_def bindE_Inr_iff dest: preparePayload_intact)

lemma updateAggregate_steps:
  assumes "storeInv s"
  shows "stepping cd call s (updateAggregate cd raw clock)"
proof -
  have d: "distinct (map aggregateKey (ms_aggregates s))" using assms by (simp add: storeInv_def)
  show ?thesis
    unfolding updateAggregate_def Let_def
    by (intro stepping_rules stepping_modify)
      (auto simp: findAggregate_iff [OF d] intro!: store_step.update dest: validateUpdate_intact)
qed

lemma appendEvent_steps: "stepping cd call s (appendEvent cd raw clock)"
  unfolding appendEvent_def
proof (intro stepping_rules)
  fix input known
  assume valid: "liftS (liftD (validateAppendEventInput cd raw)) s = (Inr input, s)"
    and known: "readS (\<lambda>s. ea_eventId input \<in> se_eventId ` set (ms_events s)) s = (Inr known, s)" "\<not> known"
  let ?e = "\<lambda>nowIso. \<lparr>se_eventId = ea_eventId input, se_type = ea_type input, se_id = ea_id input,
         se_version = ea_version input, se_eventType = ea_eventType input, se_schemaVersion = ea_schemaVersion input,
         se_payloadText = ea_payloadText input, se_checksum = ea_checksum input, se_occurredAt = ea_occurredAt input,
         se_recordedAt = nowIso, se_globalSequence = ms_eventSequence s + 1, se_traceId = ea_traceId input,
         se_causationId = ea_causationId input\<rparr>"
  have "store_step cd call s (s\<lparr>ms_eventSequence := ms_eventSequence s + 1, ms_events := ms_events s @ [?e nowIso]\<rparr>)" for nowIso
    by (rule store_step.append) (use valid known validateAppend_intact in auto)
  moreover note store_step.number [of cd call s]
  ultimately show "stepping cd call s
    (bindS (modifyS (\<lambda>s. s\<lparr>ms_eventSequence := ms_eventSequence s + 1\<rparr>)) (\<lambda>_.
     bindS (liftS (readNow clock)) (\<lambda>(_, nowIso).
     bindS (readS (\<lambda>s. \<lparr>se_eventId = ea_eventId input, se_type = ea_type input, se_id = ea_id input,
         se_version = ea_version input, se_eventType = ea_eventType input, se_schemaVersion = ea_schemaVersion input,
         se_payloadText = ea_payloadText input, se_checksum = ea_checksum input, se_occurredAt = ea_occurredAt input,
         se_recordedAt = nowIso, se_globalSequence = ms_eventSequence s, se_traceId = ea_traceId input,
         se_causationId = ea_causationId input\<rparr>)) (\<lambda>stored.
     bindS (modifyS (\<lambda>s. s\<lparr>ms_events := ms_events s @ [stored]\<rparr>)) (\<lambda>_.
     liftS (toEventRecord cd stored))))))"
    by (cases "readNow clock") (auto simp: stepping_def)
qed auto

lemma enqueueMessage_steps: "stepping cd call s (enqueueMessage cd raw clock)"
  unfolding enqueueMessage_def
proof (intro stepping_rules)
  fix input known used p now nowIso
  assume valid: "liftS (liftD (validateEnqueueOutboxInput cd raw)) s = (Inr input, s)"
    and known: "readS (\<lambda>s. oe_messageId input \<in> om_messageId ` set (ms_outbox s)) s = (Inr known, s)" "\<not> known"
    and used: "readS (\<lambda>s. oe_idempotencyKey input \<in> fst ` set (ms_idempotencyKeys s)) s = (Inr used, s)" "\<not> used"
  let ?m = "\<lparr>om_messageId = oe_messageId input, om_topic = oe_topic input,
         om_schemaVersion = oe_schemaVersion input, om_payloadText = oe_payloadText input,
         om_checksum = oe_checksum input, om_idempotencyKey = oe_idempotencyKey input, om_status = PendingMessage,
         om_attemptCount = 0, om_createdAt = nowIso,
         om_availableAt = (case oe_availableAt input of None \<Rightarrow> nowIso | Some availableAt \<Rightarrow> availableAt),
         om_leaseOwner = None, om_leaseExpiresAt = None, om_acknowledgedAt = None, om_deadLetteredAt = None,
         om_lastFailureCategory = None, om_sequence = ms_outboxSequence s + 1, om_traceId = oe_traceId input\<rparr>"
  have fresh: "freshMessage s ?m" using known used by (auto simp: freshMessage_def messageOk_def)
  have ok: "intactText cd (om_payloadText ?m) (om_checksum ?m)" using valid validateEnqueue_intact by auto
  show "stepping cd call s
    (bindS (modifyS (\<lambda>s. s\<lparr>ms_outboxSequence := ms_outboxSequence s + 1\<rparr>)) (\<lambda>_.
     bindS (readS (\<lambda>s. \<lparr>om_messageId = oe_messageId input, om_topic = oe_topic input,
         om_schemaVersion = oe_schemaVersion input, om_payloadText = oe_payloadText input,
         om_checksum = oe_checksum input, om_idempotencyKey = oe_idempotencyKey input, om_status = PendingMessage,
         om_attemptCount = 0, om_createdAt = nowIso,
         om_availableAt = (case oe_availableAt input of None \<Rightarrow> nowIso | Some availableAt \<Rightarrow> availableAt),
         om_leaseOwner = None, om_leaseExpiresAt = None, om_acknowledgedAt = None, om_deadLetteredAt = None,
         om_lastFailureCategory = None, om_sequence = ms_outboxSequence s, om_traceId = oe_traceId input\<rparr>)) (\<lambda>stored.
     bindS (modifyS (\<lambda>s. s\<lparr>ms_outbox := ms_outbox s @ [stored]\<rparr>)) (\<lambda>_.
     bindS (modifyS (\<lambda>s. s\<lparr>ms_idempotencyKeys :=
         ms_idempotencyKeys s @ [(oe_idempotencyKey input, oe_messageId input)]\<rparr>)) (\<lambda>_.
     liftS (toOutboxMessage cd stored))))))"
    using store_step.enqueue [where call = call, OF fresh ok] by (auto simp: stepping_def)
qed auto

text \<open>The loop of \<open>claim\<close> works on a copy; every message is still as it was when its turn comes.\<close>

lemma claimLoop_steps:
  assumes "readNow clock = Inr (now, nowIso)" and "\<forall>m \<in> set ms. m \<in> set (ms_outbox s)" and "distinct (map om_messageId ms)"
  shows "stepping cd (ClaimMessages raw, clock) s (claimLoop cd input nowIso expiresAt ms claimed)"
  using assms(2,3)
proof (induction ms arbitrary: s claimed)
  case Nil
  then show ?case by (simp add: stepping_def)
next
  case (Cons m ms)
  let ?l = "applyClaim m (oc_owner input) expiresAt"
  have step: "store_step cd (ClaimMessages raw, clock) s (storeMessage ?l s)" if "isClaimable m nowIso"
    by (rule store_step.move) (use that Cons.prems assms(1) in \<open>auto intro: message_move.claim\<close>)
  have "stepping cd (ClaimMessages raw, clock) (storeMessage ?l s) (claimLoop cd input nowIso expiresAt ms c)" for c
  proof (rule Cons.IH)
    have "om_messageId ?l = om_messageId m" by (simp add: applyClaim_def)
    moreover have "om_messageId x \<noteq> om_messageId m" if "x \<in> set ms" for x
      using Cons.prems(2) that by (metis distinct.simps(2) image_eqI list.set_map list.simps(9))
    ultimately show "\<forall>x \<in> set ms. x \<in> set (ms_outbox (storeMessage ?l s))"
      using Cons.prems(1) by (simp add: storeMessage_def replaceBy_set)
  qed (use Cons.prems in simp)
  then have "stepping cd (ClaimMessages raw, clock) s (bindS (modifyS (storeMessage ?l)) (\<lambda>_. bindS (liftS (toOutboxMessage cd ?l)) (\<lambda>message.
      claimLoop cd input nowIso expiresAt ms (claimed @ [message]))))" if "isClaimable m nowIso"
    using step [OF that] by (cases "toOutboxMessage cd ?l") (auto simp: stepping_def intro: converse_rtranclp_into_rtranclp)
  then show ?case using Cons by (simp add: Let_def)
qed

lemma claimMessages_steps:
  assumes "storeInv s"
  shows "stepping cd (ClaimMessages raw, clock) s (claimMessages cd raw clock)"
proof -
  have "distinct (map om_messageId (sort_key om_sequence (ms_outbox s)))"
    using assms by (auto simp: storeInv_def dest: numbered_sort)
  then show ?thesis
    unfolding claimMessages_def
    by (intro stepping_rules) (auto intro!: claimLoop_steps)
qed

lemma requireMessage_Inr [simp]: "requireMessage i s = (Inr m, u) \<longleftrightarrow> u = s \<and> List.find (\<lambda>m. om_messageId m = i) (ms_outbox s) = Some m"
  by (auto simp: requireMessage_def split: option.splits)

lemma find_message: "List.find (\<lambda>m. om_messageId m = i) (ms_outbox s) = Some m \<Longrightarrow> m \<in> set (ms_outbox s) \<and> om_messageId m = i"
  by (auto simp: find_Some_iff)

lemma stepping_move:
  "m \<in> set (ms_outbox s) \<Longrightarrow> message_move call m m' \<Longrightarrow>
     stepping cd call s (bindS (modifyS (storeMessage m')) (\<lambda>_. liftS r))"
  by (intro stepping_modify store_step.move) auto

lemma acknowledgeMessage_steps: "stepping cd (AcknowledgeMessage raw, clock) s (acknowledgeMessage cd raw clock)"
  unfolding acknowledgeMessage_def
proof (intro stepping_rules)
  fix messageId stored p now nowIso q changed message
  assume "liftS (liftD (parsePersistedId (fld raw ''messageId''))) s = (Inr messageId, s)"
    and "requireMessage messageId s = (Inr stored, s)"
    and r: "liftS (applyAcknowledge stored (fld raw ''owner'') nowIso) s = (Inr q, s)" "q = (changed, message)"
  then have "stored \<in> set (ms_outbox s)" "parsePersistedId (fld raw ''messageId'') = Inr (om_messageId stored)"
    using find_message by fastforce+
  then show "stepping cd (AcknowledgeMessage raw, clock) s (bindS (if changed then modifyS (storeMessage message) else returnS ()) (\<lambda>_.
      liftS (toOutboxMessage cd message)))"
    using r by (cases changed) (auto intro!: stepping_move message_move.acknowledge stepping_bind [OF queryAt_prims(1)])
qed

lemma scheduleRetryMessage_steps: "stepping cd (ScheduleRetryMessage raw, clock) s (scheduleRetryMessage cd raw)"
  unfolding scheduleRetryMessage_def
  by (intro stepping_rules stepping_move) (auto intro: message_move.retry dest: find_message)

lemma deadLetterMessage_steps: "stepping cd (DeadLetterMessage raw, clock) s (deadLetterMessage cd raw clock)"
  unfolding deadLetterMessage_def
  by (intro stepping_rules stepping_move) (auto intro: message_move.dead_letter dest: find_message)

lemma putDescriptor_steps: "stepping cd call s (putDescriptor cd raw)"
  unfolding putDescriptor_def
  by (intro stepping_rules stepping_modify store_step.put_descriptor) (auto dest: preparePayload_intact)

lemma putManifest_steps: "stepping cd call s (putManifest cd raw)"
  unfolding putManifest_def
  by (intro stepping_rules stepping_modify store_step.put_manifest) (auto dest: preparePayload_intact)

lemma stepping_queries:
  "stepping cd call s (getAggregate cd t i)" "stepping cd call s (listAggregates cd query)"
  "stepping cd call s (listEvents cd query)" "stepping cd call s (getMessage cd i)"
  "stepping cd call s (listMessages cd query)" "stepping cd call s (getDescriptor cd i)"
  "stepping cd call s (listDescriptors cd query)" "stepping cd call s (getManifest cd i)"
  unfolding getAggregate_def listAggregates_def listEvents_def getMessage_def listMessages_def getDescriptor_def
    listDescriptors_def getManifest_def
  by (intro stepping_rules; simp)+

theorem performOp_steps: "storeInv s \<Longrightarrow> store_steps cd (operation, clock) s (snd (performOp cd operation clock s))"
  unfolding stepping_def [symmetric]
  by (cases operation) (simp_all add: createAggregate_steps updateAggregate_steps appendEvent_steps enqueueMessage_steps
      claimMessages_steps acknowledgeMessage_steps scheduleRetryMessage_steps deadLetterMessage_steps putDescriptor_steps
      putManifest_steps stepping_queries)

end
