(* ===== verification/Store_Props.thy ===== *)
theory Store_Props
  imports Store_Laws
begin

text \<open>
  What any history of the store keeps (\<open>extends\<close>), the commands of the adapter, and the interpretations of
  the shared contracts: the adapter keeps its invariant and its transactions are atomic
  (\<open>guarded_object\<close>), each aggregate is versioned (\<open>versioned_object\<close>), and a message that is
  acknowledged or dead-lettered is final (\<open>item_lifecycle\<close>).
\<close>

section \<open>Histories\<close>

definition findMessage :: "memory_state \<Rightarrow> string \<Rightarrow> stored_outbox option" where
  "findMessage s i = List.find (\<lambda>m. om_messageId m = i) (ms_outbox s)"

text \<open>The version of an aggregate; 0 before it is created.\<close>

definition versionOf :: "aggregate_type \<times> string \<Rightarrow> memory_state \<Rightarrow> int" where
  "versionOf k s = (case findAggregate s (fst k) (snd k) of None \<Rightarrow> 0 | Some a \<Rightarrow> sa_version a)"

text \<open>A message that was enqueued before is still there, with the data it was enqueued with, and is as it was
  when it was final.\<close>

definition keepsMessage :: "stored_outbox \<Rightarrow> stored_outbox \<Rightarrow> bool" where
  "keepsMessage m m' \<longleftrightarrow> sameMessage m m' \<and> (terminalMessage m \<longrightarrow> m' = m)"

text \<open>An aggregate that was created before is still there; at the same version it is the same record.\<close>

definition keepsAggregate :: "stored_aggregate \<Rightarrow> stored_aggregate \<Rightarrow> bool" where
  "keepsAggregate a b \<longleftrightarrow> sa_createdAt b = sa_createdAt a \<and> sa_version a \<le> sa_version b \<and> (sa_version b = sa_version a \<longrightarrow> b = a)"

definition keepsAggregates :: "memory_state \<Rightarrow> memory_state \<Rightarrow> bool" where
  "keepsAggregates s t \<longleftrightarrow>
     (\<forall>ty i a. findAggregate s ty i = Some a \<longrightarrow> (\<exists>b. findAggregate t ty i = Some b \<and> keepsAggregate a b))"

definition keepsMessages :: "stored_outbox list \<Rightarrow> stored_outbox list \<Rightarrow> bool" where
  "keepsMessages xs ys \<longleftrightarrow> (\<exists>ms ms'. ys = ms @ ms' \<and> list_all2 keepsMessage xs ms)"

definition extends :: "memory_state \<Rightarrow> memory_state \<Rightarrow> bool" where
  "extends s t \<longleftrightarrow>
     ms_eventSequence s \<le> ms_eventSequence t \<and>
     (\<exists>es. ms_events t = ms_events s @ es \<and> (\<forall>e \<in> set es. ms_eventSequence s < se_globalSequence e)) \<and>
     (\<forall>k. versionOf k s \<le> versionOf k t) \<and> keepsAggregates s t \<and>
     keepsMessages (ms_outbox s) (ms_outbox t) \<and>
     (\<exists>as. ms_artifacts t = ms_artifacts s @ as) \<and> (\<exists>as. ms_manifests t = ms_manifests s @ as)"

lemma keepsMessage_refl [simp]: "keepsMessage m m"
  by (simp add: keepsMessage_def sameMessage_def)

lemma keepsMessage_trans: "keepsMessage a b \<Longrightarrow> keepsMessage b c \<Longrightarrow> keepsMessage a c"
  by (auto simp: keepsMessage_def sameMessage_def)

lemma keepsMessages_append [simp]: "keepsMessages ms (ms @ ms')"
  unfolding keepsMessages_def using list_all2_refl [of keepsMessage ms] by auto

lemma keepsMessages_refl [simp]: "keepsMessages ms ms"
  using keepsMessages_append [of ms "[]"] by simp

lemma keepsAggregate_trans: "keepsAggregate a b \<Longrightarrow> keepsAggregate b c \<Longrightarrow> keepsAggregate a c"
  by (auto simp: keepsAggregate_def)

lemma keepsAggregates_trans: "keepsAggregates s t \<Longrightarrow> keepsAggregates t u \<Longrightarrow> keepsAggregates s u"
  unfolding keepsAggregates_def using keepsAggregate_trans by blast

lemma keepsAggregates_same: "(\<And>ty i. findAggregate t ty i = findAggregate s ty i) \<Longrightarrow> keepsAggregates s t"
  by (simp add: keepsAggregates_def keepsAggregate_def)

lemma keepsAggregates_frame [simp]:
  "keepsAggregates s s" "keepsAggregates s (s\<lparr>ms_eventSequence := n\<rparr>)"
  "keepsAggregates s (s\<lparr>ms_eventSequence := n, ms_events := es\<rparr>)" "keepsAggregates s (s\<lparr>ms_outbox := ms\<rparr>)"
  "keepsAggregates s (s\<lparr>ms_outbox := ms, ms_idempotencyKeys := ks, ms_outboxSequence := n\<rparr>)"
  "keepsAggregates s (s\<lparr>ms_outboxSequence := n, ms_outbox := ms, ms_idempotencyKeys := ks\<rparr>)"
  "keepsAggregates s (s\<lparr>ms_artifacts := as\<rparr>)" "keepsAggregates s (s\<lparr>ms_manifests := as\<rparr>)"
  by (simp_all add: keepsAggregates_same findAggregate_def)

lemma extends_refl [simp]: "extends s s"
  by (simp add: extends_def)

lemma keepsMessages_trans:
  assumes "keepsMessages s t" and "keepsMessages t u"
  shows "keepsMessages s u"
proof -
  obtain ms ms' ns ns' where t: "t = ms @ ms'" "list_all2 keepsMessage s ms" and u: "u = ns @ ns'" "list_all2 keepsMessage t ns"
    using assms unfolding keepsMessages_def by blast
  obtain n1 n2 where "ns = n1 @ n2" "list_all2 keepsMessage ms n1"
    using t(1) u(2) by (auto simp: list_all2_append1)
  moreover have "list_all2 keepsMessage s n1"
    using list_all2_trans [of keepsMessage keepsMessage keepsMessage] keepsMessage_trans t(2) calculation(2) by blast
  ultimately show ?thesis using u(1) by (auto simp: keepsMessages_def)
qed

lemma extends_trans:
  assumes "extends s t" and "extends t u"
  shows "extends s u"
proof -
  obtain es fs where e: "ms_events t = ms_events s @ es" "\<forall>e \<in> set es. ms_eventSequence s < se_globalSequence e"
    "ms_events u = ms_events t @ fs" "\<forall>e \<in> set fs. ms_eventSequence t < se_globalSequence e"
    using assms unfolding extends_def by blast
  have n: "ms_eventSequence s \<le> ms_eventSequence t" "ms_eventSequence t \<le> ms_eventSequence u"
    using assms by (auto simp: extends_def)
  have ev: "ms_events u = ms_events s @ (es @ fs)" "\<forall>e \<in> set (es @ fs). ms_eventSequence s < se_globalSequence e"
    using e n by fastforce+
  have v: "versionOf k s \<le> versionOf k u" for k
    using assms unfolding extends_def by (meson order_trans)
  have a: "keepsAggregates s u" using assms keepsAggregates_trans unfolding extends_def by blast
  have m: "keepsMessages (ms_outbox s) (ms_outbox u)"
    using assms keepsMessages_trans unfolding extends_def by blast
  have "\<exists>as. ms_artifacts u = ms_artifacts s @ as" "\<exists>as. ms_manifests u = ms_manifests s @ as"
    using assms unfolding extends_def by auto
  with ev v a m n show ?thesis unfolding extends_def by (meson order_trans)
qed

lemma find_snoc: "List.find P (xs @ [x]) = (case List.find P xs of None \<Rightarrow> if P x then Some x else None | Some y \<Rightarrow> Some y)"
  by (induction xs) auto

lemma versionOf_create:
  "findAggregate s (sa_type a) (sa_id a) = None \<Longrightarrow> sa_version a = 1 \<Longrightarrow>
     versionOf k (s\<lparr>ms_aggregates := ms_aggregates s @ [a]\<rparr>) = (if k = aggregateKey a then 1 else versionOf k s)"
  by (cases k) (auto simp: versionOf_def findAggregate_def find_snoc aggregateKey_def split: option.splits)

lemma versionOf_update:
  assumes "findAggregate s (sa_type a) (sa_id a) = Some b"
  shows "versionOf k (s\<lparr>ms_aggregates := replaceBy aggregateKey a (ms_aggregates s)\<rparr>) =
    (if k = aggregateKey a then sa_version a else versionOf k s)"
proof -
  have "aggregateKey a \<in> aggregateKey ` set (ms_aggregates s)"
    using assms findAggregate_None [of s "sa_type a" "sa_id a"] by (simp add: aggregateKey_def [of a])
  then show ?thesis
    by (simp add: versionOf_def findAggregate_def find_replaceBy)
qed

lemma versionOf_frame [simp]:
  "versionOf k (s\<lparr>ms_eventSequence := n\<rparr>) = versionOf k s" "versionOf k (s\<lparr>ms_events := es\<rparr>) = versionOf k s"
  "versionOf k (s\<lparr>ms_outbox := ms\<rparr>) = versionOf k s" "versionOf k (s\<lparr>ms_outboxSequence := n\<rparr>) = versionOf k s"
  "versionOf k (s\<lparr>ms_idempotencyKeys := ks\<rparr>) = versionOf k s" "versionOf k (s\<lparr>ms_artifacts := as\<rparr>) = versionOf k s"
  "versionOf k (s\<lparr>ms_manifests := as\<rparr>) = versionOf k s"
  by (simp_all add: versionOf_def findAggregate_def)

lemma extends_aggregates:
  "(\<And>k. versionOf k s \<le> versionOf k (s\<lparr>ms_aggregates := as\<rparr>)) \<Longrightarrow> keepsAggregates s (s\<lparr>ms_aggregates := as\<rparr>) \<Longrightarrow> extends s (s\<lparr>ms_aggregates := as\<rparr>)"
  by (simp add: extends_def)

lemma extends_move:
  assumes "storeInv s" "m \<in> set (ms_outbox s)" "keepsMessage m m'"
  shows "extends s (storeMessage m' s)"
proof -
  have "list_all2 keepsMessage (ms_outbox s) (replaceBy om_messageId m' (ms_outbox s))"
    unfolding replaceBy_def list_all2_map2
    by (rule list.rel_refl_strong)
      (use assms storeInv_messages [OF assms(1,2)] in \<open>auto simp: keepsMessage_def sameMessage_def\<close>)
  then have "keepsMessages (ms_outbox s) (replaceBy om_messageId m' (ms_outbox s))"
    unfolding keepsMessages_def by (metis append_Nil2)
  then show ?thesis by (simp add: extends_def storeMessage_def)
qed

lemma store_step_extends: "store_step cd call s t \<Longrightarrow> storeInv s \<Longrightarrow> extends s t"
proof (induction rule: store_step.induct)
  case (create s a)
  have "versionOf (aggregateKey a) s = 0" using create(1) by (simp add: versionOf_def aggregateKey_def)
  moreover have "keepsAggregates s (s\<lparr>ms_aggregates := ms_aggregates s @ [a]\<rparr>)"
    by (auto simp: keepsAggregates_def keepsAggregate_def findAggregate_def find_snoc split: option.splits)
  ultimately show ?case
    using versionOf_create [OF create(1,2)] by (intro extends_aggregates) auto
next
  case (update s a b)
  have "versionOf (aggregateKey a) s = sa_version b" using update(1) by (simp add: versionOf_def aggregateKey_def)
  moreover have "keepsAggregates s (s\<lparr>ms_aggregates := replaceBy aggregateKey a (ms_aggregates s)\<rparr>)"
    unfolding keepsAggregates_def keepsAggregate_def
  proof (intro allI impI)
    fix ty i c
    assume c: "findAggregate s ty i = Some c"
    then have "(ty, i) \<in> aggregateKey ` set (ms_aggregates s)" using findAggregate_None [of s ty i] by simp
    moreover have "c = b" if "(ty, i) = aggregateKey a" using c update(1) that by (simp add: aggregateKey_def)
    ultimately show "\<exists>d. findAggregate (s\<lparr>ms_aggregates := replaceBy aggregateKey a (ms_aggregates s)\<rparr>) ty i = Some d \<and>
        sa_createdAt d = sa_createdAt c \<and> sa_version c \<le> sa_version d \<and> (sa_version d = sa_version c \<longrightarrow> d = c)"
      using c update(2,3) by (auto simp: findAggregate_def find_replaceBy)
  qed
  ultimately show ?case using versionOf_update [OF update(1)] update(2) by (intro extends_aggregates) auto
next
  case (number s)
  show ?case by (simp add: extends_def)
next
  case (append e s)
  then show ?case by (simp add: extends_def)
next
  case (enqueue s m)
  then show ?case by (simp add: extends_def)
next
  case (move m s m')
  then have "keepsMessage m m'"
    using message_move_frame message_move_from by (auto simp: keepsMessage_def)
  then show ?case using move extends_move by blast
next
  case (put_descriptor a s)
  show ?case by (simp add: extends_def)
next
  case (put_manifest a s)
  show ?case by (simp add: extends_def)
qed

lemma store_steps_extends: "store_steps cd call s t \<Longrightarrow> storeInv s \<Longrightarrow> extends s t"
proof (induction rule: rtranclp_induct)
  case base
  show ?case by simp
next
  case (step t u)
  then show ?case using store_step_extends store_steps_inv extends_trans by blast
qed

lemma performOp_result:
  assumes "storeInv s"
  shows "storeInv (snd (performOp cd operation clock s))" and "extends s (snd (performOp cd operation clock s))"
    and "intact cd s \<Longrightarrow> intact cd (snd (performOp cd operation clock s))"
  using performOp_steps [OF assms] store_steps_inv store_steps_extends store_steps_intact assms by blast+

section \<open>Callbacks and commands of the adapter\<close>

lemma runScript_result:
  "storeInv s \<Longrightarrow> storeInv (snd (runScript cd work s)) \<and> extends s (snd (runScript cd work s)) \<and>
     (intact cd s \<longrightarrow> intact cd (snd (runScript cd work s)))"
proof (induction work arbitrary: s)
  case (Call operation clock continue)
  obtain r t where op: "performOp cd operation clock s = (r, t)" by fastforce
  then have "storeInv t" "extends s t" "intact cd s \<longrightarrow> intact cd t"
    using performOp_result [OF Call.prems, of cd operation clock] by auto
  then show ?case using Call.IH [of "continue r" t] extends_trans by (auto simp: op)
qed auto

datatype 'a adapter_command =
    Transact "'a script"
  | CloseAdapter
  | CorruptAggregate aggregate_type string
  | CorruptEvent string
  | CorruptOutbox string
  | CorruptArtifact string

fun runAdapter :: "codec \<Rightarrow> 'a adapter_command \<Rightarrow> unit \<Rightarrow> (adapter, store_error, 'a option) action" where
  "runAdapter cd (Transact work) _ = mapS Some (transact cd work)"
| "runAdapter cd CloseAdapter _ = mapS (\<lambda>_. None) closeAdapter"
| "runAdapter cd (CorruptAggregate t i) _ = mapS (\<lambda>_. None) (corruptAggregatePayload t i)"
| "runAdapter cd (CorruptEvent i) _ = mapS (\<lambda>_. None) (corruptEventPayload i)"
| "runAdapter cd (CorruptOutbox i) _ = mapS (\<lambda>_. None) (corruptOutboxPayload i)"
| "runAdapter cd (CorruptArtifact i) _ = mapS (\<lambda>_. None) (corruptArtifactPayload i)"

abbreviation adapterInv :: "adapter \<Rightarrow> bool" where
  "adapterInv ap \<equiv> storeInv (ap_state ap)"

lemma snd_mapS [simp]: "snd (mapS f m s) = snd (m s)"
  by (cases "m s"; cases "fst (m s)") (auto simp: mapS_def)

lemma fst_mapS_Inl [simp]: "fst (mapS f m s) = Inl e \<longleftrightarrow> fst (m s) = Inl e"
  by (cases "m s"; cases "fst (m s)") (auto simp: mapS_def)

lemma transact_run:
  "transact cd work ap =
     (if ap_closed ap then (Inl (PersistenceError ADAPTER_CLOSED), ap)
      else case runScript cd work (ap_state ap) of
        (Inr result, t) \<Rightarrow> (Inr result, ap\<lparr>ap_state := t\<rparr>) | (Inl e, t) \<Rightarrow> (Inl e, ap))"
proof (cases "ap_closed ap")
  case False
  then have "requireE (\<not> ap_closed ap) (PersistenceError ADAPTER_CLOSED) = Inr ()" by simp
  then show ?thesis using False
    by (cases "runScript cd work (ap_state ap)"; cases "fst (runScript cd work (ap_state ap))")
      (simp_all add: transact_def bindS_def Let_def)
qed (simp add: transact_def)

lemma transact_atomic: "fst (transact cd work ap) = Inl e \<Longrightarrow> snd (transact cd work ap) = ap"
  by (auto simp: transact_run split: sum.splits prod.splits if_splits)

lemma transact_state:
  "ap_state (snd (transact cd work ap)) = ap_state ap \<or>
     ap_state (snd (transact cd work ap)) = snd (runScript cd work (ap_state ap))"
  by (auto simp: transact_run split: sum.splits prod.splits)

lemma transact_result:
  assumes "adapterInv ap"
  shows "adapterInv (snd (transact cd work ap))" and "extends (ap_state ap) (ap_state (snd (transact cd work ap)))"
  using transact_state [of cd work ap] runScript_result [OF assms] assms by (metis, metis extends_refl)

lemma corruptWith_result:
  assumes "\<And>t. mutate (ap_state ap) = Some t \<Longrightarrow> storeInv t" and "adapterInv ap"
  shows "adapterInv (snd (corruptWith mutate ap))" and "fst (corruptWith mutate ap) = Inl e \<Longrightarrow> snd (corruptWith mutate ap) = ap"
  using assms by (auto simp: corruptWith_def split: option.splits)

lemma storeInv_aggregates:
  "storeInv s \<Longrightarrow> a \<in> set (ms_aggregates s) \<Longrightarrow> sa_version b = sa_version a \<Longrightarrow>
     storeInv (s\<lparr>ms_aggregates := replaceBy aggregateKey b (ms_aggregates s)\<rparr>)"
  by (auto simp: storeInv_def replaceBy_set)

lemma storeInv_events:
  assumes "storeInv s" "e \<in> set (ms_events s)" "se_eventId f = se_eventId e" "se_globalSequence f = se_globalSequence e"
  shows "storeInv (s\<lparr>ms_events := replaceBy se_eventId f (ms_events s)\<rparr>)"
proof -
  have "map se_globalSequence (replaceBy se_eventId f (ms_events s)) = map se_globalSequence (ms_events s)"
    using assms distinct_map_inj_on_eq [of se_eventId "ms_events s"] by (intro replaceBy_map) (auto simp: storeInv_def)
  then show ?thesis using assms(1) by (simp add: storeInv_def numbered_map)
qed

lemma storeInv_artifacts: "storeInv s \<Longrightarrow> storeInv (s\<lparr>ms_artifacts := replaceBy st_id b (ms_artifacts s)\<rparr>)"
  by (simp add: storeInv_def)

lemma find_member: "List.find P xs = Some x \<Longrightarrow> x \<in> set xs \<and> P x"
  by (auto simp: find_Some_iff)

lemma runAdapter_inv:
  assumes "adapterInv ap"
  shows "adapterInv (snd (runAdapter cd c u ap))"
proof (cases c)
  case (Transact work)
  then show ?thesis using transact_result(1) [OF assms] by simp
next
  case CloseAdapter
  then show ?thesis using assms by (simp add: closeAdapter_def)
next
  case (CorruptAggregate t i)
  have "distinct (map aggregateKey (ms_aggregates (ap_state ap)))" using assms by (simp add: storeInv_def)
  then show ?thesis
    using CorruptAggregate assms
    by (auto simp: corruptAggregatePayload_def findAggregate_iff intro!: corruptWith_result storeInv_aggregates split: option.splits)
next
  case (CorruptEvent i)
  then show ?thesis
    using assms
    by (auto simp: corruptEventPayload_def intro!: corruptWith_result dest!: find_member split: option.splits)
      (erule storeInv_events [OF assms]; simp)
next
  case (CorruptOutbox i)
  have "messageOk (m\<lparr>om_payloadText := x\<rparr>)" if "m \<in> set (ms_outbox (ap_state ap))" for m x
    using that assms by (auto simp: storeInv_def list_all_iff messageOk_def)
  then show ?thesis
    using CorruptOutbox assms
    by (auto simp: corruptOutboxPayload_def intro!: corruptWith_result storeMessage_inv dest!: find_message split: option.splits)
next
  case (CorruptArtifact i)
  then show ?thesis
    using assms by (auto simp: corruptArtifactPayload_def intro!: corruptWith_result storeInv_artifacts split: option.splits)
qed

lemma runAdapter_atomic: "fst (runAdapter cd c u ap) = Inl e \<Longrightarrow> snd (runAdapter cd c u ap) = ap"
proof (cases c)
  case (Transact work)
  then show "fst (runAdapter cd c u ap) = Inl e \<Longrightarrow> ?thesis" using transact_atomic by simp
qed (auto simp: closeAdapter_def corruptAggregatePayload_def corruptEventPayload_def corruptOutboxPayload_def
    corruptArtifactPayload_def corruptWith_def split: option.splits if_splits)

interpretation adapter: guarded_object "runAdapter cd" adapterInv for cd
  by unfold_locales (auto simp: runAdapter_inv runAdapter_atomic)

lemma reachable_adapter: "adapterInv (executeAll (runAdapter cd) cs createMemoryPersistenceAdapter)"
  by (rule adapter.executeAll_inv) (simp add: createMemoryPersistenceAdapter_def storeInv_empty)

section \<open>Transactions only\<close>

abbreviation runTransact :: "codec \<Rightarrow> 'a script \<Rightarrow> unit \<Rightarrow> (adapter, store_error, 'a) action" where
  "runTransact cd work _ \<equiv> transact cd work"

lemma keepsMessages_find:
  assumes "keepsMessages xs ys" and "List.find (\<lambda>m. om_messageId m = i) xs = Some m"
  shows "\<exists>m'. List.find (\<lambda>m. om_messageId m = i) ys = Some m' \<and> keepsMessage m m'"
proof -
  obtain ms ms' where ys: "ys = ms @ ms'" and keep: "list_all2 keepsMessage xs ms"
    using assms(1) by (auto simp: keepsMessages_def)
  have "\<exists>m'. List.find (\<lambda>m. om_messageId m = i) (ms @ ms') = Some m' \<and> keepsMessage m m'"
    using keep assms(2)
  proof (induction rule: list_all2_induct)
    case (Cons x xs y ys)
    then show ?case by (auto simp: keepsMessage_def sameMessage_def split: if_splits)
  qed simp
  then show ?thesis by (simp add: ys)
qed

lemma transact_final:
  assumes "adapterInv ap" and "findMessage (ap_state ap) i = Some m" and "terminalMessage m"
  shows "findMessage (ap_state (snd (transact cd work ap))) i = Some m"
  using transact_result(2) [OF assms(1), of cd work] assms(2,3) keepsMessages_find
  unfolding extends_def findMessage_def keepsMessage_def by metis

interpretation messages: item_lifecycle "runTransact cd" adapterInv "\<lambda>ap. findMessage (ap_state ap)" terminalMessage for cd
  by unfold_locales (auto simp: transact_result(1) transact_atomic transact_final)

lemma transacts_extend: "adapterInv ap \<Longrightarrow> extends (ap_state ap) (ap_state (executeAll (runTransact cd) ws ap))"
proof (induction ws arbitrary: ap)
  case (Cons w ws)
  then show ?case
    using transact_result [OF Cons.prems] extends_trans by (cases w) fastforce
qed simp

lemma transacts_intact: "adapterInv ap \<Longrightarrow> intact cd (ap_state ap) \<Longrightarrow> intact cd (ap_state (executeAll (runTransact cd) ws ap))"
proof (induction ws arbitrary: ap)
  case (Cons w ws)
  have "intact cd (ap_state (snd (transact cd (fst w) ap)))"
    using transact_state [of cd "fst w" ap] runScript_result Cons.prems by metis
  then show ?case
    using Cons.IH [OF transact_result(1) [OF Cons.prems(1)]] by (cases w) simp
qed simp

end
