(* ===== verification/Store_Contracts.thy ===== *)
theory Store_Contracts
  imports Store_Props
begin

text \<open>
  The contracts of the single stores: optimistic concurrency of aggregates, leases of outbox messages, what
  \<open>claim\<close> selects, and the pages of a listing.
\<close>

section \<open>Optimistic concurrency\<close>

text \<open>A transaction of one operation that passes its outcome on.\<close>

definition singleTx :: "codec \<Rightarrow> store_op \<Rightarrow> clock_reading \<Rightarrow> (adapter, store_error, store_reply) action" where
  "singleTx cd operation clock = transact cd (Call operation clock (\<lambda>r. case r of Inl e \<Rightarrow> Raise e | Inr a \<Rightarrow> Done a))"

lemma singleTx_run:
  "singleTx cd operation clock ap =
     (if ap_closed ap then (Inl (PersistenceError ADAPTER_CLOSED), ap)
      else case performOp cd operation clock (ap_state ap) of
        (Inr a, t) \<Rightarrow> (Inr a, ap\<lparr>ap_state := t\<rparr>) | (Inl e, t) \<Rightarrow> (Inl e, ap))"
  by (auto simp: singleTx_def transact_run split: sum.splits prod.splits)

lemma singleTx_Inr:
  "fst (singleTx cd operation clock ap) = Inr a \<Longrightarrow>
     \<exists>t. performOp cd operation clock (ap_state ap) = (Inr a, t) \<and> snd (singleTx cd operation clock ap) = ap\<lparr>ap_state := t\<rparr>"
  by (auto simp: singleTx_run split: sum.splits prod.splits if_splits)

text \<open>The version of the aggregate \<open>k\<close> an operation is written against: creation expects none.\<close>

fun expectedFor :: "codec \<Rightarrow> aggregate_type \<times> string \<Rightarrow> store_op \<Rightarrow> int option" where
  "expectedFor cd k (CreateAggregate raw) =
     (case validateCreateAggregateInput cd raw of
        Inl _ \<Rightarrow> None | Inr input \<Rightarrow> if (aw_type input, aw_id input) = k then Some 0 else None)"
| "expectedFor cd k (UpdateAggregate raw) =
     (case validateUpdateAggregateInput cd raw of
        Inl _ \<Rightarrow> None | Inr (input, v) \<Rightarrow> if (aw_type input, aw_id input) = k then Some v else None)"
| "expectedFor cd k _ = None"

lemma createAggregate_Inr:
  assumes "createAggregate cd raw clock s = (Inr r, t)"
  shows "\<exists>input a. validateCreateAggregateInput cd raw = Inr input \<and> findAggregate s (aw_type input) (aw_id input) = None \<and>
    aggregateKey a = (aw_type input, aw_id input) \<and> sa_version a = 1 \<and> toEnvelope cd a = Inr r \<and>
    ms_aggregates t = ms_aggregates s @ [a] \<and> t = s\<lparr>ms_aggregates := ms_aggregates t\<rparr>"
  using assms unfolding createAggregate_def
  by (auto simp: bindS_Inr_iff Let_def aggregateKey_def split: if_splits prod.splits)

lemma updateAggregate_Inr:
  assumes "updateAggregate cd raw clock s = (Inr r, t)"
  shows "\<exists>input v a b. validateUpdateAggregateInput cd raw = Inr (input, v) \<and>
    findAggregate s (aw_type input) (aw_id input) = Some b \<and> sa_version b = v \<and>
    sa_version a = v + 1 \<and> aggregateKey a = aggregateKey b \<and> sa_payloadText a = aw_payloadText input \<and>
    sa_checksum a = aw_checksum input \<and> toEnvelope cd a = Inr r \<and> t = s\<lparr>ms_aggregates := replaceBy aggregateKey a (ms_aggregates s)\<rparr>"
proof -
  obtain input v b now nowIso where r: "validateUpdateAggregateInput cd raw = Inr (input, v)"
    "findAggregate s (aw_type input) (aw_id input) = Some b" "sa_version b = v"
    and a: "let a = b\<lparr>sa_schemaVersion := aw_schemaVersion input, sa_version := v + 1, sa_payloadText := aw_payloadText input,
        sa_checksum := aw_checksum input, sa_updatedAt := nowIso, sa_traceId := aw_traceId input\<rparr>
      in toEnvelope cd a = Inr r \<and> t = s\<lparr>ms_aggregates := replaceBy aggregateKey a (ms_aggregates s)\<rparr>"
    using assms unfolding updateAggregate_def by (auto simp: bindS_Inr_iff Let_def split: if_splits prod.splits option.splits)
  show ?thesis
    by (rule exI [of _ input], rule exI [of _ v], rule exI, rule exI [of _ b])
      (use r a in \<open>unfold Let_def, elim conjE, intro conjI; (assumption | simp add: aggregateKey_def)\<close>)
qed

lemma mapS_Inr_iff: "mapS f m s = (Inr b, t) \<longleftrightarrow> (\<exists>a. m s = (Inr a, t) \<and> b = f a)"
  by (auto simp: mapS_def bindS_Inr_iff)

lemma performOp_versioned:
  assumes inv: "storeInv s" and run: "performOp cd operation clock s = (Inr r, t)" and k: "expectedFor cd k operation = Some v"
  shows "v = versionOf k s \<and> versionOf k t = v + 1"
proof (cases operation)
  case (CreateAggregate raw)
  then obtain r' where "createAggregate cd raw clock s = (Inr r', t)" using run by (auto simp: mapS_Inr_iff)
  from createAggregate_Inr [OF this] obtain input a where a: "validateCreateAggregateInput cd raw = Inr input"
    "findAggregate s (aw_type input) (aw_id input) = None" "aggregateKey a = (aw_type input, aw_id input)" "sa_version a = 1"
    and t: "ms_aggregates t = ms_aggregates s @ [a]" "t = s\<lparr>ms_aggregates := ms_aggregates t\<rparr>" by blast
  then have "v = 0" "k = aggregateKey a" using k CreateAggregate by (auto split: if_splits)
  moreover have "versionOf k t = (if k = aggregateKey a then 1 else versionOf k s)"
    by (subst t(2), unfold t(1), rule versionOf_create) (use a in \<open>simp_all add: aggregateKey_def\<close>)
  ultimately show ?thesis using a by (simp add: versionOf_def)
next
  case (UpdateAggregate raw)
  then obtain r' where "updateAggregate cd raw clock s = (Inr r', t)" using run by (auto simp: mapS_Inr_iff)
  from updateAggregate_Inr [OF this] obtain input v' a b where a: "validateUpdateAggregateInput cd raw = Inr (input, v')"
    "findAggregate s (aw_type input) (aw_id input) = Some b" "sa_version b = v'" "sa_version a = v' + 1"
    "aggregateKey a = aggregateKey b" and t: "t = s\<lparr>ms_aggregates := replaceBy aggregateKey a (ms_aggregates s)\<rparr>" by blast
  have "v' = v" and k: "k = (aw_type input, aw_id input)" using k UpdateAggregate a by (auto split: if_splits)
  moreover have "aggregateKey b = (aw_type input, aw_id input)"
    using a(2) inv findAggregate_iff [of s] by (simp add: storeInv_def aggregateKey_def)
  ultimately show ?thesis using a t versionOf_update [of s a b k] by (simp add: aggregateKey_def versionOf_def)
qed (use k in simp_all)

lemma singleTx_result:
  assumes "adapterInv ap"
  shows "adapterInv (snd (singleTx cd operation clock ap))" and "versionOf k (ap_state ap) \<le> versionOf k (ap_state (snd (singleTx cd operation clock ap)))"
  using transact_result [OF assms] unfolding singleTx_def extends_def by blast+

lemma singleTx_atomic: "fst (singleTx cd operation clock ap) = Inl e \<Longrightarrow> snd (singleTx cd operation clock ap) = ap"
  unfolding singleTx_def by (rule transact_atomic)

interpretation aggregates: versioned_object "singleTx cd" adapterInv "\<lambda>ap. versionOf k (ap_state ap)"
  "\<lambda>operation _ _. expectedFor cd k operation \<noteq> None" "expectedFor cd k" "\<lambda>_. True" for cd k
proof unfold_locales
  fix ap operation clock
  show "adapterInv ap \<Longrightarrow> adapterInv (snd (singleTx cd operation clock ap))" by (rule singleTx_result(1))
  show "fst (singleTx cd operation clock ap) = Inl e \<Longrightarrow> snd (singleTx cd operation clock ap) = ap" for e by (rule singleTx_atomic)
  show "adapterInv ap \<Longrightarrow> versionOf k (ap_state ap) \<le> versionOf k (ap_state (snd (singleTx cd operation clock ap)))"
    by (rule singleTx_result(2))
  show "versionOf k (ap_state (snd (singleTx cd operation clock ap))) = versionOf k (ap_state ap) + 1"
    if "adapterInv ap" "fst (singleTx cd operation clock ap) = Inr a" "expectedFor cd k operation \<noteq> None" for a
    using that performOp_versioned [OF that(1)] by (fastforce dest!: singleTx_Inr)
  show "\<not> isOk (fst (singleTx cd operation clock ap))"
    if "adapterInv ap" "expectedFor cd k operation = Some v" "v \<noteq> versionOf k (ap_state ap)" for v
    unfolding isOk_iff using that performOp_versioned [OF that(1)] singleTx_Inr by blast
qed

section \<open>Leases\<close>

text \<open>The operations by which the holder of a lease on a message settles it.\<close>

fun settles :: "store_op \<Rightarrow> string \<Rightarrow> string \<Rightarrow> bool" where
  "settles (AcknowledgeMessage raw) i owner \<longleftrightarrow>
     parsePersistedId (fld raw ''messageId'') = Inr i \<and> parsePersistedId (fld raw ''owner'') = Inr owner"
| "settles (ScheduleRetryMessage raw) i owner \<longleftrightarrow>
     parsePersistedId (fld raw ''messageId'') = Inr i \<and> parsePersistedId (fld raw ''owner'') = Inr owner"
| "settles (DeadLetterMessage raw) i owner \<longleftrightarrow>
     parsePersistedId (fld raw ''messageId'') = Inr i \<and> parsePersistedId (fld raw ''owner'') = Inr owner"
| "settles _ i owner \<longleftrightarrow> False"

text \<open>A call by which the holder does not settle the message, before the lease expires.\<close>

definition outsideLease :: "stored_outbox \<Rightarrow> store_op \<times> clock_reading \<Rightarrow> bool" where
  "outsideLease m call \<longleftrightarrow>
     \<not> settles (fst call) (om_messageId m) (the (om_leaseOwner m)) \<and>
     (case readNow (snd call) of Inl _ \<Rightarrow> True | Inr (_, nowIso) \<Rightarrow> strLess nowIso (the (om_leaseExpiresAt m)))"

primrec callsAll :: "(store_op \<times> clock_reading \<Rightarrow> bool) \<Rightarrow> 'a script \<Rightarrow> bool" where
  "callsAll P (Done a) \<longleftrightarrow> True"
| "callsAll P (Raise e) \<longleftrightarrow> True"
| "callsAll P (Call operation clock continue) \<longleftrightarrow> P (operation, clock) \<and> (\<forall>r. callsAll P (continue r))"
| "callsAll P (Nest continue) \<longleftrightarrow> callsAll P (continue (PersistenceError NESTED_TRANSACTION))"

definition leased :: "stored_outbox \<Rightarrow> bool" where
  "leased m \<longleftrightarrow> om_status m = LeasedMessage \<and> om_leaseOwner m \<noteq> None \<and> om_leaseExpiresAt m \<noteq> None"

lemma leased_unmoved: "message_move call m m' \<Longrightarrow> leased m \<Longrightarrow> \<not> outsideLease m call"
proof (induction rule: message_move.induct)
  case (claim clock now nowIso m raw owner' expiresAt')
  then show ?case by (auto simp: leased_def outsideLease_def isClaimable_def strLeq_def)
next
  case (acknowledge raw m nowIso m' clock)
  then show ?case using applyAcknowledge_Inr [OF acknowledge(2)] by (auto simp: leased_def outsideLease_def)
next
  case (retry raw m retryAt failureCategory m' clock)
  then show ?case using applyScheduleRetry_Inr [OF retry(2)] by (auto simp: leased_def outsideLease_def)
next
  case (dead_letter raw m failureCategory nowIso m' clock)
  then show ?case using applyDeadLetter_Inr [OF dead_letter(2)] by (auto simp: leased_def outsideLease_def)
qed

lemma store_step_lease:
  "store_step cd call s t \<Longrightarrow> storeInv s \<Longrightarrow> findMessage s i = Some m \<Longrightarrow> leased m \<Longrightarrow>
     outsideLease m call \<Longrightarrow> findMessage t i = Some m"
proof (induction rule: store_step.induct)
  case (enqueue s m')
  then show ?case by (simp add: findMessage_def find_snoc)
next
  case (move m1 s m1')
  have "m1 \<noteq> m" using move leased_unmoved by blast
  moreover have "m \<in> set (ms_outbox s) \<and> om_messageId m = i" using move find_message by (simp add: findMessage_def)
  ultimately have "om_messageId m1 \<noteq> i" using storeInv_messages [OF move(3,1)] by blast
  then show ?case
    using move message_move_frame [OF move(2)] by (simp add: findMessage_def storeMessage_def find_replaceBy sameMessage_def)
qed (simp_all add: findMessage_def)

lemma store_steps_lease:
  "store_steps cd call s t \<Longrightarrow> storeInv s \<Longrightarrow> findMessage s i = Some m \<Longrightarrow> leased m \<Longrightarrow>
     outsideLease m call \<Longrightarrow> findMessage t i = Some m"
  by (induction rule: rtranclp_induct) (auto intro: store_step_lease dest: store_steps_inv)

lemma runScript_lease:
  "storeInv s \<Longrightarrow> findMessage s i = Some m \<Longrightarrow> leased m \<Longrightarrow>
     callsAll (outsideLease m) work \<Longrightarrow> findMessage (snd (runScript cd work s)) i = Some m"
proof (induction work arbitrary: s)
  case (Call operation clock continue)
  obtain r t where op: "performOp cd operation clock s = (r, t)" by fastforce
  have "storeInv t" "findMessage t i = Some m"
    using Call.prems store_steps_lease [OF performOp_steps [of s cd operation clock]] performOp_result(1) [of s cd operation clock]
    by (simp_all add: op)
  then show ?case using Call by (simp add: op)
qed auto

lemma transacts_lease:
  "adapterInv ap \<Longrightarrow> findMessage (ap_state ap) i = Some m \<Longrightarrow> leased m \<Longrightarrow>
     \<forall>(w, u) \<in> set ws. callsAll (outsideLease m) w \<Longrightarrow>
     findMessage (ap_state (executeAll (runTransact cd) ws ap)) i = Some m"
proof (induction ws arbitrary: ap)
  case (Cons w ws)
  have "findMessage (ap_state (snd (transact cd (fst w) ap))) i = Some m"
    using transact_state [of cd "fst w" ap] runScript_lease Cons.prems by (metis case_prodD list.set_intros(1) prod.collapse)
  then show ?case
    using Cons.IH [OF transact_result(1) [OF Cons.prems(1)]] Cons.prems by (cases w) simp
qed simp

end
