(* ===== verification/Store_Queries.thy ===== *)
theory Store_Queries
  imports Store_Contracts
begin

text \<open>
  What the queries of the store return: the messages \<open>claim\<close> selects and the state it leaves, the pages of a
  listing, and the records that reading gives back.
\<close>

section \<open>Claims\<close>

definition readable :: "codec \<Rightarrow> stored_outbox \<Rightarrow> bool" where
  "readable cd m \<longleftrightarrow> isOk (readPayload cd (om_payloadText m) (om_checksum m))"

definition payloadOf :: "codec \<Rightarrow> stored_outbox \<Rightarrow> json" where
  "payloadOf cd m = (case readPayload cd (om_payloadText m) (om_checksum m) of Inl _ \<Rightarrow> JsonNull | Inr j \<Rightarrow> j)"

text \<open>The specification: of the messages that are due, the first ones in the order they were enqueued.\<close>

definition dueMessages :: "memory_state \<Rightarrow> string \<Rightarrow> int \<Rightarrow> stored_outbox list" where
  "dueMessages s nowIso limit = take (nat limit) (filter (\<lambda>m. isClaimable m nowIso) (ms_outbox s))"

definition leaseAll :: "stored_outbox list \<Rightarrow> string \<Rightarrow> string \<Rightarrow> memory_state \<Rightarrow> memory_state" where
  "leaseAll due owner expiresAt s =
     s\<lparr>ms_outbox := map (\<lambda>m. if m \<in> set due then applyClaim m owner expiresAt else m) (ms_outbox s)\<rparr>"

lemma toOutboxMessage_claim: "readable cd m \<Longrightarrow> toOutboxMessage cd (applyClaim m owner expiresAt) = Inr (applyClaim m owner expiresAt, payloadOf cd m)"
  by (auto simp: toOutboxMessage_def applyClaim_def readable_def payloadOf_def isOk_iff)

lemma claimLoop_exact:
  assumes "\<forall>m \<in> set (take (nat (oc_limit input - int (length claimed))) (filter (\<lambda>m. isClaimable m nowIso) ms)). readable cd m"
  defines "due \<equiv> take (nat (oc_limit input - int (length claimed))) (filter (\<lambda>m. isClaimable m nowIso) ms)"
  shows "claimLoop cd input nowIso expiresAt ms claimed s =
    (Inr (claimed @ map (\<lambda>m. (applyClaim m (oc_owner input) expiresAt, payloadOf cd m)) due),
     fold (\<lambda>m. storeMessage (applyClaim m (oc_owner input) expiresAt)) due s)"
  using assms(1) unfolding due_def
proof (induction ms arbitrary: s claimed)
  case (Cons m ms)
  consider (full) "int (length claimed) \<ge> oc_limit input" | (skip) "int (length claimed) < oc_limit input" "\<not> isClaimable m nowIso"
    | (take) "int (length claimed) < oc_limit input" "isClaimable m nowIso" by linarith
  then show ?case
  proof cases
    case take
    define n where "n = nat (oc_limit input - int (length claimed) - 1)"
    have n: "nat (oc_limit input - int (length claimed)) = Suc n" "nat (oc_limit input - (1 + int (length claimed))) = n"
      using take(1) by (simp_all add: n_def algebra_simps)
    have "readable cd m" using Cons.prems take n(1) by simp
    then show ?thesis
      using take Cons.IH [of "claimed @ [(applyClaim m (oc_owner input) expiresAt, payloadOf cd m)]"
          "storeMessage (applyClaim m (oc_owner input) expiresAt) s"] Cons.prems
      by (simp add: n toOutboxMessage_claim Let_def)
  qed (use Cons in simp_all)
qed simp

lemma fold_storeMessage:
  assumes "distinct (map om_messageId due)" and "distinct (map om_messageId (ms_outbox s))" and "set due \<subseteq> set (ms_outbox s)"
  shows "fold (\<lambda>m. storeMessage (applyClaim m owner expiresAt)) due s = leaseAll due owner expiresAt s"
  using assms(1,3)
proof (induction due rule: rev_induct)
  case Nil
  show ?case by (simp add: leaseAll_def)
next
  case (snoc d due)
  let ?l = "\<lambda>m. applyClaim m owner expiresAt"
  have id: "om_messageId (?l m) = om_messageId m" for m by (simp add: applyClaim_def)
  have "replaceBy om_messageId (?l d) (map (\<lambda>m. if m \<in> set due then ?l m else m) (ms_outbox s)) =
      map (\<lambda>m. if m \<in> set (due @ [d]) then ?l m else m) (ms_outbox s)"
    unfolding replaceBy_def map_map
  proof (rule map_cong [OF refl])
    fix m
    assume "m \<in> set (ms_outbox s)"
    then have "om_messageId m = om_messageId d \<longleftrightarrow> m = d"
      using assms(2) snoc.prems(2) distinct_map_inj_on_eq by fastforce
    moreover have "d \<notin> set due" using snoc.prems(1) by auto
    ultimately show "((\<lambda>x. if om_messageId x = om_messageId (?l d) then ?l d else x) \<circ> (\<lambda>m. if m \<in> set due then ?l m else m)) m =
        (if m \<in> set (due @ [d]) then ?l m else m)"
      by (auto simp: id)
  qed
  then show ?case using snoc by (simp add: leaseAll_def storeMessage_def)
qed

theorem claimMessages_exact:
  assumes "storeInv s" and "validateClaimOutboxInput raw = Inr input" and "readNow clock = Inr (now, nowIso)"
    and "leaseExpiry now (oc_leaseDurationMs input) = Inr expiresAt"
    and "\<forall>m \<in> set (dueMessages s nowIso (oc_limit input)). readable cd m"
  shows "claimMessages cd raw clock s =
    (Inr (map (\<lambda>m. (applyClaim m (oc_owner input) expiresAt, payloadOf cd m)) (dueMessages s nowIso (oc_limit input))),
     leaseAll (dueMessages s nowIso (oc_limit input)) (oc_owner input) expiresAt s)"
proof -
  have sorted: "sort_key om_sequence (ms_outbox s) = ms_outbox s" and d: "distinct (map om_messageId (ms_outbox s))"
    using assms(1) numbered_sort by (auto simp: storeInv_def)
  let ?due = "dueMessages s nowIso (oc_limit input)"
  have "set ?due \<subseteq> set (ms_outbox s)" using set_take_subset by (fastforce simp: dueMessages_def)
  moreover have "distinct (map om_messageId ?due)"
    using d by (simp add: dueMessages_def distinct_map_filter flip: take_map)
  ultimately have "fold (\<lambda>m. storeMessage (applyClaim m (oc_owner input) expiresAt)) ?due s = leaseAll ?due (oc_owner input) expiresAt s"
    using fold_storeMessage d by blast
  then show ?thesis
    using assms claimLoop_exact [of input "[]" nowIso "ms_outbox s" cd expiresAt s]
    by (simp add: claimMessages_def sorted dueMessages_def)
qed

text \<open>When the first message that is due is corrupted, no claim succeeds.\<close>

lemma claimLoop_corrupted:
  assumes "filter (\<lambda>m. isClaimable m nowIso) ms = m # rest" and "int (length claimed) < oc_limit input"
    and "\<not> intactText cd (om_payloadText m) (om_checksum m)"
  shows "fst (claimLoop cd input nowIso expiresAt ms claimed s) = Inl (PersistenceError CORRUPTION_DETECTED)"
  using assms(1)
proof (induction ms)
  case (Cons x ms)
  have "readPayload cd (om_payloadText m) (om_checksum m) = Inl (PersistenceError CORRUPTION_DETECTED)"
    using assms(3) by (cases "om_checksum m")
      (auto simp: readPayload_def verifyChecksum_def intactText_def checksumEquals_def computeChecksumOfText_def)
  then have "toOutboxMessage cd (applyClaim m (oc_owner input) expiresAt) = Inl (PersistenceError CORRUPTION_DETECTED)"
    by (simp add: toOutboxMessage_def applyClaim_def)
  then show ?case using Cons assms(2) by (auto simp: Let_def split: if_splits)
qed simp

lemma claimMessages_corrupted:
  assumes "storeInv s" and "validateClaimOutboxInput raw = Inr input" and "readNow clock = Inr (now, nowIso)"
    and "leaseExpiry now (oc_leaseDurationMs input) = Inr expiresAt"
    and "filter (\<lambda>m. isClaimable m nowIso) (ms_outbox s) = m # rest"
    and "\<not> intactText cd (om_payloadText m) (om_checksum m)"
  shows "fst (claimMessages cd raw clock s) = Inl (PersistenceError CORRUPTION_DETECTED)"
proof -
  have sorted: "sort_key om_sequence (ms_outbox s) = ms_outbox s" using assms(1) numbered_sort by (auto simp: storeInv_def)
  have "0 < oc_limit input"
    using assms(2) ensureSafeInteger_range by (fastforce simp: validateClaimOutboxInput_def bindE_Inr_iff split: if_splits)
  then show ?thesis
    using assms claimLoop_corrupted [OF assms(5) _ assms(6), of "[]" input expiresAt s]
    by (simp add: claimMessages_def sorted)
qed

section \<open>Pages\<close>

text \<open>A client that follows the cursors until there is none; \<open>None\<close> when the fuel is spent first.\<close>

fun followPages :: "nat \<Rightarrow> (jsval \<Rightarrow> store_error + 'a page) \<Rightarrow> jsval \<Rightarrow> (store_error + 'a list) option" where
  "followPages 0 fetch cursor = None"
| "followPages (Suc fuel) fetch cursor =
     (case fetch cursor of
        Inl e \<Rightarrow> Some (Inl e)
      | Inr pg \<Rightarrow>
          (case pg_nextCursor pg of
             None \<Rightarrow> Some (Inr (pg_items pg))
           | Some c \<Rightarrow>
               map_option (\<lambda>rest. bindE rest (\<lambda>items. Inr (pg_items pg @ items))) (followPages fuel fetch (JStr c))))"

lemma filter_after_take:
  assumes "sorted_wrt (\<lambda>x y. key x < (key y :: 'k::linorder)) xs" and "n < length xs"
  shows "filter (\<lambda>x. key (xs ! n) < key x) xs = drop (Suc n) xs"
proof -
  have "filter (\<lambda>x. key (xs ! n) < key x) (take (Suc n) xs) = []"
    using assms by (auto simp: filter_empty_conv in_set_conv_nth sorted_wrt_iff_nth_less less_Suc_eq) (metis less_asym order.strict_trans)
  moreover have "filter (\<lambda>x. key (xs ! n) < key x) (drop (Suc n) xs) = drop (Suc n) xs"
    using assms by (auto simp: filter_id_conv in_set_conv_nth sorted_wrt_iff_nth_less)
  ultimately show ?thesis by (metis append_Nil append_take_drop_id filter_append)
qed

lemma sort_key_strict: "sorted_wrt (\<lambda>x y. key x < (key y :: 'k::linorder)) xs \<Longrightarrow> sort_key key xs = xs"
  by (intro sort_key_id_if_sorted strict_sorted_imp_sorted) (simp add: sorted_wrt_map)

lemma filter_afterCursor:
  "afterCursor after k \<Longrightarrow> filter (\<lambda>x. P x \<and> afterCursor (Some k) (key x)) xs = filter (\<lambda>x. k < key x) (filter (\<lambda>x. P x \<and> afterCursor after (key x)) xs)"
  by (auto simp: afterCursor_def intro!: filter_cong split: option.splits)

lemma followPages_complete:
  fixes key :: "'a \<Rightarrow> 'k::linorder"
  assumes fetch: "\<And>cursor after. position cursor = Some after \<Longrightarrow>
      fetch cursor = bindE (mapE to (selectAfter key P after limit xs)) (\<lambda>items. buildPage cd items limit cur)"
    and cursors: "\<And>x. x \<in> set xs \<Longrightarrow> P x \<Longrightarrow> \<exists>c. encodeCursor cd (cur (f x)) = Inr c \<and> position (JStr c) = Some (Some (key x))"
    and read: "\<And>x. x \<in> set xs \<Longrightarrow> P x \<Longrightarrow> to x = Inr (f x)"
    and sorted: "sorted_wrt (\<lambda>x y. key x < key y) xs" and limit: "1 \<le> limit"
  shows "position cursor = Some after \<Longrightarrow> length (filter (\<lambda>x. P x \<and> afterCursor after (key x)) xs) < fuel \<Longrightarrow>
    followPages fuel fetch cursor = Some (Inr (map f (filter (\<lambda>x. P x \<and> afterCursor after (key x)) xs)))"
proof (induction fuel arbitrary: cursor after)
  case (Suc fuel)
  let ?rest = "filter (\<lambda>x. P x \<and> afterCursor after (key x)) xs"
  have "to x = Inr (f x)" if "x \<in> set (take (nat (limit + 1)) ?rest)" for x
    using in_set_takeD [OF that] read by simp
  then have items: "mapE to (selectAfter key P after limit xs) = Inr (map f (take (nat (limit + 1)) ?rest))"
    unfolding selectAfter_def sort_key_strict [OF sorted]
    using mapE_map_Inr [of "take (nat (limit + 1)) ?rest" to id f] by simp
  show ?case
  proof (cases "int (length ?rest) \<le> limit")
    case True
    then have "take (nat (limit + 1)) ?rest = ?rest" by simp
    then show ?thesis using True by (simp add: fetch [OF Suc.prems(1)] items buildPage_def)
  next
    case False
    define n where "n = nat limit - 1"
    have n: "n < length ?rest" "Suc n = nat limit" using False limit by (simp_all add: n_def)
    let ?last = "?rest ! n"
    have last: "last (take (nat limit) (map f ?rest)) = f ?last"
      using n by (simp add: take_map flip: n(2)) (simp add: take_Suc_conv_app_nth)
    have x: "?last \<in> set xs" "P ?last" "afterCursor after (key ?last)" using nth_mem [OF n(1)] by auto
    then obtain c where c: "encodeCursor cd (cur (f ?last)) = Inr c" "position (JStr c) = Some (Some (key ?last))"
      using cursors by blast
    have tail: "filter (\<lambda>x. P x \<and> afterCursor (Some (key ?last)) (key x)) xs = drop (nat limit) ?rest"
      unfolding filter_afterCursor [OF x(3)] n(2) [symmetric] by (rule filter_after_take [OF sorted_wrt_filter [OF sorted] n(1)])
    have "fetch cursor = Inr \<lparr>pg_items = map f (take (nat limit) ?rest), pg_nextCursor = Some c\<rparr>"
      using False limit c(1) last
      by (simp add: fetch [OF Suc.prems(1)] items buildPage_def take_map min_def nat_add_distrib Let_def)
    moreover have "followPages fuel fetch (JStr c) = Some (Inr (map f (drop (nat limit) ?rest)))"
      using Suc.IH [OF c(2)] Suc.prems(2) limit n(1) by (simp add: tail)
    ultimately show ?thesis by (simp flip: map_append)
  qed
qed simp

text \<open>The listings as functions of the state.\<close>

definition eventFilter :: "jsrecord \<Rightarrow> store_error + (aggregate_type option \<times> string option)" where
  "eventFilter query =
     bindE (if fld query ''aggregateType'' = JUndef then Inr None
            else bindE (liftD (parseAggregateType (fld query ''aggregateType''))) (\<lambda>t. Inr (Some t))) (\<lambda>t.
     bindE (if fld query ''aggregateId'' = JUndef then Inr None
            else bindE (liftD (parsePersistedId (fld query ''aggregateId''))) (\<lambda>i. Inr (Some i))) (\<lambda>i.
     if i \<noteq> None \<and> t = None then Inl (DomainError (Validation ''missing_aggregate_type'')) else Inr (t, i)))"

definition matchesEvent :: "aggregate_type option \<times> string option \<Rightarrow> stored_event \<Rightarrow> bool" where
  "matchesEvent f e \<longleftrightarrow> (fst f = None \<or> fst f = Some (se_type e)) \<and> (snd f = None \<or> snd f = Some (se_id e))"

lemma fst_bindS_lift [simp]: "fst (bindS (liftS r) f s) = bindE r (\<lambda>a. fst (f a s))"
  by (cases r) simp_all

lemma fst_bindS_read [simp]: "fst (bindS (readS g) f s) = fst (f (g s) s)"
  by simp

lemma bindE_assoc: "bindE (bindE m f) g = bindE m (\<lambda>x. bindE (f x) g)"
  by (cases m) simp_all

lemma matchesEvent_pair: "matchesEvent (t, i) = (\<lambda>e. (t = None \<or> t = Some (se_type e)) \<and> (i = None \<or> i = Some (se_id e)))"
  by (simp add: matchesEvent_def fun_eq_iff)

lemma listEvents_page:
  "fst (listEvents cd query s) =
     bindE (eventFilter query) (\<lambda>f.
     bindE (liftD (normalizePageSize (fld query ''limit''))) (\<lambda>limit.
     bindE (queryCursor (decodeSequence cd) (fld query ''cursor'')) (\<lambda>after.
     bindE (mapE (toEventRecord cd) (selectAfter se_globalSequence (matchesEvent f) after limit (ms_events s))) (\<lambda>items.
     buildPage cd items limit (\<lambda>(e, _). SequenceCursor (se_globalSequence e))))))"
  unfolding listEvents_def eventFilter_def fst_bindS_lift bindE_assoc
  by (intro arg_cong2 [where f = bindE] refl ext) (simp add: matchesEvent_pair)

lemma listAggregates_page:
  "fst (listAggregates cd query s) =
     bindE (liftD (parseAggregateType (fld query ''aggregateType''))) (\<lambda>t.
     bindE (liftD (normalizePageSize (fld query ''limit''))) (\<lambda>limit.
     bindE (queryCursor (decodeStringKey cd) (fld query ''cursor'')) (\<lambda>after.
     bindE (mapE (toEnvelope cd) (selectAfter sa_id (\<lambda>_. True) after limit (filter (\<lambda>a. sa_type a = t) (ms_aggregates s)))) (\<lambda>items.
     buildPage cd items limit (\<lambda>(a, _). StringKeyCursor (sa_id a))))))"
  by (simp add: listAggregates_def)

text \<open>What a client needs of the codec to follow a cursor.\<close>

definition sequenceCursorOk :: "codec \<Rightarrow> int \<Rightarrow> bool" where
  "sequenceCursorOk cd n \<longleftrightarrow>
     (case encodeCursor cd (SequenceCursor n) of Inl _ \<Rightarrow> False | Inr c \<Rightarrow> queryCursor (decodeSequence cd) (JStr c) = Inr (Some n))"

definition stringCursorOk :: "codec \<Rightarrow> string \<Rightarrow> bool" where
  "stringCursorOk cd k \<longleftrightarrow>
     (case encodeCursor cd (StringKeyCursor k) of Inl _ \<Rightarrow> False | Inr c \<Rightarrow> queryCursor (decodeStringKey cd) (JStr c) = Inr (Some k))"

definition eventPayload :: "codec \<Rightarrow> stored_event \<Rightarrow> json" where
  "eventPayload cd e = (case readPayload cd (se_payloadText e) (se_checksum e) of Inl _ \<Rightarrow> JsonNull | Inr j \<Rightarrow> j)"

definition aggregatePayload :: "codec \<Rightarrow> stored_aggregate \<Rightarrow> json" where
  "aggregatePayload cd a = (case readPayload cd (sa_payloadText a) (sa_checksum a) of Inl _ \<Rightarrow> JsonNull | Inr j \<Rightarrow> j)"

lemma normalizePageSize_pos: "normalizePageSize v = Inr limit \<Longrightarrow> 1 \<le> limit"
  by (auto simp: normalizePageSize_def DEFAULT_PAGE_SIZE_def dest: ensureSafeInteger_range split: if_splits)

theorem event_pages_complete:
  assumes "storeInv s" and "eventFilter query = Inr f" and "normalizePageSize (fld query ''limit'') = Inr limit"
    and "\<forall>e \<in> set (ms_events s). sequenceCursorOk cd (se_globalSequence e) \<and> isOk (readPayload cd (se_payloadText e) (se_checksum e))"
  shows "followPages (Suc (length (ms_events s))) (\<lambda>cursor. fst (listEvents cd ((''cursor'', cursor) # query) s)) JUndef =
    Some (Inr (map (\<lambda>e. (e, eventPayload cd e)) (filter (matchesEvent f) (ms_events s))))"
proof -
  let ?position = "\<lambda>cursor. case queryCursor (decodeSequence cd) cursor of Inl _ \<Rightarrow> None | Inr after \<Rightarrow> Some after"
  have filter: "eventFilter ((''cursor'', c) # query) = Inr f" for c
  proof -
    have "fld ((''cursor'', c) # query) ''aggregateType'' = fld query ''aggregateType''"
      "fld ((''cursor'', c) # query) ''aggregateId'' = fld query ''aggregateId''" by simp_all
    then show ?thesis using assms(2) by (simp only: eventFilter_def)
  qed
  have "followPages (Suc (length (ms_events s))) (\<lambda>cursor. fst (listEvents cd ((''cursor'', cursor) # query) s)) JUndef =
      Some (Inr (map (\<lambda>e. (e, eventPayload cd e)) (filter (\<lambda>e. matchesEvent f e \<and> afterCursor None (se_globalSequence e)) (ms_events s))))"
  proof (rule followPages_complete [where position = ?position and to = "toEventRecord cd" and limit = limit and cd = cd and
        cur = "\<lambda>(e, _). SequenceCursor (se_globalSequence e)"])
    show "fst (listEvents cd ((''cursor'', cursor) # query) s) =
        bindE (mapE (toEventRecord cd) (selectAfter se_globalSequence (matchesEvent f) after limit (ms_events s)))
          (\<lambda>items. buildPage cd items limit (\<lambda>(e, _). SequenceCursor (se_globalSequence e)))"
      if "?position cursor = Some after" for cursor after
      using that assms(3) by (cases "queryCursor (decodeSequence cd) cursor") (simp_all add: listEvents_page filter)
    show "\<exists>c. encodeCursor cd (case (e, eventPayload cd e) of (e, _) \<Rightarrow> SequenceCursor (se_globalSequence e)) = Inr c \<and>
        ?position (JStr c) = Some (Some (se_globalSequence e))" if "e \<in> set (ms_events s)" for e
      using bspec [OF assms(4) that] by (cases "encodeCursor cd (SequenceCursor (se_globalSequence e))") (simp_all add: sequenceCursorOk_def)
    show "toEventRecord cd e = Inr (e, eventPayload cd e)" if "e \<in> set (ms_events s)" for e
      using assms(4) that by (auto simp: toEventRecord_def eventPayload_def isOk_iff)
    show "sorted_wrt (\<lambda>x y. se_globalSequence x < se_globalSequence y) (ms_events s)"
      using assms(1) by (simp add: storeInv_def numbered_def)
  qed (use assms(3) in \<open>auto simp: normalizePageSize_pos queryCursor_def intro: le_imp_less_Suc\<close>)
  then show ?thesis by (simp add: afterCursor_def)
qed

lemma getAggregate_Some:
  assumes "getAggregate cd t i s = (Inr (Some r), u)"
  shows "\<exists>ty i' a. parseAggregateType t = Inr ty \<and> parsePersistedId i = Inr i' \<and> findAggregate s ty i' = Some a \<and> toEnvelope cd a = Inr r"
  using assms by (auto simp: getAggregate_def bindS_Inr_iff split: option.splits)

lemma toEnvelope_Inr: "toEnvelope cd a = Inr r \<Longrightarrow> fst r = a"
  by (auto simp: toEnvelope_def bindE_Inr_iff)

end
