(* ===== verification/Store_Claims.thy ===== *)
theory Store_Claims
  imports Store_Queries "HOL-Library.Code_Target_Numeral"
begin

text \<open>
  The properties of the in-memory store, each with a witness: two messages, one aggregate and two events
  written in the kernel, with a codec that gives the JSON texts of the values that occur.
\<close>

section \<open>A sample store\<close>

definition sampleTexts :: "(json \<times> string) list" where
  "sampleTexts =
     [(JsonObj [], ''{}''),
      (JsonObj [(''kind'', JsonStr ''sequence''), (''lastSequence'', JsonNum (NInt 1))],
       ''{\"kind\":\"sequence\",\"lastSequence\":1}''),
      (JsonObj [(''kind'', JsonStr ''sequence''), (''lastSequence'', JsonNum (NInt 2))],
       ''{\"kind\":\"sequence\",\"lastSequence\":2}'')]"

definition sampleCodec :: codec where
  "sampleCodec =
     \<lparr>cd_stringify = (\<lambda>j. case map_of sampleTexts j of Some t \<Rightarrow> t | None \<Rightarrow> ''null''),
      cd_parse = (\<lambda>t. map_option jsonVal (map_of (map (\<lambda>(j, t). (t, j)) sampleTexts) t)),
      cd_sha256 = (\<lambda>t. replicate 63 CHR ''0'' @ [if even (length t) then CHR ''0'' else CHR ''1'']),
      cd_toBase64 = id, cd_fromBase64 = id\<rparr>"

definition call :: "store_op \<Rightarrow> clock_reading \<Rightarrow> store_reply script" where
  "call operation clock = Call operation clock (\<lambda>r. case r of Inl e \<Rightarrow> Raise e | Inr a \<Rightarrow> Done a)"

definition sampleEnqueue :: "string \<Rightarrow> store_op" where
  "sampleEnqueue i = EnqueueMessage [(''messageId'', JStr i), (''topic'', JStr ''topic''), (''schemaVersion'', jsInt 1),
     (''payload'', plainObj []), (''idempotencyKey'', JStr (''key-'' @ i)), (''traceId'', JNull)]"

definition sampleAppend :: "string \<Rightarrow> store_op" where
  "sampleAppend i = AppendEvent [(''eventId'', JStr i), (''aggregateType'', JStr ''project''), (''aggregateId'', JStr ''p1''),
     (''aggregateVersion'', jsInt 1), (''eventType'', JStr ''created''), (''eventSchemaVersion'', jsInt 1),
     (''occurredAt'', JStr (toISOString 0)), (''payload'', plainObj []), (''traceId'', JNull), (''causationId'', JNull)]"

definition sampleCreate :: store_op where
  "sampleCreate = CreateAggregate [(''aggregateType'', JStr ''project''), (''aggregateId'', JStr ''p1''),
     (''schemaVersion'', jsInt 1), (''payload'', plainObj []), (''traceId'', JNull)]"

definition sampleUpdate :: "int \<Rightarrow> store_op" where
  "sampleUpdate v = UpdateAggregate [(''aggregateType'', JStr ''project''), (''aggregateId'', JStr ''p1''),
     (''schemaVersion'', jsInt 1), (''payload'', plainObj []), (''traceId'', JNull), (''expectedVersion'', jsInt v)]"

definition sampleClaim :: store_op where
  "sampleClaim = ClaimMessages [(''owner'', JStr ''w1''), (''leaseDurationMs'', jsInt 60000), (''limit'', jsInt 1)]"

definition sampleAck :: "string \<Rightarrow> store_op" where
  "sampleAck owner = AcknowledgeMessage [(''messageId'', JStr ''m1''), (''owner'', JStr owner)]"

definition sampleWrites :: "(store_reply script \<times> unit) list" where
  "sampleWrites = map (\<lambda>operation. (call operation (ClockDate 0), ()))
     [sampleEnqueue ''m1'', sampleEnqueue ''m2'', sampleCreate, sampleAppend ''e1'', sampleAppend ''e2'']"

definition sampleAdapter :: adapter where
  "sampleAdapter = executeAll (runTransact sampleCodec) sampleWrites createMemoryPersistenceAdapter"

text \<open>The first message leased to \<open>w1\<close> for a minute, and then acknowledged.\<close>

definition leasedAdapter :: adapter where
  "leasedAdapter = snd (transact sampleCodec (call sampleClaim (ClockDate 1000)) sampleAdapter)"

definition ackedAdapter :: adapter where
  "ackedAdapter = snd (transact sampleCodec (call (sampleAck ''w1'') (ClockDate 2000)) leasedAdapter)"

lemma empty_inv: "adapterInv createMemoryPersistenceAdapter"
  by (simp add: createMemoryPersistenceAdapter_def storeInv_empty)

lemma sample_store_inv: "adapterInv sampleAdapter" "adapterInv leasedAdapter" "adapterInv ackedAdapter"
proof -
  show s: "adapterInv sampleAdapter" unfolding sampleAdapter_def by (rule messages.executeAll_inv [OF empty_inv])
  show l: "adapterInv leasedAdapter" unfolding leasedAdapter_def by (rule transact_result(1) [OF s])
  show "adapterInv ackedAdapter" unfolding ackedAdapter_def by (rule transact_result(1) [OF l])
qed

text \<open>What the writes leave, as a value.\<close>

definition sampleChecksum :: checksum where
  "sampleChecksum = \<lparr>ck_algorithm = Sha256Checksum, ck_hex = replicate 64 CHR ''0''\<rparr>"

definition sampleMessage :: "string \<Rightarrow> int \<Rightarrow> stored_outbox" where
  "sampleMessage i n = \<lparr>om_messageId = i, om_topic = ''topic'', om_schemaVersion = 1, om_payloadText = ''{}'',
     om_checksum = sampleChecksum, om_idempotencyKey = ''key-'' @ i, om_status = PendingMessage, om_attemptCount = 0,
     om_createdAt = toISOString 0, om_availableAt = toISOString 0, om_leaseOwner = None, om_leaseExpiresAt = None,
     om_acknowledgedAt = None, om_deadLetteredAt = None, om_lastFailureCategory = None, om_sequence = n, om_traceId = None\<rparr>"

definition sampleEvent :: "string \<Rightarrow> int \<Rightarrow> stored_event" where
  "sampleEvent i n = \<lparr>se_eventId = i, se_type = ProjectType, se_id = ''p1'', se_version = 1, se_eventType = ''created'',
     se_schemaVersion = 1, se_payloadText = ''{}'', se_checksum = sampleChecksum, se_occurredAt = toISOString 0,
     se_recordedAt = toISOString 0, se_globalSequence = n, se_traceId = None, se_causationId = None\<rparr>"

definition sampleProject :: stored_aggregate where
  "sampleProject = \<lparr>sa_type = ProjectType, sa_id = ''p1'', sa_schemaVersion = 1, sa_version = 1, sa_payloadText = ''{}'',
     sa_checksum = sampleChecksum, sa_createdAt = toISOString 0, sa_updatedAt = toISOString 0, sa_traceId = None\<rparr>"

definition sampleState :: "stored_outbox \<Rightarrow> adapter" where
  "sampleState m = \<lparr>ap_state = \<lparr>ms_aggregates = [sampleProject], ms_events = [sampleEvent ''e1'' 1, sampleEvent ''e2'' 2],
     ms_eventSequence = 2, ms_outbox = [m, sampleMessage ''m2'' 2],
     ms_idempotencyKeys = [(''key-m1'', ''m1''), (''key-m2'', ''m2'')], ms_outboxSequence = 2, ms_artifacts = [], ms_manifests = []\<rparr>,
     ap_closed = False\<rparr>"

lemma sampleAdapter_value [code]: "sampleAdapter = sampleState (sampleMessage ''m1'' 1)"
  by code_simp

definition leasedMessage :: stored_outbox where
  "leasedMessage = applyClaim (sampleMessage ''m1'' 1) ''w1'' (toISOString 61000)"

lemma leasedAdapter_value [code]: "leasedAdapter = sampleState leasedMessage"
  by code_simp

definition ackedMessage :: stored_outbox where
  "ackedMessage = leasedMessage\<lparr>om_status := AcknowledgedMessage, om_acknowledgedAt := Some (toISOString 2000),
     om_leaseOwner := None, om_leaseExpiresAt := None\<rparr>"

lemma ackedAdapter_value [code]: "ackedAdapter = sampleState ackedMessage"
  by code_simp

lemma sample_message:
  "findMessage (ap_state leasedAdapter) ''m1'' = Some leasedMessage" "om_status leasedMessage = LeasedMessage"
  "findMessage (ap_state ackedAdapter) ''m1'' = Some ackedMessage" "om_status ackedMessage = AcknowledgedMessage"
  by (simp_all add: leasedAdapter_value ackedAdapter_value sampleState_def findMessage_def leasedMessage_def ackedMessage_def
      applyClaim_def sampleMessage_def)

text \<open>What \<open>aggregates.get\<close> returns for the sample project.\<close>

definition readProject :: "adapter \<Rightarrow> (stored_aggregate \<times> json) option" where
  "readProject ap = (case getAggregate sampleCodec (JStr ''project'') (JStr ''p1'') (ap_state ap) of (Inr r, _) \<Rightarrow> r | _ \<Rightarrow> None)"

section \<open>Validity and atomicity\<close>

text \<open>C26: Every state an adapter reaches, by any sequence of transactions (whatever their callbacks do, and whether
  or not they fail), closures and corruptions of stored text, is well formed: identifiers and idempotency keys are
  unique and agree, events and messages are numbered in strictly increasing order up to their counter, versions are positive, and
  the lease and outcome fields of every message match its status.\<close>

theorem reachable_stores_are_valid:
  "storeInv (ap_state (executeAll (runAdapter cd) cs createMemoryPersistenceAdapter))"
  by (rule reachable_adapter)


section \<open>Aggregates\<close>

text \<open>No lost update: after an aggregate was created or updated, a writer that still expects the version before it
  (or its absence) fails, whatever happens in between.\<close>

theorem stale_aggregate_writers_fail:
  assumes "storeInv (ap_state ap)" and "isOk (fst (singleTx cd operation clock ap))" and "expectedFor cd k operation \<noteq> None"
    and "expectedFor cd k stale = Some (versionOf k (ap_state ap))"
  shows "\<not> isOk (fst (singleTx cd stale clock' (executeAll (singleTx cd) cs (snd (singleTx cd operation clock ap)))))"
  by (rule aggregates.no_lost_update) (use assms in simp_all)

theorem stale_aggregate_writers_fail_witness:
  "\<not> isOk (fst (singleTx sampleCodec (sampleUpdate 1) (ClockDate 9)
      (executeAll (singleTx sampleCodec) [(sampleUpdate 2, ClockDate 8)] (snd (singleTx sampleCodec (sampleUpdate 1) (ClockDate 7) sampleAdapter)))))"
  by (rule stale_aggregate_writers_fail [where k = "(ProjectType, ''p1'')", OF sample_store_inv(1)]) code_simp+

text \<open>A version identifies a content: when an aggregate that was read is read again after any transactions and has the
  same version, the whole record and its payload are the same (there is no way back to a version).\<close>

theorem versions_identify_contents:
  assumes "storeInv (ap_state ap)"
    and "getAggregate cd t i (ap_state ap) = (Inr (Some (a, j)), s)"
    and "getAggregate cd t i (ap_state (executeAll (runTransact cd) ws ap)) = (Inr (Some (b, j')), s')"
    and "sa_version a = sa_version b"
  shows "(b, j') = (a, j)"
proof -
  obtain ty i' where a: "findAggregate (ap_state ap) ty i' = Some a" "toEnvelope cd a = Inr (a, j)"
    and b: "findAggregate (ap_state (executeAll (runTransact cd) ws ap)) ty i' = Some b" "toEnvelope cd b = Inr (b, j')"
    using getAggregate_Some [OF assms(2)] getAggregate_Some [OF assms(3)] toEnvelope_Inr by fastforce
  have "keepsAggregates (ap_state ap) (ap_state (executeAll (runTransact cd) ws ap))"
    using transacts_extend [OF assms(1)] unfolding extends_def by blast
  then have "b = a" using a(1) b(1) assms(4) by (fastforce simp: keepsAggregates_def keepsAggregate_def)
  then show ?thesis using a b by simp
qed

theorem versions_identify_contents_witness:
  "readProject (executeAll (runTransact sampleCodec) [(call sampleClaim (ClockDate 5), ())] sampleAdapter) = readProject sampleAdapter"
proof -
  let ?after = "executeAll (runTransact sampleCodec) [(call sampleClaim (ClockDate 5), ())] sampleAdapter"
  have "readProject sampleAdapter = Some (sampleProject, JsonObj [])" "readProject ?after = Some (sampleProject, JsonObj [])"
    by code_simp+
  then obtain s s' where "getAggregate sampleCodec (JStr ''project'') (JStr ''p1'') (ap_state sampleAdapter) = (Inr (Some (sampleProject, JsonObj [])), s)"
    and "getAggregate sampleCodec (JStr ''project'') (JStr ''p1'') (ap_state ?after) = (Inr (Some (sampleProject, JsonObj [])), s')"
    by (auto simp: readProject_def split: prod.splits sum.splits)
  from versions_identify_contents [OF sample_store_inv(1) this refl] show ?thesis
    using \<open>readProject sampleAdapter = _\<close> \<open>readProject ?after = _\<close> by simp
qed

section \<open>Events\<close>

text \<open>Histories only grow: transactions append events behind the recorded ones with larger global sequence numbers, keep every
  descriptor and manifest, never lower a version, and keep of every message its identity, payload and number.\<close>

theorem histories_only_grow:
  assumes "storeInv (ap_state ap)"
  shows "extends (ap_state ap) (ap_state (executeAll (runTransact cd) ws ap))"
  by (rule transacts_extend [OF assms])

theorem histories_only_grow_witness:
  "extends (ap_state sampleAdapter) (ap_state (executeAll (runTransact sampleCodec) sampleWrites sampleAdapter))"
  by (rule histories_only_grow [OF sample_store_inv(1)])



section \<open>The outbox\<close>

text \<open>A message that is acknowledged or dead-lettered stays exactly as it is under every sequence of transactions.\<close>

theorem final_messages_stay_final:
  assumes "storeInv (ap_state ap)" and "findMessage (ap_state ap) i = Some m"
    and "om_status m \<in> {AcknowledgedMessage, DeadLetteredMessage}"
  shows "findMessage (ap_state (executeAll (runTransact cd) ws ap)) i = Some m"
  by (rule messages.final_forever) (use assms in auto)

theorem final_messages_stay_final_witness:
  "findMessage (ap_state (executeAll (runTransact sampleCodec) [(call sampleClaim (ClockDate 99999999), ())] ackedAdapter)) ''m1'' =
     Some ackedMessage"
  by (rule final_messages_stay_final [OF sample_store_inv(3) sample_message(3)]) (simp add: sample_message(4))

text \<open>C28: A lease is exclusive: until the clock reaches its expiry, no transaction changes a leased message in any way, except
  one in which its holder acknowledges, retries or dead-letters this very message.\<close>

theorem leases_are_exclusive:
  assumes "storeInv (ap_state ap)" and "findMessage (ap_state ap) i = Some m" and "om_status m = LeasedMessage"
    and "list_all (\<lambda>(w, _). callsAll (outsideLease m) w) ws"
  shows "findMessage (ap_state (executeAll (runTransact cd) ws ap)) i = Some m"
proof -
  have "m \<in> set (ms_outbox (ap_state ap))" using find_message assms(2) unfolding findMessage_def by blast
  then have "leased m" using assms(1,3) by (auto simp: storeInv_def list_all_iff messageOk_def leased_def)
  then show ?thesis using transacts_lease assms by (simp add: list_all_iff)
qed

theorem leases_are_exclusive_witness:
  "findMessage (ap_state (executeAll (runTransact sampleCodec)
      [(call (sampleAck ''w2'') (ClockDate 5000), ()), (call sampleClaim (ClockDate 60999), ())] leasedAdapter)) ''m1'' =
   Some leasedMessage"
proof -
  have out: "outsideLease leasedMessage (sampleAck ''w2'', ClockDate 5000)" "outsideLease leasedMessage (sampleClaim, ClockDate 60999)"
    by code_simp+
  have after: "callsAll P (case r of Inl e \<Rightarrow> Raise e | Inr a \<Rightarrow> Done a)" for P and r :: "store_error + store_reply"
    by (cases r) simp_all
  show ?thesis
    by (rule leases_are_exclusive [OF sample_store_inv(2) sample_message(1,2)]) (simp add: call_def out after)
qed

text \<open>C29: A claim is exact: when the messages it selects can be read, it returns the first ones that are due, at most
  as many as asked for, in the order they were enqueued, each leased to the owner until the expiry; the state changes in these messages only.\<close>

theorem claims_take_the_first_due:
  assumes "storeInv s" and "validateClaimOutboxInput raw = Inr input" and "readNow clock = Inr (now, nowIso)"
    and "leaseExpiry now (oc_leaseDurationMs input) = Inr expiresAt"
    and "list_all (readable cd) (dueMessages s nowIso (oc_limit input))"
  shows "claimMessages cd raw clock s =
    (Inr (map (\<lambda>m. (applyClaim m (oc_owner input) expiresAt, payloadOf cd m)) (dueMessages s nowIso (oc_limit input))),
     leaseAll (dueMessages s nowIso (oc_limit input)) (oc_owner input) expiresAt s)"
  using claimMessages_exact assms by (simp add: list_all_iff)

theorem claims_take_the_first_due_witness:
  "claimMessages sampleCodec [(''owner'', JStr ''w1''), (''leaseDurationMs'', jsInt 60000), (''limit'', jsInt 1)] (ClockDate 1000)
      (ap_state sampleAdapter) =
    (Inr [(leasedMessage, JsonObj [])], ap_state leasedAdapter)"
proof -
  let ?due = "dueMessages (ap_state sampleAdapter) (toISOString 1000) 1"
  have due: "?due = [sampleMessage ''m1'' 1]" "payloadOf sampleCodec (sampleMessage ''m1'' 1) = JsonObj []"
    "leaseAll [sampleMessage ''m1'' 1] ''w1'' (toISOString 61000) (ap_state sampleAdapter) = ap_state leasedAdapter"
    by code_simp+
  let ?input = "\<lparr>oc_owner = ''w1'', oc_leaseDurationMs = 60000, oc_limit = 1\<rparr>"
  have "claimMessages sampleCodec [(''owner'', JStr ''w1''), (''leaseDurationMs'', jsInt 60000), (''limit'', jsInt 1)] (ClockDate 1000)
      (ap_state sampleAdapter) =
    (Inr (map (\<lambda>m. (applyClaim m (oc_owner ?input) (toISOString 61000), payloadOf sampleCodec m))
       (dueMessages (ap_state sampleAdapter) (toISOString 1000) (oc_limit ?input))),
     leaseAll (dueMessages (ap_state sampleAdapter) (toISOString 1000) (oc_limit ?input)) (oc_owner ?input) (toISOString 61000)
       (ap_state sampleAdapter))"
    by (rule claims_take_the_first_due [where now = 1000, OF sample_store_inv(1)]) code_simp+
  then show ?thesis by (simp add: due leasedMessage_def)
qed

text \<open>One corrupted message stops the whole outbox: as long as it is the first message that is due, every claim, of
  any owner and limit, throws and leaves the adapter unchanged, so that the messages behind it are never delivered.\<close>

theorem corrupted_message_blocks_claims:
  assumes "storeInv (ap_state ap)" and "\<not> ap_closed ap" and "validateClaimOutboxInput raw = Inr input"
    and "readNow clock = Inr (now, nowIso)" and "leaseExpiry now (oc_leaseDurationMs input) = Inr expiresAt"
    and "filter (\<lambda>m. isClaimable m nowIso) (ms_outbox (ap_state ap)) = m # rest"
    and "\<not> intactText cd (om_payloadText m) (om_checksum m)"
  shows "singleTx cd (ClaimMessages raw) clock ap = (Inl (PersistenceError CORRUPTION_DETECTED), ap)"
proof -
  have "fst (claimMessages cd raw clock (ap_state ap)) = Inl (PersistenceError CORRUPTION_DETECTED)"
    by (rule claimMessages_corrupted) (use assms in simp_all)
  then show ?thesis
    using assms(2) by (cases "claimMessages cd raw clock (ap_state ap)") (simp add: singleTx_run mapS_def)
qed

definition corruptedAdapter :: adapter where
  "corruptedAdapter = snd (corruptOutboxPayload ''m1'' sampleAdapter)"

theorem corrupted_message_blocks_claims_witness:
  "singleTx sampleCodec (ClaimMessages [(''owner'', JStr ''w1''), (''leaseDurationMs'', jsInt 60000), (''limit'', jsInt 100)]) (ClockDate 1000)
     corruptedAdapter = (Inl (PersistenceError CORRUPTION_DETECTED), corruptedAdapter)"
proof -
  have c: "corruptedAdapter = sampleState ((sampleMessage ''m1'' 1)\<lparr>om_payloadText := ''{} ''\<rparr>)" by code_simp
  have "adapterInv corruptedAdapter"
    using runAdapter_inv [OF sample_store_inv(1), of sampleCodec "CorruptOutbox ''m1''" "()"] by (simp add: corruptedAdapter_def)
  then show ?thesis
    by (rule corrupted_message_blocks_claims [where input = "\<lparr>oc_owner = ''w1'', oc_leaseDurationMs = 60000, oc_limit = 100\<rparr>" and
          now = 1000 and nowIso = "toISOString 1000" and expiresAt = "toISOString 61000" and
          m = "(sampleMessage ''m1'' 1)\<lparr>om_payloadText := ''{} ''\<rparr>" and rest = "[sampleMessage ''m2'' 2]"])
      (unfold c, code_simp+)
qed

end
