(* ===== verification/Storage_Claims.thy ===== *)
theory Storage_Claims
  imports Persistence Artifact_Laws "HOL-Library.Code_Target_Numeral"
begin

text \<open>
  The properties of artifact paths, of stored artifact manifests and of the migration plan, with their witnesses.
\<close>

section \<open>Artifacts\<close>



text \<open>Whatever value a manifest was parsed from, its stored form parses again to the same manifest, with every
  descriptor, path, digest and provenance in it and every unused slot.\<close>

theorem manifests_round_trip:
  assumes "parseArtifactManifest v = Inr m"
  shows "parseArtifactManifest (manifestVal m) = Inr m"
  by (rule manifest_round_trip [OF parseArtifactManifest_Inr [OF assms]])

definition sampleManifestInput :: jsval where
  "sampleManifestInput = plainObj
     [(''createdAt'', JStr (toISOString 0)), (''taskRunId'', JNull), (''manifestId'', JStr ''mf1''), (''schemaVersion'', jsInt 1),
      (''artifacts'', JArr True [Some (True, plainObj
        [(''schemaVersion'', jsInt 1), (''id'', JStr ''a1''), (''displayName'', JStr ''Patch''), (''kind'', JStr ''patch''),
         (''role'', JStr ''output''), (''mediaType'', JStr ''text/plain''), (''sizeBytes'', jsInt 12),
         (''digest'', plainObj [(''algorithm'', JStr ''sha-256''), (''hex'', JStr (replicate 64 CHR ''a''))]),
         (''classification'', JStr ''internal''),
         (''location'', plainObj [(''type'', JStr ''workspace-file''), (''workspaceId'', JStr ''w1''), (''path'', JStr ''src/a.ts'')]),
         (''provenance'', plainObj [(''producedBy'', plainObj [(''type'', JStr ''user'')]), (''runId'', JNull),
           (''taskId'', JNull), (''taskRunId'', JNull), (''traceId'', JNull)]),
         (''parents'', plainArr [JStr ''a0'']), (''createdAt'', JStr (toISOString 0))])] [])]"

theorem manifests_round_trip_witness:
  "case parseArtifactManifest sampleManifestInput of
     Inl _ \<Rightarrow> False
   | Inr m \<Rightarrow> length (mf_artifacts m) = 1 \<and> parseArtifactManifest (manifestVal m) = Inr m"
proof -
  have "case parseArtifactManifest sampleManifestInput of Inl _ \<Rightarrow> False | Inr m \<Rightarrow> length (mf_artifacts m) = 1"
    by code_simp
  then obtain m where "parseArtifactManifest sampleManifestInput = Inr m" "length (mf_artifacts m) = 1"
    by (auto split: sum.splits)
  then show ?thesis using manifests_round_trip by simp
qed

section \<open>Migrations\<close>

definition migrationsOk :: "migration list \<Rightarrow> bool" where
  "migrationsOk ds \<longleftrightarrow> sorted_wrt (\<lambda>d e. strLess (mg_id d) (mg_id e)) ds \<and>
     list_all (\<lambda>d. MIGRATION_ID_PATTERN (mg_id d) \<and> 1 \<le> length (mg_content d) \<and> length (mg_content d) \<le> 1000000) ds"

definition historyOk :: "codec \<Rightarrow> migration list \<Rightarrow> applied_migration list \<Rightarrow> bool" where
  "historyOk cd ds applied \<longleftrightarrow> length applied \<le> length ds \<and>
     (\<forall>i < length applied. am_id (applied ! i) = mg_id (ds ! i) \<and> am_ordinal (applied ! i) = int i + 1 \<and>
        am_checksum (applied ! i) = migrationChecksum cd (ds ! i))"

lemma MIGRATION_ID_length: "MIGRATION_ID_PATTERN s \<Longrightarrow> 1 \<le> length s \<and> length s \<le> 69"
proof -
  assume p: "MIGRATION_ID_PATTERN s"
  then obtain c cs where "drop 5 s = c # cs" "length cs \<le> 63"
    by (cases "drop 5 s") (auto simp: MIGRATION_ID_PATTERN_def)
  then have "length s - 5 \<le> 64" using length_drop [of 5 s] by simp
  then show ?thesis using p by (simp add: MIGRATION_ID_PATTERN_def)
qed

lemma strLess_asym: "strLess a b \<Longrightarrow> \<not> strLess b a"
  using strLess_trans strLess_irrefl by blast

lemma checkDefinitions_Inr:
  "(\<forall>s \<in> set seen. strLeq s (hd seen)) \<Longrightarrow>
   checkDefinitions ds seen = Inr u \<longleftrightarrow> migrationsOk ds \<and> (\<forall>s \<in> set seen. \<forall>d \<in> set ds. strLess s (mg_id d))"
proof (induction ds arbitrary: seen)
  case (Cons d ds)
  have parse: "parseMigrationId (JStr (mg_id d)) = Inr i \<longleftrightarrow> MIGRATION_ID_PATTERN i \<and> i = mg_id d" for i
    using MIGRATION_ID_length by (auto simp: parseMigrationId_def)
  have new: "mg_id d \<notin> set seen \<and> \<not> (seen \<noteq> [] \<and> strLeq (mg_id d) (hd seen)) \<longleftrightarrow> (\<forall>s \<in> set seen. strLess s (mg_id d))"
    using Cons.prems strLess_trans strLess_total strLess_irrefl unfolding strLeq_def
    by (metis hd_in_set list.set_cases list.set_intros(1) empty_iff list.set(1))
  show ?case
  proof (cases "\<forall>s \<in> set seen. strLess s (mg_id d)")
    case True
    then have "\<forall>s \<in> set (mg_id d # seen). strLeq s (hd (mg_id d # seen))" by (auto simp: strLeq_def dest: strLess_asym)
    from Cons.IH [OF this] True new show ?thesis
      by (auto simp: bindE_Inr_iff parse migrationsOk_def intro: strLess_trans)
  next
    case False
    then show ?thesis using new by (auto simp: bindE_Inr_iff parse)
  qed
qed (simp add: migrationsOk_def)

lemma checksumEquals_iff [simp]: "checksumEquals a b \<longleftrightarrow> a = b"
  by (cases a; cases b) (auto simp: checksumEquals_def)

lemma checkApplied_Inr:
  "checkApplied cd applied ds n = Inr u \<longleftrightarrow> length applied \<le> length ds \<and>
     (\<forall>i < length applied. am_id (applied ! i) = mg_id (ds ! i) \<and> am_ordinal (applied ! i) = n + int i + 1 \<and>
        am_checksum (applied ! i) = migrationChecksum cd (ds ! i))"
  by (induction cd applied ds n rule: checkApplied.induct) (auto simp: less_Suc_eq_0_disj All_less_Suc2 algebra_simps)

text \<open>A migration plan exists exactly when the definitions are well formed and strictly ordered by identifier and the applied history
  is a prefix of them, position by position, with the ordinal and the checksum of the content; then it consists of the
  definitions behind the history.\<close>

theorem migration_plans_are_exact:
  "planMigrations cd ds applied = Inr plan \<longleftrightarrow>
     migrationsOk ds \<and> historyOk cd ds applied \<and>
     plan = \<lparr>mp_toApply = drop (length applied) ds, mp_applied = applied, mp_pending = map mg_id (drop (length applied) ds),
       mp_databaseSchemaAhead = False\<rparr>"
proof -
  have "\<not> list_ex (\<lambda>a. am_id a \<notin> mg_id ` set ds) applied" if h: "historyOk cd ds applied"
  proof -
    have "am_id a \<in> mg_id ` set ds" if "a \<in> set applied" for a
    proof -
      obtain i where "i < length applied" "applied ! i = a"
        using \<open>a \<in> set applied\<close> unfolding in_set_conv_nth by blast
      then have "am_id a = mg_id (ds ! i)" "ds ! i \<in> set ds" using h by (auto simp: historyOk_def)
      then show ?thesis by simp
    qed
    then show ?thesis by (auto simp: list_ex_iff)
  qed
  then show ?thesis
    using checkDefinitions_Inr [of "[]" ds] checkApplied_Inr [of cd applied ds 0]
    by (auto simp: planMigrations_def bindE_Inr_iff historyOk_def Let_def)
qed

end
