(* ===== verification/Router_Shared.thy ===== *)
theory Router_Shared
  imports Persistence
begin

text \<open>
  \<open>packages/router/src/shared.ts\<close>: patterns, the digest of a value and the checked ratios; and when the
  canonical copy of a value succeeds, so that its digest exists.
\<close>

section \<open>Patterns and digests\<close>

definition HEX_64 :: "string \<Rightarrow> bool" where
  "HEX_64 s \<longleftrightarrow> length s = 64 \<and> list_all isHexDigit s"

definition SAFE_ID :: "string \<Rightarrow> bool" where
  "SAFE_ID = headTail (\<lambda>c. isUpper c \<or> isLower c \<or> isDigit c)
     (\<lambda>c. isUpper c \<or> isLower c \<or> isDigit c \<or> c \<in> set ''._:-'') 127"

definition SAFE_KIND :: "string \<Rightarrow> bool" where
  "SAFE_KIND = headTail isLower (\<lambda>c. isLower c \<or> isDigit c \<or> c \<in> set ''._-'') 63"

definition compareText :: "string \<Rightarrow> string \<Rightarrow> int" where
  "compareText left right = (if strLess left right then -1 else if strLess right left then 1 else 0)"

lemma compareText_iff [simp]:
  "compareText a b \<le> 0 \<longleftrightarrow> \<not> strLess b a" "compareText a b = 0 \<longleftrightarrow> a = b"
  unfolding compareText_def using strLess_total [of a b] strLess_trans [of a b a] by auto

definition digest :: "codec \<Rightarrow> jsval \<Rightarrow> domain_error + string" where
  "digest cd value = bindE (toCanonicalJson (cd_stringify cd) value) (\<lambda>text. Inr (cd_sha256 cd text))"

text \<open>The final check of every fingerprinted value: the last field is the digest of the others.\<close>

definition checkFingerprint :: "codec \<Rightarrow> jsval \<Rightarrow> jsval \<Rightarrow> domain_error + string" where
  "checkFingerprint cd unsigned given =
     bindE (ensureString given 64 64 HEX_64) (\<lambda>fingerprint.
     bindE (digest cd unsigned) (\<lambda>expected.
     if expected \<noteq> fingerprint then fail ''fingerprint_mismatch'' else Inr fingerprint))"

section \<open>Checked arithmetic\<close>

datatype router_code =
    INVALID_CONFIGURATION | INVALID_REQUEST | INVALID_CANDIDATE | FINGERPRINT_MISMATCH | ARITHMETIC_OVERFLOW | ROUTER_CLOSED
  | INVALID_CIRCUIT_TRANSITION | BUDGET_PLAN_FAILED

datatype router_error = RouterError router_code | RouterDomain domain_error

definition liftR :: "domain_error + 'a \<Rightarrow> router_error + 'a" where
  "liftR m = (case m of Inl e \<Rightarrow> Inl (RouterDomain e) | Inr a \<Rightarrow> Inr a)"

lemma liftR_simps [simp]: "liftR (Inr a) = Inr a" "liftR (Inl e) = Inl (RouterDomain e)"
  by (simp_all add: liftR_def)

lemma liftR_Inr_iff [simp]: "liftR m = Inr a \<longleftrightarrow> m = Inr a"
  by (cases m) simp_all

definition checkedNumber :: "int \<Rightarrow> router_error + int" where
  "checkedNumber value = (if \<bar>value\<bar> > MAX_SAFE_INTEGER then Inl (RouterError ARITHMETIC_OVERFLOW) else Inr value)"

text \<open>Division of \<open>bigint\<close>s truncates; the operands are not negative here.\<close>

definition ceilRatio :: "int \<Rightarrow> int \<Rightarrow> router_error + int" where
  "ceilRatio numerator denominator =
     (if numerator < 0 \<or> denominator \<le> 0 then Inl (RouterError ARITHMETIC_OVERFLOW)
      else Inr ((numerator + denominator - 1) div denominator))"

section \<open>When the digest exists\<close>

text \<open>The number of the nodes of a value; \<open>jsonFine r j\<close>: nothing in it is rejected, with \<open>r\<close> levels left.\<close>

fun jsonNodes :: "json \<Rightarrow> nat" where
  "jsonNodes (JsonArr js) = 1 + sum_list (map jsonNodes js)"
| "jsonNodes (JsonObj fs) = 1 + sum_list (map (\<lambda>(k, j). jsonNodes j) fs)"
| "jsonNodes _ = 1"

fun jsonFine :: "nat \<Rightarrow> json \<Rightarrow> bool" where
  "jsonFine r (JsonNum n) \<longleftrightarrow> isFiniteNum n"
| "jsonFine r (JsonStr s) \<longleftrightarrow> length s \<le> maxStringLength"
| "jsonFine r (JsonArr js) \<longleftrightarrow> length js \<le> maxNodes \<and> list_all (\<lambda>j. 0 < r \<and> jsonFine (r - 1) j) js"
| "jsonFine r (JsonObj fs) \<longleftrightarrow> list_all (\<lambda>(k, j). k \<notin> set DANGEROUS_OBJECT_KEYS \<and> 0 < r \<and> jsonFine (r - 1) j) fs"
| "jsonFine r _ \<longleftrightarrow> True"

lemma threadE_counts:
  assumes "\<And>x n. x \<in> set xs \<Longrightarrow> n + w x \<le> m \<Longrightarrow> \<exists>y. f x n = Inr (y, n + w x)" and "n + sum_list (map w xs) \<le> (m :: nat)"
  shows "\<exists>ys. threadE f xs n = Inr (ys, n + sum_list (map w xs))"
  using assms
proof (induction xs arbitrary: n)
  case (Cons x xs)
  obtain y where "f x n = Inr (y, n + w x)" using Cons.prems(1) [of x n] Cons.prems(2) by auto
  moreover obtain ys where "threadE f xs (n + w x) = Inr (ys, n + w x + sum_list (map w xs))"
    using Cons.IH [of "n + w x"] Cons.prems by auto
  ultimately show ?case by (simp add: add.assoc)
qed simp

lemma sum_list_sortKeys: "sum_list (map (f :: _ \<Rightarrow> nat) (sortKeys xs)) = sum_list (map f xs)"
  by (metis mset_map mset_sortKeys sum_mset_sum_list)

lemma threadE_map: "threadE f (map g xs) n = threadE (\<lambda>x. f (g x)) xs n"
  by (induction xs arbitrary: n) simp_all

lemma insertKey_map:
  "insertKey (fst x, h (snd x)) (map (\<lambda>x. (fst x, h (snd x))) xs) = map (\<lambda>x. (fst x, h (snd x))) (insertKey x xs)"
  by (induction xs) auto

lemma sortKeys_map: "sortKeys (map (\<lambda>x. (fst x, h (snd x))) xs) = map (\<lambda>x. (fst x, h (snd x))) (sortKeys xs)"
  by (induction xs) (auto simp: sortKeys_def insertKey_map)

lemma canonicalClone_total:
  "jsonFine r j \<Longrightarrow> d + r \<le> maxDepth \<Longrightarrow> n + jsonNodes j \<le> maxNodes \<Longrightarrow>
     \<exists>j'. canonicalClone (jsonVal j) d n = Inr (j', n + jsonNodes j)"
proof (induction j arbitrary: r d n)
  case (JsonArr js)
  have "\<exists>y. canonicalClone (jsonVal x) (d + 1) m = Inr (y, m + jsonNodes x)" if "x \<in> set js" "m + jsonNodes x \<le> maxNodes" for x m
    using JsonArr.IH [OF that(1), of "r - 1"] JsonArr.prems that by (auto simp: list_all_iff)
  then obtain ys where "threadE (\<lambda>x m. canonicalClone (jsonVal x) (d + 1) m) js (n + 1) = Inr (ys, n + 1 + sum_list (map jsonNodes js))"
    using threadE_counts [of js jsonNodes maxNodes "\<lambda>x m. canonicalClone (jsonVal x) (d + 1) m" "n + 1"] JsonArr.prems(3) by auto
  then show ?case using JsonArr.prems by (simp add: canonicalClone_plainArr threadE_map)
next
  case (JsonObj fs)
  let ?w = "\<lambda>(k :: string, j). jsonNodes j"
  let ?f = "\<lambda>(key :: string, j) m. bindE (canonicalClone (jsonVal j) (d + 1) m) (\<lambda>(y, n'). Inr ((key, y), n'))"
  have "\<exists>y. canonicalClone (jsonVal j) (d + 1) m = Inr (y, m + jsonNodes j)" if "(k, j) \<in> set fs" "m + jsonNodes j \<le> maxNodes" for k j m
    using JsonObj.IH [of "(k, j)" j "r - 1"] JsonObj.prems that by (fastforce simp: list_all_iff)
  then have step: "\<exists>y. ?f x m = Inr (y, m + ?w x)" if "x \<in> set (sortKeys fs)" "m + ?w x \<le> maxNodes" for x m
    using that by (cases x) fastforce
  have "n + 1 + sum_list (map ?w (sortKeys fs)) \<le> maxNodes" using JsonObj.prems(3) by (simp add: sum_list_sortKeys)
  from threadE_counts [of "sortKeys fs" ?w maxNodes ?f, OF step this]
  obtain ys where ys: "threadE ?f (sortKeys fs) (n + 1) = Inr (ys, n + 1 + sum_list (map ?w fs))"
    by (auto simp: sum_list_sortKeys)
  have "safeKeys (map (\<lambda>(k, j). (k, jsonVal j)) fs)"
    using JsonObj.prems(1) by (auto simp: safeKeys_keys list_all_iff)
  then show ?case
    using JsonObj.prems ys by (simp add: canonicalClone_plainObj sortKeys_map threadE_map case_prod_beta')
qed (auto simp: canonicalClone_leaf)

theorem digest_total: "jsonFine maxDepth j \<Longrightarrow> jsonNodes j \<le> maxNodes \<Longrightarrow> isOk (digest cd (jsonVal j))"
  using canonicalClone_total [of maxDepth j 0 0]
  by (auto simp: digest_def toCanonicalJson_def canonicalizeJson_def)

end
