(* ===== verification/Router_Circuit.thy ===== *)
theory Router_Circuit
  imports Router_Shared
begin

text \<open>
  \<open>packages/router/src/circuit.ts\<close>: the circuit breaker of a route. A stored state carries the digest of its
  other fields; the transition parses the state it is given, decides, and seals the next state.
\<close>

section \<open>State\<close>

definition CIRCUIT_BREAKER_ALGORITHM_VERSION :: int where "CIRCUIT_BREAKER_ALGORITHM_VERSION = 1"
definition CIRCUIT_BREAKER_SCHEMA_VERSION :: int where "CIRCUIT_BREAKER_SCHEMA_VERSION = 1"

datatype circuit_phase = ClosedPhase | OpenPhase | HalfOpenPhase

fun circuitPhaseText :: "circuit_phase \<Rightarrow> string" where
  "circuitPhaseText ClosedPhase = ''closed''"
| "circuitPhaseText OpenPhase = ''open''"
| "circuitPhaseText HalfOpenPhase = ''half-open''"

definition CIRCUIT_BREAKER_PHASES :: "circuit_phase list" where
  "CIRCUIT_BREAKER_PHASES = [ClosedPhase, OpenPhase, HalfOpenPhase]"

datatype circuit_event_kind = SuccessEvent | RetryableFailure | TerminalProviderFailure | AdmitProbe

fun circuitEventKindText :: "circuit_event_kind \<Rightarrow> string" where
  "circuitEventKindText SuccessEvent = ''success''"
| "circuitEventKindText RetryableFailure = ''retryable-failure''"
| "circuitEventKindText TerminalProviderFailure = ''terminal-provider-failure''"
| "circuitEventKindText AdmitProbe = ''admit-probe''"

definition CIRCUIT_EVENT_KINDS :: "circuit_event_kind list" where
  "CIRCUIT_EVENT_KINDS = [SuccessEvent, RetryableFailure, TerminalProviderFailure, AdmitProbe]"

record circuit_identity =
  ci_providerInstanceId :: string
  ci_contractModelId :: string
  ci_operationClass :: string

record circuit_state =
  cb_identity :: circuit_identity
  cb_phase :: circuit_phase
  cb_consecutiveFailures :: int
  cb_openedAt :: "string option"
  cb_coolDownUntil :: "string option"
  cb_probeInFlight :: bool
  cb_lastEventAt :: "string option"
  cb_rememberedEventIds :: "string list"
  cb_fingerprint :: string

text \<open>The values that are digested and stored; the two version fields are constant.\<close>

definition nullableStr :: "string option \<Rightarrow> json" where
  "nullableStr x = (case x of None \<Rightarrow> JsonNull | Some s \<Rightarrow> JsonStr s)"

definition circuitIdentityJson :: "circuit_identity \<Rightarrow> json" where
  "circuitIdentityJson i = JsonObj [(''providerInstanceId'', JsonStr (ci_providerInstanceId i)),
     (''contractModelId'', JsonStr (ci_contractModelId i)), (''operationClass'', JsonStr (ci_operationClass i))]"

definition unsignedCircuitFields :: "circuit_state \<Rightarrow> (string \<times> json) list" where
  "unsignedCircuitFields s =
     [(''schemaVersion'', JsonNum (NInt CIRCUIT_BREAKER_SCHEMA_VERSION)),
      (''algorithmVersion'', JsonNum (NInt CIRCUIT_BREAKER_ALGORITHM_VERSION)),
      (''identity'', circuitIdentityJson (cb_identity s)), (''phase'', JsonStr (circuitPhaseText (cb_phase s))),
      (''consecutiveFailures'', JsonNum (NInt (cb_consecutiveFailures s))), (''openedAt'', nullableStr (cb_openedAt s)),
      (''coolDownUntil'', nullableStr (cb_coolDownUntil s)), (''probeInFlight'', JsonBool (cb_probeInFlight s)),
      (''lastEventAt'', nullableStr (cb_lastEventAt s)),
      (''rememberedEventIds'', JsonArr (map JsonStr (cb_rememberedEventIds s)))]"

definition circuitStateVal :: "circuit_state \<Rightarrow> jsval" where
  "circuitStateVal s = jsonVal (JsonObj (unsignedCircuitFields s @ [(''fingerprint'', JsonStr (cb_fingerprint s))]))"

definition circuitBreakerStateFingerprint :: "codec \<Rightarrow> circuit_state \<Rightarrow> domain_error + string" where
  "circuitBreakerStateFingerprint cd s = digest cd (jsonVal (JsonObj (unsignedCircuitFields s)))"

definition parseCircuitIdentity :: "jsval \<Rightarrow> domain_error + circuit_identity" where
  "parseCircuitIdentity value =
     bindE (ensureRecord value) (\<lambda>r.
     bindE (ensureExactKeys r [''providerInstanceId'', ''contractModelId'', ''operationClass'']) (\<lambda>_.
     bindE (ensureString (fld r ''providerInstanceId'') 1 128 SAFE_ID) (\<lambda>providerInstanceId.
     bindE (ensureString (fld r ''contractModelId'') 1 128 SAFE_ID) (\<lambda>contractModelId.
     bindE (ensureString (fld r ''operationClass'') 1 64 SAFE_KIND) (\<lambda>operationClass.
     Inr \<lparr>ci_providerInstanceId = providerInstanceId, ci_contractModelId = contractModelId, ci_operationClass = operationClass\<rparr>)))))"

definition CIRCUIT_KEYS :: "string list" where
  "CIRCUIT_KEYS = [''schemaVersion'', ''algorithmVersion'', ''identity'', ''phase'', ''consecutiveFailures'', ''openedAt'',
     ''coolDownUntil'', ''probeInFlight'', ''lastEventAt'', ''rememberedEventIds'', ''fingerprint'']"

definition inconsistentCircuit :: "circuit_state \<Rightarrow> bool" where
  "inconsistentCircuit s \<longleftrightarrow>
     (cb_phase s = ClosedPhase \<and> (cb_openedAt s \<noteq> None \<or> cb_coolDownUntil s \<noteq> None \<or> cb_probeInFlight s)) \<or>
     (cb_phase s = OpenPhase \<and> (cb_openedAt s = None \<or> cb_coolDownUntil s = None \<or> cb_probeInFlight s)) \<or>
     (cb_phase s = HalfOpenPhase \<and> (cb_openedAt s = None \<or> cb_coolDownUntil s = None \<or> \<not> cb_probeInFlight s))"

definition parseCircuitBreakerState :: "codec \<Rightarrow> jsval \<Rightarrow> domain_error + circuit_state" where
  "parseCircuitBreakerState cd value =
     bindE (ensureRecord value) (\<lambda>r.
     bindE (ensureExactKeys r CIRCUIT_KEYS) (\<lambda>_.
     bindE (ensureSchemaVersion (fld r ''schemaVersion'') CIRCUIT_BREAKER_SCHEMA_VERSION) (\<lambda>_.
     bindE (ensureSchemaVersion (fld r ''algorithmVersion'') CIRCUIT_BREAKER_ALGORITHM_VERSION) (\<lambda>_.
     bindE (ensureArray (fld r ''rememberedEventIds'') 10000) (\<lambda>raw.
     bindE (mapE (\<lambda>v. ensureString v 1 128 SAFE_ID) raw) (\<lambda>rememberedEventIds.
     if \<not> distinct rememberedEventIds then fail ''duplicate_event'' else
     bindE (parseCircuitIdentity (fld r ''identity'')) (\<lambda>identity.
     bindE (ensureEnum (fld r ''phase'') circuitPhaseText CIRCUIT_BREAKER_PHASES) (\<lambda>phase.
     bindE (ensureSafeInteger (fld r ''consecutiveFailures'') 0 1000000) (\<lambda>consecutiveFailures.
     bindE (ensureNullable (fld r ''openedAt'') ensureTimestamp) (\<lambda>openedAt.
     bindE (ensureNullable (fld r ''coolDownUntil'') ensureTimestamp) (\<lambda>coolDownUntil.
     bindE (ensureBoolean (fld r ''probeInFlight'')) (\<lambda>probeInFlight.
     bindE (ensureNullable (fld r ''lastEventAt'') ensureTimestamp) (\<lambda>lastEventAt.
     let unsigned = \<lparr>cb_identity = identity, cb_phase = phase, cb_consecutiveFailures = consecutiveFailures,
           cb_openedAt = openedAt, cb_coolDownUntil = coolDownUntil, cb_probeInFlight = probeInFlight,
           cb_lastEventAt = lastEventAt, cb_rememberedEventIds = rememberedEventIds, cb_fingerprint = []\<rparr> in
     if inconsistentCircuit unsigned then fail ''inconsistent_circuit'' else
     bindE (checkFingerprint cd (jsonVal (JsonObj (unsignedCircuitFields unsigned))) (fld r ''fingerprint'')) (\<lambda>fingerprint.
     Inr (unsigned\<lparr>cb_fingerprint := fingerprint\<rparr>)))))))))))))))"

text \<open>Parsing an unsigned state together with its digest.\<close>

definition sealCircuit :: "codec \<Rightarrow> circuit_state \<Rightarrow> domain_error + circuit_state" where
  "sealCircuit cd s =
     bindE (circuitBreakerStateFingerprint cd s) (\<lambda>fingerprint.
     parseCircuitBreakerState cd (circuitStateVal (s\<lparr>cb_fingerprint := fingerprint\<rparr>)))"

definition createCircuitBreakerState :: "codec \<Rightarrow> jsval \<Rightarrow> domain_error + circuit_state" where
  "createCircuitBreakerState cd value =
     bindE (parseCircuitIdentity value) (\<lambda>identity.
     sealCircuit cd \<lparr>cb_identity = identity, cb_phase = ClosedPhase, cb_consecutiveFailures = 0, cb_openedAt = None,
       cb_coolDownUntil = None, cb_probeInFlight = False, cb_lastEventAt = None, cb_rememberedEventIds = [], cb_fingerprint = []\<rparr>)"

section \<open>Transitions\<close>

record circuit_event =
  ce_eventId :: string
  ce_occurredAt :: string
  ce_kind :: circuit_event_kind
  ce_identityFingerprint :: string

definition parseCircuitEvent :: "jsval \<Rightarrow> domain_error + circuit_event" where
  "parseCircuitEvent value =
     bindE (ensureRecord value) (\<lambda>r.
     bindE (ensureExactKeys r [''eventId'', ''occurredAt'', ''kind'', ''identityFingerprint'']) (\<lambda>_.
     bindE (ensureString (fld r ''eventId'') 1 128 SAFE_ID) (\<lambda>eventId.
     bindE (ensureTimestamp (fld r ''occurredAt'')) (\<lambda>occurredAt.
     bindE (ensureEnum (fld r ''kind'') circuitEventKindText CIRCUIT_EVENT_KINDS) (\<lambda>kind.
     bindE (ensureString (fld r ''identityFingerprint'') 64 64 HEX_64) (\<lambda>identityFingerprint.
     Inr \<lparr>ce_eventId = eventId, ce_occurredAt = occurredAt, ce_kind = kind, ce_identityFingerprint = identityFingerprint\<rparr>))))))"

datatype circuit_code =
    SUCCESS_RECORDED | FAILURE_RECORDED | CIRCUIT_OPENED | PROBE_ADMITTED | CIRCUIT_CLOSED | CIRCUIT_REOPENED
  | DUPLICATE_EVENT | OUT_OF_ORDER_EVENT | EVENT_NOT_APPLICABLE | IDENTITY_MISMATCH

fun circuitCodeText :: "circuit_code \<Rightarrow> string" where
  "circuitCodeText SUCCESS_RECORDED = ''SUCCESS_RECORDED''"
| "circuitCodeText FAILURE_RECORDED = ''FAILURE_RECORDED''"
| "circuitCodeText CIRCUIT_OPENED = ''CIRCUIT_OPENED''"
| "circuitCodeText PROBE_ADMITTED = ''PROBE_ADMITTED''"
| "circuitCodeText CIRCUIT_CLOSED = ''CIRCUIT_CLOSED''"
| "circuitCodeText CIRCUIT_REOPENED = ''CIRCUIT_REOPENED''"
| "circuitCodeText DUPLICATE_EVENT = ''DUPLICATE_EVENT''"
| "circuitCodeText OUT_OF_ORDER_EVENT = ''OUT_OF_ORDER_EVENT''"
| "circuitCodeText EVENT_NOT_APPLICABLE = ''EVENT_NOT_APPLICABLE''"
| "circuitCodeText IDENTITY_MISMATCH = ''IDENTITY_MISMATCH''"

record circuit_transition =
  tr_accepted :: bool
  tr_code :: circuit_code
  tr_priorFingerprint :: string
  tr_state :: circuit_state
  tr_eventId :: string
  tr_fingerprint :: string

record circuit_configuration =
  cc_failureThreshold :: int
  cc_coolDownMs :: int
  cc_maximumRememberedEvents :: nat

text \<open>\<open>slice(-n)\<close>; of zero it is the whole list.\<close>

definition lastItems :: "nat \<Rightarrow> 'a list \<Rightarrow> 'a list" where
  "lastItems n xs = (if n = 0 then xs else drop (length xs - n) xs)"

definition sealState :: "codec \<Rightarrow> circuit_state \<Rightarrow> nat \<Rightarrow> domain_error + circuit_state" where
  "sealState cd s maximumRememberedEvents =
     sealCircuit cd (s\<lparr>cb_rememberedEventIds := lastItems maximumRememberedEvents (cb_rememberedEventIds s)\<rparr>)"

definition transitionResult :: "codec \<Rightarrow> bool \<Rightarrow> circuit_code \<Rightarrow> circuit_state \<Rightarrow> circuit_state \<Rightarrow> string \<Rightarrow>
    domain_error + circuit_transition" where
  "transitionResult cd accepted code prior state eventId =
     bindE (digest cd (plainObj [(''accepted'', JBool accepted), (''code'', JStr (circuitCodeText code)),
       (''priorFingerprint'', JStr (cb_fingerprint prior)), (''state'', circuitStateVal state), (''eventId'', JStr eventId)])) (\<lambda>fingerprint.
     Inr \<lparr>tr_accepted = accepted, tr_code = code, tr_priorFingerprint = cb_fingerprint prior, tr_state = state,
          tr_eventId = eventId, tr_fingerprint = fingerprint\<rparr>)"

text \<open>The instant \<open>delta\<close> milliseconds after a timestamp; \<open>toISOString\<close> throws outside the range of dates.\<close>

definition instantAfter :: "string \<Rightarrow> int \<Rightarrow> domain_error + string" where
  "instantAfter timestamp delta =
     (if validTime (dateParse timestamp + delta) then Inr (toISOString (dateParse timestamp + delta)) else Inl Foreign)"

definition transitionCircuitBreaker :: "codec \<Rightarrow> circuit_configuration \<Rightarrow> jsval \<Rightarrow> jsval \<Rightarrow> domain_error + circuit_transition" where
  "transitionCircuitBreaker cd configuration stateValue eventValue =
     bindE (parseCircuitBreakerState cd stateValue) (\<lambda>state.
     bindE (parseCircuitEvent eventValue) (\<lambda>event.
     bindE (digest cd (jsonVal (circuitIdentityJson (cb_identity state)))) (\<lambda>identityFingerprint.
     if ce_identityFingerprint event \<noteq> identityFingerprint then transitionResult cd False IDENTITY_MISMATCH state state (ce_eventId event)
     else if ce_eventId event \<in> set (cb_rememberedEventIds state) then transitionResult cd True DUPLICATE_EVENT state state (ce_eventId event)
     else if (case cb_lastEventAt state of None \<Rightarrow> False | Some lastEventAt \<Rightarrow> strLeq (ce_occurredAt event) lastEventAt) then
       transitionResult cd False OUT_OF_ORDER_EVENT state state (ce_eventId event)
     else
       let common = state\<lparr>cb_lastEventAt := Some (ce_occurredAt event),
             cb_rememberedEventIds := cb_rememberedEventIds state @ [ce_eventId event], cb_fingerprint := []\<rparr>;
           settle = (\<lambda>code next. bindE (sealState cd next (cc_maximumRememberedEvents configuration)) (\<lambda>next.
             transitionResult cd True code state next (ce_eventId event))) in
       if ce_kind event = AdmitProbe then
         (if cb_phase state \<noteq> OpenPhase \<or>
             (case cb_coolDownUntil state of None \<Rightarrow> True | Some until \<Rightarrow> strLess (ce_occurredAt event) until) then
            transitionResult cd False EVENT_NOT_APPLICABLE state state (ce_eventId event)
          else settle PROBE_ADMITTED (common\<lparr>cb_phase := HalfOpenPhase, cb_probeInFlight := True\<rparr>))
       else if cb_phase state = OpenPhase then transitionResult cd False EVENT_NOT_APPLICABLE state state (ce_eventId event)
       else if ce_kind event = SuccessEvent then
         settle (if cb_phase state = HalfOpenPhase then CIRCUIT_CLOSED else SUCCESS_RECORDED)
           (common\<lparr>cb_phase := ClosedPhase, cb_consecutiveFailures := 0, cb_openedAt := None, cb_coolDownUntil := None,
              cb_probeInFlight := False\<rparr>)
       else
         bindE (ensureSafeInteger (jsInt (cb_consecutiveFailures state + 1)) 0 1000000) (\<lambda>nextFailureCount.
         if cb_phase state = HalfOpenPhase \<or> nextFailureCount \<ge> cc_failureThreshold configuration then
           bindE (instantAfter (ce_occurredAt event) (cc_coolDownMs configuration)) (\<lambda>coolDownUntil.
           settle (if cb_phase state = HalfOpenPhase then CIRCUIT_REOPENED else CIRCUIT_OPENED)
             (common\<lparr>cb_phase := OpenPhase, cb_consecutiveFailures := nextFailureCount, cb_openedAt := Some (ce_occurredAt event),
                cb_coolDownUntil := Some coolDownUntil, cb_probeInFlight := False\<rparr>))
         else
           settle FAILURE_RECORDED
             (common\<lparr>cb_phase := ClosedPhase, cb_consecutiveFailures := nextFailureCount, cb_openedAt := None,
                cb_coolDownUntil := None, cb_probeInFlight := False\<rparr>)))))"

definition circuitIdentityFingerprint :: "codec \<Rightarrow> jsval \<Rightarrow> domain_error + string" where
  "circuitIdentityFingerprint cd value =
     bindE (parseCircuitIdentity value) (\<lambda>identity. digest cd (jsonVal (circuitIdentityJson identity)))"

end
