(* ===== verification/Router_Circuit_Laws.thy ===== *)
theory Router_Circuit_Laws
  imports Router_Circuit Command_Interfaces Account_Storage
begin

text \<open>
  The circuit breaker: what a parsed state satisfies, that storing and parsing gives the state back, that a
  transition cannot fail once its inputs are parsed and its arithmetic stays in range, and that it implements
  the three-phase breaker \<open>breakerStep\<close>.
\<close>

section \<open>Well-formed states\<close>

definition identityOk :: "circuit_identity \<Rightarrow> bool" where
  "identityOk i \<longleftrightarrow> SAFE_ID (ci_providerInstanceId i) \<and> SAFE_ID (ci_contractModelId i) \<and> SAFE_KIND (ci_operationClass i)"

definition circuitBody :: "circuit_state \<Rightarrow> bool" where
  "circuitBody s \<longleftrightarrow> identityOk (cb_identity s) \<and> 0 \<le> cb_consecutiveFailures s \<and> cb_consecutiveFailures s \<le> 1000000 \<and>
     pred_option timestampText (cb_openedAt s) \<and> pred_option timestampText (cb_coolDownUntil s) \<and>
     pred_option timestampText (cb_lastEventAt s) \<and> length (cb_rememberedEventIds s) \<le> 10000 \<and>
     list_all SAFE_ID (cb_rememberedEventIds s) \<and> distinct (cb_rememberedEventIds s) \<and> \<not> inconsistentCircuit s"

definition circuitOk :: "codec \<Rightarrow> circuit_state \<Rightarrow> bool" where
  "circuitOk cd s \<longleftrightarrow> circuitBody s \<and> HEX_64 (cb_fingerprint s) \<and> circuitBreakerStateFingerprint cd s = Inr (cb_fingerprint s)"

lemma SAFE_ID_length: "SAFE_ID s \<Longrightarrow> 1 \<le> length s \<and> length s \<le> 128"
  by (cases s) (auto simp: SAFE_ID_def)

lemma SAFE_KIND_length: "SAFE_KIND s \<Longrightarrow> 1 \<le> length s \<and> length s \<le> 64"
  by (cases s) (auto simp: SAFE_KIND_def)

lemma ensureString_safe [simp]:
  "SAFE_ID s \<Longrightarrow> ensureString (JStr s) (Suc 0) 128 SAFE_ID = Inr s"
  "SAFE_KIND s \<Longrightarrow> ensureString (JStr s) (Suc 0) 64 SAFE_KIND = Inr s"
  "HEX_64 s \<Longrightarrow> ensureString (JStr s) 64 64 HEX_64 = Inr s"
  using SAFE_ID_length [of s] SAFE_KIND_length [of s] by (auto simp: ensureString.simps HEX_64_def)

lemma inj_circuit_texts [simp]: "inj circuitPhaseText" "inj circuitEventKindText"
  by (auto intro!: injI elim!: circuitPhaseText.elims circuitEventKindText.elims)

lemma circuit_members [simp]: "set CIRCUIT_BREAKER_PHASES = UNIV" "set CIRCUIT_EVENT_KINDS = UNIV"
  by (auto simp: CIRCUIT_BREAKER_PHASES_def CIRCUIT_EVENT_KINDS_def intro: circuit_phase.exhaust circuit_event_kind.exhaust)

lemma unsignedCircuitFields_fingerprint [simp]: "unsignedCircuitFields (s\<lparr>cb_fingerprint := f\<rparr>) = unsignedCircuitFields s"
  by (simp add: unsignedCircuitFields_def)

lemma circuitBody_fingerprint [simp]: "circuitBody (s\<lparr>cb_fingerprint := f\<rparr>) = circuitBody s"
  by (simp add: circuitBody_def inconsistentCircuit_def)

lemma jsonVal_nullableStr [simp]: "jsonVal (nullableStr x) = jsNullable JStr x"
  by (cases x) (simp_all add: nullableStr_def)

lemma parseCircuitIdentity_Inr: "parseCircuitIdentity v = Inr i \<Longrightarrow> identityOk i"
  by (auto simp: parseCircuitIdentity_def identityOk_def bindE_Inr_iff)

lemma parseCircuitIdentity_val [simp]: "identityOk i \<Longrightarrow> parseCircuitIdentity (jsonVal (circuitIdentityJson i)) = Inr i"
  by (simp add: parseCircuitIdentity_def identityOk_def circuitIdentityJson_def DANGEROUS_OBJECT_KEYS_def flip: plainObj_def)


lemma identity_record [simp]:
  "identityOk i \<Longrightarrow> parseCircuitIdentity (plainObj [(''providerInstanceId'', JStr (ci_providerInstanceId i)),
     (''contractModelId'', JStr (ci_contractModelId i)), (''operationClass'', JStr (ci_operationClass i))]) = Inr i"
  using parseCircuitIdentity_val [of i] by (simp add: circuitIdentityJson_def)

lemma remembered_val [simp]:
  "list_all SAFE_ID ids \<Longrightarrow> mapE (\<lambda>v. ensureString v (Suc 0) 128 SAFE_ID) (map JStr ids) = Inr ids"
  using mapE_map_Inr [of ids "\<lambda>v. ensureString v (Suc 0) 128 SAFE_ID" JStr "\<lambda>x. x"] by (simp add: list_all_iff)

text \<open>Parsing the stored form of a well-formed state gives it back.\<close>

theorem parseCircuitBreakerState_val:
  assumes "circuitOk cd s"
  shows "parseCircuitBreakerState cd (circuitStateVal s) = Inr s"
proof -
  have body: "circuitBody s" and fp: "HEX_64 (cb_fingerprint s)" "digest cd (jsonVal (JsonObj (unsignedCircuitFields s))) = Inr (cb_fingerprint s)"
    using assms by (simp_all add: circuitOk_def circuitBreakerStateFingerprint_def)
  let ?u = "\<lparr>cb_identity = cb_identity s, cb_phase = cb_phase s, cb_consecutiveFailures = cb_consecutiveFailures s,
     cb_openedAt = cb_openedAt s, cb_coolDownUntil = cb_coolDownUntil s, cb_probeInFlight = cb_probeInFlight s,
     cb_lastEventAt = cb_lastEventAt s, cb_rememberedEventIds = cb_rememberedEventIds s, cb_fingerprint = []\<rparr>"
  have u: "?u = s\<lparr>cb_fingerprint := []\<rparr>" by simp
  have consistent: "\<not> inconsistentCircuit ?u" using body by (simp add: circuitBody_def inconsistentCircuit_def)
  have seal: "checkFingerprint cd (jsonVal (JsonObj (unsignedCircuitFields ?u))) (JStr (cb_fingerprint s)) = Inr (cb_fingerprint s)"
    using fp unfolding u unsignedCircuitFields_fingerprint by (simp add: checkFingerprint_def)
  have val: "circuitStateVal s = plainObj (map (\<lambda>(k, j). (k, jsonVal j)) (unsignedCircuitFields s) @ [(''fingerprint'', JStr (cb_fingerprint s))])"
    by (simp add: circuitStateVal_def)
  show ?thesis
    using body consistent seal
    unfolding parseCircuitBreakerState_def val
    by (simp add: circuitBody_def unsignedCircuitFields_def circuitIdentityJson_def DANGEROUS_OBJECT_KEYS_def CIRCUIT_KEYS_def Let_def comp_def
        abs_le_iff)
qed

theorem parseCircuitBreakerState_Inr:
  assumes "parseCircuitBreakerState cd v = Inr s"
  shows "circuitOk cd s"
proof -
  from assms obtain r raw i p n opened until probe at ids f where
      parts: "ensureArray (fld r ''rememberedEventIds'') 10000 = Inr raw" "mapE (\<lambda>v. ensureString v 1 128 SAFE_ID) raw = Inr ids"
        "distinct ids" "parseCircuitIdentity (fld r ''identity'') = Inr i"
        "ensureSafeInteger (fld r ''consecutiveFailures'') 0 1000000 = Inr n"
        "ensureNullable (fld r ''openedAt'') ensureTimestamp = Inr opened"
        "ensureNullable (fld r ''coolDownUntil'') ensureTimestamp = Inr until"
        "ensureNullable (fld r ''lastEventAt'') ensureTimestamp = Inr at"
      and s: "s = \<lparr>cb_identity = i, cb_phase = p, cb_consecutiveFailures = n, cb_openedAt = opened, cb_coolDownUntil = until,
        cb_probeInFlight = probe, cb_lastEventAt = at, cb_rememberedEventIds = ids, cb_fingerprint = f\<rparr>"
      and consistent: "\<not> inconsistentCircuit (s\<lparr>cb_fingerprint := []\<rparr>)"
      and seal: "checkFingerprint cd (jsonVal (JsonObj (unsignedCircuitFields (s\<lparr>cb_fingerprint := []\<rparr>)))) (fld r ''fingerprint'') = Inr f"
    by (simp only: parseCircuitBreakerState_def Let_def bindE_Inr_iff if_Inl_Inr not_not sum.inject, elim exE conjE, hypsubst)
      (simp only: circuit_state.update_convs, blast)
  have "list_all SAFE_ID ids" "length ids \<le> 10000"
    using mapE_set [OF parts(2)] mapE_length [OF parts(2)] ensureArray_length [OF parts(1)] by (auto simp: list_all_iff)
  moreover have "HEX_64 f \<and> circuitBreakerStateFingerprint cd s = Inr f"
    using seal unfolding unsignedCircuitFields_fingerprint
    by (auto simp: checkFingerprint_def bindE_Inr_iff circuitBreakerStateFingerprint_def split: if_splits)
  moreover have "\<not> inconsistentCircuit s" using consistent by (simp add: inconsistentCircuit_def)
  ultimately show ?thesis
    using parts(3-8) ensureSafeInteger_range [OF parts(5)] parseCircuitIdentity_Inr timestamp_nullable
    by (simp add: circuitOk_def circuitBody_def s)
qed

section \<open>Sealing\<close>

lemma kept_texts: "mapE (\<lambda>v. ensureString v mn mx p) (map JStr xs) = Inr ys \<Longrightarrow> ys = xs"
  by (induction xs arbitrary: ys) (auto simp: bindE_Inr_iff)

lemma kept_timestamp: "ensureNullable (jsNullable JStr x) ensureTimestamp = Inr y \<Longrightarrow> y = x"
  by (cases x) (auto simp: ensureNullable_Inr)

lemma kept_array: "ensureArray (plainArr vs) m = Inr ws \<Longrightarrow> ws = vs"
  using ensureArray_plainArr [of vs m] by (cases "length vs \<le> m") (auto simp: plainArr_def ensureArray.simps)

lemma kept_integer: "ensureSafeInteger (jsInt i) lo hi = Inr j \<Longrightarrow> j = i"
  by (auto simp: ensureSafeInteger_Inr)

lemma kept_identity: "parseCircuitIdentity (jsonVal (circuitIdentityJson i)) = Inr j \<Longrightarrow> j = i"
  by (auto simp: parseCircuitIdentity_def circuitIdentityJson_def DANGEROUS_OBJECT_KEYS_def bindE_Inr_iff)

lemma parsed_value_kept:
  assumes "parseCircuitBreakerState cd (circuitStateVal s) = Inr t"
  shows "t = s"
proof -
  have val: "circuitStateVal s = plainObj (map (\<lambda>(k, j). (k, jsonVal j)) (unsignedCircuitFields s) @ [(''fingerprint'', JStr (cb_fingerprint s))])"
    by (simp add: circuitStateVal_def)
  have identity: "jsonVal (circuitIdentityJson (cb_identity s)) = jsonVal (circuitIdentityJson i) \<Longrightarrow> cb_identity s = i" for i
    by (cases i; cases "cb_identity s") (auto simp: circuitIdentityJson_def plainObj_def)
  show ?thesis
    using assms unfolding parseCircuitBreakerState_def val
    by (auto simp: unsignedCircuitFields_def DANGEROUS_OBJECT_KEYS_def CIRCUIT_KEYS_def Let_def bindE_Inr_iff checkFingerprint_def comp_def
        simp del: jsonVal.simps(6) dest!: kept_array kept_texts kept_timestamp kept_integer kept_identity split: if_splits)
qed

lemma sealCircuit_Inr:
  assumes "sealCircuit cd s = Inr t"
  shows "circuitOk cd t \<and> t = s\<lparr>cb_fingerprint := cb_fingerprint t\<rparr>"
proof -
  from assms obtain f where p: "parseCircuitBreakerState cd (circuitStateVal (s\<lparr>cb_fingerprint := f\<rparr>)) = Inr t"
    by (auto simp: sealCircuit_def bindE_Inr_iff)
  show ?thesis using parseCircuitBreakerState_Inr [OF p] parsed_value_kept [OF p] by simp
qed

text \<open>A SHA-256 digest written in hexadecimal has 64 lower-case hexadecimal digits.\<close>

definition hexDigests :: "codec \<Rightarrow> bool" where
  "hexDigests cd \<longleftrightarrow> (\<forall>text. HEX_64 (cd_sha256 cd text))"

lemma digest_hex: "hexDigests cd \<Longrightarrow> digest cd v = Inr f \<Longrightarrow> HEX_64 f"
  by (auto simp: digest_def bindE_Inr_iff hexDigests_def)

lemma stamp_short: "timestampText s \<Longrightarrow> length s \<le> maxStringLength"
  by (simp add: timestampText_def maxStringLength_def)

lemma fine_texts:
  "SAFE_ID s \<Longrightarrow> jsonFine r (JsonStr s)" "SAFE_KIND s \<Longrightarrow> jsonFine r (JsonStr s)" "HEX_64 s \<Longrightarrow> jsonFine r (JsonStr s)"
  "pred_option timestampText x \<Longrightarrow> jsonFine r (nullableStr x)"
  using SAFE_ID_length [of s] SAFE_KIND_length [of s]
  by (auto simp: maxStringLength_def HEX_64_def nullableStr_def timestampText_def split: option.splits)

lemma fine_phase: "jsonFine r (JsonStr (circuitPhaseText p))" "jsonFine r (JsonStr (circuitCodeText c))"
  by (cases p; simp add: maxStringLength_def) (cases c; simp add: maxStringLength_def)

lemma nodes_texts: "sum_list (map (jsonNodes \<circ> JsonStr) xs) = length xs" "jsonNodes (nullableStr x) = 1"
  by (induction xs) (auto simp: nullableStr_def split: option.splits)

lemma fine_circuit:
  assumes "circuitBody s"
  shows "2 \<le> r \<Longrightarrow> jsonFine r (JsonObj (unsignedCircuitFields s))" and "jsonNodes (JsonObj (unsignedCircuitFields s)) \<le> 10020"
proof -
  show "2 \<le> r \<Longrightarrow> jsonFine r (JsonObj (unsignedCircuitFields s))"
    using assms fine_texts fine_phase
    by (simp add: circuitBody_def identityOk_def unsignedCircuitFields_def circuitIdentityJson_def DANGEROUS_OBJECT_KEYS_def maxNodes_def
        list_all_iff del: jsonFine.simps(2))
  show "jsonNodes (JsonObj (unsignedCircuitFields s)) \<le> 10020"
    using assms by (simp add: circuitBody_def unsignedCircuitFields_def circuitIdentityJson_def nodes_texts)
qed

text \<open>Sealing a well-formed body succeeds.\<close>

theorem sealCircuit_total:
  assumes "hexDigests cd" and "circuitBody s"
  obtains t where "sealCircuit cd s = Inr t"
proof -
  have "isOk (digest cd (jsonVal (JsonObj (unsignedCircuitFields s))))"
    using fine_circuit [OF assms(2)] by (intro digest_total) (simp_all only: maxDepth_def maxNodes_def)
  then obtain f where f: "circuitBreakerStateFingerprint cd s = Inr f" by (auto simp: isOk_iff circuitBreakerStateFingerprint_def)
  then have "circuitOk cd (s\<lparr>cb_fingerprint := f\<rparr>)"
    using assms digest_hex by (auto simp: circuitOk_def circuitBreakerStateFingerprint_def)
  from parseCircuitBreakerState_val [OF this] have "sealCircuit cd s = Inr (s\<lparr>cb_fingerprint := f\<rparr>)"
    by (simp add: sealCircuit_def f)
  then show ?thesis by (rule that)
qed

lemma transitionResult_Inr:
  "transitionResult cd a c p s i = Inr t \<Longrightarrow>
     tr_accepted t = a \<and> tr_code t = c \<and> tr_priorFingerprint t = cb_fingerprint p \<and> tr_state t = s \<and> tr_eventId t = i"
  by (auto simp: transitionResult_def bindE_Inr_iff)

lemma transitionResult_total:
  assumes "circuitOk cd p" and "circuitOk cd s" and "SAFE_ID i"
  shows "isOk (transitionResult cd a c p s i)"
proof -
  let ?j = "JsonObj [(''accepted'', JsonBool a), (''code'', JsonStr (circuitCodeText c)),
     (''priorFingerprint'', JsonStr (cb_fingerprint p)),
     (''state'', JsonObj (unsignedCircuitFields s @ [(''fingerprint'', JsonStr (cb_fingerprint s))])), (''eventId'', JsonStr i)]"
  have s: "circuitBody s" "HEX_64 (cb_fingerprint s)" "HEX_64 (cb_fingerprint p)" using assms by (simp_all add: circuitOk_def)
  have "isOk (digest cd (jsonVal ?j))"
    using s fine_texts fine_phase assms(3) fine_circuit(1) [OF s(1), of 63] fine_circuit(2) [OF s(1)]
    by (intro digest_total) (simp_all add: maxDepth_def maxNodes_def DANGEROUS_OBJECT_KEYS_def del: jsonFine.simps(2))
  then show ?thesis by (auto simp: transitionResult_def isOk_iff circuitStateVal_def)
qed

section \<open>The abstract breaker\<close>

text \<open>
  \<open>Counting n\<close>: closed, with \<open>n\<close> failures in a row; \<open>Tripped n t\<close>: open, no probe before \<open>t\<close>; \<open>Probing n t\<close>:
  half open, one probe under way. \<open>None\<close>: the event does not apply. The instants are in milliseconds.
\<close>

datatype breaker = Counting int | Tripped int int | Probing int int

fun breakerStep :: "int \<Rightarrow> int \<Rightarrow> circuit_event_kind \<Rightarrow> int \<Rightarrow> breaker \<Rightarrow> breaker option" where
  "breakerStep threshold coolDown AdmitProbe at (Tripped n until) = (if at < until then None else Some (Probing n until))"
| "breakerStep threshold coolDown AdmitProbe at _ = None"
| "breakerStep threshold coolDown _ at (Tripped n until) = None"
| "breakerStep threshold coolDown SuccessEvent at _ = Some (Counting 0)"
| "breakerStep threshold coolDown _ at (Counting n) =
     Some (if n + 1 \<ge> threshold then Tripped (n + 1) (at + coolDown) else Counting (n + 1))"
| "breakerStep threshold coolDown _ at (Probing n until) = Some (Tripped (n + 1) (at + coolDown))"

definition breakerOf :: "circuit_state \<Rightarrow> breaker" where
  "breakerOf s = (case cb_phase s of
     ClosedPhase \<Rightarrow> Counting (cb_consecutiveFailures s)
   | OpenPhase \<Rightarrow> Tripped (cb_consecutiveFailures s) (dateParse (the (cb_coolDownUntil s)))
   | HalfOpenPhase \<Rightarrow> Probing (cb_consecutiveFailures s) (dateParse (the (cb_coolDownUntil s))))"

lemma breakerOf_fingerprint [simp]: "breakerOf (s\<lparr>cb_fingerprint := f\<rparr>) = breakerOf s"
  by (cases "cb_phase s") (simp_all add: breakerOf_def)

text \<open>Which event, if any, the transition applies; \<open>None\<close>: the state stays as it is.\<close>

definition fresh :: "codec \<Rightarrow> circuit_state \<Rightarrow> circuit_event \<Rightarrow> bool" where
  "fresh cd s e \<longleftrightarrow> digest cd (jsonVal (circuitIdentityJson (cb_identity s))) = Inr (ce_identityFingerprint e) \<and>
     ce_eventId e \<notin> set (cb_rememberedEventIds s) \<and>
     (case cb_lastEventAt s of None \<Rightarrow> True | Some at \<Rightarrow> \<not> strLeq (ce_occurredAt e) at)"

definition followUp :: "circuit_configuration \<Rightarrow> circuit_event \<Rightarrow> circuit_state \<Rightarrow> circuit_state \<Rightarrow> bool" where
  "followUp cfg e s t \<longleftrightarrow> cb_identity t = cb_identity s \<and> cb_lastEventAt t = Some (ce_occurredAt e) \<and>
     cb_rememberedEventIds t = lastItems (cc_maximumRememberedEvents cfg) (cb_rememberedEventIds s @ [ce_eventId e]) \<and>
     (cb_phase t = OpenPhase \<longrightarrow> cb_openedAt t = Some (ce_occurredAt e))"

lemma sealState_Inr:
  assumes "sealState cd n m = Inr t"
  shows "circuitOk cd t \<and> t = n\<lparr>cb_rememberedEventIds := lastItems m (cb_rememberedEventIds n), cb_fingerprint := cb_fingerprint t\<rparr>"
  using sealCircuit_Inr [OF assms [unfolded sealState_def]] by simp

lemma instantAfter_Inr: "instantAfter s d = Inr t \<Longrightarrow> dateParse t = dateParse s + d"
  by (auto simp: instantAfter_def split: if_splits)

definition appliedCodes :: "circuit_code set" where
  "appliedCodes = {SUCCESS_RECORDED, FAILURE_RECORDED, CIRCUIT_OPENED, PROBE_ADMITTED, CIRCUIT_CLOSED, CIRCUIT_REOPENED}"


lemma stale_iff:
  "(case at of None \<Rightarrow> True | Some t \<Rightarrow> \<not> strLeq o' t) \<longleftrightarrow> \<not> (case at of None \<Rightarrow> False | Some t \<Rightarrow> strLeq o' t)"
  by (cases at) simp_all

lemma transition_identity:
  assumes "transitionCircuitBreaker cd cfg sv ev = Inr t" and "parseCircuitBreakerState cd sv = Inr s" and "parseCircuitEvent ev = Inr e"
  obtains f where "digest cd (jsonVal (circuitIdentityJson (cb_identity s))) = Inr f"
  using assms unfolding transitionCircuitBreaker_def by (simp only: bindE_simps bindE_Inr_iff) blast

lemma not_fresh_Inr:
  assumes "transitionCircuitBreaker cd cfg sv ev = Inr t" and "parseCircuitBreakerState cd sv = Inr s" and "parseCircuitEvent ev = Inr e"
    and "\<not> fresh cd s e"
  shows "tr_state t = s \<and> tr_code t \<in> {IDENTITY_MISMATCH, DUPLICATE_EVENT, OUT_OF_ORDER_EVENT} \<and>
    (tr_accepted t \<longleftrightarrow> tr_code t = DUPLICATE_EVENT)"
proof -
  obtain f where f: "digest cd (jsonVal (circuitIdentityJson (cb_identity s))) = Inr f" by (rule transition_identity [OF assms(1-3)])
  consider "ce_identityFingerprint e \<noteq> f" | "ce_identityFingerprint e = f" "ce_eventId e \<in> set (cb_rememberedEventIds s)"
    | "ce_identityFingerprint e = f" "ce_eventId e \<notin> set (cb_rememberedEventIds s)"
      "case cb_lastEventAt s of None \<Rightarrow> False | Some lastEventAt \<Rightarrow> strLeq (ce_occurredAt e) lastEventAt"
    using assms(4) f by (auto simp: fresh_def stale_iff)
  then show ?thesis
  proof cases
    case 1
    then show ?thesis using assms(1-3) f transitionResult_Inr by (simp add: transitionCircuitBreaker_def)
  next
    case 2
    then show ?thesis using assms(1-3) f transitionResult_Inr by (simp add: transitionCircuitBreaker_def)
  next
    case 3
    then show ?thesis using assms(1-3) f transitionResult_Inr by (simp add: transitionCircuitBreaker_def)
  qed
qed

lemma settled_Inr:
  assumes "bindE (sealState cd n (cc_maximumRememberedEvents cfg)) (\<lambda>n. transitionResult cd True c s n i) = Inr t"
    and "i = ce_eventId e" and "n = s\<lparr>cb_lastEventAt := Some (ce_occurredAt e), cb_rememberedEventIds := cb_rememberedEventIds s @ [ce_eventId e],
      cb_fingerprint := [], cb_phase := p, cb_consecutiveFailures := k, cb_openedAt := opened, cb_coolDownUntil := until, cb_probeInFlight := probe\<rparr>"
    and "p = OpenPhase \<Longrightarrow> opened = Some (ce_occurredAt e)"
  shows "tr_accepted t \<and> tr_code t = c \<and> circuitOk cd (tr_state t) \<and> followUp cfg e s (tr_state t) \<and>
    cb_phase (tr_state t) = p \<and> cb_consecutiveFailures (tr_state t) = k \<and> cb_coolDownUntil (tr_state t) = until"
proof -
  from assms(1) obtain m where m: "sealState cd n (cc_maximumRememberedEvents cfg) = Inr m" "transitionResult cd True c s m i = Inr t"
    by (auto simp: bindE_Inr_iff)
  note st = sealState_Inr [OF m(1)] and tr = transitionResult_Inr [OF m(2)]
  have eq: "m = n\<lparr>cb_rememberedEventIds := lastItems (cc_maximumRememberedEvents cfg) (cb_rememberedEventIds n), cb_fingerprint := cb_fingerprint m\<rparr>"
    using st by blast
  note kept = arg_cong [OF eq, of cb_identity, simplified]
    arg_cong [OF eq, of cb_lastEventAt, simplified]
    arg_cong [OF eq, of cb_phase, simplified]
    arg_cong [OF eq, of cb_rememberedEventIds, simplified]
    arg_cong [OF eq, of cb_openedAt, simplified]
    arg_cong [OF eq, of cb_consecutiveFailures, simplified]
    arg_cong [OF eq, of cb_coolDownUntil, simplified]
  show ?thesis using st tr kept assms(2-4) by (simp add: followUp_def)
qed

theorem fresh_Inr:
  assumes run: "transitionCircuitBreaker cd cfg sv ev = Inr t" and s: "parseCircuitBreakerState cd sv = Inr s"
    and e: "parseCircuitEvent ev = Inr e" and "fresh cd s e"
    and years: "cb_phase s = OpenPhase \<Longrightarrow> pred_option fourDigitStamp (cb_coolDownUntil s)" "fourDigitStamp (ce_occurredAt e)"
  shows "case breakerStep (cc_failureThreshold cfg) (cc_coolDownMs cfg) (ce_kind e) (dateParse (ce_occurredAt e)) (breakerOf s) of
      None \<Rightarrow> tr_state t = s \<and> tr_code t = EVENT_NOT_APPLICABLE \<and> \<not> tr_accepted t
    | Some b \<Rightarrow> breakerOf (tr_state t) = b \<and> tr_code t \<in> appliedCodes \<and> tr_accepted t \<and> followUp cfg e s (tr_state t) \<and> circuitOk cd (tr_state t)"
proof -
  have ok: "\<not> inconsistentCircuit s" using parseCircuitBreakerState_Inr [OF s] by (simp add: circuitOk_def circuitBody_def)
  obtain f where f: "digest cd (jsonVal (circuitIdentityJson (cb_identity s))) = Inr f" by (rule transition_identity [OF run s e])
  have new: "ce_identityFingerprint e = f" "ce_eventId e \<notin> set (cb_rememberedEventIds s)"
      "\<not> (case cb_lastEventAt s of None \<Rightarrow> False | Some lastEventAt \<Rightarrow> strLeq (ce_occurredAt e) lastEventAt)"
    using \<open>fresh cd s e\<close> f by (auto simp: fresh_def stale_iff)
  note known = run [unfolded transitionCircuitBreaker_def s e f bindE_simps, simplified new if_False not_True_eq_False simp_thms, unfolded Let_def]
  have rejected: "breakerStep (cc_failureThreshold cfg) (cc_coolDownMs cfg) (ce_kind e) (dateParse (ce_occurredAt e)) (breakerOf s) = None
      \<Longrightarrow> transitionResult cd False EVENT_NOT_APPLICABLE s s (ce_eventId e) = Inr t \<Longrightarrow> ?thesis"
    by (drule transitionResult_Inr) simp
  have failing: "cb_phase s \<noteq> OpenPhase \<Longrightarrow> ce_kind e = RetryableFailure \<or> ce_kind e = TerminalProviderFailure \<Longrightarrow> ?thesis"
  proof -
    assume phase: "cb_phase s \<noteq> OpenPhase" and kind: "ce_kind e = RetryableFailure \<or> ce_kind e = TerminalProviderFailure"
    let ?n = "cb_consecutiveFailures s + 1"
    let ?next = "\<lambda>p opened until. s\<lparr>cb_lastEventAt := Some (ce_occurredAt e), cb_rememberedEventIds := cb_rememberedEventIds s @ [ce_eventId e],
      cb_fingerprint := [], cb_phase := p, cb_consecutiveFailures := ?n, cb_openedAt := opened, cb_coolDownUntil := until, cb_probeInFlight := False\<rparr>"
    let ?settle = "\<lambda>c n. bindE (sealState cd n (cc_maximumRememberedEvents cfg)) (\<lambda>n. transitionResult cd True c s n (ce_eventId e)) = Inr t"
    have kinds: "ce_kind e \<noteq> AdmitProbe" "ce_kind e \<noteq> SuccessEvent" using kind by auto
    obtain k where "ensureSafeInteger (jsInt ?n) 0 1000000 = Inr k"
      using known phase kinds by (auto simp: bindE_Inr_iff [of "ensureSafeInteger _ _ _"])
    then have safe: "ensureSafeInteger (jsInt ?n) 0 1000000 = Inr ?n" using kept_integer by blast
    show ?thesis
    proof (cases "cb_phase s = HalfOpenPhase \<or> ?n \<ge> cc_failureThreshold cfg")
      case True
      then obtain until where u: "instantAfter (ce_occurredAt e) (cc_coolDownMs cfg) = Inr until"
        and settle: "?settle (if cb_phase s = HalfOpenPhase then CIRCUIT_REOPENED else CIRCUIT_OPENED) (?next OpenPhase (Some (ce_occurredAt e)) (Some until))"
        using known phase kinds safe by (auto simp: bindE_Inr_iff [of "instantAfter _ _"])
      from settled_Inr [OF settle refl refl] show ?thesis
        using True phase kind instantAfter_Inr [OF u] by (cases "cb_phase s") (auto simp: breakerOf_def appliedCodes_def)
    next
      case False
      then have settle: "?settle FAILURE_RECORDED (?next ClosedPhase None None)"
        using known phase kinds safe by simp
      from settled_Inr [OF settle refl refl] show ?thesis
        using False phase kind by (cases "cb_phase s") (auto simp: breakerOf_def appliedCodes_def)
    qed
  qed
  show ?thesis
  proof (cases "ce_kind e")
    case AdmitProbe
    show ?thesis
    proof (cases "cb_phase s")
      case OpenPhase
      then obtain u where u: "cb_coolDownUntil s = Some u" using ok by (auto simp: inconsistentCircuit_def)
      then have order: "strLess (ce_occurredAt e) u \<longleftrightarrow> dateParse (ce_occurredAt e) < dateParse u" using years(1) [OF OpenPhase] years(2) strLess_stamps by simp
      show ?thesis
      proof (cases "strLess (ce_occurredAt e) u")
        case True
        then show ?thesis using known AdmitProbe OpenPhase u order by (intro rejected) (simp_all add: breakerOf_def)
      next
        case False
        then have "bindE (sealState cd (s\<lparr>cb_lastEventAt := Some (ce_occurredAt e), cb_rememberedEventIds := cb_rememberedEventIds s @ [ce_eventId e],
              cb_fingerprint := [], cb_phase := HalfOpenPhase, cb_probeInFlight := True\<rparr>) (cc_maximumRememberedEvents cfg))
            (\<lambda>n. transitionResult cd True PROBE_ADMITTED s n (ce_eventId e)) = Inr t"
          using known AdmitProbe OpenPhase u by simp
        from settled_Inr [OF this refl, where p = HalfOpenPhase and k = "cb_consecutiveFailures s" and opened = "cb_openedAt s" and until = "cb_coolDownUntil s" and probe = True]
        show ?thesis using False AdmitProbe OpenPhase u order by (simp add: breakerOf_def appliedCodes_def)
      qed
    qed (use known AdmitProbe in \<open>intro rejected; simp add: breakerOf_def\<close>)+
  next
    case SuccessEvent
    show ?thesis
    proof (cases "cb_phase s = OpenPhase")
      case True
      then show ?thesis using known SuccessEvent by (intro rejected) (simp_all add: breakerOf_def)
    next
      case False
      then have "bindE (sealState cd (s\<lparr>cb_lastEventAt := Some (ce_occurredAt e), cb_rememberedEventIds := cb_rememberedEventIds s @ [ce_eventId e],
            cb_fingerprint := [], cb_phase := ClosedPhase, cb_consecutiveFailures := 0, cb_openedAt := None, cb_coolDownUntil := None,
            cb_probeInFlight := False\<rparr>) (cc_maximumRememberedEvents cfg))
          (\<lambda>n. transitionResult cd True (if cb_phase s = HalfOpenPhase then CIRCUIT_CLOSED else SUCCESS_RECORDED) s n (ce_eventId e)) = Inr t"
        using known SuccessEvent by simp
      from settled_Inr [OF this refl refl]
      show ?thesis using False SuccessEvent by (cases "cb_phase s") (simp_all add: breakerOf_def appliedCodes_def)
    qed
  qed (use failing known rejected in \<open>cases "cb_phase s"; simp add: breakerOf_def\<close>)+
qed

section \<open>Transitions that cannot fail\<close>

lemma parseCircuitEvent_Inr: "parseCircuitEvent v = Inr e \<Longrightarrow> SAFE_ID (ce_eventId e) \<and> timestampText (ce_occurredAt e) \<and> HEX_64 (ce_identityFingerprint e)"
  by (auto simp: parseCircuitEvent_def bindE_Inr_iff)

lemma identity_digest: "identityOk i \<Longrightarrow> isOk (digest cd (jsonVal (circuitIdentityJson i)))"
  using fine_texts
  by (intro digest_total)
    (auto simp: circuitIdentityJson_def identityOk_def maxDepth_def maxNodes_def DANGEROUS_OBJECT_KEYS_def simp del: jsonFine.simps(2))

lemma lastItems_props:
  assumes "distinct xs" and "list_all P xs" and "length xs \<le> k + 1" and "1 \<le> n" and "n \<le> k"
  shows "distinct (lastItems n xs)" and "list_all P (lastItems n xs)" and "length (lastItems n xs) \<le> k"
  using assms by (auto simp: lastItems_def list_all_iff dest: in_set_dropD)

lemma instantAfter_stamp: "instantAfter s d = Inr t \<Longrightarrow> validTime (dateParse s + d) \<Longrightarrow> timestampText t"
  using canonical_toISOString length_toISOString [of "dateParse s + d"] by (auto simp: instantAfter_def timestampText_def)


text \<open>The configurations that \<open>parseRouterConfiguration\<close> accepts.\<close>

definition circuitConfigurationOk :: "circuit_configuration \<Rightarrow> bool" where
  "circuitConfigurationOk cfg \<longleftrightarrow> 1 \<le> cc_failureThreshold cfg \<and> cc_failureThreshold cfg \<le> 1000 \<and>
     1 \<le> cc_coolDownMs cfg \<and> cc_coolDownMs cfg \<le> 31536000000 \<and> 1 \<le> cc_maximumRememberedEvents cfg \<and> cc_maximumRememberedEvents cfg \<le> 10000"

lemma settle_total:
  assumes "hexDigests cd" and "circuitOk cd s" and "circuitConfigurationOk cfg" and "SAFE_ID i" and "i \<notin> set (cb_rememberedEventIds s)"
    and "n = s\<lparr>cb_lastEventAt := Some at, cb_rememberedEventIds := cb_rememberedEventIds s @ [i],
      cb_fingerprint := [], cb_phase := p, cb_consecutiveFailures := k, cb_openedAt := opened, cb_coolDownUntil := until, cb_probeInFlight := probe\<rparr>"
    and "timestampText at" and "0 \<le> k" and "k \<le> 1000000" and "pred_option timestampText opened" and "pred_option timestampText until"
    and "\<not> inconsistentCircuit n"
  shows "isOk (bindE (sealState cd n (cc_maximumRememberedEvents cfg)) (\<lambda>n. transitionResult cd True c s n i))"
proof -
  let ?m = "n\<lparr>cb_rememberedEventIds := lastItems (cc_maximumRememberedEvents cfg) (cb_rememberedEventIds n)\<rparr>"
  have s: "circuitBody s" using assms(2) by (simp add: circuitOk_def)
  have ids: "distinct (cb_rememberedEventIds s @ [i])" "list_all SAFE_ID (cb_rememberedEventIds s @ [i])"
      "length (cb_rememberedEventIds s @ [i]) \<le> 10000 + 1"
    using s assms(4,5) by (auto simp: circuitBody_def)
  have "\<not> inconsistentCircuit ?m" using assms(12) by (simp add: inconsistentCircuit_def)
  then have "circuitBody ?m"
    using s assms(3,6-11) lastItems_props [OF ids, of "cc_maximumRememberedEvents cfg"]
    by (simp add: circuitBody_def circuitConfigurationOk_def)
  then obtain t where t: "sealCircuit cd ?m = Inr t" using sealCircuit_total [OF assms(1)] by blast
  then have "circuitOk cd t" using sealCircuit_Inr by blast
  from transitionResult_total [OF assms(2) this assms(4)] show ?thesis by (simp add: sealState_def t)
qed

theorem transition_total:
  assumes hex: "hexDigests cd" and s: "circuitOk cd s" and cfg: "circuitConfigurationOk cfg" and e: "parseCircuitEvent ev = Inr e"
    and room: "cb_consecutiveFailures s < 1000000" and time: "validTime (dateParse (ce_occurredAt e) + cc_coolDownMs cfg)"
  shows "isOk (transitionCircuitBreaker cd cfg (circuitStateVal s) ev)"
proof -
  note parse = parseCircuitBreakerState_val [OF s]
  have body: "circuitBody s" using s by (simp add: circuitOk_def)
  then obtain f where f: "digest cd (jsonVal (circuitIdentityJson (cb_identity s))) = Inr f"
    using identity_digest by (auto simp: circuitBody_def isOk_iff)
  note ev = parseCircuitEvent_Inr [OF e]
  have rejected: "isOk (transitionResult cd a c s s (ce_eventId e))" for a c using transitionResult_total [OF s s] ev by blast
  have safe: "ensureSafeInteger (jsInt (cb_consecutiveFailures s + 1)) 0 1000000 = Inr (cb_consecutiveFailures s + 1)"
    using body room by (intro ensureSafeInteger_jsInt) (auto simp: circuitBody_def)
  obtain until where until: "instantAfter (ce_occurredAt e) (cc_coolDownMs cfg) = Inr until" using time by (simp add: instantAfter_def)
  have untilStamp: "timestampText until" using instantAfter_stamp [OF until time] .
  let ?new = "ce_eventId e \<notin> set (cb_rememberedEventIds s)"
  let ?next = "\<lambda>p k opened until probe. s\<lparr>cb_lastEventAt := Some (ce_occurredAt e), cb_rememberedEventIds := cb_rememberedEventIds s @ [ce_eventId e],
     cb_fingerprint := [], cb_phase := p, cb_consecutiveFailures := k, cb_openedAt := opened, cb_coolDownUntil := until, cb_probeInFlight := probe\<rparr>"
  let ?ok = "\<lambda>c n. isOk (bindE (sealState cd n (cc_maximumRememberedEvents cfg)) (\<lambda>n. transitionResult cd True c s n (ce_eventId e)))"
  have settle: "?ok c (?next p k opened until probe)"
    if "?new" "0 \<le> k" "k \<le> 1000000" "pred_option timestampText opened" "pred_option timestampText until"
      "\<not> inconsistentCircuit (?next p k opened until probe)" for c p k opened until probe
    using settle_total [OF hex s cfg conjunct1 [OF ev] that(1) refl conjunct1 [OF conjunct2 [OF ev]] that(2-6)] .
  have probe: "cb_phase s = OpenPhase \<Longrightarrow> ?new \<Longrightarrow> ?ok c (?next HalfOpenPhase (cb_consecutiveFailures s) (cb_openedAt s) (cb_coolDownUntil s) True)" for c
    by (rule settle) (use body in \<open>auto simp: circuitBody_def inconsistentCircuit_def\<close>)
  have success: "?new \<Longrightarrow> ?ok c (?next ClosedPhase 0 None None False)" for c
    by (rule settle) (auto simp: inconsistentCircuit_def)
  have opened: "?new \<Longrightarrow> ?ok c (?next OpenPhase (cb_consecutiveFailures s + 1) (Some (ce_occurredAt e)) (Some until) False)" for c
    by (rule settle) (use body room untilStamp ev in \<open>auto simp: circuitBody_def inconsistentCircuit_def\<close>)
  have failed: "?new \<Longrightarrow> ?ok c (?next ClosedPhase (cb_consecutiveFailures s + 1) None None False)" for c
    by (rule settle) (use body room in \<open>auto simp: circuitBody_def inconsistentCircuit_def\<close>)
  show ?thesis
    using probe success opened failed rejected
    by (auto simp: transitionCircuitBreaker_def parse e f safe until Let_def)
qed


section \<open>Sequences of events\<close>

lemma changed_Inr:
  assumes run: "transitionCircuitBreaker cd cfg sv ev = Inr t" and s: "parseCircuitBreakerState cd sv = Inr s" and e: "parseCircuitEvent ev = Inr e"
    and "fresh cd s e"
  shows "(tr_state t = s \<and> \<not> tr_accepted t) \<or> (tr_accepted t \<and> followUp cfg e s (tr_state t) \<and> circuitOk cd (tr_state t))"
proof -
  obtain f where f: "digest cd (jsonVal (circuitIdentityJson (cb_identity s))) = Inr f" by (rule transition_identity [OF run s e])
  have new: "ce_identityFingerprint e = f" "ce_eventId e \<notin> set (cb_rememberedEventIds s)"
      "\<not> (case cb_lastEventAt s of None \<Rightarrow> False | Some lastEventAt \<Rightarrow> strLeq (ce_occurredAt e) lastEventAt)"
    using \<open>fresh cd s e\<close> f by (auto simp: fresh_def stale_iff)
  note known = run [unfolded transitionCircuitBreaker_def s e f bindE_simps, simplified new if_False not_True_eq_False simp_thms, unfolded Let_def]
  define P where "P \<longleftrightarrow> (tr_state t = s \<and> \<not> tr_accepted t) \<or> (tr_accepted t \<and> followUp cfg e s (tr_state t) \<and> circuitOk cd (tr_state t))"
  have rejected: "transitionResult cd False c s s i = Inr t \<Longrightarrow> P" for c i by (drule transitionResult_Inr) (simp add: P_def)
  have settled: "bindE (sealState cd (s\<lparr>cb_lastEventAt := Some (ce_occurredAt e), cb_rememberedEventIds := cb_rememberedEventIds s @ [ce_eventId e],
      cb_fingerprint := [], cb_phase := p, cb_consecutiveFailures := k, cb_openedAt := opened, cb_coolDownUntil := until, cb_probeInFlight := probe\<rparr>)
      (cc_maximumRememberedEvents cfg)) (\<lambda>n. transitionResult cd True c s n (ce_eventId e)) = Inr t \<Longrightarrow>
      (p = OpenPhase \<longrightarrow> opened = Some (ce_occurredAt e)) \<Longrightarrow> P" for p k opened until probe c
    unfolding P_def using settled_Inr [OF _ refl refl] by blast
  note settled' = settled [of True "cb_coolDownUntil s" "cb_openedAt s" "cb_consecutiveFailures s" HalfOpenPhase, simplified]
    settled [of False None None 0 ClosedPhase, simplified] settled [of False None None _ ClosedPhase, simplified]
    settled [of False _ "Some (ce_occurredAt e)" _ OpenPhase, simplified]
  have P
  proof (cases "ce_kind e = AdmitProbe \<or> cb_phase s = OpenPhase \<or> ce_kind e = SuccessEvent")
    case True
    then show ?thesis using known settled'(1,2) rejected by (auto split: if_splits option.splits)
  next
    case False
    then show ?thesis using known settled'(3,4)
      by (auto simp: bindE_Inr_iff [of "ensureSafeInteger _ _ _"] bindE_Inr_iff [of "instantAfter _ _"] split: if_splits)
  qed
  then show ?thesis by (simp add: P_def)
qed

end
