(* ===== verification/Router_Circuit_Props.thy ===== *)
theory Router_Circuit_Props
  imports Router_Circuit_Laws
begin

text \<open>
  A stored circuit and the events delivered to it: every delivery is atomic, an event that took effect once never
  takes effect again, an open circuit waits for its cool-down, and failures in a row open it.
\<close>

section \<open>Delivery\<close>

text \<open>The holder of a circuit stores the state of every transition that returned.\<close>

definition deliver :: "codec \<Rightarrow> jsval \<Rightarrow> circuit_configuration \<Rightarrow> (circuit_state, domain_error, circuit_transition) action" where
  "deliver cd ev cfg s = (case transitionCircuitBreaker cd cfg (circuitStateVal s) ev of
     Inl e \<Rightarrow> (Inl e, s) | Inr t \<Rightarrow> (Inr t, tr_state t))"

lemma deliver_Inr: "fst (deliver cd ev cfg s) = Inr t \<longleftrightarrow> transitionCircuitBreaker cd cfg (circuitStateVal s) ev = Inr t"
  by (simp add: deliver_def split: sum.split)

lemma deliver_state: "snd (deliver cd ev cfg s) =
    (case transitionCircuitBreaker cd cfg (circuitStateVal s) ev of Inl e \<Rightarrow> s | Inr t \<Rightarrow> tr_state t)"
  by (simp add: deliver_def split: sum.split)

lemma transition_parses:
  assumes "transitionCircuitBreaker cd cfg sv ev = Inr t"
  obtains s e where "parseCircuitBreakerState cd sv = Inr s" "parseCircuitEvent ev = Inr e"
  using assms unfolding transitionCircuitBreaker_def by (auto simp only: bindE_Inr_iff)

text \<open>Either the event took effect, and then it was new, or the state is the same.\<close>

lemma deliver_cases:
  assumes "circuitOk cd s"
  obtains (same) "snd (deliver cd ev cfg s) = s"
  | (effect) e t where "parseCircuitEvent ev = Inr e" "fst (deliver cd ev cfg s) = Inr t" "snd (deliver cd ev cfg s) = tr_state t" "fresh cd s e"
      "tr_accepted t" "followUp cfg e s (tr_state t)" "circuitOk cd (tr_state t)"
proof (cases "transitionCircuitBreaker cd cfg (circuitStateVal s) ev")
  case (Inl x)
  then show ?thesis using same by (simp add: deliver_state)
next
  case (Inr t)
  obtain e where e: "parseCircuitEvent ev = Inr e" using transition_parses [OF Inr] by blast
  note s = parseCircuitBreakerState_val [OF assms]
  have run: "fst (deliver cd ev cfg s) = Inr t" "snd (deliver cd ev cfg s) = tr_state t" using Inr by (simp_all add: deliver_def)
  show ?thesis
  proof (cases "fresh cd s e")
    case True
    then show ?thesis using changed_Inr [OF Inr s e True] run same effect [OF e run] by auto
  next
    case False
    then show ?thesis using not_fresh_Inr [OF Inr s e False] run same by simp
  qed
qed

interpretation breaker: guarded_object "deliver cd" "circuitOk cd" for cd
proof unfold_locales
  show "circuitOk cd (snd (deliver cd c i s))" if "circuitOk cd s" for s c i
    using that by (rule deliver_cases [where ev = c and cfg = i]) (use that in auto)
  show "snd (deliver cd c i s) = s" if "fst (deliver cd c i s) = Inl e" for s c i e
    using that by (simp add: deliver_def split: sum.splits)
qed

section \<open>Once only\<close>

text \<open>\<open>at\<close> is not after the last event.\<close>

definition past :: "string \<Rightarrow> circuit_state \<Rightarrow> bool" where
  "past at s \<longleftrightarrow> (case cb_lastEventAt s of None \<Rightarrow> False | Some t \<Rightarrow> strLeq at t)"

lemma strLeq_trans: "strLeq a b \<Longrightarrow> strLeq b c \<Longrightarrow> strLeq a c"
  unfolding strLeq_def using strLess_trans strLess_total by blast

lemma past_effect: "past at s \<Longrightarrow> fresh cd s e \<Longrightarrow> followUp cfg e s t \<Longrightarrow> past at t"
  unfolding past_def fresh_def followUp_def strLeq_def
  by (auto split: option.splits dest: strLess_trans)

lemma past_deliver: "circuitOk cd s \<Longrightarrow> past at s \<Longrightarrow> past at (snd (deliver cd ev cfg s))"
  by (rule deliver_cases [of cd s ev cfg]) (use past_effect in auto)

lemma past_run: "circuitOk cd s \<Longrightarrow> past at s \<Longrightarrow> past at (executeAll (deliver cd) evs s)"
  by (induction evs arbitrary: s) (auto simp: past_deliver breaker.run_inv)

lemma past_same: "circuitOk cd s \<Longrightarrow> parseCircuitEvent ev = Inr e \<Longrightarrow> past (ce_occurredAt e) s \<Longrightarrow> snd (deliver cd ev cfg s) = s"
  by (rule deliver_cases [of cd s ev cfg]) (auto simp: past_def fresh_def split: option.splits)

theorem effect_once:
  assumes "circuitOk cd s" and "snd (deliver cd ev cfg s) \<noteq> s"
  shows "snd (deliver cd ev cfg' (executeAll (deliver cd) evs (snd (deliver cd ev cfg s)))) = executeAll (deliver cd) evs (snd (deliver cd ev cfg s))"
proof (rule deliver_cases [OF assms(1), of ev cfg])
  fix e t
  assume e: "parseCircuitEvent ev = Inr e" and t: "snd (deliver cd ev cfg s) = tr_state t" "followUp cfg e s (tr_state t)" "circuitOk cd (tr_state t)"
  then have "past (ce_occurredAt e) (tr_state t)" by (simp add: past_def followUp_def strLeq_def)
  from past_same [OF breaker.executeAll_inv [OF t(3)] e past_run [OF t(3) this]] show ?thesis by (simp add: t(1))
qed (use assms in simp)

section \<open>Waiting\<close>

text \<open>An event for an instant before \<open>limit\<close>, or no event at all.\<close>

definition early :: "int \<Rightarrow> jsval \<Rightarrow> bool" where
  "early limit ev \<longleftrightarrow> (case parseCircuitEvent ev of Inl _ \<Rightarrow> True
     | Inr e \<Rightarrow> fourDigitStamp (ce_occurredAt e) \<and> dateParse (ce_occurredAt e) < limit)"

lemma early_waits:
  assumes s: "circuitOk cd s" and open': "breakerOf s = Tripped n limit" and years: "pred_option fourDigitStamp (cb_coolDownUntil s)" and ev: "early limit ev"
  shows "snd (deliver cd ev cfg s) = s"
proof (rule deliver_cases [OF s, of ev cfg])
  fix e t
  assume e: "parseCircuitEvent ev = Inr e" and t: "fst (deliver cd ev cfg s) = Inr t" "fresh cd s e" "tr_accepted t"
  have "fourDigitStamp (ce_occurredAt e)" "dateParse (ce_occurredAt e) < limit" using ev e by (simp_all add: early_def)
  then show ?thesis
    using fresh_Inr [OF t(1) [unfolded deliver_Inr] parseCircuitBreakerState_val [OF s] e t(2) years] t(3)
    by (cases "ce_kind e") (simp_all add: open')
qed

theorem open_waits:
  assumes "circuitOk cd s" and "breakerOf s = Tripped n limit" and "pred_option fourDigitStamp (cb_coolDownUntil s)"
    and "list_all (\<lambda>(ev, cfg). early limit ev) evs"
  shows "executeAll (deliver cd) evs s = s"
  using assms by (induction evs) (auto simp: early_waits)

theorem opened_waits:
  assumes s: "circuitOk cd s" and t: "fst (deliver cd ev cfg s) = Inr t" "cb_phase s \<noteq> OpenPhase" "cb_phase (tr_state t) = OpenPhase"
    and e: "parseCircuitEvent ev = Inr e" "fourDigitStamp (ce_occurredAt e)" "fourDigitYear (dateParse (ce_occurredAt e) + cc_coolDownMs cfg)"
    and evs: "list_all (\<lambda>(ev, cfg'). early (dateParse (ce_occurredAt e) + cc_coolDownMs cfg) ev) evs"
  shows "executeAll (deliver cd) evs (tr_state t) = tr_state t"
proof -
  let ?limit = "dateParse (ce_occurredAt e) + cc_coolDownMs cfg"
  note run = t(1) [unfolded deliver_Inr]
  have "fresh cd s e" using not_fresh_Inr [OF run parseCircuitBreakerState_val [OF s] e(1)] t(2,3) by auto
  note step = fresh_Inr [OF run parseCircuitBreakerState_val [OF s] e(1) this t(2) [THEN notE] e(2)]
  obtain b where b: "breakerStep (cc_failureThreshold cfg) (cc_coolDownMs cfg) (ce_kind e) (dateParse (ce_occurredAt e)) (breakerOf s) = Some b"
    using step t(2,3) by (auto split: option.splits)
  have ok: "circuitOk cd (tr_state t)" "breakerOf (tr_state t) = b" using step b by simp_all
  obtain n where n: "b = Tripped n ?limit"
    using b ok(2) t(2,3) by (cases "ce_kind e"; cases "breakerOf s") (auto simp: breakerOf_def split: circuit_phase.splits if_splits)
  moreover have "pred_option fourDigitStamp (cb_coolDownUntil (tr_state t))"
    using ok n t(3) e(3) by (cases "cb_coolDownUntil (tr_state t)")
      (auto simp: circuitOk_def circuitBody_def breakerOf_def fourDigitStamp_def timestampText_def)
  ultimately show ?thesis using open_waits [OF ok(1), of n ?limit evs] ok(2) evs by simp
qed

section \<open>Failures in a row\<close>

text \<open>Events for this circuit, each a failure later than the one before, with an identifier of its own.\<close>

fun failuresInRow :: "codec \<Rightarrow> circuit_configuration \<Rightarrow> circuit_identity \<Rightarrow> string list \<Rightarrow> string option \<Rightarrow> jsval list \<Rightarrow> bool" where
  "failuresInRow cd cfg identity ids latest [] \<longleftrightarrow> True"
| "failuresInRow cd cfg identity ids latest (ev # evs) \<longleftrightarrow> (case parseCircuitEvent ev of Inl _ \<Rightarrow> False | Inr e \<Rightarrow>
     (ce_kind e = RetryableFailure \<or> ce_kind e = TerminalProviderFailure) \<and>
     digest cd (jsonVal (circuitIdentityJson identity)) = Inr (ce_identityFingerprint e) \<and>
     (case latest of None \<Rightarrow> True | Some at \<Rightarrow> strLess at (ce_occurredAt e)) \<and> ce_eventId e \<notin> set ids \<and>
     fourDigitStamp (ce_occurredAt e) \<and> fourDigitYear (dateParse (ce_occurredAt e) + cc_coolDownMs cfg) \<and>
     failuresInRow cd cfg identity (ce_eventId e # ids) (Some (ce_occurredAt e)) evs)"

lemma lastItems_subset: "set (lastItems n xs) \<subseteq> set xs"
  by (auto simp: lastItems_def dest: in_set_dropD)

lemma failure_step:
  assumes hex: "hexDigests cd" and cfg: "circuitConfigurationOk cfg" and s: "circuitOk cd s" and k: "breakerOf s = Counting k" "k < cc_failureThreshold cfg"
    and ids: "set (cb_rememberedEventIds s) \<subseteq> set ids" and evs: "failuresInRow cd cfg (cb_identity s) ids (cb_lastEventAt s) (ev # evs)"
  obtains e where "parseCircuitEvent ev = Inr e"
    and "breakerOf (snd (deliver cd ev cfg s)) = (if k + 1 \<ge> cc_failureThreshold cfg
      then Tripped (k + 1) (dateParse (ce_occurredAt e) + cc_coolDownMs cfg) else Counting (k + 1))"
    and "circuitOk cd (snd (deliver cd ev cfg s))" and "followUp cfg e s (snd (deliver cd ev cfg s))"
    and "failuresInRow cd cfg (cb_identity s) (ce_eventId e # ids) (Some (ce_occurredAt e)) evs"
proof -
  obtain e where e: "parseCircuitEvent ev = Inr e" using evs by (auto split: sum.splits)
  note p = evs [simplified e failuresInRow.simps sum.case]
  have phase: "cb_phase s = ClosedPhase" "cb_consecutiveFailures s = k"
    using k(1) by (simp_all add: breakerOf_def split: circuit_phase.splits)
  then have "cb_coolDownUntil s = None" using s by (auto simp: circuitOk_def circuitBody_def inconsistentCircuit_def)
  moreover have "fresh cd s e" using p ids by (auto simp: fresh_def strLeq_def split: option.splits)
  moreover have "isOk (transitionCircuitBreaker cd cfg (circuitStateVal s) ev)"
    using transition_total [OF hex s cfg e] phase k(2) cfg p fourDigit_valid by (simp add: circuitConfigurationOk_def)
  then obtain t where t: "transitionCircuitBreaker cd cfg (circuitStateVal s) ev = Inr t" by (auto simp: isOk_iff)
  ultimately have "case breakerStep (cc_failureThreshold cfg) (cc_coolDownMs cfg) (ce_kind e) (dateParse (ce_occurredAt e)) (Counting k) of
      None \<Rightarrow> True | Some b \<Rightarrow> breakerOf (tr_state t) = b \<and> followUp cfg e s (tr_state t) \<and> circuitOk cd (tr_state t)"
    using fresh_Inr [OF t parseCircuitBreakerState_val [OF s] e] p by (auto simp: k(1) split: option.splits)
  moreover have "snd (deliver cd ev cfg s) = tr_state t" by (simp add: deliver_def t)
  ultimately show ?thesis using p by (intro that [OF e]) auto
qed

theorem failures_counted:
  assumes "hexDigests cd" and "circuitConfigurationOk cfg" and "circuitOk cd s" and "breakerOf s = Counting k" and "k < cc_failureThreshold cfg"
    and "set (cb_rememberedEventIds s) \<subseteq> set ids" and "failuresInRow cd cfg (cb_identity s) ids (cb_lastEventAt s) evs"
    and "k + int (length evs) \<le> cc_failureThreshold cfg"
  shows "cb_phase (executeAll (deliver cd) (map (\<lambda>ev. (ev, cfg)) evs) s) =
      (if k + int (length evs) < cc_failureThreshold cfg then ClosedPhase else OpenPhase)"
  using assms(3-)
proof (induction evs arbitrary: s k ids)
  case Nil
  then show ?case by (simp add: breakerOf_def split: circuit_phase.splits)
next
  case (Cons ev evs)
  obtain e where e: "parseCircuitEvent ev = Inr e"
    and b: "breakerOf (snd (deliver cd ev cfg s)) = (if k + 1 \<ge> cc_failureThreshold cfg
      then Tripped (k + 1) (dateParse (ce_occurredAt e) + cc_coolDownMs cfg) else Counting (k + 1))"
    and t: "circuitOk cd (snd (deliver cd ev cfg s))" "followUp cfg e s (snd (deliver cd ev cfg s))"
    and rest: "failuresInRow cd cfg (cb_identity s) (ce_eventId e # ids) (Some (ce_occurredAt e)) evs"
    by (rule failure_step [OF assms(1,2) Cons.prems(1-5)])
  show ?case
  proof (cases "k + 1 < cc_failureThreshold cfg")
    case True
    have "set (cb_rememberedEventIds (snd (deliver cd ev cfg s))) \<subseteq> set (ce_eventId e # ids)"
      using t(2) Cons.prems(4) lastItems_subset by (fastforce simp: followUp_def)
    then show ?thesis
      using Cons.IH [OF t(1), of "k + 1" "ce_eventId e # ids"] b rest t(2) True Cons.prems(6) by (simp add: followUp_def algebra_simps)
  next
    case False
    then have "evs = []" using Cons.prems(3,6) by (cases evs) auto
    then show ?thesis using b False by (simp add: breakerOf_def split: circuit_phase.splits)
  qed
qed

lemma created_circuit:
  assumes "createCircuitBreakerState cd v = Inr s"
  shows "circuitOk cd s" and "breakerOf s = Counting 0" and "cb_rememberedEventIds s = []" and "cb_lastEventAt s = None"
    and "parseCircuitIdentity v = Inr (cb_identity s)"
proof -
  from assms obtain i where i: "parseCircuitIdentity v = Inr i"
    and seal: "sealCircuit cd \<lparr>cb_identity = i, cb_phase = ClosedPhase, cb_consecutiveFailures = 0, cb_openedAt = None,
       cb_coolDownUntil = None, cb_probeInFlight = False, cb_lastEventAt = None, cb_rememberedEventIds = [], cb_fingerprint = []\<rparr> = Inr s"
    by (auto simp: createCircuitBreakerState_def bindE_Inr_iff)
  note s = sealCircuit_Inr [OF seal, THEN conjunct2]
  show "circuitOk cd s" using sealCircuit_Inr [OF seal] by blast
  show "breakerOf s = Counting 0" "cb_rememberedEventIds s = []" "cb_lastEventAt s = None" "parseCircuitIdentity v = Inr (cb_identity s)"
    using arg_cong [OF s, of breakerOf] arg_cong [OF s, of cb_rememberedEventIds] arg_cong [OF s, of cb_lastEventAt]
      arg_cong [OF s, of cb_identity] i by (simp_all add: breakerOf_def)
qed

end
