(* ===== verification/Router_Claims.thy ===== *)
theory Router_Claims
  imports Router_Circuit_Props "HOL-Library.Code_Target_Numeral"
begin

text \<open>
  The properties of the router, each with a witness. The sample codec digests every text to 64 zeros.
\<close>

section \<open>A sample circuit\<close>

definition zeroCodec :: codec where
  "zeroCodec = \<lparr>cd_stringify = (\<lambda>_. ''{}''), cd_parse = (\<lambda>_. None), cd_sha256 = (\<lambda>_. replicate 64 CHR ''0''), cd_toBase64 = id, cd_fromBase64 = id\<rparr>"

definition sampleIdentity :: circuit_identity where
  "sampleIdentity = \<lparr>ci_providerInstanceId = ''p1'', ci_contractModelId = ''m1'', ci_operationClass = ''chat''\<rparr>"

definition sampleCircuit :: "circuit_phase \<Rightarrow> int \<Rightarrow> int option \<Rightarrow> string list \<Rightarrow> circuit_state" where
  "sampleCircuit p n at ids = \<lparr>cb_identity = sampleIdentity, cb_phase = p, cb_consecutiveFailures = n,
     cb_openedAt = (if p = ClosedPhase then None else map_option toISOString at),
     cb_coolDownUntil = (if p = ClosedPhase then None else map_option toISOString (map_option ((+) 60000) at)),
     cb_probeInFlight = False, cb_lastEventAt = map_option toISOString at, cb_rememberedEventIds = ids, cb_fingerprint = replicate 64 CHR ''0''\<rparr>"

definition sampleConfiguration :: circuit_configuration where
  "sampleConfiguration = \<lparr>cc_failureThreshold = 2, cc_coolDownMs = 60000, cc_maximumRememberedEvents = 128\<rparr>"

definition sampleFailure :: "string \<Rightarrow> int \<Rightarrow> jsval" where
  "sampleFailure i at = plainObj [(''eventId'', JStr i), (''occurredAt'', JStr (toISOString at)), (''kind'', JStr ''retryable-failure''),
     (''identityFingerprint'', JStr (replicate 64 CHR ''0''))]"


lemma hex_zeroCodec: "hexDigests zeroCodec"
  by (auto simp: hexDigests_def zeroCodec_def) code_simp

lemma sampleCircuit_ok:
  "circuitOk zeroCodec (sampleCircuit ClosedPhase 0 None [])" "circuitOk zeroCodec (sampleCircuit ClosedPhase 1 (Some 1000) [''f1''])"
  by (rule parseCircuitBreakerState_Inr [where v = "circuitStateVal (sampleCircuit ClosedPhase 0 None [])"], code_simp)
    (rule parseCircuitBreakerState_Inr [where v = "circuitStateVal (sampleCircuit ClosedPhase 1 (Some 1000) [''f1''])"], code_simp)



section \<open>The circuit breaker\<close>





text \<open>
  C34: An event that took effect once never takes effect again, however often and with whatever other events in between it is
  delivered again.
\<close>

theorem applied_events_apply_once:
  assumes "circuitOk cd s" and "snd (deliver cd ev cfg s) \<noteq> s"
  shows "snd (deliver cd ev cfg' (executeAll (deliver cd) evs (snd (deliver cd ev cfg s)))) = executeAll (deliver cd) evs (snd (deliver cd ev cfg s))"
  using assms by (rule effect_once)

theorem applied_events_apply_once_witness:
  "snd (deliver zeroCodec (sampleFailure ''f1'' 1000) sampleConfiguration (executeAll (deliver zeroCodec) []
      (snd (deliver zeroCodec (sampleFailure ''f1'' 1000) sampleConfiguration (sampleCircuit ClosedPhase 0 None []))))) =
    sampleCircuit ClosedPhase 1 (Some 1000) [''f1'']"
proof -
  have new: "snd (deliver zeroCodec (sampleFailure ''f1'' 1000) sampleConfiguration (sampleCircuit ClosedPhase 0 None [])) =
      sampleCircuit ClosedPhase 1 (Some 1000) [''f1'']"
    by code_simp
  have "snd (deliver zeroCodec (sampleFailure ''f1'' 1000) sampleConfiguration (sampleCircuit ClosedPhase 0 None [])) \<noteq> sampleCircuit ClosedPhase 0 None []"
    unfolding new by (simp add: sampleCircuit_def)
  from applied_events_apply_once [OF sampleCircuit_ok(1) this, of sampleConfiguration "[]"] show ?thesis by (simp add: new)
qed

text \<open>
  Failures in a row open a new circuit exactly when their number reaches the threshold: every one of them is recorded, the
  circuit is closed as long as there are fewer, and open after the last.
\<close>

theorem failures_open_the_circuit:
  assumes "hexDigests cd" and "circuitConfigurationOk cfg" and "createCircuitBreakerState cd v = Inr s"
    and "failuresInRow cd cfg (cb_identity s) [] None evs" and "int (length evs) \<le> cc_failureThreshold cfg"
  shows "cb_phase (executeAll (deliver cd) (map (\<lambda>ev. (ev, cfg)) evs) s) =
      (if int (length evs) < cc_failureThreshold cfg then ClosedPhase else OpenPhase)"
  using failures_counted [OF assms(1,2) created_circuit(1,2) [OF assms(3)], of "[]" evs] created_circuit(3,4) [OF assms(3)] assms(2,4,5)
  by (simp add: circuitConfigurationOk_def)

theorem failures_open_the_circuit_witness:
  "cb_phase (executeAll (deliver zeroCodec) (map (\<lambda>ev. (ev, sampleConfiguration)) [sampleFailure ''f1'' 1000, sampleFailure ''f2'' 2000])
      (sampleCircuit ClosedPhase 0 None [])) = OpenPhase"
  by (subst failures_open_the_circuit [OF hex_zeroCodec, where v = "jsonVal (circuitIdentityJson sampleIdentity)"]) code_simp+

end
