(* ===== verification/Providers_Descriptor.thy ===== *)
theory Providers_Descriptor
  imports Domain_Policy Domain_Models Router_Shared
begin

text \<open>
  \<open>packages/providers/src/common.ts\<close>: the descriptor of a provider instance, its health, the models it offers, and the
  capabilities a provider and a model have together. Identifiers and kinds match the patterns of \<open>Router_Shared\<close>.
\<close>

section \<open>Data\<close>

datatype provider_kind = Inference | CodingAgent

fun providerKindText :: "provider_kind \<Rightarrow> string" where
  "providerKindText Inference = ''inference''"
| "providerKindText CodingAgent = ''coding-agent''"

definition PROVIDER_KINDS :: "provider_kind list" where "PROVIDER_KINDS = [Inference, CodingAgent]"

datatype provider_status = ReadyProvider | DegradedProvider | UnavailableProvider | ClosedProvider

fun providerStatusText :: "provider_status \<Rightarrow> string" where
  "providerStatusText ReadyProvider = ''ready''"
| "providerStatusText DegradedProvider = ''degraded''"
| "providerStatusText UnavailableProvider = ''unavailable''"
| "providerStatusText ClosedProvider = ''closed''"

definition PROVIDER_STATUSES :: "provider_status list" where
  "PROVIDER_STATUSES = [ReadyProvider, DegradedProvider, UnavailableProvider, ClosedProvider]"

datatype model_availability = AvailableModel | DegradedModel | UnavailableModel

fun availabilityText :: "model_availability \<Rightarrow> string" where
  "availabilityText AvailableModel = ''available''"
| "availabilityText DegradedModel = ''degraded''"
| "availabilityText UnavailableModel = ''unavailable''"

definition MODEL_AVAILABILITIES :: "model_availability list" where
  "MODEL_AVAILABILITIES = [AvailableModel, DegradedModel, UnavailableModel]"

datatype cancellation_support = GuaranteedCancellation | BestEffortCancellation | NoCancellation

fun cancellationText :: "cancellation_support \<Rightarrow> string" where
  "cancellationText GuaranteedCancellation = ''guaranteed''"
| "cancellationText BestEffortCancellation = ''best-effort''"
| "cancellationText NoCancellation = ''none''"

definition CANCELLATION_SUPPORT :: "cancellation_support list" where
  "CANCELLATION_SUPPORT = [GuaranteedCancellation, BestEffortCancellation, NoCancellation]"

definition PROVIDER_CONTRACT_SCHEMA_VERSION :: int where "PROVIDER_CONTRACT_SCHEMA_VERSION = 1"

record provider_capabilities =
  pc_streaming :: bool
  pc_structuredOutput :: bool
  pc_toolCalling :: bool
  pc_imageInput :: bool
  pc_repositoryEditing :: bool
  pc_commandExecution :: bool
  pc_networkAccess :: bool
  pc_resumability :: bool
  pc_cancellation :: cancellation_support
  pc_deadlineEnforcement :: bool
  pc_usageReporting :: bool
  pc_pricingAvailable :: bool

record provider_descriptor =
  pd_providerId :: string
  pd_instanceId :: string
  pd_kind :: provider_kind
  pd_displayName :: string
  pd_locality :: locality
  pd_retainsData :: bool
  pd_trainsOnInputs :: bool
  pd_supportedClassifications :: "data_classification list"
  pd_capabilities :: provider_capabilities

record provider_health =
  ph_status :: provider_status
  ph_checkedAt :: string
  ph_detailCode :: "string option"
  ph_activeOperations :: int

record model_descriptor =
  mo_model :: model_capabilities
  mo_availability :: model_availability

section \<open>Stored forms\<close>

definition jsonText :: "string option \<Rightarrow> json" where
  "jsonText t = (case t of None \<Rightarrow> JsonNull | Some s \<Rightarrow> JsonStr s)"

definition jsonInt :: "int \<Rightarrow> json" where "jsonInt i = JsonNum (NInt i)"

definition jsonOptInt :: "int option \<Rightarrow> json" where
  "jsonOptInt n = (case n of None \<Rightarrow> JsonNull | Some i \<Rightarrow> jsonInt i)"

definition providerCapabilitiesJson :: "provider_capabilities \<Rightarrow> json" where
  "providerCapabilitiesJson c = JsonObj
     [(''streaming'', JsonBool (pc_streaming c)), (''structuredOutput'', JsonBool (pc_structuredOutput c)),
      (''toolCalling'', JsonBool (pc_toolCalling c)), (''imageInput'', JsonBool (pc_imageInput c)),
      (''repositoryEditing'', JsonBool (pc_repositoryEditing c)), (''commandExecution'', JsonBool (pc_commandExecution c)),
      (''networkAccess'', JsonBool (pc_networkAccess c)), (''resumability'', JsonBool (pc_resumability c)),
      (''cancellation'', JsonStr (cancellationText (pc_cancellation c))), (''deadlineEnforcement'', JsonBool (pc_deadlineEnforcement c)),
      (''usageReporting'', JsonBool (pc_usageReporting c)), (''pricingAvailable'', JsonBool (pc_pricingAvailable c))]"

definition providerDescriptorJson :: "provider_descriptor \<Rightarrow> json" where
  "providerDescriptorJson d = JsonObj
     [(''schemaVersion'', jsonInt PROVIDER_CONTRACT_SCHEMA_VERSION), (''providerId'', JsonStr (pd_providerId d)),
      (''instanceId'', JsonStr (pd_instanceId d)), (''kind'', JsonStr (providerKindText (pd_kind d))),
      (''displayName'', JsonStr (pd_displayName d)), (''locality'', JsonStr (localityText (pd_locality d))),
      (''retainsData'', JsonBool (pd_retainsData d)), (''trainsOnInputs'', JsonBool (pd_trainsOnInputs d)),
      (''supportedClassifications'', JsonArr (map (\<lambda>c. JsonStr (classificationText c)) (pd_supportedClassifications d))),
      (''capabilities'', providerCapabilitiesJson (pd_capabilities d))]"

definition providerHealthJson :: "provider_health \<Rightarrow> json" where
  "providerHealthJson h = JsonObj
     [(''status'', JsonStr (providerStatusText (ph_status h))), (''checkedAt'', JsonStr (ph_checkedAt h)),
      (''detailCode'', jsonText (ph_detailCode h)), (''activeOperations'', jsonInt (ph_activeOperations h))]"

definition modelCostJson :: "model_cost option \<Rightarrow> json" where
  "modelCostJson cost = (case cost of None \<Rightarrow> JsonNull | Some c \<Rightarrow> JsonObj
     [(''currency'', JsonStr (mc_currency c)), (''inputMicrosPerMillionTokens'', jsonInt (mc_inputRate c)),
      (''outputMicrosPerMillionTokens'', jsonInt (mc_outputRate c)), (''cachedInputMicrosPerMillionTokens'', jsonOptInt (mc_cachedRate c))])"

definition modelCapabilitiesJson :: "model_capabilities \<Rightarrow> json" where
  "modelCapabilitiesJson m = JsonObj
     [(''schemaVersion'', jsonInt MODEL_SCHEMA_VERSION), (''providerId'', JsonStr (md_providerId m)), (''modelId'', JsonStr (md_modelId m)),
      (''contextWindowTokens'', jsonInt (md_contextWindowTokens m)), (''maxOutputTokens'', jsonInt (md_maxOutputTokens m)),
      (''supportsToolUse'', JsonBool (md_supportsToolUse m)), (''supportsStructuredOutput'', JsonBool (md_supportsStructuredOutput m)),
      (''supportsVision'', JsonBool (md_supportsVision m)), (''locality'', JsonStr (modelLocalityText (md_locality m))),
      (''latencyClass'', JsonStr (latencyText (md_latencyClass m))), (''codingCapability'', jsonInt (md_codingCapability m)),
      (''reasoningCapability'', jsonInt (md_reasoningCapability m)), (''cost'', modelCostJson (md_cost m))]"

definition modelDescriptorJson :: "model_descriptor \<Rightarrow> json" where
  "modelDescriptorJson m = JsonObj [(''model'', modelCapabilitiesJson (mo_model m)), (''availability'', JsonStr (availabilityText (mo_availability m)))]"

section \<open>Parsers\<close>

definition CAPABILITY_KEYS :: "string list" where
  "CAPABILITY_KEYS = [''streaming'', ''structuredOutput'', ''toolCalling'', ''imageInput'', ''repositoryEditing'', ''commandExecution'',
     ''networkAccess'', ''resumability'', ''cancellation'', ''deadlineEnforcement'', ''usageReporting'', ''pricingAvailable'']"

definition parseProviderCapabilities :: "jsval \<Rightarrow> domain_error + provider_capabilities" where
  "parseProviderCapabilities value =
     bindE (ensureRecord value) (\<lambda>r.
     bindE (ensureExactKeys r CAPABILITY_KEYS) (\<lambda>_.
     bindE (ensureBoolean (fld r ''streaming'')) (\<lambda>streaming.
     bindE (ensureBoolean (fld r ''structuredOutput'')) (\<lambda>structured.
     bindE (ensureBoolean (fld r ''toolCalling'')) (\<lambda>tools.
     bindE (ensureBoolean (fld r ''imageInput'')) (\<lambda>image.
     bindE (ensureBoolean (fld r ''repositoryEditing'')) (\<lambda>editing.
     bindE (ensureBoolean (fld r ''commandExecution'')) (\<lambda>commands.
     bindE (ensureBoolean (fld r ''networkAccess'')) (\<lambda>network.
     bindE (ensureBoolean (fld r ''resumability'')) (\<lambda>resumability.
     bindE (ensureEnum (fld r ''cancellation'') cancellationText CANCELLATION_SUPPORT) (\<lambda>cancellation.
     bindE (ensureBoolean (fld r ''deadlineEnforcement'')) (\<lambda>deadline.
     bindE (ensureBoolean (fld r ''usageReporting'')) (\<lambda>usage.
     bindE (ensureBoolean (fld r ''pricingAvailable'')) (\<lambda>pricing.
     Inr \<lparr>pc_streaming = streaming, pc_structuredOutput = structured, pc_toolCalling = tools, pc_imageInput = image,
          pc_repositoryEditing = editing, pc_commandExecution = commands, pc_networkAccess = network, pc_resumability = resumability,
          pc_cancellation = cancellation, pc_deadlineEnforcement = deadline, pc_usageReporting = usage,
          pc_pricingAvailable = pricing\<rparr>))))))))))))))"

definition parseProviderDescriptor :: "jsval \<Rightarrow> domain_error + provider_descriptor" where
  "parseProviderDescriptor value =
     bindE (ensureRecord value) (\<lambda>r.
     bindE (ensureExactKeys r [''schemaVersion'', ''providerId'', ''instanceId'', ''kind'', ''displayName'', ''locality'', ''retainsData'',
       ''trainsOnInputs'', ''supportedClassifications'', ''capabilities'']) (\<lambda>_.
     bindE (ensureSchemaVersion (fld r ''schemaVersion'') PROVIDER_CONTRACT_SCHEMA_VERSION) (\<lambda>_.
     bindE (ensureString (fld r ''providerId'') 1 128 SAFE_ID) (\<lambda>providerId.
     bindE (ensureString (fld r ''instanceId'') 1 128 SAFE_ID) (\<lambda>instanceId.
     bindE (ensureEnum (fld r ''kind'') providerKindText PROVIDER_KINDS) (\<lambda>kind.
     bindE (ensureString (fld r ''displayName'') 1 120 (\<lambda>_. True)) (\<lambda>displayName.
     bindE (ensureEnum (fld r ''locality'') localityText [CloudTarget, LocalTarget]) (\<lambda>locality.
     bindE (ensureBoolean (fld r ''retainsData'')) (\<lambda>retains.
     bindE (ensureBoolean (fld r ''trainsOnInputs'')) (\<lambda>trains.
     bindE (ensureEnumArray (fld r ''supportedClassifications'') classificationText DATA_CLASSIFICATIONS (length DATA_CLASSIFICATIONS)) (\<lambda>supported.
     bindE (parseProviderCapabilities (fld r ''capabilities'')) (\<lambda>capabilities.
     Inr \<lparr>pd_providerId = providerId, pd_instanceId = instanceId, pd_kind = kind, pd_displayName = displayName, pd_locality = locality,
          pd_retainsData = retains, pd_trainsOnInputs = trains, pd_supportedClassifications = supported,
          pd_capabilities = capabilities\<rparr>))))))))))))"

definition parseProviderHealth :: "jsval \<Rightarrow> domain_error + provider_health" where
  "parseProviderHealth value =
     bindE (ensureRecord value) (\<lambda>r.
     bindE (ensureExactKeys r [''status'', ''checkedAt'', ''detailCode'', ''activeOperations'']) (\<lambda>_.
     bindE (ensureEnum (fld r ''status'') providerStatusText PROVIDER_STATUSES) (\<lambda>status.
     bindE (ensureTimestamp (fld r ''checkedAt'')) (\<lambda>checkedAt.
     bindE (ensureNullable (fld r ''detailCode'') (\<lambda>raw. ensureString raw 1 64 SAFE_KIND)) (\<lambda>detailCode.
     bindE (ensureSafeInteger (fld r ''activeOperations'') 0 1000000) (\<lambda>active.
     Inr \<lparr>ph_status = status, ph_checkedAt = checkedAt, ph_detailCode = detailCode, ph_activeOperations = active\<rparr>))))))"

definition parseModelDescriptor :: "jsval \<Rightarrow> domain_error + model_descriptor" where
  "parseModelDescriptor value =
     bindE (ensureRecord value) (\<lambda>r.
     bindE (ensureExactKeys r [''model'', ''availability'']) (\<lambda>_.
     bindE (parseModelCapabilities (fld r ''model'')) (\<lambda>model.
     bindE (ensureEnum (fld r ''availability'') availabilityText MODEL_AVAILABILITIES) (\<lambda>availability.
     Inr \<lparr>mo_model = model, mo_availability = availability\<rparr>))))"

section \<open>Both together\<close>

record combined_capability =
  xc_structuredOutput :: bool
  xc_toolCalling :: bool
  xc_imageInput :: bool
  xc_localExecution :: bool

definition combinedCapability :: "provider_descriptor \<Rightarrow> model_capabilities \<Rightarrow> combined_capability" where
  "combinedCapability descriptor model =
     \<lparr>xc_structuredOutput = pc_structuredOutput (pd_capabilities descriptor) \<and> md_supportsStructuredOutput model,
      xc_toolCalling = pc_toolCalling (pd_capabilities descriptor) \<and> md_supportsToolUse model,
      xc_imageInput = pc_imageInput (pd_capabilities descriptor) \<and> md_supportsVision model,
      xc_localExecution = pd_locality descriptor = LocalTarget \<and> md_locality model = LocalModel\<rparr>"

end
