(* ===== verification/Policy_Types.thy ===== *)
theory Policy_Types
  imports Providers_Descriptor Domain_Task
begin

text \<open>
  \<open>packages/policy/src/policy.ts\<close>, first part: the vocabulary of the policy broker, its rules, approval scopes, approval
  evidence and requests, with their parsers; and the trace of \<open>packages/providers/src/common.ts\<close>. The order in which
  approval evidence is kept is that of \<open>localeCompare\<close>, which depends on the locale of the host: it is the argument
  \<open>collate\<close> of the definitions that use it.
\<close>

section \<open>Vocabulary\<close>

datatype policy_action =
    ProviderDisclosure | ModelEligibility | CloudExecution | LocalExecution | ArtifactPersistence | InputLogging | OutputLogging
  | WorkspaceRead | WorkspaceWrite | CommandExecution | NetworkAccess | ToolInvocation | SecretAccess | ApprovalAction
  | RetentionAction | ExportAction | DeletionAction | PackageInstall | GitWrite

fun policyActionText :: "policy_action \<Rightarrow> string" where
  "policyActionText ProviderDisclosure = ''provider-disclosure''"
| "policyActionText ModelEligibility = ''model-eligibility''"
| "policyActionText CloudExecution = ''cloud-execution''"
| "policyActionText LocalExecution = ''local-execution''"
| "policyActionText ArtifactPersistence = ''artifact-persistence''"
| "policyActionText InputLogging = ''input-logging''"
| "policyActionText OutputLogging = ''output-logging''"
| "policyActionText WorkspaceRead = ''workspace-read''"
| "policyActionText WorkspaceWrite = ''workspace-write''"
| "policyActionText CommandExecution = ''command-execution''"
| "policyActionText NetworkAccess = ''network-access''"
| "policyActionText ToolInvocation = ''tool-invocation''"
| "policyActionText SecretAccess = ''secret-access''"
| "policyActionText ApprovalAction = ''approval''"
| "policyActionText RetentionAction = ''retention''"
| "policyActionText ExportAction = ''export''"
| "policyActionText DeletionAction = ''deletion''"
| "policyActionText PackageInstall = ''package-install''"
| "policyActionText GitWrite = ''git-write''"

definition POLICY_ACTIONS :: "policy_action list" where
  "POLICY_ACTIONS = [ProviderDisclosure, ModelEligibility, CloudExecution, LocalExecution, ArtifactPersistence, InputLogging,
     OutputLogging, WorkspaceRead, WorkspaceWrite, CommandExecution, NetworkAccess, ToolInvocation, SecretAccess, ApprovalAction,
     RetentionAction, ExportAction, DeletionAction, PackageInstall, GitWrite]"

datatype policy_outcome = PolicyAllowed | PolicyDenied | PolicyConditional

fun policyOutcomeText :: "policy_outcome \<Rightarrow> string" where
  "policyOutcomeText PolicyAllowed = ''allowed''"
| "policyOutcomeText PolicyDenied = ''denied''"
| "policyOutcomeText PolicyConditional = ''conditional''"

datatype policy_authority = OrganizationAuthority | ProjectAuthority | UserAuthority

fun authorityText :: "policy_authority \<Rightarrow> string" where
  "authorityText OrganizationAuthority = ''organization''"
| "authorityText ProjectAuthority = ''project''"
| "authorityText UserAuthority = ''user''"

definition POLICY_AUTHORITIES :: "policy_authority list" where
  "POLICY_AUTHORITIES = [OrganizationAuthority, ProjectAuthority, UserAuthority]"

datatype rule_effect = AllowEffect | DenyEffect | ConditionalEffect

fun ruleEffectText :: "rule_effect \<Rightarrow> string" where
  "ruleEffectText AllowEffect = ''allow''"
| "ruleEffectText DenyEffect = ''deny''"
| "ruleEffectText ConditionalEffect = ''conditional''"

definition POLICY_RULE_EFFECTS :: "rule_effect list" where
  "POLICY_RULE_EFFECTS = [AllowEffect, DenyEffect, ConditionalEffect]"

datatype policy_capability =
    StreamingCap | StructuredOutputCap | ToolCallingCap | ImageInputCap | RepositoryEditingCap | CommandExecutionCap
  | NetworkAccessCap | ResumabilityCap | DataRetentionCap | ModelTrainingCap

fun policyCapabilityText :: "policy_capability \<Rightarrow> string" where
  "policyCapabilityText StreamingCap = ''streaming''"
| "policyCapabilityText StructuredOutputCap = ''structured-output''"
| "policyCapabilityText ToolCallingCap = ''tool-calling''"
| "policyCapabilityText ImageInputCap = ''image-input''"
| "policyCapabilityText RepositoryEditingCap = ''repository-editing''"
| "policyCapabilityText CommandExecutionCap = ''command-execution''"
| "policyCapabilityText NetworkAccessCap = ''network-access''"
| "policyCapabilityText ResumabilityCap = ''resumability''"
| "policyCapabilityText DataRetentionCap = ''data-retention''"
| "policyCapabilityText ModelTrainingCap = ''model-training''"

definition POLICY_CAPABILITIES :: "policy_capability list" where
  "POLICY_CAPABILITIES = [StreamingCap, StructuredOutputCap, ToolCallingCap, ImageInputCap, RepositoryEditingCap, CommandExecutionCap,
     NetworkAccessCap, ResumabilityCap, DataRetentionCap, ModelTrainingCap]"

datatype approval_result = ApprovedResult | DeniedResult

fun approvalResultText :: "approval_result \<Rightarrow> string" where
  "approvalResultText ApprovedResult = ''approved''"
| "approvalResultText DeniedResult = ''denied''"

definition APPROVAL_RESULTS :: "approval_result list" where "APPROVAL_RESULTS = [ApprovedResult, DeniedResult]"

datatype approval_usage = OneShot | Reusable

fun approvalUsageText :: "approval_usage \<Rightarrow> string" where
  "approvalUsageText OneShot = ''one-shot''"
| "approvalUsageText Reusable = ''reusable''"

definition APPROVAL_USAGES :: "approval_usage list" where "APPROVAL_USAGES = [OneShot, Reusable]"

datatype approver_class = UserApprover | ProjectOwner | OrganizationAdmin

fun approverClassText :: "approver_class \<Rightarrow> string" where
  "approverClassText UserApprover = ''user''"
| "approverClassText ProjectOwner = ''project-owner''"
| "approverClassText OrganizationAdmin = ''organization-admin''"

definition APPROVER_CLASSES :: "approver_class list" where "APPROVER_CLASSES = [UserApprover, ProjectOwner, OrganizationAdmin]"

datatype requester_kind = UserRequester | SystemRequester | ModelRequester

fun requesterKindText :: "requester_kind \<Rightarrow> string" where
  "requesterKindText UserRequester = ''user''"
| "requesterKindText SystemRequester = ''system''"
| "requesterKindText ModelRequester = ''model''"

definition REQUESTER_KINDS :: "requester_kind list" where "REQUESTER_KINDS = [UserRequester, SystemRequester, ModelRequester]"

datatype required_locality = RequiresLocal | AnyLocality

fun requiredLocalityText :: "required_locality \<Rightarrow> string" where
  "requiredLocalityText RequiresLocal = ''local''"
| "requiredLocalityText AnyLocality = ''any''"

datatype requested_locality = LocalRequested | CloudRequested | UnspecifiedLocality

fun requestedLocalityText :: "requested_locality \<Rightarrow> string" where
  "requestedLocalityText LocalRequested = ''local''"
| "requestedLocalityText CloudRequested = ''cloud''"
| "requestedLocalityText UnspecifiedLocality = ''unspecified''"

datatype policy_code = INVALID_POLICY | INVALID_POLICY_REQUEST

datatype policy_error = PolicyError policy_code | PolicyDomain domain_error

definition liftPolicy :: "domain_error + 'a \<Rightarrow> policy_error + 'a" where
  "liftPolicy m = (case m of Inl e \<Rightarrow> Inl (PolicyDomain e) | Inr a \<Rightarrow> Inr a)"

lemma liftPolicy_simps [simp]: "liftPolicy (Inr a) = Inr a" "liftPolicy (Inl e) = Inl (PolicyDomain e)"
  by (simp_all add: liftPolicy_def)

lemma liftPolicy_Inr_iff [simp]: "liftPolicy m = Inr a \<longleftrightarrow> m = Inr a"
  by (cases m) simp_all

section \<open>Traces\<close>

record execution_trace =
  xt_traceId :: string
  xt_runId :: "string option"
  xt_taskId :: "string option"
  xt_taskRunId :: "string option"

definition parseTraceId :: "jsval \<Rightarrow> domain_error + string" where
  "parseTraceId raw = ensureString raw 1 128 SAFE_ID"

definition parseExecutionTraceMetadata :: "jsval \<Rightarrow> domain_error + execution_trace" where
  "parseExecutionTraceMetadata value =
     bindE (ensureRecord value) (\<lambda>r.
     bindE (ensureExactKeys r [''traceId'', ''runId'', ''taskId'', ''taskRunId'']) (\<lambda>_.
     bindE (parseTraceId (fld r ''traceId'')) (\<lambda>traceId.
     bindE (ensureNullable (fld r ''runId'') parseTraceId) (\<lambda>runId.
     bindE (ensureNullable (fld r ''taskId'') parseTraceId) (\<lambda>taskId.
     bindE (ensureNullable (fld r ''taskRunId'') parseTraceId) (\<lambda>taskRunId.
     Inr \<lparr>xt_traceId = traceId, xt_runId = runId, xt_taskId = taskId, xt_taskRunId = taskRunId\<rparr>))))))"

section \<open>Approvals\<close>

record approval_scope =
  as_projectId :: "string option"
  as_taskId :: "string option"
  as_providerInstanceId :: "string option"
  as_workspaceId :: "string option"
  as_operationId :: "string option"
  as_traceId :: "string option"

definition nullableId :: "jsval \<Rightarrow> domain_error + string option" where
  "nullableId value = ensureNullable value (\<lambda>raw. ensureString raw 1 128 SAFE_ID)"

text \<open>The values of a scope in the order of its keys.\<close>

definition scopeValues :: "approval_scope \<Rightarrow> string option list" where
  "scopeValues s = [as_projectId s, as_taskId s, as_providerInstanceId s, as_workspaceId s, as_operationId s, as_traceId s]"

definition parseApprovalScope :: "jsval \<Rightarrow> domain_error + approval_scope" where
  "parseApprovalScope value =
     bindE (ensureRecord value) (\<lambda>r.
     bindE (ensureExactKeys r [''projectId'', ''taskId'', ''providerInstanceId'', ''workspaceId'', ''operationId'', ''traceId'']) (\<lambda>_.
     bindE (nullableId (fld r ''projectId'')) (\<lambda>projectId.
     bindE (nullableId (fld r ''taskId'')) (\<lambda>taskId.
     bindE (nullableId (fld r ''providerInstanceId'')) (\<lambda>providerInstanceId.
     bindE (nullableId (fld r ''workspaceId'')) (\<lambda>workspaceId.
     bindE (nullableId (fld r ''operationId'')) (\<lambda>operationId.
     bindE (nullableId (fld r ''traceId'')) (\<lambda>traceId.
     let parsed = \<lparr>as_projectId = projectId, as_taskId = taskId, as_providerInstanceId = providerInstanceId,
           as_workspaceId = workspaceId, as_operationId = operationId, as_traceId = traceId\<rparr> in
     if list_all (\<lambda>entry. entry = None) (scopeValues parsed) then fail ''empty_scope'' else Inr parsed))))))))"

record approval_evidence =
  av_approvalRequestId :: string
  av_action :: policy_action
  av_risk :: task_risk
  av_scope :: approval_scope
  av_subjectDigest :: string
  av_usage :: approval_usage
  av_approverClass :: approver_class
  av_approverIdentityRef :: string
  av_result :: approval_result
  av_decidedAt :: string
  av_expiresAt :: string
  av_revokedAt :: "string option"
  av_consumedAt :: "string option"
  av_evidenceRef :: string

definition EVIDENCE_KEYS :: "string list" where
  "EVIDENCE_KEYS = [''approvalRequestId'', ''action'', ''risk'', ''scope'', ''subjectDigest'', ''usage'', ''approverClass'',
     ''approverIdentityRef'', ''result'', ''decidedAt'', ''expiresAt'', ''revokedAt'', ''consumedAt'', ''evidenceRef'']"

definition parseApprovalEvidence :: "jsval \<Rightarrow> domain_error + approval_evidence" where
  "parseApprovalEvidence value =
     bindE (ensureRecord value) (\<lambda>r.
     bindE (ensureExactKeys r EVIDENCE_KEYS) (\<lambda>_.
     bindE (ensureTimestamp (fld r ''decidedAt'')) (\<lambda>decidedAt.
     bindE (ensureTimestamp (fld r ''expiresAt'')) (\<lambda>expiresAt.
     bindE (requireE (strLess decidedAt expiresAt) (Validation ''bad_expiration'')) (\<lambda>_.
     bindE (ensureString (fld r ''approvalRequestId'') 1 128 SAFE_ID) (\<lambda>approvalRequestId.
     bindE (ensureEnum (fld r ''action'') policyActionText POLICY_ACTIONS) (\<lambda>action.
     bindE (ensureEnum (fld r ''risk'') taskRiskText TASK_RISKS) (\<lambda>risk.
     bindE (parseApprovalScope (fld r ''scope'')) (\<lambda>scope.
     bindE (ensureString (fld r ''subjectDigest'') 1 64 HEX_64) (\<lambda>subjectDigest.
     bindE (ensureEnum (fld r ''usage'') approvalUsageText APPROVAL_USAGES) (\<lambda>usage.
     bindE (ensureEnum (fld r ''approverClass'') approverClassText APPROVER_CLASSES) (\<lambda>approverClass.
     bindE (ensureString (fld r ''approverIdentityRef'') 1 128 SAFE_ID) (\<lambda>approverIdentityRef.
     bindE (ensureEnum (fld r ''result'') approvalResultText APPROVAL_RESULTS) (\<lambda>result.
     bindE (ensureNullable (fld r ''revokedAt'') ensureTimestamp) (\<lambda>revokedAt.
     bindE (ensureNullable (fld r ''consumedAt'') ensureTimestamp) (\<lambda>consumedAt.
     bindE (ensureString (fld r ''evidenceRef'') 1 128 SAFE_ID) (\<lambda>evidenceRef.
     Inr \<lparr>av_approvalRequestId = approvalRequestId, av_action = action, av_risk = risk, av_scope = scope,
          av_subjectDigest = subjectDigest, av_usage = usage, av_approverClass = approverClass,
          av_approverIdentityRef = approverIdentityRef, av_result = result, av_decidedAt = decidedAt, av_expiresAt = expiresAt,
          av_revokedAt = revokedAt, av_consumedAt = consumedAt, av_evidenceRef = evidenceRef\<rparr>)))))))))))))))))"

section \<open>Rules\<close>

record approval_template =
  at_approverClass :: approver_class
  at_usage :: approval_usage
  at_ttlMs :: int

record policy_rule =
  pl_id :: string
  pl_authority :: policy_authority
  pl_effect :: rule_effect
  pl_actions :: "policy_action list"
  pl_classifications :: "data_classification list"
  pl_risks :: "task_risk list"
  pl_requiredTransformations :: "redaction_kind list"
  pl_approval :: "approval_template option"
  pl_requiredLocality :: required_locality
  pl_forbidInputLogging :: bool
  pl_forbidOutputLogging :: bool
  pl_forbidArtifactPersistence :: bool
  pl_forbidRetention :: bool
  pl_maxRetentionDays :: "int option"
  pl_forbiddenCapabilities :: "policy_capability list"

definition RULE_KEYS :: "string list" where
  "RULE_KEYS = [''schemaVersion'', ''id'', ''authority'', ''effect'', ''actions'', ''classifications'', ''risks'',
     ''requiredTransformations'', ''approval'', ''requiredLocality'', ''forbidInputLogging'', ''forbidOutputLogging'',
     ''forbidArtifactPersistence'', ''forbidRetention'', ''maxRetentionDays'', ''forbiddenCapabilities'']"

definition parseApprovalTemplate :: "jsval \<Rightarrow> domain_error + approval_template" where
  "parseApprovalTemplate raw =
     bindE (ensureRecord raw) (\<lambda>item.
     bindE (ensureExactKeys item [''approverClass'', ''usage'', ''ttlMs'']) (\<lambda>_.
     bindE (ensureEnum (fld item ''approverClass'') approverClassText APPROVER_CLASSES) (\<lambda>approverClass.
     bindE (ensureEnum (fld item ''usage'') approvalUsageText APPROVAL_USAGES) (\<lambda>usage.
     bindE (ensureSafeInteger (fld item ''ttlMs'') 1 86400000) (\<lambda>ttlMs.
     Inr \<lparr>at_approverClass = approverClass, at_usage = usage, at_ttlMs = ttlMs\<rparr>)))))"

definition parsePolicyRule :: "jsval \<Rightarrow> domain_error + policy_rule" where
  "parsePolicyRule value =
     bindE (ensureRecord value) (\<lambda>r.
     bindE (ensureExactKeys r RULE_KEYS) (\<lambda>_.
     bindE (ensureSchemaVersion (fld r ''schemaVersion'') 1) (\<lambda>_.
     bindE (ensureNullable (fld r ''approval'') parseApprovalTemplate) (\<lambda>approval.
     bindE (ensureString (fld r ''id'') 1 64 SAFE_KIND) (\<lambda>ruleId.
     bindE (ensureEnum (fld r ''authority'') authorityText POLICY_AUTHORITIES) (\<lambda>authority.
     bindE (ensureEnum (fld r ''effect'') ruleEffectText POLICY_RULE_EFFECTS) (\<lambda>effect.
     bindE (ensureEnumArray (fld r ''actions'') policyActionText POLICY_ACTIONS (length POLICY_ACTIONS)) (\<lambda>actions.
     bindE (ensureEnumArray (fld r ''classifications'') classificationText DATA_CLASSIFICATIONS (length DATA_CLASSIFICATIONS)) (\<lambda>classifications.
     bindE (ensureEnumArray (fld r ''risks'') taskRiskText TASK_RISKS (length TASK_RISKS)) (\<lambda>risks.
     bindE (ensureEnumArray (fld r ''requiredTransformations'') redactionText REDACTION_KINDS (length REDACTION_KINDS)) (\<lambda>transformations.
     bindE (ensureEnum (fld r ''requiredLocality'') requiredLocalityText [RequiresLocal, AnyLocality]) (\<lambda>requiredLocality.
     bindE (ensureBoolean (fld r ''forbidInputLogging'')) (\<lambda>forbidInput.
     bindE (ensureBoolean (fld r ''forbidOutputLogging'')) (\<lambda>forbidOutput.
     bindE (ensureBoolean (fld r ''forbidArtifactPersistence'')) (\<lambda>forbidArtifacts.
     bindE (ensureBoolean (fld r ''forbidRetention'')) (\<lambda>forbidRetention.
     bindE (ensureNullable (fld r ''maxRetentionDays'') (\<lambda>raw. ensureSafeInteger raw 0 36500)) (\<lambda>maxDays.
     bindE (ensureEnumArray (fld r ''forbiddenCapabilities'') policyCapabilityText POLICY_CAPABILITIES (length POLICY_CAPABILITIES)) (\<lambda>capabilities.
     Inr \<lparr>pl_id = ruleId, pl_authority = authority, pl_effect = effect, pl_actions = actions, pl_classifications = classifications,
          pl_risks = risks, pl_requiredTransformations = transformations, pl_approval = approval, pl_requiredLocality = requiredLocality,
          pl_forbidInputLogging = forbidInput, pl_forbidOutputLogging = forbidOutput, pl_forbidArtifactPersistence = forbidArtifacts,
          pl_forbidRetention = forbidRetention, pl_maxRetentionDays = maxDays,
          pl_forbiddenCapabilities = capabilities\<rparr>))))))))))))))))))"

section \<open>Requests\<close>

record policy_request =
  qr_action :: policy_action
  qr_classification :: data_classification
  qr_handlingPolicy :: data_policy
  qr_risk :: task_risk
  qr_locality :: requested_locality
  qr_provider :: "provider_descriptor option"
  qr_model :: "model_capabilities option"
  qr_scope :: approval_scope
  qr_subjectDigest :: "string option"
  qr_requestedCapabilities :: "policy_capability list"
  qr_transformationsApplied :: "redaction_kind list"
  qr_approvalEvidence :: "approval_evidence list"
  qr_retentionDays :: "int option"
  qr_trace :: execution_trace
  qr_requesterKind :: requester_kind

definition REQUEST_KEYS :: "string list" where
  "REQUEST_KEYS = [''schemaVersion'', ''action'', ''classification'', ''handlingPolicy'', ''risk'', ''locality'', ''provider'',
     ''model'', ''scope'', ''subjectDigest'', ''requestedCapabilities'', ''transformationsApplied'', ''approvalEvidence'',
     ''retentionDays'', ''trace'', ''requesterKind'']"

text \<open>\<open>localeCompare\<close> of the request ids, then of the evidence references; the sort is stable.\<close>

definition evidenceAhead :: "(string \<Rightarrow> string \<Rightarrow> int) \<Rightarrow> approval_evidence \<Rightarrow> approval_evidence \<Rightarrow> bool" where
  "evidenceAhead collate a b \<longleftrightarrow>
     (let byId = collate (av_approvalRequestId a) (av_approvalRequestId b) in
      if byId \<noteq> 0 then byId \<le> 0 else collate (av_evidenceRef a) (av_evidenceRef b) \<le> 0)"

definition parseEvidenceList :: "(string \<Rightarrow> string \<Rightarrow> int) \<Rightarrow> jsval \<Rightarrow> domain_error + approval_evidence list" where
  "parseEvidenceList collate value =
     bindE (ensureArray value 32) (\<lambda>entries.
     bindE (mapE parseApprovalEvidence entries) (\<lambda>evidence.
     Inr (sortBy (evidenceAhead collate) evidence)))"

text \<open>Two identifiers that are both present and differ; a provider and a model that do not belong together.\<close>

definition idMismatch :: "string option \<Rightarrow> string option \<Rightarrow> bool" where
  "idMismatch a b \<longleftrightarrow> a \<noteq> None \<and> b \<noteq> None \<and> a \<noteq> b"

definition sameLocality :: "locality \<Rightarrow> model_locality \<Rightarrow> bool" where
  "sameLocality a b \<longleftrightarrow> localityText a = modelLocalityText b"

definition modelMismatch :: "provider_descriptor option \<Rightarrow> model_capabilities option \<Rightarrow> bool" where
  "modelMismatch provider model =
     (case (provider, model) of
        (Some p, Some m) \<Rightarrow> pd_providerId p \<noteq> md_providerId m \<or> \<not> sameLocality (pd_locality p) (md_locality m)
      | _ \<Rightarrow> False)"

text \<open>The checks between the fields of a request, in their order.\<close>

definition requestConflict :: "policy_request \<Rightarrow> string option" where
  "requestConflict q =
     (if dp_classification (qr_handlingPolicy q) \<noteq> qr_classification q then Some ''classification_mismatch''
      else if as_traceId (qr_scope q) \<noteq> None \<and> as_traceId (qr_scope q) \<noteq> Some (xt_traceId (qr_trace q)) then Some ''trace_scope_mismatch''
      else if idMismatch (as_taskId (qr_scope q)) (xt_taskId (qr_trace q)) then Some ''task_scope_mismatch''
      else if idMismatch (as_providerInstanceId (qr_scope q)) (map_option pd_instanceId (qr_provider q)) then Some ''provider_scope_mismatch''
      else if modelMismatch (qr_provider q) (qr_model q) then Some ''provider_model_mismatch''
      else None)"

definition parsePolicyRequest :: "(string \<Rightarrow> string \<Rightarrow> int) \<Rightarrow> jsval \<Rightarrow> domain_error + policy_request" where
  "parsePolicyRequest collate value =
     bindE (ensureRecord value) (\<lambda>r.
     bindE (ensureExactKeys r REQUEST_KEYS) (\<lambda>_.
     bindE (ensureSchemaVersion (fld r ''schemaVersion'') 1) (\<lambda>_.
     bindE (parseEvidenceList collate (fld r ''approvalEvidence'')) (\<lambda>evidence.
     bindE (ensureEnum (fld r ''action'') policyActionText POLICY_ACTIONS) (\<lambda>action.
     bindE (ensureEnum (fld r ''classification'') classificationText DATA_CLASSIFICATIONS) (\<lambda>classification.
     bindE (parseDataHandlingPolicy (fld r ''handlingPolicy'')) (\<lambda>handlingPolicy.
     bindE (ensureEnum (fld r ''risk'') taskRiskText TASK_RISKS) (\<lambda>risk.
     bindE (ensureEnum (fld r ''locality'') requestedLocalityText [LocalRequested, CloudRequested, UnspecifiedLocality]) (\<lambda>locality.
     bindE (ensureNullable (fld r ''provider'') parseProviderDescriptor) (\<lambda>provider.
     bindE (ensureNullable (fld r ''model'') parseModelCapabilities) (\<lambda>model.
     bindE (parseApprovalScope (fld r ''scope'')) (\<lambda>scope.
     bindE (ensureNullable (fld r ''subjectDigest'') (\<lambda>raw. ensureString raw 1 64 HEX_64)) (\<lambda>subjectDigest.
     bindE (ensureEnumArray (fld r ''requestedCapabilities'') policyCapabilityText POLICY_CAPABILITIES (length POLICY_CAPABILITIES)) (\<lambda>capabilities.
     bindE (ensureEnumArray (fld r ''transformationsApplied'') redactionText REDACTION_KINDS (length REDACTION_KINDS)) (\<lambda>transformations.
     bindE (ensureNullable (fld r ''retentionDays'') (\<lambda>raw. ensureSafeInteger raw 0 36500)) (\<lambda>retentionDays.
     bindE (parseExecutionTraceMetadata (fld r ''trace'')) (\<lambda>trace.
     bindE (ensureEnum (fld r ''requesterKind'') requesterKindText REQUESTER_KINDS) (\<lambda>requesterKind.
     let request = \<lparr>qr_action = action, qr_classification = classification, qr_handlingPolicy = handlingPolicy, qr_risk = risk,
           qr_locality = locality, qr_provider = provider, qr_model = model, qr_scope = scope, qr_subjectDigest = subjectDigest,
           qr_requestedCapabilities = capabilities, qr_transformationsApplied = transformations, qr_approvalEvidence = evidence,
           qr_retentionDays = retentionDays, qr_trace = trace, qr_requesterKind = requesterKind\<rparr> in
     case requestConflict request of Some code \<Rightarrow> fail code | None \<Rightarrow> Inr request))))))))))))))))))"

end
