(* ===== verification/Router_Config.thy ===== *)
theory Router_Config
  imports Router_Circuit_Laws
begin

text \<open>
  \<open>packages/router/src/config.ts\<close>: the configuration of the router, its parser and its digest. The weights are the
  list of the thirteen terms with their weights, in the order of the code.
\<close>

section \<open>Terms of the score\<close>

datatype score_term =
    CapabilityMargin | QualityEvidence | CostEfficiency | LatencyMargin | LocalityPreference | AliasPriority | VerifiedFree
  | QuotaHeadroom | ProtectedReserve | CapacityHeadroom | HealthReliability | ContextHeadroom | EvidenceConfidence

fun scoreTermText :: "score_term \<Rightarrow> string" where
  "scoreTermText CapabilityMargin = ''capability-margin''"
| "scoreTermText QualityEvidence = ''quality-evidence''"
| "scoreTermText CostEfficiency = ''cost-efficiency''"
| "scoreTermText LatencyMargin = ''latency-margin''"
| "scoreTermText LocalityPreference = ''locality-preference''"
| "scoreTermText AliasPriority = ''alias-priority''"
| "scoreTermText VerifiedFree = ''verified-free''"
| "scoreTermText QuotaHeadroom = ''quota-headroom''"
| "scoreTermText ProtectedReserve = ''protected-reserve''"
| "scoreTermText CapacityHeadroom = ''capacity-headroom''"
| "scoreTermText HealthReliability = ''health-reliability''"
| "scoreTermText ContextHeadroom = ''context-headroom''"
| "scoreTermText EvidenceConfidence = ''evidence-confidence''"

definition ROUTER_SCORE_TERM_IDS :: "score_term list" where
  "ROUTER_SCORE_TERM_IDS =
     [CapabilityMargin, QualityEvidence, CostEfficiency, LatencyMargin, LocalityPreference, AliasPriority, VerifiedFree,
      QuotaHeadroom, ProtectedReserve, CapacityHeadroom, HealthReliability, ContextHeadroom, EvidenceConfidence]"

section \<open>The configuration\<close>

definition ROUTER_CONFIGURATION_SCHEMA_VERSION :: int where "ROUTER_CONFIGURATION_SCHEMA_VERSION = 1"
definition ROUTER_CONFIGURATION_ALGORITHM_VERSION :: int where "ROUTER_CONFIGURATION_ALGORITHM_VERSION = 1"
definition ROUTER_CONFIG_EXTENSION_NAMESPACE :: string where "ROUTER_CONFIG_EXTENSION_NAMESPACE = ''router''"

record router_freshness =
  fr_catalogMs :: int
  fr_healthMs :: int
  fr_quotaMs :: int
  fr_capacityMs :: int
  fr_secureExecutionMs :: int

datatype minimum_accuracy = MinimumExact | MinimumProvenUpperBound

fun minimumAccuracyText :: "minimum_accuracy \<Rightarrow> string" where
  "minimumAccuracyText MinimumExact = ''exact''"
| "minimumAccuracyText MinimumProvenUpperBound = ''proven-upper-bound''"

record hard_evidence =
  he_requireKnownQuota :: bool
  he_requireKnownCapacityForLocal :: bool
  he_requireKnownCostWhenBudgeted :: bool
  he_verifiedFreeOnly :: bool
  he_minimumEstimatorAccuracy :: minimum_accuracy

record protected_reserve =
  pr_requests :: int
  pr_tokens :: int
  pr_concurrency :: int
  pr_memoryBytes :: int

record reservation_margins =
  rm_tokenSafetyMarginBps :: int
  rm_costSafetyMarginBps :: int
  rm_durationSafetyMarginBps :: int

record router_configuration =
  rc_freshness :: router_freshness
  rc_hardEvidence :: hard_evidence
  rc_protectedReserve :: protected_reserve
  rc_scoreWeights :: "(score_term \<times> int) list"
  rc_fallbacksEnabled :: bool
  rc_fallbacksMaximumCount :: int
  rc_confidenceMinimum :: int
  rc_circuitBreaker :: circuit_configuration
  rc_reservation :: reservation_margins
  rc_maximumCandidates :: int
  rc_maximumRejections :: int
  rc_maximumExplanationReasons :: int
  rc_fingerprint :: string

text \<open>The stored form; \<open>number\<close> is a JSON integer.\<close>

abbreviation number :: "int \<Rightarrow> json" where
  "number i \<equiv> JsonNum (NInt i)"

definition marginsJson :: "reservation_margins \<Rightarrow> json" where
  "marginsJson m = JsonObj [(''tokenSafetyMarginBps'', number (rm_tokenSafetyMarginBps m)),
     (''costSafetyMarginBps'', number (rm_costSafetyMarginBps m)), (''durationSafetyMarginBps'', number (rm_durationSafetyMarginBps m))]"

definition unsignedConfigurationFields :: "router_configuration \<Rightarrow> (string \<times> json) list" where
  "unsignedConfigurationFields c = (let f = rc_freshness c; h = rc_hardEvidence c; p = rc_protectedReserve c; b = rc_circuitBreaker c in
     [(''schemaVersion'', number ROUTER_CONFIGURATION_SCHEMA_VERSION), (''algorithmVersion'', number ROUTER_CONFIGURATION_ALGORITHM_VERSION),
      (''freshness'', JsonObj [(''catalogMs'', number (fr_catalogMs f)), (''healthMs'', number (fr_healthMs f)), (''quotaMs'', number (fr_quotaMs f)),
         (''capacityMs'', number (fr_capacityMs f)), (''secureExecutionMs'', number (fr_secureExecutionMs f))]),
      (''hardEvidence'', JsonObj [(''requireKnownQuota'', JsonBool (he_requireKnownQuota h)),
         (''requireKnownCapacityForLocal'', JsonBool (he_requireKnownCapacityForLocal h)),
         (''requireKnownCostWhenBudgeted'', JsonBool (he_requireKnownCostWhenBudgeted h)), (''verifiedFreeOnly'', JsonBool (he_verifiedFreeOnly h)),
         (''minimumEstimatorAccuracy'', JsonStr (minimumAccuracyText (he_minimumEstimatorAccuracy h)))]),
      (''protectedReserve'', JsonObj [(''requests'', number (pr_requests p)), (''tokens'', number (pr_tokens p)),
         (''concurrency'', number (pr_concurrency p)), (''memoryBytes'', number (pr_memoryBytes p))]),
      (''scoreWeights'', JsonObj (map (\<lambda>(t, w). (scoreTermText t, number w)) (rc_scoreWeights c))),
      (''fallbacks'', JsonObj [(''enabled'', JsonBool (rc_fallbacksEnabled c)), (''maximumCount'', number (rc_fallbacksMaximumCount c))]),
      (''confidence'', JsonObj [(''minimum'', number (rc_confidenceMinimum c))]),
      (''circuitBreaker'', JsonObj [(''failureThreshold'', number (cc_failureThreshold b)), (''coolDownMs'', number (cc_coolDownMs b)),
         (''maximumRememberedEvents'', number (int (cc_maximumRememberedEvents b)))]),
      (''reservation'', marginsJson (rc_reservation c)),
      (''bounds'', JsonObj [(''maximumCandidates'', number (rc_maximumCandidates c)), (''maximumRejections'', number (rc_maximumRejections c)),
         (''maximumExplanationReasons'', number (rc_maximumExplanationReasons c))])])"

definition routerConfigurationFingerprint :: "codec \<Rightarrow> jsval \<Rightarrow> domain_error + string" where
  "routerConfigurationFingerprint cd value = digest cd value"

section \<open>Parsers\<close>

definition YEAR_MS :: int where "YEAR_MS = 31536000000"

definition parseFreshness :: "jsval \<Rightarrow> domain_error + router_freshness" where
  "parseFreshness value =
     bindE (ensureRecord value) (\<lambda>r.
     bindE (ensureExactKeys r [''catalogMs'', ''healthMs'', ''quotaMs'', ''capacityMs'', ''secureExecutionMs'']) (\<lambda>_.
     bindE (ensureSafeInteger (fld r ''catalogMs'') 0 YEAR_MS) (\<lambda>catalogMs.
     bindE (ensureSafeInteger (fld r ''healthMs'') 0 YEAR_MS) (\<lambda>healthMs.
     bindE (ensureSafeInteger (fld r ''quotaMs'') 0 YEAR_MS) (\<lambda>quotaMs.
     bindE (ensureSafeInteger (fld r ''capacityMs'') 0 YEAR_MS) (\<lambda>capacityMs.
     bindE (ensureSafeInteger (fld r ''secureExecutionMs'') 0 YEAR_MS) (\<lambda>secureExecutionMs.
     Inr \<lparr>fr_catalogMs = catalogMs, fr_healthMs = healthMs, fr_quotaMs = quotaMs, fr_capacityMs = capacityMs,
          fr_secureExecutionMs = secureExecutionMs\<rparr>)))))))"

definition parseHardEvidence :: "jsval \<Rightarrow> domain_error + hard_evidence" where
  "parseHardEvidence value =
     bindE (ensureRecord value) (\<lambda>r.
     bindE (ensureExactKeys r [''requireKnownQuota'', ''requireKnownCapacityForLocal'', ''requireKnownCostWhenBudgeted'', ''verifiedFreeOnly'',
       ''minimumEstimatorAccuracy'']) (\<lambda>_.
     bindE (ensureBoolean (fld r ''requireKnownQuota'')) (\<lambda>quota.
     bindE (ensureBoolean (fld r ''requireKnownCapacityForLocal'')) (\<lambda>capacity.
     bindE (ensureBoolean (fld r ''requireKnownCostWhenBudgeted'')) (\<lambda>cost.
     bindE (ensureBoolean (fld r ''verifiedFreeOnly'')) (\<lambda>free.
     bindE (ensureEnum (fld r ''minimumEstimatorAccuracy'') minimumAccuracyText [MinimumExact, MinimumProvenUpperBound]) (\<lambda>accuracy.
     Inr \<lparr>he_requireKnownQuota = quota, he_requireKnownCapacityForLocal = capacity, he_requireKnownCostWhenBudgeted = cost,
          he_verifiedFreeOnly = free, he_minimumEstimatorAccuracy = accuracy\<rparr>)))))))"

definition parseProtectedReserve :: "jsval \<Rightarrow> domain_error + protected_reserve" where
  "parseProtectedReserve value =
     bindE (ensureRecord value) (\<lambda>r.
     bindE (ensureExactKeys r [''requests'', ''tokens'', ''concurrency'', ''memoryBytes'']) (\<lambda>_.
     bindE (ensureSafeInteger (fld r ''requests'') 0 1000000000) (\<lambda>requests.
     bindE (ensureSafeInteger (fld r ''tokens'') 0 1000000000000) (\<lambda>tokens.
     bindE (ensureSafeInteger (fld r ''concurrency'') 0 1000000) (\<lambda>concurrency.
     bindE (ensureSafeInteger (fld r ''memoryBytes'') 0 1000000000000) (\<lambda>memoryBytes.
     Inr \<lparr>pr_requests = requests, pr_tokens = tokens, pr_concurrency = concurrency, pr_memoryBytes = memoryBytes\<rparr>))))))"

definition parseScoreWeights :: "jsval \<Rightarrow> domain_error + (score_term \<times> int) list" where
  "parseScoreWeights value =
     bindE (ensureRecord value) (\<lambda>r.
     bindE (ensureExactKeys r (map scoreTermText ROUTER_SCORE_TERM_IDS)) (\<lambda>_.
     mapE (\<lambda>t. bindE (ensureSafeInteger (fld r (scoreTermText t)) 0 1000) (\<lambda>w. Inr (t, w))) ROUTER_SCORE_TERM_IDS))"

definition parseRouterConfiguration :: "codec \<Rightarrow> jsval \<Rightarrow> domain_error + router_configuration" where
  "parseRouterConfiguration cd value =
     bindE (ensureRecord value) (\<lambda>r.
     bindE (ensureExactKeys r [''schemaVersion'', ''algorithmVersion'', ''freshness'', ''hardEvidence'', ''protectedReserve'', ''scoreWeights'',
       ''fallbacks'', ''confidence'', ''circuitBreaker'', ''reservation'', ''bounds'', ''fingerprint'']) (\<lambda>_.
     bindE (ensureSchemaVersion (fld r ''schemaVersion'') ROUTER_CONFIGURATION_SCHEMA_VERSION) (\<lambda>_.
     bindE (ensureSchemaVersion (fld r ''algorithmVersion'') ROUTER_CONFIGURATION_ALGORITHM_VERSION) (\<lambda>_.
     bindE (ensureRecord (fld r ''fallbacks'')) (\<lambda>fallbacks.
     bindE (ensureExactKeys fallbacks [''enabled'', ''maximumCount'']) (\<lambda>_.
     bindE (ensureRecord (fld r ''confidence'')) (\<lambda>confidence.
     bindE (ensureExactKeys confidence [''minimum'']) (\<lambda>_.
     bindE (ensureRecord (fld r ''circuitBreaker'')) (\<lambda>circuit.
     bindE (ensureExactKeys circuit [''failureThreshold'', ''coolDownMs'', ''maximumRememberedEvents'']) (\<lambda>_.
     bindE (ensureRecord (fld r ''reservation'')) (\<lambda>reservation.
     bindE (ensureExactKeys reservation [''tokenSafetyMarginBps'', ''costSafetyMarginBps'', ''durationSafetyMarginBps'']) (\<lambda>_.
     bindE (ensureRecord (fld r ''bounds'')) (\<lambda>bounds.
     bindE (ensureExactKeys bounds [''maximumCandidates'', ''maximumRejections'', ''maximumExplanationReasons'']) (\<lambda>_.
     bindE (parseFreshness (fld r ''freshness'')) (\<lambda>freshness.
     bindE (parseHardEvidence (fld r ''hardEvidence'')) (\<lambda>hardEvidence.
     bindE (parseProtectedReserve (fld r ''protectedReserve'')) (\<lambda>protectedReserve.
     bindE (parseScoreWeights (fld r ''scoreWeights'')) (\<lambda>scoreWeights.
     bindE (ensureBoolean (fld fallbacks ''enabled'')) (\<lambda>enabled.
     bindE (ensureSafeInteger (fld fallbacks ''maximumCount'') 0 16) (\<lambda>maximumCount.
     bindE (ensureSafeInteger (fld confidence ''minimum'') 0 1000) (\<lambda>minimum.
     bindE (ensureSafeInteger (fld circuit ''failureThreshold'') 1 1000) (\<lambda>failureThreshold.
     bindE (ensureSafeInteger (fld circuit ''coolDownMs'') 1 YEAR_MS) (\<lambda>coolDownMs.
     bindE (ensureSafeInteger (fld circuit ''maximumRememberedEvents'') 1 10000) (\<lambda>maximumRememberedEvents.
     bindE (ensureSafeInteger (fld reservation ''tokenSafetyMarginBps'') 0 100000) (\<lambda>tokenBps.
     bindE (ensureSafeInteger (fld reservation ''costSafetyMarginBps'') 0 100000) (\<lambda>costBps.
     bindE (ensureSafeInteger (fld reservation ''durationSafetyMarginBps'') 0 100000) (\<lambda>durationBps.
     bindE (ensureSafeInteger (fld bounds ''maximumCandidates'') 1 10000) (\<lambda>maximumCandidates.
     bindE (ensureSafeInteger (fld bounds ''maximumRejections'') 1 100000) (\<lambda>maximumRejections.
     bindE (ensureSafeInteger (fld bounds ''maximumExplanationReasons'') 1 10000) (\<lambda>maximumExplanationReasons.
     let unsigned = \<lparr>rc_freshness = freshness, rc_hardEvidence = hardEvidence, rc_protectedReserve = protectedReserve,
           rc_scoreWeights = scoreWeights, rc_fallbacksEnabled = enabled, rc_fallbacksMaximumCount = maximumCount,
           rc_confidenceMinimum = minimum,
           rc_circuitBreaker = \<lparr>cc_failureThreshold = failureThreshold, cc_coolDownMs = coolDownMs,
             cc_maximumRememberedEvents = nat maximumRememberedEvents\<rparr>,
           rc_reservation = \<lparr>rm_tokenSafetyMarginBps = tokenBps, rm_costSafetyMarginBps = costBps, rm_durationSafetyMarginBps = durationBps\<rparr>,
           rc_maximumCandidates = maximumCandidates, rc_maximumRejections = maximumRejections,
           rc_maximumExplanationReasons = maximumExplanationReasons, rc_fingerprint = []\<rparr> in
     bindE (checkFingerprint cd (jsonVal (JsonObj (unsignedConfigurationFields unsigned))) (fld r ''fingerprint'')) (\<lambda>fingerprint.
     Inr (unsigned\<lparr>rc_fingerprint := fingerprint\<rparr>))))))))))))))))))))))))))))))))"

section \<open>Construction\<close>

definition DEFAULT_WEIGHTS :: "(score_term \<times> int) list" where
  "DEFAULT_WEIGHTS =
     [(CapabilityMargin, 100), (QualityEvidence, 80), (CostEfficiency, 60), (LatencyMargin, 40), (LocalityPreference, 50),
      (AliasPriority, 100), (VerifiedFree, 40), (QuotaHeadroom, 80), (ProtectedReserve, 100), (CapacityHeadroom, 60),
      (HealthReliability, 100), (ContextHeadroom, 70), (EvidenceConfidence, 100)]"

definition DEFAULT_UNSIGNED_ROUTER_CONFIGURATION :: router_configuration where
  "DEFAULT_UNSIGNED_ROUTER_CONFIGURATION =
     \<lparr>rc_freshness = \<lparr>fr_catalogMs = 86400000, fr_healthMs = 60000, fr_quotaMs = 60000, fr_capacityMs = 30000, fr_secureExecutionMs = 300000\<rparr>,
      rc_hardEvidence = \<lparr>he_requireKnownQuota = True, he_requireKnownCapacityForLocal = True, he_requireKnownCostWhenBudgeted = True,
        he_verifiedFreeOnly = False, he_minimumEstimatorAccuracy = MinimumProvenUpperBound\<rparr>,
      rc_protectedReserve = \<lparr>pr_requests = 1, pr_tokens = 8192, pr_concurrency = 1, pr_memoryBytes = 268435456\<rparr>,
      rc_scoreWeights = DEFAULT_WEIGHTS, rc_fallbacksEnabled = True, rc_fallbacksMaximumCount = 2, rc_confidenceMinimum = 500,
      rc_circuitBreaker = \<lparr>cc_failureThreshold = 3, cc_coolDownMs = 60000, cc_maximumRememberedEvents = 128\<rparr>,
      rc_reservation = \<lparr>rm_tokenSafetyMarginBps = 1000, rm_costSafetyMarginBps = 1000, rm_durationSafetyMarginBps = 1000\<rparr>,
      rc_maximumCandidates = 256, rc_maximumRejections = 2048, rc_maximumExplanationReasons = 256, rc_fingerprint = []\<rparr>"

text \<open>\<open>{...base, ...overrides}\<close>: an overridden key keeps its place.\<close>

definition spread :: "jsrecord \<Rightarrow> jsrecord \<Rightarrow> jsrecord" where
  "spread base overrides =
     map (\<lambda>(k, v). (k, case map_of (rev overrides) k of None \<Rightarrow> v | Some w \<Rightarrow> w)) base @
     filter (\<lambda>(k, _). k \<notin> fst ` set base) overrides"

definition createRouterConfiguration :: "codec \<Rightarrow> jsrecord \<Rightarrow> domain_error + router_configuration" where
  "createRouterConfiguration cd overrides =
     (let unsigned = spread (map (\<lambda>(k, j). (k, jsonVal j)) (unsignedConfigurationFields DEFAULT_UNSIGNED_ROUTER_CONFIGURATION)) overrides in
     bindE (routerConfigurationFingerprint cd (plainObj unsigned)) (\<lambda>fingerprint.
     parseRouterConfiguration cd (plainObj (spread unsigned [(''fingerprint'', JStr fingerprint)]))))"

definition DEFAULT_ROUTER_CONFIGURATION :: "codec \<Rightarrow> domain_error + router_configuration" where
  "DEFAULT_ROUTER_CONFIGURATION cd = createRouterConfiguration cd []"

record config_extension =
  ex_namespace :: string
  ex_schemaVersion :: int
  ex_value :: jsval

definition parseRouterConfigurationExtension :: "codec \<Rightarrow> config_extension \<Rightarrow> string \<Rightarrow> bool \<Rightarrow> domain_error + router_configuration" where
  "parseRouterConfigurationExtension cd extension layer providersLocked =
     (if ex_namespace extension \<noteq> ROUTER_CONFIG_EXTENSION_NAMESPACE \<or> ex_schemaVersion extension \<noteq> ROUTER_CONFIGURATION_SCHEMA_VERSION then
        fail ''unsupported_extension''
      else if layer \<noteq> ''system'' \<or> \<not> providersLocked then fail ''unlocked_extension''
      else parseRouterConfiguration cd (ex_value extension))"

section \<open>What an accepted configuration satisfies\<close>

definition marginsOk :: "reservation_margins \<Rightarrow> bool" where
  "marginsOk m \<longleftrightarrow> rm_tokenSafetyMarginBps m \<in> {0..100000} \<and> rm_costSafetyMarginBps m \<in> {0..100000} \<and> rm_durationSafetyMarginBps m \<in> {0..100000}"

definition freshnessOk :: "router_freshness \<Rightarrow> bool" where
  "freshnessOk f \<longleftrightarrow> fr_catalogMs f \<in> {0..YEAR_MS} \<and> fr_healthMs f \<in> {0..YEAR_MS} \<and> fr_quotaMs f \<in> {0..YEAR_MS} \<and>
     fr_capacityMs f \<in> {0..YEAR_MS} \<and> fr_secureExecutionMs f \<in> {0..YEAR_MS}"

definition configurationOk :: "router_configuration \<Rightarrow> bool" where
  "configurationOk c \<longleftrightarrow> freshnessOk (rc_freshness c) \<and> map fst (rc_scoreWeights c) = ROUTER_SCORE_TERM_IDS \<and>
     list_all (\<lambda>(t, w). w \<in> {0..1000}) (rc_scoreWeights c) \<and> rc_fallbacksMaximumCount c \<in> {0..16} \<and> rc_confidenceMinimum c \<in> {0..1000} \<and>
     circuitConfigurationOk (rc_circuitBreaker c) \<and> marginsOk (rc_reservation c) \<and> rc_maximumCandidates c \<in> {1..10000} \<and>
     rc_maximumRejections c \<in> {1..100000} \<and> rc_maximumExplanationReasons c \<in> {1..10000}"

lemma parseFreshness_Inr: "parseFreshness v = Inr f \<Longrightarrow> freshnessOk f"
  by (auto simp: parseFreshness_def freshnessOk_def bindE_Inr_iff dest!: ensureSafeInteger_range)

lemma parseScoreWeights_Inr: "parseScoreWeights v = Inr ws \<Longrightarrow> map fst ws = ROUTER_SCORE_TERM_IDS \<and> list_all (\<lambda>(t, w). w \<in> {0..1000}) ws"
proof -
  have "map fst ws = ts \<and> list_all (\<lambda>(t, w). w \<in> {0..1000}) ws"
    if "mapE (\<lambda>t. bindE (ensureSafeInteger (fld r (scoreTermText t)) 0 1000) (\<lambda>w. Inr (t, w))) ts = Inr ws" for r ts
    using that by (induction ts arbitrary: ws) (auto simp: bindE_Inr_iff dest!: ensureSafeInteger_range)
  then show "parseScoreWeights v = Inr ws \<Longrightarrow> ?thesis" by (auto simp: parseScoreWeights_def bindE_Inr_iff)
qed

lemma nat_bounds: "1 \<le> nat i \<longleftrightarrow> 1 \<le> i" "nat i \<le> 10000 \<longleftrightarrow> i \<le> 10000"
  by linarith+

theorem parseRouterConfiguration_Inr: "parseRouterConfiguration cd v = Inr c \<Longrightarrow> configurationOk c"
  unfolding parseRouterConfiguration_def Let_def
  by (simp only: bindE_Inr_iff, elim exE conjE, (drule ensureSafeInteger_range parseFreshness_Inr parseScoreWeights_Inr)+,
      simp only: sum.inject router_configuration.update_convs, hypsubst,
      simp only: configurationOk_def circuitConfigurationOk_def marginsOk_def router_configuration.select_convs circuit_configuration.select_convs
        reservation_margins.select_convs YEAR_MS_def atLeastAtMost_iff nat_bounds)

end
