(* ===== verification/Profiler_Estimator.thy ===== *)
theory Profiler_Estimator
  imports Router_Shared Budget_Laws
begin

text \<open>
  \<open>packages/profiler/src/estimator.ts\<close> with \<open>shared.ts\<close>: token estimates, their parser with its accounting checks, and the
  estimate a descriptor makes. Patterns and digest are the same functions as in the router's \<open>shared.ts\<close>. The compiled prompt
  enters as what \<open>parseCompiledThinkerPrompt\<close> returned (its byte counts and fingerprint), a port as what its \<open>count\<close> returns,
  \<open>None\<close> when it throws.
\<close>

section \<open>Checked arithmetic\<close>

datatype profiler_error = ProfilerArithmetic | ProfilerDomain domain_error

definition liftP :: "domain_error + 'a \<Rightarrow> profiler_error + 'a" where
  "liftP m = (case m of Inl e \<Rightarrow> Inl (ProfilerDomain e) | Inr a \<Rightarrow> Inr a)"

lemma liftP_simps [simp]: "liftP (Inr a) = Inr a" "liftP (Inl e) = Inl (ProfilerDomain e)"
  by (simp_all add: liftP_def)

lemma liftP_Inr_iff [simp]: "liftP m = Inr a \<longleftrightarrow> m = Inr a"
  by (cases m) simp_all

definition checkedCount :: "int \<Rightarrow> profiler_error + int" where
  "checkedCount value = (if value < 0 \<or> value > MAX_SAFE_INTEGER then Inl ProfilerArithmetic else Inr value)"

definition ceilCount :: "int \<Rightarrow> int \<Rightarrow> profiler_error + int" where
  "ceilCount numerator denominator =
     (if numerator < 0 \<or> denominator \<le> 0 then Inl ProfilerArithmetic else Inr ((numerator + denominator - 1) div denominator))"

section \<open>Data\<close>

definition TOKEN_ESTIMATOR_CONTRACT_VERSION :: int where "TOKEN_ESTIMATOR_CONTRACT_VERSION = 1"
definition TOKEN_ESTIMATE_SCHEMA_VERSION :: int where "TOKEN_ESTIMATE_SCHEMA_VERSION = 1"

datatype accuracy_class = ExactAccuracy | ProvenUpperBound | HeuristicAccuracy

fun accuracyText :: "accuracy_class \<Rightarrow> string" where
  "accuracyText ExactAccuracy = ''exact''"
| "accuracyText ProvenUpperBound = ''proven-upper-bound''"
| "accuracyText HeuristicAccuracy = ''heuristic''"

definition ESTIMATOR_ACCURACY_CLASSES :: "accuracy_class list" where
  "ESTIMATOR_ACCURACY_CLASSES = [ExactAccuracy, ProvenUpperBound, HeuristicAccuracy]"

datatype evidence_kind = TokenizerAndCompleteFraming | DeclaredConservativeBound | HeuristicRatio

fun evidenceKindText :: "evidence_kind \<Rightarrow> string" where
  "evidenceKindText TokenizerAndCompleteFraming = ''tokenizer-and-complete-framing''"
| "evidenceKindText DeclaredConservativeBound = ''declared-conservative-bound''"
| "evidenceKindText HeuristicRatio = ''heuristic-ratio''"

definition TOKENIZER_EVIDENCE_KINDS :: "evidence_kind list" where
  "TOKENIZER_EVIDENCE_KINDS = [TokenizerAndCompleteFraming, DeclaredConservativeBound, HeuristicRatio]"

record estimator_applicability =
  ea_providerId :: string
  ea_transportProfileId :: string
  ea_contractModelId :: string
  ea_catalogModelFingerprint :: string

record estimator_evidence =
  ev_kind :: evidence_kind
  ev_referenceFingerprint :: string
  ev_specificationVersion :: string
  ev_framingComplete :: bool

record raw_count =
  cn_messageTokens :: int
  cn_schemaTokens :: int
  cn_toolTokens :: int
  cn_imageTokens :: int
  cn_artifactTokens :: int
  cn_fixedOverheadTokens :: int

record estimate_breakdown =
  bk_messages :: int
  bk_schema :: int
  bk_tools :: int
  bk_images :: int
  bk_artifacts :: int
  bk_fixedFraming :: int
  bk_safetyMargin :: int

record token_estimate =
  te_estimatorId :: string
  te_estimatorFingerprint :: string
  te_providerId :: string
  te_transportProfileId :: string
  te_contractModelId :: string
  te_catalogModelFingerprint :: string
  te_promptFingerprint :: string
  te_accuracy :: accuracy_class
  te_evidence :: estimator_evidence
  te_inputTokens :: int
  te_cachedInputTokens :: "int option"
  te_outputAllowanceTokens :: int
  te_reasoningAllowanceTokens :: int
  te_totalTokens :: int
  te_contextContributionTokens :: int
  te_canProveContextFit :: bool
  te_breakdown :: estimate_breakdown
  te_fingerprint :: string

definition evidenceJson :: "estimator_evidence \<Rightarrow> json" where
  "evidenceJson e = JsonObj [(''kind'', JsonStr (evidenceKindText (ev_kind e))), (''referenceFingerprint'', JsonStr (ev_referenceFingerprint e)),
     (''specificationVersion'', JsonStr (ev_specificationVersion e)), (''framingComplete'', JsonBool (ev_framingComplete e))]"

definition applicabilityJson :: "estimator_applicability \<Rightarrow> json" where
  "applicabilityJson a = JsonObj [(''providerId'', JsonStr (ea_providerId a)), (''transportProfileId'', JsonStr (ea_transportProfileId a)),
     (''contractModelId'', JsonStr (ea_contractModelId a)), (''catalogModelFingerprint'', JsonStr (ea_catalogModelFingerprint a))]"

definition countJson :: "int \<Rightarrow> json" where "countJson i = JsonNum (NInt i)"

definition breakdownJson :: "estimate_breakdown \<Rightarrow> json" where
  "breakdownJson b = JsonObj [(''messages'', countJson (bk_messages b)), (''schema'', countJson (bk_schema b)), (''tools'', countJson (bk_tools b)),
     (''images'', countJson (bk_images b)), (''artifacts'', countJson (bk_artifacts b)), (''fixedFraming'', countJson (bk_fixedFraming b)),
     (''safetyMargin'', countJson (bk_safetyMargin b))]"

definition unsignedEstimateFields :: "token_estimate \<Rightarrow> (string \<times> json) list" where
  "unsignedEstimateFields t =
     [(''schemaVersion'', countJson TOKEN_ESTIMATE_SCHEMA_VERSION), (''contractVersion'', countJson TOKEN_ESTIMATOR_CONTRACT_VERSION),
      (''estimatorId'', JsonStr (te_estimatorId t)), (''estimatorFingerprint'', JsonStr (te_estimatorFingerprint t)),
      (''providerId'', JsonStr (te_providerId t)), (''transportProfileId'', JsonStr (te_transportProfileId t)),
      (''contractModelId'', JsonStr (te_contractModelId t)), (''catalogModelFingerprint'', JsonStr (te_catalogModelFingerprint t)),
      (''promptFingerprint'', JsonStr (te_promptFingerprint t)), (''accuracy'', JsonStr (accuracyText (te_accuracy t))),
      (''evidence'', evidenceJson (te_evidence t)), (''inputTokens'', countJson (te_inputTokens t)),
      (''cachedInputTokens'', case te_cachedInputTokens t of None \<Rightarrow> JsonNull | Some n \<Rightarrow> countJson n),
      (''outputAllowanceTokens'', countJson (te_outputAllowanceTokens t)), (''reasoningAllowanceTokens'', countJson (te_reasoningAllowanceTokens t)),
      (''totalTokens'', countJson (te_totalTokens t)), (''contextContributionTokens'', countJson (te_contextContributionTokens t)),
      (''canProveContextFit'', JsonBool (te_canProveContextFit t)), (''breakdown'', breakdownJson (te_breakdown t))]"

definition tokenEstimateVal :: "token_estimate \<Rightarrow> jsval" where
  "tokenEstimateVal t = jsonVal (JsonObj (unsignedEstimateFields t @ [(''fingerprint'', JsonStr (te_fingerprint t))]))"

definition tokenEstimateFingerprint :: "codec \<Rightarrow> token_estimate \<Rightarrow> domain_error + string" where
  "tokenEstimateFingerprint cd t = digest cd (jsonVal (JsonObj (unsignedEstimateFields t)))"

section \<open>Parsers\<close>

definition safeCount :: "jsval \<Rightarrow> domain_error + int" where
  "safeCount value = ensureSafeInteger value 0 MAX_SAFE_INTEGER"

definition hexField :: "jsval \<Rightarrow> domain_error + string" where
  "hexField value = ensureString value 64 64 HEX_64"

definition parseApplicability :: "jsval \<Rightarrow> domain_error + estimator_applicability" where
  "parseApplicability value =
     bindE (ensureRecord value) (\<lambda>r.
     bindE (ensureExactKeys r [''providerId'', ''transportProfileId'', ''contractModelId'', ''catalogModelFingerprint'']) (\<lambda>_.
     bindE (ensureString (fld r ''providerId'') 1 128 SAFE_ID) (\<lambda>providerId.
     bindE (ensureString (fld r ''transportProfileId'') 1 128 SAFE_ID) (\<lambda>transportProfileId.
     bindE (ensureString (fld r ''contractModelId'') 1 128 SAFE_ID) (\<lambda>contractModelId.
     bindE (hexField (fld r ''catalogModelFingerprint'')) (\<lambda>catalogModelFingerprint.
     Inr \<lparr>ea_providerId = providerId, ea_transportProfileId = transportProfileId, ea_contractModelId = contractModelId,
          ea_catalogModelFingerprint = catalogModelFingerprint\<rparr>))))))"

definition parseEvidence :: "jsval \<Rightarrow> domain_error + estimator_evidence" where
  "parseEvidence value =
     bindE (ensureRecord value) (\<lambda>r.
     bindE (ensureExactKeys r [''kind'', ''referenceFingerprint'', ''specificationVersion'', ''framingComplete'']) (\<lambda>_.
     bindE (ensureEnum (fld r ''kind'') evidenceKindText TOKENIZER_EVIDENCE_KINDS) (\<lambda>kind.
     bindE (hexField (fld r ''referenceFingerprint'')) (\<lambda>referenceFingerprint.
     bindE (ensureString (fld r ''specificationVersion'') 1 64 SAFE_ID) (\<lambda>specificationVersion.
     bindE (ensureBoolean (fld r ''framingComplete'')) (\<lambda>framingComplete.
     Inr \<lparr>ev_kind = kind, ev_referenceFingerprint = referenceFingerprint, ev_specificationVersion = specificationVersion,
          ev_framingComplete = framingComplete\<rparr>))))))"

definition parseRawCount :: "jsval \<Rightarrow> domain_error + raw_count" where
  "parseRawCount value =
     bindE (ensureRecord value) (\<lambda>r.
     bindE (ensureExactKeys r [''messageTokens'', ''schemaTokens'', ''toolTokens'', ''imageTokens'', ''artifactTokens'', ''fixedOverheadTokens'']) (\<lambda>_.
     bindE (safeCount (fld r ''messageTokens'')) (\<lambda>message.
     bindE (safeCount (fld r ''schemaTokens'')) (\<lambda>schema.
     bindE (safeCount (fld r ''toolTokens'')) (\<lambda>tool.
     bindE (safeCount (fld r ''imageTokens'')) (\<lambda>image.
     bindE (safeCount (fld r ''artifactTokens'')) (\<lambda>artifact.
     bindE (safeCount (fld r ''fixedOverheadTokens'')) (\<lambda>overhead.
     Inr \<lparr>cn_messageTokens = message, cn_schemaTokens = schema, cn_toolTokens = tool, cn_imageTokens = image,
          cn_artifactTokens = artifact, cn_fixedOverheadTokens = overhead\<rparr>))))))))"

definition parseBreakdown :: "jsval \<Rightarrow> domain_error + estimate_breakdown" where
  "parseBreakdown value =
     bindE (ensureRecord value) (\<lambda>r.
     bindE (ensureExactKeys r [''messages'', ''schema'', ''tools'', ''images'', ''artifacts'', ''fixedFraming'', ''safetyMargin'']) (\<lambda>_.
     bindE (safeCount (fld r ''messages'')) (\<lambda>messages.
     bindE (safeCount (fld r ''schema'')) (\<lambda>schema.
     bindE (safeCount (fld r ''tools'')) (\<lambda>tools.
     bindE (safeCount (fld r ''images'')) (\<lambda>images.
     bindE (safeCount (fld r ''artifacts'')) (\<lambda>artifacts.
     bindE (safeCount (fld r ''fixedFraming'')) (\<lambda>fixedFraming.
     bindE (safeCount (fld r ''safetyMargin'')) (\<lambda>safetyMargin.
     Inr \<lparr>bk_messages = messages, bk_schema = schema, bk_tools = tools, bk_images = images, bk_artifacts = artifacts,
          bk_fixedFraming = fixedFraming, bk_safetyMargin = safetyMargin\<rparr>)))))))))"

definition breakdownTotal :: "estimate_breakdown \<Rightarrow> int" where
  "breakdownTotal b = bk_messages b + bk_schema b + bk_tools b + bk_images b + bk_artifacts b + bk_fixedFraming b + bk_safetyMargin b"

definition ESTIMATE_KEYS :: "string list" where
  "ESTIMATE_KEYS = [''schemaVersion'', ''contractVersion'', ''estimatorId'', ''estimatorFingerprint'', ''providerId'', ''transportProfileId'',
     ''contractModelId'', ''catalogModelFingerprint'', ''promptFingerprint'', ''accuracy'', ''evidence'', ''inputTokens'', ''cachedInputTokens'',
     ''outputAllowanceTokens'', ''reasoningAllowanceTokens'', ''totalTokens'', ''contextContributionTokens'', ''canProveContextFit'', ''breakdown'',
     ''fingerprint'']"

text \<open>The sums of doubles: a sum of counts that is exact nowhere below \<open>2 ^ 53\<close> is not a safe integer in either arithmetic.\<close>

definition checkAccounting :: "token_estimate \<Rightarrow> domain_error + unit" where
  "checkAccounting t =
     (let calculatedInput = breakdownTotal (te_breakdown t);
          calculatedTotal = te_inputTokens t + te_outputAllowanceTokens t + te_reasoningAllowanceTokens t in
      if calculatedInput > MAX_SAFE_INTEGER \<or> calculatedInput \<noteq> te_inputTokens t then fail ''accounting_mismatch''
      else if calculatedTotal > MAX_SAFE_INTEGER \<or> calculatedTotal \<noteq> te_totalTokens t then fail ''accounting_mismatch''
      else if te_contextContributionTokens t \<noteq> calculatedTotal then fail ''accounting_mismatch''
      else if (case te_cachedInputTokens t of None \<Rightarrow> False | Some cached \<Rightarrow> cached > te_inputTokens t) then fail ''cached_exceeds_input''
      else if te_canProveContextFit t \<noteq> (te_accuracy t \<noteq> HeuristicAccuracy) then fail ''accuracy_mismatch''
      else Inr ())"

definition parseTokenEstimate :: "codec \<Rightarrow> jsval \<Rightarrow> domain_error + token_estimate" where
  "parseTokenEstimate cd value =
     bindE (ensureRecord value) (\<lambda>r.
     bindE (ensureExactKeys r ESTIMATE_KEYS) (\<lambda>_.
     bindE (ensureSchemaVersion (fld r ''schemaVersion'') TOKEN_ESTIMATE_SCHEMA_VERSION) (\<lambda>_.
     bindE (ensureSchemaVersion (fld r ''contractVersion'') TOKEN_ESTIMATOR_CONTRACT_VERSION) (\<lambda>_.
     bindE (ensureString (fld r ''estimatorId'') 1 64 SAFE_KIND) (\<lambda>estimatorId.
     bindE (hexField (fld r ''estimatorFingerprint'')) (\<lambda>estimatorFingerprint.
     bindE (ensureString (fld r ''providerId'') 1 128 SAFE_ID) (\<lambda>providerId.
     bindE (ensureString (fld r ''transportProfileId'') 1 128 SAFE_ID) (\<lambda>transportProfileId.
     bindE (ensureString (fld r ''contractModelId'') 1 128 SAFE_ID) (\<lambda>contractModelId.
     bindE (hexField (fld r ''catalogModelFingerprint'')) (\<lambda>catalogModelFingerprint.
     bindE (hexField (fld r ''promptFingerprint'')) (\<lambda>promptFingerprint.
     bindE (ensureEnum (fld r ''accuracy'') accuracyText ESTIMATOR_ACCURACY_CLASSES) (\<lambda>accuracy.
     bindE (parseEvidence (fld r ''evidence'')) (\<lambda>evidence.
     bindE (safeCount (fld r ''inputTokens'')) (\<lambda>input.
     bindE (ensureNullable (fld r ''cachedInputTokens'') safeCount) (\<lambda>cached.
     bindE (safeCount (fld r ''outputAllowanceTokens'')) (\<lambda>output.
     bindE (safeCount (fld r ''reasoningAllowanceTokens'')) (\<lambda>reasoning.
     bindE (safeCount (fld r ''totalTokens'')) (\<lambda>total.
     bindE (safeCount (fld r ''contextContributionTokens'')) (\<lambda>contribution.
     bindE (ensureBoolean (fld r ''canProveContextFit'')) (\<lambda>fit.
     bindE (parseBreakdown (fld r ''breakdown'')) (\<lambda>breakdown.
     let unsigned = \<lparr>te_estimatorId = estimatorId, te_estimatorFingerprint = estimatorFingerprint, te_providerId = providerId,
           te_transportProfileId = transportProfileId, te_contractModelId = contractModelId,
           te_catalogModelFingerprint = catalogModelFingerprint, te_promptFingerprint = promptFingerprint, te_accuracy = accuracy,
           te_evidence = evidence, te_inputTokens = input, te_cachedInputTokens = cached, te_outputAllowanceTokens = output,
           te_reasoningAllowanceTokens = reasoning, te_totalTokens = total, te_contextContributionTokens = contribution,
           te_canProveContextFit = fit, te_breakdown = breakdown, te_fingerprint = []\<rparr> in
     bindE (checkAccounting unsigned) (\<lambda>_.
     bindE (checkFingerprint cd (jsonVal (JsonObj (unsignedEstimateFields unsigned))) (fld r ''fingerprint'')) (\<lambda>fingerprint.
     Inr (unsigned\<lparr>te_fingerprint := fingerprint\<rparr>))))))))))))))))))))))))"

section \<open>Descriptors\<close>

record estimator_descriptor =
  ed_estimatorId :: string
  ed_algorithmVersion :: int
  ed_applicability :: estimator_applicability
  ed_accuracy :: accuracy_class
  ed_evidence :: estimator_evidence
  ed_maximumInputBytes :: int
  ed_safetyMarginBps :: int
  ed_fingerprint :: string

definition unsignedDescriptorFields :: "estimator_descriptor \<Rightarrow> (string \<times> json) list" where
  "unsignedDescriptorFields d =
     [(''schemaVersion'', countJson TOKEN_ESTIMATOR_CONTRACT_VERSION), (''estimatorId'', JsonStr (ed_estimatorId d)),
      (''algorithmVersion'', countJson (ed_algorithmVersion d)), (''applicability'', applicabilityJson (ed_applicability d)),
      (''accuracy'', JsonStr (accuracyText (ed_accuracy d))), (''evidence'', evidenceJson (ed_evidence d)),
      (''maximumInputBytes'', countJson (ed_maximumInputBytes d)), (''safetyMarginBps'', countJson (ed_safetyMarginBps d))]"

definition checkEvidence :: "accuracy_class \<Rightarrow> estimator_evidence \<Rightarrow> domain_error + unit" where
  "checkEvidence accuracy evidence =
     (if accuracy = ExactAccuracy \<and> (ev_kind evidence \<noteq> TokenizerAndCompleteFraming \<or> \<not> ev_framingComplete evidence) then fail ''unproven_exactness''
      else if accuracy = ProvenUpperBound \<and> ev_kind evidence = HeuristicRatio then fail ''unproven_bound''
      else Inr ())"

text \<open>\<open>hasCount\<close>: the value of the field \<open>port\<close> is an object with a function \<open>count\<close>.\<close>

definition validateTokenEstimator :: "codec \<Rightarrow> (jsval \<Rightarrow> bool) \<Rightarrow> jsval \<Rightarrow> domain_error + estimator_descriptor" where
  "validateTokenEstimator cd hasCount value =
     bindE (ensureRecord value) (\<lambda>r.
     bindE (ensureExactKeys r [''schemaVersion'', ''estimatorId'', ''algorithmVersion'', ''applicability'', ''accuracy'', ''evidence'',
       ''maximumInputBytes'', ''safetyMarginBps'', ''fingerprint'', ''port'']) (\<lambda>_.
     bindE (ensureSchemaVersion (fld r ''schemaVersion'') TOKEN_ESTIMATOR_CONTRACT_VERSION) (\<lambda>_.
     bindE (ensureEnum (fld r ''accuracy'') accuracyText ESTIMATOR_ACCURACY_CLASSES) (\<lambda>accuracy.
     bindE (parseEvidence (fld r ''evidence'')) (\<lambda>evidence.
     bindE (checkEvidence accuracy evidence) (\<lambda>_.
     bindE (requireE (hasCount (fld r ''port'')) (Validation ''invalid_port'')) (\<lambda>_.
     bindE (ensureString (fld r ''estimatorId'') 1 64 SAFE_KIND) (\<lambda>estimatorId.
     bindE (ensureSafeInteger (fld r ''algorithmVersion'') 1 1000000) (\<lambda>algorithmVersion.
     bindE (parseApplicability (fld r ''applicability'')) (\<lambda>applicability.
     bindE (ensureSafeInteger (fld r ''maximumInputBytes'') 1 1000000000000) (\<lambda>maximumInputBytes.
     bindE (ensureSafeInteger (fld r ''safetyMarginBps'') 0 100000) (\<lambda>safetyMarginBps.
     let unsigned = \<lparr>ed_estimatorId = estimatorId, ed_algorithmVersion = algorithmVersion, ed_applicability = applicability,
           ed_accuracy = accuracy, ed_evidence = evidence, ed_maximumInputBytes = maximumInputBytes,
           ed_safetyMarginBps = safetyMarginBps, ed_fingerprint = []\<rparr> in
     bindE (checkFingerprint cd (jsonVal (JsonObj (unsignedDescriptorFields unsigned))) (fld r ''fingerprint'')) (\<lambda>fingerprint.
     Inr (unsigned\<lparr>ed_fingerprint := fingerprint\<rparr>))))))))))))))"

section \<open>Estimates\<close>

record compiled_prompt =
  cp_promptBytes :: int
  cp_schemaBytes :: int
  cp_fingerprint :: string

record estimation_request =
  eq_compiledPrompt :: compiled_prompt
  eq_toolDefinitionBytes :: int
  eq_imageMetadataBytes :: int
  eq_artifactMetadataBytes :: int
  eq_cachedInputTokens :: "int option"
  eq_outputAllowanceTokens :: int
  eq_reasoningAllowanceTokens :: int

text \<open>The fields after \<open>compiledPrompt\<close>.\<close>

definition parseEstimationRequest :: "compiled_prompt \<Rightarrow> jsrecord \<Rightarrow> domain_error + estimation_request" where
  "parseEstimationRequest compiledPrompt r =
     bindE (safeCount (fld r ''toolDefinitionBytes'')) (\<lambda>tool.
     bindE (safeCount (fld r ''imageMetadataBytes'')) (\<lambda>image.
     bindE (safeCount (fld r ''artifactMetadataBytes'')) (\<lambda>artifact.
     bindE (ensureNullable (fld r ''cachedInputTokens'') safeCount) (\<lambda>cached.
     bindE (safeCount (fld r ''outputAllowanceTokens'')) (\<lambda>output.
     bindE (safeCount (fld r ''reasoningAllowanceTokens'')) (\<lambda>reasoning.
     Inr \<lparr>eq_compiledPrompt = compiledPrompt, eq_toolDefinitionBytes = tool, eq_imageMetadataBytes = image,
          eq_artifactMetadataBytes = artifact, eq_cachedInputTokens = cached, eq_outputAllowanceTokens = output,
          eq_reasoningAllowanceTokens = reasoning\<rparr>))))))"

definition rawTotal :: "raw_count \<Rightarrow> int" where
  "rawTotal c = cn_messageTokens c + cn_schemaTokens c + cn_toolTokens c + cn_imageTokens c + cn_artifactTokens c + cn_fixedOverheadTokens c"

definition estimateWithDescriptor :: "codec \<Rightarrow> estimator_descriptor \<Rightarrow> (estimation_request \<Rightarrow> jsval option) \<Rightarrow> compiled_prompt \<Rightarrow> jsrecord \<Rightarrow>
    profiler_error + token_estimate" where
  "estimateWithDescriptor cd descriptor port compiledPrompt value =
     bindE (liftP (parseEstimationRequest compiledPrompt value)) (\<lambda>request.
     let byteTotal = cp_promptBytes compiledPrompt + eq_toolDefinitionBytes request + eq_imageMetadataBytes request +
           eq_artifactMetadataBytes request in
     if byteTotal > MAX_SAFE_INTEGER \<or> byteTotal > ed_maximumInputBytes descriptor then Inl (ProfilerDomain (Validation ''input_bound_exceeded''))
     else case port request of
       None \<Rightarrow> Inl (ProfilerDomain (Validation ''estimator_failed''))
     | Some raw \<Rightarrow>
     bindE (liftP (parseRawCount raw)) (\<lambda>c.
     let base = rawTotal c in
     bindE (bindE (ceilCount (base * ed_safetyMarginBps descriptor) 10000) checkedCount) (\<lambda>safetyMargin.
     bindE (checkedCount (base + safetyMargin)) (\<lambda>inputTokens.
     if (case eq_cachedInputTokens request of None \<Rightarrow> False | Some cached \<Rightarrow> cached > inputTokens) then
       Inl (ProfilerDomain (Validation ''cached_exceeds_input''))
     else
     bindE (checkedCount (inputTokens + eq_outputAllowanceTokens request + eq_reasoningAllowanceTokens request)) (\<lambda>totalTokens.
     let a = ed_applicability descriptor;
         unsigned = \<lparr>te_estimatorId = ed_estimatorId descriptor, te_estimatorFingerprint = ed_fingerprint descriptor,
           te_providerId = ea_providerId a, te_transportProfileId = ea_transportProfileId a, te_contractModelId = ea_contractModelId a,
           te_catalogModelFingerprint = ea_catalogModelFingerprint a, te_promptFingerprint = cp_fingerprint compiledPrompt,
           te_accuracy = ed_accuracy descriptor, te_evidence = ed_evidence descriptor, te_inputTokens = inputTokens,
           te_cachedInputTokens = eq_cachedInputTokens request, te_outputAllowanceTokens = eq_outputAllowanceTokens request,
           te_reasoningAllowanceTokens = eq_reasoningAllowanceTokens request, te_totalTokens = totalTokens,
           te_contextContributionTokens = totalTokens, te_canProveContextFit = (ed_accuracy descriptor \<noteq> HeuristicAccuracy),
           te_breakdown = \<lparr>bk_messages = cn_messageTokens c, bk_schema = cn_schemaTokens c, bk_tools = cn_toolTokens c,
             bk_images = cn_imageTokens c, bk_artifacts = cn_artifactTokens c, bk_fixedFraming = cn_fixedOverheadTokens c,
             bk_safetyMargin = safetyMargin\<rparr>, te_fingerprint = []\<rparr> in
     liftP (bindE (tokenEstimateFingerprint cd unsigned) (\<lambda>fingerprint.
       parseTokenEstimate cd (tokenEstimateVal (unsigned\<lparr>te_fingerprint := fingerprint\<rparr>)))))))))"

text \<open>The count of \<open>createConservativeTokenEstimator\<close>: bytes times the ratio, rounded up; it throws on an overflow.\<close>

definition countBytes :: "int \<Rightarrow> int \<Rightarrow> int \<Rightarrow> profiler_error + int" where
  "countBytes numerator denominator bytes = bindE (ceilCount (bytes * numerator) denominator) checkedCount"

definition conservativeCount :: "int \<Rightarrow> int \<Rightarrow> int \<Rightarrow> estimation_request \<Rightarrow> profiler_error + raw_count" where
  "conservativeCount numerator denominator fixed request =
     (let p = eq_compiledPrompt request; tokens = countBytes numerator denominator in
      bindE (tokens (cp_promptBytes p - cp_schemaBytes p)) (\<lambda>message.
      bindE (tokens (cp_schemaBytes p)) (\<lambda>schema.
      bindE (tokens (eq_toolDefinitionBytes request)) (\<lambda>tool.
      bindE (tokens (eq_imageMetadataBytes request)) (\<lambda>image.
      bindE (tokens (eq_artifactMetadataBytes request)) (\<lambda>artifact.
      Inr \<lparr>cn_messageTokens = message, cn_schemaTokens = schema, cn_toolTokens = tool, cn_imageTokens = image,
           cn_artifactTokens = artifact, cn_fixedOverheadTokens = fixed\<rparr>))))))"

end
