(* ===== verification/Router_Budget.thy ===== *)
theory Router_Budget
  imports Router_Config Profiler_Estimator Account_Storage
begin

text \<open>
  \<open>packages/router/src/budget.ts\<close>: cost estimates of a route, the plan of a budget reservation and the plan of its
  reconciliation. Plans are computed on the account model of \<open>Budget_Account\<close>; nothing here changes an account.
\<close>

section \<open>Cost estimates\<close>

datatype routing_cost = KnownCost string int | UnknownCost

record routing_cost_estimate =
  ce_cost :: routing_cost
  ce_evidenceFingerprint :: string
  ce_fingerprint :: string

datatype cost_status = Known | Unknown

fun costStatusText :: "cost_status \<Rightarrow> string" where
  "costStatusText Known = ''known''"
| "costStatusText Unknown = ''unknown''"

definition ROUTING_COST_STATUSES :: "cost_status list" where
  "ROUTING_COST_STATUSES = [Known, Unknown]"

definition unsignedCostFields :: "routing_cost \<Rightarrow> string \<Rightarrow> (string \<times> json) list" where
  "unsignedCostFields cost evidence =
     (case cost of
        KnownCost currency amount \<Rightarrow> [(''status'', JsonStr ''known''), (''currency'', JsonStr currency), (''amountMicros'', number amount),
          (''evidenceFingerprint'', JsonStr evidence)]
      | UnknownCost \<Rightarrow> [(''status'', JsonStr ''unknown''), (''currency'', JsonNull), (''amountMicros'', JsonNull),
          (''evidenceFingerprint'', JsonStr evidence)])"

definition costEstimateVal :: "routing_cost_estimate \<Rightarrow> jsval" where
  "costEstimateVal e =
     jsonVal (JsonObj (unsignedCostFields (ce_cost e) (ce_evidenceFingerprint e) @ [(''fingerprint'', JsonStr (ce_fingerprint e))]))"

definition routingCostEstimateFingerprint :: "codec \<Rightarrow> routing_cost \<Rightarrow> string \<Rightarrow> domain_error + string" where
  "routingCostEstimateFingerprint cd cost evidence = digest cd (jsonVal (JsonObj (unsignedCostFields cost evidence)))"

definition parseRoutingCostEstimate :: "codec \<Rightarrow> jsval \<Rightarrow> domain_error + routing_cost_estimate" where
  "parseRoutingCostEstimate cd value =
     bindE (ensureRecord value) (\<lambda>r.
     bindE (ensureExactKeys r [''status'', ''currency'', ''amountMicros'', ''evidenceFingerprint'', ''fingerprint'']) (\<lambda>_.
     bindE (ensureEnum (fld r ''status'') costStatusText ROUTING_COST_STATUSES) (\<lambda>status.
     bindE (ensureNullable (fld r ''currency'') (\<lambda>raw. ensureString raw 3 3 CURRENCY_PATTERN)) (\<lambda>currency.
     bindE (ensureNullable (fld r ''amountMicros'') (\<lambda>raw. ensureSafeInteger raw 0 MAX_SAFE_INTEGER)) (\<lambda>amount.
     bindE (ensureString (fld r ''evidenceFingerprint'') 64 64 HEX_64) (\<lambda>evidence.
     bindE (case (status, currency, amount) of
         (Known, Some c, Some a) \<Rightarrow> Inr (KnownCost c a)
       | (Unknown, None, None) \<Rightarrow> Inr UnknownCost
       | _ \<Rightarrow> fail ''inconsistent_cost'') (\<lambda>cost.
     bindE (checkFingerprint cd (jsonVal (JsonObj (unsignedCostFields cost evidence))) (fld r ''fingerprint'')) (\<lambda>fingerprint.
     Inr \<lparr>ce_cost = cost, ce_evidenceFingerprint = evidence, ce_fingerprint = fingerprint\<rparr>))))))))"

text \<open>The fields of the argument are typed; the parser checks them all the same.\<close>

definition createRoutingCostEstimate :: "codec \<Rightarrow> routing_cost \<Rightarrow> string \<Rightarrow> domain_error + routing_cost_estimate" where
  "createRoutingCostEstimate cd cost evidence =
     bindE (routingCostEstimateFingerprint cd cost evidence) (\<lambda>fingerprint.
     parseRoutingCostEstimate cd (costEstimateVal \<lparr>ce_cost = cost, ce_evidenceFingerprint = evidence, ce_fingerprint = fingerprint\<rparr>))"

section \<open>Reservation plans\<close>

definition withMargin :: "int \<Rightarrow> int \<Rightarrow> router_error + int" where
  "withMargin value basisPoints =
     bindE (ceilRatio (value * basisPoints) 10000) (\<lambda>margin. checkedNumber (value + margin))"

datatype plan_code = FIT | BUDGET_EXCEEDED | COST_UNKNOWN | CURRENCY_MISMATCH

fun planCodeText :: "plan_code \<Rightarrow> string" where
  "planCodeText FIT = ''FIT''"
| "planCodeText BUDGET_EXCEEDED = ''BUDGET_EXCEEDED''"
| "planCodeText COST_UNKNOWN = ''COST_UNKNOWN''"
| "planCodeText CURRENCY_MISMATCH = ''CURRENCY_MISMATCH''"

record reservation_quote =
  rq_estimate :: usage_amounts
  rq_tokenEstimateFingerprint :: string
  rq_costEstimateFingerprint :: string
  rq_marginBps :: reservation_margins
  rq_fingerprint :: string

record reserve_command =
  rs_reservationId :: string
  rs_estimate :: usage_amounts
  rs_requestedAt :: string
  rs_expectedVersion :: int

record reservation_plan =
  rp_allowed :: bool
  rp_code :: plan_code
  rp_accountVersion :: int
  rp_accountFingerprint :: string
  rp_quote :: reservation_quote
  rp_decision :: "budget_decision option"
  rp_command :: "reserve_command option"
  rp_fingerprint :: string

definition unsignedQuoteFields :: "reservation_quote \<Rightarrow> jsrecord" where
  "unsignedQuoteFields q = [(''estimate'', usageVal (rq_estimate q)), (''tokenEstimateFingerprint'', JStr (rq_tokenEstimateFingerprint q)),
     (''costEstimateFingerprint'', JStr (rq_costEstimateFingerprint q)), (''marginBps'', jsonVal (marginsJson (rq_marginBps q)))]"

fun dimensionText :: "budget_dimension \<Rightarrow> string" where
  "dimensionText InputTokens = ''input-tokens''"
| "dimensionText OutputTokens = ''output-tokens''"
| "dimensionText TotalTokens = ''total-tokens''"
| "dimensionText MoneyDim = ''money''"
| "dimensionText DurationDim = ''duration''"

fun severityText :: "severity \<Rightarrow> string" where
  "severityText Hard = ''hard''"
| "severityText Soft = ''soft''"

definition breachVal :: "limit_breach \<Rightarrow> jsval" where
  "breachVal b = plainObj [(''dimension'', JStr (dimensionText (lb_dimension b))), (''severity'', JStr (severityText (lb_severity b))),
     (''limit'', jsInt (lb_limit b)), (''attempted'', jsInt (lb_attempted b)), (''currency'', jsNullable JStr (lb_currency b))]"

text \<open>Numbers and the sentences of a decision, as the templates print them.\<close>

fun natText :: "nat \<Rightarrow> string" where
  "natText n = (if n < 10 then [char_of (48 + n)] else natText (n div 10) @ [char_of (48 + n mod 10)])"

declare natText.simps [simp del]

definition intText :: "int \<Rightarrow> string" where
  "intText i = (if i < 0 then ''-'' @ natText (nat (- i)) else natText (nat i))"

definition breachReason :: "limit_breach \<Rightarrow> string" where
  "breachReason b = severityText (lb_severity b) @ '' '' @ dimensionText (lb_dimension b) @ '' limit '' @ intText (lb_limit b) @
     '' exceeded by attempted '' @ intText (lb_attempted b) @ ''.''"

definition decisionVal :: "budget_decision \<Rightarrow> jsval" where
  "decisionVal d = plainObj [(''allowed'', JBool (bd_allowed d)), (''breaches'', plainArr (map breachVal (bd_breaches d))),
     (''reasons'', plainArr (map (\<lambda>b. JStr (breachReason b)) (bd_breaches d)))]"

definition reserveCommandVal :: "reserve_command \<Rightarrow> jsval" where
  "reserveCommandVal c = plainObj [(''reservationId'', JStr (rs_reservationId c)), (''estimate'', usageVal (rs_estimate c)),
     (''requestedAt'', JStr (rs_requestedAt c)), (''expectedVersion'', jsInt (rs_expectedVersion c))]"

definition unsignedPlanVal :: "reservation_plan \<Rightarrow> jsval" where
  "unsignedPlanVal p = plainObj [(''allowed'', JBool (rp_allowed p)), (''code'', JStr (planCodeText (rp_code p))),
     (''accountVersion'', jsInt (rp_accountVersion p)), (''accountFingerprint'', JStr (rp_accountFingerprint p)),
     (''quote'', plainObj (unsignedQuoteFields (rp_quote p) @ [(''fingerprint'', JStr (rq_fingerprint (rp_quote p)))])),
     (''decision'', jsNullable decisionVal (rp_decision p)), (''command'', jsNullable reserveCommandVal (rp_command p)),
     (''authority'', JStr ''none''), (''durableMutationPerformed'', JBool False)]"

definition budgetReservationPlanFingerprint :: "codec \<Rightarrow> reservation_plan \<Rightarrow> domain_error + string" where
  "budgetReservationPlanFingerprint cd p = digest cd (unsignedPlanVal p)"

record plan_input =
  pi_account :: jsval
  pi_reservationId :: jsval
  pi_requestedAt :: jsval
  pi_tokenEstimate :: jsval
  pi_costEstimate :: jsval
  pi_expectedDurationMs :: jsval

text \<open>The amounts of the quote: every estimate with its margin.\<close>

definition quotedCost :: "reservation_margins \<Rightarrow> routing_cost \<Rightarrow> router_error + money option" where
  "quotedCost margins cost =
     (case cost of
        UnknownCost \<Rightarrow> Inr None
      | KnownCost currency amount \<Rightarrow>
          bindE (withMargin amount (rm_costSafetyMarginBps margins)) (\<lambda>micros.
          bindE (liftR (createMoney (JStr currency) (jsInt micros))) (\<lambda>m. Inr (Some m))))"

definition quotedEstimate :: "reservation_margins \<Rightarrow> token_estimate \<Rightarrow> routing_cost \<Rightarrow> int \<Rightarrow> router_error + usage_amounts" where
  "quotedEstimate margins tokens cost expectedDurationMs =
     bindE (quotedCost margins cost) (\<lambda>quoted.
     let tokenMargin = rm_tokenSafetyMarginBps margins in
     bindE (withMargin (te_inputTokens tokens) tokenMargin) (\<lambda>input.
     bindE (withMargin (te_outputAllowanceTokens tokens) tokenMargin) (\<lambda>output.
     bindE (case te_cachedInputTokens tokens of None \<Rightarrow> Inr 0 | Some cached \<Rightarrow> withMargin cached tokenMargin) (\<lambda>cached.
     bindE (withMargin (te_reasoningAllowanceTokens tokens) tokenMargin) (\<lambda>reasoning.
     bindE (withMargin expectedDurationMs (rm_durationSafetyMarginBps margins)) (\<lambda>duration.
     liftR (createUsageAmounts
       [(''inputTokens'', jsInt input), (''outputTokens'', jsInt output), (''cachedInputTokens'', jsInt cached),
        (''reasoningTokens'', jsInt reasoning)]
       (jsNullable moneyVal quoted) (jsInt duration))))))))"

text \<open>The two refusals before the budget is evaluated.\<close>

definition planRefusal :: "router_configuration \<Rightarrow> account \<Rightarrow> routing_cost \<Rightarrow> money option \<Rightarrow> plan_code option" where
  "planRefusal configuration account costEstimate quoted =
     (case ab_money (ac_budget account) of
        None \<Rightarrow> None
      | Some money \<Rightarrow>
          if costEstimate = UnknownCost \<and> he_requireKnownCostWhenBudgeted (rc_hardEvidence configuration) then Some COST_UNKNOWN
          else (case quoted of None \<Rightarrow> None
            | Some cost \<Rightarrow> if m_currency (mb_limit money) \<noteq> m_currency cost then Some CURRENCY_MISMATCH else None))"

definition planBudgetReservation :: "codec \<Rightarrow> router_configuration \<Rightarrow> plan_input \<Rightarrow> router_error + reservation_plan" where
  "planBudgetReservation cd configuration input =
     bindE (liftR (parseBudgetAccountState (pi_account input))) (\<lambda>account.
     bindE (liftR (parseTokenEstimate cd (pi_tokenEstimate input))) (\<lambda>tokenEstimate.
     bindE (liftR (parseRoutingCostEstimate cd (pi_costEstimate input))) (\<lambda>costEstimate.
     bindE (liftR (ensureString (pi_reservationId input) 1 128 SAFE_ID)) (\<lambda>reservationId.
     bindE (liftR (ensureTimestamp (pi_requestedAt input))) (\<lambda>requestedAt.
     bindE (liftR (ensureSafeInteger (pi_expectedDurationMs input) 0 10000000000000)) (\<lambda>expectedDurationMs.
     let margins = rc_reservation configuration in
     bindE (quotedEstimate margins tokenEstimate (ce_cost costEstimate) expectedDurationMs) (\<lambda>estimate.
     let quoteUnsigned = \<lparr>rq_estimate = estimate, rq_tokenEstimateFingerprint = te_fingerprint tokenEstimate,
           rq_costEstimateFingerprint = ce_fingerprint costEstimate, rq_marginBps = margins, rq_fingerprint = []\<rparr> in
     bindE (liftR (digest cd (plainObj (unsignedQuoteFields quoteUnsigned)))) (\<lambda>quoteFingerprint.
     bindE (liftR (digest cd (accountVal account))) (\<lambda>accountFingerprint.
     bindE (case planRefusal configuration account (ce_cost costEstimate) (ua_cost estimate) of
         Some code \<Rightarrow> Inr (code, None)
       | None \<Rightarrow> liftR (bindE (evaluateReservation account (usageVal estimate)) (\<lambda>decision.
           Inr (if bd_allowed decision then FIT else BUDGET_EXCEEDED, Some decision)))) (\<lambda>(code, decision).
     let unsigned = \<lparr>rp_allowed = (code = FIT), rp_code = code, rp_accountVersion = ac_version account,
           rp_accountFingerprint = accountFingerprint, rp_quote = quoteUnsigned\<lparr>rq_fingerprint := quoteFingerprint\<rparr>,
           rp_decision = decision,
           rp_command = (if code = FIT then Some \<lparr>rs_reservationId = reservationId, rs_estimate = estimate, rs_requestedAt = requestedAt,
             rs_expectedVersion = ac_version account\<rparr> else None), rp_fingerprint = []\<rparr> in
     bindE (liftR (budgetReservationPlanFingerprint cd unsigned)) (\<lambda>fingerprint.
     Inr (unsigned\<lparr>rp_fingerprint := fingerprint\<rparr>))))))))))))"

section \<open>Reconciliation plans\<close>

datatype reconciliation_action = CommitAction | ReleaseAction | CancelAction

fun reconciliationActionText :: "reconciliation_action \<Rightarrow> string" where
  "reconciliationActionText CommitAction = ''commit''"
| "reconciliationActionText ReleaseAction = ''release''"
| "reconciliationActionText CancelAction = ''cancel''"

datatype reconciliation_code = PLANNED | ACTUAL_COST_UNKNOWN | ACTUAL_CURRENCY_MISMATCH | INVALID_STATE

fun reconciliationCodeText :: "reconciliation_code \<Rightarrow> string" where
  "reconciliationCodeText PLANNED = ''PLANNED''"
| "reconciliationCodeText ACTUAL_COST_UNKNOWN = ''ACTUAL_COST_UNKNOWN''"
| "reconciliationCodeText ACTUAL_CURRENCY_MISMATCH = ''CURRENCY_MISMATCH''"
| "reconciliationCodeText INVALID_STATE = ''INVALID_STATE''"

record settle_command =
  sc_reservationId :: string
  sc_actual :: "usage_amounts option"
  sc_settledAt :: string
  sc_expectedVersion :: int

record reconciliation_plan =
  rn_planned :: bool
  rn_code :: reconciliation_code
  rn_action :: reconciliation_action
  rn_accountVersion :: int
  rn_accountFingerprint :: string
  rn_command :: "settle_command option"
  rn_previewVersion :: "int option"
  rn_previewFingerprint :: "string option"
  rn_fingerprint :: string

definition settleCommandVal :: "settle_command \<Rightarrow> jsval" where
  "settleCommandVal c = plainObj ((''reservationId'', JStr (sc_reservationId c)) #
     (case sc_actual c of None \<Rightarrow> [] | Some actual \<Rightarrow> [(''actual'', usageVal actual)]) @
     [(''settledAt'', JStr (sc_settledAt c)), (''expectedVersion'', jsInt (sc_expectedVersion c))])"

definition unsignedReconciliationVal :: "reconciliation_plan \<Rightarrow> jsval" where
  "unsignedReconciliationVal p = plainObj [(''planned'', JBool (rn_planned p)), (''code'', JStr (reconciliationCodeText (rn_code p))),
     (''action'', JStr (reconciliationActionText (rn_action p))), (''accountVersion'', jsInt (rn_accountVersion p)),
     (''accountFingerprint'', JStr (rn_accountFingerprint p)), (''command'', jsNullable settleCommandVal (rn_command p)),
     (''previewVersion'', jsNullable (\<lambda>v. jsInt v) (rn_previewVersion p)), (''previewFingerprint'', jsNullable JStr (rn_previewFingerprint p)),
     (''authority'', JStr ''none''), (''durableMutationPerformed'', JBool False)]"

definition budgetReconciliationPlanFingerprint :: "codec \<Rightarrow> reconciliation_plan \<Rightarrow> domain_error + string" where
  "budgetReconciliationPlanFingerprint cd p = digest cd (unsignedReconciliationVal p)"

text \<open>The command of an action and the account it leads to; \<open>None\<close> when the account refuses it.\<close>

definition previewSettlement :: "account \<Rightarrow> string \<Rightarrow> string \<Rightarrow> reconciliation_action \<Rightarrow> usage_amounts option \<Rightarrow> (settle_command \<times> account) option" where
  "previewSettlement account reservationId settledAt action actual =
     (let i = JStr reservationId; t = JStr settledAt; v = jsInt (ac_version account);
          command = \<lparr>sc_reservationId = reservationId, sc_actual = (if action = CommitAction then actual else None), sc_settledAt = settledAt,
            sc_expectedVersion = ac_version account\<rparr> in
      case (case action of
          CommitAction \<Rightarrow> commitReservation account i (jsNullable usageVal actual) t v
        | ReleaseAction \<Rightarrow> releaseReservation account i t v
        | CancelAction \<Rightarrow> cancelReservation account i t v) of
        Inl _ \<Rightarrow> None
      | Inr preview \<Rightarrow> Some (command, preview))"

text \<open>\<open>actual\<close> is \<open>None\<close> when the argument is \<open>null\<close>.\<close>

definition reconciliationCode :: "account \<Rightarrow> reconciliation_action \<Rightarrow> usage_amounts option \<Rightarrow> reconciliation_code option" where
  "reconciliationCode account action actual =
     (if action \<noteq> CommitAction then None
      else case actual of
        None \<Rightarrow> Some ACTUAL_COST_UNKNOWN
      | Some usage \<Rightarrow> (case ab_money (ac_budget account) of
          None \<Rightarrow> None
        | Some money \<Rightarrow> (case ua_cost usage of
            None \<Rightarrow> Some ACTUAL_COST_UNKNOWN
          | Some cost \<Rightarrow> if m_currency cost \<noteq> m_currency (mb_limit money) then Some ACTUAL_CURRENCY_MISMATCH else None)))"

record reconcile_input =
  ri_account :: jsval
  ri_reservationId :: jsval
  ri_settledAt :: jsval
  ri_action :: jsval
  ri_actual :: jsval

definition reconcileBudgetReservation :: "codec \<Rightarrow> reconcile_input \<Rightarrow> domain_error + reconciliation_plan" where
  "reconcileBudgetReservation cd input =
     bindE (parseBudgetAccountState (ri_account input)) (\<lambda>account.
     bindE (ensureString (ri_reservationId input) 1 128 SAFE_ID) (\<lambda>reservationId.
     bindE (ensureTimestamp (ri_settledAt input)) (\<lambda>settledAt.
     bindE (ensureEnum (ri_action input) reconciliationActionText [CommitAction, ReleaseAction, CancelAction]) (\<lambda>action.
     bindE (if ri_actual input = JNull then Inr None else bindE (parseUsageAmounts (ri_actual input)) (\<lambda>u. Inr (Some u))) (\<lambda>actual.
     let (code, preview) = (case reconciliationCode account action actual of
           Some code \<Rightarrow> (code, None)
         | None \<Rightarrow> (case previewSettlement account reservationId settledAt action actual of
             None \<Rightarrow> (INVALID_STATE, None)
           | Some preview \<Rightarrow> (PLANNED, Some preview))) in
     bindE (digest cd (accountVal account)) (\<lambda>accountFingerprint.
     bindE (case preview of None \<Rightarrow> Inr None | Some (_, next) \<Rightarrow> bindE (digest cd (accountVal next)) (\<lambda>f. Inr (Some f))) (\<lambda>previewFingerprint.
     let unsigned = \<lparr>rn_planned = (code = PLANNED), rn_code = code, rn_action = action, rn_accountVersion = ac_version account,
           rn_accountFingerprint = accountFingerprint, rn_command = map_option fst preview,
           rn_previewVersion = map_option (\<lambda>(_, next). ac_version next) preview, rn_previewFingerprint = previewFingerprint,
           rn_fingerprint = []\<rparr> in
     bindE (budgetReconciliationPlanFingerprint cd unsigned) (\<lambda>fingerprint.
     Inr (unsigned\<lparr>rn_fingerprint := fingerprint\<rparr>)))))))))"

end
