(* ===== verification/Router_Candidate.thy ===== *)
theory Router_Candidate
  imports Policy_Types Router_Budget
begin

text \<open>
  \<open>packages/router/src/candidate.ts\<close>: the evidence about a candidate of a route - gateway, catalog, policy, health, quota,
  capacity, estimates, circuit and secure execution - with the parsers that check each piece against its fingerprint and the
  pieces against each other. The selection of catalog evidence from a provider catalog is not modelled.
\<close>

section \<open>Shared\<close>

definition ROUTING_CANDIDATE_SCHEMA_VERSION :: int where "ROUTING_CANDIDATE_SCHEMA_VERSION = 1"
definition ROUTING_EVIDENCE_SCHEMA_VERSION :: int where "ROUTING_EVIDENCE_SCHEMA_VERSION = 1"
definition PROVIDER_GATEWAY_SCHEMA_VERSION :: int where "PROVIDER_GATEWAY_SCHEMA_VERSION = 1"

datatype evidence_completeness = CompleteEvidence | PartialEvidence | UnknownEvidence

fun completenessText :: "evidence_completeness \<Rightarrow> string" where
  "completenessText CompleteEvidence = ''complete''"
| "completenessText PartialEvidence = ''partial''"
| "completenessText UnknownEvidence = ''unknown''"

definition EVIDENCE_COMPLETENESS :: "evidence_completeness list" where
  "EVIDENCE_COMPLETENESS = [CompleteEvidence, PartialEvidence, UnknownEvidence]"

definition fingerprintField :: "jsval \<Rightarrow> domain_error + string" where
  "fingerprintField value = ensureString value 64 64 HEX_64"

definition safeId :: "jsval \<Rightarrow> domain_error + string" where
  "safeId value = ensureString value 1 128 SAFE_ID"

text \<open>A fingerprinted value: its fields and the digest of them.\<close>

definition signedVal :: "(string \<times> json) list \<Rightarrow> string \<Rightarrow> jsval" where
  "signedVal parts fingerprint = jsonVal (JsonObj (parts @ [(''fingerprint'', JsonStr fingerprint)]))"

definition signAndParse :: "codec \<Rightarrow> (string \<times> json) list \<Rightarrow> (jsval \<Rightarrow> domain_error + 'a) \<Rightarrow> domain_error + 'a" where
  "signAndParse cd parts parse =
     bindE (digest cd (jsonVal (JsonObj parts))) (\<lambda>fingerprint. parse (signedVal parts fingerprint))"

section \<open>Gateway evidence\<close>

record catalog_reference =
  cr_catalogId :: string
  cr_catalogFingerprint :: string
  cr_providerId :: string
  cr_providerFingerprint :: string
  cr_modelId :: string
  cr_modelFingerprint :: string
  cr_adapterProfileId :: string
  cr_lastVerifiedAt :: string
  cr_refreshAfter :: string

datatype free_eligibility = AnyTier | VerifiedFreeOnlyTier

fun eligibilityText :: "free_eligibility \<Rightarrow> string" where
  "eligibilityText AnyTier = ''any''"
| "eligibilityText VerifiedFreeOnlyTier = ''verified-free-only''"

datatype user_preference = UserEnabled | UserDisabled

fun preferenceText :: "user_preference \<Rightarrow> string" where
  "preferenceText UserEnabled = ''enabled''"
| "preferenceText UserDisabled = ''disabled''"

definition GATEWAY_ADAPTER_PACKAGES :: "string list" where
  "GATEWAY_ADAPTER_PACKAGES = [''@ai-dev-os/provider-openai'', ''@ai-dev-os/provider-openai-compatible'', ''@ai-dev-os/provider-gemini'',
     ''@ai-dev-os/provider-ollama'', ''custom'']"

record gateway_adapter =
  ad_packageName :: string
  ad_profileId :: string
  ad_version :: string

record gateway_evidence =
  gw_snapshotFingerprint :: string
  gw_instanceId :: string
  gw_contractModelId :: string
  gw_catalog :: catalog_reference
  gw_descriptor :: provider_descriptor
  gw_model :: model_descriptor
  gw_eligibility :: free_eligibility
  gw_userPreference :: user_preference
  gw_adapter :: gateway_adapter
  gw_fingerprint :: string

definition catalogReferenceJson :: "catalog_reference \<Rightarrow> json" where
  "catalogReferenceJson c = JsonObj
     [(''catalogId'', JsonStr (cr_catalogId c)), (''catalogFingerprint'', JsonStr (cr_catalogFingerprint c)),
      (''providerId'', JsonStr (cr_providerId c)), (''providerFingerprint'', JsonStr (cr_providerFingerprint c)),
      (''modelId'', JsonStr (cr_modelId c)), (''modelFingerprint'', JsonStr (cr_modelFingerprint c)),
      (''adapterProfileId'', JsonStr (cr_adapterProfileId c)), (''lastVerifiedAt'', JsonStr (cr_lastVerifiedAt c)),
      (''refreshAfter'', JsonStr (cr_refreshAfter c))]"

definition adapterJson :: "gateway_adapter \<Rightarrow> json" where
  "adapterJson a = JsonObj [(''packageName'', JsonStr (ad_packageName a)), (''profileId'', JsonStr (ad_profileId a)), (''version'', JsonStr (ad_version a))]"

definition gatewayFields :: "gateway_evidence \<Rightarrow> (string \<times> json) list" where
  "gatewayFields g =
     [(''schemaVersion'', jsonInt ROUTING_EVIDENCE_SCHEMA_VERSION), (''gatewaySnapshotFingerprint'', JsonStr (gw_snapshotFingerprint g)),
      (''instanceId'', JsonStr (gw_instanceId g)), (''contractModelId'', JsonStr (gw_contractModelId g)),
      (''catalog'', catalogReferenceJson (gw_catalog g)), (''descriptor'', providerDescriptorJson (gw_descriptor g)),
      (''model'', modelDescriptorJson (gw_model g)), (''eligibility'', JsonStr (eligibilityText (gw_eligibility g))),
      (''userPreference'', JsonStr (preferenceText (gw_userPreference g))), (''adapter'', adapterJson (gw_adapter g))]"

definition gatewayCandidateEvidenceFingerprint :: "codec \<Rightarrow> gateway_evidence \<Rightarrow> domain_error + string" where
  "gatewayCandidateEvidenceFingerprint cd g = digest cd (jsonVal (JsonObj (gatewayFields g)))"

definition parseGatewayCatalogReference :: "jsval \<Rightarrow> domain_error + catalog_reference" where
  "parseGatewayCatalogReference value =
     bindE (ensureRecord value) (\<lambda>r.
     bindE (ensureExactKeys r [''catalogId'', ''catalogFingerprint'', ''providerId'', ''providerFingerprint'', ''modelId'', ''modelFingerprint'',
       ''adapterProfileId'', ''lastVerifiedAt'', ''refreshAfter'']) (\<lambda>_.
     bindE (safeId (fld r ''catalogId'')) (\<lambda>catalogId.
     bindE (fingerprintField (fld r ''catalogFingerprint'')) (\<lambda>catalogFingerprint.
     bindE (safeId (fld r ''providerId'')) (\<lambda>providerId.
     bindE (fingerprintField (fld r ''providerFingerprint'')) (\<lambda>providerFingerprint.
     bindE (safeId (fld r ''modelId'')) (\<lambda>modelId.
     bindE (fingerprintField (fld r ''modelFingerprint'')) (\<lambda>modelFingerprint.
     bindE (safeId (fld r ''adapterProfileId'')) (\<lambda>adapterProfileId.
     bindE (ensureTimestamp (fld r ''lastVerifiedAt'')) (\<lambda>lastVerifiedAt.
     bindE (ensureTimestamp (fld r ''refreshAfter'')) (\<lambda>refreshAfter.
     Inr \<lparr>cr_catalogId = catalogId, cr_catalogFingerprint = catalogFingerprint, cr_providerId = providerId,
          cr_providerFingerprint = providerFingerprint, cr_modelId = modelId, cr_modelFingerprint = modelFingerprint,
          cr_adapterProfileId = adapterProfileId, cr_lastVerifiedAt = lastVerifiedAt, cr_refreshAfter = refreshAfter\<rparr>)))))))))))"

definition parseAdapter :: "jsval \<Rightarrow> domain_error + gateway_adapter" where
  "parseAdapter value =
     bindE (ensureRecord value) (\<lambda>r.
     bindE (ensureExactKeys r [''packageName'', ''profileId'', ''version'']) (\<lambda>_.
     bindE (ensureEnum (fld r ''packageName'') id GATEWAY_ADAPTER_PACKAGES) (\<lambda>packageName.
     bindE (safeId (fld r ''profileId'')) (\<lambda>profileId.
     bindE (ensureString (fld r ''version'') 1 64 SAFE_ID) (\<lambda>version.
     Inr \<lparr>ad_packageName = packageName, ad_profileId = profileId, ad_version = version\<rparr>)))))"

definition gatewayIdentityMismatch :: "gateway_evidence \<Rightarrow> bool" where
  "gatewayIdentityMismatch g \<longleftrightarrow>
     gw_instanceId g \<noteq> pd_instanceId (gw_descriptor g) \<or> cr_providerId (gw_catalog g) \<noteq> pd_providerId (gw_descriptor g) \<or>
     gw_contractModelId g \<noteq> md_modelId (mo_model (gw_model g)) \<or> md_providerId (mo_model (gw_model g)) \<noteq> pd_providerId (gw_descriptor g) \<or>
     ad_profileId (gw_adapter g) \<noteq> cr_adapterProfileId (gw_catalog g)"

text \<open>The fields that gateway evidence and a gateway snapshot share.\<close>

definition parseGatewayParts :: "jsrecord \<Rightarrow> string \<Rightarrow> domain_error + gateway_evidence" where
  "parseGatewayParts r snapshotFingerprint =
     bindE (safeId (fld r ''instanceId'')) (\<lambda>instanceId.
     bindE (safeId (fld r ''contractModelId'')) (\<lambda>contractModelId.
     bindE (parseGatewayCatalogReference (fld r ''catalog'')) (\<lambda>catalog.
     bindE (parseProviderDescriptor (fld r ''descriptor'')) (\<lambda>descriptor.
     bindE (parseModelDescriptor (fld r ''model'')) (\<lambda>model.
     bindE (ensureEnum (fld r ''eligibility'') eligibilityText [AnyTier, VerifiedFreeOnlyTier]) (\<lambda>eligibility.
     bindE (ensureEnum (fld r ''userPreference'') preferenceText [UserEnabled, UserDisabled]) (\<lambda>preference.
     bindE (parseAdapter (fld r ''adapter'')) (\<lambda>adapter.
     Inr \<lparr>gw_snapshotFingerprint = snapshotFingerprint, gw_instanceId = instanceId, gw_contractModelId = contractModelId, gw_catalog = catalog,
          gw_descriptor = descriptor, gw_model = model, gw_eligibility = eligibility, gw_userPreference = preference,
          gw_adapter = adapter, gw_fingerprint = []\<rparr>))))))))"

definition parseGatewayCandidateEvidence :: "codec \<Rightarrow> jsval \<Rightarrow> domain_error + gateway_evidence" where
  "parseGatewayCandidateEvidence cd value =
     bindE (ensureRecord value) (\<lambda>r.
     bindE (ensureExactKeys r [''schemaVersion'', ''gatewaySnapshotFingerprint'', ''instanceId'', ''contractModelId'', ''catalog'', ''descriptor'',
       ''model'', ''eligibility'', ''userPreference'', ''adapter'', ''fingerprint'']) (\<lambda>_.
     bindE (ensureSchemaVersion (fld r ''schemaVersion'') ROUTING_EVIDENCE_SCHEMA_VERSION) (\<lambda>_.
     bindE (fingerprintField (fld r ''gatewaySnapshotFingerprint'')) (\<lambda>snapshotFingerprint.
     bindE (parseGatewayParts r snapshotFingerprint) (\<lambda>unsigned.
     if gatewayIdentityMismatch unsigned then fail ''gateway_identity_mismatch''
     else
     bindE (checkFingerprint cd (jsonVal (JsonObj (gatewayFields unsigned))) (fld r ''fingerprint'')) (\<lambda>fingerprint.
     Inr (unsigned\<lparr>gw_fingerprint := fingerprint\<rparr>)))))))"

text \<open>The snapshot also carries the fingerprint of a secret reference, which the evidence drops.\<close>

definition gatewayBaseFields :: "gateway_evidence \<Rightarrow> string \<Rightarrow> (string \<times> json) list" where
  "gatewayBaseFields g secretRefFingerprint =
     [(''schemaVersion'', jsonInt PROVIDER_GATEWAY_SCHEMA_VERSION), (''instanceId'', JsonStr (gw_instanceId g)),
      (''contractModelId'', JsonStr (gw_contractModelId g)), (''catalog'', catalogReferenceJson (gw_catalog g)),
      (''descriptor'', providerDescriptorJson (gw_descriptor g)), (''model'', modelDescriptorJson (gw_model g)),
      (''secretRefFingerprint'', JsonStr secretRefFingerprint), (''eligibility'', JsonStr (eligibilityText (gw_eligibility g))),
      (''userPreference'', JsonStr (preferenceText (gw_userPreference g))), (''adapter'', adapterJson (gw_adapter g))]"

definition createGatewayCandidateEvidence :: "codec \<Rightarrow> jsval \<Rightarrow> domain_error + gateway_evidence" where
  "createGatewayCandidateEvidence cd value =
     bindE (ensureRecord value) (\<lambda>r.
     bindE (ensureExactKeys r [''schemaVersion'', ''instanceId'', ''contractModelId'', ''catalog'', ''descriptor'', ''model'',
       ''secretRefFingerprint'', ''eligibility'', ''userPreference'', ''adapter'', ''fingerprint'']) (\<lambda>_.
     bindE (ensureSchemaVersion (fld r ''schemaVersion'') PROVIDER_GATEWAY_SCHEMA_VERSION) (\<lambda>_.
     bindE (fingerprintField (fld r ''secretRefFingerprint'')) (\<lambda>secretRefFingerprint.
     bindE (parseGatewayParts r []) (\<lambda>base.
     bindE (checkFingerprint cd (jsonVal (JsonObj (gatewayBaseFields base secretRefFingerprint))) (fld r ''fingerprint'')) (\<lambda>sourceFingerprint.
     signAndParse cd (gatewayFields (base\<lparr>gw_snapshotFingerprint := sourceFingerprint\<rparr>)) (parseGatewayCandidateEvidence cd)))))))"

section \<open>Catalog evidence\<close>

datatype catalog_entry_state = EntryEnabled | EntryDisabled | EntryDeprecated

fun entryStateText :: "catalog_entry_state \<Rightarrow> string" where
  "entryStateText EntryEnabled = ''enabled''"
| "entryStateText EntryDisabled = ''disabled''"
| "entryStateText EntryDeprecated = ''deprecated''"

definition CATALOG_ENTRY_STATES :: "catalog_entry_state list" where
  "CATALOG_ENTRY_STATES = [EntryEnabled, EntryDisabled, EntryDeprecated]"

datatype free_tier_state = FreeVerified | FreeUnknown | NotFree | FreeIneligible

fun freeTierText :: "free_tier_state \<Rightarrow> string" where
  "freeTierText FreeVerified = ''verified''"
| "freeTierText FreeUnknown = ''unknown''"
| "freeTierText NotFree = ''not-free''"
| "freeTierText FreeIneligible = ''ineligible''"

definition FREE_TIER_STATES :: "free_tier_state list" where
  "FREE_TIER_STATES = [FreeVerified, FreeUnknown, NotFree, FreeIneligible]"

definition CAPABILITY_IDS :: "string list" where
  "CAPABILITY_IDS = [''text-input'', ''text-output'', ''streaming'', ''tools'', ''structured-output'', ''image-input'', ''audio-input'',
     ''video-input'', ''pdf-input'', ''reasoning'']"

datatype capability_status = SupportedCapability | UnsupportedCapability | UnknownCapability

fun capabilityStatusText :: "capability_status \<Rightarrow> string" where
  "capabilityStatusText SupportedCapability = ''supported''"
| "capabilityStatusText UnsupportedCapability = ''unsupported''"
| "capabilityStatusText UnknownCapability = ''unknown''"

definition CAPABILITY_STATUSES :: "capability_status list" where
  "CAPABILITY_STATUSES = [SupportedCapability, UnsupportedCapability, UnknownCapability]"

record catalog_evidence =
  ct_catalogId :: string
  ct_catalogRevision :: int
  ct_catalogFingerprint :: string
  ct_generatedAt :: string
  ct_providerId :: string
  ct_providerFingerprint :: string
  ct_providerState :: catalog_entry_state
  ct_providerRefreshAfter :: string
  ct_modelId :: string
  ct_modelFingerprint :: string
  ct_modelState :: catalog_entry_state
  ct_modelRefreshAfter :: string
  ct_adapterProfileId :: string
  ct_freeTierState :: free_tier_state
  ct_contextTokens :: "int option"
  ct_maximumOutputTokens :: "int option"
  ct_capabilities :: "(string \<times> capability_status) list"
  ct_fingerprint :: string

definition catalogFields :: "catalog_evidence \<Rightarrow> (string \<times> json) list" where
  "catalogFields c =
     [(''schemaVersion'', jsonInt ROUTING_EVIDENCE_SCHEMA_VERSION), (''catalogId'', JsonStr (ct_catalogId c)),
      (''catalogRevision'', jsonInt (ct_catalogRevision c)), (''catalogFingerprint'', JsonStr (ct_catalogFingerprint c)),
      (''generatedAt'', JsonStr (ct_generatedAt c)), (''providerId'', JsonStr (ct_providerId c)),
      (''providerFingerprint'', JsonStr (ct_providerFingerprint c)), (''providerState'', JsonStr (entryStateText (ct_providerState c))),
      (''providerRefreshAfter'', JsonStr (ct_providerRefreshAfter c)), (''modelId'', JsonStr (ct_modelId c)),
      (''modelFingerprint'', JsonStr (ct_modelFingerprint c)), (''modelState'', JsonStr (entryStateText (ct_modelState c))),
      (''modelRefreshAfter'', JsonStr (ct_modelRefreshAfter c)), (''adapterProfileId'', JsonStr (ct_adapterProfileId c)),
      (''freeTierState'', JsonStr (freeTierText (ct_freeTierState c))), (''contextTokens'', jsonOptInt (ct_contextTokens c)),
      (''maximumOutputTokens'', jsonOptInt (ct_maximumOutputTokens c)),
      (''capabilities'', JsonArr (map (\<lambda>(i, s). JsonObj [(''id'', JsonStr i), (''status'', JsonStr (capabilityStatusText s))]) (ct_capabilities c)))]"

definition catalogCandidateEvidenceFingerprint :: "codec \<Rightarrow> catalog_evidence \<Rightarrow> domain_error + string" where
  "catalogCandidateEvidenceFingerprint cd c = digest cd (jsonVal (JsonObj (catalogFields c)))"

text \<open>Sorted by \<open>id\<close>; the sort of the code is stable, as the insertion is.\<close>

definition parseCatalogCapabilities :: "jsval \<Rightarrow> domain_error + (string \<times> capability_status) list" where
  "parseCatalogCapabilities value =
     bindE (ensureArray value (length CAPABILITY_IDS)) (\<lambda>raw.
     bindE (mapE (\<lambda>item.
       bindE (ensureRecord item) (\<lambda>r.
       bindE (ensureExactKeys r [''id'', ''status'']) (\<lambda>_.
       bindE (ensureEnum (fld r ''id'') id CAPABILITY_IDS) (\<lambda>i.
       bindE (ensureEnum (fld r ''status'') capabilityStatusText CAPABILITY_STATUSES) (\<lambda>status.
       Inr (i, status)))))) raw) (\<lambda>items.
     let sorted = sortKeys items in
     if distinct (map fst sorted) then Inr sorted else fail ''duplicate_capability''))"

definition parseCatalogCandidateEvidence :: "codec \<Rightarrow> jsval \<Rightarrow> domain_error + catalog_evidence" where
  "parseCatalogCandidateEvidence cd value =
     bindE (ensureRecord value) (\<lambda>r.
     bindE (ensureExactKeys r [''schemaVersion'', ''catalogId'', ''catalogRevision'', ''catalogFingerprint'', ''generatedAt'', ''providerId'',
       ''providerFingerprint'', ''providerState'', ''providerRefreshAfter'', ''modelId'', ''modelFingerprint'', ''modelState'',
       ''modelRefreshAfter'', ''adapterProfileId'', ''freeTierState'', ''contextTokens'', ''maximumOutputTokens'', ''capabilities'',
       ''fingerprint'']) (\<lambda>_.
     bindE (ensureSchemaVersion (fld r ''schemaVersion'') ROUTING_EVIDENCE_SCHEMA_VERSION) (\<lambda>_.
     bindE (safeId (fld r ''catalogId'')) (\<lambda>catalogId.
     bindE (ensureSafeInteger (fld r ''catalogRevision'') 1 MAX_SAFE_INTEGER) (\<lambda>revision.
     bindE (fingerprintField (fld r ''catalogFingerprint'')) (\<lambda>catalogFingerprint.
     bindE (ensureTimestamp (fld r ''generatedAt'')) (\<lambda>generatedAt.
     bindE (safeId (fld r ''providerId'')) (\<lambda>providerId.
     bindE (fingerprintField (fld r ''providerFingerprint'')) (\<lambda>providerFingerprint.
     bindE (ensureEnum (fld r ''providerState'') entryStateText CATALOG_ENTRY_STATES) (\<lambda>providerState.
     bindE (ensureTimestamp (fld r ''providerRefreshAfter'')) (\<lambda>providerRefreshAfter.
     bindE (safeId (fld r ''modelId'')) (\<lambda>modelId.
     bindE (fingerprintField (fld r ''modelFingerprint'')) (\<lambda>modelFingerprint.
     bindE (ensureEnum (fld r ''modelState'') entryStateText CATALOG_ENTRY_STATES) (\<lambda>modelState.
     bindE (ensureTimestamp (fld r ''modelRefreshAfter'')) (\<lambda>modelRefreshAfter.
     bindE (safeId (fld r ''adapterProfileId'')) (\<lambda>adapterProfileId.
     bindE (ensureEnum (fld r ''freeTierState'') freeTierText FREE_TIER_STATES) (\<lambda>freeTierState.
     bindE (ensureNullable (fld r ''contextTokens'') (\<lambda>raw. ensureSafeInteger raw 1 1000000000000)) (\<lambda>contextTokens.
     bindE (ensureNullable (fld r ''maximumOutputTokens'') (\<lambda>raw. ensureSafeInteger raw 1 1000000000000)) (\<lambda>maximumOutputTokens.
     bindE (parseCatalogCapabilities (fld r ''capabilities'')) (\<lambda>capabilities.
     let unsigned = \<lparr>ct_catalogId = catalogId, ct_catalogRevision = revision, ct_catalogFingerprint = catalogFingerprint,
           ct_generatedAt = generatedAt, ct_providerId = providerId, ct_providerFingerprint = providerFingerprint,
           ct_providerState = providerState, ct_providerRefreshAfter = providerRefreshAfter, ct_modelId = modelId,
           ct_modelFingerprint = modelFingerprint, ct_modelState = modelState, ct_modelRefreshAfter = modelRefreshAfter,
           ct_adapterProfileId = adapterProfileId, ct_freeTierState = freeTierState, ct_contextTokens = contextTokens,
           ct_maximumOutputTokens = maximumOutputTokens, ct_capabilities = capabilities, ct_fingerprint = []\<rparr> in
     bindE (checkFingerprint cd (jsonVal (JsonObj (catalogFields unsigned))) (fld r ''fingerprint'')) (\<lambda>fingerprint.
     Inr (unsigned\<lparr>ct_fingerprint := fingerprint\<rparr>))))))))))))))))))))))"

section \<open>Quota evidence\<close>

datatype quota_state = QuotaUnknown | QuotaAvailable | QuotaLimited | QuotaExhausted

fun quotaStateText :: "quota_state \<Rightarrow> string" where
  "quotaStateText QuotaUnknown = ''unknown''"
| "quotaStateText QuotaAvailable = ''available''"
| "quotaStateText QuotaLimited = ''limited''"
| "quotaStateText QuotaExhausted = ''exhausted''"

definition QUOTA_STATES :: "quota_state list" where
  "QUOTA_STATES = [QuotaUnknown, QuotaAvailable, QuotaLimited, QuotaExhausted]"

datatype quota_dimension = TokensQuota | RequestsQuota | CreditsQuota | UsagePercentageQuota

fun quotaDimensionText :: "quota_dimension \<Rightarrow> string" where
  "quotaDimensionText TokensQuota = ''tokens''"
| "quotaDimensionText RequestsQuota = ''requests''"
| "quotaDimensionText CreditsQuota = ''credits''"
| "quotaDimensionText UsagePercentageQuota = ''usage-percentage''"

definition QUOTA_DIMENSIONS :: "quota_dimension list" where
  "QUOTA_DIMENSIONS = [TokensQuota, RequestsQuota, CreditsQuota, UsagePercentageQuota]"

record quota_dimension_evidence =
  qd_dimension :: quota_dimension
  qd_remaining :: "int option"
  qd_limit :: "int option"

record quota_evidence =
  qe_providerInstanceId :: string
  qe_contractModelId :: string
  qe_scopeFingerprint :: string
  qe_state :: quota_state
  qe_completeness :: evidence_completeness
  qe_observedAt :: string
  qe_staleAt :: string
  qe_resetsAt :: "string option"
  qe_dimensions :: "quota_dimension_evidence list"
  qe_sourceFingerprint :: string
  qe_correctionFingerprint :: "string option"
  qe_fingerprint :: string

definition quotaDimensionJson :: "quota_dimension_evidence \<Rightarrow> json" where
  "quotaDimensionJson d = JsonObj [(''dimension'', JsonStr (quotaDimensionText (qd_dimension d))), (''remaining'', jsonOptInt (qd_remaining d)),
     (''limit'', jsonOptInt (qd_limit d))]"

definition quotaFields :: "quota_evidence \<Rightarrow> (string \<times> json) list" where
  "quotaFields q =
     [(''schemaVersion'', jsonInt ROUTING_EVIDENCE_SCHEMA_VERSION), (''providerInstanceId'', JsonStr (qe_providerInstanceId q)),
      (''contractModelId'', JsonStr (qe_contractModelId q)), (''scopeFingerprint'', JsonStr (qe_scopeFingerprint q)),
      (''state'', JsonStr (quotaStateText (qe_state q))), (''completeness'', JsonStr (completenessText (qe_completeness q))),
      (''observedAt'', JsonStr (qe_observedAt q)), (''staleAt'', JsonStr (qe_staleAt q)), (''resetsAt'', jsonText (qe_resetsAt q)),
      (''dimensions'', JsonArr (map quotaDimensionJson (qe_dimensions q))), (''sourceFingerprint'', JsonStr (qe_sourceFingerprint q)),
      (''correctionFingerprint'', jsonText (qe_correctionFingerprint q))]"

definition routingQuotaEvidenceFingerprint :: "codec \<Rightarrow> quota_evidence \<Rightarrow> domain_error + string" where
  "routingQuotaEvidenceFingerprint cd q = digest cd (jsonVal (JsonObj (quotaFields q)))"

definition parseQuotaDimension :: "jsval \<Rightarrow> domain_error + quota_dimension_evidence" where
  "parseQuotaDimension value =
     bindE (ensureRecord value) (\<lambda>r.
     bindE (ensureExactKeys r [''dimension'', ''remaining'', ''limit'']) (\<lambda>_.
     bindE (ensureNullable (fld r ''remaining'') (\<lambda>item. ensureSafeInteger item 0 MAX_SAFE_INTEGER)) (\<lambda>remaining.
     bindE (ensureNullable (fld r ''limit'') (\<lambda>item. ensureSafeInteger item 0 MAX_SAFE_INTEGER)) (\<lambda>limit.
     if (case (remaining, limit) of (Some x, Some y) \<Rightarrow> x > y | _ \<Rightarrow> False) then fail ''quota_range''
     else
     bindE (ensureEnum (fld r ''dimension'') quotaDimensionText QUOTA_DIMENSIONS) (\<lambda>dimension.
     Inr \<lparr>qd_dimension = dimension, qd_remaining = remaining, qd_limit = limit\<rparr>)))))"

definition parseQuotaDimensions :: "jsval \<Rightarrow> domain_error + quota_dimension_evidence list" where
  "parseQuotaDimensions value =
     bindE (ensureArray value (length QUOTA_DIMENSIONS)) (\<lambda>raw.
     bindE (mapE parseQuotaDimension raw) (\<lambda>items.
     let sorted = map snd (sortKeys (map (\<lambda>d. (quotaDimensionText (qd_dimension d), d)) items)) in
     if distinct (map qd_dimension sorted) then Inr sorted else fail ''duplicate_dimension''))"

text \<open>\<open>staleAt < observedAt\<close> compares the texts.\<close>

definition parseRoutingQuotaEvidence :: "codec \<Rightarrow> jsval \<Rightarrow> domain_error + quota_evidence" where
  "parseRoutingQuotaEvidence cd value =
     bindE (ensureRecord value) (\<lambda>r.
     bindE (ensureExactKeys r [''schemaVersion'', ''providerInstanceId'', ''contractModelId'', ''scopeFingerprint'', ''state'', ''completeness'',
       ''observedAt'', ''staleAt'', ''resetsAt'', ''dimensions'', ''sourceFingerprint'', ''correctionFingerprint'', ''fingerprint'']) (\<lambda>_.
     bindE (ensureSchemaVersion (fld r ''schemaVersion'') ROUTING_EVIDENCE_SCHEMA_VERSION) (\<lambda>_.
     bindE (ensureTimestamp (fld r ''observedAt'')) (\<lambda>observedAt.
     bindE (ensureTimestamp (fld r ''staleAt'')) (\<lambda>staleAt.
     if strLess staleAt observedAt then fail ''bad_freshness''
     else
     bindE (safeId (fld r ''providerInstanceId'')) (\<lambda>providerInstanceId.
     bindE (safeId (fld r ''contractModelId'')) (\<lambda>contractModelId.
     bindE (fingerprintField (fld r ''scopeFingerprint'')) (\<lambda>scopeFingerprint.
     bindE (ensureEnum (fld r ''state'') quotaStateText QUOTA_STATES) (\<lambda>state.
     bindE (ensureEnum (fld r ''completeness'') completenessText EVIDENCE_COMPLETENESS) (\<lambda>completeness.
     bindE (ensureNullable (fld r ''resetsAt'') ensureTimestamp) (\<lambda>resetsAt.
     bindE (parseQuotaDimensions (fld r ''dimensions'')) (\<lambda>dimensions.
     bindE (fingerprintField (fld r ''sourceFingerprint'')) (\<lambda>sourceFingerprint.
     bindE (ensureNullable (fld r ''correctionFingerprint'') fingerprintField) (\<lambda>correctionFingerprint.
     let unsigned = \<lparr>qe_providerInstanceId = providerInstanceId, qe_contractModelId = contractModelId, qe_scopeFingerprint = scopeFingerprint,
           qe_state = state, qe_completeness = completeness, qe_observedAt = observedAt, qe_staleAt = staleAt, qe_resetsAt = resetsAt,
           qe_dimensions = dimensions, qe_sourceFingerprint = sourceFingerprint, qe_correctionFingerprint = correctionFingerprint,
           qe_fingerprint = []\<rparr> in
     if state = QuotaUnknown \<and> completeness = CompleteEvidence then fail ''unknown_complete''
     else
     bindE (checkFingerprint cd (jsonVal (JsonObj (quotaFields unsigned))) (fld r ''fingerprint'')) (\<lambda>fingerprint.
     Inr (unsigned\<lparr>qe_fingerprint := fingerprint\<rparr>))))))))))))))))"

definition createRoutingQuotaEvidence :: "codec \<Rightarrow> quota_evidence \<Rightarrow> domain_error + quota_evidence" where
  "createRoutingQuotaEvidence cd value = signAndParse cd (quotaFields value) (parseRoutingQuotaEvidence cd)"

section \<open>Capacity evidence\<close>

datatype capacity_state =
  CapacityHealthy | CapacityDegraded | CapacityUnavailable | CapacityStale | CapacityUnsupported | CapacityUnknown

fun capacityStateText :: "capacity_state \<Rightarrow> string" where
  "capacityStateText CapacityHealthy = ''healthy''"
| "capacityStateText CapacityDegraded = ''degraded''"
| "capacityStateText CapacityUnavailable = ''unavailable''"
| "capacityStateText CapacityStale = ''stale''"
| "capacityStateText CapacityUnsupported = ''unsupported''"
| "capacityStateText CapacityUnknown = ''unknown''"

definition CAPACITY_STATES :: "capacity_state list" where
  "CAPACITY_STATES = [CapacityHealthy, CapacityDegraded, CapacityUnavailable, CapacityStale, CapacityUnsupported, CapacityUnknown]"

record capacity_evidence =
  ca_providerInstanceId :: string
  ca_contractModelId :: string
  ca_scopeFingerprint :: string
  ca_state :: capacity_state
  ca_completeness :: evidence_completeness
  ca_observedAt :: string
  ca_staleAt :: string
  ca_availableConcurrency :: "int option"
  ca_availableMemoryBytes :: "int option"
  ca_requiredMemoryBytes :: "int option"
  ca_sourceFingerprint :: string
  ca_fingerprint :: string

definition capacityFields :: "capacity_evidence \<Rightarrow> (string \<times> json) list" where
  "capacityFields c =
     [(''schemaVersion'', jsonInt ROUTING_EVIDENCE_SCHEMA_VERSION), (''providerInstanceId'', JsonStr (ca_providerInstanceId c)),
      (''contractModelId'', JsonStr (ca_contractModelId c)), (''scopeFingerprint'', JsonStr (ca_scopeFingerprint c)),
      (''state'', JsonStr (capacityStateText (ca_state c))), (''completeness'', JsonStr (completenessText (ca_completeness c))),
      (''observedAt'', JsonStr (ca_observedAt c)), (''staleAt'', JsonStr (ca_staleAt c)),
      (''availableConcurrency'', jsonOptInt (ca_availableConcurrency c)), (''availableMemoryBytes'', jsonOptInt (ca_availableMemoryBytes c)),
      (''requiredMemoryBytes'', jsonOptInt (ca_requiredMemoryBytes c)), (''sourceFingerprint'', JsonStr (ca_sourceFingerprint c))]"

definition routingCapacityEvidenceFingerprint :: "codec \<Rightarrow> capacity_evidence \<Rightarrow> domain_error + string" where
  "routingCapacityEvidenceFingerprint cd c = digest cd (jsonVal (JsonObj (capacityFields c)))"

definition nullableCount :: "jsval \<Rightarrow> domain_error + int option" where
  "nullableCount value = ensureNullable value (\<lambda>raw. ensureSafeInteger raw 0 MAX_SAFE_INTEGER)"

definition parseRoutingCapacityEvidence :: "codec \<Rightarrow> jsval \<Rightarrow> domain_error + capacity_evidence" where
  "parseRoutingCapacityEvidence cd value =
     bindE (ensureRecord value) (\<lambda>r.
     bindE (ensureExactKeys r [''schemaVersion'', ''providerInstanceId'', ''contractModelId'', ''scopeFingerprint'', ''state'', ''completeness'',
       ''observedAt'', ''staleAt'', ''availableConcurrency'', ''availableMemoryBytes'', ''requiredMemoryBytes'', ''sourceFingerprint'',
       ''fingerprint'']) (\<lambda>_.
     bindE (ensureSchemaVersion (fld r ''schemaVersion'') ROUTING_EVIDENCE_SCHEMA_VERSION) (\<lambda>_.
     bindE (ensureTimestamp (fld r ''observedAt'')) (\<lambda>observedAt.
     bindE (ensureTimestamp (fld r ''staleAt'')) (\<lambda>staleAt.
     if strLess staleAt observedAt then fail ''bad_freshness''
     else
     bindE (safeId (fld r ''providerInstanceId'')) (\<lambda>providerInstanceId.
     bindE (safeId (fld r ''contractModelId'')) (\<lambda>contractModelId.
     bindE (fingerprintField (fld r ''scopeFingerprint'')) (\<lambda>scopeFingerprint.
     bindE (ensureEnum (fld r ''state'') capacityStateText CAPACITY_STATES) (\<lambda>state.
     bindE (ensureEnum (fld r ''completeness'') completenessText EVIDENCE_COMPLETENESS) (\<lambda>completeness.
     bindE (nullableCount (fld r ''availableConcurrency'')) (\<lambda>concurrency.
     bindE (nullableCount (fld r ''availableMemoryBytes'')) (\<lambda>available.
     bindE (nullableCount (fld r ''requiredMemoryBytes'')) (\<lambda>required.
     bindE (fingerprintField (fld r ''sourceFingerprint'')) (\<lambda>sourceFingerprint.
     let unsigned = \<lparr>ca_providerInstanceId = providerInstanceId, ca_contractModelId = contractModelId, ca_scopeFingerprint = scopeFingerprint,
           ca_state = state, ca_completeness = completeness, ca_observedAt = observedAt, ca_staleAt = staleAt,
           ca_availableConcurrency = concurrency, ca_availableMemoryBytes = available, ca_requiredMemoryBytes = required,
           ca_sourceFingerprint = sourceFingerprint, ca_fingerprint = []\<rparr> in
     bindE (checkFingerprint cd (jsonVal (JsonObj (capacityFields unsigned))) (fld r ''fingerprint'')) (\<lambda>fingerprint.
     Inr (unsigned\<lparr>ca_fingerprint := fingerprint\<rparr>))))))))))))))))"

definition createRoutingCapacityEvidence :: "codec \<Rightarrow> capacity_evidence \<Rightarrow> domain_error + capacity_evidence" where
  "createRoutingCapacityEvidence cd value = signAndParse cd (capacityFields value) (parseRoutingCapacityEvidence cd)"

section \<open>Policy evidence\<close>

record policy_evidence =
  pe_outcome :: policy_outcome
  pe_decisionFingerprint :: string
  pe_classification :: data_classification
  pe_requiredLocality :: required_locality
  pe_inputLoggingAllowed :: bool
  pe_outputLoggingAllowed :: bool
  pe_retentionAllowed :: bool
  pe_fingerprint :: string

definition policyFields :: "policy_evidence \<Rightarrow> (string \<times> json) list" where
  "policyFields p =
     [(''outcome'', JsonStr (policyOutcomeText (pe_outcome p))), (''decisionFingerprint'', JsonStr (pe_decisionFingerprint p)),
      (''classification'', JsonStr (classificationText (pe_classification p))),
      (''requiredLocality'', JsonStr (requiredLocalityText (pe_requiredLocality p))),
      (''inputLoggingAllowed'', JsonBool (pe_inputLoggingAllowed p)), (''outputLoggingAllowed'', JsonBool (pe_outputLoggingAllowed p)),
      (''retentionAllowed'', JsonBool (pe_retentionAllowed p)), (''authority'', JsonStr ''none'')]"

definition candidatePolicyEvidenceFingerprint :: "codec \<Rightarrow> policy_evidence \<Rightarrow> domain_error + string" where
  "candidatePolicyEvidenceFingerprint cd p = digest cd (jsonVal (JsonObj (policyFields p)))"

definition parseCandidatePolicyEvidence :: "codec \<Rightarrow> jsval \<Rightarrow> domain_error + policy_evidence" where
  "parseCandidatePolicyEvidence cd value =
     bindE (ensureRecord value) (\<lambda>r.
     bindE (ensureExactKeys r [''outcome'', ''decisionFingerprint'', ''classification'', ''requiredLocality'', ''inputLoggingAllowed'',
       ''outputLoggingAllowed'', ''retentionAllowed'', ''authority'', ''fingerprint'']) (\<lambda>_.
     bindE (ensureEnum (fld r ''outcome'') policyOutcomeText [PolicyAllowed, PolicyDenied, PolicyConditional]) (\<lambda>outcome.
     bindE (fingerprintField (fld r ''decisionFingerprint'')) (\<lambda>decisionFingerprint.
     bindE (ensureEnum (fld r ''classification'') classificationText DATA_CLASSIFICATIONS) (\<lambda>classification.
     bindE (ensureEnum (fld r ''requiredLocality'') requiredLocalityText [RequiresLocal, AnyLocality]) (\<lambda>requiredLocality.
     bindE (ensureBoolean (fld r ''inputLoggingAllowed'')) (\<lambda>inputLogging.
     bindE (ensureBoolean (fld r ''outputLoggingAllowed'')) (\<lambda>outputLogging.
     bindE (ensureBoolean (fld r ''retentionAllowed'')) (\<lambda>retention.
     bindE (ensureEnum (fld r ''authority'') id [''none'']) (\<lambda>_.
     let unsigned = \<lparr>pe_outcome = outcome, pe_decisionFingerprint = decisionFingerprint, pe_classification = classification,
           pe_requiredLocality = requiredLocality, pe_inputLoggingAllowed = inputLogging, pe_outputLoggingAllowed = outputLogging,
           pe_retentionAllowed = retention, pe_fingerprint = []\<rparr> in
     bindE (checkFingerprint cd (jsonVal (JsonObj (policyFields unsigned))) (fld r ''fingerprint'')) (\<lambda>fingerprint.
     Inr (unsigned\<lparr>pe_fingerprint := fingerprint\<rparr>))))))))))))"

definition createCandidatePolicyEvidence :: "codec \<Rightarrow> policy_evidence \<Rightarrow> domain_error + policy_evidence" where
  "createCandidatePolicyEvidence cd value = signAndParse cd (policyFields value) (parseCandidatePolicyEvidence cd)"

section \<open>Secure execution evidence\<close>

datatype secure_level = SecureEnforcing | AdvisorySecurity | NoSecurity

fun secureLevelText :: "secure_level \<Rightarrow> string" where
  "secureLevelText SecureEnforcing = ''secure-enforcing''"
| "secureLevelText AdvisorySecurity = ''advisory''"
| "secureLevelText NoSecurity = ''none''"

definition SECURE_EXECUTION_LEVELS :: "secure_level list" where
  "SECURE_EXECUTION_LEVELS = [SecureEnforcing, AdvisorySecurity, NoSecurity]"

record secure_evidence =
  se_level :: secure_level
  se_sourceFingerprint :: string
  se_verifiedAt :: string
  se_fingerprint :: string

definition secureFields :: "secure_evidence \<Rightarrow> (string \<times> json) list" where
  "secureFields s =
     [(''level'', JsonStr (secureLevelText (se_level s))), (''sourceFingerprint'', JsonStr (se_sourceFingerprint s)),
      (''verifiedAt'', JsonStr (se_verifiedAt s))]"

definition secureExecutionEvidenceFingerprint :: "codec \<Rightarrow> secure_evidence \<Rightarrow> domain_error + string" where
  "secureExecutionEvidenceFingerprint cd s = digest cd (jsonVal (JsonObj (secureFields s)))"

definition parseSecureExecutionEvidence :: "codec \<Rightarrow> jsval \<Rightarrow> domain_error + secure_evidence" where
  "parseSecureExecutionEvidence cd value =
     bindE (ensureRecord value) (\<lambda>r.
     bindE (ensureExactKeys r [''level'', ''sourceFingerprint'', ''verifiedAt'', ''fingerprint'']) (\<lambda>_.
     bindE (ensureEnum (fld r ''level'') secureLevelText SECURE_EXECUTION_LEVELS) (\<lambda>level.
     bindE (fingerprintField (fld r ''sourceFingerprint'')) (\<lambda>sourceFingerprint.
     bindE (ensureTimestamp (fld r ''verifiedAt'')) (\<lambda>verifiedAt.
     let unsigned = \<lparr>se_level = level, se_sourceFingerprint = sourceFingerprint, se_verifiedAt = verifiedAt, se_fingerprint = []\<rparr> in
     bindE (checkFingerprint cd (jsonVal (JsonObj (secureFields unsigned))) (fld r ''fingerprint'')) (\<lambda>fingerprint.
     Inr (unsigned\<lparr>se_fingerprint := fingerprint\<rparr>)))))))"

definition createSecureExecutionEvidence :: "codec \<Rightarrow> secure_evidence \<Rightarrow> domain_error + secure_evidence" where
  "createSecureExecutionEvidence cd value = signAndParse cd (secureFields value) (parseSecureExecutionEvidence cd)"

section \<open>Candidates\<close>

record routing_candidate =
  rk_candidateId :: string
  rk_gateway :: gateway_evidence
  rk_catalog :: catalog_evidence
  rk_policy :: policy_evidence
  rk_health :: provider_health
  rk_healthFingerprint :: string
  rk_quota :: quota_evidence
  rk_capacity :: capacity_evidence
  rk_tokenEstimate :: token_estimate
  rk_costEstimate :: routing_cost_estimate
  rk_circuit :: circuit_state
  rk_secureExecution :: secure_evidence
  rk_expectedLatencyMs :: "int option"
  rk_evidenceObservedAt :: string
  rk_fingerprint :: string

definition candidateFields :: "routing_candidate \<Rightarrow> jsrecord" where
  "candidateFields c =
     [(''schemaVersion'', jsInt ROUTING_CANDIDATE_SCHEMA_VERSION), (''candidateId'', JStr (rk_candidateId c)),
      (''gateway'', signedVal (gatewayFields (rk_gateway c)) (gw_fingerprint (rk_gateway c))),
      (''catalog'', signedVal (catalogFields (rk_catalog c)) (ct_fingerprint (rk_catalog c))),
      (''policy'', signedVal (policyFields (rk_policy c)) (pe_fingerprint (rk_policy c))),
      (''health'', jsonVal (providerHealthJson (rk_health c))), (''healthFingerprint'', JStr (rk_healthFingerprint c)),
      (''quota'', signedVal (quotaFields (rk_quota c)) (qe_fingerprint (rk_quota c))),
      (''capacity'', signedVal (capacityFields (rk_capacity c)) (ca_fingerprint (rk_capacity c))),
      (''tokenEstimate'', tokenEstimateVal (rk_tokenEstimate c)), (''costEstimate'', costEstimateVal (rk_costEstimate c)),
      (''circuit'', circuitStateVal (rk_circuit c)),
      (''secureExecution'', signedVal (secureFields (rk_secureExecution c)) (se_fingerprint (rk_secureExecution c))),
      (''expectedLatencyMs'', jsNullable (\<lambda>i. jsInt i) (rk_expectedLatencyMs c)), (''evidenceObservedAt'', JStr (rk_evidenceObservedAt c))]"

definition routingCandidateFingerprint :: "codec \<Rightarrow> routing_candidate \<Rightarrow> domain_error + string" where
  "routingCandidateFingerprint cd c = digest cd (plainObj (candidateFields c))"

definition candidateIdentityMismatch :: "routing_candidate \<Rightarrow> bool" where
  "candidateIdentityMismatch c \<longleftrightarrow>
     (let gateway = rk_gateway c; reference = gw_catalog gateway; catalog = rk_catalog c in
      cr_catalogFingerprint reference \<noteq> ct_catalogFingerprint catalog \<or> cr_providerFingerprint reference \<noteq> ct_providerFingerprint catalog \<or>
      cr_modelFingerprint reference \<noteq> ct_modelFingerprint catalog \<or> cr_providerId reference \<noteq> ct_providerId catalog \<or>
      cr_modelId reference \<noteq> ct_modelId catalog \<or> cr_adapterProfileId reference \<noteq> ct_adapterProfileId catalog \<or>
      gw_instanceId gateway \<noteq> qe_providerInstanceId (rk_quota c) \<or> gw_contractModelId gateway \<noteq> qe_contractModelId (rk_quota c) \<or>
      gw_instanceId gateway \<noteq> ca_providerInstanceId (rk_capacity c) \<or> gw_contractModelId gateway \<noteq> ca_contractModelId (rk_capacity c) \<or>
      gw_instanceId gateway \<noteq> ci_providerInstanceId (cb_identity (rk_circuit c)) \<or>
      gw_contractModelId gateway \<noteq> ci_contractModelId (cb_identity (rk_circuit c)) \<or>
      gw_contractModelId gateway \<noteq> te_contractModelId (rk_tokenEstimate c) \<or>
      cr_modelFingerprint reference \<noteq> te_catalogModelFingerprint (rk_tokenEstimate c))"

definition parseRoutingCandidate :: "codec \<Rightarrow> jsval \<Rightarrow> domain_error + routing_candidate" where
  "parseRoutingCandidate cd value =
     bindE (ensureRecord value) (\<lambda>r.
     bindE (ensureExactKeys r [''schemaVersion'', ''candidateId'', ''gateway'', ''catalog'', ''policy'', ''health'', ''healthFingerprint'', ''quota'',
       ''capacity'', ''tokenEstimate'', ''costEstimate'', ''circuit'', ''secureExecution'', ''expectedLatencyMs'', ''evidenceObservedAt'',
       ''fingerprint'']) (\<lambda>_.
     bindE (ensureSchemaVersion (fld r ''schemaVersion'') ROUTING_CANDIDATE_SCHEMA_VERSION) (\<lambda>_.
     bindE (parseGatewayCandidateEvidence cd (fld r ''gateway'')) (\<lambda>gateway.
     bindE (parseCatalogCandidateEvidence cd (fld r ''catalog'')) (\<lambda>catalog.
     bindE (parseProviderHealth (fld r ''health'')) (\<lambda>health.
     bindE (parseRoutingQuotaEvidence cd (fld r ''quota'')) (\<lambda>quota.
     bindE (parseRoutingCapacityEvidence cd (fld r ''capacity'')) (\<lambda>capacity.
     bindE (parseCircuitBreakerState cd (fld r ''circuit'')) (\<lambda>circuit.
     bindE (safeId (fld r ''candidateId'')) (\<lambda>candidateId.
     bindE (parseCandidatePolicyEvidence cd (fld r ''policy'')) (\<lambda>policy.
     bindE (fingerprintField (fld r ''healthFingerprint'')) (\<lambda>healthFingerprint.
     bindE (parseTokenEstimate cd (fld r ''tokenEstimate'')) (\<lambda>tokenEstimate.
     bindE (parseRoutingCostEstimate cd (fld r ''costEstimate'')) (\<lambda>costEstimate.
     bindE (parseSecureExecutionEvidence cd (fld r ''secureExecution'')) (\<lambda>secure.
     bindE (ensureNullable (fld r ''expectedLatencyMs'') (\<lambda>raw. ensureSafeInteger raw 0 10000000000000)) (\<lambda>latency.
     bindE (ensureTimestamp (fld r ''evidenceObservedAt'')) (\<lambda>observedAt.
     let unsigned = \<lparr>rk_candidateId = candidateId, rk_gateway = gateway, rk_catalog = catalog, rk_policy = policy, rk_health = health,
           rk_healthFingerprint = healthFingerprint, rk_quota = quota, rk_capacity = capacity, rk_tokenEstimate = tokenEstimate,
           rk_costEstimate = costEstimate, rk_circuit = circuit, rk_secureExecution = secure, rk_expectedLatencyMs = latency,
           rk_evidenceObservedAt = observedAt, rk_fingerprint = []\<rparr> in
     bindE (digest cd (jsonVal (providerHealthJson health))) (\<lambda>healthDigest.
     if healthDigest \<noteq> healthFingerprint then fail ''fingerprint_mismatch''
     else if candidateIdentityMismatch unsigned then fail ''candidate_identity_mismatch''
     else
     bindE (checkFingerprint cd (plainObj (candidateFields unsigned)) (fld r ''fingerprint'')) (\<lambda>fingerprint.
     Inr (unsigned\<lparr>rk_fingerprint := fingerprint\<rparr>))))))))))))))))))))"

definition createRoutingCandidate :: "codec \<Rightarrow> routing_candidate \<Rightarrow> domain_error + routing_candidate" where
  "createRoutingCandidate cd value =
     bindE (digest cd (jsonVal (providerHealthJson (rk_health value)))) (\<lambda>healthFingerprint.
     let unsigned = value\<lparr>rk_healthFingerprint := healthFingerprint\<rparr> in
     bindE (routingCandidateFingerprint cd unsigned) (\<lambda>fingerprint.
     parseRoutingCandidate cd (plainObj (candidateFields unsigned @ [(''fingerprint'', JStr fingerprint)]))))"

end
