(* ===== verification/Router_Evaluate.thy ===== *)
theory Router_Evaluate
  imports Router_Candidate Account_Laws Domain_Task
begin

text \<open>
  \<open>packages/router/src/router.ts\<close>, first part: the evaluation of one candidate against a request - every check with the code
  that rejects the candidate, the budget plan, the confidence and the instant until which the evidence holds. A request enters
  as \<open>parseRoutingRequest\<close> returned it, with the fields of the task profile and of the application configuration that the
  router reads. Codes are the strings of \<open>ROUTE_REJECTION_CODES\<close>; a function that adds codes to the set returns them in
  the order it adds them.
\<close>

section \<open>Requests\<close>

datatype routing_surface = ThinkerInference | TaskExecution

record task_profile =
  tp_effective :: task_requirements
  tp_requiredLocality :: required_locality
  tp_approvalRequired :: bool
  tp_confidenceScore :: int
  tp_confidenceReasons :: "string list"
  tp_fingerprint :: string

record provider_entry =
  pf_instanceId :: string
  pf_providerId :: string
  pf_kind :: provider_kind
  pf_enabled :: bool
  pf_locality :: locality

record model_alias =
  al_alias :: string
  al_providerInstanceId :: string
  al_modelId :: string

datatype preferred_locality = PreferLocalModels | PreferCloudModels | BalancedLocality

record application_configuration =
  cf_providers :: "provider_entry list"
  cf_modelAliases :: "model_alias list"
  cf_modelPreferences :: "(string \<times> string list) list"
  cf_defaultAlias :: "string option"
  cf_fallbackAliases :: "string list"
  cf_preferLocal :: bool
  cf_handlingPolicies :: "data_policy list"
  cf_preferredLocality :: preferred_locality
  cf_costPriority :: int
  cf_latencyPriority :: int
  cf_fingerprint :: string

record routing_request =
  rr_requestId :: string
  rr_requestedAt :: string
  rr_profile :: task_profile
  rr_configuration :: application_configuration
  rr_routerConfigurationFingerprint :: string
  rr_budgetAccount :: account
  rr_candidates :: "routing_candidate list"
  rr_role :: string
  rr_surface :: routing_surface
  rr_explicitAlias :: "string option"
  rr_allowFallbacks :: bool
  rr_verifiedFreeOnly :: bool
  rr_deadline :: "string option"
  rr_requiredMaximumLatencyMs :: "int option"
  rr_expectedDurationMs :: int
  rr_halfOpenProbeCandidateId :: "string option"
  rr_fingerprint :: string

section \<open>Helpers\<close>

text \<open>The code \<open>c\<close> when the condition holds.\<close>

definition codeIf :: "bool \<Rightarrow> string \<Rightarrow> string list" where
  "codeIf b c = (if b then [c] else [])"

definition isFresh :: "int \<Rightarrow> string \<Rightarrow> string option \<Rightarrow> int \<Rightarrow> bool" where
  "isFresh nowMs observedAt staleAt maximumAgeMs \<longleftrightarrow>
     (let observedMs = dateParse observedAt in
      observedMs \<le> nowMs \<and> (case staleAt of None \<Rightarrow> True | Some t \<Rightarrow> nowMs \<le> dateParse t) \<and> nowMs - observedMs \<le> maximumAgeMs)"

text \<open>The first of the earliest instants; the code calls it with a first value that is present.\<close>

fun earliestOf :: "string \<Rightarrow> string list \<Rightarrow> string" where
  "earliestOf earliest [] = earliest"
| "earliestOf earliest (value # values) = earliestOf (if dateParse value < dateParse earliest then value else earliest) values"

definition earliestInstant :: "string \<Rightarrow> string option list \<Rightarrow> string" where
  "earliestInstant first others = earliestOf first (present others)"

definition evidenceStaleAt :: "string \<Rightarrow> string \<Rightarrow> int \<Rightarrow> domain_error + string" where
  "evidenceStaleAt observedAt declaredStaleAt maximumAgeMs =
     bindE (instantAfter observedAt maximumAgeMs) (\<lambda>t. Inr (earliestInstant declaredStaleAt [Some t]))"

definition quotaDimension :: "routing_candidate \<Rightarrow> quota_dimension \<Rightarrow> quota_dimension_evidence option" where
  "quotaDimension candidate dimension = find (\<lambda>d. qd_dimension d = dimension) (qe_dimensions (rk_quota candidate))"

text \<open>\<open>quota?.remaining\<close> when it is a number.\<close>

definition remainingOf :: "quota_dimension_evidence option \<Rightarrow> int option" where
  "remainingOf d = Option.bind d qd_remaining"

definition withSafetyMarginOrNull :: "int \<Rightarrow> int \<Rightarrow> int option" where
  "withSafetyMarginOrNull value basisPoints =
     (let result = value + (value * basisPoints + 9999) div 10000 in if result > MAX_SAFE_INTEGER then None else Some result)"

definition aliasesForCandidate :: "routing_request \<Rightarrow> routing_candidate \<Rightarrow> string list" where
  "aliasesForCandidate request candidate =
     map snd (sortKeys (map (\<lambda>a. (al_alias a, al_alias a))
       (filter (\<lambda>a. al_providerInstanceId a = gw_instanceId (rk_gateway candidate) \<and> al_modelId a = gw_contractModelId (rk_gateway candidate))
         (cf_modelAliases (rr_configuration request)))))"

text \<open>The values of a set in the order of insertion.\<close>

fun uniqueOf :: "'a list \<Rightarrow> 'a list \<Rightarrow> 'a list" where
  "uniqueOf seen [] = []"
| "uniqueOf seen (x # xs) = (if x \<in> set seen then uniqueOf seen xs else x # uniqueOf (x # seen) xs)"

definition orderedAliases :: "routing_request \<Rightarrow> string list" where
  "orderedAliases request =
     (let configuration = rr_configuration request in
      uniqueOf [] ((case rr_explicitAlias request of None \<Rightarrow> [] | Some a \<Rightarrow> [a]) @
        (case map_of (cf_modelPreferences configuration) (rr_role request) of None \<Rightarrow> [] | Some aliases \<Rightarrow> aliases) @
        (case cf_defaultAlias configuration of None \<Rightarrow> [] | Some a \<Rightarrow> [a]) @ cf_fallbackAliases configuration))"

definition selectedAliasFor :: "routing_request \<Rightarrow> string list \<Rightarrow> string option" where
  "selectedAliasFor request candidateAliases =
     (case find (\<lambda>a. a \<in> set candidateAliases) (orderedAliases request) of
        Some a \<Rightarrow> Some a
      | None \<Rightarrow> (case candidateAliases of [] \<Rightarrow> None | a # _ \<Rightarrow> Some a))"

definition requiredCatalogCapabilities :: "task_capability list \<Rightarrow> string list" where
  "requiredCatalogCapabilities capabilities =
     sortTexts id ([''text-input'', ''text-output''] @ codeIf (Reasoning \<in> set capabilities) ''reasoning'' @
       codeIf (StructuredOutput \<in> set capabilities) ''structured-output'' @ codeIf (ToolUse \<in> set capabilities) ''tools'' @
       codeIf (Vision \<in> set capabilities) ''image-input'')"

fun REASONING_RATINGS :: "reasoning_demand \<Rightarrow> int" where
  "REASONING_RATINGS LowReasoning = 1"
| "REASONING_RATINGS MediumReasoning = 2"
| "REASONING_RATINGS HighReasoning = 4"
| "REASONING_RATINGS ExtremeReasoning = 5"

section \<open>Checks\<close>

definition providerCapabilityFailures :: "routing_request \<Rightarrow> routing_candidate \<Rightarrow> string list" where
  "providerCapabilityFailures request candidate =
     (let required = tr_capabilities (tp_effective (rr_profile request)); provider = gw_descriptor (rk_gateway candidate);
          model = mo_model (gw_model (rk_gateway candidate)); combined = combinedCapability provider model;
          requiresExecution = (rr_surface request = TaskExecution);
          unsupported =
            StructuredOutput \<in> set required \<and> \<not> xc_structuredOutput combined \<or>
            ToolUse \<in> set required \<and> \<not> xc_toolCalling combined \<or>
            Vision \<in> set required \<and> \<not> xc_imageInput combined \<or>
            requiresExecution \<and> CodeEdit \<in> set required \<and> \<not> pc_repositoryEditing (pd_capabilities provider) \<or>
            requiresExecution \<and> RepositoryRead \<in> set required \<and> \<not> pc_repositoryEditing (pd_capabilities provider) \<or>
            requiresExecution \<and> ShellUse \<in> set required \<and> \<not> pc_commandExecution (pd_capabilities provider) \<or>
            requiresExecution \<and> Testing \<in> set required \<and> \<not> pc_commandExecution (pd_capabilities provider) in
      codeIf unsupported ''CAPABILITY_UNSUPPORTED'' @
      concat (map (\<lambda>i. case map_of (ct_capabilities (rk_catalog candidate)) i of
          None \<Rightarrow> [''CAPABILITY_UNKNOWN'']
        | Some status \<Rightarrow> codeIf (status = UnsupportedCapability) ''CAPABILITY_UNSUPPORTED'' @ codeIf (status = UnknownCapability) ''CAPABILITY_UNKNOWN'')
        (requiredCatalogCapabilities required)) @
      codeIf (md_reasoningCapability model < REASONING_RATINGS (tr_reasoning (tp_effective (rr_profile request)))) ''REASONING_RATING_INSUFFICIENT'' @
      codeIf (CodeEdit \<in> set required \<and> md_codingCapability model < tr_complexity (tp_effective (rr_profile request))) ''CODING_RATING_INSUFFICIENT'')"

definition policyFailures :: "routing_request \<Rightarrow> routing_candidate \<Rightarrow> data_policy \<Rightarrow> string list" where
  "policyFailures request candidate handling =
     (let classification = tr_dataClassification (tp_effective (rr_profile request)); policy = rk_policy candidate;
          descriptor = gw_descriptor (rk_gateway candidate); disallowed = set (dp_disallowedCapabilities handling);
          localRequired = (tp_requiredLocality (rr_profile request) = RequiresLocal \<or> pe_requiredLocality policy = RequiresLocal \<or>
            dp_localExecutionRequired handling) in
      codeIf (pe_outcome policy = PolicyDenied) ''POLICY_DENIED'' @
      codeIf (pe_outcome policy = PolicyConditional) ''POLICY_CONDITIONAL'' @
      codeIf (pe_classification policy \<noteq> classification) ''CLASSIFICATION_MISMATCH'' @
      codeIf (classification \<notin> set (pd_supportedClassifications descriptor)) ''CLASSIFICATION_UNSUPPORTED'' @
      codeIf (localRequired \<and> pd_locality descriptor \<noteq> LocalTarget) ''LOCALITY_REQUIRED'' @
      codeIf (\<not> dp_cloudProvidersAllowed handling \<and> pd_locality descriptor = CloudTarget) ''CLOUD_FORBIDDEN'' @
      codeIf (DataRetention \<in> disallowed \<and> pd_retainsData descriptor) ''RETENTION_INCOMPATIBLE'' @
      codeIf (ModelTraining \<in> disallowed \<and> pd_trainsOnInputs descriptor) ''TRAINING_INCOMPATIBLE'' @
      codeIf (ExternalNetworkTools \<in> disallowed \<and> pc_networkAccess (pd_capabilities descriptor)) ''NETWORK_INCOMPATIBLE'' @
      codeIf (\<not> dp_logRetentionAllowed handling \<and> (pe_inputLoggingAllowed policy \<or> pe_outputLoggingAllowed policy)) ''LOGGING_INCOMPATIBLE'' @
      codeIf (\<not> pe_retentionAllowed policy \<and> pd_retainsData descriptor) ''RETENTION_INCOMPATIBLE'')"

definition catalogFailures :: "routing_request \<Rightarrow> routing_candidate \<Rightarrow> int \<Rightarrow> router_configuration \<Rightarrow> string list" where
  "catalogFailures request candidate nowMs configuration =
     (let catalog = rk_catalog candidate;
          verifiedFreeOnly = (rr_verifiedFreeOnly request \<or> he_verifiedFreeOnly (rc_hardEvidence configuration) \<or>
            gw_eligibility (rk_gateway candidate) = VerifiedFreeOnlyTier) in
      codeIf (ct_providerState catalog \<noteq> EntryEnabled) ''CATALOG_PROVIDER_DISABLED'' @
      codeIf (ct_modelState catalog \<noteq> EntryEnabled) ''CATALOG_MODEL_DISABLED'' @
      codeIf (nowMs > dateParse (ct_providerRefreshAfter catalog) \<or> nowMs > dateParse (ct_modelRefreshAfter catalog) \<or>
        nowMs - dateParse (ct_generatedAt catalog) > fr_catalogMs (rc_freshness configuration) \<or>
        dateParse (ct_generatedAt catalog) > nowMs) ''CATALOG_EXPIRED'' @
      codeIf (verifiedFreeOnly \<and> ct_freeTierState catalog \<noteq> FreeVerified) ''FREE_TIER_NOT_VERIFIED'')"

definition contextFailures :: "routing_request \<Rightarrow> routing_candidate \<Rightarrow> router_configuration \<Rightarrow> string list" where
  "contextFailures request candidate configuration =
     (let estimate = rk_tokenEstimate candidate; gateway = rk_gateway candidate; model = mo_model (gw_model gateway) in
      codeIf (te_providerId estimate \<noteq> pd_providerId (gw_descriptor gateway) \<or> te_contractModelId estimate \<noteq> gw_contractModelId gateway \<or>
        te_catalogModelFingerprint estimate \<noteq> ct_modelFingerprint (rk_catalog candidate) \<or>
        te_transportProfileId estimate \<noteq> ad_profileId (gw_adapter gateway)) ''ESTIMATOR_IDENTITY_MISMATCH'' @
      codeIf (\<not> te_canProveContextFit estimate \<or> te_accuracy estimate = HeuristicAccuracy \<or>
        he_minimumEstimatorAccuracy (rc_hardEvidence configuration) = MinimumExact \<and> te_accuracy estimate \<noteq> ExactAccuracy)
        ''ESTIMATOR_ACCURACY_INSUFFICIENT'' @
      (case ct_contextTokens (rk_catalog candidate) of
         None \<Rightarrow> [''CONTEXT_LIMIT_UNKNOWN'']
       | Some catalogContext \<Rightarrow> codeIf (te_contextContributionTokens estimate > md_contextWindowTokens model \<or>
           te_contextContributionTokens estimate > catalogContext) ''CONTEXT_LIMIT_EXCEEDED'') @
      (case ct_maximumOutputTokens (rk_catalog candidate) of
         None \<Rightarrow> [''OUTPUT_LIMIT_UNKNOWN'']
       | Some catalogOutput \<Rightarrow> codeIf (te_outputAllowanceTokens estimate > md_maxOutputTokens model \<or>
           te_outputAllowanceTokens estimate > catalogOutput) ''OUTPUT_LIMIT_EXCEEDED'') @
      codeIf (case tr_expectedOutputTokens (tp_effective (rr_profile request)) of None \<Rightarrow> False
        | Some expected \<Rightarrow> te_outputAllowanceTokens estimate < expected) ''OUTPUT_LIMIT_EXCEEDED'')"

definition quotaFailures :: "routing_candidate \<Rightarrow> int \<Rightarrow> router_configuration \<Rightarrow> string list" where
  "quotaFailures candidate nowMs configuration =
     (let quota = rk_quota candidate; gateway = rk_gateway candidate; known = he_requireKnownQuota (rc_hardEvidence configuration);
          requests = remainingOf (quotaDimension candidate RequestsQuota); tokens = remainingOf (quotaDimension candidate TokensQuota);
          requiredQuotaTokens = withSafetyMarginOrNull (te_totalTokens (rk_tokenEstimate candidate))
            (rm_tokenSafetyMarginBps (rc_reservation configuration)) in
      codeIf (qe_providerInstanceId quota \<noteq> gw_instanceId gateway \<or> qe_contractModelId quota \<noteq> gw_contractModelId gateway) ''QUOTA_SCOPE_MISMATCH'' @
      codeIf (\<not> isFresh nowMs (qe_observedAt quota) (Some (qe_staleAt quota)) (fr_quotaMs (rc_freshness configuration))) ''QUOTA_STALE'' @
      codeIf (qe_state quota = QuotaUnknown \<and> known) ''QUOTA_UNKNOWN'' @
      codeIf (qe_completeness quota \<noteq> CompleteEvidence \<and> known) ''QUOTA_PARTIAL'' @
      codeIf (qe_state quota = QuotaExhausted) ''QUOTA_EXHAUSTED'' @
      codeIf (requiredQuotaTokens = None) ''ARITHMETIC_BOUND_EXCEEDED'' @
      codeIf (case requests of None \<Rightarrow> False | Some n \<Rightarrow> n < 1) ''QUOTA_INSUFFICIENT'' @
      codeIf (case (tokens, requiredQuotaTokens) of (Some n, Some m) \<Rightarrow> n < m | _ \<Rightarrow> False) ''QUOTA_INSUFFICIENT'' @
      codeIf (known \<and> (requests = None \<or> tokens = None)) ''QUOTA_UNKNOWN'')"

definition capacityFailures :: "routing_candidate \<Rightarrow> int \<Rightarrow> router_configuration \<Rightarrow> string list" where
  "capacityFailures candidate nowMs configuration =
     (let capacity = rk_capacity candidate; gateway = rk_gateway candidate in
      codeIf (ca_providerInstanceId capacity \<noteq> gw_instanceId gateway \<or> ca_contractModelId capacity \<noteq> gw_contractModelId gateway)
        ''CAPACITY_SCOPE_MISMATCH'' @
      (if pd_locality (gw_descriptor gateway) \<noteq> LocalTarget then []
       else
         codeIf (\<not> isFresh nowMs (ca_observedAt capacity) (Some (ca_staleAt capacity)) (fr_capacityMs (rc_freshness configuration))) ''CAPACITY_STALE'' @
         codeIf ((ca_state capacity = CapacityUnknown \<or> ca_state capacity = CapacityUnsupported \<or> ca_completeness capacity \<noteq> CompleteEvidence) \<and>
           he_requireKnownCapacityForLocal (rc_hardEvidence configuration)) ''CAPACITY_UNKNOWN'' @
         codeIf (ca_state capacity = CapacityUnavailable \<or>
           (case ca_availableConcurrency capacity of None \<Rightarrow> False | Some n \<Rightarrow> n \<le> pr_concurrency (rc_protectedReserve configuration)) \<or>
           (case (ca_availableMemoryBytes capacity, ca_requiredMemoryBytes capacity) of
              (Some available, Some required) \<Rightarrow> available - required < pr_memoryBytes (rc_protectedReserve configuration)
            | _ \<Rightarrow> False)) ''CAPACITY_INSUFFICIENT''))"

definition runtimeFailures :: "routing_request \<Rightarrow> routing_candidate \<Rightarrow> int \<Rightarrow> router_configuration \<Rightarrow> string list" where
  "runtimeFailures request candidate nowMs configuration =
     (let health = rk_health candidate; circuit = rk_circuit candidate in
      codeIf (dateParse (ph_checkedAt health) > nowMs \<or> nowMs - dateParse (ph_checkedAt health) > fr_healthMs (rc_freshness configuration))
        ''HEALTH_STALE'' @
      codeIf (ph_status health = UnavailableProvider) ''PROVIDER_UNAVAILABLE'' @
      codeIf (ph_status health = ClosedProvider) ''PROVIDER_CLOSED'' @
      quotaFailures candidate nowMs configuration @
      capacityFailures candidate nowMs configuration @
      codeIf (cb_phase circuit = OpenPhase) ''CIRCUIT_OPEN'' @
      codeIf (cb_phase circuit = HalfOpenPhase \<and> rr_halfOpenProbeCandidateId request \<noteq> Some (rk_candidateId candidate)) ''HALF_OPEN_PROBE_NOT_ADMITTED'' @
      codeIf (pd_kind (gw_descriptor (rk_gateway candidate)) = CodingAgent \<and>
        \<not> isFresh nowMs (se_verifiedAt (rk_secureExecution candidate)) None (fr_secureExecutionMs (rc_freshness configuration)))
        ''SECURE_EXECUTION_STALE'')"

definition configurationFailures :: "routing_request \<Rightarrow> routing_candidate \<Rightarrow> string list \<Rightarrow> string list" where
  "configurationFailures request candidate aliases =
     (let gateway = rk_gateway candidate; descriptor = gw_descriptor gateway in
      (case find (\<lambda>p. pf_instanceId p = gw_instanceId gateway) (cf_providers (rr_configuration request)) of
         None \<Rightarrow> [''PROVIDER_NOT_CONFIGURED'']
       | Some provider \<Rightarrow>
           codeIf (\<not> pf_enabled provider) ''PROVIDER_DISABLED'' @
           codeIf (pf_providerId provider \<noteq> pd_providerId descriptor \<or> pf_kind provider \<noteq> pd_kind descriptor \<or>
             pf_locality provider \<noteq> pd_locality descriptor) ''CONFIGURATION_IDENTITY_MISMATCH'') @
      codeIf (gw_userPreference gateway = UserDisabled) ''USER_DISABLED'' @
      codeIf (length aliases = 0) ''ALIAS_NOT_CONFIGURED'' @
      codeIf (case rr_explicitAlias request of None \<Rightarrow> False | Some a \<Rightarrow> a \<notin> set aliases \<and> \<not> rr_allowFallbacks request) ''EXPLICIT_ALIAS_MISMATCH'' @
      codeIf (ad_profileId (gw_adapter gateway) \<noteq> ct_adapterProfileId (rk_catalog candidate)) ''ADAPTER_PROFILE_MISMATCH'' @
      codeIf (rr_surface request = ThinkerInference \<and> pd_kind descriptor \<noteq> Inference) ''WRONG_PROVIDER_KIND'' @
      codeIf (rr_surface request = TaskExecution \<and> pd_kind descriptor = CodingAgent \<and>
        tr_kind (tp_effective (rr_profile request)) \<notin> {Implement, Refactor, Debug, Review, TestKind}) ''WRONG_PROVIDER_KIND'' @
      codeIf (pd_kind descriptor = CodingAgent \<and> se_level (rk_secureExecution candidate) \<noteq> SecureEnforcing) ''SECURE_EXECUTION_REQUIRED'')"

section \<open>Cost and budget\<close>

text \<open>
  The sums of an admission check that fail do so for the currencies or for an overflow; the error of the first that fails says
  which, and the router treats only the second as a rejection of the candidate. \<open>InvariantViolation\<close> stands for both messages,
  so the model looks at the sums: \<open>mixedChain acc us\<close> holds when the first addition to \<open>acc\<close> that fails has two currencies.
\<close>

fun mixedChain :: "usage_amounts \<Rightarrow> usage_amounts list \<Rightarrow> bool" where
  "mixedChain acc [] \<longleftrightarrow> False"
| "mixedChain acc (u # us) \<longleftrightarrow> (case addUsageAmounts acc u of
       Inr next \<Rightarrow> mixedChain next us
     | Inl _ \<Rightarrow> (case (ua_cost acc, ua_cost u) of (Some c, Some d) \<Rightarrow> m_currency c \<noteq> m_currency d | _ \<Rightarrow> False))"

definition mixedCurrencies :: "account \<Rightarrow> usage_amounts \<Rightarrow> bool" where
  "mixedCurrencies account estimate \<longleftrightarrow> (case reservedTotals account of
       Inl _ \<Rightarrow> mixedChain ZERO_USAGE (heldUsages account)
     | Inr reserved \<Rightarrow> (case committedTotals account of
         Inl _ \<Rightarrow> mixedChain ZERO_USAGE (committedUsages account)
       | Inr committed \<Rightarrow> mixedChain reserved [committed, estimate]))"

fun isArithmeticBoundaryError :: "bool \<Rightarrow> router_error \<Rightarrow> bool" where
  "isArithmeticBoundaryError mixed (RouterError code) \<longleftrightarrow> code = ARITHMETIC_OVERFLOW"
| "isArithmeticBoundaryError mixed (RouterDomain InvariantViolation) \<longleftrightarrow> \<not> mixed"
| "isArithmeticBoundaryError mixed (RouterDomain (Validation code)) \<longleftrightarrow> code = ''bad_integer''"
| "isArithmeticBoundaryError mixed _ \<longleftrightarrow> False"

definition planFor :: "codec \<Rightarrow> routing_request \<Rightarrow> routing_candidate \<Rightarrow> router_configuration \<Rightarrow> string \<Rightarrow> router_error + reservation_plan" where
  "planFor cd request candidate configuration nowIso =
     bindE (liftR (digest cd (plainObj [(''request'', JStr (rr_requestId request)), (''candidate'', JStr (rk_candidateId candidate))]))) (\<lambda>d.
     planBudgetReservation cd configuration
       \<lparr>pi_account = accountVal (rr_budgetAccount request), pi_reservationId = JStr (''route-'' @ take 48 d), pi_requestedAt = JStr nowIso,
        pi_tokenEstimate = tokenEstimateVal (rk_tokenEstimate candidate), pi_costEstimate = costEstimateVal (rk_costEstimate candidate),
        pi_expectedDurationMs = jsInt (rr_expectedDurationMs request)\<rparr>)"

text \<open>The plan, or nothing and the code of the rejection; other errors are thrown.\<close>

definition planOrCode :: "codec \<Rightarrow> routing_request \<Rightarrow> routing_candidate \<Rightarrow> router_configuration \<Rightarrow> string \<Rightarrow>
    router_error + (reservation_plan option \<times> string list)" where
  "planOrCode cd request candidate configuration nowIso =
     (case planFor cd request candidate configuration nowIso of
        Inr plan \<Rightarrow> Inr (Some plan, [])
      | Inl e \<Rightarrow>
          let mixed = (case quotedEstimate (rc_reservation configuration) (rk_tokenEstimate candidate) (ce_cost (rk_costEstimate candidate))
                (rr_expectedDurationMs request) of Inl _ \<Rightarrow> False | Inr estimate \<Rightarrow> mixedCurrencies (rr_budgetAccount request) estimate) in
          if isArithmeticBoundaryError mixed e then Inr (None, [''ARITHMETIC_BOUND_EXCEEDED'']) else Inl e)"

definition costTokens :: "token_estimate \<Rightarrow> token_usage" where
  "costTokens t = (let cached = (case te_cachedInputTokens t of None \<Rightarrow> 0 | Some c \<Rightarrow> c) in
     \<lparr>tu_inputTokens = te_inputTokens t - cached, tu_outputTokens = te_outputAllowanceTokens t, tu_cachedInputTokens = cached,
      tu_reasoningTokens = te_reasoningAllowanceTokens t\<rparr>)"

definition costCodes :: "routing_candidate \<Rightarrow> router_error + string list" where
  "costCodes candidate =
     (let model = mo_model (gw_model (rk_gateway candidate)) in
      case ce_cost (rk_costEstimate candidate) of
        UnknownCost \<Rightarrow> Inr []
      | KnownCost currency amount \<Rightarrow>
          if md_cost model = None \<or> \<not> pc_pricingAvailable (pd_capabilities (gw_descriptor (rk_gateway candidate))) then Inr [''COST_EVIDENCE_MISMATCH'']
          else
            (case liftR (estimateModelCost (jsonVal (modelCapabilitiesJson model)) (tokenUsageVal (costTokens (rk_tokenEstimate candidate)))) of
               Inr estimated \<Rightarrow> Inr (codeIf (m_currency estimated \<noteq> currency \<or> m_amountMicros estimated \<noteq> amount) ''COST_EVIDENCE_MISMATCH'')
             | Inl e \<Rightarrow> if isArithmeticBoundaryError False e then Inr [''ARITHMETIC_BOUND_EXCEEDED''] else Inl e))"

definition planCodes :: "reservation_plan option \<Rightarrow> string list" where
  "planCodes reservation = (case reservation of
       None \<Rightarrow> []
     | Some p \<Rightarrow> codeIf (rp_code p = COST_UNKNOWN) ''COST_UNKNOWN'' @ codeIf (rp_code p = CURRENCY_MISMATCH) ''CURRENCY_MISMATCH'' @
         codeIf (rp_code p = BUDGET_EXCEEDED) ''BUDGET_INSUFFICIENT'')"

section \<open>Confidence\<close>

record route_confidence =
  rf_score :: int
  rf_completeness :: evidence_completeness
  rf_reasonCodes :: "string list"

definition confidenceDeductions :: "routing_candidate \<Rightarrow> (int \<times> string) list" where
  "confidenceDeductions candidate =
     (if ph_status (rk_health candidate) = DegradedProvider then [(100, ''degraded-health'')] else []) @
     (if qe_completeness (rk_quota candidate) \<noteq> CompleteEvidence then [(200, ''partial-quota'')] else []) @
     (if ca_completeness (rk_capacity candidate) \<noteq> CompleteEvidence then [(100, ''partial-capacity'')] else []) @
     (if ce_cost (rk_costEstimate candidate) = UnknownCost then [(100, ''unknown-cost'')] else []) @
     (if te_accuracy (rk_tokenEstimate candidate) = ProvenUpperBound then [(50, ''conservative-token-bound'')] else [])"

definition confidenceOf :: "task_profile \<Rightarrow> routing_candidate \<Rightarrow> route_confidence" where
  "confidenceOf profile candidate =
     (let deductions = confidenceDeductions candidate;
          confidenceScore = max 0 (tp_confidenceScore profile - sum_list (map fst deductions));
          confidenceReasons = tp_confidenceReasons profile @ map snd deductions in
      \<lparr>rf_score = confidenceScore,
       rf_completeness = (if confidenceScore = 0 then UnknownEvidence else if length confidenceReasons = 0 then CompleteEvidence else PartialEvidence),
       rf_reasonCodes = sortTexts id confidenceReasons\<rparr>)"

section \<open>The evaluation\<close>

record candidate_evaluation =
  el_candidate :: routing_candidate
  el_aliases :: "string list"
  el_selectedAlias :: "string option"
  el_explicitlyPinned :: bool
  el_codes :: "string list"
  el_reservation :: "reservation_plan option"
  el_confidence :: route_confidence
  el_validUntil :: string

definition validUntilOf :: "routing_request \<Rightarrow> routing_candidate \<Rightarrow> router_configuration \<Rightarrow> domain_error + string" where
  "validUntilOf request candidate configuration =
     (let catalog = rk_catalog candidate; descriptor = gw_descriptor (rk_gateway candidate); freshness = rc_freshness configuration;
          quota = rk_quota candidate; capacity = rk_capacity candidate in
      bindE (instantAfter (ct_generatedAt catalog) (fr_catalogMs freshness)) (\<lambda>catalogUntil.
      bindE (instantAfter (ph_checkedAt (rk_health candidate)) (fr_healthMs freshness)) (\<lambda>healthUntil.
      bindE (evidenceStaleAt (qe_observedAt quota) (qe_staleAt quota) (fr_quotaMs freshness)) (\<lambda>quotaUntil.
      bindE (if pd_locality descriptor = LocalTarget
        then bindE (evidenceStaleAt (ca_observedAt capacity) (ca_staleAt capacity) (fr_capacityMs freshness)) (\<lambda>t. Inr (Some t))
        else Inr None) (\<lambda>capacityUntil.
      bindE (if pd_kind descriptor = CodingAgent
        then bindE (instantAfter (se_verifiedAt (rk_secureExecution candidate)) (fr_secureExecutionMs freshness)) (\<lambda>t. Inr (Some t))
        else Inr None) (\<lambda>secureUntil.
      Inr (earliestInstant (ct_providerRefreshAfter catalog)
        [Some (ct_modelRefreshAfter catalog), Some catalogUntil, Some healthUntil, Some quotaUntil, capacityUntil, secureUntil,
         rr_deadline request])))))))"

definition latencyCodes :: "routing_request \<Rightarrow> routing_candidate \<Rightarrow> int \<Rightarrow> string list" where
  "latencyCodes request candidate nowMs =
     codeIf (case rr_requiredMaximumLatencyMs request of None \<Rightarrow> False
       | Some bound \<Rightarrow> (case rk_expectedLatencyMs candidate of None \<Rightarrow> True | Some latency \<Rightarrow> latency > bound)) ''LATENCY_INCOMPATIBLE'' @
     codeIf (case rr_deadline request of None \<Rightarrow> False
       | Some deadline \<Rightarrow> (case rk_expectedLatencyMs candidate of None \<Rightarrow> True | Some latency \<Rightarrow> nowMs + latency > dateParse deadline))
       ''DEADLINE_INCOMPATIBLE''"

text \<open>The codes of every check that does not throw.\<close>

definition evidenceCodes :: "routing_request \<Rightarrow> routing_candidate \<Rightarrow> router_configuration \<Rightarrow> int \<Rightarrow> string list" where
  "evidenceCodes request candidate configuration nowMs =
     configurationFailures request candidate (aliasesForCandidate request candidate) @
     (case find (\<lambda>p. dp_classification p = tr_dataClassification (tp_effective (rr_profile request)))
         (cf_handlingPolicies (rr_configuration request)) of
        None \<Rightarrow> [''POLICY_DENIED'']
      | Some handling \<Rightarrow> policyFailures request candidate handling) @
     catalogFailures request candidate nowMs configuration @
     codeIf (mo_availability (gw_model (rk_gateway candidate)) = UnavailableModel) ''MODEL_UNAVAILABLE'' @
     providerCapabilityFailures request candidate @
     contextFailures request candidate configuration @
     runtimeFailures request candidate nowMs configuration @
     codeIf (pd_kind (gw_descriptor (rk_gateway candidate)) = CodingAgent \<and> se_level (rk_secureExecution candidate) \<noteq> SecureEnforcing)
       ''SECURE_EXECUTION_REQUIRED'' @
     latencyCodes request candidate nowMs"

definition evaluateCandidate :: "codec \<Rightarrow> routing_request \<Rightarrow> routing_candidate \<Rightarrow> router_configuration \<Rightarrow> string \<Rightarrow> router_error + candidate_evaluation" where
  "evaluateCandidate cd request candidate configuration nowIso =
     (let aliases = aliasesForCandidate request candidate in
      bindE (planOrCode cd request candidate configuration nowIso) (\<lambda>(reservation, boundCodes).
      bindE (costCodes candidate) (\<lambda>mismatchCodes.
      let confidence = confidenceOf (rr_profile request) candidate in
      bindE (liftR (validUntilOf request candidate configuration)) (\<lambda>validUntil.
      Inr \<lparr>el_candidate = candidate, el_aliases = aliases, el_selectedAlias = selectedAliasFor request aliases,
           el_explicitlyPinned = (case rr_explicitAlias request of None \<Rightarrow> False | Some a \<Rightarrow> a \<in> set aliases),
           el_codes = sortTexts id (evidenceCodes request candidate configuration (dateParse nowIso) @ boundCodes @ mismatchCodes @
             planCodes reservation @ codeIf (rf_score confidence < rc_confidenceMinimum configuration) ''CONFIDENCE_BELOW_MINIMUM''),
           el_reservation = reservation, el_confidence = confidence, el_validUntil = validUntil\<rparr>))))"

end
