(* ===== verification/Router_Route.thy ===== *)
theory Router_Route
  imports Router_Evaluate
begin

text \<open>
  \<open>packages/router/src/router.ts\<close>, second part: the score of a feasible candidate, the order of the feasible candidates, and
  the decision for a parsed request. The constant fields of a decision that say it grants no authority are left out, and the
  last validation of the decision (\<open>parseRouteDecision\<close>) is not modelled.
\<close>

section \<open>Scores\<close>

record score_component =
  sk_term :: score_term
  sk_value :: int
  sk_weight :: int
  sk_weightedValue :: int
  sk_evidenceCode :: string

record scored_candidate =
  sd_evaluation :: candidate_evaluation
  sd_reservation :: reservation_plan
  sd_components :: "score_component list"
  sd_totalScore :: int

text \<open>Division of \<open>bigint\<close>s truncates towards zero; the divisors are positive.\<close>

definition truncateDivide :: "int \<Rightarrow> int \<Rightarrow> int" where
  "truncateDivide a b = (if a \<ge> 0 then a div b else - ((- a) div b))"

definition clampScore :: "int \<Rightarrow> int" where
  "clampScore value = max (-1000) (min 1000 value)"

definition ratioScore :: "int \<Rightarrow> int \<Rightarrow> router_error + int" where
  "ratioScore numerator denominator =
     (if denominator \<le> 0 then Inr (-1000)
      else bindE (checkedNumber (truncateDivide (numerator * 2000) denominator - 1000)) (\<lambda>scaled. Inr (clampScore scaled)))"

text \<open>A parsed configuration has a weight for every term.\<close>

definition weightOf :: "router_configuration \<Rightarrow> score_term \<Rightarrow> int" where
  "weightOf configuration t = (case map_of (rc_scoreWeights configuration) t of None \<Rightarrow> 0 | Some w \<Rightarrow> w)"

definition scoreTerm :: "router_configuration \<Rightarrow> score_term \<Rightarrow> int \<Rightarrow> string \<Rightarrow> router_error + score_component" where
  "scoreTerm configuration t value evidenceCode =
     (let bounded = clampScore value; weight = weightOf configuration t in
      bindE (checkedNumber (bounded * weight)) (\<lambda>weighted.
      Inr \<lparr>sk_term = t, sk_value = bounded, sk_weight = weight, sk_weightedValue = weighted, sk_evidenceCode = evidenceCode\<rparr>))"

fun indexOf :: "'a \<Rightarrow> 'a list \<Rightarrow> nat option" where
  "indexOf x [] = None"
| "indexOf x (y # ys) = (if y = x then Some 0 else map_option Suc (indexOf x ys))"

definition aliasPriorityValue :: "routing_request \<Rightarrow> string option \<Rightarrow> int" where
  "aliasPriorityValue request selectedAlias =
     (case selectedAlias of None \<Rightarrow> -1000
      | Some a \<Rightarrow> (case indexOf a (orderedAliases request) of None \<Rightarrow> 0 | Some index \<Rightarrow> max (-1000) (1000 - int index * 250)))"

definition preferenceValue :: "int \<Rightarrow> int \<Rightarrow> router_error + int" where
  "preferenceValue value priority = checkedNumber (truncateDivide (value * priority) 50)"

definition capabilityMargin :: "routing_request \<Rightarrow> routing_candidate \<Rightarrow> int" where
  "capabilityMargin request candidate =
     (let model = mo_model (gw_model (rk_gateway candidate)); effective = tp_effective (rr_profile request);
          codingMinimum = (if CodeEdit \<in> set (tr_capabilities effective) then tr_complexity effective else 1) in
      min (md_reasoningCapability model - REASONING_RATINGS (tr_reasoning effective)) (md_codingCapability model - codingMinimum))"

text \<open>The floor of a quotient of doubles; it differs from the exact one only where the score is already at its minimum.\<close>

definition costValue :: "routing_candidate \<Rightarrow> int" where
  "costValue candidate = (case ce_cost (rk_costEstimate candidate) of
     UnknownCost \<Rightarrow> -1000 | KnownCost _ amount \<Rightarrow> max (-1000) (1000 - amount div 1000))"

definition latencyValue :: "routing_candidate \<Rightarrow> int" where
  "latencyValue candidate = (case rk_expectedLatencyMs candidate of None \<Rightarrow> -1000 | Some latency \<Rightarrow> max (-1000) (1000 - latency div 10))"

definition localityValue :: "routing_request \<Rightarrow> bool \<Rightarrow> int" where
  "localityValue request isLocal =
     (let configuration = rr_configuration request in
      if cf_preferredLocality configuration = BalancedLocality then
        (if cf_preferLocal configuration then (if isLocal then 1000 else 0) else 0)
      else if (cf_preferredLocality configuration = PreferLocalModels) = isLocal then 1000 else -1000)"

definition quotaValue :: "routing_candidate \<Rightarrow> router_error + int" where
  "quotaValue candidate = (case quotaDimension candidate TokensQuota of
     None \<Rightarrow> Inr (-1000)
   | Some d \<Rightarrow> (case (qd_remaining d, qd_limit d) of (Some remaining, Some limit) \<Rightarrow> ratioScore remaining limit | _ \<Rightarrow> Inr (-1000)))"

definition reserveValue :: "routing_candidate \<Rightarrow> router_configuration \<Rightarrow> int" where
  "reserveValue candidate configuration =
     (let required = withSafetyMarginOrNull (te_totalTokens (rk_tokenEstimate candidate)) (rm_tokenSafetyMarginBps (rc_reservation configuration)) in
      case (remainingOf (quotaDimension candidate TokensQuota), required, remainingOf (quotaDimension candidate RequestsQuota)) of
        (Some tokens, Some needed, Some requests) \<Rightarrow>
          if tokens - needed \<ge> pr_tokens (rc_protectedReserve configuration) \<and> requests - 1 \<ge> pr_requests (rc_protectedReserve configuration)
          then 1000 else -1000
      | _ \<Rightarrow> -1000)"

definition capacityValue :: "routing_candidate \<Rightarrow> bool \<Rightarrow> router_error + int" where
  "capacityValue candidate isLocal =
     (if \<not> isLocal then Inr 0
      else case (ca_availableMemoryBytes (rk_capacity candidate), ca_requiredMemoryBytes (rk_capacity candidate)) of
        (Some available, Some required) \<Rightarrow> ratioScore (max 0 (available - required)) (max 1 available)
      | _ \<Rightarrow> Inr (-1000))"

definition contextValue :: "routing_candidate \<Rightarrow> router_error + int" where
  "contextValue candidate =
     (let window = md_contextWindowTokens (mo_model (gw_model (rk_gateway candidate)));
          contextLimit = min window (case ct_contextTokens (rk_catalog candidate) of None \<Rightarrow> window | Some n \<Rightarrow> n) in
      ratioScore (max 0 (contextLimit - te_contextContributionTokens (rk_tokenEstimate candidate))) contextLimit)"

definition qualityValue :: "routing_candidate \<Rightarrow> int" where
  "qualityValue candidate = (let model = mo_model (gw_model (rk_gateway candidate)) in
     min 1000 ((md_reasoningCapability model + md_codingCapability model - 2) * 125))"

definition resetFresh :: "routing_candidate \<Rightarrow> router_configuration \<Rightarrow> string \<Rightarrow> bool" where
  "resetFresh candidate configuration nowIso \<longleftrightarrow> (let quota = rk_quota candidate in
     qe_resetsAt quota \<noteq> None \<and>
     isFresh (dateParse nowIso) (qe_observedAt quota) (Some (qe_staleAt quota)) (fr_quotaMs (rc_freshness configuration)))"

text \<open>The value of every term with the code of its evidence, in the order of the components.\<close>

definition scoreValues :: "routing_request \<Rightarrow> candidate_evaluation \<Rightarrow> router_configuration \<Rightarrow> string \<Rightarrow>
    router_error + (score_term \<times> int \<times> string) list" where
  "scoreValues request evaluation configuration nowIso =
     (let candidate = el_candidate evaluation; isLocal = (pd_locality (gw_descriptor (rk_gateway candidate)) = LocalTarget);
          application = rr_configuration request in
      bindE (quotaValue candidate) (\<lambda>quota.
      bindE (capacityValue candidate isLocal) (\<lambda>capacity.
      bindE (contextValue candidate) (\<lambda>context'.
      bindE (preferenceValue (costValue candidate) (cf_costPriority application)) (\<lambda>cost.
      bindE (preferenceValue (latencyValue candidate) (cf_latencyPriority application)) (\<lambda>latency.
      Inr [(CapabilityMargin, capabilityMargin request candidate * 250, ''declared-capability-margin''),
           (QualityEvidence, qualityValue candidate, ''descriptor-ratings''),
           (CostEfficiency, cost, if ce_cost (rk_costEstimate candidate) = UnknownCost then ''unknown-cost'' else ''exact-cost''),
           (LatencyMargin, latency, if rk_expectedLatencyMs candidate = None then ''unknown-latency'' else ''declared-latency''),
           (LocalityPreference, localityValue request isLocal, ''configured-locality''),
           (AliasPriority, aliasPriorityValue request (el_selectedAlias evaluation), ''configured-alias-order''),
           (VerifiedFree, if ct_freeTierState (rk_catalog candidate) = FreeVerified then 1000 else -500, ''catalog-free-evidence''),
           (QuotaHeadroom, quota, if resetFresh candidate configuration nowIso then ''fresh-quota-with-reset'' else ''fresh-quota-without-reset''),
           (ProtectedReserve, reserveValue candidate configuration, ''protected-request-token-reserve''),
           (CapacityHeadroom, capacity, ''capacity-snapshot''),
           (HealthReliability, if ph_status (rk_health candidate) = ReadyProvider then 1000 else 0, ''health-snapshot''),
           (ContextHeadroom, context', ''proven-context-headroom''),
           (EvidenceConfidence, rf_score (el_confidence evaluation) * 2 - 1000, ''evidence-completeness'')]))))))"

definition scoreCandidate :: "routing_request \<Rightarrow> candidate_evaluation \<Rightarrow> router_configuration \<Rightarrow> string \<Rightarrow> router_error + scored_candidate" where
  "scoreCandidate request evaluation configuration nowIso =
     (case el_reservation evaluation of
        None \<Rightarrow> Inl (RouterError BUDGET_PLAN_FAILED)
      | Some reservation \<Rightarrow>
          bindE (scoreValues request evaluation configuration nowIso) (\<lambda>values.
          bindE (mapE (\<lambda>(t, value, code). scoreTerm configuration t value code) values) (\<lambda>components.
          bindE (checkedNumber (sum_list (map sk_weightedValue components))) (\<lambda>totalScore.
          Inr \<lparr>sd_evaluation = evaluation, sd_reservation = reservation, sd_components = components, sd_totalScore = totalScore\<rparr>))))"

section \<open>The order of the feasible candidates\<close>

definition pinnedOf :: "scored_candidate \<Rightarrow> bool" where
  "pinnedOf s = el_explicitlyPinned (sd_evaluation s)"

definition fingerprintOf :: "scored_candidate \<Rightarrow> string" where
  "fingerprintOf s = rk_fingerprint (el_candidate (sd_evaluation s))"

definition compareScored :: "routing_request \<Rightarrow> scored_candidate \<Rightarrow> scored_candidate \<Rightarrow> int" where
  "compareScored request left right =
     (if rr_explicitAlias request \<noteq> None \<and> pinnedOf left \<noteq> pinnedOf right then (if pinnedOf left then -1 else 1)
      else if sd_totalScore right - sd_totalScore left \<noteq> 0 then sd_totalScore right - sd_totalScore left
      else compareText (fingerprintOf left) (fingerprintOf right))"

definition orderFeasible :: "routing_request \<Rightarrow> scored_candidate list \<Rightarrow> scored_candidate list" where
  "orderFeasible request values = sortBy (\<lambda>left right. compareScored request left right \<le> 0) values"

section \<open>Decisions\<close>

record route_choice =
  ch_rank :: int
  ch_candidateId :: string
  ch_candidateFingerprint :: string
  ch_providerInstanceId :: string
  ch_providerKind :: provider_kind
  ch_contractModelId :: string
  ch_selectedAlias :: "string option"
  ch_catalogProviderFingerprint :: string
  ch_catalogModelFingerprint :: string
  ch_gatewayFingerprint :: string
  ch_tokenEstimate :: token_estimate
  ch_costEstimate :: routing_cost_estimate
  ch_planFingerprint :: string
  ch_quoteFingerprint :: string
  ch_estimate :: usage_amounts
  ch_scoreComponents :: "score_component list"
  ch_totalScore :: int
  ch_confidence :: int
  ch_lowerRankReason :: "string option"

record route_rejection =
  rj_candidateId :: string
  rj_candidateFingerprint :: string
  rj_codes :: "string list"

record route_restrictions =
  rt_classification :: data_classification
  rt_requiredLocality :: required_locality
  rt_approvalRequired :: bool
  rt_redactionsRequired :: "redaction_kind list"
  rt_logRetentionAllowed :: bool
  rt_artifactPersistenceAllowed :: bool
  rt_inputLoggingAllowed :: bool
  rt_outputLoggingAllowed :: bool
  rt_retentionAllowed :: bool

record route_decision =
  rd_decidedAt :: string
  rd_requestFingerprint :: string
  rd_profileFingerprint :: string
  rd_applicationConfigurationFingerprint :: string
  rd_routerConfigurationFingerprint :: string
  rd_budgetAccountFingerprint :: string
  rd_evidenceFingerprints :: "string list"
  rd_primary :: "route_choice option"
  rd_fallbacks :: "route_choice list"
  rd_feasible :: "route_choice list"
  rd_rejections :: "route_rejection list"
  rd_confidence :: route_confidence
  rd_validUntil :: string
  rd_restrictions :: route_restrictions

definition choiceFrom :: "scored_candidate \<Rightarrow> int \<Rightarrow> string option \<Rightarrow> route_choice" where
  "choiceFrom scored rank lowerRankReason =
     (let candidate = el_candidate (sd_evaluation scored); gateway = rk_gateway candidate; reservation = sd_reservation scored in
      \<lparr>ch_rank = rank, ch_candidateId = rk_candidateId candidate, ch_candidateFingerprint = rk_fingerprint candidate,
       ch_providerInstanceId = gw_instanceId gateway, ch_providerKind = pd_kind (gw_descriptor gateway),
       ch_contractModelId = gw_contractModelId gateway, ch_selectedAlias = el_selectedAlias (sd_evaluation scored),
       ch_catalogProviderFingerprint = ct_providerFingerprint (rk_catalog candidate),
       ch_catalogModelFingerprint = ct_modelFingerprint (rk_catalog candidate), ch_gatewayFingerprint = gw_snapshotFingerprint gateway,
       ch_tokenEstimate = rk_tokenEstimate candidate, ch_costEstimate = rk_costEstimate candidate,
       ch_planFingerprint = rp_fingerprint reservation, ch_quoteFingerprint = rq_fingerprint (rp_quote reservation),
       ch_estimate = rq_estimate (rp_quote reservation), ch_scoreComponents = sd_components scored, ch_totalScore = sd_totalScore scored,
       ch_confidence = rf_score (el_confidence (sd_evaluation scored)), ch_lowerRankReason = lowerRankReason\<rparr>)"

definition choicesFrom :: "routing_request \<Rightarrow> scored_candidate list \<Rightarrow> route_choice list" where
  "choicesFrom request ordered =
     (let reason = (if rr_explicitAlias request \<noteq> None \<and> (case ordered of [] \<Rightarrow> False | s # _ \<Rightarrow> pinnedOf s)
        then ''explicit-pin-precedence'' else ''lower-deterministic-score'') in
      map (\<lambda>(i, s). choiceFrom s (int i + 1) (if i = 0 then None else Some reason)) (enumerate 0 ordered))"

definition rejectionsFrom :: "candidate_evaluation list \<Rightarrow> route_rejection list" where
  "rejectionsFrom rejected =
     map snd (sortKeys (map (\<lambda>e. (rk_fingerprint (el_candidate e),
       \<lparr>rj_candidateId = rk_candidateId (el_candidate e), rj_candidateFingerprint = rk_fingerprint (el_candidate e), rj_codes = el_codes e\<rparr>)) rejected))"

definition candidateFingerprints :: "routing_candidate \<Rightarrow> string list" where
  "candidateFingerprints c =
     [rk_fingerprint c, gw_snapshotFingerprint (rk_gateway c), ct_catalogFingerprint (rk_catalog c), ct_providerFingerprint (rk_catalog c),
      ct_modelFingerprint (rk_catalog c), pe_decisionFingerprint (rk_policy c), pe_fingerprint (rk_policy c), rk_healthFingerprint c,
      qe_sourceFingerprint (rk_quota c)] @ (case qe_correctionFingerprint (rk_quota c) of None \<Rightarrow> [] | Some f \<Rightarrow> [f]) @
     [qe_fingerprint (rk_quota c), ca_sourceFingerprint (rk_capacity c), ca_fingerprint (rk_capacity c), te_fingerprint (rk_tokenEstimate c),
      ce_fingerprint (rk_costEstimate c), cb_fingerprint (rk_circuit c), se_fingerprint (rk_secureExecution c)]"

definition evidenceFingerprints :: "routing_request \<Rightarrow> string list" where
  "evidenceFingerprints request = sortTexts id (concat (map candidateFingerprints (rr_candidates request)))"

definition decisionConfidence :: "route_choice option \<Rightarrow> route_rejection list \<Rightarrow> route_confidence" where
  "decisionConfidence primary rejections = (case primary of
     None \<Rightarrow> \<lparr>rf_score = 0, rf_completeness = UnknownEvidence, rf_reasonCodes = [''no-feasible-candidates'']\<rparr>
   | Some choice \<Rightarrow>
       let reasonCodes = (if length rejections > 0 then [''excluded-infeasible-candidates''] else []) in
       \<lparr>rf_score = ch_confidence choice, rf_completeness = (if length reasonCodes = 0 then CompleteEvidence else PartialEvidence),
        rf_reasonCodes = reasonCodes\<rparr>)"

definition restrictionsOf :: "routing_request \<Rightarrow> policy_evidence option \<Rightarrow> route_restrictions" where
  "restrictionsOf request selectedPolicy =
     (let profile = rr_profile request; classification = tr_dataClassification (tp_effective profile);
          handling = find (\<lambda>p. dp_classification p = classification) (cf_handlingPolicies (rr_configuration request)) in
      \<lparr>rt_classification = classification,
       rt_requiredLocality = (if tp_requiredLocality profile = RequiresLocal \<or> (case handling of None \<Rightarrow> False | Some h \<Rightarrow> dp_localExecutionRequired h)
         then RequiresLocal else AnyLocality),
       rt_approvalRequired = (tp_approvalRequired profile \<or> (case handling of None \<Rightarrow> True | Some h \<Rightarrow> dp_humanApprovalRequired h)),
       rt_redactionsRequired = (case handling of None \<Rightarrow> [] | Some h \<Rightarrow> dp_redactionsRequired h),
       rt_logRetentionAllowed = (case handling of None \<Rightarrow> False | Some h \<Rightarrow> dp_logRetentionAllowed h),
       rt_artifactPersistenceAllowed = (case handling of None \<Rightarrow> False | Some h \<Rightarrow> dp_artifactPersistenceAllowed h),
       rt_inputLoggingAllowed = (case selectedPolicy of None \<Rightarrow> False | Some p \<Rightarrow> pe_inputLoggingAllowed p),
       rt_outputLoggingAllowed = (case selectedPolicy of None \<Rightarrow> False | Some p \<Rightarrow> pe_outputLoggingAllowed p),
       rt_retentionAllowed = (case selectedPolicy of None \<Rightarrow> False | Some p \<Rightarrow> pe_retentionAllowed p)\<rparr>)"

text \<open>An explicit alias that is not configured rejects every candidate.\<close>

definition evaluateFor :: "codec \<Rightarrow> routing_request \<Rightarrow> router_configuration \<Rightarrow> string \<Rightarrow> routing_candidate \<Rightarrow> router_error + candidate_evaluation" where
  "evaluateFor cd request configuration decidedAt candidate =
     (let explicitAliasConfigured = (case rr_explicitAlias request of None \<Rightarrow> True
        | Some a \<Rightarrow> a \<in> set (map al_alias (cf_modelAliases (rr_configuration request)))) in
      bindE (evaluateCandidate cd request candidate configuration decidedAt) (\<lambda>evaluation.
      Inr (if explicitAliasConfigured then evaluation
           else evaluation\<lparr>el_codes := sortTexts id (el_codes evaluation @ [''EXPLICIT_ALIAS_MISMATCH''])\<rparr>)))"

definition fallbacksOf :: "routing_request \<Rightarrow> router_configuration \<Rightarrow> route_choice list \<Rightarrow> route_choice list" where
  "fallbacksOf request configuration choices =
     (if choices \<noteq> [] \<and> rr_allowFallbacks request \<and> rc_fallbacksEnabled configuration \<and> rc_fallbacksMaximumCount configuration > 0
      then take (nat (rc_fallbacksMaximumCount configuration)) (drop 1 choices) else [])"

text \<open>The request and the configuration as parsed; \<open>now\<close> is the instant the clock gives.\<close>

definition routeParsed :: "codec \<Rightarrow> routing_request \<Rightarrow> router_configuration \<Rightarrow> int \<Rightarrow> router_error + route_decision" where
  "routeParsed cd request configuration now =
     (if rr_routerConfigurationFingerprint request \<noteq> rc_fingerprint configuration
      then Inl (RouterDomain (Validation ''configuration_binding_mismatch''))
      else if int (length (rr_candidates request)) > rc_maximumCandidates configuration then Inl (RouterError INVALID_REQUEST)
      else if \<not> validTime now then Inl (RouterDomain Foreign)
      else if dateParse (rr_requestedAt request) > now then Inl (RouterError INVALID_REQUEST)
      else
      let decidedAt = toISOString now in
      bindE (mapE (evaluateFor cd request configuration decidedAt) (rr_candidates request)) (\<lambda>evaluations.
      let rejected = filter (\<lambda>e. length (el_codes e) > 0) evaluations;
          feasibleEvaluations = filter (\<lambda>e. length (el_codes e) = 0) evaluations in
      bindE (mapE (\<lambda>e. scoreCandidate request e configuration decidedAt) feasibleEvaluations) (\<lambda>scored.
      let ordered = orderFeasible request scored;
          choices = choicesFrom request ordered;
          primary = (case choices of [] \<Rightarrow> None | c # _ \<Rightarrow> Some c);
          rejections = rejectionsFrom rejected in
      if int (sum_list (map (\<lambda>r. length (rj_codes r)) rejections)) > rc_maximumRejections configuration then Inl (RouterError INVALID_REQUEST)
      else
      bindE (liftR (digest cd (accountVal (rr_budgetAccount request)))) (\<lambda>accountFingerprint.
      Inr \<lparr>rd_decidedAt = decidedAt, rd_requestFingerprint = rr_fingerprint request, rd_profileFingerprint = tp_fingerprint (rr_profile request),
           rd_applicationConfigurationFingerprint = cf_fingerprint (rr_configuration request),
           rd_routerConfigurationFingerprint = rc_fingerprint configuration, rd_budgetAccountFingerprint = accountFingerprint,
           rd_evidenceFingerprints = evidenceFingerprints request, rd_primary = primary, rd_fallbacks = fallbacksOf request configuration choices,
           rd_feasible = choices, rd_rejections = rejections, rd_confidence = decisionConfidence primary rejections,
           rd_validUntil = (case ordered of [] \<Rightarrow> decidedAt | s # _ \<Rightarrow> el_validUntil (sd_evaluation s)),
           rd_restrictions = restrictionsOf request (case ordered of [] \<Rightarrow> None | s # _ \<Rightarrow> Some (rk_policy (el_candidate (sd_evaluation s))))\<rparr>))))"

section \<open>Summaries\<close>

record route_summary =
  sm_routed :: bool
  sm_primaryCandidateId :: "string option"
  sm_primaryAlias :: "string option"
  sm_fallbackCount :: nat
  sm_feasibleCount :: nat
  sm_rejectedCount :: nat
  sm_confidence :: int
  sm_validUntil :: string

definition summarizeRouteDecision :: "route_decision \<Rightarrow> route_summary" where
  "summarizeRouteDecision d =
     \<lparr>sm_routed = (rd_primary d \<noteq> None), sm_primaryCandidateId = map_option ch_candidateId (rd_primary d),
      sm_primaryAlias = Option.bind (rd_primary d) ch_selectedAlias, sm_fallbackCount = length (rd_fallbacks d),
      sm_feasibleCount = length (rd_feasible d), sm_rejectedCount = length (rd_rejections d),
      sm_confidence = rf_score (rd_confidence d), sm_validUntil = rd_validUntil d\<rparr>"

text \<open>The codes and the candidates that \<open>explainRouteDecision\<close> lists.\<close>

definition explainedRejections :: "route_decision \<Rightarrow> string list" where
  "explainedRejections d = sortTexts id (concat (map rj_codes (rd_rejections d)))"

section \<open>The router object\<close>

record router =
  ro_configuration :: router_configuration
  ro_closed :: bool

definition routeWith :: "codec \<Rightarrow> routing_request \<Rightarrow> int \<Rightarrow> (router, router_error, route_decision) action" where
  "routeWith cd request now r =
     (if ro_closed r then (Inl (RouterError ROUTER_CLOSED), r) else (routeParsed cd request (ro_configuration r) now, r))"

definition closeRouter :: "(router, router_error, unit) action" where
  "closeRouter r = (Inr (), r\<lparr>ro_closed := True\<rparr>)"

end
