(* ===== verification/Router_Budget_Props.thy ===== *)
theory Router_Budget_Props
  imports Router_Budget Account_Props Domain_Models
begin

text \<open>
  What the plans of \<open>Router_Budget\<close> promise: a quote covers the estimates with their margins, and the code of a plan says how
  the account answers the reservation.
\<close>

section \<open>Margins\<close>

text \<open>\<open>q\<close> is \<open>v\<close> with a margin of \<open>bps\<close> basis points, rounded up to a whole unit.\<close>

definition covers :: "int \<Rightarrow> int \<Rightarrow> int \<Rightarrow> bool" where
  "covers bps v q \<longleftrightarrow> v * (10000 + bps) \<le> 10000 * q \<and> 10000 * q < v * (10000 + bps) + 10000"

lemma withMargin_covers: "withMargin v bps = Inr q \<Longrightarrow> covers bps v q"
  using ceilDivide_bounds [of 10000 "v * bps"]
  by (auto simp: withMargin_def ceilRatio_def checkedNumber_def covers_def bindE_Inr_iff ceilDivide_def algebra_simps split: if_splits)

lemma withMargin_grows:
  assumes "withMargin v bps = Inr q" and "0 \<le> v" and "0 \<le> bps"
  shows "v \<le> q"
proof -
  have "v * (10000 + bps) \<le> 10000 * q" using withMargin_covers [OF assms(1)] by (simp add: covers_def)
  moreover have "0 \<le> v * bps" using assms(2,3) by simp
  ultimately show ?thesis by (simp add: distrib_left)
qed

section \<open>Quotes\<close>

lemma createTokenUsage_Inr:
  assumes "createTokenUsage [(''inputTokens'', jsInt i), (''outputTokens'', jsInt out), (''cachedInputTokens'', jsInt c), (''reasoningTokens'', jsInt r)] = Inr t"
  shows "t = \<lparr>tu_inputTokens = i, tu_outputTokens = out, tu_cachedInputTokens = c, tu_reasoningTokens = r\<rparr>"
  using assms by (auto simp: createTokenUsage_def parseTokenUsage_def bindE_Inr_iff orElse_def dest!: kept_integer)

lemma ensureNullable_money: "ensureNullable (orElse (jsNullable moneyVal m) JNull) parseMoney = Inr n \<Longrightarrow> n = m"
  by (cases m) (auto simp: orElse_def moneyVal_def parseMoney_def bindE_Inr_iff parseCurrencyCode_def ensureNullable_Inr dest!: kept_integer)

lemma created_usage:
  assumes "createUsageAmounts [(''inputTokens'', jsInt i), (''outputTokens'', jsInt out), (''cachedInputTokens'', jsInt c), (''reasoningTokens'', jsInt r)]
      (jsNullable moneyVal m) (jsInt d) = Inr u"
  shows "u = \<lparr>ua_tokens = \<lparr>tu_inputTokens = i, tu_outputTokens = out, tu_cachedInputTokens = c, tu_reasoningTokens = r\<rparr>, ua_cost = m, ua_durationMs = d\<rparr>"
    and "usageOk u"
proof -
  obtain t where t: "createTokenUsage [(''inputTokens'', jsInt i), (''outputTokens'', jsInt out), (''cachedInputTokens'', jsInt c), (''reasoningTokens'', jsInt r)] = Inr t"
    and u: "parseUsageAmounts (plainObj [(''tokens'', plainObj
           [(''inputTokens'', jsInt (tu_inputTokens t)), (''outputTokens'', jsInt (tu_outputTokens t)),
            (''cachedInputTokens'', jsInt (tu_cachedInputTokens t)), (''reasoningTokens'', jsInt (tu_reasoningTokens t))]),
        (''cost'', orElse (jsNullable moneyVal m) JNull), (''durationMs'', orElse (jsInt d) (jsInt 0))]) = Inr u"
    using assms by (auto simp: createUsageAmounts_def bindE_Inr_iff)
  note t' = createTokenUsage_Inr [OF t]
  show "u = \<lparr>ua_tokens = \<lparr>tu_inputTokens = i, tu_outputTokens = out, tu_cachedInputTokens = c, tu_reasoningTokens = r\<rparr>, ua_cost = m, ua_durationMs = d\<rparr>"
    using u unfolding parseUsageAmounts_def
    by (auto simp: bindE_Inr_iff t' parseTokenUsage_def orElse_def [of "jsInt _"] dest!: ensureNullable_money kept_integer)
  show "usageOk u" using u by (rule parseUsageAmounts_Inr)
qed

text \<open>What a quote is made of.\<close>

definition quoteCovers :: "reservation_margins \<Rightarrow> token_estimate \<Rightarrow> routing_cost \<Rightarrow> int \<Rightarrow> usage_amounts \<Rightarrow> bool" where
  "quoteCovers margins t cost duration u \<longleftrightarrow>
     covers (rm_tokenSafetyMarginBps margins) (te_inputTokens t) (tu_inputTokens (ua_tokens u)) \<and>
     covers (rm_tokenSafetyMarginBps margins) (te_outputAllowanceTokens t) (tu_outputTokens (ua_tokens u)) \<and>
     covers (rm_tokenSafetyMarginBps margins) (te_reasoningAllowanceTokens t) (tu_reasoningTokens (ua_tokens u)) \<and>
     covers (rm_tokenSafetyMarginBps margins) (case te_cachedInputTokens t of None \<Rightarrow> 0 | Some c \<Rightarrow> c) (tu_cachedInputTokens (ua_tokens u)) \<and>
     covers (rm_durationSafetyMarginBps margins) duration (ua_durationMs u) \<and>
     (case cost of UnknownCost \<Rightarrow> ua_cost u = None
      | KnownCost currency amount \<Rightarrow> \<exists>q. ua_cost u = Some \<lparr>m_currency = currency, m_amountMicros = q\<rparr> \<and> covers (rm_costSafetyMarginBps margins) amount q)"

lemma createMoney_Inr: "createMoney (JStr c) (jsInt i) = Inr m \<Longrightarrow> m = \<lparr>m_currency = c, m_amountMicros = i\<rparr>"
  by (auto simp: createMoney_def parseMoney_def bindE_Inr_iff parseCurrencyCode_def dest!: kept_integer)

lemma quotedCost_Inr: "quotedCost margins cost = Inr m \<Longrightarrow> (case cost of UnknownCost \<Rightarrow> m = None
    | KnownCost currency amount \<Rightarrow> \<exists>q. m = Some \<lparr>m_currency = currency, m_amountMicros = q\<rparr> \<and> covers (rm_costSafetyMarginBps margins) amount q)"
  by (auto simp: quotedCost_def bindE_Inr_iff dest!: createMoney_Inr withMargin_covers split: routing_cost.splits)

lemma quotedEstimate_Inr:
  assumes "quotedEstimate margins t cost duration = Inr u"
  shows "quoteCovers margins t cost duration u" and "usageOk u"
proof -
  have zero: "covers b 0 0" for b by (simp add: covers_def)
  from assms obtain m input out cached reasoning d
    where m: "quotedCost margins cost = Inr m" and "withMargin (te_inputTokens t) (rm_tokenSafetyMarginBps margins) = Inr input"
      and "withMargin (te_outputAllowanceTokens t) (rm_tokenSafetyMarginBps margins) = Inr out"
      and "(case te_cachedInputTokens t of None \<Rightarrow> Inr 0 | Some cached \<Rightarrow> withMargin cached (rm_tokenSafetyMarginBps margins)) = Inr cached"
      and "withMargin (te_reasoningAllowanceTokens t) (rm_tokenSafetyMarginBps margins) = Inr reasoning"
      and "withMargin duration (rm_durationSafetyMarginBps margins) = Inr d"
      and u: "createUsageAmounts [(''inputTokens'', jsInt input), (''outputTokens'', jsInt out), (''cachedInputTokens'', jsInt cached),
        (''reasoningTokens'', jsInt reasoning)] (jsNullable moneyVal m) (jsInt d) = Inr u"
    by (auto simp: quotedEstimate_def Let_def bindE_Inr_iff)
  then show "quoteCovers margins t cost duration u"
    using created_usage(1) [OF u] quotedCost_Inr [OF m] zero
    by (auto simp: quoteCovers_def dest: withMargin_covers split: option.splits routing_cost.splits)
  show "usageOk u" using u by (rule created_usage)
qed

section \<open>Plans\<close>

lemma planBudgetReservation_Inr:
  assumes "planBudgetReservation cd configuration input = Inr p"
  obtains s t c i at d where "parseBudgetAccountState (pi_account input) = Inr s" "parseTokenEstimate cd (pi_tokenEstimate input) = Inr t"
    "parseRoutingCostEstimate cd (pi_costEstimate input) = Inr c" "pi_reservationId input = JStr i" "SAFE_ID i"
    "pi_requestedAt input = JStr at" "timestampText at" "ensureSafeInteger (pi_expectedDurationMs input) 0 10000000000000 = Inr d"
    "quotedEstimate (rc_reservation configuration) t (ce_cost c) d = Inr (rq_estimate (rp_quote p))"
    "rp_accountVersion p = ac_version s" "rp_allowed p = (rp_code p = FIT)"
    "rp_command p = (if rp_code p = FIT then Some \<lparr>rs_reservationId = i, rs_estimate = rq_estimate (rp_quote p), rs_requestedAt = at,
       rs_expectedVersion = ac_version s\<rparr> else None)"
    "case planRefusal configuration s (ce_cost c) (ua_cost (rq_estimate (rp_quote p))) of Some code \<Rightarrow> rp_code p = code \<and> rp_decision p = None
     | None \<Rightarrow> \<exists>decision. evaluateReservation s (usageVal (rq_estimate (rp_quote p))) = Inr decision \<and> rp_decision p = Some decision \<and>
         rp_code p = (if bd_allowed decision then FIT else BUDGET_EXCEEDED)"
proof -
  from assms obtain s t c i at d u qf af code decision fp
    where parts: "parseBudgetAccountState (pi_account input) = Inr s" "parseTokenEstimate cd (pi_tokenEstimate input) = Inr t"
      "parseRoutingCostEstimate cd (pi_costEstimate input) = Inr c" "ensureString (pi_reservationId input) 1 128 SAFE_ID = Inr i"
      "ensureTimestamp (pi_requestedAt input) = Inr at" "ensureSafeInteger (pi_expectedDurationMs input) 0 10000000000000 = Inr d"
      "quotedEstimate (rc_reservation configuration) t (ce_cost c) d = Inr u"
    and code: "(case planRefusal configuration s (ce_cost c) (ua_cost u) of
         Some code \<Rightarrow> Inr (code, None)
       | None \<Rightarrow> liftR (bindE (evaluateReservation s (usageVal u)) (\<lambda>decision.
           Inr (if bd_allowed decision then FIT else BUDGET_EXCEEDED, Some decision)))) = Inr (code, decision)"
    and p: "p = \<lparr>rp_allowed = (code = FIT), rp_code = code, rp_accountVersion = ac_version s, rp_accountFingerprint = af,
        rp_quote = \<lparr>rq_estimate = u, rq_tokenEstimateFingerprint = te_fingerprint t, rq_costEstimateFingerprint = ce_fingerprint c,
          rq_marginBps = rc_reservation configuration, rq_fingerprint = qf\<rparr>, rp_decision = decision,
        rp_command = (if code = FIT then Some \<lparr>rs_reservationId = i, rs_estimate = u, rs_requestedAt = at,
             rs_expectedVersion = ac_version s\<rparr> else None), rp_fingerprint = fp\<rparr>"
    unfolding planBudgetReservation_def Let_def
    by (elim bindE_Inr_iff [THEN iffD1, elim_format] exE conjE prod.exhaust) (auto simp: bindE_Inr_iff)
  show ?thesis
    using parts code p by (intro that [of s t c i at d]) (auto simp: bindE_Inr_iff split: option.splits)
qed

text \<open>The reservation a plan is about.\<close>

definition plannedReserve :: "plan_input \<Rightarrow> reservation_plan \<Rightarrow> account_command" where
  "plannedReserve input p = Reserve (pi_reservationId input) (usageVal (rq_estimate (rp_quote p))) (pi_requestedAt input) (jsInt (rp_accountVersion p))"

lemma SAFE_ID_pattern: "SAFE_ID = ID_PATTERN"
  by (simp add: SAFE_ID_def ID_PATTERN_def)

lemma planRefusal_mismatch: "planRefusal configuration s cost quoted = Some CURRENCY_MISMATCH \<Longrightarrow>
    \<exists>money m. ab_money (ac_budget s) = Some money \<and> quoted = Some m \<and> m_currency (mb_limit money) \<noteq> m_currency m"
  by (auto simp: planRefusal_def split: option.splits if_splits)

lemma planRefusal_codes: "planRefusal configuration s cost quoted = Some code \<Longrightarrow> code = COST_UNKNOWN \<or> code = CURRENCY_MISMATCH"
  by (auto simp: planRefusal_def split: option.splits if_splits)

theorem plan_predicts_reservation:
  assumes plan: "planBudgetReservation cd configuration input = Inr p" and s: "parseBudgetAccountState (pi_account input) = Inr s" "accountInv s"
    and room: "ac_status s = OpenAccount" "length (ac_reservations s) < MAX_RESERVATIONS_PER_ACCOUNT"
    and new: "\<forall>i. pi_reservationId input = JStr i \<longrightarrow> itemOf s i = None"
  shows "case rp_code p of
      FIT \<Rightarrow> \<exists>s'. applyAccount (plannedReserve input p) s = Inr s' \<and> ac_version s' = nextVersion (ac_version s) \<and>
        usagesOf s' = heldUsages s @ [rq_estimate (rp_quote p)] @ committedUsages s
    | BUDGET_EXCEEDED \<Rightarrow> \<exists>d. rp_decision p = Some d \<and> applyAccount (plannedReserve input p) s = Inl (BudgetExceeded d)
    | CURRENCY_MISMATCH \<Rightarrow> applyAccount (plannedReserve input p) s = fail ''currency_mismatch''
    | COST_UNKNOWN \<Rightarrow> rp_command p = None"
proof -
  obtain s' t c i at d where p: "parseBudgetAccountState (pi_account input) = Inr s'" "parseTokenEstimate cd (pi_tokenEstimate input) = Inr t"
    "parseRoutingCostEstimate cd (pi_costEstimate input) = Inr c" "pi_reservationId input = JStr i" "SAFE_ID i"
    "pi_requestedAt input = JStr at" "timestampText at" "ensureSafeInteger (pi_expectedDurationMs input) 0 10000000000000 = Inr d"
    "quotedEstimate (rc_reservation configuration) t (ce_cost c) d = Inr (rq_estimate (rp_quote p))"
    "rp_accountVersion p = ac_version s'" "rp_allowed p = (rp_code p = FIT)"
    "rp_command p = (if rp_code p = FIT then Some \<lparr>rs_reservationId = i, rs_estimate = rq_estimate (rp_quote p), rs_requestedAt = at,
       rs_expectedVersion = ac_version s'\<rparr> else None)"
    and code: "case planRefusal configuration s' (ce_cost c) (ua_cost (rq_estimate (rp_quote p))) of Some code \<Rightarrow> rp_code p = code \<and> rp_decision p = None
     | None \<Rightarrow> \<exists>decision. evaluateReservation s' (usageVal (rq_estimate (rp_quote p))) = Inr decision \<and> rp_decision p = Some decision \<and>
         rp_code p = (if bd_allowed decision then FIT else BUDGET_EXCEEDED)"
    using plan by (rule planBudgetReservation_Inr)
  let ?u = "rq_estimate (rp_quote p)"
  have same: "s' = s" using p(1) s(1) by simp
  have u: "usageOk ?u" using p(9) by (rule quotedEstimate_Inr)
  have run: "applyAccount (plannedReserve input p) s = bindE (evaluateReservation s (usageVal ?u)) (\<lambda>decision.
      if \<not> bd_allowed decision then Inl (BudgetExceeded decision)
      else Inr (s\<lparr>ac_version := nextVersion (ac_version s), ac_reservations := ac_reservations s @
        [Some \<lparr>rv_id = i, rv_status = Held, rv_estimate = ?u, rv_actual = None, rv_createdAt = at, rv_settledAt = None\<rparr>]\<rparr>))"
  proof -
    have "parseReservationId (JStr i) = Inr i" using p(5) by (simp add: SAFE_ID_pattern)
    moreover have "ensureTimestamp (JStr at) = Inr at" using p(7) by simp
    moreover have "checkVersion s (jsInt (ac_version s)) = Inr ()" by (simp add: checkVersion_def requireE_def)
    moreover have "findReservation s i = Inr None" using findReservation_item [OF s(2)] new p(4) by simp
    moreover have "\<not> MAX_RESERVATIONS_PER_ACCOUNT \<le> length (ac_reservations s)" using room(2) by simp
    ultimately show ?thesis
      by (simp only: plannedReserve_def applyAccount.simps reserveBudget_def p(4,6,10) same parseUsageAmounts_val [OF u] bindE_simps
          option.simps room(1) if_False simp_thms)
  qed
  let ?s = "s\<lparr>ac_version := nextVersion (ac_version s), ac_reservations := ac_reservations s @
        [Some \<lparr>rv_id = i, rv_status = Held, rv_estimate = ?u, rv_actual = None, rv_createdAt = at, rv_settledAt = None\<rparr>]\<rparr>"
  have held: "usagesOf ?s = heldUsages s @ [?u] @ committedUsages s"
    by (simp add: usagesOf_def heldUsages_def committedUsages_def present_def)
  show ?thesis
  proof (cases "planRefusal configuration s (ce_cost c) (ua_cost ?u)")
    case None
    then obtain decision where d: "evaluateReservation s (usageVal ?u) = Inr decision" "rp_decision p = Some decision"
      "rp_code p = (if bd_allowed decision then FIT else BUDGET_EXCEEDED)"
      using code same by auto
    then show ?thesis using run held by auto
  next
    case (Some code')
    then have code': "rp_code p = code'" using code same by simp
    show ?thesis
    proof (cases "code' = CURRENCY_MISMATCH")
      case True
      then have "\<not> costFits (ac_budget s) ?u" using planRefusal_mismatch Some by (fastforce simp: costFits_def)
      then show ?thesis using run code' True by (simp add: evaluateReservation_eq [OF s(2) u])
    next
      case False
      then have "code' = COST_UNKNOWN" using planRefusal_codes Some by blast
      then show ?thesis using p(12) code' by simp
    qed
  qed
qed

end
