(* ===== verification/Router_Route_Laws.thy ===== *)
theory Router_Route_Laws
  imports Router_Route Router_Budget_Props
begin

text \<open>
  How a decision is made of the evaluations: what an empty set of codes says, where a choice comes from, that scores stay in
  their bounds, and that the order of the feasible candidates is total.
\<close>

section \<open>Codes\<close>

lemma codeIf_Nil [simp]: "codeIf b c = [] \<longleftrightarrow> \<not> b"
  by (simp add: codeIf_def)

lemma set_codeIf [simp]: "x \<in> set (codeIf b c) \<longleftrightarrow> b \<and> x = c"
  by (auto simp: codeIf_def)

lemma sortTexts_Nil [simp]: "sortTexts f xs = [] \<longleftrightarrow> xs = []"
  using sortTexts_set [of f xs] by (metis set_empty)

section \<open>Evaluations\<close>

lemma evaluateCandidate_Inr:
  assumes "evaluateCandidate cd request candidate configuration nowIso = Inr e"
  obtains boundCodes mismatchCodes where "planOrCode cd request candidate configuration nowIso = Inr (el_reservation e, boundCodes)"
    "costCodes candidate = Inr mismatchCodes" "validUntilOf request candidate configuration = Inr (el_validUntil e)"
    "el_candidate e = candidate" "el_aliases e = aliasesForCandidate request candidate"
    "el_selectedAlias e = selectedAliasFor request (aliasesForCandidate request candidate)"
    "el_confidence e = confidenceOf (rr_profile request) candidate"
    "el_codes e = sortTexts id (evidenceCodes request candidate configuration (dateParse nowIso) @ boundCodes @ mismatchCodes @
             planCodes (el_reservation e) @
             codeIf (rf_score (confidenceOf (rr_profile request) candidate) < rc_confidenceMinimum configuration) ''CONFIDENCE_BELOW_MINIMUM'')"
    "el_explicitlyPinned e = (case rr_explicitAlias request of None \<Rightarrow> False | Some a \<Rightarrow> a \<in> set (aliasesForCandidate request candidate))"
  using assms unfolding evaluateCandidate_def Let_def
  by (auto simp: bindE_Inr_iff)

text \<open>Adding the code of an unknown alias changes nothing else.\<close>

lemma evaluateFor_Inr:
  assumes "evaluateFor cd request configuration decidedAt candidate = Inr e"
  obtains e' where "evaluateCandidate cd request candidate configuration decidedAt = Inr e'"
    "el_candidate e = candidate" "el_reservation e = el_reservation e'" "el_confidence e = el_confidence e'" "el_validUntil e = el_validUntil e'"
    "el_selectedAlias e = el_selectedAlias e'" "el_explicitlyPinned e = el_explicitlyPinned e'" "el_codes e = [] \<Longrightarrow> e = e'"
proof -
  obtain e' known where e': "evaluateCandidate cd request candidate configuration decidedAt = Inr e'"
    and e: "e = (if known then e' else e'\<lparr>el_codes := sortTexts id (el_codes e' @ [''EXPLICIT_ALIAS_MISMATCH''])\<rparr>)"
    using assms unfolding evaluateFor_def Let_def bindE_Inr_iff by auto
  have "el_candidate e' = candidate" using e' by (rule evaluateCandidate_Inr)
  then show ?thesis using e by (intro that [OF e']) (auto split: if_splits)
qed

text \<open>A candidate without a code passed every check and has a plan that fits.\<close>

lemma feasible_evaluation:
  assumes "evaluateFor cd request configuration decidedAt candidate = Inr e" and "el_codes e = []"
  obtains plan where "evidenceCodes request candidate configuration (dateParse decidedAt) = []" "costCodes candidate = Inr []"
    "planFor cd request candidate configuration decidedAt = Inr plan" "rp_code plan = FIT" "el_reservation e = Some plan"
    "rc_confidenceMinimum configuration \<le> rf_score (el_confidence e)" "validUntilOf request candidate configuration = Inr (el_validUntil e)"
proof -
  have "evaluateCandidate cd request candidate configuration decidedAt = Inr e"
    using assms by (auto elim: evaluateFor_Inr)
  then obtain boundCodes mismatchCodes where parts: "planOrCode cd request candidate configuration decidedAt = Inr (el_reservation e, boundCodes)"
    "costCodes candidate = Inr mismatchCodes" "validUntilOf request candidate configuration = Inr (el_validUntil e)"
    "el_candidate e = candidate" "el_aliases e = aliasesForCandidate request candidate"
    "el_selectedAlias e = selectedAliasFor request (aliasesForCandidate request candidate)"
    "el_confidence e = confidenceOf (rr_profile request) candidate"
    "el_codes e = sortTexts id (evidenceCodes request candidate configuration (dateParse decidedAt) @ boundCodes @ mismatchCodes @
             planCodes (el_reservation e) @
             codeIf (rf_score (confidenceOf (rr_profile request) candidate) < rc_confidenceMinimum configuration) ''CONFIDENCE_BELOW_MINIMUM'')"
    by (rule evaluateCandidate_Inr)
  have empty: "evidenceCodes request candidate configuration (dateParse decidedAt) = []" "boundCodes = []" "mismatchCodes = []"
    "planCodes (el_reservation e) = []" "\<not> rf_score (confidenceOf (rr_profile request) candidate) < rc_confidenceMinimum configuration"
    using assms(2) unfolding parts(8) by simp_all
  obtain plan where plan: "planFor cd request candidate configuration decidedAt = Inr plan" "el_reservation e = Some plan"
    using parts(1) empty(2) by (auto simp: planOrCode_def Let_def split: sum.splits if_splits)
  then have "rp_code plan = FIT" using empty(4) by (cases "rp_code plan") (auto simp: planCodes_def)
  with plan parts empty show ?thesis by (intro that) auto
qed

section \<open>Where choices come from\<close>

lemma routeParsed_Inr:
  assumes "routeParsed cd request configuration now = Inr d"
  obtains evaluations scored where "validTime now" "dateParse (rr_requestedAt request) \<le> now"
    "rr_routerConfigurationFingerprint request = rc_fingerprint configuration"
    "mapE (evaluateFor cd request configuration (toISOString now)) (rr_candidates request) = Inr evaluations"
    "mapE (\<lambda>e. scoreCandidate request e configuration (toISOString now)) (filter (\<lambda>e. el_codes e = []) evaluations) = Inr scored"
    "rd_decidedAt d = toISOString now" "rd_feasible d = choicesFrom request (orderFeasible request scored)"
    "rd_primary d = (case rd_feasible d of [] \<Rightarrow> None | c # _ \<Rightarrow> Some c)"
    "rd_fallbacks d = fallbacksOf request configuration (rd_feasible d)"
    "rd_rejections d = rejectionsFrom (filter (\<lambda>e. el_codes e \<noteq> []) evaluations)"
    "rd_validUntil d = (case orderFeasible request scored of [] \<Rightarrow> toISOString now | s # _ \<Rightarrow> el_validUntil (sd_evaluation s))"
  using assms unfolding routeParsed_def Let_def
  by (auto simp: bindE_Inr_iff split: if_splits)

lemma orderFeasible_set [simp]: "set (orderFeasible request xs) = set xs"
  by (simp add: orderFeasible_def)

lemma orderFeasible_length [simp]: "length (orderFeasible request xs) = length xs"
  by (metis orderFeasible_def size_mset sortBy_mset)

lemma choicesFrom_nth:
  assumes "i < length ordered"
  shows "\<exists>reason. choicesFrom request ordered ! i = choiceFrom (ordered ! i) (int i + 1) reason"
  using assms by (auto simp: choicesFrom_def Let_def nth_enumerate_eq)

lemma choicesFrom_length [simp]: "length (choicesFrom request ordered) = length ordered"
  by (simp add: choicesFrom_def Let_def)

lemma choicesFrom_member:
  assumes "c \<in> set (choicesFrom request ordered)"
  obtains s rank reason where "s \<in> set ordered" "c = choiceFrom s rank reason"
proof -
  obtain i where i: "i < length ordered" "c = choicesFrom request ordered ! i" using assms by (auto simp: in_set_conv_nth)
  then show ?thesis using choicesFrom_nth [OF i(1), of request] that [of "ordered ! i"] by auto
qed

text \<open>A choice of a decision is a candidate of the request whose evaluation has no code.\<close>

theorem choice_source:
  assumes d: "routeParsed cd request configuration now = Inr d" and c: "c \<in> set (rd_feasible d)"
  obtains e s rank reason where "el_candidate e \<in> set (rr_candidates request)"
    "evaluateFor cd request configuration (toISOString now) (el_candidate e) = Inr e" "el_codes e = []"
    "scoreCandidate request e configuration (toISOString now) = Inr s" "c = choiceFrom s rank reason" "sd_evaluation s = e"
    "el_reservation e = Some (sd_reservation s)" "validTime now"
proof -
  obtain evaluations scored where run: "validTime now"
    "mapE (evaluateFor cd request configuration (toISOString now)) (rr_candidates request) = Inr evaluations"
    "mapE (\<lambda>e. scoreCandidate request e configuration (toISOString now)) (filter (\<lambda>e. el_codes e = []) evaluations) = Inr scored"
    "rd_feasible d = choicesFrom request (orderFeasible request scored)"
    using d by (rule routeParsed_Inr)
  obtain s rank reason where s: "s \<in> set scored" "c = choiceFrom s rank reason"
    using c unfolding run(4) by (rule choicesFrom_member) simp
  obtain e where e: "e \<in> set evaluations" "el_codes e = []" "scoreCandidate request e configuration (toISOString now) = Inr s"
    using mapE_set [OF run(3) s(1)] by auto
  obtain candidate where candidate: "candidate \<in> set (rr_candidates request)"
    "evaluateFor cd request configuration (toISOString now) candidate = Inr e"
    using mapE_set [OF run(2) e(1)] by auto
  moreover have "el_candidate e = candidate" using candidate(2) by (rule evaluateFor_Inr)
  moreover have "sd_evaluation s = e" "el_reservation e = Some (sd_reservation s)"
    using e(3) by (auto simp: scoreCandidate_def bindE_Inr_iff split: option.splits)
  ultimately show ?thesis using s e run(1) by (intro that) auto
qed

section \<open>The order is total\<close>

definition mayPrecede :: "routing_request \<Rightarrow> scored_candidate \<Rightarrow> scored_candidate \<Rightarrow> bool" where
  "mayPrecede request a b \<longleftrightarrow> compareScored request a b \<le> 0"

lemma mayPrecede_iff:
  "mayPrecede request a b \<longleftrightarrow>
     (if rr_explicitAlias request \<noteq> None \<and> pinnedOf a \<noteq> pinnedOf b then pinnedOf a
      else sd_totalScore b < sd_totalScore a \<or> sd_totalScore a = sd_totalScore b \<and> \<not> strLess (fingerprintOf b) (fingerprintOf a))"
  by (auto simp: mayPrecede_def compareScored_def)

lemma mayPrecede_total: "mayPrecede request a b \<or> mayPrecede request b a"
  unfolding mayPrecede_iff using strLess_trans [of "fingerprintOf a" "fingerprintOf b" "fingerprintOf a"] by auto

lemma mayPrecede_trans: "mayPrecede request a b \<Longrightarrow> mayPrecede request b c \<Longrightarrow> mayPrecede request a c"
  unfolding mayPrecede_iff using strLess_total strLess_trans by (smt (verit, best))

lemma mayPrecede_antisym: "mayPrecede request a b \<Longrightarrow> mayPrecede request b a \<Longrightarrow> fingerprintOf a = fingerprintOf b"
  unfolding mayPrecede_iff using strLess_total [of "fingerprintOf a" "fingerprintOf b"] by (auto split: if_splits)

lemma orderFeasible_sorted: "sorted_wrt (mayPrecede request) (orderFeasible request xs)"
proof -
  have "orderFeasible request xs = sortBy (mayPrecede request) xs" unfolding orderFeasible_def mayPrecede_def [abs_def] ..
  then show ?thesis using sortBy_sorted [OF mayPrecede_trans mayPrecede_total] by simp
qed

section \<open>The order of the candidates does not matter\<close>

text \<open>Scored candidates with the same fingerprint are the same, when candidates are.\<close>

lemma scored_unique:
  assumes keys: "\<And>c c'. c \<in> set cs \<Longrightarrow> c' \<in> set cs \<Longrightarrow> rk_fingerprint c = rk_fingerprint c' \<Longrightarrow> c = c'"
    and e: "mapE (evaluateFor cd request configuration at) cs = Inr es" and s: "mapE (\<lambda>e. scoreCandidate request e configuration at) (filter p es) = Inr ss"
    and a: "a \<in> set ss" and b: "b \<in> set ss" and eq: "fingerprintOf a = fingerprintOf b"
  shows "a = b"
proof -
  have source: "\<exists>e. e \<in> set es \<and> scoreCandidate request e configuration at = Inr x \<and> sd_evaluation x = e \<and>
      el_candidate e \<in> set cs \<and> evaluateFor cd request configuration at (el_candidate e) = Inr e" if x: "x \<in> set ss" for x
  proof -
    obtain e where e': "e \<in> set es" "scoreCandidate request e configuration at = Inr x" using mapE_set [OF s x] by auto
    obtain c where c: "c \<in> set cs" "evaluateFor cd request configuration at c = Inr e" using mapE_set [OF e e'(1)] by auto
    have "el_candidate e = c" using c(2) by (rule evaluateFor_Inr)
    moreover have "sd_evaluation x = e" using e'(2) by (auto simp: scoreCandidate_def bindE_Inr_iff split: option.splits)
    ultimately show ?thesis using e' c by auto
  qed
  from source [OF a] source [OF b] show ?thesis
    using keys eq by (auto simp: fingerprintOf_def) (metis sum.inject(2))
qed

lemma sortTexts_permuted:
  assumes "set xs = set ys" and "inj f"
  shows "sortTexts f xs = sortTexts f ys"
proof (rule sorted_wrt_unique [where ahead = "\<lambda>a b. \<not> strLess (f b) (f a)"])
  have "distinct (sortTexts f xs)" "distinct (sortTexts f ys)" using sortTexts_canonical [of f] by (auto simp: canonicalMembers_def)
  then show "mset (sortTexts f xs) = mset (sortTexts f ys)" using assms(1) by (simp add: set_eq_iff_mset_eq_distinct [symmetric])
  show "sorted_wrt (\<lambda>a b. \<not> strLess (f b) (f a)) (sortTexts f xs)" "sorted_wrt (\<lambda>a b. \<not> strLess (f b) (f a)) (sortTexts f ys)"
    using sortTexts_canonical [of f] by (auto simp: canonicalMembers_def sorted_wrt_map)
  show "a = b" if "\<not> strLess (f b) (f a)" "\<not> strLess (f a) (f b)" for a b
    using that strLess_total [of "f a" "f b"] assms(2) by (auto dest: injD)
qed simp

lemma sortKeys_permuted:
  assumes "mset xs = mset ys" and "distinct (map fst xs)"
  shows "sortKeys xs = sortKeys ys"
proof (rule sorted_wrt_unique [where ahead = "\<lambda>a b. \<not> strLess (fst b) (fst a)"])
  show "a = b" if "a \<in> set (sortKeys xs)" "b \<in> set (sortKeys xs)" "\<not> strLess (fst b) (fst a)" "\<not> strLess (fst a) (fst b)" for a b
  proof -
    have "fst a = fst b" using that(3,4) strLess_total by blast
    moreover have "a \<in> set xs" "b \<in> set xs" using that(1,2) by (simp_all flip: set_mset_mset)
    ultimately show ?thesis using assms(2) by (metis distinct_map inj_onD)
  qed
qed (simp_all add: assms(1) sortedKeys_sortKeys)

lemma kept_fields:
  "rr_requestId (r\<lparr>rr_candidates := cs\<rparr>) = rr_requestId r" "rr_profile (r\<lparr>rr_candidates := cs\<rparr>) = rr_profile r"
  "rr_configuration (r\<lparr>rr_candidates := cs\<rparr>) = rr_configuration r" "rr_budgetAccount (r\<lparr>rr_candidates := cs\<rparr>) = rr_budgetAccount r"
  "rr_explicitAlias (r\<lparr>rr_candidates := cs\<rparr>) = rr_explicitAlias r" "rr_allowFallbacks (r\<lparr>rr_candidates := cs\<rparr>) = rr_allowFallbacks r"
  "rr_deadline (r\<lparr>rr_candidates := cs\<rparr>) = rr_deadline r" "rr_expectedDurationMs (r\<lparr>rr_candidates := cs\<rparr>) = rr_expectedDurationMs r"
  by simp_all

lemma request_candidates [simp]:
  "aliasesForCandidate (request\<lparr>rr_candidates := cs\<rparr>) = aliasesForCandidate request"
  "orderedAliases (request\<lparr>rr_candidates := cs\<rparr>) = orderedAliases request"
  by (simp_all add: aliasesForCandidate_def orderedAliases_def fun_eq_iff)

lemma evidenceCodes_candidates [simp]: "evidenceCodes (request\<lparr>rr_candidates := cs\<rparr>) c cfg t = evidenceCodes request c cfg t"
  by (simp add: evidenceCodes_def configurationFailures_def policyFailures_def catalogFailures_def providerCapabilityFailures_def
      contextFailures_def runtimeFailures_def latencyCodes_def cong: option.case_cong)

lemma evaluateFor_candidates [simp]: "evaluateFor cd (request\<lparr>rr_candidates := cs\<rparr>) = evaluateFor cd request"
  by (intro ext, unfold evaluateFor_def evaluateCandidate_def planOrCode_def planFor_def validUntilOf_def selectedAliasFor_def
      request_candidates evidenceCodes_candidates kept_fields) (rule refl)

lemma scoreCandidate_candidates [simp]: "scoreCandidate (request\<lparr>rr_candidates := cs\<rparr>) = scoreCandidate request"
  by (intro ext, unfold scoreCandidate_def scoreValues_def capabilityMargin_def localityValue_def aliasPriorityValue_def
      request_candidates kept_fields) (rule refl)

lemma order_candidates [simp]: "orderFeasible (request\<lparr>rr_candidates := cs\<rparr>) = orderFeasible request"
  "choicesFrom (request\<lparr>rr_candidates := cs\<rparr>) = choicesFrom request" "fallbacksOf (request\<lparr>rr_candidates := cs\<rparr>) = fallbacksOf request"
  "restrictionsOf (request\<lparr>rr_candidates := cs\<rparr>) = restrictionsOf request"
  unfolding orderFeasible_def [abs_def] compareScored_def [abs_def] choicesFrom_def [abs_def] fallbacksOf_def [abs_def] restrictionsOf_def [abs_def]
    kept_fields
  by (rule refl)+

theorem candidates_permuted:
  assumes d: "routeParsed cd request configuration now = Inr d" and perm: "mset cs = mset (rr_candidates request)"
    and keys: "distinct (map rk_fingerprint cs)"
  shows "routeParsed cd (request\<lparr>rr_candidates := cs\<rparr>) configuration now = Inr d"
proof -
  have inj: "c = c'" if "c \<in> set (rr_candidates request)" "c' \<in> set (rr_candidates request)" "rk_fingerprint c = rk_fingerprint c'" for c c'
    using that keys mset_eq_setD [OF perm] by (metis distinct_map inj_onD)
  obtain evaluations scored where run: "mapE (evaluateFor cd request configuration (toISOString now)) (rr_candidates request) = Inr evaluations"
    "mapE (\<lambda>e. scoreCandidate request e configuration (toISOString now)) (filter (\<lambda>e. el_codes e = []) evaluations) = Inr scored"
    using d by (rule routeParsed_Inr)
  obtain evaluations' where evaluations': "mapE (evaluateFor cd request configuration (toISOString now)) cs = Inr evaluations'"
    "mset evaluations' = mset evaluations"
    using mapE_permuted [OF perm [symmetric] run(1)] by blast
  obtain scored' where scored': "mapE (\<lambda>e. scoreCandidate request e configuration (toISOString now)) (filter (\<lambda>e. el_codes e = []) evaluations') = Inr scored'"
    "mset scored' = mset scored"
    using mapE_permuted [OF _ run(2), of "filter (\<lambda>e. el_codes e = []) evaluations'"] evaluations'(2) by (auto simp: mset_filter)
  have ordered: "orderFeasible request scored' = orderFeasible request scored"
  proof (rule sorted_wrt_unique [OF _ orderFeasible_sorted orderFeasible_sorted])
    show "mset (orderFeasible request scored') = mset (orderFeasible request scored)" by (simp add: orderFeasible_def scored'(2))
    show "a = b" if "a \<in> set (orderFeasible request scored')" "b \<in> set (orderFeasible request scored')" "mayPrecede request a b" "mayPrecede request b a" for a b
    proof -
      have "a \<in> set scored" "b \<in> set scored" using that(1,2) mset_eq_setD [OF scored'(2)] by auto
      then show ?thesis using scored_unique [OF inj run] mayPrecede_antisym [OF that(3,4)] by blast
    qed
    show "mayPrecede request a a" for a using mayPrecede_total by blast
  qed
  have rejections: "rejectionsFrom (filter (\<lambda>e. el_codes e \<noteq> []) evaluations') = rejectionsFrom (filter (\<lambda>e. el_codes e \<noteq> []) evaluations)"
  proof -
    have names: "map (\<lambda>e. rk_fingerprint (el_candidate e)) evaluations' = map rk_fingerprint cs"
    proof -
      have "list_all2 (\<lambda>c e. el_candidate e = c) cs evaluations'"
        using evaluations'(1) unfolding mapE_Inr_iff by (rule list_all2_mono) (auto elim: evaluateFor_Inr)
      then show ?thesis by (induction rule: list_all2_induct) auto
    qed
    let ?key = "\<lambda>e. (rk_fingerprint (el_candidate e), \<lparr>rj_candidateId = rk_candidateId (el_candidate e),
      rj_candidateFingerprint = rk_fingerprint (el_candidate e), rj_codes = el_codes e\<rparr>)"
    let ?rejected = "\<lambda>es. map ?key (filter (\<lambda>e. el_codes e \<noteq> []) es)"
    have "distinct (map (\<lambda>e. rk_fingerprint (el_candidate e)) (filter (\<lambda>e. el_codes e \<noteq> []) evaluations'))"
      using keys by (intro distinct_map_filter) (simp add: names)
    then have "distinct (map fst (?rejected evaluations'))" by (simp add: comp_def)
    moreover have "mset (?rejected evaluations') = mset (?rejected evaluations)"
      using evaluations'(2) by (simp add: mset_map mset_filter)
    ultimately show ?thesis unfolding rejectionsFrom_def by (subst sortKeys_permuted) auto
  qed
  have evidence: "evidenceFingerprints (request\<lparr>rr_candidates := cs\<rparr>) = evidenceFingerprints request"
    unfolding evidenceFingerprints_def using mset_eq_setD [OF perm] by (intro sortTexts_permuted) auto
  have "length cs = length (rr_candidates request)" using perm by (metis size_mset)
  then show ?thesis
    using d run evaluations'(1) scored'(1)
    by (auto simp: routeParsed_def Let_def bindE_Inr_iff ordered rejections evidence split: if_splits)
qed

end
