(* ===== verification/Router_Route_Props.thy ===== *)
theory Router_Route_Props
  imports Router_Route_Laws Router_Circuit_Laws
begin

text \<open>
  What a decision of the router guarantees: the data stays protected, the evidence holds until the decision expires, scores are
  bounded and always computed, the primary is the best choice, and the budget has room for every choice.
\<close>

section \<open>Protection of the data\<close>

text \<open>The provider of a candidate as a target of disclosure in the sense of \<open>Domain_Policy\<close>.\<close>

definition disclosureTargetOf :: "provider_descriptor \<Rightarrow> disclosure_target" where
  "disclosureTargetOf d = \<lparr>dt_locality = pd_locality d, dt_retainsData = pd_retainsData d,
     dt_capabilities = (if pd_retainsData d then [DataRetention] else []) @
       (if pc_networkAccess (pd_capabilities d) then [ExternalNetworkTools] else []) @
       (if pd_trainsOnInputs d then [ModelTraining] else [])\<rparr>"

definition handlingOf :: "routing_request \<Rightarrow> data_policy option" where
  "handlingOf request = find (\<lambda>p. dp_classification p = tr_dataClassification (tp_effective (rr_profile request)))
     (cf_handlingPolicies (rr_configuration request))"

text \<open>The candidate behind a choice.\<close>

definition choiceOf :: "route_choice \<Rightarrow> routing_candidate \<Rightarrow> bool" where
  "choiceOf c candidate \<longleftrightarrow> ch_candidateId c = rk_candidateId candidate \<and> ch_candidateFingerprint c = rk_fingerprint candidate \<and>
     ch_providerInstanceId c = gw_instanceId (rk_gateway candidate) \<and> ch_contractModelId c = gw_contractModelId (rk_gateway candidate)"

lemma choiceOf_choiceFrom [simp]: "choiceOf (choiceFrom s rank reason) (el_candidate (sd_evaluation s))"
  by (simp add: choiceOf_def choiceFrom_def Let_def)

lemma feasible_codes:
  assumes "routeParsed cd request configuration now = Inr d" and "c \<in> set (rd_feasible d)"
  obtains candidate where "candidate \<in> set (rr_candidates request)" "choiceOf c candidate" "evidenceCodes request candidate configuration now = []"
proof (rule choice_source [OF assms])
  fix e s rank reason
  assume e: "el_candidate e \<in> set (rr_candidates request)" "evaluateFor cd request configuration (toISOString now) (el_candidate e) = Inr e"
    "el_codes e = []" "c = choiceFrom s rank reason" "sd_evaluation s = e" "validTime now"
  have "evidenceCodes request (el_candidate e) configuration (dateParse (toISOString now)) = []" using e(2,3) by (rule feasible_evaluation)
  then show thesis using e choiceOf_choiceFrom [of s rank reason] by (intro that [of "el_candidate e"]) simp_all
qed

lemma decide_allows: "pd_allowed (decide p t at) \<longleftrightarrow> (dt_locality t = CloudTarget \<longrightarrow> dp_cloudProvidersAllowed p) \<and>
    (dp_localExecutionRequired p \<longrightarrow> dt_locality t = LocalTarget) \<and> (dt_retainsData t \<longrightarrow> DataRetention \<notin> set (dp_disallowedCapabilities p)) \<and>
    (\<forall>c \<in> set (dt_capabilities t). c \<notin> set (dp_disallowedCapabilities p))"
  by (cases "dt_locality t") (auto simp: decide_def disclosureRules_def Let_def filter_empty_conv ball_Un)

theorem evidence_protects:
  assumes "evidenceCodes request candidate configuration now = []"
  obtains p where "handlingOf request = Some p" "pd_allowed (decide p (disclosureTargetOf (gw_descriptor (rk_gateway candidate))) at)"
    "tr_dataClassification (tp_effective (rr_profile request)) \<in> set (pd_supportedClassifications (gw_descriptor (rk_gateway candidate)))"
    "tp_requiredLocality (rr_profile request) = RequiresLocal \<or> pe_requiredLocality (rk_policy candidate) = RequiresLocal \<longrightarrow>
       pd_locality (gw_descriptor (rk_gateway candidate)) = LocalTarget"
    "pe_outcome (rk_policy candidate) = PolicyAllowed" "pe_classification (rk_policy candidate) = tr_dataClassification (tp_effective (rr_profile request))"
proof -
  have none: "(case handlingOf request of None \<Rightarrow> [''POLICY_DENIED''] | Some handling \<Rightarrow> policyFailures request candidate handling) = []"
    using assms by (simp add: evidenceCodes_def handlingOf_def)
  then obtain p where p: "handlingOf request = Some p" "policyFailures request candidate p = []" by (auto split: option.splits)
  note checks = p(2) [unfolded policyFailures_def Let_def append_is_Nil_conv codeIf_Nil]
  have allowed: "pe_outcome (rk_policy candidate) = PolicyAllowed" using checks by (cases "pe_outcome (rk_policy candidate)") auto
  show ?thesis
    by (rule that [OF p(1)]) (use checks allowed in \<open>auto simp: decide_allows disclosureTargetOf_def split: if_splits\<close>)
qed

lemma secret_is_local: "policyOk p \<Longrightarrow> dp_classification p = Secret \<Longrightarrow> dp_localExecutionRequired p"
  by (auto simp: policyOk_def checkFloors_def split: if_splits)

section \<open>Validity\<close>

lemma earliestOf_least: "x \<in> set (first # rest) \<Longrightarrow> dateParse (earliestOf first rest) \<le> dateParse x"
proof (induction rest arbitrary: first x)
  case (Cons y rest)
  let ?z = "if dateParse y < dateParse first then y else first"
  have "dateParse (earliestOf ?z rest) \<le> dateParse ?z" "x \<in> set rest \<Longrightarrow> dateParse (earliestOf ?z rest) \<le> dateParse x"
    using Cons.IH [of ?z ?z] Cons.IH [of x ?z] by auto
  then show ?case using Cons.prems by (auto split: if_splits)
qed simp

lemma isFresh_until:
  "isFresh now observed staleAt m \<Longrightarrow> now \<le> t \<Longrightarrow> t - dateParse observed \<le> m \<Longrightarrow> (\<And>s. staleAt = Some s \<Longrightarrow> t \<le> dateParse s) \<Longrightarrow>
     isFresh t observed staleAt m"
  by (auto simp: isFresh_def Let_def split: option.splits)

lemma evidenceStaleAt_Inr:
  assumes "evidenceStaleAt observed declared m = Inr u" and "t \<le> dateParse u"
  shows "t \<le> dateParse declared" and "t - dateParse observed \<le> m"
proof -
  obtain w where w: "instantAfter observed m = Inr w" "u = earliestOf declared [w]"
    using assms(1) by (auto simp: evidenceStaleAt_def earliestInstant_def present_def bindE_Inr_iff)
  have "dateParse u \<le> dateParse declared" "dateParse u \<le> dateParse w"
    unfolding w(2) using earliestOf_least [of _ declared "[w]"] by auto
  then show "t \<le> dateParse declared" "t - dateParse observed \<le> m"
    using assms(2) instantAfter_Inr [OF w(1)] by auto
qed

lemma validUntilOf_Inr:
  assumes v: "validUntilOf request candidate configuration = Inr v" and t: "t \<le> dateParse v"
  shows "t \<le> dateParse (ct_providerRefreshAfter (rk_catalog candidate))" and "t \<le> dateParse (ct_modelRefreshAfter (rk_catalog candidate))"
    and "t - dateParse (ct_generatedAt (rk_catalog candidate)) \<le> fr_catalogMs (rc_freshness configuration)"
    and "t - dateParse (ph_checkedAt (rk_health candidate)) \<le> fr_healthMs (rc_freshness configuration)"
    and "t \<le> dateParse (qe_staleAt (rk_quota candidate))" and "t - dateParse (qe_observedAt (rk_quota candidate)) \<le> fr_quotaMs (rc_freshness configuration)"
    and "pd_locality (gw_descriptor (rk_gateway candidate)) = LocalTarget \<Longrightarrow> t \<le> dateParse (ca_staleAt (rk_capacity candidate)) \<and>
      t - dateParse (ca_observedAt (rk_capacity candidate)) \<le> fr_capacityMs (rc_freshness configuration)"
    and "pd_kind (gw_descriptor (rk_gateway candidate)) = CodingAgent \<Longrightarrow>
      t - dateParse (se_verifiedAt (rk_secureExecution candidate)) \<le> fr_secureExecutionMs (rc_freshness configuration)"
    and "\<And>deadline. rr_deadline request = Some deadline \<Longrightarrow> t \<le> dateParse deadline"
proof -
  let ?catalog = "rk_catalog candidate" and ?freshness = "rc_freshness configuration"
  obtain catalogUntil healthUntil quotaUntil capacityUntil secureUntil
    where u: "instantAfter (ct_generatedAt ?catalog) (fr_catalogMs ?freshness) = Inr catalogUntil"
      "instantAfter (ph_checkedAt (rk_health candidate)) (fr_healthMs ?freshness) = Inr healthUntil"
      "evidenceStaleAt (qe_observedAt (rk_quota candidate)) (qe_staleAt (rk_quota candidate)) (fr_quotaMs ?freshness) = Inr quotaUntil"
      "(if pd_locality (gw_descriptor (rk_gateway candidate)) = LocalTarget
        then bindE (evidenceStaleAt (ca_observedAt (rk_capacity candidate)) (ca_staleAt (rk_capacity candidate)) (fr_capacityMs ?freshness)) (\<lambda>t. Inr (Some t))
        else Inr None) = Inr capacityUntil"
      "(if pd_kind (gw_descriptor (rk_gateway candidate)) = CodingAgent
        then bindE (instantAfter (se_verifiedAt (rk_secureExecution candidate)) (fr_secureExecutionMs ?freshness)) (\<lambda>t. Inr (Some t))
        else Inr None) = Inr secureUntil"
      "v = earliestOf (ct_providerRefreshAfter ?catalog) (present [Some (ct_modelRefreshAfter ?catalog), Some catalogUntil, Some healthUntil,
        Some quotaUntil, capacityUntil, secureUntil, rr_deadline request])"
    using v unfolding validUntilOf_def Let_def earliestInstant_def by (auto simp only: bindE_Inr_iff sum.inject)
  have least: "t \<le> dateParse x" if "x \<in> set (ct_providerRefreshAfter ?catalog # present [Some (ct_modelRefreshAfter ?catalog), Some catalogUntil,
      Some healthUntil, Some quotaUntil, capacityUntil, secureUntil, rr_deadline request])" for x
    using earliestOf_least [OF that] t unfolding u(6) by linarith
  have plain: "t \<le> dateParse (ct_providerRefreshAfter ?catalog)" "t \<le> dateParse (ct_modelRefreshAfter ?catalog)" "t \<le> dateParse catalogUntil"
    "t \<le> dateParse healthUntil" "t \<le> dateParse quotaUntil" by (rule least, simp add: present_def)+
  show "t \<le> dateParse (ct_providerRefreshAfter ?catalog)" "t \<le> dateParse (ct_modelRefreshAfter ?catalog)" using plain by simp_all
  show "t - dateParse (ct_generatedAt ?catalog) \<le> fr_catalogMs ?freshness" using instantAfter_Inr [OF u(1)] plain(3) by simp
  show "t - dateParse (ph_checkedAt (rk_health candidate)) \<le> fr_healthMs ?freshness" using instantAfter_Inr [OF u(2)] plain(4) by simp
  show "t \<le> dateParse (qe_staleAt (rk_quota candidate))" "t - dateParse (qe_observedAt (rk_quota candidate)) \<le> fr_quotaMs ?freshness"
    using evidenceStaleAt_Inr [OF u(3) plain(5)] by simp_all
  show "t \<le> dateParse (ca_staleAt (rk_capacity candidate)) \<and> t - dateParse (ca_observedAt (rk_capacity candidate)) \<le> fr_capacityMs ?freshness"
    if here: "pd_locality (gw_descriptor (rk_gateway candidate)) = LocalTarget"
  proof -
    obtain c where c: "capacityUntil = Some c"
      "evidenceStaleAt (ca_observedAt (rk_capacity candidate)) (ca_staleAt (rk_capacity candidate)) (fr_capacityMs ?freshness) = Inr c"
      using u(4) here by (auto simp: bindE_Inr_iff)
    have "t \<le> dateParse c" by (rule least) (simp add: present_def c(1))
    from evidenceStaleAt_Inr [OF c(2) this] show ?thesis by simp
  qed
  show "t - dateParse (se_verifiedAt (rk_secureExecution candidate)) \<le> fr_secureExecutionMs ?freshness"
    if agent: "pd_kind (gw_descriptor (rk_gateway candidate)) = CodingAgent"
  proof -
    obtain c where c: "secureUntil = Some c" "instantAfter (se_verifiedAt (rk_secureExecution candidate)) (fr_secureExecutionMs ?freshness) = Inr c"
      using u(5) agent by (auto simp: bindE_Inr_iff)
    have "t \<le> dateParse c" by (rule least) (simp add: present_def c(1))
    then show ?thesis using instantAfter_Inr [OF c(2)] by simp
  qed
  show "t \<le> dateParse deadline" if "rr_deadline request = Some deadline" for deadline
    by (rule least) (simp add: present_def that)
qed

text \<open>Until then no check of the evidence fails but, possibly, the one that asks for time to finish before the deadline.\<close>

theorem evidence_holds:
  assumes none: "evidenceCodes request candidate configuration now = []" and v: "validUntilOf request candidate configuration = Inr v"
    and t: "now \<le> t" "t \<le> dateParse v"
  shows "set (evidenceCodes request candidate configuration t) \<subseteq> {''DEADLINE_INCOMPATIBLE''}"
proof -
  note until = validUntilOf_Inr [OF v t(2)]
  note parts = none [unfolded evidenceCodes_def append_is_Nil_conv]
  have catalog: "catalogFailures request candidate t configuration = []"
  proof -
    have "catalogFailures request candidate now configuration = []" using parts by simp
    then show ?thesis using until(1-3) t(1) by (auto simp: catalogFailures_def Let_def)
  qed
  have runtime0: "runtimeFailures request candidate now configuration = []" using parts by simp
  note runtimeParts = runtime0 [unfolded runtimeFailures_def Let_def append_is_Nil_conv codeIf_Nil]
  have quota: "quotaFailures candidate t configuration = []"
  proof -
    have "quotaFailures candidate now configuration = []" using runtimeParts by simp
    then show ?thesis
      unfolding quotaFailures_def Let_def append_is_Nil_conv codeIf_Nil
      using isFresh_until [of now "qe_observedAt (rk_quota candidate)" "Some (qe_staleAt (rk_quota candidate))"] until(5,6) t(1) by blast
  qed
  have capacity: "capacityFailures candidate t configuration = []"
  proof (cases "pd_locality (gw_descriptor (rk_gateway candidate)) = LocalTarget")
    case True
    have "capacityFailures candidate now configuration = []" using runtimeParts by simp
    then show ?thesis
      unfolding capacityFailures_def Let_def append_is_Nil_conv codeIf_Nil
      using True isFresh_until [of now "ca_observedAt (rk_capacity candidate)" "Some (ca_staleAt (rk_capacity candidate))"] until(7) t(1)
      by (simp only: append_is_Nil_conv codeIf_Nil if_False simp_thms) blast
  next
    case False
    have "capacityFailures candidate now configuration = []" using runtimeParts by simp
    then show ?thesis using False by (simp add: capacityFailures_def Let_def)
  qed
  have runtime: "runtimeFailures request candidate t configuration = []"
    unfolding runtimeFailures_def Let_def append_is_Nil_conv codeIf_Nil
    using runtimeParts quota capacity until(4,8) t(1) isFresh_until [of now "se_verifiedAt (rk_secureExecution candidate)" None] by auto
  show ?thesis
    unfolding evidenceCodes_def using parts catalog runtime by (auto simp: latencyCodes_def)
qed

end
