(* ===== verification/Router_Route_Best.thy ===== *)
theory Router_Route_Best
  imports Router_Route_Props
begin

text \<open>
  What the choices of a decision are: every candidate once, the best first, the aliases as the request asks for them, scores within
  their bounds, and a reservation that the account of the request admits.
\<close>

section \<open>Every candidate is chosen or rejected\<close>

lemma choiceFrom_fields [simp]:
  "ch_candidateFingerprint (choiceFrom s r w) = rk_fingerprint (el_candidate (sd_evaluation s))"
  "ch_totalScore (choiceFrom s r w) = sd_totalScore s" "ch_selectedAlias (choiceFrom s r w) = el_selectedAlias (sd_evaluation s)"
  "ch_scoreComponents (choiceFrom s r w) = sd_components s" "ch_estimate (choiceFrom s r w) = rq_estimate (rp_quote (sd_reservation s))"
  "ch_candidateId (choiceFrom s r w) = rk_candidateId (el_candidate (sd_evaluation s))" "ch_rank (choiceFrom s r w) = r"
  by (simp_all add: choiceFrom_def Let_def)

lemma choicesFrom_map:
  assumes "\<And>s r w. f (choiceFrom s r w) = g s"
  shows "map f (choicesFrom request ordered) = map g ordered"
proof (rule nth_equalityI)
  fix i
  assume i: "i < length (map f (choicesFrom request ordered))"
  then obtain reason where "choicesFrom request ordered ! i = choiceFrom (ordered ! i) (int i + 1) reason"
    using choicesFrom_nth [of i ordered request] by auto
  then show "map f (choicesFrom request ordered) ! i = map g ordered ! i" using i assms by simp
qed simp

lemma scoreCandidate_evaluation: "scoreCandidate request e configuration at = Inr s \<Longrightarrow> sd_evaluation s = e"
  by (auto simp: scoreCandidate_def bindE_Inr_iff split: option.splits)

lemma rejectionsFrom_names: "mset (map rj_candidateFingerprint (rejectionsFrom es)) = mset (map (\<lambda>e. rk_fingerprint (el_candidate e)) es)"
  by (simp add: rejectionsFrom_def mset_map multiset.map_comp comp_def)

lemma rejectionsFrom_codes: "r \<in> set (rejectionsFrom es) \<Longrightarrow> \<exists>e \<in> set es. rj_codes r = el_codes e"
  by (auto simp: rejectionsFrom_def image_image)

theorem candidates_accounted_for:
  assumes d: "routeParsed cd request configuration now = Inr d"
  shows "mset (map ch_candidateFingerprint (rd_feasible d)) + mset (map rj_candidateFingerprint (rd_rejections d)) =
      mset (map rk_fingerprint (rr_candidates request))"
    and "list_all (\<lambda>r. rj_codes r \<noteq> []) (rd_rejections d)"
proof -
  let ?name = "\<lambda>e. rk_fingerprint (el_candidate e)"
  obtain evaluations scored where run: "mapE (evaluateFor cd request configuration (toISOString now)) (rr_candidates request) = Inr evaluations"
    "mapE (\<lambda>e. scoreCandidate request e configuration (toISOString now)) (filter (\<lambda>e. el_codes e = []) evaluations) = Inr scored"
    "rd_feasible d = choicesFrom request (orderFeasible request scored)"
    "rd_rejections d = rejectionsFrom (filter (\<lambda>e. el_codes e \<noteq> []) evaluations)"
    using d by (rule routeParsed_Inr)
  have "list_all2 (\<lambda>c e. el_candidate e = c) (rr_candidates request) evaluations"
    using run(1) unfolding mapE_Inr_iff by (rule list_all2_mono) (auto elim: evaluateFor_Inr)
  then have names: "map ?name evaluations = map rk_fingerprint (rr_candidates request)"
    by (induction rule: list_all2_induct) auto
  have "list_all2 (\<lambda>e s. sd_evaluation s = e) (filter (\<lambda>e. el_codes e = []) evaluations) scored"
    using run(2) unfolding mapE_Inr_iff by (rule list_all2_mono) (auto dest: scoreCandidate_evaluation)
  then have "map sd_evaluation scored = filter (\<lambda>e. el_codes e = []) evaluations"
    by (induction rule: list_all2_induct) auto
  then have "mset (map ?name (filter (\<lambda>e. el_codes e = []) evaluations)) = mset (map (\<lambda>s. ?name (sd_evaluation s)) scored)"
    by (metis (no_types, lifting) list.map_comp comp_def map_eq_conv)
  moreover have "mset (map ch_candidateFingerprint (rd_feasible d)) = mset (map (\<lambda>s. ?name (sd_evaluation s)) scored)"
    unfolding run(3) by (subst choicesFrom_map [where g = "\<lambda>s. ?name (sd_evaluation s)"]) (simp_all add: orderFeasible_def mset_map)
  moreover have "mset (map ?name evaluations) = mset (map ?name (filter (\<lambda>e. el_codes e = []) evaluations)) +
      mset (map ?name (filter (\<lambda>e. el_codes e \<noteq> []) evaluations))"
    by (induction evaluations) auto
  ultimately show "mset (map ch_candidateFingerprint (rd_feasible d)) + mset (map rj_candidateFingerprint (rd_rejections d)) =
      mset (map rk_fingerprint (rr_candidates request))"
    unfolding run(4) by (simp only: rejectionsFrom_names names)
  show "list_all (\<lambda>r. rj_codes r \<noteq> []) (rd_rejections d)"
    unfolding run(4) by (auto simp: list_all_iff dest!: rejectionsFrom_codes)
qed

section \<open>The order of the choices\<close>

definition aliasPinned :: "routing_request \<Rightarrow> route_choice \<Rightarrow> bool" where
  "aliasPinned request c \<longleftrightarrow> rr_explicitAlias request \<noteq> None \<and> ch_selectedAlias c = rr_explicitAlias request"

text \<open>\<open>c\<close> may stand before \<open>c'\<close>: the asked alias first, then the higher score, then the smaller fingerprint.\<close>

definition ranksBefore :: "routing_request \<Rightarrow> route_choice \<Rightarrow> route_choice \<Rightarrow> bool" where
  "ranksBefore request c c' \<longleftrightarrow>
     (if aliasPinned request c \<noteq> aliasPinned request c' then aliasPinned request c
      else ch_totalScore c' < ch_totalScore c \<or>
        ch_totalScore c = ch_totalScore c' \<and> \<not> strLess (ch_candidateFingerprint c') (ch_candidateFingerprint c))"

lemma orderedAliases_first: "rr_explicitAlias request = Some a \<Longrightarrow> \<exists>as. orderedAliases request = a # as"
  by (simp add: orderedAliases_def Let_def)

lemma selectedAliasFor_member: "selectedAliasFor request names = Some a \<Longrightarrow> a \<in> set names"
  by (cases "find (\<lambda>b. b \<in> set names) (orderedAliases request)")
    (auto simp: selectedAliasFor_def find_Some_iff simp del: find.simps split: list.splits dest: find_Some_iff [THEN iffD1])

lemma selectedAlias_explicit:
  assumes a: "rr_explicitAlias request = Some a"
  shows "selectedAliasFor request names = Some a \<longleftrightarrow> a \<in> set names"
proof -
  obtain as where as: "orderedAliases request = a # as" using orderedAliases_first [OF a] ..
  show ?thesis using selectedAliasFor_member [of request names a] by (auto simp: selectedAliasFor_def as)
qed

lemma evaluateFor_pinned:
  assumes "evaluateFor cd request configuration at candidate = Inr e"
  shows "el_explicitlyPinned e \<longleftrightarrow> rr_explicitAlias request \<noteq> None \<and> el_selectedAlias e = rr_explicitAlias request"
proof -
  obtain e' where e': "evaluateCandidate cd request candidate configuration at = Inr e'" "el_selectedAlias e = el_selectedAlias e'"
    "el_explicitlyPinned e = el_explicitlyPinned e'" using assms by (rule evaluateFor_Inr)
  have "el_selectedAlias e' = selectedAliasFor request (aliasesForCandidate request candidate)"
    using e'(1) by (rule evaluateCandidate_Inr)
  moreover have "el_explicitlyPinned e' = (case rr_explicitAlias request of None \<Rightarrow> False | Some a \<Rightarrow> a \<in> set (aliasesForCandidate request candidate))"
    using e'(1) by (rule evaluateCandidate_Inr)
  ultimately show ?thesis using e'(2,3) selectedAlias_explicit by (auto split: option.splits)
qed

theorem choices_ranked:
  assumes d: "routeParsed cd request configuration now = Inr d"
  shows "sorted_wrt (ranksBefore request) (rd_feasible d)"
proof -
  obtain evaluations scored where run: "mapE (evaluateFor cd request configuration (toISOString now)) (rr_candidates request) = Inr evaluations"
    "mapE (\<lambda>e. scoreCandidate request e configuration (toISOString now)) (filter (\<lambda>e. el_codes e = []) evaluations) = Inr scored"
    "rd_feasible d = choicesFrom request (orderFeasible request scored)"
    using d by (rule routeParsed_Inr)
  have pinned: "pinnedOf s \<longleftrightarrow> rr_explicitAlias request \<noteq> None \<and> el_selectedAlias (sd_evaluation s) = rr_explicitAlias request"
    if s: "s \<in> set scored" for s
  proof -
    obtain e where e: "e \<in> set evaluations" "scoreCandidate request e configuration (toISOString now) = Inr s"
      using mapE_set [OF run(2) s] by auto
    obtain candidate where "evaluateFor cd request configuration (toISOString now) candidate = Inr e" using mapE_set [OF run(1) e(1)] by auto
    then show ?thesis unfolding pinnedOf_def scoreCandidate_evaluation [OF e(2)] by (rule evaluateFor_pinned)
  qed
  let ?ordered = "orderFeasible request scored"
  have rel: "ranksBefore request (choicesFrom request ?ordered ! i) (choicesFrom request ?ordered ! j)"
    if ij: "i < j" "j < length ?ordered" for i j
  proof -
    obtain w w' where c: "choicesFrom request ?ordered ! i = choiceFrom (?ordered ! i) (int i + 1) w"
      "choicesFrom request ?ordered ! j = choiceFrom (?ordered ! j) (int j + 1) w'"
      using choicesFrom_nth [of i ?ordered request] choicesFrom_nth [of j ?ordered request] ij by auto
    have members: "?ordered ! i \<in> set scored" "?ordered ! j \<in> set scored" using that nth_mem [of _ ?ordered] by auto
    have "mayPrecede request (?ordered ! i) (?ordered ! j)"
      using orderFeasible_sorted that by (simp only: sorted_wrt_iff_nth_less)
    then show ?thesis unfolding c mayPrecede_iff ranksBefore_def aliasPinned_def
      using pinned [OF members(1)] pinned [OF members(2)] by (auto simp: fingerprintOf_def)
  qed
  then show ?thesis unfolding run(3) sorted_wrt_iff_nth_less by simp
qed

lemma ranks_numbered:
  assumes "routeParsed cd request configuration now = Inr d"
  shows "map ch_rank (rd_feasible d) = map (\<lambda>i. int i + 1) [0..<length (rd_feasible d)]"
proof -
  obtain scored where run: "rd_feasible d = choicesFrom request (orderFeasible request scored)" using assms by (rule routeParsed_Inr)
  show ?thesis unfolding run
    by (rule nth_equalityI) (use choicesFrom_nth [of _ "orderFeasible request scored" request] in \<open>force\<close>)+
qed

section \<open>Aliases\<close>

theorem strict_alias:
  assumes d: "routeParsed cd request configuration now = Inr d" and c: "c \<in> set (rd_feasible d)"
    and a: "rr_explicitAlias request = Some a" "\<not> rr_allowFallbacks request"
  shows "ch_selectedAlias c = Some a"
proof (rule choice_source [OF d c])
  fix e s rank reason
  assume e: "evaluateFor cd request configuration (toISOString now) (el_candidate e) = Inr e" "el_codes e = []"
    "c = choiceFrom s rank reason" "sd_evaluation s = e"
  have "evidenceCodes request (el_candidate e) configuration (dateParse (toISOString now)) = []" using e(1,2) by (rule feasible_evaluation)
  then have "configurationFailures request (el_candidate e) (aliasesForCandidate request (el_candidate e)) = []" by (simp add: evidenceCodes_def)
  then have "a \<in> set (aliasesForCandidate request (el_candidate e))" using a by (simp add: configurationFailures_def Let_def)
  moreover obtain e' where "evaluateCandidate cd request (el_candidate e) configuration (toISOString now) = Inr e'"
    "el_selectedAlias e = el_selectedAlias e'" using e(1) by (rule evaluateFor_Inr)
  ultimately show ?thesis
    using e(3,4) selectedAlias_explicit [OF a(1)] by (auto elim!: evaluateCandidate_Inr)
qed

section \<open>Reservations\<close>

theorem choice_admitted:
  assumes d: "routeParsed cd request configuration now = Inr d" and c: "c \<in> set (rd_feasible d)"
    and inv: "accountInv (rr_budgetAccount request)" and v: "ac_version (rr_budgetAccount request) \<le> MAX_SAFE_INTEGER"
    and room: "ac_status (rr_budgetAccount request) = OpenAccount" "length (ac_reservations (rr_budgetAccount request)) < MAX_RESERVATIONS_PER_ACCOUNT"
    and new: "\<And>i. itemOf (rr_budgetAccount request) (''route-'' @ i) = None"
  shows "\<exists>i s'. applyAccount (Reserve (JStr (''route-'' @ i)) (usageVal (ch_estimate c)) (JStr (rd_decidedAt d)) (jsInt (ac_version (rr_budgetAccount request))))
      (rr_budgetAccount request) = Inr s' \<and> ac_version s' = nextVersion (ac_version (rr_budgetAccount request)) \<and>
      usagesOf s' = heldUsages (rr_budgetAccount request) @ [ch_estimate c] @ committedUsages (rr_budgetAccount request)"
proof (rule choice_source [OF d c])
  fix e s rank reason
  let ?a = "rr_budgetAccount request" and ?at = "toISOString now"
  assume e: "evaluateFor cd request configuration ?at (el_candidate e) = Inr e" "el_codes e = []"
    "c = choiceFrom s rank reason" "sd_evaluation s = e" "el_reservation e = Some (sd_reservation s)"
  obtain plan where plan: "planFor cd request (el_candidate e) configuration ?at = Inr plan" "rp_code plan = FIT" "el_reservation e = Some plan"
    using e(1,2) by (rule feasible_evaluation)
  then have p: "plan = sd_reservation s" using e(5) by simp
  obtain h where "planBudgetReservation cd configuration
       \<lparr>pi_account = accountVal ?a, pi_reservationId = JStr (''route-'' @ take 48 h), pi_requestedAt = JStr ?at,
        pi_tokenEstimate = tokenEstimateVal (rk_tokenEstimate (el_candidate e)), pi_costEstimate = costEstimateVal (rk_costEstimate (el_candidate e)),
        pi_expectedDurationMs = jsInt (rr_expectedDurationMs request)\<rparr> = Inr plan" (is "planBudgetReservation _ _ ?input = _")
    using plan(1) by (auto simp: planFor_def bindE_Inr_iff)
  note planned = this
  have parsed: "parseBudgetAccountState (accountVal ?a) = Inr ?a" using inv v by (rule account_round_trip)
  have version: "rp_accountVersion plan = ac_version ?a"
  proof (rule planBudgetReservation_Inr [OF planned])
    fix s t c i at d
    assume "parseBudgetAccountState (pi_account ?input) = Inr s" "rp_accountVersion plan = ac_version s"
    then show ?thesis using parsed by simp
  qed
  have "d = d \<and> rd_decidedAt d = ?at" using d by (auto elim!: routeParsed_Inr)
  then show ?thesis
    using plan_predicts_reservation [OF planned, of ?a] parsed inv room new plan(2) version e(3) p
    by (auto simp: plannedReserve_def)
qed

section \<open>Scores\<close>

lemma clampScore_range: "clampScore v \<in> {-1000..1000}"
  by (simp add: clampScore_def)

lemma weightOf_range:
  assumes "configurationOk configuration"
  shows "weightOf configuration t \<in> {0..1000}"
proof (cases "map_of (rc_scoreWeights configuration) t")
  case (Some w)
  then have "(t, w) \<in> set (rc_scoreWeights configuration)" by (rule map_of_SomeD)
  then show ?thesis using assms Some by (auto simp: weightOf_def configurationOk_def list_all_iff)
qed (simp add: weightOf_def)

definition componentOk :: "router_configuration \<Rightarrow> score_component \<Rightarrow> bool" where
  "componentOk configuration k \<longleftrightarrow> sk_value k \<in> {-1000..1000} \<and> sk_weight k = weightOf configuration (sk_term k) \<and>
     sk_weightedValue k = sk_value k * sk_weight k"

lemma scoreTerm_total:
  assumes "configurationOk configuration"
  obtains k where "scoreTerm configuration t v code = Inr k"
    and "k = \<lparr>sk_term = t, sk_value = clampScore v, sk_weight = weightOf configuration t,
      sk_weightedValue = clampScore v * weightOf configuration t, sk_evidenceCode = code\<rparr>"
proof -
  have "\<bar>clampScore v * weightOf configuration t\<bar> \<le> 1000 * 1000"
    unfolding abs_mult using clampScore_range [of v] weightOf_range [OF assms, of t] by (intro mult_mono) auto
  then show ?thesis by (intro that) (auto simp: scoreTerm_def Let_def checkedNumber_def)
qed

lemma componentOk_bound: "configurationOk configuration \<Longrightarrow> componentOk configuration k \<Longrightarrow> \<bar>sk_weightedValue k\<bar> \<le> 1000000"
  using weightOf_range [of configuration "sk_term k"] mult_mono [of "\<bar>sk_value k\<bar>" 1000 "weightOf configuration (sk_term k)" 1000]
  by (auto simp: componentOk_def abs_mult)

lemma sum_bound: "(\<And>k. k \<in> set ks \<Longrightarrow> \<bar>f k\<bar> \<le> (b :: int)) \<Longrightarrow> \<bar>sum_list (map f ks)\<bar> \<le> int (length ks) * b"
proof (induction ks)
  case (Cons k ks)
  have "\<bar>f k\<bar> \<le> b" "\<bar>sum_list (map f ks)\<bar> \<le> int (length ks) * b" using Cons by auto
  then show ?case by (simp add: distrib_right)
qed simp

lemma scoreValues_terms: "scoreValues request evaluation configuration at = Inr vs \<Longrightarrow> map fst vs = ROUTER_SCORE_TERM_IDS"
  by (auto simp: scoreValues_def Let_def bindE_Inr_iff ROUTER_SCORE_TERM_IDS_def)

theorem scores_bounded:
  assumes cfg: "configurationOk configuration" and s: "scoreCandidate request e configuration at = Inr s"
  shows "map sk_term (sd_components s) = ROUTER_SCORE_TERM_IDS" and "list_all (componentOk configuration) (sd_components s)"
    and "sd_totalScore s = sum_list (map sk_weightedValue (sd_components s))" and "\<bar>sd_totalScore s\<bar> \<le> 13000000"
proof -
  obtain vs where vs: "scoreValues request e configuration at = Inr vs"
    "mapE (\<lambda>(t, value, code). scoreTerm configuration t value code) vs = Inr (sd_components s)"
    and total: "sd_totalScore s = sum_list (map sk_weightedValue (sd_components s))"
    using s by (auto simp: scoreCandidate_def bindE_Inr_iff checkedNumber_def split: option.splits if_splits)
  show "sd_totalScore s = sum_list (map sk_weightedValue (sd_components s))" by (rule total)
  have rel: "list_all2 (\<lambda>v k. sk_term k = fst v \<and> componentOk configuration k) vs (sd_components s)"
    using vs(2) unfolding mapE_Inr_iff
    by (rule list_all2_mono) (auto elim: scoreTerm_total [OF cfg] simp: componentOk_def scoreTerm_def Let_def bindE_Inr_iff checkedNumber_def
        clampScore_def split: if_splits)
  then have "map sk_term (sd_components s) = map fst vs" by (induction rule: list_all2_induct) auto
  then show terms: "map sk_term (sd_components s) = ROUTER_SCORE_TERM_IDS" by (simp only: scoreValues_terms [OF vs(1)])
  show ok: "list_all (componentOk configuration) (sd_components s)"
    using rel by (induction rule: list_all2_induct) auto
  have "length (sd_components s) = 13" using arg_cong [OF terms, of length] by (simp add: ROUTER_SCORE_TERM_IDS_def)
  then show "\<bar>sd_totalScore s\<bar> \<le> 13000000"
    using sum_bound [of "sd_components s" sk_weightedValue 1000000] ok componentOk_bound [OF cfg] by (auto simp: total list_all_iff)
qed

section \<open>The evaluation of the primary\<close>

lemma primary_evaluation:
  assumes d: "routeParsed cd request configuration now = Inr d" and c: "rd_primary d = Some c"
  obtains candidate where "candidate \<in> set (rr_candidates request)" "choiceOf c candidate" "evidenceCodes request candidate configuration now = []"
    "validUntilOf request candidate configuration = Inr (rd_validUntil d)" "rd_decidedAt d = toISOString now" "validTime now"
proof -
  obtain evaluations scored where run: "validTime now"
    "mapE (evaluateFor cd request configuration (toISOString now)) (rr_candidates request) = Inr evaluations"
    "mapE (\<lambda>e. scoreCandidate request e configuration (toISOString now)) (filter (\<lambda>e. el_codes e = []) evaluations) = Inr scored"
    "rd_decidedAt d = toISOString now" "rd_feasible d = choicesFrom request (orderFeasible request scored)"
    "rd_primary d = (case rd_feasible d of [] \<Rightarrow> None | c # _ \<Rightarrow> Some c)"
    "rd_validUntil d = (case orderFeasible request scored of [] \<Rightarrow> toISOString now | s # _ \<Rightarrow> el_validUntil (sd_evaluation s))"
    using d by (rule routeParsed_Inr)
  obtain s rest where s: "orderFeasible request scored = s # rest"
    using c run(5,6) by (cases "orderFeasible request scored") (auto simp: choicesFrom_def Let_def)
  obtain reason where first: "c = choiceFrom s 1 reason"
    using c run(5,6) choicesFrom_nth [of 0 "s # rest" request] unfolding s by (auto split: list.splits)
  have "s \<in> set scored" using s orderFeasible_set [of request scored] by auto
  then obtain e where e: "e \<in> set evaluations" "el_codes e = []" "scoreCandidate request e configuration (toISOString now) = Inr s"
    using mapE_set [OF run(3)] by auto
  then obtain candidate where candidate: "candidate \<in> set (rr_candidates request)"
    "evaluateFor cd request configuration (toISOString now) candidate = Inr e"
    using mapE_set [OF run(2)] by auto
  have same: "el_candidate e = candidate" "sd_evaluation s = e"
    using candidate(2) scoreCandidate_evaluation [OF e(3)] by (auto elim: evaluateFor_Inr)
  have "choiceOf c candidate" using choiceOf_choiceFrom [of s 1 reason] unfolding first same .
  moreover have "validUntilOf request candidate configuration = Inr (rd_validUntil d)"
    using candidate(2) e(2) by (rule feasible_evaluation) (simp add: run(7) s same)
  moreover have "evidenceCodes request candidate configuration (dateParse (toISOString now)) = []"
    using candidate(2) e(2) by (rule feasible_evaluation)
  ultimately show ?thesis using candidate(1) run(1,4) by (intro that) auto
qed

text \<open>What a candidate must be for its provider to take the work at \<open>now\<close>.\<close>

definition canRun :: "routing_request \<Rightarrow> routing_candidate \<Rightarrow> int \<Rightarrow> bool" where
  "canRun request candidate now \<longleftrightarrow>
     (let descriptor = gw_descriptor (rk_gateway candidate); estimate = rk_tokenEstimate candidate;
          model = mo_model (gw_model (rk_gateway candidate)) in
      (\<exists>provider \<in> set (cf_providers (rr_configuration request)). pf_instanceId provider = gw_instanceId (rk_gateway candidate) \<and> pf_enabled provider \<and>
        pf_kind provider = pd_kind descriptor \<and> pf_locality provider = pd_locality descriptor) \<and>
      ph_status (rk_health candidate) \<notin> {UnavailableProvider, ClosedProvider} \<and> mo_availability (gw_model (rk_gateway candidate)) \<noteq> UnavailableModel \<and>
      cb_phase (rk_circuit candidate) \<noteq> OpenPhase \<and>
      (cb_phase (rk_circuit candidate) = HalfOpenPhase \<longrightarrow> rr_halfOpenProbeCandidateId request = Some (rk_candidateId candidate)) \<and>
      (pd_kind descriptor = CodingAgent \<longrightarrow> se_level (rk_secureExecution candidate) = SecureEnforcing) \<and>
      te_contextContributionTokens estimate \<le> md_contextWindowTokens model \<and> te_outputAllowanceTokens estimate \<le> md_maxOutputTokens model \<and>
      (\<forall>deadline latency. rr_deadline request = Some deadline \<and> rk_expectedLatencyMs candidate = Some latency \<longrightarrow> now + latency \<le> dateParse deadline))"

theorem evidence_canRun:
  assumes "evidenceCodes request candidate configuration now = []"
  shows "canRun request candidate now"
proof -
  note parts = assms [unfolded evidenceCodes_def append_is_Nil_conv]
  have "contextFailures request candidate configuration = []" "runtimeFailures request candidate now configuration = []"
    "configurationFailures request candidate (aliasesForCandidate request candidate) = []" "latencyCodes request candidate now = []"
    using parts by simp_all
  note context' = this(1) [unfolded contextFailures_def Let_def append_is_Nil_conv codeIf_Nil]
    and runtime = this(2) [unfolded runtimeFailures_def Let_def append_is_Nil_conv codeIf_Nil]
    and configured = this(3) [unfolded configurationFailures_def Let_def append_is_Nil_conv codeIf_Nil]
    and latency = this(4) [unfolded latencyCodes_def append_is_Nil_conv codeIf_Nil]
  obtain provider where provider:
    "find (\<lambda>p. pf_instanceId p = gw_instanceId (rk_gateway candidate)) (cf_providers (rr_configuration request)) = Some provider"
    using configured by (cases "find (\<lambda>p. pf_instanceId p = gw_instanceId (rk_gateway candidate)) (cf_providers (rr_configuration request))") auto
  then have "provider \<in> set (cf_providers (rr_configuration request))" "pf_instanceId provider = gw_instanceId (rk_gateway candidate)"
    by (auto simp: find_Some_iff)
  moreover have "pf_enabled provider" "pf_kind provider = pd_kind (gw_descriptor (rk_gateway candidate))"
    "pf_locality provider = pd_locality (gw_descriptor (rk_gateway candidate))"
    using configured by (simp_all add: provider)
  moreover have "te_contextContributionTokens (rk_tokenEstimate candidate) \<le> md_contextWindowTokens (mo_model (gw_model (rk_gateway candidate)))"
    "te_outputAllowanceTokens (rk_tokenEstimate candidate) \<le> md_maxOutputTokens (mo_model (gw_model (rk_gateway candidate)))"
    using context' by (simp_all split: option.splits)
  moreover have "now + l \<le> dateParse deadline" if "rr_deadline request = Some deadline" "rk_expectedLatencyMs candidate = Some l" for deadline l
    using latency that by simp
  moreover have "mo_availability (gw_model (rk_gateway candidate)) \<noteq> UnavailableModel"
    "pd_kind (gw_descriptor (rk_gateway candidate)) = CodingAgent \<Longrightarrow> se_level (rk_secureExecution candidate) = SecureEnforcing"
    using parts by simp_all
  ultimately show ?thesis
    unfolding canRun_def Let_def using runtime by (intro conjI) blast+
qed

end
