(* ===== verification/Router_Route_Claims.thy ===== *)
theory Router_Route_Claims
  imports Router_Claims Router_Route_Best
begin

text \<open>
  The properties of routing, each with a witness: a request with secret data, two local candidates and one in the cloud,
  evaluated in the kernel.
\<close>

section \<open>A sample request\<close>

definition zeros :: string where "zeros = replicate 64 CHR ''0''"

definition sampleName :: "char \<Rightarrow> string" where "sampleName c = replicate 63 CHR ''0'' @ [c]"

definition sampleDescriptor :: "char \<Rightarrow> locality \<Rightarrow> provider_descriptor" where
  "sampleDescriptor c where' = \<lparr>pd_providerId = ''prov'', pd_instanceId = ''inst-'' @ [c], pd_kind = Inference, pd_displayName = ''Provider'',
     pd_locality = where', pd_retainsData = False, pd_trainsOnInputs = False,
     pd_supportedClassifications = [Public, Internal, ProprietarySource, Personal, Secret],
     pd_capabilities = \<lparr>pc_streaming = True, pc_structuredOutput = True, pc_toolCalling = True, pc_imageInput = False, pc_repositoryEditing = False,
       pc_commandExecution = False, pc_networkAccess = False, pc_resumability = False, pc_cancellation = GuaranteedCancellation,
       pc_deadlineEnforcement = True, pc_usageReporting = True, pc_pricingAvailable = False\<rparr>\<rparr>"

definition sampleModel :: model_capabilities where
  "sampleModel = \<lparr>md_providerId = ''prov'', md_modelId = ''model'', md_contextWindowTokens = 8000, md_maxOutputTokens = 1000,
     md_supportsToolUse = True, md_supportsStructuredOutput = True, md_supportsVision = False, md_locality = LocalModel,
     md_latencyClass = StandardLatency, md_codingCapability = 3, md_reasoningCapability = 3, md_cost = None\<rparr>"

definition sampleGateway :: "char \<Rightarrow> locality \<Rightarrow> gateway_evidence" where
  "sampleGateway c where' = \<lparr>gw_snapshotFingerprint = sampleName c, gw_instanceId = ''inst-'' @ [c], gw_contractModelId = ''model'',
     gw_catalog = \<lparr>cr_catalogId = ''catalog'', cr_catalogFingerprint = zeros, cr_providerId = ''prov'', cr_providerFingerprint = zeros,
       cr_modelId = ''model'', cr_modelFingerprint = zeros, cr_adapterProfileId = ''profile'', cr_lastVerifiedAt = toISOString 0,
       cr_refreshAfter = toISOString 3600000\<rparr>,
     gw_descriptor = sampleDescriptor c where', gw_model = \<lparr>mo_model = sampleModel, mo_availability = AvailableModel\<rparr>,
     gw_eligibility = AnyTier, gw_userPreference = UserEnabled,
     gw_adapter = \<lparr>ad_packageName = ''custom'', ad_profileId = ''profile'', ad_version = ''1''\<rparr>, gw_fingerprint = zeros\<rparr>"

definition sampleCatalog :: catalog_evidence where
  "sampleCatalog = \<lparr>ct_catalogId = ''catalog'', ct_catalogRevision = 1, ct_catalogFingerprint = zeros, ct_generatedAt = toISOString 0,
     ct_providerId = ''prov'', ct_providerFingerprint = zeros, ct_providerState = EntryEnabled, ct_providerRefreshAfter = toISOString 3600000,
     ct_modelId = ''model'', ct_modelFingerprint = zeros, ct_modelState = EntryEnabled, ct_modelRefreshAfter = toISOString 3600000,
     ct_adapterProfileId = ''profile'', ct_freeTierState = NotFree, ct_contextTokens = Some 8000, ct_maximumOutputTokens = Some 1000,
     ct_capabilities = map (\<lambda>i. (i, SupportedCapability)) CAPABILITY_IDS, ct_fingerprint = zeros\<rparr>"

definition sampleQuota :: "char \<Rightarrow> quota_evidence" where
  "sampleQuota c = \<lparr>qe_providerInstanceId = ''inst-'' @ [c], qe_contractModelId = ''model'', qe_scopeFingerprint = zeros, qe_state = QuotaAvailable,
     qe_completeness = CompleteEvidence, qe_observedAt = toISOString 1000, qe_staleAt = toISOString 600000, qe_resetsAt = None,
     qe_dimensions = [\<lparr>qd_dimension = TokensQuota, qd_remaining = Some 5000, qd_limit = Some 10000\<rparr>,
       \<lparr>qd_dimension = RequestsQuota, qd_remaining = Some 50, qd_limit = Some 100\<rparr>],
     qe_sourceFingerprint = zeros, qe_correctionFingerprint = None, qe_fingerprint = zeros\<rparr>"

definition sampleEstimate :: token_estimate where
  "sampleEstimate = \<lparr>te_estimatorId = ''estimator'', te_estimatorFingerprint = zeros, te_providerId = ''prov'', te_transportProfileId = ''profile'',
     te_contractModelId = ''model'', te_catalogModelFingerprint = zeros, te_promptFingerprint = zeros, te_accuracy = ExactAccuracy,
     te_evidence = \<lparr>ev_kind = TokenizerAndCompleteFraming, ev_referenceFingerprint = zeros, ev_specificationVersion = ''1'', ev_framingComplete = True\<rparr>,
     te_inputTokens = 30, te_cachedInputTokens = None, te_outputAllowanceTokens = 20, te_reasoningAllowanceTokens = 0, te_totalTokens = 50,
     te_contextContributionTokens = 50, te_canProveContextFit = True,
     te_breakdown = \<lparr>bk_messages = 30, bk_schema = 0, bk_tools = 0, bk_images = 0, bk_artifacts = 0, bk_fixedFraming = 0, bk_safetyMargin = 0\<rparr>,
     te_fingerprint = zeros\<rparr>"

definition sampleCandidate :: "char \<Rightarrow> locality \<Rightarrow> int \<Rightarrow> routing_candidate" where
  "sampleCandidate c where' latency = \<lparr>rk_candidateId = ''candidate-'' @ [c], rk_gateway = sampleGateway c where', rk_catalog = sampleCatalog,
     rk_policy = \<lparr>pe_outcome = PolicyAllowed, pe_decisionFingerprint = zeros, pe_classification = Secret, pe_requiredLocality = RequiresLocal,
       pe_inputLoggingAllowed = False, pe_outputLoggingAllowed = False, pe_retentionAllowed = False, pe_fingerprint = zeros\<rparr>,
     rk_health = \<lparr>ph_status = ReadyProvider, ph_checkedAt = toISOString 1000, ph_detailCode = None, ph_activeOperations = 0\<rparr>,
     rk_healthFingerprint = zeros, rk_quota = sampleQuota c,
     rk_capacity = \<lparr>ca_providerInstanceId = ''inst-'' @ [c], ca_contractModelId = ''model'', ca_scopeFingerprint = zeros, ca_state = CapacityHealthy,
       ca_completeness = CompleteEvidence, ca_observedAt = toISOString 1000, ca_staleAt = toISOString 600000, ca_availableConcurrency = Some 4,
       ca_availableMemoryBytes = Some 1000, ca_requiredMemoryBytes = Some 500, ca_sourceFingerprint = zeros, ca_fingerprint = zeros\<rparr>,
     rk_tokenEstimate = sampleEstimate,
     rk_costEstimate = \<lparr>ce_cost = UnknownCost, ce_evidenceFingerprint = zeros, ce_fingerprint = zeros\<rparr>,
     rk_circuit = (sampleCircuit ClosedPhase 0 None [])\<lparr>cb_identity := \<lparr>ci_providerInstanceId = ''inst-'' @ [c], ci_contractModelId = ''model'',
       ci_operationClass = ''chat''\<rparr>\<rparr>,
     rk_secureExecution = \<lparr>se_level = NoSecurity, se_sourceFingerprint = zeros, se_verifiedAt = toISOString 1000, se_fingerprint = zeros\<rparr>,
     rk_expectedLatencyMs = Some latency, rk_evidenceObservedAt = toISOString 1000, rk_fingerprint = sampleName c\<rparr>"

definition samplePolicy :: data_policy where
  "samplePolicy = \<lparr>dp_classification = Secret, dp_cloudProvidersAllowed = False, dp_localExecutionRequired = True, dp_redactionsRequired = [Secrets],
     dp_logRetentionAllowed = False, dp_artifactPersistenceAllowed = False, dp_humanApprovalRequired = False,
     dp_disallowedCapabilities = [DataRetention, ModelTraining]\<rparr>"

definition sampleRouteBudget :: aggregate_budget where
  "sampleRouteBudget = \<lparr>ab_tokens = Some \<lparr>tb_maxTotalTokens = 100, tb_maxInputTokens = None, tb_maxOutputTokens = Some 50, tb_softMaxTotalTokens = None\<rparr>,
     ab_money = None, ab_time = None\<rparr>"

definition sampleRouteAccount :: account where
  "sampleRouteAccount = \<lparr>ac_scope = \<lparr>bs_scopeType = RunScope, bs_scopeId = ''run-1''\<rparr>, ac_budget = sampleRouteBudget, ac_status = OpenAccount, ac_version = 0,
     ac_reservations = []\<rparr>"

definition sampleRouter :: router_configuration where
  "sampleRouter = \<lparr>rc_freshness = \<lparr>fr_catalogMs = 3600000, fr_healthMs = 60000, fr_quotaMs = 60000, fr_capacityMs = 60000, fr_secureExecutionMs = 60000\<rparr>,
     rc_hardEvidence = \<lparr>he_requireKnownQuota = True, he_requireKnownCapacityForLocal = True, he_requireKnownCostWhenBudgeted = True,
       he_verifiedFreeOnly = False, he_minimumEstimatorAccuracy = MinimumExact\<rparr>,
     rc_protectedReserve = \<lparr>pr_requests = 1, pr_tokens = 100, pr_concurrency = 1, pr_memoryBytes = 100\<rparr>,
     rc_scoreWeights = map (\<lambda>t. (t, 10)) ROUTER_SCORE_TERM_IDS, rc_fallbacksEnabled = True, rc_fallbacksMaximumCount = 2,
     rc_confidenceMinimum = 500, rc_circuitBreaker = sampleConfiguration,
     rc_reservation = \<lparr>rm_tokenSafetyMarginBps = 1000, rm_costSafetyMarginBps = 1000, rm_durationSafetyMarginBps = 1000\<rparr>,
     rc_maximumCandidates = 10, rc_maximumRejections = 100, rc_maximumExplanationReasons = 100, rc_fingerprint = zeros\<rparr>"

definition sampleApplication :: application_configuration where
  "sampleApplication = \<lparr>cf_providers = map (\<lambda>(c, l). \<lparr>pf_instanceId = ''inst-'' @ [c], pf_providerId = ''prov'', pf_kind = Inference, pf_enabled = True,
       pf_locality = l\<rparr>) [(CHR ''a'', LocalTarget), (CHR ''b'', LocalTarget), (CHR ''c'', CloudTarget)],
     cf_modelAliases = map (\<lambda>c. \<lparr>al_alias = ''alias-'' @ [c], al_providerInstanceId = ''inst-'' @ [c], al_modelId = ''model''\<rparr>) ''abc'',
     cf_modelPreferences = [], cf_defaultAlias = None, cf_fallbackAliases = [''alias-b'', ''alias-a'', ''alias-c''], cf_preferLocal = True,
     cf_handlingPolicies = [samplePolicy], cf_preferredLocality = BalancedLocality, cf_costPriority = 50, cf_latencyPriority = 50,
     cf_fingerprint = zeros\<rparr>"

definition sampleProfile :: task_profile where
  "sampleProfile = \<lparr>tp_effective = \<lparr>tr_kind = Explain, tr_complexity = 2, tr_risk = LowRisk, tr_reasoning = MediumReasoning, tr_editScope = NoEdit,
       tr_capabilities = [Reasoning, StructuredOutput], tr_dataClassification = Secret, tr_expectedInputTokens = None,
       tr_expectedOutputTokens = Some 20\<rparr>,
     tp_requiredLocality = RequiresLocal, tp_approvalRequired = False, tp_confidenceScore = 900, tp_confidenceReasons = [], tp_fingerprint = zeros\<rparr>"

definition sampleRequest :: "routing_candidate list \<Rightarrow> string option \<Rightarrow> bool \<Rightarrow> routing_request" where
  "sampleRequest candidates explicit fallbacks = \<lparr>rr_requestId = ''request'', rr_requestedAt = toISOString 2000, rr_profile = sampleProfile,
     rr_configuration = sampleApplication, rr_routerConfigurationFingerprint = zeros, rr_budgetAccount = sampleRouteAccount,
     rr_candidates = candidates, rr_role = ''explain'', rr_surface = ThinkerInference, rr_explicitAlias = explicit, rr_allowFallbacks = fallbacks,
     rr_verifiedFreeOnly = False, rr_deadline = Some (toISOString 50000), rr_requiredMaximumLatencyMs = Some 10000, rr_expectedDurationMs = 100,
     rr_halfOpenProbeCandidateId = None, rr_fingerprint = zeros\<rparr>"

definition sampleCandidates :: "routing_candidate list" where
  "sampleCandidates = [sampleCandidate CHR ''c'' CloudTarget 300, sampleCandidate CHR ''a'' LocalTarget 2000, sampleCandidate CHR ''b'' LocalTarget 5000]"

lemma sample_fields [simp]:
  "rr_candidates (sampleRequest cs a b) = cs" "rr_configuration (sampleRequest cs a b) = sampleApplication"
  "rr_profile (sampleRequest cs a b) = sampleProfile" "rr_budgetAccount (sampleRequest cs a b) = sampleRouteAccount"
  "rr_explicitAlias (sampleRequest cs a b) = a" "rr_allowFallbacks (sampleRequest cs a b) = b"
  "(sampleRequest cs a b)\<lparr>rr_candidates := cs'\<rparr> = sampleRequest cs' a b"
  by (simp_all add: sampleRequest_def)

lemma sample_route:
  obtains d c c' where "routeParsed zeroCodec (sampleRequest sampleCandidates (Some ''alias-b'') True) sampleRouter 3000 = Inr d"
    and "rd_feasible d = [c, c']" and "rd_primary d = Some c" and "ch_candidateId c = ''candidate-b''" and "ch_candidateId c' = ''candidate-a''"
    and "ch_totalScore c < ch_totalScore c'" and "rd_validUntil d = toISOString 50000" and "rd_decidedAt d = toISOString 3000"
    and "map (\<lambda>r. (rj_candidateId r, rj_codes r)) (rd_rejections d) = [(''candidate-c'', [''CLOUD_FORBIDDEN'', ''LOCALITY_REQUIRED''])]"
proof -
  have "case routeParsed zeroCodec (sampleRequest sampleCandidates (Some ''alias-b'') True) sampleRouter 3000 of Inl _ \<Rightarrow> False
    | Inr d \<Rightarrow> (case rd_feasible d of [c, c'] \<Rightarrow> rd_primary d = Some c \<and> ch_candidateId c = ''candidate-b'' \<and> ch_candidateId c' = ''candidate-a'' \<and>
          ch_totalScore c < ch_totalScore c' | _ \<Rightarrow> False) \<and>
        rd_validUntil d = toISOString 50000 \<and> rd_decidedAt d = toISOString 3000 \<and>
        map (\<lambda>r. (rj_candidateId r, rj_codes r)) (rd_rejections d) = [(''candidate-c'', [''CLOUD_FORBIDDEN'', ''LOCALITY_REQUIRED''])]"
    by code_simp
  then show ?thesis using that by (auto split: sum.splits list.splits)
qed

lemma sample_strict:
  obtains d c where "routeParsed zeroCodec (sampleRequest [sampleCandidate CHR ''b'' LocalTarget 5000] (Some ''alias-b'') False) sampleRouter 3000 = Inr d"
    and "rd_feasible d = [c]"
proof -
  have "case routeParsed zeroCodec (sampleRequest [sampleCandidate CHR ''b'' LocalTarget 5000] (Some ''alias-b'') False) sampleRouter 3000 of Inl _ \<Rightarrow> False
    | Inr d \<Rightarrow> length (rd_feasible d) = 1"
    by code_simp
  then show ?thesis using that by (auto split: sum.splits simp: length_Suc_conv)
qed

lemma sample_account: "accountInv sampleRouteAccount"
proof -
  have "createBudgetAccount (scopeVal (ac_scope sampleRouteAccount)) (aggregateBudgetVal sampleRouteBudget) = Inr sampleRouteAccount" by code_simp
  then show ?thesis by (rule createBudgetAccount_Inr)
qed

section \<open>What a decision guarantees\<close>



text \<open>
  C36: The provider of every choice can take the work: it is configured and enabled, neither it nor the model is unavailable, its circuit
  is not open (and half open only for the probe the request was admitted for), a coding agent runs with enforced isolation, the
  prompt and the answer fit the model, and the expected latency ends before the deadline.
\<close>

theorem routed_candidates_can_run:
  assumes "routeParsed cd request configuration now = Inr d" and "c \<in> set (rd_feasible d)"
  shows "\<exists>candidate. candidate \<in> set (rr_candidates request) \<and> choiceOf c candidate \<and> canRun request candidate now"
  using assms evidence_canRun by (metis feasible_codes)

theorem routed_candidates_can_run_witness:
  "\<exists>d c candidate. routeParsed zeroCodec (sampleRequest sampleCandidates (Some ''alias-b'') True) sampleRouter 3000 = Inr d \<and>
     c \<in> set (rd_feasible d) \<and> candidate \<in> set sampleCandidates \<and> choiceOf c candidate \<and>
     canRun (sampleRequest sampleCandidates (Some ''alias-b'') True) candidate 3000"
proof (rule sample_route)
  fix d c c'
  assume d: "routeParsed zeroCodec (sampleRequest sampleCandidates (Some ''alias-b'') True) sampleRouter 3000 = Inr d" "rd_feasible d = [c, c']"
  have "c \<in> set (rd_feasible d)" by (simp add: d(2))
  then show ?thesis using routed_candidates_can_run [OF d(1), of c] d(1) by auto
qed

text \<open>
  C37: A decision holds until \<open>validUntil\<close>: at every instant from the decision until then, none of the checks of evidence and
  configuration fails for the primary, except that there may no longer be time to finish before the deadline.
\<close>

theorem decisions_hold_until_they_expire:
  assumes "routeParsed cd request configuration now = Inr d" and "rd_primary d = Some c"
    and "dateParse (rd_decidedAt d) \<le> t" and "t \<le> dateParse (rd_validUntil d)"
  shows "\<exists>candidate. candidate \<in> set (rr_candidates request) \<and> choiceOf c candidate \<and>
      set (evidenceCodes request candidate configuration t) \<subseteq> {''DEADLINE_INCOMPATIBLE''}"
proof -
  obtain candidate where candidate: "candidate \<in> set (rr_candidates request)" "choiceOf c candidate"
    "evidenceCodes request candidate configuration now = []" "validUntilOf request candidate configuration = Inr (rd_validUntil d)"
    "rd_decidedAt d = toISOString now" "validTime now"
    using assms(1,2) by (rule primary_evaluation)
  then show ?thesis using evidence_holds [OF candidate(3,4)] assms(3,4) by auto
qed

theorem decisions_hold_until_they_expire_witness:
  "\<exists>d c candidate. routeParsed zeroCodec (sampleRequest sampleCandidates (Some ''alias-b'') True) sampleRouter 3000 = Inr d \<and>
     choiceOf c candidate \<and> candidate \<in> set sampleCandidates \<and>
     set (evidenceCodes (sampleRequest sampleCandidates (Some ''alias-b'') True) candidate sampleRouter 49999) \<subseteq> {''DEADLINE_INCOMPATIBLE''}"
proof (rule sample_route)
  fix d c c'
  assume d: "routeParsed zeroCodec (sampleRequest sampleCandidates (Some ''alias-b'') True) sampleRouter 3000 = Inr d" "rd_primary d = Some c"
    "rd_validUntil d = toISOString 50000" "rd_decidedAt d = toISOString 3000"
  have "dateParse (toISOString 3000) \<le> 49999" "49999 \<le> dateParse (toISOString 50000)" by code_simp+
  then show ?thesis using decisions_hold_until_they_expire [OF d(1,2), of 49999] d by auto
qed

text \<open>
  The choices stand in the order of the ranking - first those under the alias the request asks for, then by the higher score,
  then by the fingerprint - and the primary is the first of them.
\<close>

theorem choices_are_ranked:
  assumes "routeParsed cd request configuration now = Inr d"
  shows "sorted_wrt (ranksBefore request) (rd_feasible d) \<and> map ch_rank (rd_feasible d) = map (\<lambda>i. int i + 1) [0..<length (rd_feasible d)] \<and>
    rd_primary d = (case rd_feasible d of [] \<Rightarrow> None | c # _ \<Rightarrow> Some c)"
  using choices_ranked [OF assms] ranks_numbered [OF assms] assms by (auto elim!: routeParsed_Inr)

theorem choices_are_ranked_witness:
  "\<exists>d c c'. routeParsed zeroCodec (sampleRequest sampleCandidates (Some ''alias-b'') True) sampleRouter 3000 = Inr d \<and>
     rd_feasible d = [c, c'] \<and> ranksBefore (sampleRequest sampleCandidates (Some ''alias-b'') True) c c' \<and> ch_totalScore c < ch_totalScore c'"
proof (rule sample_route)
  fix d c c'
  assume d: "routeParsed zeroCodec (sampleRequest sampleCandidates (Some ''alias-b'') True) sampleRouter 3000 = Inr d" "rd_feasible d = [c, c']"
    "ch_totalScore c < ch_totalScore c'"
  then show ?thesis using choices_are_ranked [OF d(1)] by auto
qed

text \<open>
  C38: The decision does not depend on the order in which the request lists its candidates.
\<close>

theorem routing_ignores_the_order_of_candidates:
  assumes "routeParsed cd request configuration now = Inr d" and "mset cs = mset (rr_candidates request)"
    and "distinct (map rk_fingerprint cs)"
  shows "routeParsed cd (request\<lparr>rr_candidates := cs\<rparr>) configuration now = Inr d"
  using assms by (rule candidates_permuted)

theorem routing_ignores_the_order_of_candidates_witness:
  "routeParsed zeroCodec (sampleRequest (rev sampleCandidates) (Some ''alias-b'') True) sampleRouter 3000 =
     routeParsed zeroCodec (sampleRequest sampleCandidates (Some ''alias-b'') True) sampleRouter 3000"
proof (rule sample_route)
  fix d c c'
  assume d: "routeParsed zeroCodec (sampleRequest sampleCandidates (Some ''alias-b'') True) sampleRouter 3000 = Inr d"
  have "distinct (map rk_fingerprint (rev sampleCandidates))" by code_simp
  then show ?thesis using routing_ignores_the_order_of_candidates [OF d, of "rev sampleCandidates"] d by simp
qed

text \<open>
  C39: Every candidate of the request is accounted for exactly once: it is a choice, or it is rejected with at least one code.
\<close>

theorem every_candidate_is_accounted_for:
  assumes "routeParsed cd request configuration now = Inr d"
  shows "mset (map ch_candidateFingerprint (rd_feasible d)) + mset (map rj_candidateFingerprint (rd_rejections d)) =
      mset (map rk_fingerprint (rr_candidates request)) \<and> list_all (\<lambda>r. rj_codes r \<noteq> []) (rd_rejections d)"
  using candidates_accounted_for [OF assms] by blast

theorem every_candidate_is_accounted_for_witness:
  "\<exists>d. routeParsed zeroCodec (sampleRequest sampleCandidates (Some ''alias-b'') True) sampleRouter 3000 = Inr d \<and>
     mset (map ch_candidateFingerprint (rd_feasible d)) + mset (map rj_candidateFingerprint (rd_rejections d)) =
       mset (map sampleName ''cab'')"
proof (rule sample_route)
  fix d c c'
  assume d: "routeParsed zeroCodec (sampleRequest sampleCandidates (Some ''alias-b'') True) sampleRouter 3000 = Inr d"
  have "map rk_fingerprint sampleCandidates = map sampleName ''cab''" by code_simp
  then show ?thesis using every_candidate_is_accounted_for [OF d] d by auto
qed



text \<open>
  A request for an alias without fallbacks is never routed to anything else: every choice has that alias.
\<close>

theorem strict_aliases_are_respected:
  assumes "routeParsed cd request configuration now = Inr d" and "c \<in> set (rd_feasible d)"
    and "rr_explicitAlias request = Some a" and "\<not> rr_allowFallbacks request"
  shows "ch_selectedAlias c = Some a"
  using assms by (rule strict_alias)

theorem strict_aliases_are_respected_witness:
  "\<exists>d c. routeParsed zeroCodec (sampleRequest [sampleCandidate CHR ''b'' LocalTarget 5000] (Some ''alias-b'') False) sampleRouter 3000 = Inr d \<and>
     rd_feasible d = [c] \<and> ch_selectedAlias c = Some ''alias-b''"
proof (rule sample_strict)
  fix d c
  assume d: "routeParsed zeroCodec (sampleRequest [sampleCandidate CHR ''b'' LocalTarget 5000] (Some ''alias-b'') False) sampleRouter 3000 = Inr d"
    "rd_feasible d = [c]"
  then show ?thesis using strict_aliases_are_respected [OF d(1), of c "''alias-b''"] by auto
qed

section \<open>Plans and scores\<close>

text \<open>
  A score has one component for every term, each within a thousand of zero and weighted as configured; the total is their sum,
  at most thirteen million from zero, so that it never leaves the safe integers.
\<close>

theorem scores_stay_in_bounds:
  assumes "configurationOk configuration" and "scoreCandidate request e configuration at = Inr s"
  shows "map sk_term (sd_components s) = ROUTER_SCORE_TERM_IDS \<and> list_all (componentOk configuration) (sd_components s) \<and>
    sd_totalScore s = sum_list (map sk_weightedValue (sd_components s)) \<and> \<bar>sd_totalScore s\<bar> \<le> 13000000"
  using scores_bounded [OF assms] by blast

theorem scores_stay_in_bounds_witness:
  "\<exists>e s. scoreCandidate (sampleRequest sampleCandidates (Some ''alias-b'') True) e sampleRouter (toISOString 3000) = Inr s \<and>
     map sk_term (sd_components s) = ROUTER_SCORE_TERM_IDS \<and> \<bar>sd_totalScore s\<bar> \<le> 13000000"
proof (rule sample_route)
  fix d c c'
  assume d: "routeParsed zeroCodec (sampleRequest sampleCandidates (Some ''alias-b'') True) sampleRouter 3000 = Inr d" "rd_feasible d = [c, c']"
  have c: "c \<in> set (rd_feasible d)" by (simp add: d(2))
  have cfg: "configurationOk sampleRouter"
    by (simp add: configurationOk_def freshnessOk_def marginsOk_def circuitConfigurationOk_def sampleRouter_def sampleConfiguration_def
        ROUTER_SCORE_TERM_IDS_def YEAR_MS_def)
  show ?thesis
  proof (rule choice_source [OF d(1) c])
    fix e s
    assume s: "scoreCandidate (sampleRequest sampleCandidates (Some ''alias-b'') True) e sampleRouter (toISOString 3000) = Inr s"
    then show ?thesis using scores_stay_in_bounds [OF cfg s] by blast
  qed
qed

text \<open>
  The code of a plan says how the account answers the reservation: \<open>FIT\<close> that it succeeds, \<open>BUDGET_EXCEEDED\<close> that it fails
  with the decision of the plan, \<open>CURRENCY_MISMATCH\<close> that it fails for the currency; without a known cost no command is given.
\<close>

theorem plans_predict_the_reservation:
  assumes "planBudgetReservation cd configuration input = Inr p" and "parseBudgetAccountState (pi_account input) = Inr s" and "accountInv s"
    and "ac_status s = OpenAccount" and "length (ac_reservations s) < MAX_RESERVATIONS_PER_ACCOUNT"
    and "\<forall>i. pi_reservationId input = JStr i \<longrightarrow> itemOf s i = None"
  shows "case rp_code p of
      FIT \<Rightarrow> \<exists>s'. applyAccount (plannedReserve input p) s = Inr s' \<and> ac_version s' = nextVersion (ac_version s) \<and>
        usagesOf s' = heldUsages s @ [rq_estimate (rp_quote p)] @ committedUsages s
    | BUDGET_EXCEEDED \<Rightarrow> \<exists>d. rp_decision p = Some d \<and> applyAccount (plannedReserve input p) s = Inl (BudgetExceeded d)
    | CURRENCY_MISMATCH \<Rightarrow> applyAccount (plannedReserve input p) s = fail ''currency_mismatch''
    | COST_UNKNOWN \<Rightarrow> rp_command p = None"
  using assms by (rule plan_predicts_reservation)

definition sampleInput :: plan_input where
  "sampleInput = \<lparr>pi_account = accountVal sampleRouteAccount, pi_reservationId = JStr ''r1'', pi_requestedAt = JStr (toISOString 3000),
     pi_tokenEstimate = tokenEstimateVal sampleEstimate,
     pi_costEstimate = costEstimateVal \<lparr>ce_cost = UnknownCost, ce_evidenceFingerprint = zeros, ce_fingerprint = zeros\<rparr>,
     pi_expectedDurationMs = jsInt 100\<rparr>"

lemma sample_plan:
  obtains p where "planBudgetReservation zeroCodec sampleRouter sampleInput = Inr p" and "rp_code p = FIT"
    and "tu_inputTokens (ua_tokens (rq_estimate (rp_quote p))) = 33"
proof -
  have "case planBudgetReservation zeroCodec sampleRouter sampleInput of Inl _ \<Rightarrow> False
    | Inr p \<Rightarrow> rp_code p = FIT \<and> tu_inputTokens (ua_tokens (rq_estimate (rp_quote p))) = 33"
    by code_simp
  then show ?thesis using that by (auto split: sum.splits)
qed

theorem plans_predict_the_reservation_witness:
  "\<exists>p s'. planBudgetReservation zeroCodec sampleRouter sampleInput = Inr p \<and> rp_code p = FIT \<and>
     applyAccount (plannedReserve sampleInput p) sampleRouteAccount = Inr s' \<and> usagesOf s' = [rq_estimate (rp_quote p)]"
proof (rule sample_plan)
  fix p
  assume p: "planBudgetReservation zeroCodec sampleRouter sampleInput = Inr p" "rp_code p = FIT"
  have "parseBudgetAccountState (pi_account sampleInput) = Inr sampleRouteAccount" by code_simp
  from plans_predict_the_reservation [OF p(1) this sample_account] p show ?thesis
    by (auto simp: sampleRouteAccount_def itemOf_def present_def heldUsages_def committedUsages_def MAX_RESERVATIONS_PER_ACCOUNT_def)
qed

text \<open>
  A quote covers the estimates it is made of: each of its amounts is the estimate with its margin, rounded up by less than one.
\<close>

theorem quotes_cover_the_estimates:
  assumes "planBudgetReservation cd configuration input = Inr p" and "parseTokenEstimate cd (pi_tokenEstimate input) = Inr t"
    and "parseRoutingCostEstimate cd (pi_costEstimate input) = Inr c" and "pi_expectedDurationMs input = jsInt d"
  shows "quoteCovers (rc_reservation configuration) t (ce_cost c) d (rq_estimate (rp_quote p))"
proof (rule planBudgetReservation_Inr [OF assms(1)])
  fix s t' c' i at d'
  assume "parseTokenEstimate cd (pi_tokenEstimate input) = Inr t'" "parseRoutingCostEstimate cd (pi_costEstimate input) = Inr c'"
    "ensureSafeInteger (pi_expectedDurationMs input) 0 10000000000000 = Inr d'"
    "quotedEstimate (rc_reservation configuration) t' (ce_cost c') d' = Inr (rq_estimate (rp_quote p))"
  then show ?thesis using assms(2,3,4) quotedEstimate_Inr(1) by (auto dest!: kept_integer)
qed

theorem quotes_cover_the_estimates_witness:
  "\<exists>p. planBudgetReservation zeroCodec sampleRouter sampleInput = Inr p \<and>
     quoteCovers (rc_reservation sampleRouter) sampleEstimate UnknownCost 100 (rq_estimate (rp_quote p))"
proof (rule sample_plan)
  fix p
  assume p: "planBudgetReservation zeroCodec sampleRouter sampleInput = Inr p"
  have "parseTokenEstimate zeroCodec (pi_tokenEstimate sampleInput) = Inr sampleEstimate"
    "parseRoutingCostEstimate zeroCodec (pi_costEstimate sampleInput) =
       Inr \<lparr>ce_cost = UnknownCost, ce_evidenceFingerprint = zeros, ce_fingerprint = zeros\<rparr>" "pi_expectedDurationMs sampleInput = jsInt 100"
    by code_simp+
  from quotes_cover_the_estimates [OF p this] p show ?thesis by simp
qed

end
