(* ===== verification/Policy_Broker.thy ===== *)
theory Policy_Broker
  imports Policy_Types
begin

text \<open>
  \<open>packages/policy/src/policy.ts\<close>, second part: \<open>createDeterministicPolicyBroker\<close> and its \<open>evaluate\<close>. The loop over the
  matched rules and the checks after it are the steps of \<open>judge\<close>, in the order of the code; a reason is its code. SHA-256
  is a field of the codec, \<open>localeCompare\<close> the argument \<open>collate\<close>, the source of approval ids the argument \<open>idSource\<close>
  (\<open>None\<close>: no source, or none for this call), the observer a predicate that says whether it throws.
\<close>

section \<open>Scopes, capabilities and the manual clock\<close>

definition scopeCovers :: "approval_scope \<Rightarrow> approval_scope \<Rightarrow> bool" where
  "scopeCovers granted requested \<longleftrightarrow>
     list_all2 (\<lambda>g r. g = None \<or> g = r) (scopeValues granted) (scopeValues requested)"

fun providerOffers :: "provider_descriptor \<Rightarrow> policy_capability \<Rightarrow> bool" where
  "providerOffers p StreamingCap = pc_streaming (pd_capabilities p)"
| "providerOffers p StructuredOutputCap = pc_structuredOutput (pd_capabilities p)"
| "providerOffers p ToolCallingCap = pc_toolCalling (pd_capabilities p)"
| "providerOffers p ImageInputCap = pc_imageInput (pd_capabilities p)"
| "providerOffers p RepositoryEditingCap = pc_repositoryEditing (pd_capabilities p)"
| "providerOffers p CommandExecutionCap = pc_commandExecution (pd_capabilities p)"
| "providerOffers p NetworkAccessCap = pc_networkAccess (pd_capabilities p)"
| "providerOffers p ResumabilityCap = pc_resumability (pd_capabilities p)"
| "providerOffers p DataRetentionCap = pd_retainsData p"
| "providerOffers p ModelTrainingCap = pd_trainsOnInputs p"

definition capabilityAvailable :: "policy_capability \<Rightarrow> provider_descriptor option \<Rightarrow> bool" where
  "capabilityAvailable capability provider =
     (case provider of None \<Rightarrow> False | Some p \<Rightarrow> providerOffers p capability)"

definition createManualPolicyClock :: "jsval \<Rightarrow> domain_error + int" where
  "createManualPolicyClock startIso = bindE (ensureTimestamp startIso) (\<lambda>start. Inr (dateParse start))"

definition manualClockNow :: "int \<Rightarrow> clock_reading" where
  "manualClockNow time = ClockDate time"

definition advanceManualClock :: "jsval \<Rightarrow> (int, domain_error, unit) action" where
  "advanceManualClock ms =
     bindS (liftS (ensureSafeInteger ms 0 86400000)) (\<lambda>step. modifyS (\<lambda>time. time + step))"

section \<open>Values that are digested\<close>

definition textsVal :: "('a \<Rightarrow> string) \<Rightarrow> 'a list \<Rightarrow> jsval" where
  "textsVal text xs = plainArr (map (\<lambda>x. JStr (text x)) xs)"

definition approvalScopeVal :: "approval_scope \<Rightarrow> jsval" where
  "approvalScopeVal s = plainObj
     [(''projectId'', jsNullable JStr (as_projectId s)), (''taskId'', jsNullable JStr (as_taskId s)),
      (''providerInstanceId'', jsNullable JStr (as_providerInstanceId s)), (''workspaceId'', jsNullable JStr (as_workspaceId s)),
      (''operationId'', jsNullable JStr (as_operationId s)), (''traceId'', jsNullable JStr (as_traceId s))]"

definition digestedEvidenceVal :: "approval_evidence \<Rightarrow> jsval" where
  "digestedEvidenceVal e = plainObj
     [(''approvalRequestId'', JStr (av_approvalRequestId e)), (''action'', JStr (policyActionText (av_action e))),
      (''risk'', JStr (taskRiskText (av_risk e))), (''scope'', approvalScopeVal (av_scope e)), (''subjectDigest'', JStr (av_subjectDigest e)),
      (''usage'', JStr (approvalUsageText (av_usage e))), (''approverClass'', JStr (approverClassText (av_approverClass e))),
      (''result'', JStr (approvalResultText (av_result e))), (''decidedAt'', JStr (av_decidedAt e)), (''expiresAt'', JStr (av_expiresAt e)),
      (''revokedAt'', jsNullable JStr (av_revokedAt e)), (''consumedAt'', jsNullable JStr (av_consumedAt e)),
      (''evidenceRef'', JStr (av_evidenceRef e))]"

definition templateVal :: "approval_template \<Rightarrow> jsval" where
  "templateVal a = plainObj
     [(''approverClass'', JStr (approverClassText (at_approverClass a))), (''usage'', JStr (approvalUsageText (at_usage a))),
      (''ttlMs'', jsInt (at_ttlMs a))]"

definition ruleVal :: "policy_rule \<Rightarrow> jsval" where
  "ruleVal p = plainObj
     [(''schemaVersion'', jsInt 1), (''id'', JStr (pl_id p)), (''authority'', JStr (authorityText (pl_authority p))),
      (''effect'', JStr (ruleEffectText (pl_effect p))), (''actions'', textsVal policyActionText (pl_actions p)),
      (''classifications'', textsVal classificationText (pl_classifications p)), (''risks'', textsVal taskRiskText (pl_risks p)),
      (''requiredTransformations'', textsVal redactionText (pl_requiredTransformations p)),
      (''approval'', jsNullable templateVal (pl_approval p)),
      (''requiredLocality'', JStr (requiredLocalityText (pl_requiredLocality p))),
      (''forbidInputLogging'', JBool (pl_forbidInputLogging p)), (''forbidOutputLogging'', JBool (pl_forbidOutputLogging p)),
      (''forbidArtifactPersistence'', JBool (pl_forbidArtifactPersistence p)), (''forbidRetention'', JBool (pl_forbidRetention p)),
      (''maxRetentionDays'', jsNullable jsInt (pl_maxRetentionDays p)),
      (''forbiddenCapabilities'', textsVal policyCapabilityText (pl_forbiddenCapabilities p))]"

definition modelVal :: "model_capabilities \<Rightarrow> jsval" where
  "modelVal m = jsonVal (modelCapabilitiesJson m)"

definition fingerprintInput :: "string \<Rightarrow> string \<Rightarrow> policy_request \<Rightarrow> policy_rule list \<Rightarrow> jsval" where
  "fingerprintInput policyVersion nowIso q matched = plainObj
     [(''policyVersion'', JStr policyVersion), (''evaluatedAt'', JStr nowIso), (''action'', JStr (policyActionText (qr_action q))),
      (''classification'', JStr (classificationText (qr_classification q))), (''handlingPolicy'', policyVal (qr_handlingPolicy q)),
      (''risk'', JStr (taskRiskText (qr_risk q))), (''locality'', JStr (requestedLocalityText (qr_locality q))),
      (''provider'', jsNullable (\<lambda>p. jsonVal (providerDescriptorJson p)) (qr_provider q)),
      (''model'', jsNullable modelVal (qr_model q)), (''scope'', approvalScopeVal (qr_scope q)),
      (''subjectDigest'', jsNullable JStr (qr_subjectDigest q)),
      (''requestedCapabilities'', textsVal policyCapabilityText (qr_requestedCapabilities q)),
      (''transformationsApplied'', textsVal redactionText (qr_transformationsApplied q)),
      (''approvals'', plainArr (map digestedEvidenceVal (qr_approvalEvidence q))),
      (''retentionDays'', jsNullable jsInt (qr_retentionDays q)), (''requesterKind'', JStr (requesterKindText (qr_requesterKind q))),
      (''matchedRules'', plainArr (map ruleVal matched))]"

section \<open>The broker\<close>

record policy_broker =
  br_policyVersion :: string
  br_rules :: "policy_rule list"

fun authorityRank :: "policy_authority \<Rightarrow> int" where
  "authorityRank OrganizationAuthority = 0"
| "authorityRank ProjectAuthority = 1"
| "authorityRank UserAuthority = 2"

definition ruleAhead :: "(string \<Rightarrow> string \<Rightarrow> int) \<Rightarrow> policy_rule \<Rightarrow> policy_rule \<Rightarrow> bool" where
  "ruleAhead collate a b \<longleftrightarrow>
     (let byRank = authorityRank (pl_authority a) - authorityRank (pl_authority b) in
      if byRank \<noteq> 0 then byRank \<le> 0 else collate (pl_id a) (pl_id b) \<le> 0)"

definition createDeterministicPolicyBroker ::
    "(string \<Rightarrow> string \<Rightarrow> int) \<Rightarrow> jsval \<Rightarrow> jsval list \<Rightarrow> policy_error + policy_broker" where
  "createDeterministicPolicyBroker collate policyVersion rules =
     bindE (liftPolicy (ensureString policyVersion 1 64 SAFE_ID)) (\<lambda>version.
     bindE (liftPolicy (mapE parsePolicyRule rules)) (\<lambda>parsed.
     let sorted = sortBy (ruleAhead collate) parsed in
     if \<not> distinct (map pl_id sorted) then Inl (PolicyError INVALID_POLICY)
     else Inr \<lparr>br_policyVersion = version, br_rules = sorted\<rparr>))"

definition ruleMatches :: "policy_request \<Rightarrow> policy_rule \<Rightarrow> bool" where
  "ruleMatches q p \<longleftrightarrow> qr_action q \<in> set (pl_actions p) \<and>
     (pl_classifications p = [] \<or> qr_classification q \<in> set (pl_classifications p)) \<and>
     (pl_risks p = [] \<or> qr_risk q \<in> set (pl_risks p))"

section \<open>The loop over the matched rules\<close>

record approval_requirement =
  aq_approvalRequestId :: string
  aq_action :: policy_action
  aq_risk :: task_risk
  aq_scope :: approval_scope
  aq_subjectDigest :: string
  aq_expiresAt :: string
  aq_usage :: approval_usage
  aq_approverClass :: approver_class
  aq_traceId :: string

text \<open>The local variables of \<open>evaluate\<close>; a \<open>Set\<close> is the list of its members in the order in which they were added.\<close>

record policy_locals =
  lo_reasons :: "string list"
  lo_transformations :: "redaction_kind list"
  lo_approvals :: "approval_requirement list"
  lo_approvalsToConsume :: "string list"
  lo_missingApprovals :: "approval_requirement list"
  lo_forbidden :: "policy_capability list"
  lo_allowedByRule :: bool
  lo_denied :: bool
  lo_requiredLocality :: required_locality
  lo_inputAllowed :: bool
  lo_outputAllowed :: bool
  lo_retentionAllowed :: bool
  lo_maxDays :: "int option"

definition initialLocals :: "policy_request \<Rightarrow> policy_locals" where
  "initialLocals q = (let logs = dp_logRetentionAllowed (qr_handlingPolicy q) in
     \<lparr>lo_reasons = [], lo_transformations = [], lo_approvals = [], lo_approvalsToConsume = [], lo_missingApprovals = [],
      lo_forbidden = [], lo_allowedByRule = False, lo_denied = False, lo_requiredLocality = AnyLocality,
      lo_inputAllowed = logs, lo_outputAllowed = logs, lo_retentionAllowed = logs, lo_maxDays = None\<rparr>)"

definition addMember :: "'a \<Rightarrow> 'a list \<Rightarrow> 'a list" where
  "addMember x xs = (if x \<in> set xs then xs else xs @ [x])"

definition addMembers :: "'a list \<Rightarrow> 'a list \<Rightarrow> 'a list" where
  "addMembers items xs = fold addMember items xs"

definition denyWith :: "string list \<Rightarrow> policy_locals \<Rightarrow> policy_locals" where
  "denyWith codes s = s\<lparr>lo_denied := True, lo_reasons := lo_reasons s @ codes\<rparr>"

definition denyIf :: "bool \<Rightarrow> string \<Rightarrow> policy_locals \<Rightarrow> policy_locals" where
  "denyIf c code s = (if c then denyWith [code] s else s)"

definition lowerDays :: "int option \<Rightarrow> int option \<Rightarrow> int option" where
  "lowerDays ruleDays maxDays =
     (case ruleDays of None \<Rightarrow> maxDays
      | Some d \<Rightarrow> (case maxDays of None \<Rightarrow> Some d | Some m \<Rightarrow> Some (min m d)))"

definition approvalIdFor ::
    "codec \<Rightarrow> (string \<Rightarrow> policy_request \<Rightarrow> string option) \<Rightarrow> string \<Rightarrow> policy_rule \<Rightarrow> policy_request \<Rightarrow> string \<Rightarrow> domain_error + string" where
  "approvalIdFor cd idSource policyVersion rule q subject =
     (case idSource (pl_id rule) q of
        Some given \<Rightarrow> Inr given
      | None \<Rightarrow>
          bindE (digest cd (plainObj
            [(''policyVersion'', JStr policyVersion), (''ruleId'', JStr (pl_id rule)), (''action'', JStr (policyActionText (qr_action q))),
             (''risk'', JStr (taskRiskText (qr_risk q))), (''scope'', approvalScopeVal (qr_scope q)), (''subjectDigest'', JStr subject),
             (''traceId'', JStr (xt_traceId (qr_trace q)))])) (\<lambda>hash.
          Inr (''approval-'' @ take 24 hash)))"

definition expiryOf :: "int \<Rightarrow> int \<Rightarrow> domain_error + string" where
  "expiryOf now ttlMs = (if validTime (now + ttlMs) then Inr (toISOString (now + ttlMs)) else Inl Foreign)"

text \<open>What a rule does before its approval is looked at.\<close>

definition restrictBy :: "policy_rule \<Rightarrow> policy_locals \<Rightarrow> policy_locals" where
  "restrictBy rule s =
     (let s1 = denyIf (pl_effect rule = DenyEffect) ''RULE_DENIED'' s in
      s1\<lparr>lo_allowedByRule := lo_allowedByRule s1 \<or> pl_effect rule = AllowEffect \<or> pl_effect rule = ConditionalEffect,
         lo_transformations := addMembers (pl_requiredTransformations rule) (lo_transformations s1),
         lo_requiredLocality := (if pl_requiredLocality rule = RequiresLocal then RequiresLocal else lo_requiredLocality s1),
         lo_inputAllowed := lo_inputAllowed s1 \<and> \<not> pl_forbidInputLogging rule,
         lo_outputAllowed := lo_outputAllowed s1 \<and> \<not> pl_forbidOutputLogging rule,
         lo_retentionAllowed := lo_retentionAllowed s1 \<and> \<not> pl_forbidRetention rule,
         lo_maxDays := lowerDays (pl_maxRetentionDays rule) (lo_maxDays s1),
         lo_forbidden := addMembers (pl_forbiddenCapabilities rule) (lo_forbidden s1)\<rparr>)"

definition applyRule ::
    "codec \<Rightarrow> (string \<Rightarrow> policy_request \<Rightarrow> string option) \<Rightarrow> string \<Rightarrow> policy_request \<Rightarrow> int \<Rightarrow> policy_rule \<Rightarrow> policy_locals \<Rightarrow>
     domain_error + policy_locals" where
  "applyRule cd idSource policyVersion q now rule s =
     (let s1 = restrictBy rule s in
      case pl_approval rule of
        None \<Rightarrow> Inr s1
      | Some template \<Rightarrow>
          (case qr_subjectDigest q of
             None \<Rightarrow> Inr (denyWith [''APPROVAL_SUBJECT_REQUIRED''] s1)
           | Some subject \<Rightarrow>
               bindE (approvalIdFor cd idSource policyVersion rule q subject) (\<lambda>approvalRequestId.
               bindE (expiryOf now (at_ttlMs template)) (\<lambda>expiresAt.
               Inr (s1\<lparr>lo_approvals := lo_approvals s1 @
                 [\<lparr>aq_approvalRequestId = approvalRequestId, aq_action = qr_action q, aq_risk = qr_risk q, aq_scope = qr_scope q,
                   aq_subjectDigest = subject, aq_expiresAt = expiresAt, aq_usage = at_usage template,
                   aq_approverClass = at_approverClass template, aq_traceId = xt_traceId (qr_trace q)\<rparr>]\<rparr>)))))"

section \<open>The checks after the loop\<close>

definition disclosureActions :: "policy_action list" where
  "disclosureActions = [ProviderDisclosure, ModelEligibility, CloudExecution]"

definition disclosureTargetVal :: "provider_descriptor \<Rightarrow> jsval" where
  "disclosureTargetVal p = plainObj
     [(''locality'', JStr (localityText (pd_locality p))), (''retainsData'', JBool (pd_retainsData p)),
      (''capabilities'', capabilitiesVal ((if pd_retainsData p then [DataRetention] else []) @
         (if pd_trainsOnInputs p then [ModelTraining] else [])))]"

definition disclosureCheck :: "policy_request \<Rightarrow> string \<Rightarrow> policy_locals \<Rightarrow> domain_error + policy_locals" where
  "disclosureCheck q nowIso s =
     (case qr_provider q of
        None \<Rightarrow> Inr s
      | Some p \<Rightarrow>
          if qr_action q \<notin> set disclosureActions then Inr s
          else bindE (evaluateDisclosure (policyVal (qr_handlingPolicy q)) (disclosureTargetVal p) (plainObj [(''evaluatedAt'', JStr nowIso)])) (\<lambda>d.
            let s1 = (if \<not> pd_allowed d then denyWith (pd_reasons d) s else s) in
            Inr (s1\<lparr>lo_transformations := addMembers (pd_requiredTransformations d) (lo_transformations s1),
              lo_requiredLocality := (if dp_localExecutionRequired (qr_handlingPolicy q) then RequiresLocal else lo_requiredLocality s1)\<rparr>)))"

definition classificationCheck :: "policy_request \<Rightarrow> policy_locals \<Rightarrow> policy_locals" where
  "classificationCheck q s =
     denyIf (case qr_provider q of None \<Rightarrow> False | Some p \<Rightarrow> qr_classification q \<notin> set (pd_supportedClassifications p))
       ''PROVIDER_CLASSIFICATION_UNSUPPORTED'' s"

definition executionCheck :: "policy_request \<Rightarrow> policy_locals \<Rightarrow> policy_locals" where
  "executionCheck q s =
     denyIf (qr_action q = LocalExecution \<and> qr_locality q \<noteq> LocalRequested \<or>
             qr_action q = CloudExecution \<and> qr_locality q \<noteq> CloudRequested) ''LOCALITY_MISMATCH'' s"

definition modelNeedsVal :: "policy_request \<Rightarrow> required_locality \<Rightarrow> jsval" where
  "modelNeedsVal q required = plainObj
     [(''minContextWindowTokens'', JNull), (''minOutputTokens'', JNull),
      (''requireToolUse'', JBool (ToolCallingCap \<in> set (qr_requestedCapabilities q))),
      (''requireStructuredOutput'', JBool (StructuredOutputCap \<in> set (qr_requestedCapabilities q))),
      (''requireVision'', JBool (ImageInputCap \<in> set (qr_requestedCapabilities q))),
      (''requireLocalExecution'', JBool (required = RequiresLocal)),
      (''minCodingCapability'', JNull), (''minReasoningCapability'', JNull)]"

definition modelCheck :: "policy_request \<Rightarrow> policy_locals \<Rightarrow> domain_error + policy_locals" where
  "modelCheck q s =
     (case qr_model q of
        None \<Rightarrow> Inr s
      | Some m \<Rightarrow>
          bindE (findUnmetRequirements (modelVal m) (modelNeedsVal q (lo_requiredLocality s))) (\<lambda>unmet.
          Inr (denyIf (length unmet > 0) ''MODEL_CAPABILITY_MISMATCH'' s)))"

definition capabilityCheck :: "policy_request \<Rightarrow> policy_locals \<Rightarrow> policy_locals" where
  "capabilityCheck q s =
     fold (\<lambda>capability s'. denyIf (capability \<in> set (lo_forbidden s') \<or> \<not> capabilityAvailable capability (qr_provider q))
       ''CAPABILITY_FORBIDDEN'' s') (qr_requestedCapabilities q) s"

definition localityCheck :: "policy_request \<Rightarrow> policy_locals \<Rightarrow> policy_locals" where
  "localityCheck q s =
     denyIf (lo_requiredLocality s = RequiresLocal \<and> qr_locality q = CloudRequested) ''LOCALITY_MISMATCH'' s"

definition artifactCheck :: "policy_request \<Rightarrow> policy_rule list \<Rightarrow> policy_locals \<Rightarrow> policy_locals" where
  "artifactCheck q matched s =
     denyIf (qr_action q = ArtifactPersistence \<and>
       (\<not> dp_artifactPersistenceAllowed (qr_handlingPolicy q) \<or> list_ex pl_forbidArtifactPersistence matched))
       ''ARTIFACT_PERSISTENCE_FORBIDDEN'' s"

definition loggingCheck :: "policy_request \<Rightarrow> policy_locals \<Rightarrow> policy_locals" where
  "loggingCheck q s =
     (let s1 = denyIf (qr_action q = InputLogging \<and> \<not> lo_inputAllowed s) ''INPUT_LOGGING_FORBIDDEN'' s in
      denyIf (qr_action q = OutputLogging \<and> \<not> lo_outputAllowed s1) ''OUTPUT_LOGGING_FORBIDDEN'' s1)"

definition exceedsDays :: "int option \<Rightarrow> int option \<Rightarrow> bool" where
  "exceedsDays requested maxDays =
     (case (maxDays, requested) of (Some m, Some r) \<Rightarrow> r > m | _ \<Rightarrow> False)"

definition retentionCheck :: "policy_request \<Rightarrow> policy_locals \<Rightarrow> policy_locals" where
  "retentionCheck q s =
     denyIf (qr_action q = RetentionAction \<and> (\<not> lo_retentionAllowed s \<or> exceedsDays (qr_retentionDays q) (lo_maxDays s)))
       ''RETENTION_FORBIDDEN'' s"

section \<open>Approval evidence\<close>

definition deniesRequirement :: "string \<Rightarrow> approval_requirement \<Rightarrow> approval_evidence \<Rightarrow> bool" where
  "deniesRequirement nowIso need item \<longleftrightarrow>
     av_approvalRequestId item = aq_approvalRequestId need \<and> av_subjectDigest item = aq_subjectDigest need \<and>
     av_result item = DeniedResult \<and> av_revokedAt item = None \<and> strLess nowIso (av_expiresAt item)"

definition meetsRequirement :: "policy_request \<Rightarrow> string \<Rightarrow> approval_requirement \<Rightarrow> approval_evidence \<Rightarrow> bool" where
  "meetsRequirement q nowIso need item \<longleftrightarrow>
     av_approvalRequestId item = aq_approvalRequestId need \<and> av_action item = aq_action need \<and> av_risk item = aq_risk need \<and>
     av_subjectDigest item = aq_subjectDigest need \<and> scopeCovers (av_scope item) (qr_scope q) \<and>
     av_approverClass item = aq_approverClass need \<and> av_result item = ApprovedResult \<and> strLess nowIso (av_expiresAt item) \<and>
     av_revokedAt item = None \<and> (av_usage item = Reusable \<or> av_consumedAt item = None)"

definition settleApproval :: "policy_request \<Rightarrow> string \<Rightarrow> approval_requirement \<Rightarrow> policy_locals \<Rightarrow> policy_locals" where
  "settleApproval q nowIso need s =
     (if find (deniesRequirement nowIso need) (qr_approvalEvidence q) \<noteq> None then denyWith [''APPROVAL_DENIED''] s
      else case find (meetsRequirement q nowIso need) (qr_approvalEvidence q) of
        None \<Rightarrow> s\<lparr>lo_missingApprovals := lo_missingApprovals s @ [need]\<rparr>
      | Some evidence \<Rightarrow>
          if qr_requesterKind q = ModelRequester then s\<lparr>lo_missingApprovals := lo_missingApprovals s @ [need]\<rparr>
          else if av_usage evidence = OneShot
            then s\<lparr>lo_approvalsToConsume := lo_approvalsToConsume s @ [av_approvalRequestId evidence]\<rparr>
          else s)"

definition settleApprovals :: "(string \<Rightarrow> string \<Rightarrow> int) \<Rightarrow> policy_request \<Rightarrow> string \<Rightarrow> policy_locals \<Rightarrow> policy_locals" where
  "settleApprovals collate q nowIso s =
     fold (settleApproval q nowIso)
       (sortBy (\<lambda>a b. collate (aq_approvalRequestId a) (aq_approvalRequestId b) \<le> 0) (lo_approvals s)) s"

section \<open>The decision\<close>

record policy_audit =
  au_action :: policy_action
  au_outcome :: policy_outcome
  au_code :: string
  au_classification :: data_classification
  au_evaluatedAt :: string
  au_traceId :: string
  au_matchedRuleIds :: "string list"

record broker_decision =
  dn_outcome :: policy_outcome
  dn_code :: string
  dn_reasons :: "string list"
  dn_matchedRuleIds :: "string list"
  dn_requiredTransformations :: "redaction_kind list"
  dn_requiredApprovals :: "approval_requirement list"
  dn_requiredLocality :: required_locality
  dn_inputAllowed :: bool
  dn_outputAllowed :: bool
  dn_retentionAllowed :: bool
  dn_maxDays :: "int option"
  dn_capabilityConstraints :: "policy_capability list"
  dn_approvalsToConsume :: "string list"
  dn_audit :: policy_audit
  dn_policyVersion :: string
  dn_fingerprint :: string

definition missingTransformations :: "policy_request \<Rightarrow> policy_locals \<Rightarrow> redaction_kind list" where
  "missingTransformations q s =
     filter (\<lambda>item. item \<notin> set (qr_transformationsApplied q)) (sortTexts redactionText (lo_transformations s))"

definition sortStrings :: "string list \<Rightarrow> string list" where
  "sortStrings xs = map fst (sortKeys (map (\<lambda>x. (x, ())) xs))"

text \<open>Everything up to the missing transformations and approvals.\<close>

definition judge ::
    "codec \<Rightarrow> (string \<Rightarrow> string \<Rightarrow> int) \<Rightarrow> (string \<Rightarrow> policy_request \<Rightarrow> string option) \<Rightarrow> policy_broker \<Rightarrow> policy_request \<Rightarrow> int \<Rightarrow>
     domain_error + policy_locals" where
  "judge cd collate idSource broker q now =
     (let nowIso = toISOString now; matched = filter (ruleMatches q) (br_rules broker) in
      bindE (foldE (applyRule cd idSource (br_policyVersion broker) q now) matched (initialLocals q)) (\<lambda>s1.
      let s2 = denyIf (\<not> lo_allowedByRule s1) ''DEFAULT_DENY'' s1 in
      bindE (disclosureCheck q nowIso s2) (\<lambda>s3.
      let s4 = executionCheck q (classificationCheck q s3) in
      bindE (modelCheck q s4) (\<lambda>s5.
      let s6 = localityCheck q (capabilityCheck q s5);
          s7 = retentionCheck q (loggingCheck q (artifactCheck q matched s6)) in
      Inr (settleApprovals collate q nowIso s7)))))"

definition conditionsRemain :: "policy_request \<Rightarrow> policy_locals \<Rightarrow> bool" where
  "conditionsRemain q s \<longleftrightarrow> \<not> lo_denied s \<and>
     (length (missingTransformations q s) > 0 \<or> length (lo_missingApprovals s) > 0 \<or>
      lo_requiredLocality s = RequiresLocal \<and> qr_locality q = UnspecifiedLocality)"

definition outcomeOf :: "policy_request \<Rightarrow> policy_locals \<Rightarrow> policy_outcome" where
  "outcomeOf q s = (if lo_denied s then PolicyDenied else if conditionsRemain q s then PolicyConditional else PolicyAllowed)"

fun outcomeCode :: "policy_outcome \<Rightarrow> string" where
  "outcomeCode PolicyDenied = ''POLICY_DENIED''"
| "outcomeCode PolicyConditional = ''POLICY_CONDITIONS_REQUIRED''"
| "outcomeCode PolicyAllowed = ''POLICY_ALLOWED''"

definition decisionFrom :: "policy_broker \<Rightarrow> policy_request \<Rightarrow> string \<Rightarrow> policy_locals \<Rightarrow> string \<Rightarrow> broker_decision" where
  "decisionFrom broker q nowIso s fingerprint =
     (let outcome = outcomeOf q s; ids = map pl_id (filter (ruleMatches q) (br_rules broker)) in
      \<lparr>dn_outcome = outcome, dn_code = outcomeCode outcome,
       dn_reasons = lo_reasons s @ (if conditionsRemain q s then [''CONDITIONS_REQUIRED''] else []),
       dn_matchedRuleIds = ids, dn_requiredTransformations = missingTransformations q s,
       dn_requiredApprovals = lo_missingApprovals s, dn_requiredLocality = lo_requiredLocality s,
       dn_inputAllowed = lo_inputAllowed s, dn_outputAllowed = lo_outputAllowed s, dn_retentionAllowed = lo_retentionAllowed s,
       dn_maxDays = lo_maxDays s, dn_capabilityConstraints = sortTexts policyCapabilityText (lo_forbidden s),
       dn_approvalsToConsume = sortStrings (lo_approvalsToConsume s),
       dn_audit = \<lparr>au_action = qr_action q, au_outcome = outcome, au_code = outcomeCode outcome,
         au_classification = qr_classification q, au_evaluatedAt = nowIso, au_traceId = xt_traceId (qr_trace q),
         au_matchedRuleIds = ids\<rparr>,
       dn_policyVersion = br_policyVersion broker, dn_fingerprint = fingerprint\<rparr>)"

text \<open>\<open>evaluate\<close> for a request that has been parsed.\<close>

definition evaluateRequest ::
    "codec \<Rightarrow> (string \<Rightarrow> string \<Rightarrow> int) \<Rightarrow> (string \<Rightarrow> policy_request \<Rightarrow> string option) \<Rightarrow> (policy_audit \<Rightarrow> bool) \<Rightarrow> policy_broker \<Rightarrow>
     policy_request \<Rightarrow> clock_reading \<Rightarrow> policy_error + broker_decision" where
  "evaluateRequest cd collate idSource observerThrows broker q clock =
     (case clock of
        ClockDate now \<Rightarrow>
          if \<not> validTime now then Inl (PolicyDomain Foreign)
          else
            bindE (liftPolicy (judge cd collate idSource broker q now)) (\<lambda>s.
            bindE (liftPolicy (digest cd (fingerprintInput (br_policyVersion broker) (toISOString now) q
              (filter (ruleMatches q) (br_rules broker))))) (\<lambda>fingerprint.
            let decision = decisionFrom broker q (toISOString now) s fingerprint in
            if observerThrows (dn_audit decision) then Inl (PolicyError INVALID_POLICY_REQUEST) else Inr decision))
      | _ \<Rightarrow> Inl (PolicyDomain Foreign))"

definition evaluate_policy ::
    "codec \<Rightarrow> (string \<Rightarrow> string \<Rightarrow> int) \<Rightarrow> (string \<Rightarrow> policy_request \<Rightarrow> string option) \<Rightarrow> (policy_audit \<Rightarrow> bool) \<Rightarrow> policy_broker \<Rightarrow>
     jsval \<Rightarrow> clock_reading \<Rightarrow> policy_error + broker_decision" where
  "evaluate_policy cd collate idSource observerThrows broker rawRequest clock =
     bindE (liftPolicy (parsePolicyRequest collate rawRequest)) (\<lambda>q.
     evaluateRequest cd collate idSource observerThrows broker q clock)"

end
