(* ===== verification/Policy_Laws.thy ===== *)
theory Policy_Laws
  imports Policy_Broker
begin

text \<open>
  What the steps of \<open>evaluate\<close> amount to: the parsed policy and model are accepted again by the functions they are passed
  to, the loop over the matched rules accumulates over the set of those rules, and the checks and the approvals deny
  exactly under their conditions.
\<close>

section \<open>Parsed requests\<close>

definition requestOk :: "policy_request \<Rightarrow> bool" where
  "requestOk q \<longleftrightarrow> policyOk (qr_handlingPolicy q) \<and> dp_classification (qr_handlingPolicy q) = qr_classification q \<and>
     pred_option (\<lambda>m. \<exists>v. parseModelCapabilities v = Inr m) (qr_model q)"

lemma parsePolicyRequest_Inr:
  assumes "parsePolicyRequest collate v = Inr q"
  obtains r where "requestConflict q = None" "parseDataHandlingPolicy (fld r ''handlingPolicy'') = Inr (qr_handlingPolicy q)"
    "ensureNullable (fld r ''model'') parseModelCapabilities = Inr (qr_model q)"
    "ensureNullable (fld r ''provider'') parseProviderDescriptor = Inr (qr_provider q)"
    "parseEvidenceList collate (fld r ''approvalEvidence'') = Inr (qr_approvalEvidence q)"
    "parseApprovalScope (fld r ''scope'') = Inr (qr_scope q)"
    "ensureNullable (fld r ''subjectDigest'') (\<lambda>raw. ensureString raw 1 64 HEX_64) = Inr (qr_subjectDigest q)"
    "parseExecutionTraceMetadata (fld r ''trace'') = Inr (qr_trace q)"
    "ensureEnumArray (fld r ''requestedCapabilities'') policyCapabilityText POLICY_CAPABILITIES (length POLICY_CAPABILITIES) =
       Inr (qr_requestedCapabilities q)"
    "ensureEnumArray (fld r ''transformationsApplied'') redactionText REDACTION_KINDS (length REDACTION_KINDS) = Inr (qr_transformationsApplied q)"
proof -
  have "(case requestConflict p of Some code \<Rightarrow> fail code | None \<Rightarrow> Inr p) = Inr q \<longleftrightarrow> requestConflict q = None \<and> p = q" for p
    by (cases "requestConflict p") auto
  note unfolded = assms [unfolded parsePolicyRequest_def Let_def bindE_Inr_iff this]
  from unfolded show ?thesis
    apply (elim exE conjE)
    subgoal for r
      by (rule that [of r]; hypsubst; simp only: policy_request.simps)
    done
qed

lemma parsePolicyRequest_ok:
  assumes "parsePolicyRequest collate v = Inr q"
  shows "requestOk q"
  using assms
proof (rule parsePolicyRequest_Inr)
  fix r
  assume c: "requestConflict q = None" and p: "parseDataHandlingPolicy (fld r ''handlingPolicy'') = Inr (qr_handlingPolicy q)"
    and m: "ensureNullable (fld r ''model'') parseModelCapabilities = Inr (qr_model q)"
  have "dp_classification (qr_handlingPolicy q) = qr_classification q" using c by (auto simp: requestConflict_def split: if_splits)
  then show ?thesis
    using parsePolicy_Inr [OF p] ensureNullable_pred [OF m, of "\<lambda>m. \<exists>v. parseModelCapabilities v = Inr m"]
    by (auto simp: requestOk_def)
qed

lemma inj_model_texts [simp]: "inj modelLocalityText" "inj latencyText"
  by (auto intro!: injI elim!: modelLocalityText.elims latencyText.elims)

lemma model_members [simp]: "l = LocalModel \<or> l = CloudModel" "t = FastLatency \<or> t = StandardLatency \<or> t = SlowLatency"
  by (auto intro: model_locality.exhaust latency_class.exhaust)

lemma parseModelCost_again:
  assumes "parseModelCostMetadata v = Inr c"
  shows "parseModelCostMetadata (jsonVal (modelCostJson (Some c))) = Inr c"
proof -
  have "\<bar>mc_inputRate c\<bar> \<le> MAX_SAFE_INTEGER" "0 \<le> mc_inputRate c" "mc_inputRate c \<le> MAX_MONEY_MICROS"
    "\<bar>mc_outputRate c\<bar> \<le> MAX_SAFE_INTEGER" "0 \<le> mc_outputRate c" "mc_outputRate c \<le> MAX_MONEY_MICROS"
    "CURRENCY_PATTERN (mc_currency c)" "length (mc_currency c) = 3"
    using assms by (auto simp: parseModelCostMetadata_def bindE_Inr_iff parseCurrencyCode_def dest!: ensureSafeInteger_range)
  moreover have "pred_option (\<lambda>i. 0 \<le> i \<and> i \<le> MAX_MONEY_MICROS \<and> \<bar>i\<bar> \<le> MAX_SAFE_INTEGER) (mc_cachedRate c)"
    using assms by (auto simp: parseModelCostMetadata_def bindE_Inr_iff
      dest!: ensureNullable_pred [where P = "\<lambda>i. 0 \<le> i \<and> i \<le> MAX_MONEY_MICROS \<and> \<bar>i\<bar> \<le> MAX_SAFE_INTEGER", OF _ ensureSafeInteger_range])
  ultimately show ?thesis
    by (cases "mc_cachedRate c") (auto simp: parseModelCostMetadata_def modelCostJson_def parseCurrencyCode_def jsonInt_def jsonOptInt_def
      ensureNullable_def ensureString.simps)
qed

lemma parseModelCapabilities_again:
  assumes "parseModelCapabilities v = Inr m"
  shows "parseModelCapabilities (modelVal m) = Inr m"
proof -
  have ints: "1 \<le> md_contextWindowTokens m \<and> md_contextWindowTokens m \<le> MAX_TOKEN_COUNT \<and> \<bar>md_contextWindowTokens m\<bar> \<le> MAX_SAFE_INTEGER"
    "1 \<le> md_maxOutputTokens m \<and> md_maxOutputTokens m \<le> md_contextWindowTokens m \<and> \<bar>md_maxOutputTokens m\<bar> \<le> MAX_SAFE_INTEGER"
    "1 \<le> md_codingCapability m \<and> md_codingCapability m \<le> 5" "1 \<le> md_reasoningCapability m \<and> md_reasoningCapability m \<le> 5"
    "ID_PATTERN (md_providerId m)" "ID_PATTERN (md_modelId m)"
    using assms by (auto simp: parseModelCapabilities_def bindE_Inr_iff parseRating_def dest!: ensureSafeInteger_range)
  have cost: "pred_option (\<lambda>c. parseModelCostMetadata (jsonVal (modelCostJson (Some c))) = Inr c) (md_cost m)"
    using assms by (auto simp: parseModelCapabilities_def bindE_Inr_iff dest!: ensureNullable_pred [OF _ parseModelCost_again])
  have "ensureNullable (jsonVal (modelCostJson (md_cost m))) parseModelCostMetadata = Inr (md_cost m)"
  proof (cases "md_cost m")
    case (Some c)
    then have "jsonVal (modelCostJson (Some c)) \<noteq> JNull" "jsonVal (modelCostJson (Some c)) \<noteq> JUndef"
      by (simp_all add: modelCostJson_def plainObj_def)
    then show ?thesis using Some cost by (simp add: ensureNullable_def)
  qed (simp add: modelCostJson_def)
  then show ?thesis
    using ints by (simp add: parseModelCapabilities_def modelVal_def modelCapabilitiesJson_def jsonInt_def parseRating_def)
qed

lemma findUnmet_again:
  assumes "parseModelCapabilities v = Inr m"
  shows "findUnmetRequirements (modelVal m) (modelNeedsVal q required) = Inr (unmetRequirements m
    \<lparr>mr_minContextWindowTokens = None, mr_minOutputTokens = None, mr_requireToolUse = ToolCallingCap \<in> set (qr_requestedCapabilities q),
     mr_requireStructuredOutput = StructuredOutputCap \<in> set (qr_requestedCapabilities q),
     mr_requireVision = ImageInputCap \<in> set (qr_requestedCapabilities q), mr_requireLocalExecution = required = RequiresLocal,
     mr_minCodingCapability = None, mr_minReasoningCapability = None\<rparr>)"
  using parseModelCapabilities_again [OF assms]
  by (simp add: findUnmetRequirements_def modelNeedsVal_def parseModelRequirements_def)

text \<open>The target a provider is for the disclosure policy.\<close>

definition targetOf :: "provider_descriptor \<Rightarrow> disclosure_target" where
  "targetOf p = \<lparr>dt_locality = pd_locality p, dt_retainsData = pd_retainsData p,
     dt_capabilities = (if pd_retainsData p then [DataRetention] else []) @ (if pd_trainsOnInputs p then [ModelTraining] else [])\<rparr>"

lemma evaluateDisclosure_again:
  assumes "policyOk p" and "validTime now"
  shows "evaluateDisclosure (policyVal p) (disclosureTargetVal provider) (plainObj [(''evaluatedAt'', JStr (toISOString now))]) =
    Inr (decide p (targetOf provider) (toISOString now))"
proof -
  have "timestampText (toISOString now)"
    using assms length_toISOString [of now] by (simp add: timestampText_def canonical_toISOString)
  moreover have "parseDisclosureTarget (disclosureTargetVal provider) = Inr (targetOf provider)"
  proof -
    have "canonicalMembers capabilityText (dt_capabilities (targetOf provider))"
      by (cases "pd_retainsData provider"; cases "pd_trainsOnInputs provider") (simp_all add: targetOf_def, code_simp+)
    then have "ensureEnumArray (capabilitiesVal (dt_capabilities (targetOf provider))) capabilityText PROVIDER_DATA_CAPABILITIES
        (length PROVIDER_DATA_CAPABILITIES) = Inr (dt_capabilities (targetOf provider))"
      unfolding capabilitiesVal_def
      by (intro ensureEnumArray_texts) (auto simp: canonicalMembers_def intro: distinct_members_length)
    then show ?thesis
      by (simp add: parseDisclosureTarget_def disclosureTargetVal_def targetOf_def)
  qed
  ultimately show ?thesis using assms by (simp add: evaluateDisclosure_def)
qed

section \<open>The loop over the matched rules\<close>

lemma addMember_set [simp]: "set (addMember x xs) = insert x (set xs)"
  by (auto simp: addMember_def)

lemma addMembers_set [simp]: "set (addMembers items xs) = set items \<union> set xs"
  unfolding addMembers_def by (induction items arbitrary: xs) auto

lemma deny_simps [simp]:
  "lo_denied (denyWith codes s)" "lo_denied (denyIf c code s) \<longleftrightarrow> lo_denied s \<or> c"
  by (simp_all add: denyWith_def denyIf_def)

lemma deny_frame [simp]:
  "lo_transformations (denyIf c code s) = lo_transformations s" "lo_approvals (denyIf c code s) = lo_approvals s"
  "lo_approvalsToConsume (denyIf c code s) = lo_approvalsToConsume s" "lo_missingApprovals (denyIf c code s) = lo_missingApprovals s"
  "lo_forbidden (denyIf c code s) = lo_forbidden s" "lo_allowedByRule (denyIf c code s) = lo_allowedByRule s"
  "lo_requiredLocality (denyIf c code s) = lo_requiredLocality s" "lo_inputAllowed (denyIf c code s) = lo_inputAllowed s"
  "lo_outputAllowed (denyIf c code s) = lo_outputAllowed s" "lo_retentionAllowed (denyIf c code s) = lo_retentionAllowed s"
  "lo_maxDays (denyIf c code s) = lo_maxDays s"
  by (simp_all add: denyWith_def denyIf_def)

lemma denyWith_frame [simp]:
  "lo_transformations (denyWith codes s) = lo_transformations s" "lo_approvals (denyWith codes s) = lo_approvals s"
  "lo_approvalsToConsume (denyWith codes s) = lo_approvalsToConsume s" "lo_missingApprovals (denyWith codes s) = lo_missingApprovals s"
  "lo_forbidden (denyWith codes s) = lo_forbidden s" "lo_allowedByRule (denyWith codes s) = lo_allowedByRule s"
  "lo_requiredLocality (denyWith codes s) = lo_requiredLocality s" "lo_inputAllowed (denyWith codes s) = lo_inputAllowed s"
  "lo_outputAllowed (denyWith codes s) = lo_outputAllowed s" "lo_retentionAllowed (denyWith codes s) = lo_retentionAllowed s"
  "lo_maxDays (denyWith codes s) = lo_maxDays s"
  by (simp_all add: denyWith_def)

lemma exceedsDays_lower [simp]: "exceedsDays n (lowerDays a b) \<longleftrightarrow> exceedsDays n a \<or> exceedsDays n b"
  by (auto simp: exceedsDays_def lowerDays_def split: option.splits)

text \<open>The requirement that a rule with an approval adds.\<close>

definition requirementFor ::
    "codec \<Rightarrow> (string \<Rightarrow> policy_request \<Rightarrow> string option) \<Rightarrow> string \<Rightarrow> policy_request \<Rightarrow> int \<Rightarrow> policy_rule \<Rightarrow> approval_requirement \<Rightarrow> bool" where
  "requirementFor cd idSource version q now r need \<longleftrightarrow>
     (\<exists>template subject. pl_approval r = Some template \<and> qr_subjectDigest q = Some subject \<and>
        approvalIdFor cd idSource version r q subject = Inr (aq_approvalRequestId need) \<and>
        aq_action need = qr_action q \<and> aq_risk need = qr_risk q \<and> aq_subjectDigest need = subject \<and>
        aq_approverClass need = at_approverClass template \<and> aq_usage need = at_usage template \<and>
        aq_expiresAt need = toISOString (now + at_ttlMs template))"

text \<open>What the rules \<open>rs\<close> change.\<close>

definition accumulates :: "policy_request \<Rightarrow> policy_rule list \<Rightarrow> policy_locals \<Rightarrow> policy_locals \<Rightarrow> bool" where
  "accumulates q rs s s' \<longleftrightarrow>
     (lo_denied s' \<longleftrightarrow> lo_denied s \<or> (\<exists>r \<in> set rs. pl_effect r = DenyEffect \<or> pl_approval r \<noteq> None \<and> qr_subjectDigest q = None)) \<and>
     (lo_allowedByRule s' \<longleftrightarrow> lo_allowedByRule s \<or> (\<exists>r \<in> set rs. pl_effect r \<noteq> DenyEffect)) \<and>
     set (lo_transformations s') = set (lo_transformations s) \<union> (\<Union>r \<in> set rs. set (pl_requiredTransformations r)) \<and>
     (lo_requiredLocality s' = RequiresLocal \<longleftrightarrow> lo_requiredLocality s = RequiresLocal \<or> (\<exists>r \<in> set rs. pl_requiredLocality r = RequiresLocal)) \<and>
     (lo_inputAllowed s' \<longleftrightarrow> lo_inputAllowed s \<and> (\<forall>r \<in> set rs. \<not> pl_forbidInputLogging r)) \<and>
     (lo_outputAllowed s' \<longleftrightarrow> lo_outputAllowed s \<and> (\<forall>r \<in> set rs. \<not> pl_forbidOutputLogging r)) \<and>
     (lo_retentionAllowed s' \<longleftrightarrow> lo_retentionAllowed s \<and> (\<forall>r \<in> set rs. \<not> pl_forbidRetention r)) \<and>
     (\<forall>n. exceedsDays n (lo_maxDays s') \<longleftrightarrow> exceedsDays n (lo_maxDays s) \<or> (\<exists>r \<in> set rs. exceedsDays n (pl_maxRetentionDays r))) \<and>
     set (lo_forbidden s') = set (lo_forbidden s) \<union> (\<Union>r \<in> set rs. set (pl_forbiddenCapabilities r)) \<and>
     lo_missingApprovals s' = lo_missingApprovals s \<and> lo_approvalsToConsume s' = lo_approvalsToConsume s"

definition demands ::
    "codec \<Rightarrow> (string \<Rightarrow> policy_request \<Rightarrow> string option) \<Rightarrow> string \<Rightarrow> policy_request \<Rightarrow> int \<Rightarrow> policy_rule list \<Rightarrow> policy_locals \<Rightarrow> policy_locals \<Rightarrow> bool" where
  "demands cd idSource version q now rs s s' \<longleftrightarrow> (\<exists>needs. lo_approvals s' = lo_approvals s @ needs \<and>
     list_all2 (requirementFor cd idSource version q now) (filter (\<lambda>r. pl_approval r \<noteq> None \<and> qr_subjectDigest q \<noteq> None) rs) needs)"

lemma effect_allows: "e = AllowEffect \<or> e = ConditionalEffect \<longleftrightarrow> e \<noteq> DenyEffect"
  by (cases e) auto

lemma restrictBy_simps [simp]:
  "lo_denied (restrictBy r s) \<longleftrightarrow> lo_denied s \<or> pl_effect r = DenyEffect"
  "lo_allowedByRule (restrictBy r s) \<longleftrightarrow> lo_allowedByRule s \<or> pl_effect r \<noteq> DenyEffect"
  "set (lo_transformations (restrictBy r s)) = set (pl_requiredTransformations r) \<union> set (lo_transformations s)"
  "lo_requiredLocality (restrictBy r s) = RequiresLocal \<longleftrightarrow> pl_requiredLocality r = RequiresLocal \<or> lo_requiredLocality s = RequiresLocal"
  "lo_inputAllowed (restrictBy r s) \<longleftrightarrow> lo_inputAllowed s \<and> \<not> pl_forbidInputLogging r"
  "lo_outputAllowed (restrictBy r s) \<longleftrightarrow> lo_outputAllowed s \<and> \<not> pl_forbidOutputLogging r"
  "lo_retentionAllowed (restrictBy r s) \<longleftrightarrow> lo_retentionAllowed s \<and> \<not> pl_forbidRetention r"
  "lo_maxDays (restrictBy r s) = lowerDays (pl_maxRetentionDays r) (lo_maxDays s)"
  "set (lo_forbidden (restrictBy r s)) = set (pl_forbiddenCapabilities r) \<union> set (lo_forbidden s)"
  "lo_approvals (restrictBy r s) = lo_approvals s" "lo_missingApprovals (restrictBy r s) = lo_missingApprovals s"
  "lo_approvalsToConsume (restrictBy r s) = lo_approvalsToConsume s"
  by (auto simp: restrictBy_def Let_def effect_allows)

lemma applyRule_accumulates:
  assumes "applyRule cd idSource version q now r s = Inr s'"
  shows "accumulates q [r] s s' \<and> demands cd idSource version q now [r] s s'"
  using assms unfolding applyRule_def accumulates_def demands_def requirementFor_def
  by (auto simp: Let_def bindE_Inr_iff expiryOf_def split: option.splits if_splits)

lemma accumulates_append:
  assumes "accumulates q rs s s'" and "accumulates q rs' s' s''"
  shows "accumulates q (rs @ rs') s s''"
  using assms unfolding accumulates_def set_append bex_Un ball_Un UN_Un
  by (elim conjE, intro conjI; simp (no_asm_simp) only: disj_assoc conj_assoc Un_assoc simp_thms)

lemma demands_append:
  assumes "demands cd idSource version q now rs s s'" and "demands cd idSource version q now rs' s' s''"
  shows "demands cd idSource version q now (rs @ rs') s s''"
  using assms unfolding demands_def filter_append by (metis append_assoc list_all2_appendI)

lemma rules_accumulate:
  "foldE (applyRule cd idSource version q now) rs s = Inr s' \<Longrightarrow>
     accumulates q rs s s' \<and> demands cd idSource version q now rs s s'"
proof (induction rs arbitrary: s)
  case Nil
  then show ?case by (simp add: accumulates_def demands_def)
next
  case (Cons r rs)
  then obtain t where t: "applyRule cd idSource version q now r s = Inr t" "foldE (applyRule cd idSource version q now) rs t = Inr s'"
    by (auto simp: bindE_Inr_iff)
  show ?case
    using accumulates_append [of q "[r]" s t rs s'] demands_append [of cd idSource version q now "[r]" s t rs s']
      applyRule_accumulates [OF t(1)] Cons.IH [OF t(2)] by simp
qed

section \<open>The decision over the set of the matched rules\<close>

definition disclosedTo :: "policy_request \<Rightarrow> provider_descriptor option" where
  "disclosedTo q = (if qr_action q \<in> set disclosureActions then qr_provider q else None)"

definition localDemanded :: "policy_rule set \<Rightarrow> policy_request \<Rightarrow> bool" where
  "localDemanded M q \<longleftrightarrow> (\<exists>r \<in> M. pl_requiredLocality r = RequiresLocal) \<or>
     disclosedTo q \<noteq> None \<and> dp_localExecutionRequired (qr_handlingPolicy q)"

definition demandedTransformations :: "policy_rule set \<Rightarrow> policy_request \<Rightarrow> redaction_kind set" where
  "demandedTransformations M q = (\<Union>r \<in> M. set (pl_requiredTransformations r)) \<union>
     (case disclosedTo q of None \<Rightarrow> {}
      | Some p \<Rightarrow> if pd_locality p = CloudTarget then set (dp_redactionsRequired (qr_handlingPolicy q)) else {})"

definition disclosurePermitted :: "data_policy \<Rightarrow> provider_descriptor \<Rightarrow> bool" where
  "disclosurePermitted policy p \<longleftrightarrow>
     (pd_locality p = CloudTarget \<longrightarrow> dp_cloudProvidersAllowed policy \<and> \<not> dp_localExecutionRequired policy) \<and>
     (pd_retainsData p \<longrightarrow> DataRetention \<notin> set (dp_disallowedCapabilities policy)) \<and>
     (pd_trainsOnInputs p \<longrightarrow> ModelTraining \<notin> set (dp_disallowedCapabilities policy))"

definition modelFits :: "policy_rule set \<Rightarrow> policy_request \<Rightarrow> model_capabilities \<Rightarrow> bool" where
  "modelFits M q m \<longleftrightarrow>
     (ToolCallingCap \<in> set (qr_requestedCapabilities q) \<longrightarrow> md_supportsToolUse m) \<and>
     (StructuredOutputCap \<in> set (qr_requestedCapabilities q) \<longrightarrow> md_supportsStructuredOutput m) \<and>
     (ImageInputCap \<in> set (qr_requestedCapabilities q) \<longrightarrow> md_supportsVision m) \<and>
     (localDemanded M q \<longrightarrow> md_locality m = LocalModel)"

text \<open>Refused by the rules alone; by the provider, the model or the locality; by a restriction of the action.\<close>

definition refusedByRules :: "policy_rule set \<Rightarrow> policy_request \<Rightarrow> bool" where
  "refusedByRules M q \<longleftrightarrow> (\<exists>r \<in> M. pl_effect r = DenyEffect) \<or> (\<forall>r \<in> M. pl_effect r = DenyEffect) \<or>
     qr_subjectDigest q = None \<and> (\<exists>r \<in> M. pl_approval r \<noteq> None)"

definition refusedByTarget :: "policy_rule set \<Rightarrow> policy_request \<Rightarrow> bool" where
  "refusedByTarget M q \<longleftrightarrow>
     (case disclosedTo q of None \<Rightarrow> False | Some p \<Rightarrow> \<not> disclosurePermitted (qr_handlingPolicy q) p) \<or>
     (case qr_provider q of None \<Rightarrow> False | Some p \<Rightarrow> qr_classification q \<notin> set (pd_supportedClassifications p)) \<or>
     qr_action q = LocalExecution \<and> qr_locality q \<noteq> LocalRequested \<or>
     qr_action q = CloudExecution \<and> qr_locality q \<noteq> CloudRequested \<or>
     (case qr_model q of None \<Rightarrow> False | Some m \<Rightarrow> \<not> modelFits M q m) \<or>
     (\<exists>c \<in> set (qr_requestedCapabilities q). (\<exists>r \<in> M. c \<in> set (pl_forbiddenCapabilities r)) \<or> \<not> capabilityAvailable c (qr_provider q)) \<or>
     localDemanded M q \<and> qr_locality q = CloudRequested"

definition refusedByRestriction :: "policy_rule set \<Rightarrow> policy_request \<Rightarrow> bool" where
  "refusedByRestriction M q \<longleftrightarrow> (let policy = qr_handlingPolicy q in
     qr_action q = ArtifactPersistence \<and> (\<not> dp_artifactPersistenceAllowed policy \<or> (\<exists>r \<in> M. pl_forbidArtifactPersistence r)) \<or>
     qr_action q = InputLogging \<and> (\<not> dp_logRetentionAllowed policy \<or> (\<exists>r \<in> M. pl_forbidInputLogging r)) \<or>
     qr_action q = OutputLogging \<and> (\<not> dp_logRetentionAllowed policy \<or> (\<exists>r \<in> M. pl_forbidOutputLogging r)) \<or>
     qr_action q = RetentionAction \<and> (\<not> dp_logRetentionAllowed policy \<or>
       (\<exists>r \<in> M. pl_forbidRetention r \<or> exceedsDays (qr_retentionDays q) (pl_maxRetentionDays r))))"

text \<open>Evidence that denies, or that grants, the approval a rule asks for.\<close>

definition deniesFor ::
    "codec \<Rightarrow> (string \<Rightarrow> policy_request \<Rightarrow> string option) \<Rightarrow> string \<Rightarrow> policy_request \<Rightarrow> string \<Rightarrow> policy_rule \<Rightarrow> approval_evidence \<Rightarrow> bool" where
  "deniesFor cd idSource version q nowIso r item \<longleftrightarrow>
     pl_approval r \<noteq> None \<and> qr_subjectDigest q = Some (av_subjectDigest item) \<and>
     approvalIdFor cd idSource version r q (av_subjectDigest item) = Inr (av_approvalRequestId item) \<and>
     av_result item = DeniedResult \<and> av_revokedAt item = None \<and> strLess nowIso (av_expiresAt item)"

definition grantsFor ::
    "codec \<Rightarrow> (string \<Rightarrow> policy_request \<Rightarrow> string option) \<Rightarrow> string \<Rightarrow> policy_request \<Rightarrow> string \<Rightarrow> policy_rule \<Rightarrow> approval_evidence \<Rightarrow> bool" where
  "grantsFor cd idSource version q nowIso r item \<longleftrightarrow>
     map_option at_approverClass (pl_approval r) = Some (av_approverClass item) \<and> qr_subjectDigest q = Some (av_subjectDigest item) \<and>
     approvalIdFor cd idSource version r q (av_subjectDigest item) = Inr (av_approvalRequestId item) \<and>
     av_action item = qr_action q \<and> av_risk item = qr_risk q \<and> scopeCovers (av_scope item) (qr_scope q) \<and>
     av_result item = ApprovedResult \<and> av_revokedAt item = None \<and> strLess nowIso (av_expiresAt item) \<and>
     (av_usage item = Reusable \<or> av_consumedAt item = None)"

definition policyVerdict ::
    "codec \<Rightarrow> (string \<Rightarrow> policy_request \<Rightarrow> string option) \<Rightarrow> string \<Rightarrow> policy_rule set \<Rightarrow> policy_request \<Rightarrow> string \<Rightarrow> policy_outcome" where
  "policyVerdict cd idSource version M q nowIso =
     (if refusedByRules M q \<or> refusedByTarget M q \<or> refusedByRestriction M q \<or>
         (\<exists>r \<in> M. \<exists>item \<in> set (qr_approvalEvidence q). deniesFor cd idSource version q nowIso r item) then PolicyDenied
      else if \<not> demandedTransformations M q \<subseteq> set (qr_transformationsApplied q) \<or>
         (\<exists>r \<in> M. pl_approval r \<noteq> None \<and>
            (qr_requesterKind q = ModelRequester \<or> (\<forall>item \<in> set (qr_approvalEvidence q). \<not> grantsFor cd idSource version q nowIso r item))) \<or>
         localDemanded M q \<and> qr_locality q = UnspecifiedLocality then PolicyConditional
      else PolicyAllowed)"

section \<open>The checks\<close>

lemma disclosureCheck_Inr:
  assumes "disclosureCheck q (toISOString now) s = Inr s'" and "policyOk (qr_handlingPolicy q)" and "validTime now"
  shows "lo_denied s' \<longleftrightarrow> lo_denied s \<or> (case disclosedTo q of None \<Rightarrow> False | Some p \<Rightarrow> \<not> disclosurePermitted (qr_handlingPolicy q) p)"
    and "set (lo_transformations s') = set (lo_transformations s) \<union> (case disclosedTo q of None \<Rightarrow> {}
      | Some p \<Rightarrow> if pd_locality p = CloudTarget then set (dp_redactionsRequired (qr_handlingPolicy q)) else {})"
    and "lo_requiredLocality s' = RequiresLocal \<longleftrightarrow> lo_requiredLocality s = RequiresLocal \<or>
      disclosedTo q \<noteq> None \<and> dp_localExecutionRequired (qr_handlingPolicy q)"
    and "lo_approvals s' = lo_approvals s" "lo_forbidden s' = lo_forbidden s" "lo_inputAllowed s' = lo_inputAllowed s"
      "lo_outputAllowed s' = lo_outputAllowed s" "lo_retentionAllowed s' = lo_retentionAllowed s" "lo_maxDays s' = lo_maxDays s"
      "lo_missingApprovals s' = lo_missingApprovals s" "lo_approvalsToConsume s' = lo_approvalsToConsume s"
proof -
  have permitted: "pd_allowed (decide (qr_handlingPolicy q) (targetOf p) (toISOString now)) \<longleftrightarrow> disclosurePermitted (qr_handlingPolicy q) p" for p
    by (auto simp: decide_allowed disclosurePermitted_def targetOf_def)
  have redactions: "set (pd_requiredTransformations (decide (qr_handlingPolicy q) (targetOf p) (toISOString now))) =
      (if pd_locality p = CloudTarget then set (dp_redactionsRequired (qr_handlingPolicy q)) else {})" for p
    by (auto simp: decide_def targetOf_def Let_def)
  note again = evaluateDisclosure_again [OF assms(2,3)]
  show "lo_denied s' \<longleftrightarrow> lo_denied s \<or> (case disclosedTo q of None \<Rightarrow> False | Some p \<Rightarrow> \<not> disclosurePermitted (qr_handlingPolicy q) p)"
    "set (lo_transformations s') = set (lo_transformations s) \<union> (case disclosedTo q of None \<Rightarrow> {}
      | Some p \<Rightarrow> if pd_locality p = CloudTarget then set (dp_redactionsRequired (qr_handlingPolicy q)) else {})"
    "lo_requiredLocality s' = RequiresLocal \<longleftrightarrow> lo_requiredLocality s = RequiresLocal \<or>
      disclosedTo q \<noteq> None \<and> dp_localExecutionRequired (qr_handlingPolicy q)"
    "lo_approvals s' = lo_approvals s" "lo_forbidden s' = lo_forbidden s" "lo_inputAllowed s' = lo_inputAllowed s"
    "lo_outputAllowed s' = lo_outputAllowed s" "lo_retentionAllowed s' = lo_retentionAllowed s" "lo_maxDays s' = lo_maxDays s"
    "lo_missingApprovals s' = lo_missingApprovals s" "lo_approvalsToConsume s' = lo_approvalsToConsume s"
    using assms(1) by (cases "qr_provider q"; force simp: disclosureCheck_def disclosedTo_def again permitted redactions Let_def split: if_splits)+
qed

lemma modelCheck_Inr:
  assumes "modelCheck q s = Inr s'" and "requestOk q" and "lo_requiredLocality s = RequiresLocal \<longleftrightarrow> localDemanded M q"
  shows "\<exists>c. s' = denyIf c ''MODEL_CAPABILITY_MISMATCH'' s \<and> (c \<longleftrightarrow> (case qr_model q of None \<Rightarrow> False | Some m \<Rightarrow> \<not> modelFits M q m))"
proof (cases "qr_model q")
  case (Some m)
  then obtain v where "parseModelCapabilities v = Inr m" using assms(2) by (auto simp: requestOk_def)
  note again = findUnmet_again [OF this, of q "lo_requiredLocality s"]
  have "unmetRequirements m
    \<lparr>mr_minContextWindowTokens = None, mr_minOutputTokens = None, mr_requireToolUse = ToolCallingCap \<in> set (qr_requestedCapabilities q),
     mr_requireStructuredOutput = StructuredOutputCap \<in> set (qr_requestedCapabilities q),
     mr_requireVision = ImageInputCap \<in> set (qr_requestedCapabilities q), mr_requireLocalExecution = lo_requiredLocality s = RequiresLocal,
     mr_minCodingCapability = None, mr_minReasoningCapability = None\<rparr> \<noteq> [] \<longleftrightarrow> \<not> modelFits M q m"
    using assms(3) by (auto simp: unmetRequirements_def below_def modelFits_def)
  then show ?thesis using assms(1) Some again by (auto simp: modelCheck_def)
qed (use assms(1) in \<open>auto simp: modelCheck_def denyIf_def\<close>)

lemma capabilityFold_Inr:
  "\<exists>c. fold (\<lambda>capability s'. denyIf (capability \<in> set (lo_forbidden s') \<or> \<not> capabilityAvailable capability provider)
       ''CAPABILITY_FORBIDDEN'' s') cs s = s\<lparr>lo_denied := lo_denied s \<or> (\<exists>x \<in> set cs. x \<in> set (lo_forbidden s) \<or> \<not> capabilityAvailable x provider),
         lo_reasons := lo_reasons s @ c\<rparr>"
proof (induction cs arbitrary: s)
  case Nil
  show ?case by (rule exI [of _ "[]"]) simp
next
  case (Cons x cs)
  let ?b = "x \<in> set (lo_forbidden s) \<or> \<not> capabilityAvailable x provider"
  obtain c where "fold (\<lambda>capability s'. denyIf (capability \<in> set (lo_forbidden s') \<or> \<not> capabilityAvailable capability provider)
       ''CAPABILITY_FORBIDDEN'' s') cs (denyIf ?b ''CAPABILITY_FORBIDDEN'' s) = (denyIf ?b ''CAPABILITY_FORBIDDEN'' s)
         \<lparr>lo_denied := lo_denied (denyIf ?b ''CAPABILITY_FORBIDDEN'' s) \<or> (\<exists>x \<in> set cs. x \<in> set (lo_forbidden s) \<or> \<not> capabilityAvailable x provider),
         lo_reasons := lo_reasons (denyIf ?b ''CAPABILITY_FORBIDDEN'' s) @ c\<rparr>"
    using Cons.IH [of "denyIf ?b ''CAPABILITY_FORBIDDEN'' s"] by auto
  then show ?case by (cases ?b) (auto simp: denyIf_def denyWith_def)
qed

lemma capabilityCheck_simps [simp]:
  "lo_denied (capabilityCheck q s) \<longleftrightarrow> lo_denied s \<or>
     (\<exists>c \<in> set (qr_requestedCapabilities q). c \<in> set (lo_forbidden s) \<or> \<not> capabilityAvailable c (qr_provider q))"
  "lo_transformations (capabilityCheck q s) = lo_transformations s" "lo_approvals (capabilityCheck q s) = lo_approvals s"
  "lo_requiredLocality (capabilityCheck q s) = lo_requiredLocality s" "lo_forbidden (capabilityCheck q s) = lo_forbidden s"
  "lo_inputAllowed (capabilityCheck q s) = lo_inputAllowed s" "lo_outputAllowed (capabilityCheck q s) = lo_outputAllowed s"
  "lo_retentionAllowed (capabilityCheck q s) = lo_retentionAllowed s" "lo_maxDays (capabilityCheck q s) = lo_maxDays s"
  "lo_missingApprovals (capabilityCheck q s) = lo_missingApprovals s"
  "lo_approvalsToConsume (capabilityCheck q s) = lo_approvalsToConsume s"
  using capabilityFold_Inr [of "qr_provider q" "qr_requestedCapabilities q" s] unfolding capabilityCheck_def by auto

section \<open>The approvals\<close>

definition deniedNeed :: "policy_request \<Rightarrow> string \<Rightarrow> approval_requirement \<Rightarrow> bool" where
  "deniedNeed q nowIso need \<longleftrightarrow> (\<exists>item \<in> set (qr_approvalEvidence q). deniesRequirement nowIso need item)"

definition openNeed :: "policy_request \<Rightarrow> string \<Rightarrow> approval_requirement \<Rightarrow> bool" where
  "openNeed q nowIso need \<longleftrightarrow> \<not> deniedNeed q nowIso need \<and>
     (qr_requesterKind q = ModelRequester \<or> (\<forall>item \<in> set (qr_approvalEvidence q). \<not> meetsRequirement q nowIso need item))"

lemma settleApproval_simps:
  "lo_denied (settleApproval q nowIso need s) \<longleftrightarrow> lo_denied s \<or> deniedNeed q nowIso need"
  "lo_missingApprovals (settleApproval q nowIso need s) =
     lo_missingApprovals s @ (if openNeed q nowIso need then [need] else [])"
  "lo_transformations (settleApproval q nowIso need s) = lo_transformations s"
  "lo_requiredLocality (settleApproval q nowIso need s) = lo_requiredLocality s"
  "lo_forbidden (settleApproval q nowIso need s) = lo_forbidden s"
  "lo_inputAllowed (settleApproval q nowIso need s) = lo_inputAllowed s" "lo_outputAllowed (settleApproval q nowIso need s) = lo_outputAllowed s"
  "lo_retentionAllowed (settleApproval q nowIso need s) = lo_retentionAllowed s" "lo_maxDays (settleApproval q nowIso need s) = lo_maxDays s"
  by (auto simp: settleApproval_def deniedNeed_def openNeed_def find_None_iff find_Some_iff split: option.splits)

lemma settle_needs:
  "lo_denied (fold (settleApproval q nowIso) needs s) \<longleftrightarrow> lo_denied s \<or> (\<exists>need \<in> set needs. deniedNeed q nowIso need)"
  "lo_missingApprovals (fold (settleApproval q nowIso) needs s) = lo_missingApprovals s @ filter (openNeed q nowIso) needs"
  "lo_transformations (fold (settleApproval q nowIso) needs s) = lo_transformations s"
  "lo_requiredLocality (fold (settleApproval q nowIso) needs s) = lo_requiredLocality s"
  "lo_forbidden (fold (settleApproval q nowIso) needs s) = lo_forbidden s"
  "lo_inputAllowed (fold (settleApproval q nowIso) needs s) = lo_inputAllowed s"
  "lo_outputAllowed (fold (settleApproval q nowIso) needs s) = lo_outputAllowed s"
  "lo_retentionAllowed (fold (settleApproval q nowIso) needs s) = lo_retentionAllowed s"
  "lo_maxDays (fold (settleApproval q nowIso) needs s) = lo_maxDays s"
  by (induction needs arbitrary: s) (auto simp: settleApproval_simps)

lemma settle_consumes:
  "i \<in> set (lo_approvalsToConsume (fold (settleApproval q nowIso) needs s)) \<Longrightarrow> i \<in> set (lo_approvalsToConsume s) \<or>
     (qr_requesterKind q \<noteq> ModelRequester \<and> (\<exists>need \<in> set needs. \<exists>item \<in> set (qr_approvalEvidence q).
        meetsRequirement q nowIso need item \<and> av_usage item = OneShot \<and> i = av_approvalRequestId item))"
proof (induction needs arbitrary: s)
  case (Cons need needs)
  have step: "j \<in> set (lo_approvalsToConsume s) \<or> (qr_requesterKind q \<noteq> ModelRequester \<and> (\<exists>item \<in> set (qr_approvalEvidence q).
        meetsRequirement q nowIso need item \<and> av_usage item = OneShot \<and> j = av_approvalRequestId item))"
    if "j \<in> set (lo_approvalsToConsume (settleApproval q nowIso need s))" for j
    using that by (auto simp: settleApproval_def find_Some_iff split: option.splits if_splits)
  show ?case using Cons.IH [of "settleApproval q nowIso need s"] Cons.prems step by auto
qed simp

section \<open>The verdict\<close>

lemma list_all2_bex:
  assumes "list_all2 P xs ys"
  shows "(\<exists>y \<in> set ys. Q y) \<longleftrightarrow> (\<exists>x \<in> set xs. \<exists>y \<in> set ys. P x y \<and> Q y)"
  using assms by (induction rule: list_all2_induct) auto

lemma list_all2_partner: "list_all2 P xs ys \<Longrightarrow> x \<in> set xs \<Longrightarrow> \<exists>y \<in> set ys. P x y"
  by (induction rule: list_all2_induct) auto

lemma deniesFor_need:
  "requirementFor cd idSource version q now r need \<Longrightarrow>
     deniesRequirement nowIso need item \<longleftrightarrow> deniesFor cd idSource version q nowIso r item"
  by (auto simp: requirementFor_def deniesRequirement_def deniesFor_def)

lemma grantsFor_need:
  "requirementFor cd idSource version q now r need \<Longrightarrow>
     meetsRequirement q nowIso need item \<longleftrightarrow> grantsFor cd idSource version q nowIso r item"
  by (auto simp: requirementFor_def meetsRequirement_def grantsFor_def)

definition matchedBy :: "policy_broker \<Rightarrow> policy_request \<Rightarrow> policy_rule set" where
  "matchedBy broker q = set (filter (ruleMatches q) (br_rules broker))"

text \<open>The checks of the target and of the restrictions, for a state that has accumulated the rules \<open>M\<close>.\<close>

lemma target_denied:
  assumes loc: "lo_requiredLocality s = RequiresLocal \<longleftrightarrow> localDemanded M q"
    and forbidden: "set (lo_forbidden s) = (\<Union>r \<in> M. set (pl_forbiddenCapabilities r))"
    and misfit: "c \<longleftrightarrow> (case qr_model q of None \<Rightarrow> False | Some m \<Rightarrow> \<not> modelFits M q m)"
    and rules: "lo_denied s \<longleftrightarrow> refusedByRules M q \<or>
      (case disclosedTo q of None \<Rightarrow> False | Some p \<Rightarrow> \<not> disclosurePermitted (qr_handlingPolicy q) p)"
  shows "lo_denied (localityCheck q (capabilityCheck q (denyIf c code (executionCheck q (classificationCheck q s))))) \<longleftrightarrow>
    refusedByRules M q \<or> refusedByTarget M q"
  unfolding localityCheck_def executionCheck_def classificationCheck_def deny_simps deny_frame capabilityCheck_simps forbidden loc
    rules misfit refusedByTarget_def UN_iff disj_assoc ..

lemma restriction_denied:
  assumes "lo_inputAllowed s \<longleftrightarrow> dp_logRetentionAllowed (qr_handlingPolicy q) \<and> (\<forall>r \<in> set matched. \<not> pl_forbidInputLogging r)"
    and "lo_outputAllowed s \<longleftrightarrow> dp_logRetentionAllowed (qr_handlingPolicy q) \<and> (\<forall>r \<in> set matched. \<not> pl_forbidOutputLogging r)"
    and "lo_retentionAllowed s \<longleftrightarrow> dp_logRetentionAllowed (qr_handlingPolicy q) \<and> (\<forall>r \<in> set matched. \<not> pl_forbidRetention r)"
    and "\<And>n. exceedsDays n (lo_maxDays s) \<longleftrightarrow> (\<exists>r \<in> set matched. exceedsDays n (pl_maxRetentionDays r))"
  shows "lo_denied (retentionCheck q (loggingCheck q (artifactCheck q matched s))) \<longleftrightarrow> lo_denied s \<or> refusedByRestriction (set matched) q"
  unfolding refusedByRestriction_def retentionCheck_def loggingCheck_def artifactCheck_def Let_def list_ex_iff
  using assms by (cases "qr_action q") auto

text \<open>Everything the checks and the approvals leave behind.\<close>

lemma judge_Inr:
  assumes "judge cd collate idSource broker q now = Inr s" and "requestOk q" and "validTime now"
  obtains needs where
    "lo_denied s \<longleftrightarrow> refusedByRules (matchedBy broker q) q \<or> refusedByTarget (matchedBy broker q) q \<or>
       refusedByRestriction (matchedBy broker q) q \<or> (\<exists>need \<in> set needs. deniedNeed q (toISOString now) need)"
    "set (lo_missingApprovals s) = {need \<in> set needs. openNeed q (toISOString now) need}"
    "set (lo_transformations s) = demandedTransformations (matchedBy broker q) q"
    "lo_requiredLocality s = RequiresLocal \<longleftrightarrow> localDemanded (matchedBy broker q) q"
    "list_all2 (requirementFor cd idSource (br_policyVersion broker) q now)
       (filter (\<lambda>r. pl_approval r \<noteq> None \<and> qr_subjectDigest q \<noteq> None) (filter (ruleMatches q) (br_rules broker))) needs"
    "lo_inputAllowed s \<longleftrightarrow> dp_logRetentionAllowed (qr_handlingPolicy q) \<and> (\<forall>r \<in> matchedBy broker q. \<not> pl_forbidInputLogging r)"
    "lo_outputAllowed s \<longleftrightarrow> dp_logRetentionAllowed (qr_handlingPolicy q) \<and> (\<forall>r \<in> matchedBy broker q. \<not> pl_forbidOutputLogging r)"
    "lo_retentionAllowed s \<longleftrightarrow> dp_logRetentionAllowed (qr_handlingPolicy q) \<and> (\<forall>r \<in> matchedBy broker q. \<not> pl_forbidRetention r)"
    "\<And>n. exceedsDays n (lo_maxDays s) \<longleftrightarrow> (\<exists>r \<in> matchedBy broker q. exceedsDays n (pl_maxRetentionDays r))"
    "set (lo_forbidden s) = (\<Union>r \<in> matchedBy broker q. set (pl_forbiddenCapabilities r))"
    "\<And>i. i \<in> set (lo_approvalsToConsume s) \<Longrightarrow> qr_requesterKind q \<noteq> ModelRequester \<and>
       (\<exists>need \<in> set needs. \<exists>item \<in> set (qr_approvalEvidence q).
          meetsRequirement q (toISOString now) need item \<and> av_usage item = OneShot \<and> i = av_approvalRequestId item)"
proof -
  let ?matched = "filter (ruleMatches q) (br_rules broker)" and ?iso = "toISOString now" and ?M = "matchedBy broker q"
  obtain s1 s3 s5 where s1: "foldE (applyRule cd idSource (br_policyVersion broker) q now) ?matched (initialLocals q) = Inr s1"
    and s3: "disclosureCheck q ?iso (denyIf (\<not> lo_allowedByRule s1) ''DEFAULT_DENY'' s1) = Inr s3"
    and s5: "modelCheck q (executionCheck q (classificationCheck q s3)) = Inr s5"
    and s: "s = settleApprovals collate q ?iso (retentionCheck q (loggingCheck q (artifactCheck q ?matched (localityCheck q (capabilityCheck q s5)))))"
    using assms(1) by (auto simp: judge_def Let_def bindE_Inr_iff)
  have M: "set ?matched = ?M" by (simp add: matchedBy_def)
  have acc: "accumulates q ?matched (initialLocals q) s1" and dem: "demands cd idSource (br_policyVersion broker) q now ?matched (initialLocals q) s1"
    using rules_accumulate [OF s1] by auto
  note acc = acc [unfolded accumulates_def M]
  obtain needs where needs: "lo_approvals s1 = needs" "list_all2 (requirementFor cd idSource (br_policyVersion broker) q now)
       (filter (\<lambda>r. pl_approval r \<noteq> None \<and> qr_subjectDigest q \<noteq> None) ?matched) needs"
    using dem by (auto simp: demands_def initialLocals_def Let_def)
  have ok: "policyOk (qr_handlingPolicy q)" using assms(2) by (simp add: requestOk_def)
  note disclosed = disclosureCheck_Inr [OF s3 ok assms(3)]
  have start: "\<not> lo_denied (initialLocals q)" "\<not> lo_allowedByRule (initialLocals q)" "lo_transformations (initialLocals q) = []"
    "lo_requiredLocality (initialLocals q) = AnyLocality" "lo_forbidden (initialLocals q) = []" "lo_missingApprovals (initialLocals q) = []"
    "lo_approvalsToConsume (initialLocals q) = []" "lo_maxDays (initialLocals q) = None"
    "lo_inputAllowed (initialLocals q) = dp_logRetentionAllowed (qr_handlingPolicy q)"
    "lo_outputAllowed (initialLocals q) = dp_logRetentionAllowed (qr_handlingPolicy q)"
    "lo_retentionAllowed (initialLocals q) = dp_logRetentionAllowed (qr_handlingPolicy q)"
    by (simp_all add: initialLocals_def Let_def)
  have locality: "lo_requiredLocality s3 = RequiresLocal \<longleftrightarrow> localDemanded ?M q"
    using acc disclosed(3) start by (simp add: localDemanded_def)
  let ?s4 = "executionCheck q (classificationCheck q s3)"
  have "lo_requiredLocality ?s4 = RequiresLocal \<longleftrightarrow> localDemanded ?M q"
    using locality by (simp add: executionCheck_def classificationCheck_def)
  then obtain c where c: "s5 = denyIf c ''MODEL_CAPABILITY_MISMATCH'' ?s4"
    "c \<longleftrightarrow> (case qr_model q of None \<Rightarrow> False | Some m \<Rightarrow> \<not> modelFits ?M q m)"
    using modelCheck_Inr [OF s5 assms(2)] by blast
  define s7 where "s7 = retentionCheck q (loggingCheck q (artifactCheck q ?matched (localityCheck q (capabilityCheck q s5))))"
  note checks = s7_def retentionCheck_def loggingCheck_def artifactCheck_def localityCheck_def executionCheck_def classificationCheck_def c(1) Let_def
  have frame: "lo_transformations s7 = lo_transformations s3" "lo_approvals s7 = needs" "lo_requiredLocality s7 = lo_requiredLocality s3"
    "lo_forbidden s7 = lo_forbidden s1" "lo_inputAllowed s7 = lo_inputAllowed s1" "lo_outputAllowed s7 = lo_outputAllowed s1"
    "lo_retentionAllowed s7 = lo_retentionAllowed s1" "lo_maxDays s7 = lo_maxDays s1" "lo_missingApprovals s7 = []"
    "lo_approvalsToConsume s7 = []"
    using disclosed acc start needs(1) by (simp_all add: checks)
  have "lo_denied s1 \<longleftrightarrow> (\<exists>r \<in> ?M. pl_effect r = DenyEffect \<or> pl_approval r \<noteq> None \<and> qr_subjectDigest q = None)"
    "lo_allowedByRule s1 \<longleftrightarrow> (\<exists>r \<in> ?M. pl_effect r \<noteq> DenyEffect)"
    using acc start by simp_all
  then have "lo_denied s1 \<or> \<not> lo_allowedByRule s1 \<longleftrightarrow> refusedByRules ?M q"
    unfolding refusedByRules_def by blast
  then have d3: "lo_denied s3 \<longleftrightarrow> refusedByRules ?M q \<or>
      (case disclosedTo q of None \<Rightarrow> False | Some p \<Rightarrow> \<not> disclosurePermitted (qr_handlingPolicy q) p)"
    using disclosed(1) by simp
  have forbidden: "set (lo_forbidden s3) = (\<Union>r \<in> ?M. set (pl_forbiddenCapabilities r))"
    using disclosed(5) acc start by simp
  have "lo_denied (localityCheck q (capabilityCheck q s5)) \<longleftrightarrow> refusedByRules ?M q \<or> refusedByTarget ?M q"
    unfolding c(1) by (rule target_denied [OF locality forbidden c(2) d3])
  moreover have "lo_denied s7 \<longleftrightarrow> lo_denied (localityCheck q (capabilityCheck q s5)) \<or> refusedByRestriction ?M q"
    unfolding s7_def M [symmetric] using acc disclosed start M by (intro restriction_denied) (simp_all add: checks exceedsDays_def)
  ultimately have denied: "lo_denied s7 \<longleftrightarrow> refusedByRules ?M q \<or> refusedByTarget ?M q \<or> refusedByRestriction ?M q"
    by blast
  let ?sorted = "sortBy (\<lambda>a b. collate (aq_approvalRequestId a) (aq_approvalRequestId b) \<le> 0) needs"
  have s_eq: "s = fold (settleApproval q ?iso) ?sorted s7" by (simp only: s s7_def [symmetric] settleApprovals_def frame(2))
  show ?thesis
  proof (rule that)
    show "lo_denied s \<longleftrightarrow> refusedByRules ?M q \<or> refusedByTarget ?M q \<or> refusedByRestriction ?M q \<or> (\<exists>need \<in> set needs. deniedNeed q ?iso need)"
      unfolding s_eq settle_needs denied sortBy_set disj_assoc ..
    show "set (lo_missingApprovals s) = {need \<in> set needs. openNeed q ?iso need}"
      unfolding s_eq settle_needs frame by simp
    show "set (lo_transformations s) = demandedTransformations ?M q"
      unfolding s_eq settle_needs frame disclosed(2) deny_frame demandedTransformations_def using acc start by simp
    show "lo_requiredLocality s = RequiresLocal \<longleftrightarrow> localDemanded ?M q"
      unfolding s_eq settle_needs frame locality ..
    show "lo_inputAllowed s \<longleftrightarrow> dp_logRetentionAllowed (qr_handlingPolicy q) \<and> (\<forall>r \<in> ?M. \<not> pl_forbidInputLogging r)"
      "lo_outputAllowed s \<longleftrightarrow> dp_logRetentionAllowed (qr_handlingPolicy q) \<and> (\<forall>r \<in> ?M. \<not> pl_forbidOutputLogging r)"
      "lo_retentionAllowed s \<longleftrightarrow> dp_logRetentionAllowed (qr_handlingPolicy q) \<and> (\<forall>r \<in> ?M. \<not> pl_forbidRetention r)"
      "set (lo_forbidden s) = (\<Union>r \<in> ?M. set (pl_forbiddenCapabilities r))"
      "exceedsDays n (lo_maxDays s) \<longleftrightarrow> (\<exists>r \<in> ?M. exceedsDays n (pl_maxRetentionDays r))" for n
      unfolding s_eq settle_needs frame using acc start by (simp_all add: exceedsDays_def)
    show "qr_requesterKind q \<noteq> ModelRequester \<and> (\<exists>need \<in> set needs. \<exists>item \<in> set (qr_approvalEvidence q).
          meetsRequirement q ?iso need item \<and> av_usage item = OneShot \<and> i = av_approvalRequestId item)"
      if "i \<in> set (lo_approvalsToConsume s)" for i
      using that settle_consumes [of i q ?iso ?sorted s7] unfolding s_eq frame by simp
  qed (rule needs(2))
qed

definition evaluated ::
    "codec \<Rightarrow> (string \<Rightarrow> string \<Rightarrow> int) \<Rightarrow> (string \<Rightarrow> policy_request \<Rightarrow> string option) \<Rightarrow> policy_broker \<Rightarrow> policy_request \<Rightarrow> int \<Rightarrow>
     policy_locals \<Rightarrow> broker_decision \<Rightarrow> bool" where
  "evaluated cd collate idSource broker q now s d \<longleftrightarrow> validTime now \<and> judge cd collate idSource broker q now = Inr s \<and>
     d = decisionFrom broker q (toISOString now) s (dn_fingerprint d)"

lemma evaluateRequest_Inr:
  assumes "evaluateRequest cd collate idSource observerThrows broker q clock = Inr d"
  obtains now s where "clock = ClockDate now" "evaluated cd collate idSource broker q now s d"
    "digest cd (fingerprintInput (br_policyVersion broker) (toISOString now) q (filter (ruleMatches q) (br_rules broker))) = Inr (dn_fingerprint d)"
proof (cases clock)
  case (ClockDate now)
  then obtain s fingerprint where "validTime now" "judge cd collate idSource broker q now = Inr s"
    "digest cd (fingerprintInput (br_policyVersion broker) (toISOString now) q (filter (ruleMatches q) (br_rules broker))) = Inr fingerprint"
    "d = decisionFrom broker q (toISOString now) s fingerprint"
    using assms by (auto simp: evaluateRequest_def bindE_Inr_iff Let_def split: if_splits)
  then show ?thesis using ClockDate by (intro that) (simp_all add: evaluated_def decisionFrom_def Let_def)
qed (use assms in \<open>simp_all add: evaluateRequest_def\<close>)

lemma missing_transformations:
  "missingTransformations q s = [] \<longleftrightarrow> set (lo_transformations s) \<subseteq> set (qr_transformationsApplied q)"
  by (auto simp: missingTransformations_def filter_empty_conv)

theorem evaluated_verdict:
  assumes "evaluated cd collate idSource broker q now s d" and ok: "requestOk q"
  shows "dn_outcome d = policyVerdict cd idSource (br_policyVersion broker) (matchedBy broker q) q (toISOString now)"
proof -
  let ?M = "matchedBy broker q" and ?iso = "toISOString now" and ?version = "br_policyVersion broker"
  let ?asking = "filter (\<lambda>r. pl_approval r \<noteq> None \<and> qr_subjectDigest q \<noteq> None) (filter (ruleMatches q) (br_rules broker))"
  have now: "validTime now" and j: "judge cd collate idSource broker q now = Inr s"
    and d: "dn_outcome d = outcomeOf q s"
    using assms(1) by (auto simp: evaluated_def decisionFrom_def Let_def dest: arg_cong [where f = dn_outcome])
  obtain needs where denied: "lo_denied s \<longleftrightarrow> refusedByRules ?M q \<or> refusedByTarget ?M q \<or> refusedByRestriction ?M q \<or>
      (\<exists>need \<in> set needs. deniedNeed q ?iso need)"
    and missing: "set (lo_missingApprovals s) = {need \<in> set needs. openNeed q ?iso need}"
    and transformations: "set (lo_transformations s) = demandedTransformations ?M q"
    and locality: "lo_requiredLocality s = RequiresLocal \<longleftrightarrow> localDemanded ?M q"
    and needs: "list_all2 (requirementFor cd idSource ?version q now) ?asking needs"
    using j ok now by (rule judge_Inr) blast
  have asking: "set ?asking = {r \<in> ?M. pl_approval r \<noteq> None \<and> qr_subjectDigest q \<noteq> None}"
    by (auto simp: matchedBy_def)
  have covered: "\<exists>need \<in> set needs. requirementFor cd idSource ?version q now r need" if "r \<in> set ?asking" for r
    using needs that by (rule list_all2_partner)
  have denials: "(\<exists>need \<in> set needs. deniedNeed q ?iso need) \<longleftrightarrow>
      (\<exists>r \<in> ?M. \<exists>item \<in> set (qr_approvalEvidence q). deniesFor cd idSource ?version q ?iso r item)"
    (is "?left \<longleftrightarrow> ?right")
  proof
    assume ?left
    then obtain r need item where r: "r \<in> set ?asking" "requirementFor cd idSource ?version q now r need"
      "item \<in> set (qr_approvalEvidence q)" "deniesRequirement ?iso need item"
      using list_all2_bex [OF needs, of "deniedNeed q ?iso"] unfolding deniedNeed_def by blast
    then show ?right using deniesFor_need [OF r(2)] asking by blast
  next
    assume ?right
    then obtain r item where r: "r \<in> ?M" "item \<in> set (qr_approvalEvidence q)" "deniesFor cd idSource ?version q ?iso r item" by blast
    then have "r \<in> set ?asking" unfolding asking deniesFor_def by auto
    then obtain need where need: "need \<in> set needs" "requirementFor cd idSource ?version q now r need" using covered by blast
    then show ?left using r deniesFor_need [OF need(2), of ?iso item] by (auto simp: deniedNeed_def)
  qed
  have grants: "lo_missingApprovals s \<noteq> [] \<longleftrightarrow> (\<exists>r \<in> ?M. pl_approval r \<noteq> None \<and>
            (qr_requesterKind q = ModelRequester \<or> (\<forall>item \<in> set (qr_approvalEvidence q). \<not> grantsFor cd idSource ?version q ?iso r item)))"
    (is "_ \<longleftrightarrow> ?right")
    if "\<not> lo_denied s"
  proof
    assume "lo_missingApprovals s \<noteq> []"
    then have "set (lo_missingApprovals s) \<noteq> {}" by simp
    then have "\<exists>need \<in> set needs. openNeed q ?iso need" unfolding missing by blast
    then obtain r need where r: "r \<in> set ?asking" "requirementFor cd idSource ?version q now r need" "openNeed q ?iso need"
      using list_all2_bex [OF needs, of "openNeed q ?iso"] by blast
    then show ?right using grantsFor_need [OF r(2), of ?iso] unfolding asking openNeed_def by auto
  next
    assume ?right
    then obtain r where r: "r \<in> ?M" "pl_approval r \<noteq> None" "qr_requesterKind q = ModelRequester \<or>
        (\<forall>item \<in> set (qr_approvalEvidence q). \<not> grantsFor cd idSource ?version q ?iso r item)" by blast
    then have "qr_subjectDigest q \<noteq> None" using that denied by (auto simp: refusedByRules_def)
    then have "r \<in> set ?asking" using r(1,2) unfolding asking by blast
    then obtain need where need: "need \<in> set needs" "requirementFor cd idSource ?version q now r need" using covered by blast
    then have "openNeed q ?iso need" using that denied r(3) grantsFor_need [OF need(2)] by (auto simp: openNeed_def)
    then show "lo_missingApprovals s \<noteq> []" using need(1) missing by fastforce
  qed
  note den = denied [unfolded denials]
  have conditions: "conditionsRemain q s \<longleftrightarrow> \<not> demandedTransformations ?M q \<subseteq> set (qr_transformationsApplied q) \<or>
      (\<exists>r \<in> ?M. pl_approval r \<noteq> None \<and> (qr_requesterKind q = ModelRequester \<or>
         (\<forall>item \<in> set (qr_approvalEvidence q). \<not> grantsFor cd idSource ?version q ?iso r item))) \<or>
      localDemanded ?M q \<and> qr_locality q = UnspecifiedLocality" if "\<not> lo_denied s"
    unfolding conditionsRemain_def length_greater_0_conv grants [OF that] locality missing_transformations transformations using that by blast
  show ?thesis
  proof (cases "lo_denied s")
    case True
    then show ?thesis unfolding d outcomeOf_def policyVerdict_def den [symmetric] by simp
  next
    case False
    then show ?thesis unfolding d outcomeOf_def policyVerdict_def den [symmetric] conditions [OF False, symmetric] by simp
  qed
qed

end
