(* ===== verification/Policy_Props.thy ===== *)
theory Policy_Props
  imports Policy_Laws
begin

text \<open>
  Consequences of the verdict: it grows with the rules, an allowed action is approved, a consumed approval does not
  serve again; and the order in which the rules are given does not matter, for any collation that is a linear order.
\<close>

section \<open>More rules\<close>

fun outcomeRank :: "policy_outcome \<Rightarrow> nat" where
  "outcomeRank PolicyAllowed = 0"
| "outcomeRank PolicyConditional = 1"
| "outcomeRank PolicyDenied = 2"

lemma localDemanded_mono: "M \<subseteq> M' \<Longrightarrow> localDemanded M q \<Longrightarrow> localDemanded M' q"
  by (auto simp: localDemanded_def)

lemma modelFits_antimono: "M \<subseteq> M' \<Longrightarrow> modelFits M' q m \<Longrightarrow> modelFits M q m"
  using localDemanded_mono [of M M' q] by (auto simp: modelFits_def)

lemma refused_mono:
  assumes sub: "M \<subseteq> M'"
  shows "\<exists>r \<in> M. pl_effect r \<noteq> DenyEffect \<Longrightarrow> refusedByRules M q \<Longrightarrow> refusedByRules M' q"
    and "refusedByTarget M q \<Longrightarrow> refusedByTarget M' q"
    and "refusedByRestriction M q \<Longrightarrow> refusedByRestriction M' q"
    and "demandedTransformations M q \<subseteq> demandedTransformations M' q"
proof -
  show "\<exists>r \<in> M. pl_effect r \<noteq> DenyEffect \<Longrightarrow> refusedByRules M q \<Longrightarrow> refusedByRules M' q"
    using sub by (auto simp: refusedByRules_def)
  have m: "(case qr_model q of None \<Rightarrow> False | Some m \<Rightarrow> \<not> modelFits M q m) \<Longrightarrow>
      (case qr_model q of None \<Rightarrow> False | Some m \<Rightarrow> \<not> modelFits M' q m)"
    using modelFits_antimono [OF sub] by (auto split: option.splits)
  show "refusedByTarget M q \<Longrightarrow> refusedByTarget M' q"
    unfolding refusedByTarget_def using sub m localDemanded_mono [OF sub, of q] by blast
  show "refusedByRestriction M q \<Longrightarrow> refusedByRestriction M' q"
    unfolding refusedByRestriction_def Let_def using sub by blast
  show "demandedTransformations M q \<subseteq> demandedTransformations M' q"
    unfolding demandedTransformations_def using sub by (intro Un_mono UN_mono) auto
qed

lemma allowed_verdict:
  assumes "policyVerdict cd idSource version M q nowIso = PolicyAllowed"
  shows "\<not> refusedByRules M q" "\<not> refusedByTarget M q" "\<not> refusedByRestriction M q"
    "demandedTransformations M q \<subseteq> set (qr_transformationsApplied q)" "\<not> (localDemanded M q \<and> qr_locality q = UnspecifiedLocality)"
    "\<And>r item. r \<in> M \<Longrightarrow> item \<in> set (qr_approvalEvidence q) \<Longrightarrow> \<not> deniesFor cd idSource version q nowIso r item"
    "\<And>r. r \<in> M \<Longrightarrow> pl_approval r \<noteq> None \<Longrightarrow> qr_requesterKind q \<noteq> ModelRequester \<and>
       (\<exists>item \<in> set (qr_approvalEvidence q). grantsFor cd idSource version q nowIso r item)"
  using assms unfolding policyVerdict_def by (auto split: if_splits)

lemma policyVerdict_mono:
  assumes sub: "M \<subseteq> M'" and allowing: "\<exists>r \<in> M. pl_effect r \<noteq> DenyEffect"
  shows "outcomeRank (policyVerdict cd idSource version M q nowIso) \<le> outcomeRank (policyVerdict cd idSource version M' q nowIso)"
proof -
  note mono = refused_mono [OF sub] localDemanded_mono [OF sub, of q]
  let ?v = "policyVerdict cd idSource version M q nowIso" and ?v' = "policyVerdict cd idSource version M' q nowIso"
  have "?v' = PolicyDenied" if "?v = PolicyDenied"
    using that mono(1) [OF allowing] mono(2,3) sub unfolding policyVerdict_def by (auto split: if_splits)
  moreover have "?v = PolicyAllowed" if allowed: "?v' = PolicyAllowed"
  proof -
    have "\<not> refusedByRules M q" using allowed_verdict(1) [OF allowed] mono(1) [OF allowing] by blast
    moreover have "\<not> refusedByTarget M q" "\<not> refusedByRestriction M q" using allowed_verdict(2,3) [OF allowed] mono(2,3) by blast+
    moreover have "demandedTransformations M q \<subseteq> set (qr_transformationsApplied q)"
      using allowed_verdict(4) [OF allowed] mono(4) by (rule order_trans [rotated])
    moreover have "\<not> (localDemanded M q \<and> qr_locality q = UnspecifiedLocality)"
      using allowed_verdict(5) [OF allowed] mono(5) by blast
    moreover have "\<forall>r \<in> M. \<forall>item \<in> set (qr_approvalEvidence q). \<not> deniesFor cd idSource version q nowIso r item"
      "\<forall>r \<in> M. pl_approval r \<noteq> None \<longrightarrow> qr_requesterKind q \<noteq> ModelRequester \<and>
         (\<exists>item \<in> set (qr_approvalEvidence q). grantsFor cd idSource version q nowIso r item)"
      using allowed_verdict(6,7) [OF allowed] sub by blast+
    ultimately show ?thesis unfolding policyVerdict_def by auto
  qed
  ultimately show ?thesis by (cases ?v; cases ?v') auto
qed

section \<open>What a decision says\<close>

lemma decisionFrom_simps [simp]:
  "dn_outcome (decisionFrom broker q nowIso s f) = outcomeOf q s"
  "dn_requiredTransformations (decisionFrom broker q nowIso s f) = missingTransformations q s"
  "dn_requiredLocality (decisionFrom broker q nowIso s f) = lo_requiredLocality s"
  "dn_inputAllowed (decisionFrom broker q nowIso s f) = lo_inputAllowed s"
  "dn_outputAllowed (decisionFrom broker q nowIso s f) = lo_outputAllowed s"
  "dn_retentionAllowed (decisionFrom broker q nowIso s f) = lo_retentionAllowed s"
  "dn_maxDays (decisionFrom broker q nowIso s f) = lo_maxDays s"
  "dn_capabilityConstraints (decisionFrom broker q nowIso s f) = sortTexts policyCapabilityText (lo_forbidden s)"
  "dn_approvalsToConsume (decisionFrom broker q nowIso s f) = sortStrings (lo_approvalsToConsume s)"
  by (simp_all add: decisionFrom_def Let_def)

lemma sortStrings_set [simp]: "set (sortStrings xs) = set xs"
  by (simp add: sortStrings_def image_image)

text \<open>The restrictions of a decision are those of the matched rules.\<close>

lemma evaluated_restrictions:
  assumes "evaluated cd collate idSource broker q now s d" and ok: "requestOk q"
  shows "set (dn_requiredTransformations d) = demandedTransformations (matchedBy broker q) q - set (qr_transformationsApplied q)"
    "dn_requiredLocality d = RequiresLocal \<longleftrightarrow> localDemanded (matchedBy broker q) q"
    "dn_inputAllowed d \<longleftrightarrow> dp_logRetentionAllowed (qr_handlingPolicy q) \<and> (\<forall>r \<in> matchedBy broker q. \<not> pl_forbidInputLogging r)"
    "dn_outputAllowed d \<longleftrightarrow> dp_logRetentionAllowed (qr_handlingPolicy q) \<and> (\<forall>r \<in> matchedBy broker q. \<not> pl_forbidOutputLogging r)"
    "dn_retentionAllowed d \<longleftrightarrow> dp_logRetentionAllowed (qr_handlingPolicy q) \<and> (\<forall>r \<in> matchedBy broker q. \<not> pl_forbidRetention r)"
    "exceedsDays n (dn_maxDays d) \<longleftrightarrow> (\<exists>r \<in> matchedBy broker q. exceedsDays n (pl_maxRetentionDays r))"
    "set (dn_capabilityConstraints d) = (\<Union>r \<in> matchedBy broker q. set (pl_forbiddenCapabilities r))"
proof -
  have now: "validTime now" and j: "judge cd collate idSource broker q now = Inr s"
    using assms(1) by (simp_all add: evaluated_def)
  obtain f where d: "d = decisionFrom broker q (toISOString now) s f" using assms(1) by (auto simp: evaluated_def)
  obtain needs where "set (lo_transformations s) = demandedTransformations (matchedBy broker q) q"
    "lo_requiredLocality s = RequiresLocal \<longleftrightarrow> localDemanded (matchedBy broker q) q"
    "lo_inputAllowed s \<longleftrightarrow> dp_logRetentionAllowed (qr_handlingPolicy q) \<and> (\<forall>r \<in> matchedBy broker q. \<not> pl_forbidInputLogging r)"
    "lo_outputAllowed s \<longleftrightarrow> dp_logRetentionAllowed (qr_handlingPolicy q) \<and> (\<forall>r \<in> matchedBy broker q. \<not> pl_forbidOutputLogging r)"
    "lo_retentionAllowed s \<longleftrightarrow> dp_logRetentionAllowed (qr_handlingPolicy q) \<and> (\<forall>r \<in> matchedBy broker q. \<not> pl_forbidRetention r)"
    "\<And>n. exceedsDays n (lo_maxDays s) \<longleftrightarrow> (\<exists>r \<in> matchedBy broker q. exceedsDays n (pl_maxRetentionDays r))"
    "set (lo_forbidden s) = (\<Union>r \<in> matchedBy broker q. set (pl_forbiddenCapabilities r))"
    using j ok now by (rule judge_Inr) blast
  then show "set (dn_requiredTransformations d) = demandedTransformations (matchedBy broker q) q - set (qr_transformationsApplied q)"
    "dn_requiredLocality d = RequiresLocal \<longleftrightarrow> localDemanded (matchedBy broker q) q"
    "dn_inputAllowed d \<longleftrightarrow> dp_logRetentionAllowed (qr_handlingPolicy q) \<and> (\<forall>r \<in> matchedBy broker q. \<not> pl_forbidInputLogging r)"
    "dn_outputAllowed d \<longleftrightarrow> dp_logRetentionAllowed (qr_handlingPolicy q) \<and> (\<forall>r \<in> matchedBy broker q. \<not> pl_forbidOutputLogging r)"
    "dn_retentionAllowed d \<longleftrightarrow> dp_logRetentionAllowed (qr_handlingPolicy q) \<and> (\<forall>r \<in> matchedBy broker q. \<not> pl_forbidRetention r)"
    "exceedsDays n (dn_maxDays d) \<longleftrightarrow> (\<exists>r \<in> matchedBy broker q. exceedsDays n (pl_maxRetentionDays r))"
    "set (dn_capabilityConstraints d) = (\<Union>r \<in> matchedBy broker q. set (pl_forbiddenCapabilities r))"
    unfolding d by (simp_all add: missingTransformations_def set_diff_eq)
qed

section \<open>Approvals\<close>

lemma consumed_from:
  assumes "evaluated cd collate idSource broker q now s d" and ok: "requestOk q" and i: "i \<in> set (dn_approvalsToConsume d)"
  obtains r item where "r \<in> matchedBy broker q" "item \<in> set (qr_approvalEvidence q)" "av_usage item = OneShot"
    "i = av_approvalRequestId item" "grantsFor cd idSource (br_policyVersion broker) q (toISOString now) r item"
proof -
  have now: "validTime now" and j: "judge cd collate idSource broker q now = Inr s"
    using assms(1) by (simp_all add: evaluated_def)
  obtain f where d: "d = decisionFrom broker q (toISOString now) s f" using assms(1) by (auto simp: evaluated_def)
  let ?asking = "filter (\<lambda>r. pl_approval r \<noteq> None \<and> qr_subjectDigest q \<noteq> None) (filter (ruleMatches q) (br_rules broker))"
  obtain needs where needs: "list_all2 (requirementFor cd idSource (br_policyVersion broker) q now) ?asking needs"
    and consumed: "\<And>i. i \<in> set (lo_approvalsToConsume s) \<Longrightarrow> qr_requesterKind q \<noteq> ModelRequester \<and>
       (\<exists>need \<in> set needs. \<exists>item \<in> set (qr_approvalEvidence q).
          meetsRequirement q (toISOString now) need item \<and> av_usage item = OneShot \<and> i = av_approvalRequestId item)"
    using j ok now by (rule judge_Inr) blast
  have "\<exists>need \<in> set needs. \<exists>item \<in> set (qr_approvalEvidence q).
      meetsRequirement q (toISOString now) need item \<and> av_usage item = OneShot \<and> i = av_approvalRequestId item"
    using consumed [of i] i unfolding d by simp
  then obtain r need item where r: "r \<in> set ?asking" "requirementFor cd idSource (br_policyVersion broker) q now r need"
    "item \<in> set (qr_approvalEvidence q)" "meetsRequirement q (toISOString now) need item" "av_usage item = OneShot" "i = av_approvalRequestId item"
    using list_all2_bex [OF needs, of "\<lambda>need. \<exists>item \<in> set (qr_approvalEvidence q).
      meetsRequirement q (toISOString now) need item \<and> av_usage item = OneShot \<and> i = av_approvalRequestId item"] by blast
  have "r \<in> matchedBy broker q" using r(1) by (auto simp: matchedBy_def)
  then show ?thesis using that r grantsFor_need [OF r(2), of "toISOString now" item] by blast
qed

text \<open>The caller records the consumption of approvals: evidence with one of these ids has been used at \<open>at'\<close>.\<close>

definition consumeApprovals :: "string list \<Rightarrow> string \<Rightarrow> policy_request \<Rightarrow> policy_request" where
  "consumeApprovals ids at' q = q\<lparr>qr_approvalEvidence :=
     map (\<lambda>e. if av_approvalRequestId e \<in> set ids then e\<lparr>av_consumedAt := Some at'\<rparr> else e) (qr_approvalEvidence q)\<rparr>"

abbreviation derivedIds :: "string \<Rightarrow> policy_request \<Rightarrow> string option" where
  "derivedIds \<equiv> \<lambda>_ _. None"

lemma consumeApprovals_simps [simp]:
  "requestOk (consumeApprovals ids at' q) = requestOk q" "matchedBy broker (consumeApprovals ids at' q) = matchedBy broker q"
  "qr_subjectDigest (consumeApprovals ids at' q) = qr_subjectDigest q"
  "approvalIdFor cd derivedIds version r (consumeApprovals ids at' q) subject = approvalIdFor cd derivedIds version r q subject"
  by (simp_all add: consumeApprovals_def requestOk_def matchedBy_def ruleMatches_def approvalIdFor_def cong: filter_cong)

lemma one_shot_verdict:
  assumes d: "evaluated cd collate derivedIds broker q now s d" and ok: "requestOk q" and i: "i \<in> set (dn_approvalsToConsume d)"
    and single: "\<And>e. e \<in> set (qr_approvalEvidence q) \<Longrightarrow> av_approvalRequestId e = i \<Longrightarrow> av_usage e = OneShot"
  shows "policyVerdict cd derivedIds (br_policyVersion broker) (matchedBy broker q) (consumeApprovals (dn_approvalsToConsume d) at' q) nowIso \<noteq> PolicyAllowed"
proof
  let ?q = "consumeApprovals (dn_approvalsToConsume d) at' q"
  assume allowed: "policyVerdict cd derivedIds (br_policyVersion broker) (matchedBy broker q) ?q nowIso = PolicyAllowed"
  obtain r item where r: "r \<in> matchedBy broker q" "item \<in> set (qr_approvalEvidence q)" "i = av_approvalRequestId item"
    "grantsFor cd derivedIds (br_policyVersion broker) q (toISOString now) r item"
    using d ok i by (rule consumed_from)
  then have r_id: "qr_subjectDigest q = Some (av_subjectDigest item)" "pl_approval r \<noteq> None"
    "approvalIdFor cd derivedIds (br_policyVersion broker) r q (av_subjectDigest item) = Inr i"
    by (auto simp: grantsFor_def)
  obtain item' where item': "item' \<in> set (qr_approvalEvidence ?q)" "grantsFor cd derivedIds (br_policyVersion broker) ?q nowIso r item'"
    using allowed_verdict(7) [OF allowed r(1) r_id(2)] by blast
  then have "av_approvalRequestId item' = i" and fresh: "av_usage item' = Reusable \<or> av_consumedAt item' = None"
    using r_id by (auto simp: grantsFor_def)
  moreover obtain e where "e \<in> set (qr_approvalEvidence q)" "item' = (if av_approvalRequestId e \<in> set (dn_approvalsToConsume d)
      then e\<lparr>av_consumedAt := Some at'\<rparr> else e)"
    using item'(1) by (auto simp: consumeApprovals_def)
  ultimately show False using single [of e] i by (auto split: if_splits)
qed

section \<open>The order of rules and of evidence\<close>

lemma SAFE_KIND_SAFE_ID: "SAFE_KIND s \<Longrightarrow> SAFE_ID s"
  by (cases s) (auto simp: SAFE_KIND_def SAFE_ID_def list_all_iff)

lemma parsePolicyRule_id: "parsePolicyRule v = Inr p \<Longrightarrow> SAFE_KIND (pl_id p)"
  unfolding parsePolicyRule_def bindE_Inr_iff ensureString_Inr by (elim exE conjE, simp only: sum.inject, hypsubst, simp)

lemma parseApprovalEvidence_ids:
  "parseApprovalEvidence v = Inr e \<Longrightarrow> SAFE_ID (av_approvalRequestId e) \<and> SAFE_ID (av_evidenceRef e)"
  unfolding parseApprovalEvidence_def bindE_Inr_iff ensureString_Inr by (elim exE conjE, simp only: sum.inject, hypsubst, simp)

text \<open>What the broker relies on of \<open>localeCompare\<close>: a total preorder that tells identifiers apart.\<close>

locale collation =
  fixes collate :: "string \<Rightarrow> string \<Rightarrow> int"
  assumes collate_sign: "collate b a \<le> 0 \<longleftrightarrow> 0 \<le> collate a b"
    and collate_trans: "collate a b \<le> 0 \<Longrightarrow> collate b c \<le> 0 \<Longrightarrow> collate a c \<le> 0"
    and collate_zero: "SAFE_ID a \<Longrightarrow> SAFE_ID b \<Longrightarrow> collate a b = 0 \<Longrightarrow> a = b"
begin

lemma collate_strict: "collate a b < 0 \<Longrightarrow> collate b c \<le> 0 \<Longrightarrow> collate a c < 0"
  by (metis collate_sign collate_trans leD linorder_not_le order.strict_iff_order)

lemma ruleAhead_total: "ruleAhead collate a b \<or> ruleAhead collate b a"
  using collate_sign [of "pl_id a" "pl_id b"] by (auto simp: ruleAhead_def Let_def)

lemma ruleAhead_trans: "ruleAhead collate a b \<Longrightarrow> ruleAhead collate b c \<Longrightarrow> ruleAhead collate a c"
  using collate_trans [of "pl_id a" "pl_id b" "pl_id c"] by (auto simp: ruleAhead_def Let_def split: if_splits)

lemma ruleAhead_antisym:
  assumes "ruleAhead collate a b" "ruleAhead collate b a" "SAFE_ID (pl_id a)" "SAFE_ID (pl_id b)"
  shows "pl_id a = pl_id b"
  using assms collate_sign [of "pl_id a" "pl_id b"] collate_sign [of "pl_id b" "pl_id a"] collate_zero [of "pl_id a" "pl_id b"]
  by (auto simp: ruleAhead_def Let_def split: if_splits)

lemma evidenceAhead_total: "evidenceAhead collate a b \<or> evidenceAhead collate b a"
  using collate_sign [of "av_approvalRequestId a" "av_approvalRequestId b"] collate_sign [of "av_approvalRequestId b" "av_approvalRequestId a"]
    collate_sign [of "av_evidenceRef a" "av_evidenceRef b"]
  by (auto simp: evidenceAhead_def Let_def)

lemma evidenceAhead_trans:
  assumes ab: "evidenceAhead collate a b" and bc: "evidenceAhead collate b c"
  shows "evidenceAhead collate a c"
proof -
  let ?i = "\<lambda>x y. collate (av_approvalRequestId x) (av_approvalRequestId y)" and ?e = "\<lambda>x y. collate (av_evidenceRef x) (av_evidenceRef y)"
  have iff: "evidenceAhead collate x y \<longleftrightarrow> ?i x y < 0 \<or> ?i x y = 0 \<and> ?e x y \<le> 0" for x y
    by (auto simp: evidenceAhead_def Let_def)
  have le: "?i a b \<le> 0" "?i b c \<le> 0" using ab bc unfolding iff by auto
  then have ac: "?i a c \<le> 0" by (rule collate_trans)
  show ?thesis
  proof (cases "?i a c = 0")
    case True
    then have "0 \<le> ?i a b" "0 \<le> ?i b c"
      using collate_strict [of "av_approvalRequestId a"] collate_sign collate_trans le by (metis eq_refl)+
    then have "?e a b \<le> 0" "?e b c \<le> 0" using ab bc le unfolding iff by auto
    then show ?thesis using True collate_trans unfolding iff by blast
  next
    case False
    then show ?thesis using ac unfolding iff by simp
  qed
qed

lemma evidenceAhead_antisym:
  assumes "evidenceAhead collate a b" "evidenceAhead collate b a" "list_all SAFE_ID [av_approvalRequestId a, av_approvalRequestId b, av_evidenceRef a, av_evidenceRef b]"
  shows "av_approvalRequestId a = av_approvalRequestId b \<and> av_evidenceRef a = av_evidenceRef b"
proof -
  have "collate (av_approvalRequestId a) (av_approvalRequestId b) = 0"
    using assms(1,2) collate_sign [of "av_approvalRequestId a" "av_approvalRequestId b"]
      collate_sign [of "av_approvalRequestId b" "av_approvalRequestId a"] by (auto simp: evidenceAhead_def Let_def split: if_splits)
  moreover have "collate (av_approvalRequestId b) (av_approvalRequestId a) = 0"
    using calculation collate_sign [of "av_approvalRequestId a" "av_approvalRequestId b"]
      collate_sign [of "av_approvalRequestId b" "av_approvalRequestId a"] by simp
  ultimately have "collate (av_evidenceRef a) (av_evidenceRef b) = 0"
    using assms(1,2) collate_sign [of "av_evidenceRef a" "av_evidenceRef b"] collate_sign [of "av_evidenceRef b" "av_evidenceRef a"]
    by (auto simp: evidenceAhead_def Let_def)
  then show ?thesis using assms(3) collate_zero \<open>collate (av_approvalRequestId a) (av_approvalRequestId b) = 0\<close> by simp
qed

text \<open>The same rules in another order make the same broker.\<close>

theorem permuted_rules:
  assumes perm: "mset rules = mset rules'" and broker: "createDeterministicPolicyBroker collate version rules = Inr broker"
  shows "createDeterministicPolicyBroker collate version rules' = Inr broker"
proof -
  obtain v parsed where v: "ensureString version 1 64 SAFE_ID = Inr v" and parsed: "mapE parsePolicyRule rules = Inr parsed"
    and distinct: "distinct (map pl_id (sortBy (ruleAhead collate) parsed))"
    and b: "broker = \<lparr>br_policyVersion = v, br_rules = sortBy (ruleAhead collate) parsed\<rparr>"
    using broker by (auto simp: createDeterministicPolicyBroker_def bindE_Inr_iff Let_def split: if_splits)
  obtain parsed' where parsed': "mapE parsePolicyRule rules' = Inr parsed'" and same: "mset parsed' = mset parsed"
    using mapE_permuted [OF perm parsed] by blast
  have ids: "SAFE_ID (pl_id p)" if "p \<in> set parsed" for p
    using mapE_set [OF parsed that] parsePolicyRule_id SAFE_KIND_SAFE_ID by blast
  have "sortBy (ruleAhead collate) parsed = sortBy (ruleAhead collate) parsed'"
  proof (rule sorted_wrt_unique [where ahead = "ruleAhead collate"])
    show "mset (sortBy (ruleAhead collate) parsed) = mset (sortBy (ruleAhead collate) parsed')" by (simp add: same)
    show "sorted_wrt (ruleAhead collate) (sortBy (ruleAhead collate) parsed)" "sorted_wrt (ruleAhead collate) (sortBy (ruleAhead collate) parsed')"
      using sortBy_sorted [of "ruleAhead collate"] ruleAhead_trans ruleAhead_total by blast+
    show "p = p'" if "p \<in> set (sortBy (ruleAhead collate) parsed)" "p' \<in> set (sortBy (ruleAhead collate) parsed)"
      "ruleAhead collate p p'" "ruleAhead collate p' p" for p p'
      using ruleAhead_antisym [OF that(3,4)] ids that(1,2) distinct by (auto dest: distinct_map_inj_on_eq)
  qed (use ruleAhead_total in blast)
  then show ?thesis
    using parsed' distinct v by (simp add: createDeterministicPolicyBroker_def b del: ensureString_Inr)
qed

text \<open>The same evidence in another order is the same evidence, unless two items share their ids.\<close>

theorem permuted_evidence:
  assumes perm: "mset entries = mset entries'" and short: "length entries \<le> 32"
    and evidence: "parseEvidenceList collate (plainArr entries) = Inr evidence"
    and single: "distinct (map (\<lambda>e. (av_approvalRequestId e, av_evidenceRef e)) evidence)"
  shows "parseEvidenceList collate (plainArr entries') = Inr evidence"
proof -
  obtain parsed where parsed: "mapE parseApprovalEvidence entries = Inr parsed" and e: "evidence = sortBy (evidenceAhead collate) parsed"
    using evidence short by (auto simp: parseEvidenceList_def bindE_Inr_iff)
  obtain parsed' where parsed': "mapE parseApprovalEvidence entries' = Inr parsed'" and same: "mset parsed' = mset parsed"
    using mapE_permuted [OF perm parsed] by blast
  have ids: "SAFE_ID (av_approvalRequestId p) \<and> SAFE_ID (av_evidenceRef p)" if "p \<in> set parsed" for p
    using mapE_set [OF parsed that] parseApprovalEvidence_ids by blast
  have "sortBy (evidenceAhead collate) parsed = sortBy (evidenceAhead collate) parsed'"
  proof (rule sorted_wrt_unique [where ahead = "evidenceAhead collate"])
    show "mset (sortBy (evidenceAhead collate) parsed) = mset (sortBy (evidenceAhead collate) parsed')" by (simp add: same)
    show "sorted_wrt (evidenceAhead collate) (sortBy (evidenceAhead collate) parsed)" "sorted_wrt (evidenceAhead collate) (sortBy (evidenceAhead collate) parsed')"
      using sortBy_sorted [of "evidenceAhead collate"] evidenceAhead_trans evidenceAhead_total by blast+
    show "p = p'" if "p \<in> set (sortBy (evidenceAhead collate) parsed)" "p' \<in> set (sortBy (evidenceAhead collate) parsed)"
      "evidenceAhead collate p p'" "evidenceAhead collate p' p" for p p'
      using evidenceAhead_antisym [OF that(3,4)] ids that(1,2) distinct_map_inj_on_eq [OF single, of p p'] by (simp add: e)
  qed (use evidenceAhead_total in blast)
  moreover have "length entries' \<le> 32" using short mset_eq_length [OF perm] by simp
  ultimately show ?thesis using parsed' by (simp add: parseEvidenceList_def e)
qed

end

interpretation code_units: collation compareText
proof
  show "compareText b a \<le> 0 \<longleftrightarrow> 0 \<le> compareText a b" for a b
    using strLess_trans [of a b a] by (auto simp: compareText_def)
  show "compareText a b \<le> 0 \<Longrightarrow> compareText b c \<le> 0 \<Longrightarrow> compareText a c \<le> 0" for a b c
    unfolding compareText_iff by (metis strLess_total strLess_trans)
qed simp

end
