(* ===== verification/Policy_Total.thy ===== *)
theory Policy_Total
  imports Policy_Props
begin

text \<open>
  \<open>evaluate\<close> decides every request it parses: the values it digests are JSON of bounded size, so neither the approval
  ids nor the fingerprint can fail, and its calls of the domain package accept what it has parsed.
\<close>

section \<open>Values of bounded size\<close>

text \<open>\<open>fits r n v\<close>: \<open>v\<close> is JSON that the canonical copy accepts, with at most \<open>n\<close> nodes on at most \<open>r\<close> levels below it.\<close>

definition fits :: "nat \<Rightarrow> nat \<Rightarrow> jsval \<Rightarrow> bool" where
  "fits r n v \<longleftrightarrow> (\<exists>j. v = jsonVal j \<and> jsonFine r j \<and> jsonNodes j \<le> n)"

lemma fits_digest: "fits maxDepth n v \<Longrightarrow> n \<le> maxNodes \<Longrightarrow> isOk (digest cd v)"
  unfolding fits_def using digest_total by fastforce

lemma fits_leaf [intro]:
  "length s \<le> maxStringLength \<Longrightarrow> 1 \<le> n \<Longrightarrow> fits r n (JStr s)" "1 \<le> n \<Longrightarrow> fits r n (JBool b)" "1 \<le> n \<Longrightarrow> fits r n (jsInt i)"
  "1 \<le> n \<Longrightarrow> fits r n JNull"
  unfolding fits_def
  by (rule exI [of _ "JsonStr s"], simp) (rule exI [of _ "JsonBool b"], simp, rule exI [of _ "JsonNum (NInt i)"], simp,
    rule exI [of _ JsonNull], simp)

lemma fits_nullable [intro]: "(\<And>a. x = Some a \<Longrightarrow> fits r n (f a)) \<Longrightarrow> 1 \<le> n \<Longrightarrow> fits r n (jsNullable f x)"
  by (cases x) auto

lemma fits_array:
  assumes "\<And>v. v \<in> set vs \<Longrightarrow> fits r n v" and "length vs \<le> k" and "k \<le> maxNodes"
  shows "fits (Suc r) (1 + k * n) (plainArr vs)"
proof -
  have "\<exists>js. vs = map jsonVal js \<and> list_all (jsonFine r) js \<and> sum_list (map jsonNodes js) \<le> length vs * n"
    using assms(1)
  proof (induction vs)
    case (Cons v vs)
    obtain js where "vs = map jsonVal js" "list_all (jsonFine r) js" "sum_list (map jsonNodes js) \<le> length vs * n"
      using Cons.IH Cons.prems by auto
    moreover obtain j where "v = jsonVal j" "jsonFine r j" "jsonNodes j \<le> n" using Cons.prems [of v] by (auto simp: fits_def)
    ultimately show ?case by (intro exI [of _ "j # js"]) simp
  qed simp
  then obtain js where js: "vs = map jsonVal js" "list_all (jsonFine r) js" "sum_list (map jsonNodes js) \<le> length vs * n" by blast
  have "length vs * n \<le> k * n" using assms(2) by (rule mult_le_mono1)
  then have "jsonNodes (JsonArr js) \<le> 1 + k * n" using js(3) unfolding jsonNodes.simps by linarith
  moreover have "jsonFine (Suc r) (JsonArr js)" using js(1,2) assms(2,3) by (simp add: list_all_iff)
  ultimately show ?thesis unfolding fits_def js(1) by (intro exI [of _ "JsonArr js"]) simp
qed

lemma fits_object:
  assumes "list_all2 (\<lambda>(k, v) n. k \<notin> set DANGEROUS_OBJECT_KEYS \<and> fits r n v) fs ns"
  shows "fits (Suc r) (1 + sum_list ns) (plainObj fs)"
proof -
  have "\<exists>js. fs = map (\<lambda>(k, j). (k, jsonVal j)) js \<and> list_all (\<lambda>(k, j). k \<notin> set DANGEROUS_OBJECT_KEYS \<and> jsonFine r j) js \<and>
      sum_list (map (\<lambda>(k, j). jsonNodes j) js) \<le> sum_list ns"
    using assms
  proof (induction rule: list_all2_induct)
    case (Cons f fs n ns)
    then obtain js k j where "f = (k, jsonVal j)" "k \<notin> set DANGEROUS_OBJECT_KEYS" "jsonFine r j" "jsonNodes j \<le> n"
      "fs = map (\<lambda>(k, j). (k, jsonVal j)) js" "list_all (\<lambda>(k, j). k \<notin> set DANGEROUS_OBJECT_KEYS \<and> jsonFine r j) js"
      "sum_list (map (\<lambda>(k, j). jsonNodes j) js) \<le> sum_list ns" by (auto simp: fits_def)
    then show ?case by (intro exI [of _ "(k, j) # js"]) simp
  qed simp
  then obtain js where js: "fs = map (\<lambda>(k, j). (k, jsonVal j)) js" "list_all (\<lambda>(k, j). k \<notin> set DANGEROUS_OBJECT_KEYS \<and> jsonFine r j) js"
    "sum_list (map (\<lambda>(k, j). jsonNodes j) js) \<le> sum_list ns" by blast
  then have "jsonFine (Suc r) (JsonObj js)" by (auto simp: list_all_iff)
  moreover have "jsonNodes (JsonObj js) \<le> 1 + sum_list ns" using js(3) by simp
  ultimately show ?thesis unfolding fits_def js(1) by (intro exI [of _ "JsonObj js"]) simp
qed

lemma fits_mono: "fits r n v \<Longrightarrow> n \<le> m \<Longrightarrow> fits r m v"
  by (auto simp: fits_def)

text \<open>A list of distinct members of an enumeration.\<close>

lemma fits_texts:
  assumes "\<And>x. length (text x) \<le> maxStringLength" and "distinct xs" and "set xs \<subseteq> set members" and "length members \<le> maxNodes"
  shows "fits (Suc r) (1 + length members) (textsVal text xs)"
proof -
  have "fits r 1 v" if "v \<in> set (map (\<lambda>x. JStr (text x)) xs)" for v using that assms(1) by auto
  then show ?thesis
    using fits_array [of "map (\<lambda>x. JStr (text x)) xs" r 1 "length members"] distinct_members_length [OF assms(2,3)] assms(4)
    unfolding textsVal_def by simp
qed

lemma short_texts [simp]:
  "length (policyActionText a) \<le> maxStringLength" "length (classificationText c) \<le> maxStringLength"
  "length (taskRiskText k) \<le> maxStringLength" "length (redactionText d) \<le> maxStringLength"
  "length (capabilityText p) \<le> maxStringLength" "length (policyCapabilityText y) \<le> maxStringLength"
  "length (authorityText u) \<le> maxStringLength" "length (ruleEffectText e) \<le> maxStringLength"
  "length (approverClassText o') \<le> maxStringLength" "length (approvalUsageText g) \<le> maxStringLength"
  "length (approvalResultText r) \<le> maxStringLength" "length (requesterKindText q) \<le> maxStringLength"
  "length (requiredLocalityText l) \<le> maxStringLength" "length (requestedLocalityText m) \<le> maxStringLength"
  unfolding maxStringLength_def
  by ((cases a; simp), (cases c; simp), (cases k; simp), (cases d; simp), (cases p; simp), (cases y; simp), (cases u; simp), (cases e; simp), (cases o'; simp), (cases g; simp), (cases r; simp), (cases q; simp), (cases l; simp), (cases m; simp))

lemma SAFE_ID_short: "SAFE_ID s \<Longrightarrow> length s \<le> maxStringLength"
  by (cases s) (auto simp: SAFE_ID_def maxStringLength_def)

lemma short_simps: "timestampText s \<Longrightarrow> length s \<le> maxStringLength" "HEX_64 s \<Longrightarrow> length s \<le> maxStringLength"
    "ID_PATTERN s \<Longrightarrow> length s \<le> maxStringLength" "n \<le> 128 \<Longrightarrow> n \<le> maxStringLength"
  using ID_PATTERN_length [of s] by (auto simp: timestampText_def HEX_64_def maxStringLength_def)

section \<open>What a request holds\<close>

definition idsOk :: "string option list \<Rightarrow> bool" where
  "idsOk xs \<longleftrightarrow> list_all (pred_option SAFE_ID) xs"

definition evidenceOk :: "approval_evidence \<Rightarrow> bool" where
  "evidenceOk e \<longleftrightarrow> idsOk (scopeValues (av_scope e)) \<and> SAFE_ID (av_approvalRequestId e) \<and> SAFE_ID (av_evidenceRef e) \<and>
     HEX_64 (av_subjectDigest e) \<and> timestampText (av_decidedAt e) \<and> timestampText (av_expiresAt e) \<and>
     pred_option timestampText (av_revokedAt e) \<and> pred_option timestampText (av_consumedAt e)"

definition providerOk :: "provider_descriptor \<Rightarrow> bool" where
  "providerOk p \<longleftrightarrow> SAFE_ID (pd_providerId p) \<and> SAFE_ID (pd_instanceId p) \<and> length (pd_displayName p) \<le> 120 \<and>
     distinct (pd_supportedClassifications p)"

lemma nullable_ids: "nullableId v = Inr x \<Longrightarrow> pred_option SAFE_ID x"
  unfolding nullableId_def by (erule ensureNullable_pred) simp

lemma parseApprovalScope_ok: "parseApprovalScope v = Inr s \<Longrightarrow> idsOk (scopeValues s)"
  unfolding parseApprovalScope_def bindE_Inr_iff Let_def
  by (elim exE conjE) (auto simp: idsOk_def scopeValues_def dest!: nullable_ids split: if_splits)

lemma parseApprovalEvidence_ok: "parseApprovalEvidence v = Inr e \<Longrightarrow> evidenceOk e"
  unfolding parseApprovalEvidence_def bindE_Inr_iff ensureString_Inr ensureTimestamp_Inr
  by (elim exE conjE, simp only: sum.inject, hypsubst)
    (auto simp: evidenceOk_def dest: parseApprovalScope_ok ensureNullable_pred [where P = timestampText])

lemma parseProviderDescriptor_ok: "parseProviderDescriptor v = Inr p \<Longrightarrow> providerOk p"
  unfolding parseProviderDescriptor_def bindE_Inr_iff ensureString_Inr
  by (elim exE conjE, simp only: sum.inject, hypsubst) (auto simp: providerOk_def canonicalMembers_def dest: ensureEnumArray_Inr)

lemma parseTrace_ok: "parseExecutionTraceMetadata v = Inr t \<Longrightarrow> SAFE_ID (xt_traceId t)"
  unfolding parseExecutionTraceMetadata_def bindE_Inr_iff parseTraceId_def ensureString_Inr
  by (elim exE conjE, simp only: sum.inject, hypsubst) simp

definition ruleOk :: "policy_rule \<Rightarrow> bool" where
  "ruleOk p \<longleftrightarrow> SAFE_KIND (pl_id p) \<and> distinct (pl_actions p) \<and> distinct (pl_classifications p) \<and> distinct (pl_risks p) \<and>
     distinct (pl_requiredTransformations p) \<and> distinct (pl_forbiddenCapabilities p) \<and>
     pred_option (\<lambda>a. 1 \<le> at_ttlMs a \<and> at_ttlMs a \<le> 86400000) (pl_approval p)"

lemma parseApprovalTemplate_ok: "parseApprovalTemplate v = Inr a \<Longrightarrow> 1 \<le> at_ttlMs a \<and> at_ttlMs a \<le> 86400000"
  unfolding parseApprovalTemplate_def bindE_Inr_iff
  by (elim exE conjE, simp only: sum.inject, hypsubst) (auto dest: ensureSafeInteger_range)

lemma parsePolicyRule_ok: "parsePolicyRule v = Inr p \<Longrightarrow> ruleOk p"
  unfolding parsePolicyRule_def bindE_Inr_iff ensureString_Inr
  by (elim exE conjE, simp only: sum.inject, hypsubst)
    (auto simp: ruleOk_def canonicalMembers_def dest!: ensureEnumArray_Inr
      dest: ensureNullable_pred [where P = "\<lambda>a. 1 \<le> at_ttlMs a \<and> at_ttlMs a \<le> 86400000", OF _ parseApprovalTemplate_ok])

text \<open>Everything of a parsed request that is digested.\<close>

definition requestBounded :: "policy_request \<Rightarrow> bool" where
  "requestBounded q \<longleftrightarrow> requestOk q \<and> pred_option providerOk (qr_provider q) \<and> list_all evidenceOk (qr_approvalEvidence q) \<and>
     length (qr_approvalEvidence q) \<le> 32 \<and> idsOk (scopeValues (qr_scope q)) \<and> pred_option HEX_64 (qr_subjectDigest q) \<and>
     SAFE_ID (xt_traceId (qr_trace q)) \<and> distinct (qr_requestedCapabilities q) \<and> distinct (qr_transformationsApplied q)"

lemma parsePolicyRequest_bounded:
  assumes "parsePolicyRequest collate v = Inr q"
  shows "requestBounded q"
  using assms
proof (rule parsePolicyRequest_Inr)
  fix r
  assume provider: "ensureNullable (fld r ''provider'') parseProviderDescriptor = Inr (qr_provider q)"
    and evidence: "parseEvidenceList collate (fld r ''approvalEvidence'') = Inr (qr_approvalEvidence q)"
    and scope: "parseApprovalScope (fld r ''scope'') = Inr (qr_scope q)"
    and subject: "ensureNullable (fld r ''subjectDigest'') (\<lambda>raw. ensureString raw 1 64 HEX_64) = Inr (qr_subjectDigest q)"
    and trace: "parseExecutionTraceMetadata (fld r ''trace'') = Inr (qr_trace q)"
    and caps: "ensureEnumArray (fld r ''requestedCapabilities'') policyCapabilityText POLICY_CAPABILITIES (length POLICY_CAPABILITIES) =
       Inr (qr_requestedCapabilities q)"
    and redactions: "ensureEnumArray (fld r ''transformationsApplied'') redactionText REDACTION_KINDS (length REDACTION_KINDS) =
       Inr (qr_transformationsApplied q)"
  obtain entries items where entries: "ensureArray (fld r ''approvalEvidence'') 32 = Inr entries" "mapE parseApprovalEvidence entries = Inr items"
    "qr_approvalEvidence q = sortBy (evidenceAhead collate) items"
    using evidence by (auto simp: parseEvidenceList_def bindE_Inr_iff)
  have "list_all evidenceOk (qr_approvalEvidence q)"
    using mapE_set [OF entries(2)] parseApprovalEvidence_ok by (fastforce simp: entries(3) list_all_iff)
  moreover have "length (qr_approvalEvidence q) \<le> 32"
    using ensureArray_length [OF entries(1)] mapE_length [OF entries(2)] entries(3) by (metis size_mset sortBy_mset)
  moreover have "pred_option providerOk (qr_provider q)" using provider parseProviderDescriptor_ok by (rule ensureNullable_pred)
  moreover have "pred_option HEX_64 (qr_subjectDigest q)" using subject by (rule ensureNullable_pred) simp
  ultimately show "requestBounded q"
    using parsePolicyRequest_ok [OF assms] parseApprovalScope_ok [OF scope] parseTrace_ok [OF trace]
      ensureEnumArray_Inr [OF caps] ensureEnumArray_Inr [OF redactions]
    by (simp add: requestBounded_def canonicalMembers_def)
qed

section \<open>What is digested\<close>

lemma fits_fields:
  assumes "list_all2 (\<lambda>(k, v) n. k \<notin> set DANGEROUS_OBJECT_KEYS \<and> fits r n v) fs ns" and "1 + sum_list ns \<le> m"
  shows "fits (Suc r) m (plainObj fs)"
  using fits_mono [OF fits_object [OF assms(1)] assms(2)] .

lemma fits_text: "SAFE_ID s \<Longrightarrow> fits r (Suc 0) (JStr s)" "timestampText s \<Longrightarrow> fits r (Suc 0) (JStr s)" "HEX_64 s \<Longrightarrow> fits r (Suc 0) (JStr s)"
  "SAFE_KIND s \<Longrightarrow> fits r (Suc 0) (JStr s)"
  using SAFE_ID_short short_simps SAFE_KIND_SAFE_ID by auto

lemma fits_optional:
  "pred_option SAFE_ID x \<Longrightarrow> fits r (Suc 0) (jsNullable JStr x)" "pred_option timestampText x \<Longrightarrow> fits r (Suc 0) (jsNullable JStr x)"
  "pred_option HEX_64 x \<Longrightarrow> fits r (Suc 0) (jsNullable JStr x)" "fits r (Suc 0) (jsNullable jsInt y)"
  by (cases x; simp add: fits_text fits_leaf)+ (cases y; simp add: fits_leaf)

lemma fits_simps [simp]:
  "fits r (Suc 0) (JBool b)" "fits r (Suc 0) (jsInt i)" "fits r (Suc 0) (JStr (policyActionText a))" "fits r (Suc 0) (JStr (classificationText c))"
  "fits r (Suc 0) (JStr (taskRiskText k))" "fits r (Suc 0) (JStr (approvalUsageText g))" "fits r (Suc 0) (JStr (approverClassText h))"
  "fits r (Suc 0) (JStr (approvalResultText d))" "fits r (Suc 0) (JStr (authorityText u))" "fits r (Suc 0) (JStr (ruleEffectText e))"
  "fits r (Suc 0) (JStr (requiredLocalityText l))" "fits r (Suc 0) (JStr (requestedLocalityText m))" "fits r (Suc 0) (JStr (requesterKindText q))"
  by (rule fits_leaf; simp)+

lemma scope_fits: "idsOk (scopeValues s) \<Longrightarrow> fits (Suc r) 7 (approvalScopeVal s)"
  unfolding approvalScopeVal_def
  by (rule fits_fields [where ns = "replicate 6 1"]) (simp_all add: idsOk_def scopeValues_def numeral_eq_Suc fits_optional DANGEROUS_OBJECT_KEYS_def)

lemma evidence_fits: "evidenceOk e \<Longrightarrow> fits (Suc (Suc r)) 20 (digestedEvidenceVal e)"
  unfolding digestedEvidenceVal_def
  by (rule fits_fields [where ns = "[1, 1, 1, 7, 1, 1, 1, 1, 1, 1, 1, 1, 1]"])
    (simp_all add: evidenceOk_def scope_fits fits_optional fits_text DANGEROUS_OBJECT_KEYS_def)

lemma template_fits: "fits (Suc r) 4 (templateVal a)"
  unfolding templateVal_def by (rule fits_fields [where ns = "[1, 1, 1]"]) (simp_all add: DANGEROUS_OBJECT_KEYS_def)

lemma members_listed [simp]: "a \<in> set POLICY_ACTIONS" "k \<in> set TASK_RISKS" "p \<in> set POLICY_CAPABILITIES"
  unfolding POLICY_ACTIONS_def TASK_RISKS_def POLICY_CAPABILITIES_def by ((cases a; simp), (cases k; simp), (cases p; simp))

lemma members_complete [simp]:
  "set POLICY_ACTIONS = UNIV" "set TASK_RISKS = UNIV" "set POLICY_CAPABILITIES = UNIV" "set DATA_CLASSIFICATIONS = UNIV"
  by (rule set_eqI, simp)+

lemma member_counts:
  "length POLICY_ACTIONS = 19" "length DATA_CLASSIFICATIONS = 5" "length TASK_RISKS = 4" "length REDACTION_KINDS = 3"
  "length POLICY_CAPABILITIES = 10" "length PROVIDER_DATA_CAPABILITIES = 4"
  by (simp_all add: POLICY_ACTIONS_def DATA_CLASSIFICATIONS_def TASK_RISKS_def REDACTION_KINDS_def POLICY_CAPABILITIES_def
      PROVIDER_DATA_CAPABILITIES_def)

lemma texts_fit:
  "distinct as \<Longrightarrow> fits (Suc r) 20 (textsVal policyActionText as)" "distinct cs \<Longrightarrow> fits (Suc r) 6 (textsVal classificationText cs)"
  "distinct ks \<Longrightarrow> fits (Suc r) 5 (textsVal taskRiskText ks)" "distinct ds \<Longrightarrow> fits (Suc r) 4 (textsVal redactionText ds)"
  "distinct ps \<Longrightarrow> fits (Suc r) 11 (textsVal policyCapabilityText ps)" "distinct xs \<Longrightarrow> fits (Suc r) 5 (textsVal capabilityText xs)"
  using fits_texts [of policyActionText as POLICY_ACTIONS r] fits_texts [of classificationText cs DATA_CLASSIFICATIONS r]
    fits_texts [of taskRiskText ks TASK_RISKS r] fits_texts [of redactionText ds REDACTION_KINDS r]
    fits_texts [of policyCapabilityText ps POLICY_CAPABILITIES r] fits_texts [of capabilityText xs PROVIDER_DATA_CAPABILITIES r]
  by (simp_all add: member_counts maxNodes_def)

lemma rule_fits: "ruleOk p \<Longrightarrow> fits (Suc (Suc r)) 61 (ruleVal p)"
  unfolding ruleVal_def
  by (rule fits_fields [where ns = "[1, 1, 1, 1, 20, 6, 5, 4, 4, 1, 1, 1, 1, 1, 1, 11]"])
    (auto simp: ruleOk_def texts_fit fits_text fits_optional DANGEROUS_OBJECT_KEYS_def intro: template_fits)

lemma policy_fits: "policyOk p \<Longrightarrow> fits (Suc (Suc r)) 17 (policyVal p)"
  using texts_fit(4) [of "dp_redactionsRequired p"] texts_fit(6) [of "dp_disallowedCapabilities p"]
  unfolding policyVal_def
  by (intro fits_fields [where ns = "[1, 1, 1, 1, 4, 1, 1, 1, 5]"])
    (simp_all add: policyOk_def canonicalMembers_def redactionsVal_def capabilitiesVal_def textsVal_def DANGEROUS_OBJECT_KEYS_def)

lemma provider_texts: "length (providerKindText a) \<le> maxStringLength" "length (localityText l) \<le> maxStringLength"
    "length (cancellationText c) \<le> maxStringLength"
  unfolding maxStringLength_def by ((cases a; simp), (cases l; simp), (cases c; simp))

lemma provider_fits: "providerOk p \<Longrightarrow> fits (Suc (Suc r)) 28 (jsonVal (providerDescriptorJson p))"
  unfolding fits_def
proof (intro exI [of _ "providerDescriptorJson p"] conjI refl)
  assume ok: "providerOk p"
  have classes: "length (pd_supportedClassifications p) \<le> 5"
    using ok distinct_members_length [of "pd_supportedClassifications p" DATA_CLASSIFICATIONS] by (simp add: providerOk_def member_counts)
  show "jsonFine (Suc (Suc r)) (providerDescriptorJson p)"
    using ok classes SAFE_ID_short [of "pd_providerId p"] SAFE_ID_short [of "pd_instanceId p"]
    by (simp add: providerDescriptorJson_def providerCapabilitiesJson_def jsonInt_def providerOk_def provider_texts short_simps(4)
        maxNodes_def DANGEROUS_OBJECT_KEYS_def list_all_iff)
  have "sum_list (map (jsonNodes \<circ> (\<lambda>c. JsonStr (classificationText c))) (pd_supportedClassifications p)) = length (pd_supportedClassifications p)"
    by (induction "pd_supportedClassifications p" rule: rev_induct) (simp_all add: sum_list_triv comp_def)
  then show "jsonNodes (providerDescriptorJson p) \<le> 28"
    using classes by (simp add: providerDescriptorJson_def providerCapabilitiesJson_def jsonInt_def)
qed

lemma model_texts:
  assumes "parseModelCapabilities v = Inr m"
  shows "ID_PATTERN (md_providerId m)" "ID_PATTERN (md_modelId m)" "pred_option (\<lambda>c. length (mc_currency c) = 3) (md_cost m)"
proof -
  have currency: "length (mc_currency c) = 3" if "parseModelCostMetadata w = Inr c" for w c
    using that by (auto simp: parseModelCostMetadata_def bindE_Inr_iff parseCurrencyCode_def)
  show "ID_PATTERN (md_providerId m)" "ID_PATTERN (md_modelId m)"
    using assms by (auto simp: parseModelCapabilities_def bindE_Inr_iff)
  show "pred_option (\<lambda>c. length (mc_currency c) = 3) (md_cost m)"
    using assms by (auto simp: parseModelCapabilities_def bindE_Inr_iff dest!: ensureNullable_pred [OF _ currency])
qed

lemma model_fits:
  assumes "parseModelCapabilities v = Inr m"
  shows "fits (Suc (Suc r)) 18 (modelVal m)"
  unfolding fits_def modelVal_def
proof (intro exI [of _ "modelCapabilitiesJson m"] conjI refl)
  note texts = model_texts [OF assms]
  have names: "length (modelLocalityText l) \<le> maxStringLength" "length (latencyText t) \<le> maxStringLength" for l t
    unfolding maxStringLength_def by ((cases l; simp), (cases t; simp))
  show "jsonFine (Suc (Suc r)) (modelCapabilitiesJson m)"
    using texts short_simps(3) [OF texts(1)] short_simps(3) [OF texts(2)] names
    by (cases "md_cost m") (auto simp: modelCapabilitiesJson_def modelCostJson_def jsonInt_def jsonOptInt_def short_simps(4)
        DANGEROUS_OBJECT_KEYS_def split: option.splits)
  show "jsonNodes (modelCapabilitiesJson m) \<le> 18"
    by (cases "md_cost m") (auto simp: modelCapabilitiesJson_def modelCostJson_def jsonInt_def jsonOptInt_def split: option.splits)
qed

text \<open>The most rules a broker may have for its digests to exist in every case.\<close>

definition brokerOk :: "policy_broker \<Rightarrow> bool" where
  "brokerOk broker \<longleftrightarrow> SAFE_ID (br_policyVersion broker) \<and> list_all ruleOk (br_rules broker) \<and> length (br_rules broker) \<le> 1500"

lemma created_broker_ok:
  assumes "createDeterministicPolicyBroker collate version rules = Inr broker" and "length rules \<le> 1500"
  shows "brokerOk broker"
proof -
  obtain parsed where parsed: "mapE parsePolicyRule rules = Inr parsed" and b: "br_rules broker = sortBy (ruleAhead collate) parsed"
    and v: "SAFE_ID (br_policyVersion broker)"
    using assms(1) by (auto simp: createDeterministicPolicyBroker_def bindE_Inr_iff Let_def split: if_splits)
  have "list_all ruleOk (br_rules broker)"
    using mapE_set [OF parsed] parsePolicyRule_ok by (fastforce simp: b list_all_iff)
  moreover have "length (br_rules broker) \<le> 1500" using assms(2) mapE_length [OF parsed] b by (metis size_mset sortBy_mset)
  ultimately show ?thesis using v by (simp add: brokerOk_def)
qed

lemma fingerprint_exists:
  assumes broker: "brokerOk broker" and q: "requestBounded q" and now: "validTime now"
  shows "isOk (digest cd (fingerprintInput (br_policyVersion broker) (toISOString now) q (filter (ruleMatches q) (br_rules broker))))"
proof (rule fits_digest)
  let ?matched = "filter (ruleMatches q) (br_rules broker)"
  have stamp: "timestampText (toISOString now)"
    using now length_toISOString [of now] by (simp add: timestampText_def canonical_toISOString)
  have "fits (Suc (Suc (Suc r))) (1 + 1500 * 61) (plainArr (map ruleVal ?matched))" for r
    using broker rule_fits le_trans [OF length_filter_le [of "ruleMatches q" "br_rules broker"]]
    by (intro fits_array) (auto simp: brokerOk_def list_all_iff maxNodes_def)
  then have rules: "fits (Suc (Suc (Suc r))) 91501 (plainArr (map ruleVal ?matched))" for r by simp
  have "fits (Suc (Suc (Suc r))) (1 + 32 * 20) (plainArr (map digestedEvidenceVal (qr_approvalEvidence q)))" for r
    using q evidence_fits by (intro fits_array) (auto simp: requestBounded_def list_all_iff maxNodes_def)
  then have evidence: "fits (Suc (Suc (Suc r))) 641 (plainArr (map digestedEvidenceVal (qr_approvalEvidence q)))" for r by simp
  have provider: "fits (Suc (Suc r)) 28 (jsNullable (\<lambda>p. jsonVal (providerDescriptorJson p)) (qr_provider q))" for r
    using q provider_fits by (intro fits_nullable) (auto simp: requestBounded_def)
  have model: "fits (Suc (Suc r)) 18 (jsNullable modelVal (qr_model q))" for r
    using q model_fits by (intro fits_nullable) (auto simp: requestBounded_def requestOk_def)
  have "fits (Suc (Suc (Suc (Suc r)))) 93000 (fingerprintInput (br_policyVersion broker) (toISOString now) q ?matched)" for r
    unfolding fingerprintInput_def
    using broker q rules [of r] evidence [of r] provider [of "Suc r"] model [of "Suc r"] stamp
    by (intro fits_fields [where ns = "[1, 1, 1, 1, 17, 1, 1, 28, 18, 7, 1, 11, 4, 641, 1, 1, 91501]"])
      (simp_all add: brokerOk_def requestBounded_def requestOk_def policy_fits scope_fits texts_fit fits_text fits_optional DANGEROUS_OBJECT_KEYS_def)
  from this [of 60] show "fits maxDepth 93000 (fingerprintInput (br_policyVersion broker) (toISOString now) q ?matched)"
    by (simp add: maxDepth_def)
qed (simp add: maxNodes_def)

section \<open>No step fails\<close>

lemma foldE_total:
  assumes "\<And>x s. x \<in> set xs \<Longrightarrow> \<exists>s'. f x s = Inr s'"
  shows "\<exists>s'. foldE f xs s = Inr s'"
  using assms
proof (induction xs arbitrary: s)
  case (Cons x xs)
  obtain t where "f x s = Inr t" using Cons.prems by fastforce
  then show ?case using Cons.IH [of t] Cons.prems by simp
qed simp

lemma approvalId_exists:
  assumes "SAFE_ID version" and "ruleOk r" and q: "requestBounded q" and "HEX_64 subject"
  shows "\<exists>i. approvalIdFor cd idSource version r q subject = Inr i"
proof -
  have fits: "fits (Suc (Suc k)) 14 (plainObj
      [(''policyVersion'', JStr version), (''ruleId'', JStr (pl_id r)), (''action'', JStr (policyActionText (qr_action q))),
       (''risk'', JStr (taskRiskText (qr_risk q))), (''scope'', approvalScopeVal (qr_scope q)), (''subjectDigest'', JStr subject),
       (''traceId'', JStr (xt_traceId (qr_trace q)))])" for k
    using assms scope_fits [of "qr_scope q"]
    by (intro fits_fields [where ns = "[1, 1, 1, 1, 7, 1, 1]"])
      (simp_all add: requestBounded_def ruleOk_def fits_text DANGEROUS_OBJECT_KEYS_def)
  have "fits maxDepth 14 (plainObj
      [(''policyVersion'', JStr version), (''ruleId'', JStr (pl_id r)), (''action'', JStr (policyActionText (qr_action q))),
       (''risk'', JStr (taskRiskText (qr_risk q))), (''scope'', approvalScopeVal (qr_scope q)), (''subjectDigest'', JStr subject),
       (''traceId'', JStr (xt_traceId (qr_trace q)))])"
    using fits [of 62] by (simp add: maxDepth_def)
  from fits_digest [OF this, of cd] show ?thesis
    by (cases "idSource (pl_id r) q") (auto simp: approvalIdFor_def isOk_iff maxNodes_def)
qed

lemma applyRule_total:
  assumes "SAFE_ID version" and rule: "ruleOk r" and q: "requestBounded q" and now: "validTime now" "validTime (now + 86400000)"
  shows "\<exists>s'. applyRule cd idSource version q now r s = Inr s'"
proof (cases "pl_approval r")
  case (Some template)
  then have "1 \<le> at_ttlMs template" "at_ttlMs template \<le> 86400000" using rule by (simp_all add: ruleOk_def)
  then have valid: "validTime (now + at_ttlMs template)" using now by (auto simp: validTime_def)
  show ?thesis
  proof (cases "qr_subjectDigest q")
    case (Some subject)
    then have "HEX_64 subject" using q by (simp add: requestBounded_def)
    then obtain i where "approvalIdFor cd idSource version r q subject = Inr i"
      using approvalId_exists [OF assms(1) rule q] by blast
    then show ?thesis using Some \<open>pl_approval r = Some template\<close> valid by (simp add: applyRule_def Let_def expiryOf_def)
  qed (simp add: Some applyRule_def Let_def)
qed (simp add: applyRule_def Let_def)

lemma disclosureCheck_total: "requestOk q \<Longrightarrow> validTime now \<Longrightarrow> \<exists>s'. disclosureCheck q (toISOString now) s = Inr s'"
  by (cases "qr_provider q") (simp_all add: disclosureCheck_def requestOk_def evaluateDisclosure_again Let_def)

lemma modelCheck_total: "requestOk q \<Longrightarrow> \<exists>s'. modelCheck q s = Inr s'"
  by (cases "qr_model q") (auto simp: modelCheck_def requestOk_def findUnmet_again)

theorem judge_total:
  assumes broker: "brokerOk broker" and q: "requestBounded q" and now: "validTime now" "validTime (now + 86400000)"
  shows "\<exists>s. judge cd collate idSource broker q now = Inr s"
proof -
  have ok: "requestOk q" using q by (simp add: requestBounded_def)
  let ?step = "applyRule cd idSource (br_policyVersion broker) q now" and ?matched = "filter (ruleMatches q) (br_rules broker)"
  have step: "\<exists>s'. ?step r s = Inr s'" if "r \<in> set ?matched" for r s
    using that broker applyRule_total [OF _ _ q now] by (auto simp: brokerOk_def list_all_iff)
  obtain s1 where s1: "foldE ?step ?matched (initialLocals q) = Inr s1"
    using foldE_total [of ?matched ?step, OF step] by blast
  obtain s3 where s3: "disclosureCheck q (toISOString now) (denyIf (\<not> lo_allowedByRule s1) ''DEFAULT_DENY'' s1) = Inr s3"
    using disclosureCheck_total [OF ok now(1)] by blast
  obtain s5 where "modelCheck q (executionCheck q (classificationCheck q s3)) = Inr s5"
    using modelCheck_total [OF ok] by blast
  then show ?thesis using s1 s3 by (simp add: judge_def Let_def)
qed

end
