(* ===== verification/Policy_Claims.thy ===== *)
theory Policy_Claims
  imports Policy_Total Router_Claims
begin

text \<open>
  The properties of the policy broker, each with a witness. The sample broker has a rule of the organization that asks for
  an approval and for redacted secrets, and a rule of the project that allows; its codec digests every text to 64 zeros.
\<close>

section \<open>A sample broker and a sample request\<close>

definition zeros64 :: string where "zeros64 = replicate 64 CHR ''0''"

definition plainRule :: "string \<Rightarrow> policy_authority \<Rightarrow> rule_effect \<Rightarrow> policy_action list \<Rightarrow> policy_rule" where
  "plainRule i authority effect actions = \<lparr>pl_id = i, pl_authority = authority, pl_effect = effect, pl_actions = actions,
     pl_classifications = [], pl_risks = [], pl_requiredTransformations = [], pl_approval = None, pl_requiredLocality = AnyLocality,
     pl_forbidInputLogging = False, pl_forbidOutputLogging = False, pl_forbidArtifactPersistence = False,
     pl_forbidRetention = False, pl_maxRetentionDays = None, pl_forbiddenCapabilities = []\<rparr>"

definition approvalRule :: policy_rule where
  "approvalRule = (plainRule ''ask'' OrganizationAuthority ConditionalEffect [WorkspaceWrite])
     \<lparr>pl_requiredTransformations := [Secrets], pl_maxRetentionDays := Some 30,
      pl_approval := Some \<lparr>at_approverClass = UserApprover, at_usage = OneShot, at_ttlMs = 60000\<rparr>\<rparr>"

definition allowRule :: policy_rule where
  "allowRule = (plainRule ''allow'' ProjectAuthority AllowEffect [ProviderDisclosure, WorkspaceWrite])\<lparr>pl_forbidInputLogging := True\<rparr>"

definition sampleBroker :: "policy_rule list \<Rightarrow> policy_broker" where
  "sampleBroker rules = \<lparr>br_policyVersion = ''v1'', br_rules = rules\<rparr>"

definition policyScope :: approval_scope where
  "policyScope = \<lparr>as_projectId = None, as_taskId = None, as_providerInstanceId = None, as_workspaceId = None,
     as_operationId = Some ''op1'', as_traceId = Some ''t1''\<rparr>"

definition sampleEvidenceVal :: "string \<Rightarrow> jsval" where
  "sampleEvidenceVal ref = plainObj
     [(''approvalRequestId'', JStr (''approval-'' @ replicate 24 CHR ''0'')), (''action'', JStr ''workspace-write''), (''risk'', JStr ''low''),
      (''scope'', approvalScopeVal policyScope), (''subjectDigest'', JStr zeros64), (''usage'', JStr ''one-shot''),
      (''approverClass'', JStr ''user''), (''approverIdentityRef'', JStr ''ann''), (''result'', JStr ''approved''),
      (''decidedAt'', JStr (toISOString 0)), (''expiresAt'', JStr (toISOString 60000)), (''revokedAt'', JNull), (''consumedAt'', JNull),
      (''evidenceRef'', JStr ref)]"

definition sampleRequestVal :: "policy_action \<Rightarrow> data_policy \<Rightarrow> jsval \<Rightarrow> jsval list \<Rightarrow> jsval" where
  "sampleRequestVal action policy provider evidence = plainObj
     [(''schemaVersion'', jsInt 1), (''action'', JStr (policyActionText action)),
      (''classification'', JStr (classificationText (dp_classification policy))), (''handlingPolicy'', policyVal policy), (''risk'', JStr ''low''),
      (''locality'', JStr ''cloud''), (''provider'', provider), (''model'', JNull), (''scope'', approvalScopeVal policyScope),
      (''subjectDigest'', JStr zeros64), (''requestedCapabilities'', plainArr []),
      (''transformationsApplied'', plainArr [JStr ''personal-data'', JStr ''secrets'']), (''approvalEvidence'', plainArr evidence),
      (''retentionDays'', JNull),
      (''trace'', plainObj [(''traceId'', JStr ''t1''), (''runId'', JNull), (''taskId'', JNull), (''taskRunId'', JNull)]),
      (''requesterKind'', JStr ''user'')]"

definition writeVal :: jsval where
  "writeVal = sampleRequestVal WorkspaceWrite (defaultPolicyInput Public) JNull [sampleEvidenceVal ''e1'']"

definition noObserver :: "policy_audit \<Rightarrow> bool" where "noObserver _ = False"

definition theInr :: "'e + 'a \<Rightarrow> 'a" where
  "theInr m = (case m of Inr a \<Rightarrow> a | Inl _ \<Rightarrow> undefined)"

lemma theInr_ok: "isOk m \<Longrightarrow> m = Inr (theInr m)"
  by (cases m) (simp_all add: theInr_def)

definition writeRequest :: policy_request where "writeRequest = theInr (parsePolicyRequest compareText writeVal)"

definition writeDecision :: "policy_rule list \<Rightarrow> broker_decision" where
  "writeDecision rules = theInr (evaluate_policy zeroCodec compareText derivedIds noObserver (sampleBroker rules) writeVal (ClockDate 1000))"

lemma write_parses: "parsePolicyRequest compareText writeVal = Inr writeRequest"
  unfolding writeRequest_def by (rule theInr_ok) code_simp

lemma write_decided:
  "evaluate_policy zeroCodec compareText derivedIds noObserver (sampleBroker [allowRule]) writeVal (ClockDate 1000) = Inr (writeDecision [allowRule])"
  "evaluate_policy zeroCodec compareText derivedIds noObserver (sampleBroker [approvalRule, allowRule]) writeVal (ClockDate 1000) =
     Inr (writeDecision [approvalRule, allowRule])"
  unfolding writeDecision_def by (rule theInr_ok, code_simp)+

lemma write_allowed:
  "dn_outcome (writeDecision [approvalRule, allowRule]) = PolicyAllowed"
  "dn_approvalsToConsume (writeDecision [approvalRule, allowRule]) = [''approval-'' @ replicate 24 CHR ''0'']"
  by code_simp+

lemma evaluate_parsed:
  assumes "parsePolicyRequest collate raw = Inr q"
    and "evaluate_policy cd collate idSource observerThrows broker raw (ClockDate now) = Inr d"
  obtains s where "evaluated cd collate idSource broker q now s d" "requestOk q"
  using assms parsePolicyRequest_ok [OF assms(1)] by (auto simp: evaluate_policy_def elim: evaluateRequest_Inr)

section \<open>Decisions\<close>

text \<open>C19: A decision is exact. The broker denies when a matched rule denies, none allows, an approval has no subject, the
  target or a restriction rules the action out, or live evidence denies an approval; otherwise it asks for the conditions that
  are open (transformations, approvals, a local target); otherwise it allows. The verdict depends on the matched rules only as a
  set, and the transformations it still asks for are exactly those demanded and not applied.\<close>
theorem policy_decisions_are_exact:
  assumes parsed: "parsePolicyRequest collate raw = Inr q"
    and decided: "evaluate_policy cd collate idSource observerThrows broker raw (ClockDate now) = Inr d"
  shows "dn_outcome d = policyVerdict cd idSource (br_policyVersion broker) (matchedBy broker q) q (toISOString now) \<and>
    set (dn_requiredTransformations d) = demandedTransformations (matchedBy broker q) q - set (qr_transformationsApplied q)"
  using parsed decided by (rule evaluate_parsed) (simp add: evaluated_verdict evaluated_restrictions(1))

theorem policy_decisions_are_exact_witness:
  "policyVerdict zeroCodec derivedIds ''v1'' {approvalRule, allowRule} writeRequest (toISOString 1000) = PolicyAllowed"
proof -
  have "br_policyVersion (sampleBroker [approvalRule, allowRule]) = ''v1''"
    "matchedBy (sampleBroker [approvalRule, allowRule]) writeRequest = {approvalRule, allowRule}" by code_simp+
  then show ?thesis
    using policy_decisions_are_exact [OF write_parses write_decided(2)] write_allowed(1) by simp
qed

text \<open>C20: Restrictions only accumulate. Once a matched rule allows the action, more rules of any authority and effect can
  neither make the outcome milder nor lift a restriction on locality, logging, retention or capabilities.\<close>
theorem more_rules_never_weaken:
  assumes parsed: "parsePolicyRequest collate raw = Inr q"
    and decided: "evaluate_policy cd collate idSource observerThrows broker raw (ClockDate now) = Inr d"
    and decided': "evaluate_policy cd collate idSource observerThrows broker' raw (ClockDate now) = Inr d'"
    and "br_policyVersion broker' = br_policyVersion broker" and more: "set (br_rules broker) \<subseteq> set (br_rules broker')"
    and allowing: "\<exists>r \<in> matchedBy broker q. pl_effect r \<noteq> DenyEffect"
  shows "outcomeRank (dn_outcome d) \<le> outcomeRank (dn_outcome d') \<and>
    (dn_requiredLocality d = RequiresLocal) \<le> (dn_requiredLocality d' = RequiresLocal) \<and>
    dn_inputAllowed d' \<le> dn_inputAllowed d \<and> dn_outputAllowed d' \<le> dn_outputAllowed d \<and>
    dn_retentionAllowed d' \<le> dn_retentionAllowed d \<and> exceedsDays n (dn_maxDays d) \<le> exceedsDays n (dn_maxDays d') \<and>
    set (dn_requiredTransformations d) \<subseteq> set (dn_requiredTransformations d') \<and>
    set (dn_capabilityConstraints d) \<subseteq> set (dn_capabilityConstraints d')"
proof -
  obtain s s' where e: "evaluated cd collate idSource broker q now s d" "evaluated cd collate idSource broker' q now s' d'" and ok: "requestOk q"
    using evaluate_parsed [OF parsed decided] evaluate_parsed [OF parsed decided'] by metis
  have sub: "matchedBy broker q \<subseteq> matchedBy broker' q" using more by (auto simp: matchedBy_def)
  have "outcomeRank (dn_outcome d) \<le> outcomeRank (dn_outcome d')"
    unfolding evaluated_verdict [OF e(1) ok] evaluated_verdict [OF e(2) ok] assms(4) by (rule policyVerdict_mono [OF sub allowing])
  moreover have "set (dn_requiredTransformations d) \<subseteq> set (dn_requiredTransformations d')"
    unfolding evaluated_restrictions(1) [OF e(1) ok] evaluated_restrictions(1) [OF e(2) ok] using refused_mono(4) [OF sub, of q] by blast
  ultimately show ?thesis
    using localDemanded_mono [OF sub, of q] sub
    by (auto simp: le_bool_def evaluated_restrictions(2-7) [OF e(1) ok] evaluated_restrictions(2-7) [OF e(2) ok])
qed

theorem more_rules_never_weaken_witness:
  "outcomeRank (dn_outcome (writeDecision [allowRule])) \<le> outcomeRank (dn_outcome (writeDecision [approvalRule, allowRule]))"
proof -
  have "br_policyVersion (sampleBroker [approvalRule, allowRule]) = br_policyVersion (sampleBroker [allowRule])"
    "set (br_rules (sampleBroker [allowRule])) \<subseteq> set (br_rules (sampleBroker [approvalRule, allowRule]))"
    by (auto simp: sampleBroker_def)
  moreover have "\<exists>r \<in> matchedBy (sampleBroker [allowRule]) writeRequest. pl_effect r \<noteq> DenyEffect" by code_simp
  ultimately show ?thesis using more_rules_never_weaken [OF write_parses write_decided] by blast
qed

section \<open>Approvals\<close>

text \<open>C21: An allowed action is approved. For every matched rule that asks for an approval the request carries evidence of an
  approver of the class the rule names, with the id derived for this rule and request, for this action, risk and subject and a scope that
  covers the request, that is approved, not revoked, not expired and not used up; and the requester is not a model.\<close>
theorem allowed_actions_are_approved:
  assumes parsed: "parsePolicyRequest collate raw = Inr q"
    and decided: "evaluate_policy cd collate idSource observerThrows broker raw (ClockDate now) = Inr d"
    and "dn_outcome d = PolicyAllowed" and "r \<in> matchedBy broker q" and "pl_approval r = Some template"
  shows "qr_requesterKind q \<noteq> ModelRequester \<and> (\<exists>e \<in> set (qr_approvalEvidence q).
    av_result e = ApprovedResult \<and> av_approverClass e = at_approverClass template \<and>
    approvalIdFor cd idSource (br_policyVersion broker) r q (av_subjectDigest e) = Inr (av_approvalRequestId e) \<and>
    av_action e = qr_action q \<and> av_risk e = qr_risk q \<and> qr_subjectDigest q = Some (av_subjectDigest e) \<and>
    scopeCovers (av_scope e) (qr_scope q) \<and> av_revokedAt e = None \<and> strLess (toISOString now) (av_expiresAt e) \<and>
    (av_usage e = Reusable \<or> av_consumedAt e = None))"
proof -
  obtain s where e: "evaluated cd collate idSource broker q now s d" and ok: "requestOk q" using parsed decided by (rule evaluate_parsed)
  have "policyVerdict cd idSource (br_policyVersion broker) (matchedBy broker q) q (toISOString now) = PolicyAllowed"
    using evaluated_verdict [OF e ok] assms(3) by simp
  from allowed_verdict(7) [OF this assms(4)] show ?thesis using assms(5) by (auto simp: grantsFor_def)
qed

theorem allowed_actions_are_approved_witness:
  "qr_requesterKind writeRequest \<noteq> ModelRequester \<and> (\<exists>e \<in> set (qr_approvalEvidence writeRequest).
    av_approverClass e = UserApprover \<and> qr_subjectDigest writeRequest = Some (av_subjectDigest e))"
proof -
  have "approvalRule \<in> matchedBy (sampleBroker [approvalRule, allowRule]) writeRequest"
    "pl_approval approvalRule = Some \<lparr>at_approverClass = UserApprover, at_usage = OneShot, at_ttlMs = 60000\<rparr>" by code_simp+
  from allowed_actions_are_approved [OF write_parses write_decided(2) write_allowed(1) this] show ?thesis by auto
qed




section \<open>Order, totality, disclosure\<close>

text \<open>C24: The order in which rules are given is irrelevant. For every collation that is a total preorder and tells identifiers
  apart, a permutation of the rules makes the same broker, so that all its decisions, ids and fingerprints are the same.\<close>
theorem rule_order_is_irrelevant:
  assumes "collation collate" and "mset rules = mset rules'"
    and "createDeterministicPolicyBroker collate version rules = Inr broker"
  shows "createDeterministicPolicyBroker collate version rules' = Inr broker"
  using assms by (rule collation.permuted_rules)

lemma sample_broker_created:
  "createDeterministicPolicyBroker compareText (JStr ''v1'') [ruleVal allowRule, ruleVal approvalRule] = Inr (sampleBroker [approvalRule, allowRule])"
  by code_simp

theorem rule_order_is_irrelevant_witness:
  "createDeterministicPolicyBroker compareText (JStr ''v1'') [ruleVal approvalRule, ruleVal allowRule] = Inr (sampleBroker [approvalRule, allowRule])"
  using rule_order_is_irrelevant [OF code_units.collation_axioms _ sample_broker_created, of "[ruleVal approvalRule, ruleVal allowRule]"] by simp










end
