(* ===== verification/Spec2Isabelle.thy ===== *)
theory Spec2Isabelle
  imports Task_Graph_Claims Task_Snapshot_Claims Account_Claims Domain_Claims Store_Claims Storage_Claims Router_Claims Router_Route_Claims Policy_Claims
begin

text \<open>
  A verification library for the orchestration engine \<open>ai-development-os\<close> (TypeScript, a monorepo of
  packages under \<open>src/packages\<close>).

  \<^bold>\<open>The program.\<close> A project is planned as a graph of tasks (\<open>packages/task-graph\<close>); each task states its
  requirements, retry and timeout policies (\<open>packages/domain/src/task.ts\<close>), is routed to a model that
  meets them (\<open>capabilities.ts\<close>), is paid for from a budget account that reserves before it spends
  (\<open>budget.ts\<close>, \<open>budget-account.ts\<close>), and may only disclose content as its data classification permits
  (\<open>classification.ts\<close>). All of these validate what they are given with the guards of
  \<open>internal/guards.ts\<close> and exchange canonical JSON (\<open>json.ts\<close>). What tasks produce is described by
  artifact descriptors and manifests (\<open>packages/artifacts\<close>); graphs, events, outbox messages and artifacts
  are stored through the ports of \<open>packages/persistence\<close>, here by the in-memory adapter
  (\<open>packages/persistence-memory\<close>). The router (\<open>packages/router\<close>) takes a task profile, a budget account
  and candidates - a provider instance (\<open>packages/providers\<close>) with its evidence and a token estimate
  (\<open>packages/profiler\<close>) - rejects the candidates that fail a check, plans a reservation for each of the
  others, scores and ranks them; a circuit breaker per provider and model supplies part of the evidence.
  The policy broker (\<open>packages/policy\<close>) decides whether an action of a task - a disclosure, a write, a
  command, the use of a secret - is allowed, denied or allowed under conditions, from the rules of the
  organization, the project and the user, the handling policy, the provider and evidence of approvals;
  its decisions are part of the evidence a candidate carries.
  The other packages are adapters and services around this core.

  \<^bold>\<open>JavaScript.\<close> A value of type \<open>unknown\<close> is a \<open>jsval\<close> (theory \<open>Js_Value\<close>): what reflection shows of it,
  with holes, accessors, symbol keys, foreign prototypes and proxies whose traps throw. Numbers are
  integers, negative zero, fractions, infinities and \<open>NaN\<close>; the text of identifiers and of JSON is a
  list of characters. Typed parameters are records and datatypes. An exception is a value: every
  operation returns \<open>error + result\<close>, and a command of a stateful object returns the object it leaves
  behind as well (\<open>action\<close> in \<open>Prelude\<close>). \<open>Js_Date\<close> models \<open>Date.parse\<close> and \<open>toISOString\<close> on canonical
  timestamps, \<open>-271821\<close> to \<open>275760\<close> included. Exception messages and details are not modelled. Object
  identity is not modelled: values are trees, so the checks against cyclic values have nothing to reject.

  \<^bold>\<open>Theories.\<close>
  \<^item> \<open>Prelude\<close>, \<open>Js_Value\<close>, \<open>Js_Date\<close>: the error and state monads with their inversion rules, traversals
    (\<open>mapE\<close>, \<open>foldE\<close>, \<open>threadE\<close>), JavaScript values, dates.
  \<^item> \<open>Command_Interfaces\<close>: the contracts shared by stateful components as locales: commands that are
    atomic and keep an invariant (\<open>guarded_object\<close>), versions that exclude lost updates
    (\<open>versioned_object\<close>), items that never change once final (\<open>item_lifecycle\<close>). The task graph and the
    budget account are both interpreted in them.
  \<^item> Task graph: \<open>Tg_Validation\<close> (\<open>validation.ts\<close>), \<open>Tg_Types\<close> (\<open>types.ts\<close>, \<open>errors.ts\<close>), \<open>Task_Heap\<close> (the
    binary heap of \<open>TaskPriorityQueue\<close>), \<open>Task_Topology\<close> (\<open>topologicalTaskIds\<close>), \<open>Task_Graph\<close> (the class
    \<open>TaskGraph\<close>: every command and query), \<open>Task_Snapshot\<close> (\<open>toSnapshot\<close>, \<open>hydrate\<close>, \<open>parseSnapshot\<close>).
    \<open>Task_Topology_Correct\<close> relates Kahn's algorithm to ranks; \<open>Task_Graph_Inv\<close> states the invariant of the
    aggregate; \<open>Task_Graph_Run\<close> and \<open>Task_Graph_Lawful\<close> prove what every command does;
    \<open>Task_Graph_Props\<close> interprets the contracts; \<open>Task_Graph_Claims\<close> and \<open>Task_Snapshot_Claims\<close> hold the
    properties.
  \<^item> Domain: \<open>Domain_Guards\<close> (\<open>errors.ts\<close>, \<open>internal/guards.ts\<close>, \<open>ids.ts\<close>), \<open>Budget\<close> (\<open>budget.ts\<close>),
    \<open>Budget_Account\<close> (\<open>budget-account.ts\<close>), \<open>Domain_Policy\<close> (\<open>classification.ts\<close>), \<open>Domain_Task\<close>
    (\<open>task.ts\<close>), \<open>Domain_Models\<close> (\<open>capabilities.ts\<close>), \<open>Domain_Json\<close> (\<open>json.ts\<close>). \<open>Budget_Laws\<close> gives
    each parser its inverse and reduces checked addition to exact sums; \<open>Account_Laws\<close> states the
    invariant of accounts and the abstract ledger they refine; \<open>Account_Props\<close> and \<open>Account_Storage\<close>
    prove invariance, limits over time, idempotence and the stored form; \<open>Account_Claims\<close> and
    \<open>Domain_Claims\<close> hold the properties.
  \<^item> Storage: \<open>Artifacts\<close> (\<open>location.ts\<close>, \<open>artifact.ts\<close>, \<open>manifest.ts\<close>) and \<open>Artifact_Laws\<close>; \<open>Persistence\<close>
    (\<open>checksum.ts\<close>, \<open>cursor.ts\<close>, \<open>records.ts\<close>, \<open>outbox-logic.ts\<close>, \<open>migration.ts\<close>); \<open>Memory_Store\<close>
    (\<open>memory-adapter.ts\<close>), a transaction being a script of operations. \<open>Store_Laws\<close>, \<open>Store_Props\<close> and
    \<open>Store_Queries\<close> state the invariant of the store and what each operation does; \<open>Store_Contracts\<close>
    interprets the contracts; \<open>Store_Claims\<close> and \<open>Storage_Claims\<close> hold the properties.
  \<^item> Routing: \<open>Router_Shared\<close> (\<open>shared.ts\<close>), \<open>Router_Circuit\<close> (\<open>circuit.ts\<close>), \<open>Router_Config\<close> (\<open>config.ts\<close>),
    \<open>Profiler_Estimator\<close> (\<open>profiler/src/estimator.ts\<close>), \<open>Router_Budget\<close> (\<open>budget.ts\<close>),
    \<open>Providers_Descriptor\<close> (\<open>providers/src/common.ts\<close>), \<open>Router_Candidate\<close> (\<open>candidate.ts\<close>),
    \<open>Router_Evaluate\<close> and \<open>Router_Route\<close> (\<open>router.ts\<close>: the checks of a candidate; scores, order, decision).
    \<open>Router_Circuit_Laws\<close> and \<open>Router_Circuit_Props\<close> relate the circuit to an abstract breaker;
    \<open>Router_Budget_Props\<close> says what plans promise; \<open>Router_Route_Laws\<close> traces a choice back to its
    candidate and shows that the order of the candidates does not matter; \<open>Router_Route_Props\<close> and
    \<open>Router_Route_Best\<close> hold what a decision guarantees; \<open>Router_Claims\<close> and \<open>Router_Route_Claims\<close> hold the
    properties.
  \<^item> Policy: \<open>Policy_Types\<close> (\<open>policy/src/policy.ts\<close>: vocabulary, rules, approvals, requests; traces of
    \<open>providers/src/common.ts\<close>) and \<open>Policy_Broker\<close> (\<open>createDeterministicPolicyBroker\<close> and \<open>evaluate\<close>).
    \<open>Policy_Laws\<close> defines the verdict over the set of the matched rules (\<open>policyVerdict\<close>) and proves that the
    evaluation gives it; \<open>Policy_Props\<close> draws the consequences and states what the broker needs of the
    collation (locale \<open>collation\<close>, interpreted on the comparison by code units); \<open>Policy_Total\<close> bounds what is
    digested, so that no evaluation fails; \<open>Policy_Claims\<close> holds the properties.

  \<^bold>\<open>State and operations.\<close> A \<open>graph\<close> record has the private fields of \<open>TaskGraph\<close>; a \<open>Map\<close> of tasks is the
    list of its entries in insertion order. A command is a function of the command's options and of
    the reading of the clock it takes (\<open>clock_reading\<close>, with a clock that throws or re-enters). An
    \<open>account\<close> is the immutable \<open>BudgetAccountState\<close>; its reservations are slots, because the parser of
    stored accounts lets holes through. \<open>executeAll\<close> runs a sequence of commands; a command that throws
    leaves the object as it was, which is proved for graphs and is the caller's convention for accounts.

  \<^bold>\<open>What is shown.\<close> For the task graph: all reachable and all hydrated graphs satisfy the invariant;
    statuses move along the legal edges and final ones stay; failures reach every dependent;
    an active graph can always proceed; events replay the command and are numbered without
    gaps; the topological sort decides layering, gives the priority order and its errors mean what
    they say; snapshots round-trip; stale writers fail. For accounts: commands refine an abstract
    ledger and keep the invariant; admission is exact; hard limits hold over time; settled
    reservations and cancelled accounts never change; commands are idempotent; storage
    round-trips; usage summaries are exact sums. For the rest of the domain: disclosure decisions are
    exact and guarded by the floors, default policies are monotone, retry delays are the capped
    geometric sequence, cost estimates round up by less than three micro-units, models are matched
    exactly, canonical JSON is a fixed point. For storage: reachable stores are valid, failed
    transactions leave no trace, leases exclude each other, claims take the first due messages, listings
    are complete, paths stay inside. For routing: circuits refine a four-state breaker, wait out their
    cool-down and ignore redelivered events; routes follow the disclosure policy, go to providers that can
    run them, can be paid for from the account, hold until they expire, are ranked, do not depend on the
    order of the candidates and account for every candidate; plans predict the reservation, quotes cover
    the estimates, scores stay in their bounds. For policy: a decision is the verdict over the set of the
    matched rules, more rules never weaken it, allowed actions are approved and allowed disclosures are
    guarded, one-shot approvals do not replay, the order of the rules is irrelevant, and every request that
    parses is decided.

  \<^bold>\<open>Bounds and fuel.\<close> No definition takes fuel: loops are structural or terminate by a measure
    (\<open>kahnLoop\<close> by the queue and the remaining counts, \<open>siftUp\<close> and \<open>siftDown\<close> by the index,
    \<open>canonicalClone\<close> and \<open>cloneJsonValue\<close> by the remaining depth). Integers are unbounded where the code
    checks \<open>Number.isSafeInteger\<close> or uses \<open>BigInt\<close>; \<open>nextVersion\<close> writes out that \<open>2 ^ 53\<close> no longer grows.

  Budget plans and scores are integers with the checks of \<open>checkedNumber\<close> written out.

  \<^bold>\<open>Parameters.\<close> \<open>JSON.stringify\<close>, \<open>JSON.parse\<close>, SHA-256 and base64url are arguments: the first two of
  \<open>toCanonicalJson\<close> and \<open>parseJsonText\<close>, all of them the fields of a \<open>codec\<close> elsewhere. The only law some
  properties ask of a codec is that digests are 64 hexadecimal digits (\<open>hexDigests\<close>). The counting port of
  a token estimator and the compiled prompt it counts are arguments as well. \<open>localeCompare\<close> depends on the locale of the host and
  is an argument of the policy broker, as are the source of approval ids and the observer.

  \<^bold>\<open>Not modelled.\<close> Adapters to networks, processes, file systems and SQL (\<open>provider-*\<close>, \<open>process-broker\<close>,
    \<open>workspace\<close>, \<open>artifact-store-local\<close>, \<open>persistence-sqlite\<close>) are input and output. A routing request enters
    as its parser returned it, with the fields of the task profile and of the application configuration that
    the router reads; the parsers of these, the validation of a stored decision and the observer of the
    router are left out, because they add only field checks of the kind the other parsers show. The services
    \<open>config\<close>, \<open>context\<close>, \<open>memory\<close>, \<open>prompt-compiler\<close>, \<open>provider-catalog\<close>, \<open>repository-index\<close>,
    \<open>telemetry-ledger\<close> and \<open>thinker\<close> are outside the core of planning, paying, storing, routing and policy that the
    development covers.
\<close>

end
